(* ===== verification/Prelude.thy ===== *)
theory Prelude imports Complex_Main "HOL-Library.Sublist" "HOL-Library.Char_ord" "HOL-Library.List_Lexorder" "HOL-Library.Product_Lexorder" "HOL-Library.Option_ord" begin

text \<open>
  Shared vocabulary of the development. Rust's \<open>String\<close> is its UTF-8 byte sequence, a list of
  \<open>char\<close> (bytes), so \<open>length\<close> is \<open>str::len\<close> and the lexicographic order of the list is Rust's
  order of \<open>String\<close>. \<open>Result<T, E>\<close> is the sum \<open>'e + 't\<close> (\<open>Inl\<close> the error, \<open>Inr\<close> the value).
  Unsigned integers are \<open>nat\<close>, with the width written out wherever a value is parsed or could
  overflow; protobuf enum fields (\<open>i32\<close>) are \<open>int\<close>. The theory holds the standard-library
  string operations the code calls, decimal printing and parsing, and the lemmas about them.
\<close>

named_theorems wf_intros \<open>preservation of the strict order of ordered maps and sets\<close>
named_theorems codec_simps \<open>round trips of the wire codecs\<close>

type_synonym u32 = nat
type_synonym u64 = nat
type_synonym i32 = int

abbreviation u32_max :: nat where "u32_max \<equiv> 4294967295"
abbreviation usize_max :: nat where "usize_max \<equiv> 18446744073709551615"

section \<open>Results\<close>

definition rbind :: "'e + 'a \<Rightarrow> ('a \<Rightarrow> 'e + 'b) \<Rightarrow> 'e + 'b" where
  "rbind r f = (case r of Inl e \<Rightarrow> Inl e | Inr x \<Rightarrow> f x)"

lemma rbind_simps [simp]: "rbind (Inl e) f = Inl e" "rbind (Inr x) f = f x"
  by (simp_all add: rbind_def)

lemma rbind_Inr_iff: "rbind r f = Inr y \<longleftrightarrow> (\<exists>x. r = Inr x \<and> f x = Inr y)"
  by (cases r) auto

text \<open>\<open>Option::ok_or\<close>, \<open>Result::map_err(|_| e)\<close>, \<open>Option::map(f).transpose()\<close> and \<open>collect::<Result<Vec<_>, _>>()\<close>.\<close>

definition ok_or :: "'a option \<Rightarrow> 'e \<Rightarrow> 'e + 'a" where
  "ok_or x e = (case x of None \<Rightarrow> Inl e | Some y \<Rightarrow> Inr y)"

lemma ok_or_simps [simp]: "ok_or None e = Inl e" "ok_or (Some y) e = Inr y"
  by (simp_all add: ok_or_def)

definition try_option :: "('a \<Rightarrow> 'e + 'b) \<Rightarrow> 'a option \<Rightarrow> 'e + 'b option" where
  "try_option f x = (case x of None \<Rightarrow> Inr None | Some y \<Rightarrow> rbind (f y) (\<lambda>z. Inr (Some z)))"

lemma try_option_simps [simp]:
  "try_option f None = Inr None" "try_option f (Some y) = rbind (f y) (\<lambda>z. Inr (Some z))"
  by (simp_all add: try_option_def)

fun try_map :: "('a \<Rightarrow> 'e + 'b) \<Rightarrow> 'a list \<Rightarrow> 'e + 'b list" where
  "try_map f [] = Inr []"
| "try_map f (x # xs) = rbind (f x) (\<lambda>y. rbind (try_map f xs) (\<lambda>ys. Inr (y # ys)))"

lemma try_map_all: "(\<And>x. x \<in> set xs \<Longrightarrow> f x = Inr (g x)) \<Longrightarrow> try_map f xs = Inr (map g xs)"
  by (induction xs) auto

lemma try_map_Inr_iff: "try_map f xs = Inr ys \<longleftrightarrow> list_all2 (\<lambda>x y. f x = Inr y) xs ys"
  by (induction xs arbitrary: ys) (auto simp: rbind_Inr_iff list_all2_Cons1)

text \<open>A loop over a list that threads a state and stops at the first error.\<close>

fun try_fold :: "('a \<Rightarrow> 's \<Rightarrow> 'e + 's) \<Rightarrow> 'a list \<Rightarrow> 's \<Rightarrow> 'e + 's" where
  "try_fold f [] s = Inr s"
| "try_fold f (x # xs) s = rbind (f x s) (try_fold f xs)"

lemma try_fold_inv:
  assumes "try_fold f xs s = Inr t" "P s"
    and "\<And>x s t. x \<in> set xs \<Longrightarrow> P s \<Longrightarrow> f x s = Inr t \<Longrightarrow> P t"
  shows "P t"
  using assms by (induction xs arbitrary: s) (auto simp: rbind_Inr_iff)

lemma try_fold_collect:
  assumes "try_fold f xs s = Inr t" "P s"
    and "\<And>x s t. x \<in> set xs \<Longrightarrow> P s \<Longrightarrow> f x s = Inr t \<Longrightarrow> P t \<and> E t = E s \<union> C x"
  shows "P t \<and> E t = E s \<union> (\<Union>x \<in> set xs. C x)"
  using assms
proof (induction xs arbitrary: s)
  case (Cons x xs)
  then obtain u where u: "f x s = Inr u" "try_fold f xs u = Inr t" by (auto simp: rbind_Inr_iff)
  have "P u" "E u = E s \<union> C x" using Cons.prems(3) [of x s u] Cons.prems(2) u(1) by simp_all
  moreover have "P t \<and> E t = E u \<union> (\<Union>x \<in> set xs. C x)"
    using u(2) \<open>P u\<close> Cons.prems(3) by (intro Cons.IH) auto
  ultimately show ?case by auto
qed simp

lemma try_fold_append: "try_fold f (xs @ ys) s = rbind (try_fold f xs s) (try_fold f ys)"
  by (induction xs arbitrary: s) (auto simp: rbind_def split: sum.splits)

section \<open>Strings\<close>

abbreviation starts_with :: "string \<Rightarrow> string \<Rightarrow> bool" where
  "starts_with s p \<equiv> prefix p s"

abbreviation ends_with :: "string \<Rightarrow> string \<Rightarrow> bool" where
  "ends_with s p \<equiv> suffix p s"

definition strip_prefix :: "string \<Rightarrow> string \<Rightarrow> string option" where
  "strip_prefix p s = (if prefix p s then Some (drop (length p) s) else None)"

definition strip_suffix :: "string \<Rightarrow> string \<Rightarrow> string option" where
  "strip_suffix p s = (if suffix p s then Some (take (length s - length p) s) else None)"

lemma strip_prefix_Some_iff: "strip_prefix p s = Some t \<longleftrightarrow> s = p @ t"
  by (auto simp: strip_prefix_def prefix_def)

lemma strip_prefix_append [simp]: "strip_prefix p (p @ t) = Some t"
  by (simp add: strip_prefix_Some_iff)

lemma strip_suffix_Some_iff: "strip_suffix p s = Some t \<longleftrightarrow> s = t @ p"
  by (auto simp: strip_suffix_def suffix_def)

text \<open>\<open>split_once\<close> and \<open>rsplit_once\<close>: the text around the first or the last match of a separator.\<close>

fun split_once :: "string \<Rightarrow> string \<Rightarrow> (string \<times> string) option" where
  "split_once sep [] = (if sep = [] then Some ([], []) else None)"
| "split_once sep (c # cs) =
     (if prefix sep (c # cs) then Some ([], drop (length sep) (c # cs))
      else map_option (\<lambda>(a, b). (c # a, b)) (split_once sep cs))"

definition rsplit_once :: "string \<Rightarrow> string \<Rightarrow> (string \<times> string) option" where
  "rsplit_once sep s = map_option (\<lambda>(a, b). (rev b, rev a)) (split_once (rev sep) (rev s))"

lemma split_once_Some: "split_once sep s = Some (a, b) \<Longrightarrow> s = a @ sep @ b"
proof (induction s arbitrary: a b)
  case Nil
  then show ?case by (auto split: if_splits)
next
  case (Cons c cs)
  then show ?case
    by (cases "prefix sep (c # cs)") (auto simp: prefix_def)
qed

lemma rsplit_once_Some: "rsplit_once sep s = Some (a, b) \<Longrightarrow> s = a @ sep @ b"
  using split_once_Some [of "rev sep" "rev s" "rev b" "rev a"]
  by (force simp: rsplit_once_def rev_swap)

text \<open>\<open>str::split\<close> on one byte: always at least one segment.\<close>

fun split_on :: "char \<Rightarrow> string \<Rightarrow> string list" where
  "split_on d [] = [[]]"
| "split_on d (c # cs) =
     (if c = d then [] # split_on d cs
      else case split_on d cs of [] \<Rightarrow> [[c]] | seg # segs \<Rightarrow> (c # seg) # segs)"

lemma split_on_nonempty [simp]: "split_on d s \<noteq> []"
  by (induction s) (auto split: list.splits)

lemma split_on_no_sep: "seg \<in> set (split_on d s) \<Longrightarrow> d \<notin> set seg"
  by (induction s arbitrary: seg) (fastforce split: list.splits if_splits)+

text \<open>\<open>slice::join\<close>.\<close>

fun join :: "string \<Rightarrow> string list \<Rightarrow> string" where
  "join sep [] = []"
| "join sep [x] = x"
| "join sep (x # y # ys) = x @ sep @ join sep (y # ys)"

lemma join_split_on: "join [d] (split_on d s) = s"
proof (induction s)
  case (Cons c cs)
  then show ?case
    by (cases "split_on d cs"; cases "tl (split_on d cs)") (auto split: list.splits)
qed simp

definition contains :: "string \<Rightarrow> string \<Rightarrow> bool" where
  "contains s p = (split_once p s \<noteq> None)"

text \<open>
  \<open>str::trim().is_empty()\<close>: the string is a sequence of UTF-8 encoded characters with the Unicode
  property \<open>White_Space\<close>.
\<close>

definition white_space_encodings :: "string list" where
  "white_space_encodings =
     [[CHR 0x09], [CHR 0x0A], [CHR 0x0B], [CHR 0x0C], [CHR 0x0D], [CHR 0x20],
      [CHR 0xC2, CHR 0x85], [CHR 0xC2, CHR 0xA0], [CHR 0xE1, CHR 0x9A, CHR 0x80],
      [CHR 0xE2, CHR 0x80, CHR 0x80], [CHR 0xE2, CHR 0x80, CHR 0x81], [CHR 0xE2, CHR 0x80, CHR 0x82],
      [CHR 0xE2, CHR 0x80, CHR 0x83], [CHR 0xE2, CHR 0x80, CHR 0x84], [CHR 0xE2, CHR 0x80, CHR 0x85],
      [CHR 0xE2, CHR 0x80, CHR 0x86], [CHR 0xE2, CHR 0x80, CHR 0x87], [CHR 0xE2, CHR 0x80, CHR 0x88],
      [CHR 0xE2, CHR 0x80, CHR 0x89], [CHR 0xE2, CHR 0x80, CHR 0x8A], [CHR 0xE2, CHR 0x80, CHR 0xA8],
      [CHR 0xE2, CHR 0x80, CHR 0xA9], [CHR 0xE2, CHR 0x80, CHR 0xAF], [CHR 0xE2, CHR 0x81, CHR 0x9F],
      [CHR 0xE3, CHR 0x80, CHR 0x80]]"

fun blank :: "string \<Rightarrow> bool" where
  "blank [] = True"
| "blank [a] = ([a] \<in> set white_space_encodings)"
| "blank [a, b] =
     (if [a] \<in> set white_space_encodings then blank [b] else [a, b] \<in> set white_space_encodings)"
| "blank (a # b # c # s) =
     (if [a] \<in> set white_space_encodings then blank (b # c # s)
      else if [a, b] \<in> set white_space_encodings then blank (c # s)
      else [a, b, c] \<in> set white_space_encodings \<and> blank s)"

lemma blank_Nil_iff: "\<not> blank s \<Longrightarrow> s \<noteq> []"
  by auto

definition ascii_lower :: "char \<Rightarrow> char" where
  "ascii_lower c =
     (if CHR 0x41 \<le> c \<and> c \<le> CHR 0x5A then char_of ((of_char c :: nat) + 32) else c)"

abbreviation to_ascii_lowercase :: "string \<Rightarrow> string" where
  "to_ascii_lowercase s \<equiv> map ascii_lower s"

text \<open>The separator \<open>" \<middot> "\<close> (U+00B7 between blanks).\<close>

definition middot :: string where
  "middot = [CHR 0x20, CHR 0xC2, CHR 0xB7, CHR 0x20]"

section \<open>Decimal numbers\<close>

definition digit_char :: "nat \<Rightarrow> char" where
  "digit_char d = char_of (48 + d)"

definition digit_value :: "char \<Rightarrow> nat option" where
  "digit_value c = (let n = of_char c :: nat in if 48 \<le> n \<and> n \<le> 57 then Some (n - 48) else None)"

fun nat_str :: "nat \<Rightarrow> string" where
  "nat_str n = (if n < 10 then [digit_char n] else nat_str (n div 10) @ [digit_char (n mod 10)])"

declare nat_str.simps [simp del]

fun digits_value :: "nat \<Rightarrow> string \<Rightarrow> nat option" where
  "digits_value acc [] = Some acc"
| "digits_value acc (c # cs) =
     (case digit_value c of None \<Rightarrow> None | Some d \<Rightarrow> digits_value (acc * 10 + d) cs)"

text \<open>\<open>str::parse\<close> for an unsigned type with the given maximum: one optional \<open>+\<close>, then digits only.\<close>

definition parse_nat :: "nat \<Rightarrow> string \<Rightarrow> nat option" where
  "parse_nat bound s =
     (let ds = (if s \<noteq> [] \<and> hd s = CHR ''+'' then tl s else s)
      in if ds = [] then None
         else case digits_value 0 ds of
                None \<Rightarrow> None
              | Some n \<Rightarrow> if n \<le> bound then Some n else None)"

lemma digit_value_digit_char [simp]: "d < 10 \<Longrightarrow> digit_value (digit_char d) = Some d"
  by (simp add: digit_value_def digit_char_def)

lemma digit_char_inj: "d < 10 \<Longrightarrow> e < 10 \<Longrightarrow> digit_char d = digit_char e \<Longrightarrow> d = e"
  by (metis digit_value_digit_char option.inject)

lemma digits_value_append:
  "digits_value acc (xs @ ys) =
     (case digits_value acc xs of None \<Rightarrow> None | Some n \<Rightarrow> digits_value n ys)"
  by (induction xs arbitrary: acc) (auto split: option.splits)

lemma nat_str_nonempty [simp]: "nat_str n \<noteq> []"
  by (subst nat_str.simps) simp

lemma digits_value_nat_str [simp]: "digits_value 0 (nat_str n) = Some n"
proof (induction n rule: nat_str.induct)
  case (1 n)
  show ?case
  proof (cases "n < 10")
    case True
    then show ?thesis by (subst nat_str.simps) simp
  next
    case False
    then show ?thesis
      using 1 by (subst nat_str.simps) (simp add: digits_value_append)
  qed
qed

lemma nat_str_inj: "nat_str m = nat_str n \<longleftrightarrow> m = n"
  by (metis digits_value_nat_str option.inject)

lemma nat_str_digits: "c \<in> set (nat_str n) \<Longrightarrow> \<exists>d<10. c = digit_char d"
proof (induction n rule: nat_str.induct)
  case (1 n)
  then show ?case
    by (cases "n < 10") (auto simp: nat_str.simps [of n] intro: exI [where x = "n mod 10"])
qed

lemma colon_notin_nat_str [simp]: "CHR '':'' \<notin> set (nat_str n)"
proof
  assume "CHR '':'' \<in> set (nat_str n)"
  then obtain d where "d < 10" "CHR '':'' = digit_char d" using nat_str_digits by blast
  then have "digit_value (CHR '':'') = Some d" by simp
  then show False by (simp add: digit_value_def)
qed

lemma parse_nat_nat_str [simp]: "n \<le> bound \<Longrightarrow> parse_nat bound (nat_str n) = Some n"
proof -
  assume "n \<le> bound"
  have "CHR ''+'' \<notin> set (nat_str n)"
  proof
    assume "CHR ''+'' \<in> set (nat_str n)"
    then obtain d where "d < 10" "CHR ''+'' = digit_char d" using nat_str_digits by blast
    then have "digit_value (CHR ''+'') = Some d" by simp
    then show False by (simp add: digit_value_def)
  qed
  then have "\<not> (nat_str n \<noteq> [] \<and> hd (nat_str n) = CHR ''+'')"
    by (metis hd_in_set)
  with \<open>n \<le> bound\<close> show ?thesis by (simp add: parse_nat_def Let_def)
qed

section \<open>Length-prefixed fields\<close>

text \<open>
  The fingerprints of the code are sequences of \<open>len:text\<close> fields. Such a field can be split off
  the front of a text in one way only.
\<close>

definition framed :: "string \<Rightarrow> string" where
  "framed s = nat_str (length s) @ '':'' @ s"

lemma append_sep_unique:
  assumes "xs @ d # ys = xs' @ d # ys'" "d \<notin> set xs" "d \<notin> set xs'"
  shows "xs = xs' \<and> ys = ys'"
  using assms by (induction xs arbitrary: xs') (case_tac xs'; auto)+

lemma framed_append_inj: "framed s @ xs = framed t @ ys \<Longrightarrow> s = t \<and> xs = ys"
proof -
  assume eq: "framed s @ xs = framed t @ ys"
  then have "nat_str (length s) = nat_str (length t) \<and> s @ xs = t @ ys"
    by (intro append_sep_unique [where d = "CHR '':''"]) (auto simp: framed_def)
  then have "length s = length t" "s @ xs = t @ ys" by (simp_all add: nat_str_inj)
  then show ?thesis by simp
qed

lemma framed_nonempty [simp]: "framed s \<noteq> []"
  by (simp add: framed_def)

lemma concat_framed_inj: "concat (map framed ss) = concat (map framed ts) \<Longrightarrow> ss = ts"
proof (induction ss arbitrary: ts)
  case Nil
  then show ?case by (cases ts) auto
next
  case (Cons s ss)
  then show ?case by (cases ts) (auto dest: framed_append_inj)
qed

section \<open>Derived orders\<close>

text \<open>\<open>#[derive(PartialOrd, Ord)]\<close> compares the fields in order: the order of an injective key.\<close>

lemma linorder_by_key:
  assumes "\<And>x y. le x y \<longleftrightarrow> key x \<le> (key y :: 'b::linorder)"
    and "\<And>x y. lt x y \<longleftrightarrow> key x < key y"
    and "\<And>x y. key x = key y \<Longrightarrow> x = y"
  shows "class.linorder le lt"
  by standard (auto simp: assms(1,2) dest: assms(3) antisym)

section \<open>Lists\<close>

text \<open>\<open>Vec::dedup\<close> removes consecutive duplicates (\<^const>\<open>remdups_adj\<close>); after \<open>sort\<close> the result is strictly ordered.\<close>

definition sort_dedup :: "('a::linorder) list \<Rightarrow> 'a list" where
  "sort_dedup xs = remdups_adj (sort xs)"

lemma set_sort_dedup [simp]: "set (sort_dedup xs) = set xs"
  by (simp add: sort_dedup_def)

lemma sorted_wrt_remdups_adj: "sorted xs \<Longrightarrow> sorted_wrt (<) (remdups_adj (xs :: 'a::linorder list))"
  by (induction xs rule: remdups_adj.induct) (auto simp: less_le)

lemma strict_sorted_sort_dedup [simp]: "sorted_wrt (<) (sort_dedup xs)"
  by (simp add: sort_dedup_def sorted_wrt_remdups_adj)

lemma sort_dedup_id: "sorted_wrt (<) xs \<Longrightarrow> sort_dedup xs = xs"
  by (simp add: sort_dedup_def strict_sorted_iff sorted_sort_id remdups_adj_distinct)

lemma sort_dedup_idem [simp]: "sort_dedup (sort_dedup xs) = sort_dedup xs"
  by (rule sort_dedup_id) simp

text \<open>\<open>dedup\<close> for a type whose equality is that of a key: the first of each run is kept.\<close>

fun dedup_by :: "('a \<Rightarrow> 'k) \<Rightarrow> 'a list \<Rightarrow> 'a list" where
  "dedup_by key (x # y # xs) =
     (if key x = key y then dedup_by key (x # xs) else x # dedup_by key (y # xs))"
| "dedup_by key xs = xs"

lemma set_dedup_by: "set (dedup_by key xs) \<subseteq> set xs"
  by (induction key xs rule: dedup_by.induct) auto

lemma map_key_dedup_by: "map key (dedup_by key xs) = remdups_adj (map key xs)"
  by (induction key xs rule: dedup_by.induct) auto

definition sort_dedup_by :: "('a \<Rightarrow> 'k::linorder) \<Rightarrow> 'a list \<Rightarrow> 'a list" where
  "sort_dedup_by key xs = dedup_by key (sort_key key xs)"

lemma keys_sort_dedup_by: "map key (sort_dedup_by key xs) = sort_dedup (map key xs)"
proof -
  have insort: "map key (insort_key key x ys) = insort (key x) (map key ys)" for x ys
    by (induction ys) auto
  have "map key (sort_key key xs) = sort (map key xs)"
    by (induction xs) (auto simp: insort)
  then show ?thesis by (simp add: sort_dedup_by_def sort_dedup_def map_key_dedup_by)
qed

lemma keyset_sort_dedup_by: "key ` set (sort_dedup_by key xs) = key ` set xs"
  by (metis keys_sort_dedup_by set_sort_dedup set_map)

lemma set_sort_dedup_by: "set (sort_dedup_by key xs) \<subseteq> set xs"
  using set_dedup_by by (fastforce simp: sort_dedup_by_def)

section \<open>Paths\<close>

text \<open>
  \<open>std::path::Path\<close> (Unix): equality and order are those of the components, so repeated and
  trailing separators and interior \<open>.\<close> segments do not count. The components carry the rank of
  their variant: root 1, leading current directory 2, parent 3, a name 4.
\<close>

definition path_components :: "string \<Rightarrow> (nat \<times> string) list" where
  "path_components p =
     (let segments = split_on CHR ''/'' p
      in (if starts_with p ''/'' then [(1, '''')]
          else if hd segments = ''.'' then [(2, '''')] else [])
         @ map (\<lambda>s. if s = ''..'' then (3, '''') else (4, s))
             (filter (\<lambda>s. s \<noteq> [] \<and> s \<noteq> ''.'') segments))"

definition path_eq :: "string \<Rightarrow> string \<Rightarrow> bool" where
  "path_eq p q = (path_components p = path_components q)"

text \<open>A search that finds nothing.\<close>

lemma find_None_iff_all: "List.find P xs = None \<longleftrightarrow> (\<forall>x \<in> set xs. \<not> P x)"
  by (auto simp: find_None_iff)

section \<open>Invariants of step relations\<close>

locale step_invariant =
  fixes step :: "'s \<Rightarrow> 's \<Rightarrow> bool" and inv :: "'s \<Rightarrow> bool"
  assumes preserved: "inv s \<Longrightarrow> step s t \<Longrightarrow> inv t"
begin

lemma reachable: "step\<^sup>*\<^sup>* s t \<Longrightarrow> inv s \<Longrightarrow> inv t"
  by (induction rule: rtranclp_induct) (auto intro: preserved)

end

end
