(* ===== verification/Ordered.thy ===== *)
theory Ordered imports Prelude begin

text \<open>
  Rust's \<open>BTreeMap\<close> and \<open>BTreeSet\<close>, modelled by what the code can observe of them: the list of
  their entries in ascending key order. Iteration is the list itself, so the order in which the
  code visits entries is part of the model. The interface the components rely on is stated as
  locales (a lookup law for stores, an ascending enumeration for ordered ones) and interpreted
  on the two implementations.
\<close>

type_synonym ('k, 'v) bmap = "('k \<times> 'v) list"
type_synonym 'a bset = "'a list"

abbreviation ascending :: "('a::linorder) list \<Rightarrow> bool" where
  "ascending xs \<equiv> sorted_wrt (<) xs"

lemma ascending_unique: "ascending xs \<Longrightarrow> ascending ys \<Longrightarrow> set xs = set ys \<Longrightarrow> xs = ys"
  by (rule strict_sorted_equal)

lemma ascending_distinct: "ascending xs \<Longrightarrow> distinct xs"
  by (simp add: strict_sorted_iff)

section \<open>Interfaces\<close>

locale store =
  fixes emp :: "'m" and get :: "'m \<Rightarrow> 'k \<Rightarrow> 'v option" and put :: "'k \<Rightarrow> 'v \<Rightarrow> 'm \<Rightarrow> 'm"
  assumes get_emp: "get emp k = None"
    and get_put: "get (put k v m) = (get m)(k \<mapsto> v)"
begin

lemma get_fold: "get (fold (\<lambda>(k, v). put k v) kvs m) = get m ++ map_of (rev kvs)"
  by (induction kvs arbitrary: m) (auto simp: get_put map_add_def fun_eq_iff split: option.splits)

text \<open>Collecting pairs: the last pair of a key wins, and a key is bound iff some pair has it.\<close>

lemma get_collect_None: "get (fold (\<lambda>(k, v). put k v) kvs emp) k = None \<longleftrightarrow> k \<notin> fst ` set kvs"
  by (auto simp: get_fold get_emp map_add_None map_of_eq_None_iff)

lemma get_collect_last: "get (fold (\<lambda>(k, v). put k v) (kvs @ [(k, v)]) emp) k = Some v"
  by (simp add: get_put)

end

locale ordered_store = store +
  fixes enum :: "'m \<Rightarrow> ('k::linorder) list" and wf :: "'m \<Rightarrow> bool"
  assumes wf_emp: "wf emp"
    and wf_put: "wf m \<Longrightarrow> wf (put k v m)"
    and enum_ascending: "wf m \<Longrightarrow> sorted_wrt (<) (enum m)"
    and enum_dom: "set (enum m) = dom (get m)"
begin

lemma wf_fold: "wf m \<Longrightarrow> wf (fold (\<lambda>(k, v). put k v) kvs m)"
  by (induction kvs arbitrary: m) (auto simp: wf_put)

lemma enum_determined: "wf m \<Longrightarrow> wf n \<Longrightarrow> get m = get n \<Longrightarrow> enum m = enum n"
  by (intro strict_sorted_equal) (auto simp: enum_ascending enum_dom)

lemma enum_put: "set (enum (put k v m)) = insert k (set (enum m))"
  by (auto simp: enum_dom get_put)

end

section \<open>BTreeMap\<close>

definition bm_wf :: "('k::linorder, 'v) bmap \<Rightarrow> bool" where
  "bm_wf m = ascending (map fst m)"

fun bm_put :: "'k::linorder \<Rightarrow> 'v \<Rightarrow> ('k, 'v) bmap \<Rightarrow> ('k, 'v) bmap" where
  "bm_put k v [] = [(k, v)]"
| "bm_put k v ((k', v') # m) =
     (if k < k' then (k, v) # (k', v') # m
      else if k = k' then (k, v) # m
      else (k', v') # bm_put k v m)"

text \<open>\<open>entry(k)\<close> followed by \<open>and_modify\<close>, \<open>or_insert\<close>, \<open>or_default\<close>: the new value from the old one.\<close>

definition bm_entry :: "'k::linorder \<Rightarrow> ('v option \<Rightarrow> 'v) \<Rightarrow> ('k, 'v) bmap \<Rightarrow> ('k, 'v) bmap" where
  "bm_entry k f m = bm_put k (f (map_of m k)) m"

definition bm_of_list :: "('k::linorder \<times> 'v) list \<Rightarrow> ('k, 'v) bmap" where
  "bm_of_list kvs = fold (\<lambda>(k, v). bm_put k v) kvs []"

definition bm_map :: "('v \<Rightarrow> 'w) \<Rightarrow> ('k, 'v) bmap \<Rightarrow> ('k, 'w) bmap" where
  "bm_map f m = map (\<lambda>(k, v). (k, f v)) m"

lemma bm_put_last: "\<forall>x \<in> fst ` set m. x < k \<Longrightarrow> bm_put k v m = m @ [(k, v)]"
  by (induction m) auto

lemma map_of_bm_put [simp]: "map_of (bm_put k v m) = (map_of m)(k \<mapsto> v)"
  by (induction m) auto

lemma keys_bm_put [simp]: "fst ` set (bm_put k v m) = insert k (fst ` set m)"
  by (simp flip: dom_map_of_conv_image_fst)

lemma bm_wf_Nil [simp]: "bm_wf []"
  by (simp add: bm_wf_def)

lemma bm_wf_put [simp, wf_intros]: "bm_wf m \<Longrightarrow> bm_wf (bm_put k v m)"
proof (induction m)
  case (Cons p m)
  obtain k' v' where [simp]: "p = (k', v')" by (cases p)
  from Cons.prems have low: "\<forall>x \<in> fst ` set m. k' < x" and "bm_wf m"
    by (auto simp: bm_wf_def)
  with Cons.IH have IH: "bm_wf (bm_put k v m)" by simp
  show ?case
  proof (cases "k < k' \<or> k = k'")
    case True
    with Cons.prems low show ?thesis by (auto simp: bm_wf_def)
  next
    case False
    with IH low show ?thesis
      by (auto simp: bm_wf_def simp flip: set_map) (metis insertE keys_bm_put not_less_iff_gr_or_eq set_map)
  qed
qed (simp add: bm_wf_def)

lemma bm_wf_distinct: "bm_wf m \<Longrightarrow> distinct (map fst m)"
  by (simp add: bm_wf_def ascending_distinct)

interpretation bm: ordered_store "[]" map_of bm_put "map fst" bm_wf
  by unfold_locales (auto simp: bm_wf_def [symmetric] dom_map_of_conv_image_fst)

lemma bm_wf_entry [simp, wf_intros]: "bm_wf m \<Longrightarrow> bm_wf (bm_entry k f m)"
  by (simp add: bm_entry_def)

lemma map_of_bm_entry [simp]: "map_of (bm_entry k f m) = (map_of m)(k \<mapsto> f (map_of m k))"
  by (simp add: bm_entry_def)

lemma keys_bm_entry [simp]: "fst ` set (bm_entry k f m) = insert k (fst ` set m)"
  by (simp add: bm_entry_def)

lemma bm_wf_of_list [simp, wf_intros]: "bm_wf (bm_of_list kvs)"
  by (simp add: bm_of_list_def bm.wf_fold)

lemma map_of_bm_of_list: "map_of (bm_of_list kvs) = map_of (rev kvs)"
  by (simp add: bm_of_list_def bm.get_fold)

lemma keys_bm_of_list: "fst ` set (bm_of_list kvs) = fst ` set kvs"
  by (metis dom_map_of_conv_image_fst map_of_bm_of_list set_rev)

lemma map_of_bm_map: "map_of (bm_map f m) k = map_option f (map_of m k)"
  by (induction m) (auto simp: bm_map_def)

lemma keys_bm_map [simp]: "map fst (bm_map f m) = map fst m"
  by (induction m) (auto simp: bm_map_def)

lemma bm_wf_map [simp, wf_intros]: "bm_wf (bm_map f m) = bm_wf m"
  by (simp add: bm_wf_def)

lemma bm_wf_filter [wf_intros]: "bm_wf m \<Longrightarrow> bm_wf (filter P m)"
  by (simp add: bm_wf_def sorted_wrt_map sorted_wrt_filter)

lemma bm_wf_in_iff: "bm_wf m \<Longrightarrow> (k, v) \<in> set m \<longleftrightarrow> map_of m k = Some v"
  by (meson bm_wf_distinct map_of_SomeD map_of_is_SomeI)

lemma bm_ext: "bm_wf m \<Longrightarrow> bm_wf n \<Longrightarrow> map_of m = map_of n \<Longrightarrow> m = n"
proof -
  assume wf: "bm_wf m" "bm_wf n" and eq: "map_of m = map_of n"
  then have "set m = set n" by (auto simp: bm_wf_in_iff)
  with wf show "m = n"
    by (intro map_sorted_distinct_set_unique [where f = fst])
      (auto simp: bm_wf_def strict_sorted_iff distinct_map)
qed

text \<open>Puts at different keys commute, and the second put at a key replaces the first.\<close>

lemma bm_put_commute: "bm_wf m \<Longrightarrow> k \<noteq> k' \<Longrightarrow> bm_put k v (bm_put k' v' m) = bm_put k' v' (bm_put k v m)"
  by (rule bm_ext) (auto simp: fun_upd_twist)

section \<open>BTreeSet\<close>

fun bs_insert :: "'a::linorder \<Rightarrow> 'a bset \<Rightarrow> 'a bset" where
  "bs_insert x [] = [x]"
| "bs_insert x (y # s) = (if x < y then x # y # s else if x = y then y # s else y # bs_insert x s)"

definition bs_of_list :: "('a::linorder) list \<Rightarrow> 'a bset" where
  "bs_of_list xs = fold bs_insert xs []"

definition bs_union :: "('a::linorder) bset \<Rightarrow> 'a bset \<Rightarrow> 'a bset" where
  "bs_union s t = fold bs_insert t s"

lemma set_bs_insert [simp]: "set (bs_insert x s) = insert x (set s)"
  by (induction s) auto

lemma ascending_bs_insert [simp, wf_intros]: "ascending s \<Longrightarrow> ascending (bs_insert x s)"
  by (induction s) (auto simp: less_le_not_le)

locale set_like =
  fixes emp :: "'s" and ins :: "'a \<Rightarrow> 's \<Rightarrow> 's" and elems :: "'s \<Rightarrow> 'a set" and wf :: "'s \<Rightarrow> bool"
  assumes elems_emp: "elems emp = {}"
    and elems_ins: "elems (ins x s) = insert x (elems s)"
    and wf_emp: "wf emp"
    and wf_ins: "wf s \<Longrightarrow> wf (ins x s)"
begin

lemma elems_fold: "elems (fold ins xs s) = elems s \<union> set xs"
  by (induction xs arbitrary: s) (auto simp: elems_ins)

lemma wf_fold: "wf s \<Longrightarrow> wf (fold ins xs s)"
  by (induction xs arbitrary: s) (auto simp: wf_ins)

end

interpretation bs: set_like "[]" bs_insert set "ascending"
  by unfold_locales auto

lemma set_bs_of_list [simp]: "set (bs_of_list xs) = set xs"
  by (simp add: bs_of_list_def bs.elems_fold)

lemma ascending_bs_of_list [simp, wf_intros]: "ascending (bs_of_list xs)"
  by (simp add: bs_of_list_def bs.wf_fold)

lemma set_bs_union [simp]: "set (bs_union s t) = set s \<union> set t"
  by (simp add: bs_union_def bs.elems_fold)

lemma ascending_bs_union [simp, wf_intros]: "ascending s \<Longrightarrow> ascending (bs_union s t)"
  by (simp add: bs_union_def bs.wf_fold)

lemma bs_eq_iff: "ascending s \<Longrightarrow> ascending t \<Longrightarrow> s = t \<longleftrightarrow> set s = set t"
  by (auto intro: ascending_unique)

lemma bs_of_list_eq_sort_dedup: "bs_of_list xs = sort_dedup xs"
  by (rule ascending_unique) auto

lemma bs_of_list_id: "ascending xs \<Longrightarrow> bs_of_list xs = xs"
  by (simp add: bs_of_list_eq_sort_dedup sort_dedup_id)

lemma bs_insert_absorb: "ascending s \<Longrightarrow> x \<in> set s \<Longrightarrow> bs_insert x s = s"
  by (rule ascending_unique) auto

lemma bs_insert_commute: "ascending s \<Longrightarrow> bs_insert x (bs_insert y s) = bs_insert y (bs_insert x s)"
  by (rule ascending_unique) auto


lemma sort_dedup_by_id: "ascending (map key xs) \<Longrightarrow> sort_dedup_by key xs = xs"
proof -
  assume a: "ascending (map key xs)"
  then have "sort_key key xs = xs" by (simp add: sort_key_id_if_sorted strict_sorted_iff)
  moreover have "dedup_by key ys = ys" if "distinct (map key ys)" for ys
    using that by (induction key ys rule: dedup_by.induct) auto
  ultimately show ?thesis using a by (simp add: sort_dedup_by_def strict_sorted_iff)
qed

section \<open>Removal\<close>

definition bm_remove :: "'k \<Rightarrow> ('k, 'v) bmap \<Rightarrow> ('k, 'v) bmap" where
  "bm_remove k m = filter (\<lambda>(k', _). k' \<noteq> k) m"

definition bs_remove :: "'a \<Rightarrow> 'a bset \<Rightarrow> 'a bset" where
  "bs_remove x s = filter (\<lambda>y. y \<noteq> x) s"

lemma map_of_bm_remove [simp]: "map_of (bm_remove k m) = (map_of m)(k := None)"
  by (induction m) (auto simp: bm_remove_def)

lemma keys_bm_remove [simp]: "fst ` set (bm_remove k m) = fst ` set m - {k}"
  by (auto simp: bm_remove_def)

lemma bm_wf_remove [simp, wf_intros]: "bm_wf m \<Longrightarrow> bm_wf (bm_remove k m)"
  unfolding bm_remove_def bm_wf_def sorted_wrt_map by (rule sorted_wrt_filter)

lemma set_bs_remove [simp]: "set (bs_remove x s) = set s - {x}"
  by (auto simp: bs_remove_def)

lemma ascending_bs_remove [simp, wf_intros]: "ascending s \<Longrightarrow> ascending (bs_remove x s)"
  by (simp add: bs_remove_def sorted_wrt_filter)

section \<open>Maps to sets\<close>

text \<open>\<open>map.entry(k).or_default().insert(x)\<close> and the lookup that reads an absent key as empty.\<close>

definition bmm_add :: "'k::linorder \<Rightarrow> 'a::linorder \<Rightarrow> ('k, 'a bset) bmap \<Rightarrow> ('k, 'a bset) bmap" where
  "bmm_add k x m = bm_entry k (\<lambda>s. bs_insert x (case s of None \<Rightarrow> [] | Some s \<Rightarrow> s)) m"

definition bmm_get :: "('k, 'a bset) bmap \<Rightarrow> 'k \<Rightarrow> 'a bset" where
  "bmm_get m k = (case map_of m k of None \<Rightarrow> [] | Some s \<Rightarrow> s)"

definition bmm_rel :: "('k, 'a bset) bmap \<Rightarrow> ('k \<times> 'a) set" where
  "bmm_rel m = {(k, x). x \<in> set (bmm_get m k)}"

definition bmm_wf :: "('k::linorder, ('a::linorder) bset) bmap \<Rightarrow> bool" where
  "bmm_wf m \<longleftrightarrow> bm_wf m \<and> (\<forall>k s. map_of m k = Some s \<longrightarrow> s \<noteq> [] \<and> ascending s)"

locale relation_store =
  fixes emp :: "'m" and add :: "'k \<Rightarrow> 'a \<Rightarrow> 'm \<Rightarrow> 'm" and rel :: "'m \<Rightarrow> ('k \<times> 'a) set" and wf :: "'m \<Rightarrow> bool"
  assumes rel_emp: "rel emp = {}" and rel_add: "rel (add k x m) = insert (k, x) (rel m)"
    and wf_emp: "wf emp" and wf_add: "wf m \<Longrightarrow> wf (add k x m)"
begin

lemma rel_fold: "rel (fold (\<lambda>(k, x). add k x) kxs m) = rel m \<union> set kxs"
  by (induction kxs arbitrary: m) (auto simp: rel_add)

end

interpretation bmm: relation_store "[]" bmm_add bmm_rel bmm_wf
proof
  show "bmm_rel [] = {}" by (simp add: bmm_rel_def bmm_get_def)
  show "bmm_rel (bmm_add k x m) = insert (k, x) (bmm_rel m)" for k x m
    by (auto simp: bmm_rel_def bmm_get_def bmm_add_def split: option.splits if_splits)
  show "bmm_wf []" by (simp add: bmm_wf_def)
  show "bmm_wf (bmm_add k x m)" if "bmm_wf m" for k x m
  proof -
    have "bs_insert x s \<noteq> []" for s by (cases s) auto
    with that show ?thesis by (auto simp: bmm_wf_def bmm_add_def split: option.splits if_splits)
  qed
qed

lemma bmm_get_ascending: "bmm_wf m \<Longrightarrow> ascending (bmm_get m k)"
  by (auto simp: bmm_wf_def bmm_get_def split: option.splits)

lemma bmm_get_rel: "x \<in> set (bmm_get m k) \<longleftrightarrow> (k, x) \<in> bmm_rel m"
  by (simp add: bmm_rel_def)

end
