(* ===== verification/Domain_Error.thy ===== *)
theory Domain_Error imports Prelude begin

text \<open>
  \<open>crates/domain/src/error.rs\<close>: the public error codes, their wire names and the error values
  that cross the process boundary. The boxed cause of an error is opaque text here; no public
  rendering reads it.
\<close>

datatype beholder_error_code =
    DaemonUnavailable
  | GarbageCollectionFailed
  | GarbageCollectionWorkerFailed
  | SchedulerUnavailable
  | RepositoryDeleteFailed
  | RepositoryIndexFailed
  | RepositoryIndexWorkerFailed
  | RepositoryNotRegistered
  | RepositoryObservationCountOverflow
  | RepositoryRegistryFailed
  | SourceRecoveryUnsafe
  | TransportGrpc
  | WorkspaceIndexFailed
  | WorkspaceIndexWorkerFailed
  | WorkspaceNotRegistered
  | WorkspaceObservationCountOverflow
  | WorkspaceRegistryFailed
  | WorkspaceRevisionUnavailable

fun error_code_as_str :: "beholder_error_code \<Rightarrow> string" where
  "error_code_as_str DaemonUnavailable = ''beholder.daemon.unavailable''"
| "error_code_as_str GarbageCollectionFailed = ''beholder.garbage_collection.failed''"
| "error_code_as_str GarbageCollectionWorkerFailed = ''beholder.garbage_collection.worker_failed''"
| "error_code_as_str SchedulerUnavailable = ''beholder.scheduler.unavailable''"
| "error_code_as_str RepositoryDeleteFailed = ''beholder.repository.delete_failed''"
| "error_code_as_str RepositoryIndexFailed = ''beholder.repository.index_failed''"
| "error_code_as_str RepositoryIndexWorkerFailed = ''beholder.repository.index_worker_failed''"
| "error_code_as_str RepositoryNotRegistered = ''beholder.repository.not_registered''"
| "error_code_as_str RepositoryObservationCountOverflow = ''beholder.repository.observation_count_overflow''"
| "error_code_as_str RepositoryRegistryFailed = ''beholder.repository.registry_failed''"
| "error_code_as_str SourceRecoveryUnsafe = ''beholder.source.recovery_unsafe''"
| "error_code_as_str TransportGrpc = ''beholder.transport.grpc''"
| "error_code_as_str WorkspaceIndexFailed = ''beholder.workspace.index_failed''"
| "error_code_as_str WorkspaceIndexWorkerFailed = ''beholder.workspace.index_worker_failed''"
| "error_code_as_str WorkspaceNotRegistered = ''beholder.workspace.not_registered''"
| "error_code_as_str WorkspaceObservationCountOverflow = ''beholder.workspace.observation_count_overflow''"
| "error_code_as_str WorkspaceRegistryFailed = ''beholder.workspace.registry_failed''"
| "error_code_as_str WorkspaceRevisionUnavailable = ''beholder.workspace.revision_unavailable''"

text \<open>\<open>FromStr\<close>: a match on the text, \<open>Err(())\<close> for every other text.\<close>

definition error_code_from_str :: "string \<Rightarrow> unit + beholder_error_code" where
  "error_code_from_str value =
     (if value = ''beholder.daemon.unavailable'' then Inr DaemonUnavailable
      else if value = ''beholder.garbage_collection.failed'' then Inr GarbageCollectionFailed
      else if value = ''beholder.garbage_collection.worker_failed'' then Inr GarbageCollectionWorkerFailed
      else if value = ''beholder.scheduler.unavailable'' then Inr SchedulerUnavailable
      else if value = ''beholder.repository.delete_failed'' then Inr RepositoryDeleteFailed
      else if value = ''beholder.repository.index_failed'' then Inr RepositoryIndexFailed
      else if value = ''beholder.repository.index_worker_failed'' then Inr RepositoryIndexWorkerFailed
      else if value = ''beholder.repository.not_registered'' then Inr RepositoryNotRegistered
      else if value = ''beholder.repository.observation_count_overflow'' then Inr RepositoryObservationCountOverflow
      else if value = ''beholder.repository.registry_failed'' then Inr RepositoryRegistryFailed
      else if value = ''beholder.source.recovery_unsafe'' then Inr SourceRecoveryUnsafe
      else if value = ''beholder.transport.grpc'' then Inr TransportGrpc
      else if value = ''beholder.workspace.index_failed'' then Inr WorkspaceIndexFailed
      else if value = ''beholder.workspace.index_worker_failed'' then Inr WorkspaceIndexWorkerFailed
      else if value = ''beholder.workspace.not_registered'' then Inr WorkspaceNotRegistered
      else if value = ''beholder.workspace.observation_count_overflow'' then Inr WorkspaceObservationCountOverflow
      else if value = ''beholder.workspace.registry_failed'' then Inr WorkspaceRegistryFailed
      else if value = ''beholder.workspace.revision_unavailable'' then Inr WorkspaceRevisionUnavailable
      else Inl ())"

datatype beholder_error_kind =
  DeadlineExceeded | InvalidInput | NotFound | FailedPrecondition | Unavailable | Internal

record beholder_error =
  be_kind :: beholder_error_kind
  be_code :: beholder_error_code
  be_message :: string
  be_source :: "string option"

definition new_error :: "beholder_error_kind \<Rightarrow> beholder_error_code \<Rightarrow> string \<Rightarrow> beholder_error" where
  "new_error kind code message =
     \<lparr>be_kind = kind, be_code = code, be_message = message, be_source = None\<rparr>"

definition with_source :: "beholder_error \<Rightarrow> string \<Rightarrow> beholder_error" where
  "with_source e cause = e\<lparr>be_source := Some cause\<rparr>"

text \<open>\<open>Display\<close>, and \<open>Debug\<close>, which delegates to it.\<close>

definition display_error :: "beholder_error \<Rightarrow> string" where
  "display_error e = ''['' @ error_code_as_str (be_code e) @ ''] '' @ be_message e"

text \<open>
  The recovery policy of the syntax frontends: a boxed analysis error is an \<open>UnsafeTreeRecovery\<close>
  or some other error, known by its text only.
\<close>

record unsafe_tree_recovery =
  utr_language :: string
  utr_reason :: string

definition display_unsafe_tree_recovery :: "unsafe_tree_recovery \<Rightarrow> string" where
  "display_unsafe_tree_recovery e =
     utr_language e @ '' source cannot be recovered safely: '' @ utr_reason e"

datatype boxed_error = UnsafeTreeRecovery unsafe_tree_recovery | OtherError string

fun display_boxed_error :: "boxed_error \<Rightarrow> string" where
  "display_boxed_error (UnsafeTreeRecovery e) = display_unsafe_tree_recovery e"
| "display_boxed_error (OtherError text) = text"

record source_analysis_error =
  sae_unsafe_recovery :: bool
  sae_message :: string

definition source_analysis_error_from_source :: "string \<Rightarrow> boxed_error \<Rightarrow> source_analysis_error" where
  "source_analysis_error_from_source path error =
     \<lparr>sae_unsafe_recovery = (case error of UnsafeTreeRecovery _ \<Rightarrow> True | OtherError _ \<Rightarrow> False),
      sae_message = ''failed to analyze '' @ path @ '': '' @ display_boxed_error error\<rparr>"

definition is_unsafe_recovery :: "source_analysis_error \<Rightarrow> bool" where
  "is_unsafe_recovery e = sae_unsafe_recovery e"

text \<open>The name of a code parses back to it, and only the eighteen names parse.\<close>

lemma error_code_from_str_as_str: "error_code_from_str (error_code_as_str c) = Inr c"
  by (cases c) (simp_all add: error_code_from_str_def)

lemma error_code_from_str_sound: "error_code_from_str s = Inr c \<Longrightarrow> s = error_code_as_str c"
  by (simp add: error_code_from_str_def split: if_split_asm)

text \<open>No cause reaches the public rendering, whatever its text.\<close>

lemma display_error_with_source: "display_error (with_source e cause) = display_error e"
  by (simp add: display_error_def with_source_def)

lemma is_unsafe_recovery_iff:
  "is_unsafe_recovery (source_analysis_error_from_source path error) \<longleftrightarrow> (\<exists>e. error = UnsafeTreeRecovery e)"
  by (auto simp: is_unsafe_recovery_def source_analysis_error_from_source_def split: boxed_error.splits)

text \<open>
  The wire name of a public error code is parsed back to exactly that code, a text that
  parses is the name of the code it parses to, and so a text is rejected iff it is no code's name.
\<close>

theorem error_code_roundtrip:
  "error_code_from_str s = Inr c \<longleftrightarrow> s = error_code_as_str c"
  by (metis error_code_from_str_as_str error_code_from_str_sound)

end
