(* ===== verification/Domain_Semantic.thy ===== *)
theory Domain_Semantic imports Ordered begin

text \<open>
  \<open>crates/domain/src/semantic.rs\<close>: source positions and ranges, evidence and its two textual forms,
  relations, observations, entity facts and the endpoint-completeness check every publisher runs.
  \<open>serde_json\<close> is third-party code: the functions that print and parse a payload are parameters
  (\<open>to_json\<close>, \<open>from_json\<close>) of the definitions that use them.
\<close>

section \<open>Positions, ranges and their derived order\<close>

record source_position =
  sp_line :: u32
  sp_character :: u32

record source_range =
  sr_start :: source_position
  sr_end :: source_position

record source_excerpt =
  sx_text :: string
  sx_range :: source_range

instantiation source_position_ext :: (linorder) linorder begin

definition less_eq_source_position_ext :: "'a source_position_scheme \<Rightarrow> 'a source_position_scheme \<Rightarrow> bool" where
  "less_eq_source_position_ext p q =
     ((sp_line p, sp_character p, source_position.more p) \<le> (sp_line q, sp_character q, source_position.more q))"

definition less_source_position_ext :: "'a source_position_scheme \<Rightarrow> 'a source_position_scheme \<Rightarrow> bool" where
  "less_source_position_ext p q =
     ((sp_line p, sp_character p, source_position.more p) < (sp_line q, sp_character q, source_position.more q))"

instance
  by (rule linorder.intro_of_class,
      rule linorder_by_key [OF less_eq_source_position_ext_def less_source_position_ext_def]) auto

end

instantiation source_range_ext :: (linorder) linorder begin

definition less_eq_source_range_ext :: "'a source_range_scheme \<Rightarrow> 'a source_range_scheme \<Rightarrow> bool" where
  "less_eq_source_range_ext p q =
     ((sr_start p, sr_end p, source_range.more p) \<le> (sr_start q, sr_end q, source_range.more q))"

definition less_source_range_ext :: "'a source_range_scheme \<Rightarrow> 'a source_range_scheme \<Rightarrow> bool" where
  "less_source_range_ext p q =
     ((sr_start p, sr_end p, source_range.more p) < (sr_start q, sr_end q, source_range.more q))"

instance
  by (rule linorder.intro_of_class,
      rule linorder_by_key [OF less_eq_source_range_ext_def less_source_range_ext_def]) auto

end

instantiation source_excerpt_ext :: (linorder) linorder begin

definition less_eq_source_excerpt_ext :: "'a source_excerpt_scheme \<Rightarrow> 'a source_excerpt_scheme \<Rightarrow> bool" where
  "less_eq_source_excerpt_ext p q =
     ((sx_text p, sx_range p, source_excerpt.more p) \<le> (sx_text q, sx_range q, source_excerpt.more q))"

definition less_source_excerpt_ext :: "'a source_excerpt_scheme \<Rightarrow> 'a source_excerpt_scheme \<Rightarrow> bool" where
  "less_source_excerpt_ext p q =
     ((sx_text p, sx_range p, source_excerpt.more p) < (sx_text q, sx_range q, source_excerpt.more q))"

instance
  by (rule linorder.intro_of_class,
      rule linorder_by_key [OF less_eq_source_excerpt_ext_def less_source_excerpt_ext_def]) auto

end

definition range_is_valid :: "source_range \<Rightarrow> bool" where
  "range_is_valid r = (sr_start r \<le> sr_end r)"

lemma position_le_iff:
  "(p :: source_position) \<le> q \<longleftrightarrow>
     sp_line p < sp_line q \<or> sp_line p = sp_line q \<and> sp_character p \<le> sp_character q"
  by (auto simp: less_eq_source_position_ext_def)

section \<open>Evidence contexts\<close>

datatype condition_construct = If | Cond | Ternary | TemplateIf
datatype condition_arm_kind = Then | ElseIf | Else | Clause | Consequence | Alternative
datatype pattern_construct = Match | Case | SwitchStatement | SwitchExpression
datatype callable_clause_role = Declaration | Enclosing | SelectedTarget

datatype evidence_context =
    ConditionArm (ca_construct: condition_construct) (ca_arm: condition_arm_kind)
      (ca_condition: "source_excerpt option") (ca_arm_range: source_range)
  | PatternArm (pa_construct: pattern_construct) (pa_selector: "source_excerpt option")
      (pa_pattern: "source_excerpt option") (pa_guard: "source_excerpt option")
      (pa_is_default: bool) (pa_arm_range: source_range)
  | CallableClause (cc_role: callable_clause_role) (cc_signature: source_excerpt)
      (cc_guard: "source_excerpt option") (cc_definition_range: source_range)

definition excerpt_is_valid :: "source_excerpt option \<Rightarrow> bool" where
  "excerpt_is_valid e = (case e of None \<Rightarrow> True | Some x \<Rightarrow> range_is_valid (sx_range x))"

fun context_is_valid :: "evidence_context \<Rightarrow> bool" where
  "context_is_valid (ConditionArm _ _ condition arm_range) =
     (excerpt_is_valid condition \<and> range_is_valid arm_range)"
| "context_is_valid (PatternArm _ selector pattern guard _ arm_range) =
     (excerpt_is_valid selector \<and> excerpt_is_valid pattern \<and> excerpt_is_valid guard
      \<and> range_is_valid arm_range)"
| "context_is_valid (CallableClause _ signature guard definition_range) =
     (range_is_valid (sx_range signature) \<and> excerpt_is_valid guard
      \<and> range_is_valid definition_range)"

section \<open>Evidence\<close>

type_synonym entity_id = string
type_synonym evidence = string

definition STRUCTURED_EVIDENCE_PREFIX :: string where
  "STRUCTURED_EVIDENCE_PREFIX = ''beholder:evidence:v1:''"

record evidence_payload =
  ep_path :: "string option"
  ep_line :: "u32 option"
  ep_detail :: "string option"
  ep_range :: "source_range option"
  ep_contexts :: "evidence_context list"

definition payload_legacy :: "string \<Rightarrow> evidence_payload" where
  "payload_legacy evidence =
     (let (location, detail) =
            (case split_once middot evidence of
               None \<Rightarrow> (evidence, None)
             | Some (location, detail) \<Rightarrow> (location, Some detail));
          otherwise = (if detail \<noteq> None then Some location else None, None);
          (path, line) =
            (case rsplit_once '':'' location of
               None \<Rightarrow> otherwise
             | Some (path, line) \<Rightarrow>
                 (case parse_nat u32_max line of
                    None \<Rightarrow> otherwise
                  | Some n \<Rightarrow> (Some path, Some n)));
          detail =
            (case detail of
               Some d \<Rightarrow> Some d
             | None \<Rightarrow> if path = None then Some evidence else None)
      in \<lparr>ep_path = path, ep_line = line, ep_detail = detail, ep_range = None, ep_contexts = []\<rparr>)"

definition payload_validate :: "evidence_payload \<Rightarrow> string + unit" where
  "payload_validate p =
     (if (case ep_range p of None \<Rightarrow> False | Some r \<Rightarrow> \<not> range_is_valid r)
         \<or> list_ex (\<lambda>c. \<not> context_is_valid c) (ep_contexts p)
      then Inl ''evidence contains an invalid source range''
      else Inr ())"

definition evidence_structured ::
    "(evidence_payload \<Rightarrow> string + string) \<Rightarrow> evidence_payload \<Rightarrow> string + evidence" where
  "evidence_structured to_json payload =
     rbind (payload_validate payload) (\<lambda>_.
       rbind (to_json payload) (\<lambda>text. Inr (STRUCTURED_EVIDENCE_PREFIX @ text)))"

definition evidence_decode :: "(string \<Rightarrow> evidence_payload option) \<Rightarrow> evidence \<Rightarrow> evidence_payload" where
  "evidence_decode from_json e =
     (case Option.bind (strip_prefix STRUCTURED_EVIDENCE_PREFIX e) from_json of
        None \<Rightarrow> payload_legacy e
      | Some payload \<Rightarrow> if payload_validate payload = Inr () then payload else payload_legacy e)"

lemma payload_validate_cases: "payload_validate p = Inr () \<or> payload_validate p = Inl ''evidence contains an invalid source range''"
  by (simp add: payload_validate_def)

lemma payload_legacy_valid: "payload_validate (payload_legacy e) = Inr ()"
  by (auto simp: payload_validate_def payload_legacy_def Let_def split: option.splits prod.splits)

text \<open>A separator found at the first place it can be: nothing before it, its last byte aside, holds one.\<close>

lemma split_once_first:
  assumes "split_once sep (x @ butlast sep) = None" "sep \<noteq> []"
  shows "split_once sep (x @ sep @ y) = Some (x, y)"
  using assms
proof (induction x)
  case Nil
  then show ?case by (cases sep) auto
next
  case (Cons c x)
  have "\<not> prefix sep (c # x @ sep @ y)"
  proof
    assume "prefix sep (c # x @ sep @ y)"
    then have "prefix sep ((c # x @ butlast sep) @ last sep # y)"
      using \<open>sep \<noteq> []\<close> by (metis append.assoc append_Cons append_Nil append_butlast_last_id)
    moreover have "length sep \<le> length (c # x @ butlast sep)" by simp
    ultimately have "prefix sep (c # x @ butlast sep)"
      by (meson prefix_length_prefix prefixI)
    with Cons.prems show False by simp
  qed
  moreover have "split_once sep (x @ butlast sep) = None"
    using Cons.prems by (auto split: if_splits)
  ultimately show ?case using Cons.IH Cons.prems by simp
qed

lemma split_once_append_Some: "split_once sep x \<noteq> None \<Longrightarrow> split_once sep (x @ y) \<noteq> None"
proof (induction x)
  case Nil
  then show ?case by (cases y) (auto split: if_splits)
next
  case (Cons c x)
  have "prefix sep (c # x) \<Longrightarrow> prefix sep (c # x @ y)"
    by (metis append_Cons prefixI prefix_order.trans)
  with Cons show ?case by (auto split: if_splits)
qed

lemma split_once_append_None: "split_once sep (x @ y) = None \<Longrightarrow> split_once sep x = None"
  using split_once_append_Some by blast

lemma split_once_single: "d \<notin> set x \<Longrightarrow> split_once [d] (x @ d # y) = Some (x, y)"
  by (induction x) auto

lemma rsplit_once_single: "d \<notin> set y \<Longrightarrow> rsplit_once [d] (x @ d # y) = Some (x, y)"
  by (simp add: rsplit_once_def split_once_single)


section \<open>Confidence, provenance, diagnostics\<close>

datatype confidence = Exact | Inferred

text \<open>An \<open>f64\<close> is the rational it denotes; the literal \<open>0.6\<close> is the double nearest to 3/5.\<close>

fun confidence_score :: "confidence \<Rightarrow> rat" where
  "confidence_score Exact = 1"
| "confidence_score Inferred = 5404319552844595 / 9007199254740992"

datatype provenance = Ast | Compiler | Descriptor | Generated | UniqueNameHeuristic

fun provenance_as_str :: "provenance \<Rightarrow> string" where
  "provenance_as_str Ast = ''ast''"
| "provenance_as_str Compiler = ''compiler''"
| "provenance_as_str Descriptor = ''descriptor''"
| "provenance_as_str Generated = ''generated''"
| "provenance_as_str UniqueNameHeuristic = ''unique_name_heuristic''"

datatype analysis_diagnostic_severity = KnownLimitation | Warning

fun severity_as_str :: "analysis_diagnostic_severity \<Rightarrow> string" where
  "severity_as_str KnownLimitation = ''known_limitation''"
| "severity_as_str Warning = ''warning''"

record analysis_diagnostic =
  ad_code :: string
  ad_severity :: analysis_diagnostic_severity
  ad_path :: string
  ad_line :: "u32 option"
  ad_detail :: "string option"

section \<open>Relations and observations\<close>

datatype structural_relation = Defines | FieldOf | RequestType | ResponseType

datatype dependency_relation =
    BindsContract | Calls | CallsGraphql | CallsRpc | ConsumedBy | Implements | ImplementedBy
  | Imports | Publishes | Requires | ResolvedBy | Selects | Uses

fun dependency_relation_as_str :: "dependency_relation \<Rightarrow> string" where
  "dependency_relation_as_str BindsContract = ''binds_contract''"
| "dependency_relation_as_str Calls = ''calls''"
| "dependency_relation_as_str CallsGraphql = ''calls_graphql''"
| "dependency_relation_as_str CallsRpc = ''calls_rpc''"
| "dependency_relation_as_str ConsumedBy = ''consumed_by''"
| "dependency_relation_as_str Implements = ''implements''"
| "dependency_relation_as_str ImplementedBy = ''implemented_by''"
| "dependency_relation_as_str Imports = ''imports''"
| "dependency_relation_as_str Publishes = ''publishes''"
| "dependency_relation_as_str Requires = ''requires''"
| "dependency_relation_as_str ResolvedBy = ''resolved_by''"
| "dependency_relation_as_str Selects = ''selects''"
| "dependency_relation_as_str Uses = ''uses''"

datatype semantic_relation = Structural structural_relation | Dependency dependency_relation

fun semantic_relation_as_str :: "semantic_relation \<Rightarrow> string" where
  "semantic_relation_as_str (Structural Defines) = ''defines''"
| "semantic_relation_as_str (Structural FieldOf) = ''field_of''"
| "semantic_relation_as_str (Structural RequestType) = ''request_type''"
| "semantic_relation_as_str (Structural ResponseType) = ''response_type''"
| "semantic_relation_as_str (Dependency relation) = dependency_relation_as_str relation"

fun relation_dependency :: "semantic_relation \<Rightarrow> dependency_relation option" where
  "relation_dependency (Dependency relation) = Some relation"
| "relation_dependency (Structural _) = None"

record observation =
  ob_from :: entity_id
  ob_relation :: semantic_relation
  ob_to :: entity_id
  ob_evidence :: evidence
  ob_confidence :: confidence
  ob_provenance :: provenance

definition observation_structural :: "entity_id \<Rightarrow> structural_relation \<Rightarrow> entity_id \<Rightarrow> evidence \<Rightarrow> observation" where
  "observation_structural source relation target evidence =
     \<lparr>ob_from = source, ob_relation = Structural relation, ob_to = target, ob_evidence = evidence,
      ob_confidence = Exact, ob_provenance = Ast\<rparr>"

definition observation_dependency :: "entity_id \<Rightarrow> dependency_relation \<Rightarrow> entity_id \<Rightarrow> evidence \<Rightarrow> observation" where
  "observation_dependency source relation target evidence =
     \<lparr>ob_from = source, ob_relation = Dependency relation, ob_to = target, ob_evidence = evidence,
      ob_confidence = Exact, ob_provenance = Ast\<rparr>"

definition observation_descriptor :: "entity_id \<Rightarrow> structural_relation \<Rightarrow> entity_id \<Rightarrow> evidence \<Rightarrow> observation" where
  "observation_descriptor source relation target descriptor =
     \<lparr>ob_from = source, ob_relation = Structural relation, ob_to = target, ob_evidence = descriptor,
      ob_confidence = Exact, ob_provenance = Descriptor\<rparr>"

definition observation_generated :: "entity_id \<Rightarrow> structural_relation \<Rightarrow> entity_id \<Rightarrow> evidence \<Rightarrow> observation" where
  "observation_generated source relation target evidence =
     \<lparr>ob_from = source, ob_relation = Structural relation, ob_to = target, ob_evidence = evidence,
      ob_confidence = Exact, ob_provenance = Generated\<rparr>"

record source_span =
  ss_path :: string
  ss_start :: source_position
  ss_end :: source_position

record semantic_candidate =
  sc_id :: string
  sc_repository :: string
  sc_from :: entity_id
  sc_relation :: dependency_relation
  sc_unresolved_to :: entity_id
  sc_span :: source_span
  sc_evidence :: evidence

record candidate_override =
  co_candidate_id :: string
  co_resolved_to :: entity_id
  co_evidence :: evidence

record dependency_override =
  do_from :: entity_id
  do_relation :: dependency_relation
  do_unresolved_to :: entity_id
  do_resolved_to :: entity_id
  do_evidence :: evidence
  do_confidence :: confidence
  do_provenance :: provenance

record fact_changes =
  fc_inserted :: nat
  fc_updated :: nat
  fc_removed :: nat
  fc_unchanged :: nat

text \<open>Relation names: one per relation, so a relation is known by its name.\<close>

lemma dependency_relation_as_str_inj: "dependency_relation_as_str r = dependency_relation_as_str q \<longleftrightarrow> r = q"
  by (cases r; cases q) simp_all

lemma semantic_relation_as_str_inj: "semantic_relation_as_str r = semantic_relation_as_str q \<longleftrightarrow> r = q"
proof (cases r; cases q)
  fix a b
  assume [simp]: "r = Structural a" "q = Structural b"
  show ?thesis by (cases a; cases b) simp_all
next
  fix a b
  assume [simp]: "r = Structural a" "q = Dependency b"
  show ?thesis by (cases a; cases b) simp_all
next
  fix a b
  assume [simp]: "r = Dependency a" "q = Structural b"
  show ?thesis by (cases a; cases b) simp_all
next
  fix a b
  assume [simp]: "r = Dependency a" "q = Dependency b"
  show ?thesis by (simp add: dependency_relation_as_str_inj)
qed

section \<open>Entity facts\<close>

datatype entity_kind =
    Callable | GraphqlArgument | GraphqlEnumValue | GraphqlField | GraphqlOperation | GraphqlType
  | GrpcOperation | KafkaTopic | Namespace | ProtoField | ProtoMethod | ProtoService | ProtoType
  | Service | UnityPrefab

datatype graphql_operation_kind = Mutation | Query | Subscription
datatype graphql_type_kind = GqlEnum | GqlInput | GqlInterface | GqlObject | GqlScalar | GqlUnion
datatype proto_type_kind = ProtoKindEnum | ProtoKindMessage
datatype rpc_cardinality = BidirectionalStreaming | ClientStreaming | ServerStreaming | Unary

datatype entity_metadata =
    GraphqlOperationMetadata graphql_operation_kind
  | GraphqlTypeMetadata graphql_type_kind
  | ProtoMethodMetadata rpc_cardinality
  | ProtoTypeMetadata proto_type_kind

record entity_fact =
  ef_id :: entity_id
  ef_kind :: entity_kind
  ef_metadata :: "entity_metadata option"

datatype grpc_binding_role = Client | Server

fun role_as_str :: "grpc_binding_role \<Rightarrow> string" where
  "role_as_str Client = ''client''"
| "role_as_str Server = ''server''"

record grpc_binding_candidate =
  gb_local_symbol :: entity_id
  gb_role :: grpc_binding_role
  gb_service :: string
  gb_method :: string
  gb_cardinality :: rpc_cardinality
  gb_evidence :: evidence
  gb_confidence :: confidence
  gb_provenance :: provenance

record fact_shard =
  fs_repository :: string
  fs_producer :: string
  fs_owner :: entity_id
  fs_version :: string
  fs_entities :: "entity_fact list"
  fs_observations :: "observation list"

definition metadata_matches_kind :: "entity_kind \<Rightarrow> entity_metadata option \<Rightarrow> bool" where
  "metadata_matches_kind kind metadata =
     (case metadata of
        Some (GraphqlOperationMetadata _) \<Rightarrow> kind = GraphqlOperation
      | Some (GraphqlTypeMetadata _) \<Rightarrow> kind = GraphqlType
      | Some (ProtoMethodMetadata _) \<Rightarrow> kind = ProtoMethod
      | Some (ProtoTypeMetadata _) \<Rightarrow> kind = ProtoType
      | None \<Rightarrow>
          kind \<in> {Callable, GraphqlArgument, GraphqlEnumValue, GraphqlField, GrpcOperation, KafkaTopic,
                  Namespace, ProtoField, ProtoService, Service, UnityPrefab})"

definition entity_fact_new :: "entity_id \<Rightarrow> entity_kind \<Rightarrow> entity_metadata option \<Rightarrow> string + entity_fact" where
  "entity_fact_new i kind metadata =
     (if metadata_matches_kind kind metadata
      then Inr \<lparr>ef_id = i, ef_kind = kind, ef_metadata = metadata\<rparr>
      else Inl ''entity metadata does not match entity kind'')"

section \<open>Endpoint completeness\<close>

type_synonym selected_facts = "(entity_id, entity_kind \<times> entity_metadata option) bmap"

definition select_fact :: "entity_fact \<Rightarrow> selected_facts \<Rightarrow> string + selected_facts" where
  "select_fact entity selected =
     (case map_of selected (ef_id entity) of
        Some (kind, metadata) \<Rightarrow>
          if kind \<noteq> ef_kind entity \<or> metadata \<noteq> ef_metadata entity
          then Inl (''conflicting entity facts for '' @ ef_id entity)
          else Inr selected
      | None \<Rightarrow> Inr (bm_put (ef_id entity) (ef_kind entity, ef_metadata entity) selected))"

definition required_endpoints :: "observation list \<Rightarrow> dependency_override list \<Rightarrow> entity_id bset" where
  "required_endpoints observations overrides =
     fold (\<lambda>r s. bs_insert (do_resolved_to r) (bs_insert (do_from r) s)) overrides
       (fold (\<lambda>ob s. bs_insert (ob_to ob) (bs_insert (ob_from ob) s)) observations [])"

definition validate_entity_complete_semantics ::
    "entity_fact list \<Rightarrow> observation list \<Rightarrow> dependency_override list \<Rightarrow> string + unit" where
  "validate_entity_complete_semantics entities observations overrides =
     rbind (try_fold select_fact entities []) (\<lambda>selected.
       case List.find (\<lambda>i. map_of selected i = None) (required_endpoints observations overrides) of
         Some missing \<Rightarrow> Inl (''missing entity fact for relationship endpoint '' @ missing)
       | None \<Rightarrow> Inr ())"


text \<open>The facts agree: one kind and one metadata per entity. Every endpoint has a fact.\<close>

definition facts_agree :: "entity_fact list \<Rightarrow> bool" where
  "facts_agree entities \<longleftrightarrow>
     (\<forall>e \<in> set entities. \<forall>f \<in> set entities.
        ef_id e = ef_id f \<longrightarrow> ef_kind e = ef_kind f \<and> ef_metadata e = ef_metadata f)"

definition relationship_endpoints :: "observation list \<Rightarrow> dependency_override list \<Rightarrow> entity_id set" where
  "relationship_endpoints observations overrides =
     ob_from ` set observations \<union> ob_to ` set observations
     \<union> do_from ` set overrides \<union> do_resolved_to ` set overrides"

lemma required_endpoints_spec:
  "set (required_endpoints observations overrides) = relationship_endpoints observations overrides
   \<and> ascending (required_endpoints observations overrides)"
proof -
  have obs: "set (fold (\<lambda>ob s. bs_insert (ob_to ob) (bs_insert (ob_from ob) s)) xs s)
       = set s \<union> ob_from ` set xs \<union> ob_to ` set xs
     \<and> (ascending s \<longrightarrow> ascending (fold (\<lambda>ob s. bs_insert (ob_to ob) (bs_insert (ob_from ob) s)) xs s))"
    for xs :: "observation list" and s
    by (induction xs arbitrary: s) auto
  have ovs: "set (fold (\<lambda>r s. bs_insert (do_resolved_to r) (bs_insert (do_from r) s)) xs s)
       = set s \<union> do_from ` set xs \<union> do_resolved_to ` set xs
     \<and> (ascending s \<longrightarrow> ascending (fold (\<lambda>r s. bs_insert (do_resolved_to r) (bs_insert (do_from r) s)) xs s))"
    for xs :: "dependency_override list" and s
    by (induction xs arbitrary: s) auto
  from obs [of observations "[]"]
    ovs [of overrides "fold (\<lambda>ob s. bs_insert (ob_to ob) (bs_insert (ob_from ob) s)) observations []"]
  show ?thesis
    by (auto simp: required_endpoints_def relationship_endpoints_def)
qed

lemma select_fact_Inr_iff:
  "select_fact e selected = Inr selected' \<longleftrightarrow>
     (case map_of selected (ef_id e) of
        None \<Rightarrow> selected' = bm_put (ef_id e) (ef_kind e, ef_metadata e) selected
      | Some km \<Rightarrow> km = (ef_kind e, ef_metadata e) \<and> selected' = selected)"
  by (auto simp: select_fact_def split: option.splits prod.splits)

lemma facts_agree_snoc:
  "facts_agree (es @ [e]) \<longleftrightarrow>
     facts_agree es \<and>
     (\<forall>f \<in> set es. ef_id f = ef_id e \<longrightarrow> ef_kind f = ef_kind e \<and> ef_metadata f = ef_metadata e)"
  by (auto simp: facts_agree_def)

text \<open>The loop over the facts: it succeeds iff they agree, and then knows exactly their ids.\<close>

lemma select_facts_spec:
  "(case try_fold select_fact es [] of
      Inl _ \<Rightarrow> \<not> facts_agree es
    | Inr selected \<Rightarrow> facts_agree es
        \<and> (\<forall>i. map_of selected i = None \<longleftrightarrow> i \<notin> ef_id ` set es)
        \<and> (\<forall>e \<in> set es. map_of selected (ef_id e) = Some (ef_kind e, ef_metadata e)))"
proof (induction es rule: rev_induct)
  case Nil
  then show ?case by (simp add: facts_agree_def)
next
  case (snoc e es)
  show ?case
  proof (cases "try_fold select_fact es []")
    case (Inl m)
    with snoc show ?thesis by (simp add: try_fold_append facts_agree_snoc)
  next
    case (Inr selected)
    with snoc have agree: "facts_agree es"
      and dom: "\<And>i. map_of selected i = None \<longleftrightarrow> i \<notin> ef_id ` set es"
      and val: "\<And>f. f \<in> set es \<Longrightarrow> map_of selected (ef_id f) = Some (ef_kind f, ef_metadata f)"
      by auto
    show ?thesis
    proof (cases "map_of selected (ef_id e)")
      case None
      then have "select_fact e selected = Inr (bm_put (ef_id e) (ef_kind e, ef_metadata e) selected)"
        by (simp add: select_fact_Inr_iff)
      moreover from None dom have "ef_id e \<notin> ef_id ` set es" by blast
      then have ne: "ef_id f \<noteq> ef_id e" if "f \<in> set es" for f
        using that by (metis image_eqI)
      moreover have "facts_agree (es @ [e])"
        using agree ne by (auto simp: facts_agree_snoc)
      ultimately show ?thesis using Inr dom val
        by (simp add: try_fold_append)
    next
      case (Some km)
      obtain f where f: "f \<in> set es" "ef_id f = ef_id e"
        using dom [of "ef_id e"] Some by fastforce
      then have km: "km = (ef_kind f, ef_metadata f)" using val [of f] Some by simp
      show ?thesis
      proof (cases "km = (ef_kind e, ef_metadata e)")
        case True
        with Some have "select_fact e selected = Inr selected" by (simp add: select_fact_Inr_iff)
        moreover have "facts_agree (es @ [e])"
          unfolding facts_agree_snoc using agree f km True unfolding facts_agree_def
          by (metis Pair_inject)
        moreover have "ef_id ` set (es @ [e]) = ef_id ` set es"
        proof -
          have "ef_id e \<in> ef_id ` set es" using f image_eqI [of "ef_id e" ef_id f "set es"] by simp
          then show ?thesis by (simp add: insert_absorb)
        qed
        ultimately show ?thesis using Inr dom val Some True
          by (simp add: try_fold_append)
      next
        case False
        then have "\<not> facts_agree (es @ [e])" using f km by (auto simp: facts_agree_snoc)
        moreover have "select_fact e selected \<noteq> Inr s" for s
          using Some False by (simp add: select_fact_Inr_iff)
        ultimately show ?thesis using Inr
          by (cases "select_fact e selected") (auto simp: try_fold_append)
      qed
    qed
  qed
qed

lemma find_least:
  "ascending xs \<Longrightarrow> List.find P xs = Some x \<longleftrightarrow> x \<in> set xs \<and> P x \<and> (\<forall>y \<in> set xs. P y \<longrightarrow> x \<le> y)"
proof (induction xs)
  case (Cons a xs)
  show ?case
  proof (cases "P a")
    case True
    with Cons.prems show ?thesis by (auto simp: less_le_not_le)
  next
    case False
    with Cons show ?thesis by auto
  qed
qed simp

lemma validate_cases:
  "validate_entity_complete_semantics entities observations overrides =
     (case try_fold select_fact entities [] of
        Inl m \<Rightarrow> Inl m
      | Inr selected \<Rightarrow>
          (case List.find (\<lambda>i. i \<notin> ef_id ` set entities) (required_endpoints observations overrides) of
             Some missing \<Rightarrow> Inl (''missing entity fact for relationship endpoint '' @ missing)
           | None \<Rightarrow> Inr ()))"
  using select_facts_spec [of entities]
  by (auto simp: validate_entity_complete_semantics_def split: sum.splits)

section \<open>Properties\<close>

text \<open>
  A set of facts, observations and overrides is accepted exactly when all facts about one
  entity agree and every endpoint of every observation and every resolved override has a fact.
\<close>

theorem validate_accepts_iff_complete:
  "validate_entity_complete_semantics entities observations overrides = Inr () \<longleftrightarrow>
     facts_agree entities \<and> relationship_endpoints observations overrides \<subseteq> ef_id ` set entities"
  using select_facts_spec [of entities] required_endpoints_spec [of observations overrides]
  by (auto simp: validate_cases find_None_iff_all find_Some_iff split: sum.splits option.splits
      dest!: nth_mem)

text \<open>
  When the facts agree, the rejection names a missing endpoint, and of several missing ones
  the least: the message does not depend on the order of the observations.
\<close>

theorem validate_reports_least_missing:
  assumes "facts_agree entities"
    and "missing \<in> relationship_endpoints observations overrides - ef_id ` set entities"
    and "\<And>i. i \<in> relationship_endpoints observations overrides - ef_id ` set entities \<Longrightarrow> missing \<le> i"
  shows "validate_entity_complete_semantics entities observations overrides =
     Inl (''missing entity fact for relationship endpoint '' @ missing)"
proof -
  have "List.find (\<lambda>i. i \<notin> ef_id ` set entities) (required_endpoints observations overrides) = Some missing"
    using assms(2,3) required_endpoints_spec [of observations overrides] by (subst find_least) auto
  with assms(1) select_facts_spec [of entities] show ?thesis
    by (auto simp: validate_cases split: sum.splits)
qed

theorem validate_reports_least_missing_witness:
  "validate_entity_complete_semantics [\<lparr>ef_id = ''b'', ef_kind = Callable, ef_metadata = None\<rparr>]
     [observation_dependency ''d'' Calls ''b'' ''e'', observation_dependency ''b'' Uses ''c'' ''e''] [] =
   Inl (''missing entity fact for relationship endpoint '' @ ''c'')"
  by (rule validate_reports_least_missing)
    (auto simp: facts_agree_def relationship_endpoints_def observation_dependency_def)

text \<open>
  Structured evidence decodes to the payload it was made from, when the JSON printer and
  parser agree on that payload: the prefix marks it, and no valid payload is taken for legacy text.
\<close>

theorem structured_evidence_roundtrip:
  assumes "evidence_structured to_json payload = Inr e"
    and "\<And>text. to_json payload = Inr text \<Longrightarrow> from_json text = Some payload"
  shows "evidence_decode from_json e = payload"
  using assms
  by (auto simp: evidence_structured_def evidence_decode_def rbind_Inr_iff)

theorem structured_evidence_roundtrip_witness:
  "evidence_decode (\<lambda>t. Some \<lparr>ep_path = None, ep_line = None, ep_detail = Some t, ep_range = None, ep_contexts = []\<rparr>)
     (STRUCTURED_EVIDENCE_PREFIX @ ''x'') =
   \<lparr>ep_path = None, ep_line = None, ep_detail = Some ''x'', ep_range = None, ep_contexts = []\<rparr>"
  by (rule structured_evidence_roundtrip [where to_json = "\<lambda>p. ok_or (ep_detail p) ''no detail''"])
    (auto simp: evidence_structured_def payload_validate_def)

text \<open>
  Decoding is total and never yields an inverted range, whatever the text and whatever the
  JSON parser returns: a reserved payload that does not parse or does not validate is read as
  legacy text.
\<close>

theorem decoded_evidence_valid: "payload_validate (evidence_decode from_json e) = Inr ()"
  by (simp add: evidence_decode_def payload_legacy_valid split: option.splits)

text \<open>
  C6. Legacy evidence \<open>path:line\<close>, with or without a detail after the middle dot, is read back
  into exactly its parts, colons in the path included.
\<close>

theorem legacy_location_roundtrip:
  assumes "line \<le> u32_max"
    and "split_once middot (path @ '':'' @ nat_str line @ butlast middot) = None"
  shows "payload_legacy (path @ '':'' @ nat_str line @ (case detail of None \<Rightarrow> [] | Some d \<Rightarrow> middot @ d)) =
     \<lparr>ep_path = Some path, ep_line = Some line, ep_detail = detail, ep_range = None, ep_contexts = []\<rparr>"
proof -
  let ?loc = "path @ '':'' @ nat_str line"
  have none: "split_once middot ?loc = None"
    using assms(2) by (metis append.assoc split_once_append_None)
  have some: "split_once middot (?loc @ middot @ d) = Some (?loc, d)" for d
    using assms(2) by (intro split_once_first) (auto simp: middot_def)
  have "rsplit_once '':'' ?loc = Some (path, nat_str line)"
    by (simp add: rsplit_once_single)
  with none some [simplified] assms(1) show ?thesis
    by (cases detail) (simp_all add: payload_legacy_def)
qed

theorem legacy_location_roundtrip_witness:
  "payload_legacy (''a:b.rs:7'' @ middot @ ''call'') =
     \<lparr>ep_path = Some ''a:b.rs'', ep_line = Some 7, ep_detail = Some ''call'', ep_range = None, ep_contexts = []\<rparr>"
proof -
  have seven: "nat_str 7 = ''7''" by code_simp
  have "split_once middot (''a:b.rs'' @ '':'' @ nat_str 7 @ butlast middot) = None" by code_simp
  then show ?thesis
    using legacy_location_roundtrip [of 7 "''a:b.rs''" "Some ''call''"] by (simp add: seven)
qed

end
