(* ===== verification/Domain_Workspace.thy ===== *)
theory Domain_Workspace imports Ordered begin

text \<open>
  \<open>crates/domain/src/workspace.rs\<close>: workspaces and the views a revision is published under. A
  \<open>PathBuf\<close> is its text, compared by components (\<^const>\<open>path_components\<close>). An \<open>expect\<close> that can
  panic makes the result an option, \<open>None\<close> the panic.
\<close>

section \<open>Workspaces\<close>

record logical_repository =
  lr_identity :: string

record workspace_repository =
  wr_repository :: logical_repository
  wr_display_name :: string
  wr_base :: string
  wr_alternatives :: "string list"

record protobuf_descriptor_source =
  pd_repository :: logical_repository
  pd_path :: string

record workspace =
  ws_name :: string
  ws_repositories :: "workspace_repository list"
  ws_protobuf_descriptors :: "protobuf_descriptor_source list"
  ws_enabled_plugins :: "string bset"

abbreviation wr_identity :: "workspace_repository \<Rightarrow> string" where
  "wr_identity r \<equiv> lr_identity (wr_repository r)"

definition merge_repository ::
    "workspace_repository \<Rightarrow> (string, workspace_repository) bmap \<Rightarrow> string + (string, workspace_repository) bmap" where
  "merge_repository r merged =
     (if blank (wr_identity r) then Inl ''repository identity must not be empty''
      else if blank (wr_display_name r) then Inl ''repository display name must not be empty''
      else case map_of merged (wr_identity r) of
             Some existing \<Rightarrow>
               Inr (bm_put (wr_identity r)
                 (existing\<lparr>wr_alternatives := wr_alternatives existing @ wr_base r # wr_alternatives r\<rparr>) merged)
           | None \<Rightarrow> Inr (bm_put (wr_identity r) r merged))"

definition settle_alternatives :: "workspace_repository \<Rightarrow> workspace_repository" where
  "settle_alternatives r =
     r\<lparr>wr_alternatives :=
         filter (\<lambda>p. \<not> path_eq p (wr_base r)) (sort_dedup_by path_components (wr_alternatives r))\<rparr>"

definition workspace_new :: "string \<Rightarrow> workspace_repository list \<Rightarrow> string + workspace" where
  "workspace_new name repositories =
     (if blank name then Inl ''workspace name must not be empty''
      else if repositories = [] then Inl ''workspace must contain a repository''
      else rbind (try_fold merge_repository repositories []) (\<lambda>merged.
             Inr \<lparr>ws_name = name, ws_repositories = map (settle_alternatives \<circ> snd) merged,
                  ws_protobuf_descriptors = [], ws_enabled_plugins = []\<rparr>))"

definition descriptor_key :: "protobuf_descriptor_source \<Rightarrow> string \<times> (nat \<times> string) list" where
  "descriptor_key d = (lr_identity (pd_repository d), path_components (pd_path d))"

definition with_protobuf_descriptors ::
    "workspace \<Rightarrow> protobuf_descriptor_source list \<Rightarrow> string + workspace" where
  "with_protobuf_descriptors ws descriptors =
     (case List.find (\<lambda>d. \<not> list_ex (\<lambda>r. wr_repository r = pd_repository d) (ws_repositories ws)) descriptors of
        Some d \<Rightarrow> Inl (''protobuf descriptor references unknown repository '' @ lr_identity (pd_repository d))
      | None \<Rightarrow> Inr (ws\<lparr>ws_protobuf_descriptors := sort_dedup_by descriptor_key descriptors\<rparr>))"

definition with_enabled_plugins :: "workspace \<Rightarrow> string list \<Rightarrow> string + workspace" where
  "with_enabled_plugins ws plugins =
     rbind (try_map (\<lambda>plugin. if \<not> blank plugin then Inr plugin else Inl ''enabled plugin ID must not be empty'') plugins)
       (\<lambda>ids. Inr (ws\<lparr>ws_enabled_plugins := bs_of_list ids\<rparr>))"

section \<open>Views\<close>

record repository_state =
  rs_repository :: logical_repository
  rs_head :: "string option"
  rs_fingerprint :: string

abbreviation rs_identity :: "repository_state \<Rightarrow> string" where
  "rs_identity s \<equiv> lr_identity (rs_repository s)"

record workspace_view =
  wv_name :: string
  wv_analysis_identity :: string
  wv_repository_states :: "repository_state list"
  wv_repository_analysis_identities :: "(string, string) bmap"
  wv_repository_contexts :: "(string, (string, string list) bmap) bmap"
  wv_repository_enrichment_input_identities :: "(string, (string, string) bmap) bmap"

fun adjacent_duplicate :: "repository_state list \<Rightarrow> repository_state option" where
  "adjacent_duplicate (s # t # states) =
     (if rs_repository s = rs_repository t then Some s else adjacent_duplicate (t # states))"
| "adjacent_duplicate states = None"

definition view_new_scoped ::
    "string \<Rightarrow> string \<Rightarrow> repository_state list \<Rightarrow> (string, string) bmap \<Rightarrow> string + workspace_view" where
  "view_new_scoped name analysis_identity repository_states identities =
     (if name = [] then Inl ''workspace view name must not be empty''
      else if analysis_identity = [] then Inl ''workspace view analysis identity must not be empty''
      else if repository_states = [] then Inl ''workspace view must contain a repository state''
      else let states = sort_key rs_identity repository_states
           in case adjacent_duplicate states of
                Some duplicate \<Rightarrow>
                  Inl (''workspace view contains duplicate repository '' @ rs_identity duplicate)
              | None \<Rightarrow>
                  if length identities \<noteq> length states
                     \<or> list_ex (\<lambda>s. case map_of identities (rs_identity s) of None \<Rightarrow> True | Some i \<Rightarrow> i = []) states
                  then Inl ''workspace view repository analysis identities do not match its repositories''
                  else Inr \<lparr>wv_name = name, wv_analysis_identity = analysis_identity,
                            wv_repository_states = states,
                            wv_repository_analysis_identities = identities,
                            wv_repository_contexts = [],
                            wv_repository_enrichment_input_identities = []\<rparr>)"

definition view_new :: "string \<Rightarrow> string \<Rightarrow> repository_state list \<Rightarrow> string + workspace_view" where
  "view_new name analysis_identity states =
     view_new_scoped name analysis_identity states
       (bm_of_list (map (\<lambda>s. (rs_identity s, analysis_identity)) states))"

definition view_repositories :: "workspace_view \<Rightarrow> string bset" where
  "view_repositories v = bs_of_list (map rs_identity (wv_repository_states v))"

definition check_context_target ::
    "string bset \<Rightarrow> string \<Rightarrow> string \<times> string list \<Rightarrow> unit \<Rightarrow> string + unit" where
  "check_context_target repositories analyzer = (\<lambda>(target, contexts) _.
     if target \<notin> set repositories then Inl (''unknown enrichment target repository '' @ target)
     else if list_ex (\<lambda>c. c = target \<or> c \<notin> set repositories) contexts
     then Inl (''invalid '' @ analyzer @ '' enrichment context repository for target '' @ target)
     else Inr ())"

definition check_context_analyzer ::
    "string bset \<Rightarrow> string \<times> (string, string list) bmap \<Rightarrow> unit \<Rightarrow> string + unit" where
  "check_context_analyzer repositories = (\<lambda>(analyzer, targets) _.
     if blank analyzer then Inl ''enrichment context analyzer must not be empty''
     else try_fold (check_context_target repositories analyzer) targets ())"

definition with_repository_contexts ::
    "workspace_view \<Rightarrow> (string, (string, string list) bmap) bmap \<Rightarrow> string + workspace_view" where
  "with_repository_contexts v contexts =
     rbind (try_fold (check_context_analyzer (view_repositories v)) contexts ()) (\<lambda>_.
       Inr (v\<lparr>wv_repository_contexts := bm_map (bm_map sort_dedup) contexts\<rparr>))"

definition check_input_analyzer :: "string bset \<Rightarrow> string \<times> (string, string) bmap \<Rightarrow> unit \<Rightarrow> string + unit" where
  "check_input_analyzer repositories = (\<lambda>(analyzer, inputs) _.
     if blank analyzer then Inl ''enrichment input analyzer must not be empty''
     else if length inputs \<noteq> length repositories
             \<or> list_ex (\<lambda>(repository, identity). repository \<notin> set repositories \<or> identity = []) inputs
     then Inl (analyzer @ '' enrichment input identities do not match view repositories'')
     else Inr ())"

definition with_repository_enrichment_inputs ::
    "workspace_view \<Rightarrow> (string, (string, string) bmap) bmap \<Rightarrow> string + workspace_view" where
  "with_repository_enrichment_inputs v identities =
     (if map fst identities \<noteq> map fst (wv_repository_contexts v)
      then Inl ''enrichment input analyzers do not match configured context analyzers''
      else rbind (try_fold (check_input_analyzer (view_repositories v)) identities ()) (\<lambda>_.
             Inr (v\<lparr>wv_repository_enrichment_input_identities := identities\<rparr>)))"

definition view_fingerprint :: "workspace_view \<Rightarrow> string" where
  "view_fingerprint v =
     framed (wv_analysis_identity v) @ concat (map (framed \<circ> rs_fingerprint) (wv_repository_states v))"

definition repository_input_fingerprint :: "workspace_view \<Rightarrow> repository_state \<Rightarrow> string option" where
  "repository_input_fingerprint v s =
     map_option (\<lambda>identity. framed identity @ rs_fingerprint s)
       (map_of (wv_repository_analysis_identities v) (rs_identity s))"

definition repository_contexts :: "workspace_view \<Rightarrow> string \<Rightarrow> string \<Rightarrow> string list" where
  "repository_contexts v repository analyzer =
     (case Option.bind (map_of (wv_repository_contexts v) analyzer) (\<lambda>targets. map_of targets repository) of
        None \<Rightarrow> []
      | Some contexts \<Rightarrow> contexts)"

definition input_repository_field :: "(string, string) bmap \<Rightarrow> string \<Rightarrow> string option" where
  "input_repository_field inputs repository =
     map_option (\<lambda>identity. framed repository @ framed identity) (map_of inputs repository)"

definition state_repository_field :: "workspace_view \<Rightarrow> string \<Rightarrow> string option" where
  "state_repository_field v repository =
     Option.bind (List.find (\<lambda>s. rs_identity s = repository) (wv_repository_states v)) (\<lambda>s.
       map_option (\<lambda>identity. framed repository @ framed identity @ framed (rs_fingerprint s))
         (map_of (wv_repository_analysis_identities v) repository))"

definition repository_enrichment_input_fingerprint ::
    "workspace_view \<Rightarrow> repository_state \<Rightarrow> string \<Rightarrow> string option" where
  "repository_enrichment_input_fingerprint v s analyzer =
     (let repositories = rs_identity s # repository_contexts v (rs_identity s) analyzer
      in case map_of (wv_repository_enrichment_input_identities v) analyzer of
           Some inputs \<Rightarrow> map_option concat (those (map (input_repository_field inputs) repositories))
         | None \<Rightarrow> map_option concat (those (map (state_repository_field v) repositories)))"

definition enrichment_analyzers :: "workspace_view \<Rightarrow> string list" where
  "enrichment_analyzers v = map fst (wv_repository_contexts v)"

record git_clone =
  gc_common_directory :: string

record working_tree =
  wt_path :: string
  wt_head :: string
  wt_branch :: "string option"

record git_topology =
  gt_repository :: logical_repository
  gt_clone :: git_clone
  gt_working_trees :: "working_tree list"


section \<open>Merging the configured repositories\<close>

text \<open>What the merge of \<open>Workspace::new\<close> holds for one identity: the first entry, with every later path added.\<close>

definition merged_entry :: "workspace_repository list \<Rightarrow> string \<Rightarrow> workspace_repository option" where
  "merged_entry rs i =
     (case filter (\<lambda>r. wr_identity r = i) rs of
        [] \<Rightarrow> None
      | r # later \<Rightarrow>
          Some (r\<lparr>wr_alternatives := wr_alternatives r @ concat (map (\<lambda>q. wr_base q # wr_alternatives q) later)\<rparr>))"

lemma merged_entry_None_iff: "merged_entry rs i = None \<longleftrightarrow> i \<notin> wr_identity ` set rs"
  by (auto simp: merged_entry_def filter_empty_conv split: list.splits dest!: filter_eq_ConsD)

lemma merged_entry_snoc:
  "merged_entry (rs @ [r]) i =
     (if wr_identity r \<noteq> i then merged_entry rs i
      else case merged_entry rs i of
             None \<Rightarrow> Some r
           | Some e \<Rightarrow> Some (e\<lparr>wr_alternatives := wr_alternatives e @ wr_base r # wr_alternatives r\<rparr>))"
  by (auto simp: merged_entry_def split: list.splits)

lemma merged_entry_Some:
  "merged_entry rs i = Some r \<Longrightarrow>
     \<exists>first later. filter (\<lambda>q. wr_identity q = i) rs = first # later
       \<and> wr_base r = wr_base first \<and> wr_display_name r = wr_display_name first
       \<and> set (wr_alternatives r) =
           set (wr_alternatives first) \<union> (\<Union>q \<in> set later. insert (wr_base q) (set (wr_alternatives q)))"
  by (auto simp: merged_entry_def split: list.splits)

lemma merge_repository_Inr_iff:
  "merge_repository r m = Inr m' \<longleftrightarrow>
     \<not> blank (wr_identity r) \<and> \<not> blank (wr_display_name r) \<and>
     m' = bm_put (wr_identity r)
       (case map_of m (wr_identity r) of
          None \<Rightarrow> r
        | Some e \<Rightarrow> e\<lparr>wr_alternatives := wr_alternatives e @ wr_base r # wr_alternatives r\<rparr>) m"
  by (auto simp: merge_repository_def split: option.splits)

lemma merge_repositories_spec:
  "try_fold merge_repository rs [] = Inr m \<Longrightarrow>
     bm_wf m \<and> map_of m = merged_entry rs
     \<and> (\<forall>r \<in> set rs. \<not> blank (wr_identity r) \<and> \<not> blank (wr_display_name r))"
proof (induction rs arbitrary: m rule: rev_induct)
  case Nil
  then show ?case by (auto simp: merged_entry_def)
next
  case (snoc r rs)
  then obtain n where n: "try_fold merge_repository rs [] = Inr n" "merge_repository r n = Inr m"
    by (auto simp: try_fold_append rbind_Inr_iff)
  with snoc.IH have IH: "bm_wf n" "map_of n = merged_entry rs" "\<forall>r \<in> set rs. \<not> blank (wr_identity r) \<and> \<not> blank (wr_display_name r)"
    by auto
  with n show ?case
    by (auto simp: merge_repository_Inr_iff merged_entry_snoc fun_eq_iff split: option.splits)
qed

lemma merged_entry_identity:
  "merged_entry rs i = Some r \<Longrightarrow>
     wr_identity r = i \<and> (\<exists>q \<in> set rs. wr_identity q = i \<and> wr_display_name r = wr_display_name q)"
  by (auto simp: merged_entry_def filter_eq_Cons_iff split: list.splits)

lemma merged_snd:
  assumes "bm_wf m" "map_of m = merged_entry rs" "(i, r) \<in> set m"
  shows "merged_entry rs i = Some r" "wr_identity r = i"
  using assms by (metis bm_wf_in_iff merged_entry_identity)+

lemma settle_alternatives_sel [simp]:
  "wr_repository (settle_alternatives r) = wr_repository r"
  "wr_display_name (settle_alternatives r) = wr_display_name r"
  "wr_base (settle_alternatives r) = wr_base r"
  by (simp_all add: settle_alternatives_def)

lemma ascending_map_filter: "ascending (map f xs) \<Longrightarrow> ascending (map f (filter P xs))"
  by (simp add: sorted_wrt_map sorted_wrt_filter)

lemma settle_alternatives_spec:
  "ascending (map path_components (wr_alternatives (settle_alternatives r)))"
  "path_components ` set (wr_alternatives (settle_alternatives r)) =
     path_components ` set (wr_alternatives r) - {path_components (wr_base r)}"
proof -
  show "ascending (map path_components (wr_alternatives (settle_alternatives r)))"
    by (simp add: settle_alternatives_def ascending_map_filter keys_sort_dedup_by)
  have "path_components ` {p \<in> set ps. \<not> path_eq p b} = path_components ` set ps - {path_components b}" for ps b
    by (auto simp: path_eq_def)
  then show "path_components ` set (wr_alternatives (settle_alternatives r)) =
     path_components ` set (wr_alternatives r) - {path_components (wr_base r)}"
    by (simp add: settle_alternatives_def keyset_sort_dedup_by)
qed

section \<open>The workspace invariant\<close>

definition repository_wf :: "workspace_repository \<Rightarrow> bool" where
  "repository_wf r \<longleftrightarrow>
     \<not> blank (wr_identity r) \<and> \<not> blank (wr_display_name r)
     \<and> ascending (map path_components (wr_alternatives r))
     \<and> path_components (wr_base r) \<notin> path_components ` set (wr_alternatives r)"

definition workspace_wf :: "workspace \<Rightarrow> bool" where
  "workspace_wf ws \<longleftrightarrow>
     \<not> blank (ws_name ws) \<and> ws_repositories ws \<noteq> []
     \<and> ascending (map wr_identity (ws_repositories ws))
     \<and> list_all repository_wf (ws_repositories ws)
     \<and> ascending (map descriptor_key (ws_protobuf_descriptors ws))
     \<and> pd_repository ` set (ws_protobuf_descriptors ws) \<subseteq> wr_repository ` set (ws_repositories ws)
     \<and> ascending (ws_enabled_plugins ws) \<and> list_all (\<lambda>p. \<not> blank p) (ws_enabled_plugins ws)"

lemma workspace_new_cases:
  assumes "workspace_new name rs = Inr ws"
  obtains m where "try_fold merge_repository rs [] = Inr m" "bm_wf m" "map_of m = merged_entry rs"
    "ws = \<lparr>ws_name = name, ws_repositories = map (settle_alternatives \<circ> snd) m,
           ws_protobuf_descriptors = [], ws_enabled_plugins = []\<rparr>"
    "\<not> blank name" "rs \<noteq> []" "\<forall>r \<in> set rs. \<not> blank (wr_identity r) \<and> \<not> blank (wr_display_name r)"
  using assms merge_repositories_spec [of rs]
  by (auto simp: workspace_new_def rbind_Inr_iff split: if_splits)

lemma workspace_new_identities:
  assumes "bm_wf m" "map_of m = merged_entry rs"
  shows "map (wr_identity \<circ> settle_alternatives \<circ> snd) m = bs_of_list (map wr_identity rs)"
proof -
  have "map (wr_identity \<circ> settle_alternatives \<circ> snd) m = map fst m"
    using merged_snd (2) [OF assms] by auto
  moreover have keys: "set (map fst m) = wr_identity ` set rs"
    unfolding bm.enum_dom assms(2) by (simp add: dom_def merged_entry_None_iff del: not_None_eq)
  have "map fst m = bs_of_list (map wr_identity rs)"
    using assms(1) by (intro ascending_unique)
      (simp_all add: bm_wf_def keys flip: set_map)
  ultimately show ?thesis by simp
qed

lemma workspace_new_wf: "workspace_new name rs = Inr ws \<Longrightarrow> workspace_wf ws"
proof (elim workspace_new_cases)
  fix m
  assume m: "bm_wf m" "map_of m = merged_entry rs" and name: "\<not> blank name" and "rs \<noteq> []"
    and ok: "\<forall>r \<in> set rs. \<not> blank (wr_identity r) \<and> \<not> blank (wr_display_name r)"
    and ws: "ws = \<lparr>ws_name = name, ws_repositories = map (settle_alternatives \<circ> snd) m,
           ws_protobuf_descriptors = [], ws_enabled_plugins = []\<rparr>"
  have "m \<noteq> []"
  proof
    assume "m = []"
    then have "merged_entry rs (wr_identity (hd rs)) = None" using m(2) by (metis map_of.simps(1))
    then show False using \<open>rs \<noteq> []\<close> by (simp add: merged_entry_None_iff)
  qed
  have "repository_wf (settle_alternatives r)" if "(i, r) \<in> set m" for i r
  proof -
    have "\<not> blank (wr_identity r)" "\<not> blank (wr_display_name r)"
      using merged_snd [OF m that] merged_entry_identity ok by metis+
    then show ?thesis by (simp add: repository_wf_def settle_alternatives_spec)
  qed
  then have "list_all repository_wf (map (settle_alternatives \<circ> snd) m)"
    by (auto simp: list_all_iff)
  moreover have "ascending (map wr_identity (map (settle_alternatives \<circ> snd) m))"
    using workspace_new_identities [OF m] by (simp add: comp_def)
  ultimately show "workspace_wf ws"
    using name \<open>m \<noteq> []\<close> by (simp add: workspace_wf_def ws)
qed

lemma with_protobuf_descriptors_wf:
  assumes "workspace_wf ws" "with_protobuf_descriptors ws ds = Inr ws'"
  shows "workspace_wf ws'"
proof -
  have known: "pd_repository d \<in> wr_repository ` set (ws_repositories ws)" if "d \<in> set ds" for d
    using assms(2) that
    by (auto simp: with_protobuf_descriptors_def find_None_iff_all list_ex_iff split: option.splits)
      (metis image_eqI)
  have "ws' = ws\<lparr>ws_protobuf_descriptors := sort_dedup_by descriptor_key ds\<rparr>"
    using assms(2) by (auto simp: with_protobuf_descriptors_def split: option.splits)
  with assms(1) known show ?thesis
    using set_sort_dedup_by [of descriptor_key ds]
    by (auto simp: workspace_wf_def keys_sort_dedup_by)
qed

lemma with_enabled_plugins_wf:
  assumes "workspace_wf ws" "with_enabled_plugins ws ps = Inr ws'"
  shows "workspace_wf ws'"
proof -
  from assms(2) obtain ids where "ws' = ws\<lparr>ws_enabled_plugins := bs_of_list ids\<rparr>"
    and ids: "list_all2 (\<lambda>p i. (if \<not> blank p then Inr p else Inl ''enabled plugin ID must not be empty'') = Inr i) ps ids"
    by (auto simp: with_enabled_plugins_def rbind_Inr_iff try_map_Inr_iff)
  moreover have "\<not> blank i" if "i \<in> set ids" for i
    using ids that by (auto simp: list_all2_conv_all_nth in_set_conv_nth split: if_splits)
  ultimately show ?thesis
    using assms(1) by (auto simp: workspace_wf_def list_all_iff)
qed

text \<open>Selections with ascending identities are not merged: the workspace holds them as they are.\<close>

lemma merge_distinct:
  assumes "ascending (map wr_identity ss)" "\<forall>s \<in> set ss. \<not> blank (wr_identity s) \<and> \<not> blank (wr_display_name s)"
  shows "try_fold merge_repository ss [] = Inr (map (\<lambda>s. (wr_identity s, s)) ss)"
  using assms
proof (induction ss rule: rev_induct)
  case (snoc s ss)
  let ?m = "map (\<lambda>s. (wr_identity s, s)) ss"
  have below: "\<forall>i \<in> fst ` set ?m. i < wr_identity s" using snoc.prems(1) by (auto simp: sorted_wrt_append)
  then have "map_of ?m (wr_identity s) = None" by (auto simp: map_of_eq_None_iff)
  with below snoc show ?case
    by (simp add: try_fold_append sorted_wrt_append merge_repository_def bm_put_last)
qed simp

section \<open>The view invariant\<close>

definition contexts_wf :: "string set \<Rightarrow> (string, (string, string list) bmap) bmap \<Rightarrow> bool" where
  "contexts_wf ids contexts \<longleftrightarrow>
     (\<forall>(analyzer, targets) \<in> set contexts. \<not> blank analyzer \<and>
        (\<forall>(target, cs) \<in> set targets. target \<in> ids \<and> set cs \<subseteq> ids - {target} \<and> ascending cs))"

definition inputs_wf :: "string set \<Rightarrow> (string, (string, string) bmap) bmap \<Rightarrow> bool" where
  "inputs_wf ids inputs \<longleftrightarrow>
     (\<forall>(analyzer, is) \<in> set inputs. \<not> blank analyzer \<and> fst ` set is = ids \<and> (\<forall>(r, i) \<in> set is. i \<noteq> []))"

definition view_wf :: "workspace_view \<Rightarrow> bool" where
  "view_wf v \<longleftrightarrow>
     wv_name v \<noteq> [] \<and> wv_analysis_identity v \<noteq> [] \<and> wv_repository_states v \<noteq> []
     \<and> ascending (map rs_identity (wv_repository_states v))
     \<and> map fst (wv_repository_analysis_identities v) = map rs_identity (wv_repository_states v)
     \<and> (\<forall>(r, i) \<in> set (wv_repository_analysis_identities v). i \<noteq> [])
     \<and> contexts_wf (rs_identity ` set (wv_repository_states v)) (wv_repository_contexts v)
     \<and> inputs_wf (rs_identity ` set (wv_repository_states v)) (wv_repository_enrichment_input_identities v)"

lemma rs_repository_eq_iff: "rs_repository s = rs_repository t \<longleftrightarrow> rs_identity s = rs_identity t"
  by (metis logical_repository.equality old.unit.exhaust)

lemma adjacent_duplicate_None:
  "adjacent_duplicate states = None \<Longrightarrow> sorted (map rs_identity states) \<Longrightarrow> ascending (map rs_identity states)"
  by (induction states rule: adjacent_duplicate.induct)
    (auto simp: rs_repository_eq_iff less_le split: if_splits)

lemma keys_determined:
  assumes "bm_wf m" "ascending xs" "length m = length xs" "set xs \<subseteq> fst ` set m"
  shows "map fst m = xs"
proof (rule ascending_unique)
  have "card (set xs) = length xs" using assms(2) by (metis ascending_distinct distinct_card)
  moreover have "card (fst ` set m) = length m"
    using bm_wf_distinct [OF assms(1)] by (metis distinct_card length_map set_map)
  ultimately have "fst ` set m = set xs"
    using assms(3,4) by (metis card_subset_eq finite_imageI finite_set)
  then show "set (map fst m) = set xs" by simp
qed (use assms in \<open>auto simp: bm_wf_def\<close>)

lemma view_new_scoped_wf:
  assumes "view_new_scoped name ai states ids = Inr v" "bm_wf ids"
  shows "view_wf v"
proof -
  let ?s = "sort_key rs_identity states"
  have ok: "name \<noteq> []" "ai \<noteq> []" "states \<noteq> []" "adjacent_duplicate ?s = None"
    "length ids = length ?s"
    "\<forall>s \<in> set states. \<exists>i. map_of ids (rs_identity s) = Some i \<and> i \<noteq> []"
    and v: "v = \<lparr>wv_name = name, wv_analysis_identity = ai, wv_repository_states = ?s,
             wv_repository_analysis_identities = ids, wv_repository_contexts = [],
             wv_repository_enrichment_input_identities = []\<rparr>"
    using assms(1)
    by (auto simp: view_new_scoped_def Let_def list_ex_iff split: if_splits option.splits)
  have asc: "ascending (map rs_identity ?s)"
    using ok(4) by (rule adjacent_duplicate_None) simp
  have "rs_identity s \<in> fst ` set ids" if "s \<in> set states" for s
    using ok(6) that map_of_eq_None_iff [of ids "rs_identity s"] by auto
  then have "set (map rs_identity ?s) \<subseteq> fst ` set ids" by auto
  with assms(2) asc ok(5) have keys: "map fst ids = map rs_identity ?s"
    by (intro keys_determined) auto
  have "i \<noteq> []" if "(r, i) \<in> set ids" for r i
  proof -
    from that have "r \<in> set (map rs_identity ?s)" unfolding keys [symmetric] by force
    then obtain s where "s \<in> set states" "r = rs_identity s" by auto
    with ok(6) that assms(2) show ?thesis by (auto simp: bm_wf_in_iff)
  qed
  with ok asc keys show ?thesis
    by (auto simp: view_wf_def v contexts_wf_def inputs_wf_def)
qed


lemma view_repositories_eq: "view_wf v \<Longrightarrow> view_repositories v = map rs_identity (wv_repository_states v)"
  by (simp add: view_repositories_def view_wf_def bs_of_list_id)

lemma try_fold_unit_Inr: "try_fold f xs () = Inr u \<Longrightarrow> x \<in> set xs \<Longrightarrow> f x () = Inr ()"
  by (induction xs) (auto simp: rbind_Inr_iff)

lemma with_repository_contexts_wf:
  assumes "view_wf v" "with_repository_contexts v contexts = Inr v'"
  shows "view_wf v'"
proof -
  let ?ids = "rs_identity ` set (wv_repository_states v)"
  have v': "v' = v\<lparr>wv_repository_contexts := bm_map (bm_map sort_dedup) contexts\<rparr>"
    and check: "try_fold (check_context_analyzer (view_repositories v)) contexts () = Inr ()"
    using assms(2) by (auto simp: with_repository_contexts_def rbind_Inr_iff)
  have "\<not> blank a" "\<And>t cs. (t, cs) \<in> set targets \<Longrightarrow> t \<in> ?ids \<and> set cs \<subseteq> ?ids - {t}"
    if at: "(a, targets) \<in> set contexts" for a targets
  proof -
    have "check_context_analyzer (view_repositories v) (a, targets) () = Inr ()"
      using check at by (rule try_fold_unit_Inr)
    then have "\<not> blank a" and inner: "try_fold (check_context_target (view_repositories v) a) targets () = Inr ()"
      by (auto simp: check_context_analyzer_def split: if_splits)
    then show "\<not> blank a" by simp
    fix t cs
    assume "(t, cs) \<in> set targets"
    with inner have "check_context_target (view_repositories v) a (t, cs) () = Inr ()"
      by (rule try_fold_unit_Inr)
    then show "t \<in> ?ids \<and> set cs \<subseteq> ?ids - {t}"
      using view_repositories_eq [OF assms(1)]
      by (auto simp: check_context_target_def list_ex_iff split: if_splits)
  qed
  then have "contexts_wf ?ids (bm_map (bm_map sort_dedup) contexts)"
    by (fastforce simp: contexts_wf_def bm_map_def)
  with assms(1) show ?thesis by (simp add: view_wf_def v')
qed

text \<open>The parameter of the builder is a \<open>BTreeMap\<close> of \<open>BTreeMap\<close>s: the inner keys are distinct.\<close>

lemma with_repository_enrichment_inputs_wf:
  assumes "view_wf v" "with_repository_enrichment_inputs v inputs = Inr v'"
    and "\<And>a is. (a, is) \<in> set inputs \<Longrightarrow> bm_wf is"
  shows "view_wf v'"
proof -
  let ?ids = "rs_identity ` set (wv_repository_states v)"
  have v': "v' = v\<lparr>wv_repository_enrichment_input_identities := inputs\<rparr>"
    and check: "try_fold (check_input_analyzer (view_repositories v)) inputs () = Inr ()"
    using assms(2) by (auto simp: with_repository_enrichment_inputs_def rbind_Inr_iff split: if_splits)
  have "\<not> blank a \<and> fst ` set is = ?ids \<and> (\<forall>(r, i) \<in> set is. i \<noteq> [])"
    if ai: "(a, is) \<in> set inputs" for a "is"
  proof -
    have "check_input_analyzer (view_repositories v) (a, is) () = Inr ()"
      using check ai by (rule try_fold_unit_Inr)
    then have ok: "\<not> blank a" "length is = length (view_repositories v)"
      "\<forall>(r, i) \<in> set is. r \<in> set (view_repositories v) \<and> i \<noteq> []"
      by (auto simp: check_input_analyzer_def list_ex_iff split: if_splits)
    have vr: "view_repositories v = map rs_identity (wv_repository_states v)"
      using assms(1) by (rule view_repositories_eq)
    have sub: "fst ` set is \<subseteq> ?ids" using ok(3) vr by auto
    have "card ?ids = length (view_repositories v)"
      using assms(1) unfolding vr view_wf_def by (metis ascending_distinct distinct_card set_map)
    moreover have "card (fst ` set is) = length is"
      using bm_wf_distinct [OF assms(3) [OF ai]] by (metis distinct_card length_map set_map)
    ultimately have "fst ` set is = ?ids"
      using sub ok(2) by (metis card_subset_eq finite_imageI finite_set)
    with ok show ?thesis by auto
  qed
  then have "inputs_wf ?ids inputs" unfolding inputs_wf_def by blast
  with assms(1) show ?thesis by (simp add: view_wf_def v')
qed

lemma view_new_wf: "view_new name ai states = Inr v \<Longrightarrow> view_wf v"
  by (simp add: view_new_def view_new_scoped_wf)

section \<open>Fingerprints\<close>

lemma those_Some_iff: "those xs = Some ys \<longleftrightarrow> xs = map Some ys"
  by (induction xs arbitrary: ys) (auto split: option.splits simp: map_eq_Cons_conv)

lemma those_total: "(\<And>x. x \<in> set xs \<Longrightarrow> f x \<noteq> None) \<Longrightarrow> those (map f xs) = Some (map (the \<circ> f) xs)"
  by (simp add: those_Some_iff)

lemma repository_contexts_known:
  assumes "view_wf v" "c \<in> set (repository_contexts v r a)"
  shows "c \<in> rs_identity ` set (wv_repository_states v)"
proof -
  obtain cs where "Option.bind (map_of (wv_repository_contexts v) a) (\<lambda>targets. map_of targets r) = Some cs"
    and "c \<in> set cs"
    using assms(2) by (cases "Option.bind (map_of (wv_repository_contexts v) a) (\<lambda>targets. map_of targets r)")
      (auto simp: repository_contexts_def)
  then obtain targets where "map_of (wv_repository_contexts v) a = Some targets" "map_of targets r = Some cs" "c \<in> set cs"
    by (auto simp: bind_eq_Some_conv)
  then have mem: "(a, targets) \<in> set (wv_repository_contexts v)" "(r, cs) \<in> set targets" "c \<in> set cs"
    by (auto dest: map_of_SomeD)
  have "contexts_wf (rs_identity ` set (wv_repository_states v)) (wv_repository_contexts v)"
    using assms(1) by (simp add: view_wf_def)
  then have "set cs \<subseteq> rs_identity ` set (wv_repository_states v) - {r}"
    using mem(1,2) unfolding contexts_wf_def by blast
  with mem(3) show ?thesis by blast
qed

lemma view_identity_total:
  assumes "view_wf v" "r \<in> rs_identity ` set (wv_repository_states v)"
  shows "map_of (wv_repository_analysis_identities v) r \<noteq> None"
proof -
  have "r \<in> fst ` set (wv_repository_analysis_identities v)"
    using assms unfolding view_wf_def by (metis set_map)
  then show ?thesis by (simp add: map_of_eq_None_iff)
qed

lemma state_repository_field_total:
  assumes "view_wf v" "r \<in> rs_identity ` set (wv_repository_states v)"
  shows "state_repository_field v r \<noteq> None"
proof -
  have "List.find (\<lambda>s. rs_identity s = r) (wv_repository_states v) \<noteq> None"
    using assms(2) by (auto simp: find_None_iff_all)
  with view_identity_total [OF assms] show ?thesis by (auto simp: state_repository_field_def)
qed

lemma input_repository_field_total:
  assumes "inputs_wf ids inputs" "map_of inputs a = Some is" "r \<in> ids"
  shows "input_repository_field is r \<noteq> None"
proof -
  have "(a, is) \<in> set inputs" using assms(2) by (rule map_of_SomeD)
  then have "r \<in> fst ` set is" using assms(1,3) by (auto simp: inputs_wf_def)
  then have "map_of is r \<noteq> None" by (simp add: map_of_eq_None_iff)
  then show ?thesis by (simp add: input_repository_field_def)
qed

lemma concat_field_inj:
  assumes "\<And>x y xs ys. x \<in> set as \<Longrightarrow> y \<in> set bs \<Longrightarrow> f x @ xs = g y @ ys \<Longrightarrow> k x = l y \<and> xs = ys"
    and "\<And>x. f x \<noteq> []" "\<And>y. g y \<noteq> []"
    and "concat (map f as) = concat (map g bs)"
  shows "map k as = map l bs"
  using assms
proof (induction "as" arbitrary: bs)
  case Nil
  then show ?case by (cases bs) auto
next
  case (Cons a as')
  show ?case
  proof (cases bs)
    case Nil
    with Cons.prems show ?thesis by simp
  next
    case (Cons b bs')
    have "k a = l b \<and> concat (map f as') = concat (map g bs')"
      using Cons.prems(4) by (intro Cons.prems(1)) (simp_all add: Cons)
    moreover have "map k as' = map l bs'"
      using Cons.prems Cons calculation by (intro Cons.IH) auto
    ultimately show ?thesis using Cons by simp
  qed
qed


section \<open>Example values\<close>

definition example_repositories :: "workspace_repository list" where
  "example_repositories =
     [\<lparr>wr_repository = \<lparr>lr_identity = ''b''\<rparr>, wr_display_name = ''B'', wr_base = ''/b'', wr_alternatives = [''/c'']\<rparr>,
      \<lparr>wr_repository = \<lparr>lr_identity = ''a''\<rparr>, wr_display_name = ''A'', wr_base = ''/a'', wr_alternatives = []\<rparr>,
      \<lparr>wr_repository = \<lparr>lr_identity = ''b''\<rparr>, wr_display_name = ''X'', wr_base = ''/c/'', wr_alternatives = [''/d'', ''/b'']\<rparr>]"

definition example_workspace :: workspace where
  "example_workspace = projr (workspace_new ''w'' example_repositories)"

definition example_descriptors :: "protobuf_descriptor_source list" where
  "example_descriptors = [\<lparr>pd_repository = \<lparr>lr_identity = ''a''\<rparr>, pd_path = ''x''\<rparr>, \<lparr>pd_repository = \<lparr>lr_identity = ''a''\<rparr>, pd_path = ''x/''\<rparr>]"

definition example_states :: "repository_state list" where
  "example_states =
     [\<lparr>rs_repository = \<lparr>lr_identity = ''b''\<rparr>, rs_head = None, rs_fingerprint = ''fb''\<rparr>,
      \<lparr>rs_repository = \<lparr>lr_identity = ''a''\<rparr>, rs_head = Some ''h'', rs_fingerprint = ''fa''\<rparr>]"

definition example_view :: workspace_view where
  "example_view = projr (view_new_scoped ''w'' ''v1'' example_states [(''a'', ''ia''), (''b'', ''ib'')])"

definition example_context_view :: workspace_view where
  "example_context_view = projr (with_repository_contexts example_view [(''rust'', [(''a'', [''b''])])])"

definition example_input_view :: workspace_view where
  "example_input_view =
     projr (with_repository_enrichment_inputs example_context_view [(''rust'', [(''a'', ''ja''), (''b'', ''jb'')])])"

section \<open>Properties\<close>

text \<open>
  C5. A workspace that \<open>Workspace::new\<close> builds has one entry per distinct identity, in ascending
  order; each keeps the base and name of the first configured entry, and its alternatives are, as
  paths, all other configured locations of that identity, once each, without the base.
\<close>

theorem workspace_new_merges:
  assumes "workspace_new name rs = Inr ws"
  shows "map wr_identity (ws_repositories ws) = bs_of_list (map wr_identity rs)
    \<and> (\<forall>r \<in> set (ws_repositories ws). \<exists>first later.
         filter (\<lambda>q. wr_identity q = wr_identity r) rs = first # later
         \<and> wr_base r = wr_base first \<and> wr_display_name r = wr_display_name first
         \<and> ascending (map path_components (wr_alternatives r))
         \<and> path_components ` set (wr_alternatives r) =
             path_components ` (set (wr_alternatives first) \<union> (\<Union>q \<in> set later. insert (wr_base q) (set (wr_alternatives q))))
             - {path_components (wr_base first)})"
  using assms
proof (elim workspace_new_cases)
  fix m
  assume m: "bm_wf m" "map_of m = merged_entry rs"
    and ws: "ws = \<lparr>ws_name = name, ws_repositories = map (settle_alternatives \<circ> snd) m,
           ws_protobuf_descriptors = [], ws_enabled_plugins = []\<rparr>"
  have "\<exists>first later. filter (\<lambda>q. wr_identity q = wr_identity r) rs = first # later
      \<and> wr_base r = wr_base first \<and> wr_display_name r = wr_display_name first
      \<and> path_components ` set (wr_alternatives (settle_alternatives r)) =
          path_components ` (set (wr_alternatives first) \<union> (\<Union>q \<in> set later. insert (wr_base q) (set (wr_alternatives q))))
          - {path_components (wr_base first)}"
    if "(i, r) \<in> set m" for i r
    using merged_snd [OF m that] merged_entry_Some [of rs i r]
    by (fastforce simp: settle_alternatives_spec)
  then show ?thesis
    using workspace_new_identities [OF m]
    by (fastforce simp: ws comp_def settle_alternatives_spec)
qed

theorem workspace_new_merges_witness:
  "map wr_identity (ws_repositories example_workspace) = bs_of_list (map wr_identity example_repositories)"
proof -
  have "workspace_new ''w'' example_repositories = Inr example_workspace" by code_simp
  then show ?thesis by (rule workspace_new_merges [THEN conjunct1])
qed

text \<open>
  The invariant of workspaces (non-blank names, ascending distinct identities, settled
  alternatives, descriptors of known repositories only, ascending and duplicate-free descriptors
  and plugins) holds after construction and is kept by both builder methods.
\<close>

theorem workspace_builders_wf:
  assumes "workspace_new name rs = Inr ws"
    and "with_protobuf_descriptors ws ds = Inr ws'"
    and "with_enabled_plugins ws' ps = Inr ws''"
  shows "workspace_wf ws \<and> workspace_wf ws' \<and> workspace_wf ws''"
  using assms by (blast intro: workspace_new_wf with_protobuf_descriptors_wf with_enabled_plugins_wf)

theorem workspace_builders_wf_witness:
  "workspace_wf (projr (with_enabled_plugins
     (projr (with_protobuf_descriptors example_workspace example_descriptors)) [''q'', ''p'']))"
proof -
  have "workspace_new ''w'' example_repositories = Inr example_workspace" by code_simp
  moreover have "with_protobuf_descriptors example_workspace example_descriptors =
      Inr (projr (with_protobuf_descriptors example_workspace example_descriptors))" by code_simp
  moreover have "with_enabled_plugins (projr (with_protobuf_descriptors example_workspace example_descriptors)) [''q'', ''p''] =
      Inr (projr (with_enabled_plugins
        (projr (with_protobuf_descriptors example_workspace example_descriptors)) [''q'', ''p'']))" by code_simp
  ultimately show ?thesis using workspace_builders_wf by blast
qed

text \<open>
  C37. Every chain of view builders that succeeds yields a well-formed view: identities ascending
  and distinct, an analysis identity for exactly the repositories of the view, contexts and
  enrichment inputs over those repositories only, and no repository a context of itself.
\<close>

theorem view_builders_wf:
  assumes "view_new_scoped name ai states ids = Inr v" and "bm_wf ids"
    and "with_repository_contexts v contexts = Inr v'"
    and "with_repository_enrichment_inputs v' inputs = Inr v''"
    and "list_all bm_wf (map snd inputs)"
  shows "view_wf v \<and> view_wf v' \<and> view_wf v''"
proof -
  have v: "view_wf v" using assms(1,2) by (rule view_new_scoped_wf)
  then have v': "view_wf v'" using assms(3) by (rule with_repository_contexts_wf)
  have "view_wf v''"
    using assms(5) by (intro with_repository_enrichment_inputs_wf [OF v' assms(4)]) (auto simp: list_all_iff)
  with v v' show ?thesis by simp
qed

theorem view_builders_wf_witness: "view_wf example_input_view"
proof -
  have "view_new_scoped ''w'' ''v1'' example_states [(''a'', ''ia''), (''b'', ''ib'')] = Inr example_view" by code_simp
  moreover have "with_repository_contexts example_view [(''rust'', [(''a'', [''b''])])] = Inr example_context_view"
    by code_simp
  moreover have "with_repository_enrichment_inputs example_context_view [(''rust'', [(''a'', ''ja''), (''b'', ''jb'')])] =
      Inr example_input_view" by code_simp
  ultimately show ?thesis
    using view_builders_wf [of "''w''" "''v1''" example_states "[(''a'', ''ia''), (''b'', ''ib'')]"]
    by (auto simp: bm_wf_def)
qed

text \<open>
  C39. No fingerprint of a well-formed view panics: each \<open>expect\<close> of the fingerprint functions is
  reached with a value, for every repository state of the view and every analyzer.
\<close>

theorem view_fingerprints_never_panic:
  assumes "view_wf v" and "s \<in> set (wv_repository_states v)"
  shows "repository_input_fingerprint v s \<noteq> None \<and> repository_enrichment_input_fingerprint v s analyzer \<noteq> None"
proof -
  let ?rs = "rs_identity s # repository_contexts v (rs_identity s) analyzer"
  have known: "r \<in> rs_identity ` set (wv_repository_states v)" if "r \<in> set ?rs" for r
    using that assms repository_contexts_known [OF assms(1)] by auto
  have "repository_enrichment_input_fingerprint v s analyzer \<noteq> None"
  proof (cases "map_of (wv_repository_enrichment_input_identities v) analyzer")
    case None
    have "those (map (state_repository_field v) ?rs) = Some (map (the \<circ> state_repository_field v) ?rs)"
      by (intro those_total state_repository_field_total [OF assms(1)] known)
    with None show ?thesis by (simp add: repository_enrichment_input_fingerprint_def Let_def del: those.simps)
  next
    case (Some inputs)
    have iw: "inputs_wf (rs_identity ` set (wv_repository_states v)) (wv_repository_enrichment_input_identities v)"
      using assms(1) by (simp add: view_wf_def)
    have "those (map (input_repository_field inputs) ?rs) = Some (map (the \<circ> input_repository_field inputs) ?rs)"
      by (intro those_total input_repository_field_total [OF iw Some] known)
    with Some show ?thesis by (simp add: repository_enrichment_input_fingerprint_def Let_def del: those.simps)
  qed
  moreover have "repository_input_fingerprint v s \<noteq> None"
    using view_identity_total [OF assms(1)] assms(2) by (simp add: repository_input_fingerprint_def)
  ultimately show ?thesis by simp
qed

theorem view_fingerprints_never_panic_witness:
  "repository_input_fingerprint example_view (hd example_states) \<noteq> None
   \<and> repository_enrichment_input_fingerprint example_view (hd example_states) ''rust'' \<noteq> None"
proof (rule view_fingerprints_never_panic)
  have "view_new_scoped ''w'' ''v1'' example_states [(''a'', ''ia''), (''b'', ''ib'')] = Inr example_view" by code_simp
  then show "view_wf example_view" by (rule view_new_scoped_wf) (simp add: bm_wf_def)
  show "hd example_states \<in> set (wv_repository_states example_view)" by code_simp
qed

text \<open>
  Fingerprints are collision-free on what they cover: two views with one fingerprint have the
  same analysis identity and the same repository fingerprints in the same order.
\<close>

theorem view_fingerprint_injective:
  "view_fingerprint v = view_fingerprint w \<longleftrightarrow>
     wv_analysis_identity v = wv_analysis_identity w
     \<and> map rs_fingerprint (wv_repository_states v) = map rs_fingerprint (wv_repository_states w)"
proof
  assume "view_fingerprint v = view_fingerprint w"
  then have ai: "wv_analysis_identity v = wv_analysis_identity w"
    and fp: "concat (map framed (map rs_fingerprint (wv_repository_states v))) =
        concat (map framed (map rs_fingerprint (wv_repository_states w)))"
    by (auto simp: view_fingerprint_def dest: framed_append_inj)
  then show "wv_analysis_identity v = wv_analysis_identity w
     \<and> map rs_fingerprint (wv_repository_states v) = map rs_fingerprint (wv_repository_states w)"
    using concat_framed_inj [OF fp] by simp
qed (simp add: view_fingerprint_def flip: map_map)

text \<open>
  With declared enrichment inputs, the enrichment fingerprint of a repository changes exactly
  when the list of the target and its contexts changes or the input identity of one of them does;
  the inputs of unrelated repositories never matter.
\<close>

theorem enrichment_fingerprint_exact:
  assumes "map_of (wv_repository_enrichment_input_identities v) a = Some is"
    and "map_of (wv_repository_enrichment_input_identities w) a = Some js"
    and "repository_enrichment_input_fingerprint v s a = Some x"
    and "repository_enrichment_input_fingerprint w t a = Some y"
  shows "x = y \<longleftrightarrow>
     map (\<lambda>r. (r, map_of is r)) (rs_identity s # repository_contexts v (rs_identity s) a) =
     map (\<lambda>r. (r, map_of js r)) (rs_identity t # repository_contexts w (rs_identity t) a)"
    (is "_ \<longleftrightarrow> map _ ?rs = map _ ?qs")
proof
  from assms obtain xs ys where
    xs: "map (input_repository_field is) ?rs = map Some xs" and x: "x = concat xs" and
    ys: "map (input_repository_field js) ?qs = map Some ys" and y: "y = concat ys"
    by (auto simp: repository_enrichment_input_fingerprint_def Let_def those_Some_iff simp del: list.map)
  have field: "\<exists>i. map_of m r = Some i \<and> the (input_repository_field m r) = framed r @ framed i"
    if "map (input_repository_field m) rs = map Some zs" "r \<in> set rs" for m rs zs r
  proof -
    have "input_repository_field m r \<in> set (map Some zs)" unfolding that(1) [symmetric] using that(2) by simp
    then show ?thesis by (auto simp: input_repository_field_def)
  qed
  have x': "x = concat (map (the \<circ> input_repository_field is) ?rs)"
    unfolding x map_map [symmetric] xs by (simp add: comp_def)
  have y': "y = concat (map (the \<circ> input_repository_field js) ?qs)"
    unfolding y map_map [symmetric] ys by (simp add: comp_def)
  let ?f = "\<lambda>m r. framed r @ (case map_of m r of None \<Rightarrow> framed [] | Some i \<Rightarrow> framed i)"
  have x2: "x = concat (map (?f is) ?rs)" unfolding x'
    by (intro arg_cong [where f = concat] map_cong refl) (use field [OF xs] in force)
  have y2: "y = concat (map (?f js) ?qs)" unfolding y'
    by (intro arg_cong [where f = concat] map_cong refl) (use field [OF ys] in force)
  show "map (\<lambda>r. (r, map_of is r)) ?rs = map (\<lambda>r. (r, map_of js r)) ?qs" if "x = y"
  proof (rule concat_field_inj [where f = "?f is" and g = "?f js"])
    show "concat (map (?f is) ?rs) = concat (map (?f js) ?qs)" using that x2 y2 by simp
    fix r q us vs
    assume "r \<in> set ?rs" "q \<in> set ?qs" and eq: "?f is r @ us = ?f js q @ vs"
    then obtain i j where "map_of is r = Some i" "map_of js q = Some j"
      using field [OF xs] field [OF ys] by blast
    with eq show "(r, map_of is r) = (q, map_of js q) \<and> us = vs"
      by (auto dest!: framed_append_inj)
  qed simp_all
  show "x = y" if "map (\<lambda>r. (r, map_of is r)) ?rs = map (\<lambda>r. (r, map_of js r)) ?qs"
  proof -
    let ?g = "\<lambda>(r, i). framed r @ (case i of None \<Rightarrow> framed [] | Some i \<Rightarrow> framed i)"
    have "x = concat (map ?g (map (\<lambda>r. (r, map_of is r)) ?rs))" using x2 by (simp add: comp_def)
    also have "\<dots> = y" unfolding that using y2 by (simp add: comp_def)
    finally show ?thesis .
  qed
qed

theorem enrichment_fingerprint_exact_witness:
  "the (repository_enrichment_input_fingerprint example_input_view (hd example_states) ''rust'')
   \<noteq> the (repository_enrichment_input_fingerprint example_input_view (last example_states) ''rust'')"
proof -
  let ?x = "repository_enrichment_input_fingerprint example_input_view (hd example_states) ''rust''"
  let ?y = "repository_enrichment_input_fingerprint example_input_view (last example_states) ''rust''"
  have inputs: "map_of (wv_repository_enrichment_input_identities example_input_view) ''rust'' = Some [(''a'', ''ja''), (''b'', ''jb'')]"
    by code_simp
  have x: "?x = Some (the ?x)" and y: "?y = Some (the ?y)" by code_simp+
  have "rs_identity (hd example_states) \<noteq> rs_identity (last example_states)" by code_simp
  then show ?thesis unfolding enrichment_fingerprint_exact [OF inputs inputs x y] by simp
qed

end
