(* ===== verification/Domain_Dependency.thy ===== *)
theory Domain_Dependency imports Domain_Semantic Domain_Workspace begin

text \<open>
  \<open>crates/domain/src/repository_dependency.rs\<close>: the graph of repository dependencies that
  selects the context of an enrichment. Edges are stored three times (outgoing, incoming and with
  their evidence); the invariant \<open>dependency_graph_wf\<close> says how the three agree.
\<close>

datatype repository_dependency_kind =
    SemanticObservation | ResolutionOverride | ProjectReference | WorkspaceMember | PathDependency
  | CompilerDiscovered

fun dependency_kind_rank :: "repository_dependency_kind \<Rightarrow> nat" where
  "dependency_kind_rank SemanticObservation = 0"
| "dependency_kind_rank ResolutionOverride = 1"
| "dependency_kind_rank ProjectReference = 2"
| "dependency_kind_rank WorkspaceMember = 3"
| "dependency_kind_rank PathDependency = 4"
| "dependency_kind_rank CompilerDiscovered = 5"

lemma dependency_kind_rank_inj: "dependency_kind_rank k = dependency_kind_rank l \<Longrightarrow> k = l"
  by (cases k; cases l) simp_all

instantiation repository_dependency_kind :: linorder begin

definition less_eq_repository_dependency_kind :: "repository_dependency_kind \<Rightarrow> repository_dependency_kind \<Rightarrow> bool" where
  "less_eq_repository_dependency_kind k l = (dependency_kind_rank k \<le> dependency_kind_rank l)"

definition less_repository_dependency_kind :: "repository_dependency_kind \<Rightarrow> repository_dependency_kind \<Rightarrow> bool" where
  "less_repository_dependency_kind k l = (dependency_kind_rank k < dependency_kind_rank l)"

instance
  by (rule linorder.intro_of_class,
      rule linorder_by_key [OF less_eq_repository_dependency_kind_def less_repository_dependency_kind_def])
    (rule dependency_kind_rank_inj)

end

record repository_dependency_evidence =
  de_analyzer :: string
  de_kind :: repository_dependency_kind
  de_detail :: string

instantiation repository_dependency_evidence_ext :: (linorder) linorder begin

definition less_eq_repository_dependency_evidence_ext ::
    "'a repository_dependency_evidence_scheme \<Rightarrow> 'a repository_dependency_evidence_scheme \<Rightarrow> bool" where
  "less_eq_repository_dependency_evidence_ext d e =
     ((de_analyzer d, de_kind d, de_detail d, repository_dependency_evidence.more d)
      \<le> (de_analyzer e, de_kind e, de_detail e, repository_dependency_evidence.more e))"

definition less_repository_dependency_evidence_ext ::
    "'a repository_dependency_evidence_scheme \<Rightarrow> 'a repository_dependency_evidence_scheme \<Rightarrow> bool" where
  "less_repository_dependency_evidence_ext d e =
     ((de_analyzer d, de_kind d, de_detail d, repository_dependency_evidence.more d)
      < (de_analyzer e, de_kind e, de_detail e, repository_dependency_evidence.more e))"

instance
  by (rule linorder.intro_of_class,
      rule linorder_by_key [OF less_eq_repository_dependency_evidence_ext_def
        less_repository_dependency_evidence_ext_def]) auto

end

record repository_dependency_candidate =
  dc_from :: string
  dc_to :: string
  dc_analyzer :: string
  dc_kind :: repository_dependency_kind
  dc_evidence :: string

record repository_dependency =
  rd_from :: string
  rd_to :: string
  rd_analyzers :: "string bset"
  rd_kinds :: "repository_dependency_kind bset"
  rd_evidence :: "repository_dependency_evidence bset"

record repository_dependency_graph =
  dg_repositories :: "string bset"
  dg_outgoing :: "(string, string bset) bmap"
  dg_incoming :: "(string, string bset) bmap"
  dg_dependencies :: "(string, (string, repository_dependency) bmap) bmap"

text \<open>The facts of one repository (\<open>RepositoryFacts\<close> of \<open>semantic.rs\<close>).\<close>

record repository_facts =
  rf_state :: repository_state
  rf_analysis_identity :: string
  rf_incomplete :: bool
  rf_diagnostics :: "analysis_diagnostic list"
  rf_entities :: "entity_fact list"
  rf_grpc_bindings :: "grpc_binding_candidate list"
  rf_observations :: "observation list"

definition dependency_graph_new :: "string list \<Rightarrow> string + repository_dependency_graph" where
  "dependency_graph_new repositories =
     (if list_ex blank (bs_of_list repositories)
      then Inl ''repository dependency graph identities must not be empty''
      else Inr \<lparr>dg_repositories = bs_of_list repositories, dg_outgoing = [], dg_incoming = [],
                dg_dependencies = []\<rparr>)"

definition record_evidence ::
    "string \<Rightarrow> string \<Rightarrow> string \<Rightarrow> repository_dependency_kind \<Rightarrow> string \<Rightarrow> repository_dependency option \<Rightarrow> repository_dependency" where
  "record_evidence source target analyzer kind evidence existing =
     (let d = (case existing of
                 Some d \<Rightarrow> d
               | None \<Rightarrow> \<lparr>rd_from = source, rd_to = target, rd_analyzers = [], rd_kinds = [], rd_evidence = []\<rparr>)
      in d\<lparr>rd_analyzers := bs_insert analyzer (rd_analyzers d),
           rd_kinds := bs_insert kind (rd_kinds d),
           rd_evidence := bs_insert \<lparr>de_analyzer = analyzer, de_kind = kind, de_detail = evidence\<rparr> (rd_evidence d)\<rparr>)"

definition add_dependency ::
    "string \<Rightarrow> string \<Rightarrow> string \<Rightarrow> repository_dependency_kind \<Rightarrow> string
     \<Rightarrow> repository_dependency_graph \<Rightarrow> string + repository_dependency_graph" where
  "add_dependency source target analyzer kind evidence g =
     (if source \<notin> set (dg_repositories g) then Inl (''unknown dependency source repository '' @ source)
      else if target \<notin> set (dg_repositories g) then Inl (''unknown dependency target repository '' @ target)
      else if blank analyzer then Inl ''repository dependency analyzer must not be empty''
      else if source = target then Inr g
      else Inr (g\<lparr>dg_outgoing := bmm_add source target (dg_outgoing g),
                  dg_incoming := bmm_add target source (dg_incoming g),
                  dg_dependencies :=
                    bm_entry source (\<lambda>inner.
                      bm_entry target (record_evidence source target analyzer kind evidence)
                        (case inner of None \<Rightarrow> [] | Some m \<Rightarrow> m)) (dg_dependencies g)\<rparr>))"

definition add_candidates ::
    "repository_dependency_candidate list \<Rightarrow> repository_dependency_graph \<Rightarrow> string + repository_dependency_graph" where
  "add_candidates candidates g =
     try_fold (\<lambda>c. add_dependency (dc_from c) (dc_to c) (dc_analyzer c) (dc_kind c) (dc_evidence c)) candidates g"

text \<open>The owner of an entity: the repository that states a fact about it, else the longest matching \<open>repo://\<close> prefix.\<close>

definition entity_owners :: "repository_facts list \<Rightarrow> (string, string) bmap" where
  "entity_owners repositories =
     fold (\<lambda>r. fold (\<lambda>e. bm_put (ef_id e) (rs_identity (rf_state r))) (rf_entities r)) repositories []"

definition repository_prefix :: "string \<Rightarrow> string" where
  "repository_prefix repository = ''repo://'' @ repository @ ''/''"

definition max_by_length :: "string list \<Rightarrow> string option" where
  "max_by_length xs =
     fold (\<lambda>x best. case best of None \<Rightarrow> Some x | Some b \<Rightarrow> if length b \<le> length x then Some x else Some b) xs None"

definition entity_owner :: "(string, string) bmap \<Rightarrow> string bset \<Rightarrow> string \<Rightarrow> string option" where
  "entity_owner owners repositories entity =
     (case map_of owners entity of
        Some r \<Rightarrow> Some r
      | None \<Rightarrow> max_by_length (filter (\<lambda>r. starts_with entity (repository_prefix r)) repositories))"

definition entity_analyzer :: "string \<Rightarrow> string \<Rightarrow> string option" where
  "entity_analyzer repository entity =
     (case strip_prefix (repository_prefix repository) entity of
        None \<Rightarrow> None
      | Some path \<Rightarrow> let analyzer = hd (split_on CHR ''/'' path) in if analyzer = [] then None else Some analyzer)"

text \<open>One observed relation: it becomes an edge when both ends have an owner and the source an analyzer.\<close>

definition add_relation ::
    "(string, string) bmap \<Rightarrow> repository_dependency_kind \<Rightarrow> string \<times> string \<times> string
     \<Rightarrow> repository_dependency_graph \<Rightarrow> string + repository_dependency_graph" where
  "add_relation owners kind = (\<lambda>(source, target, evidence) g.
     case (entity_owner owners (dg_repositories g) source, entity_owner owners (dg_repositories g) target) of
       (Some from_repository, Some to_repository) \<Rightarrow>
         (case entity_analyzer from_repository source of
            Some analyzer \<Rightarrow> add_dependency from_repository to_repository analyzer kind evidence g
          | None \<Rightarrow> Inr g)
     | _ \<Rightarrow> Inr g)"

definition dependency_observations :: "repository_facts list \<Rightarrow> (string \<times> string \<times> string) list" where
  "dependency_observations repositories =
     concat (map (\<lambda>r. map (\<lambda>ob. (ob_from ob, ob_to ob, ob_evidence ob))
       (filter (\<lambda>ob. relation_dependency (ob_relation ob) \<noteq> None) (rf_observations r))) repositories)"

definition override_relations :: "dependency_override list \<Rightarrow> (string \<times> string \<times> string) list" where
  "override_relations overrides = map (\<lambda>r. (do_from r, do_resolved_to r, do_evidence r)) overrides"

definition from_baseline ::
    "repository_facts list \<Rightarrow> dependency_override list \<Rightarrow> string + repository_dependency_graph" where
  "from_baseline repositories overrides =
     rbind (dependency_graph_new (map (rs_identity \<circ> rf_state) repositories)) (\<lambda>g.
       rbind (try_fold (add_relation (entity_owners repositories) SemanticObservation)
                (dependency_observations repositories) g) (\<lambda>g.
         try_fold (add_relation (entity_owners repositories) ResolutionOverride)
           (override_relations overrides) g))"

definition direct_context :: "repository_dependency_graph \<Rightarrow> string \<Rightarrow> string list" where
  "direct_context g target = bmm_get (dg_outgoing g) target"

definition contains_dependency :: "repository_dependency_graph \<Rightarrow> string \<Rightarrow> string \<Rightarrow> bool" where
  "contains_dependency g source target =
     (case map_of (dg_outgoing g) source of None \<Rightarrow> False | Some ts \<Rightarrow> target \<in> set ts)"

definition affected_targets :: "repository_dependency_graph \<Rightarrow> string \<Rightarrow> string list" where
  "affected_targets g context = bmm_get (dg_incoming g) context"

definition dependencies_from :: "repository_dependency_graph \<Rightarrow> string \<Rightarrow> repository_dependency list" where
  "dependencies_from g target =
     (case map_of (dg_dependencies g) target of None \<Rightarrow> [] | Some m \<Rightarrow> map snd m)"

definition context_map :: "repository_dependency_graph \<Rightarrow> (string, string list) bmap" where
  "context_map g = dg_outgoing g"

definition context_map_for :: "repository_dependency_graph \<Rightarrow> string \<Rightarrow> (string, string list) bmap" where
  "context_map_for g analyzer =
     bm_of_list (List.map_filter (\<lambda>(target, dependencies).
       let contexts = map (rd_to \<circ> snd) (filter (\<lambda>(_, d). analyzer \<in> set (rd_analyzers d)) dependencies)
       in if contexts \<noteq> [] then Some (target, contexts) else None) (dg_dependencies g))"


section \<open>The invariant of the graph\<close>

definition dependency_at :: "repository_dependency_graph \<Rightarrow> string \<Rightarrow> string \<Rightarrow> repository_dependency option" where
  "dependency_at g source target = Option.bind (map_of (dg_dependencies g) source) (\<lambda>m. map_of m target)"

definition evidence_wf :: "string \<Rightarrow> string \<Rightarrow> repository_dependency \<Rightarrow> bool" where
  "evidence_wf source target d \<longleftrightarrow>
     rd_from d = source \<and> rd_to d = target \<and> rd_evidence d \<noteq> []
     \<and> ascending (rd_evidence d) \<and> ascending (rd_analyzers d) \<and> ascending (rd_kinds d)
     \<and> set (rd_analyzers d) = de_analyzer ` set (rd_evidence d)
     \<and> set (rd_kinds d) = de_kind ` set (rd_evidence d)"

definition edges_wf :: "repository_dependency_graph \<Rightarrow> bool" where
  "edges_wf g \<longleftrightarrow>
     bmm_wf (dg_outgoing g) \<and> bmm_wf (dg_incoming g)
     \<and> bmm_rel (dg_incoming g) = (bmm_rel (dg_outgoing g))\<inverse>
     \<and> (\<forall>(s, t) \<in> bmm_rel (dg_outgoing g). s \<noteq> t \<and> s \<in> set (dg_repositories g) \<and> t \<in> set (dg_repositories g))"

definition dependencies_wf :: "repository_dependency_graph \<Rightarrow> bool" where
  "dependencies_wf g \<longleftrightarrow>
     bm_wf (dg_dependencies g) \<and> (\<forall>s m. map_of (dg_dependencies g) s = Some m \<longrightarrow> bm_wf m)
     \<and> (\<forall>s t. dependency_at g s t \<noteq> None \<longleftrightarrow> (s, t) \<in> bmm_rel (dg_outgoing g))
     \<and> (\<forall>s t d. dependency_at g s t = Some d \<longrightarrow> evidence_wf s t d)"

definition dependency_graph_wf :: "repository_dependency_graph \<Rightarrow> bool" where
  "dependency_graph_wf g \<longleftrightarrow>
     ascending (dg_repositories g) \<and> list_all (\<lambda>r. \<not> blank r) (dg_repositories g)
     \<and> edges_wf g \<and> dependencies_wf g"

lemma dependency_graph_new_wf: "dependency_graph_new rs = Inr g \<Longrightarrow> dependency_graph_wf g"
  by (auto simp: dependency_graph_new_def dependency_graph_wf_def edges_wf_def dependencies_wf_def
      dependency_at_def bmm.rel_emp bmm.wf_emp list_ex_iff list_all_iff split: if_splits)

lemma dependency_graph_new_repositories: "dependency_graph_new rs = Inr g \<Longrightarrow> dg_repositories g = bs_of_list rs"
  by (auto simp: dependency_graph_new_def split: if_splits)

lemma record_evidence_wf:
  assumes "\<And>d. existing = Some d \<Longrightarrow> evidence_wf s t d"
  shows "evidence_wf s t (record_evidence s t a k e existing)"
proof -
  have ne: "bs_insert x xs \<noteq> []" for x :: repository_dependency_evidence and xs
    by (cases xs) auto
  show ?thesis
    using assms by (cases existing) (auto simp: evidence_wf_def record_evidence_def Let_def ne)
qed

text \<open>What a successful \<open>add_dependency\<close> did.\<close>

lemma add_dependency_Inr_iff:
  "add_dependency s t a k e g = Inr g' \<longleftrightarrow>
     s \<in> set (dg_repositories g) \<and> t \<in> set (dg_repositories g) \<and> \<not> blank a \<and>
     g' = (if s = t then g
           else g\<lparr>dg_outgoing := bmm_add s t (dg_outgoing g), dg_incoming := bmm_add t s (dg_incoming g),
                  dg_dependencies :=
                    bm_entry s (\<lambda>inner. bm_entry t (record_evidence s t a k e)
                      (case inner of None \<Rightarrow> [] | Some m \<Rightarrow> m)) (dg_dependencies g)\<rparr>)"
  by (auto simp: add_dependency_def)

lemma add_dependency_self: "add_dependency s s a k e g = Inr g' \<Longrightarrow> g' = g"
  by (simp add: add_dependency_Inr_iff)

lemma add_dependency_fields:
  assumes "add_dependency s t a k e g = Inr g'" "s \<noteq> t"
  shows "dg_outgoing g' = bmm_add s t (dg_outgoing g)"
    and "dg_incoming g' = bmm_add t s (dg_incoming g)"
    and "dg_dependencies g' = bm_entry s (\<lambda>inner. bm_entry t (record_evidence s t a k e)
           (case inner of None \<Rightarrow> [] | Some m \<Rightarrow> m)) (dg_dependencies g)"
  using assms by (simp_all add: add_dependency_Inr_iff)

lemma add_dependency_known:
  assumes "add_dependency s t a k e g = Inr g'"
  shows "s \<in> set (dg_repositories g)" "t \<in> set (dg_repositories g)" "\<not> blank a"
    and "dg_repositories g' = dg_repositories g"
  using assms by (simp_all add: add_dependency_Inr_iff)

lemma dependency_at_add:
  assumes "add_dependency s t a k e g = Inr g'" "s \<noteq> t"
  shows "dependency_at g' s' t' =
    (if s' = s \<and> t' = t then Some (record_evidence s t a k e (dependency_at g s t)) else dependency_at g s' t')"
proof (cases "map_of (dg_dependencies g) s")
  case None
  then show ?thesis by (simp add: dependency_at_def add_dependency_fields [OF assms])
next
  case (Some m)
  then show ?thesis by (simp add: dependency_at_def add_dependency_fields [OF assms])
qed

lemma add_dependency_edges:
  assumes "add_dependency s t a k e g = Inr g'"
  shows "bmm_rel (dg_outgoing g') = bmm_rel (dg_outgoing g) \<union> ({(s, t)} - Id)"
proof (cases "s = t")
  case True
  with assms add_dependency_self show ?thesis by fastforce
next
  case False
  then show ?thesis by (auto simp: add_dependency_fields [OF assms False] bmm.rel_add)
qed

lemma add_dependency_edges_wf:
  assumes "add_dependency s t a k e g = Inr g'" "edges_wf g"
  shows "edges_wf g'"
proof (cases "s = t")
  case True
  with assms add_dependency_self show ?thesis by blast
next
  case False
  note fields = add_dependency_fields [OF assms(1) False]
  have "bmm_rel (dg_incoming g') = (bmm_rel (dg_outgoing g'))\<inverse>"
    using assms(2) by (auto simp: fields bmm.rel_add edges_wf_def)
  then show ?thesis
    using assms(2) False add_dependency_known [OF assms(1)]
    by (simp add: fields edges_wf_def bmm.rel_add bmm.wf_add)
qed

lemma add_dependency_dependencies_wf:
  assumes "add_dependency s t a k e g = Inr g'" "dependencies_wf g"
  shows "dependencies_wf g'"
proof (cases "s = t")
  case True
  with assms add_dependency_self show ?thesis by blast
next
  case False
  have "bm_wf (dg_dependencies g')"
    using assms(2) by (simp add: add_dependency_fields [OF assms(1) False] dependencies_wf_def)
  moreover have "bm_wf m" if "map_of (dg_dependencies g') s' = Some m" for s' m
    using assms(2) that
    by (auto simp: add_dependency_fields [OF assms(1) False] dependencies_wf_def split: option.splits if_splits)
  ultimately have maps: "bm_wf (dg_dependencies g')" "\<And>s m. map_of (dg_dependencies g') s = Some m \<Longrightarrow> bm_wf m"
    by blast+
  have dom: "dependency_at g' s' t' \<noteq> None \<longleftrightarrow> (s', t') \<in> bmm_rel (dg_outgoing g')" for s' t'
    using assms(2) False
    by (auto simp: dependency_at_add [OF assms(1) False] add_dependency_edges [OF assms(1)] dependencies_wf_def
        simp del: not_None_eq)
  have "evidence_wf s' t' d" if "dependency_at g' s' t' = Some d" for s' t' d
    using that assms(2) record_evidence_wf [of "dependency_at g s t" s t a k e]
    by (auto simp: dependency_at_add [OF assms(1) False] dependencies_wf_def split: if_splits)
  with maps dom show ?thesis by (simp add: dependencies_wf_def)
qed

lemma add_dependency_wf:
  "add_dependency s t a k e g = Inr g' \<Longrightarrow> dependency_graph_wf g \<Longrightarrow> dependency_graph_wf g'"
  by (simp add: dependency_graph_wf_def add_dependency_edges_wf add_dependency_dependencies_wf add_dependency_known)

lemma add_candidates_wf:
  assumes "add_candidates cs g = Inr g'" "dependency_graph_wf g"
  shows "dependency_graph_wf g'"
  using assms unfolding add_candidates_def by (rule try_fold_inv) (rule add_dependency_wf)

text \<open>The edge one relation contributes, if any.\<close>

definition relation_edge :: "(string, string) bmap \<Rightarrow> string bset \<Rightarrow> string \<times> string \<times> string \<Rightarrow> (string \<times> string) set" where
  "relation_edge owners repositories = (\<lambda>(source, target, evidence).
     {(s, t). s \<noteq> t \<and> entity_owner owners repositories source = Some s
        \<and> entity_owner owners repositories target = Some t \<and> entity_analyzer s source \<noteq> None})"

lemma add_relation_spec:
  assumes "add_relation owners kind rel g = Inr g'"
  shows "dg_repositories g' = dg_repositories g
    \<and> (dependency_graph_wf g \<longrightarrow> dependency_graph_wf g')
    \<and> bmm_rel (dg_outgoing g') = bmm_rel (dg_outgoing g) \<union> relation_edge owners (dg_repositories g) rel"
proof -
  obtain source target evidence where rel: "rel = (source, target, evidence)" by (cases rel)
  show ?thesis
  proof (cases "\<exists>s t a. entity_owner owners (dg_repositories g) source = Some s
      \<and> entity_owner owners (dg_repositories g) target = Some t \<and> entity_analyzer s source = Some a")
    case True
    then obtain s t a where o: "entity_owner owners (dg_repositories g) source = Some s"
      "entity_owner owners (dg_repositories g) target = Some t" "entity_analyzer s source = Some a" by blast
    with assms have add: "add_dependency s t a kind evidence g = Inr g'"
      by (simp add: add_relation_def rel)
    moreover have "relation_edge owners (dg_repositories g) rel = {(s, t)} - Id"
      using o by (auto simp: relation_edge_def rel)
    ultimately show ?thesis by (auto simp: add_dependency_edges add_dependency_known intro: add_dependency_wf)
  next
    case False
    then have "g' = g" using assms by (auto simp: add_relation_def rel split: option.splits)
    moreover have "relation_edge owners (dg_repositories g) rel = {}"
      using False by (auto simp: relation_edge_def rel)
    ultimately show ?thesis by simp
  qed
qed

lemma add_relations_spec:
  assumes "try_fold (add_relation owners kind) rels g = Inr g'" "dependency_graph_wf g"
  shows "dependency_graph_wf g' \<and> dg_repositories g' = dg_repositories g
    \<and> bmm_rel (dg_outgoing g') =
        bmm_rel (dg_outgoing g) \<union> (\<Union>rel \<in> set rels. relation_edge owners (dg_repositories g) rel)"
proof -
  have "(dependency_graph_wf g' \<and> dg_repositories g' = dg_repositories g)
    \<and> bmm_rel (dg_outgoing g') =
        bmm_rel (dg_outgoing g) \<union> (\<Union>rel \<in> set rels. relation_edge owners (dg_repositories g) rel)"
    using assms
    by (intro try_fold_collect [where P = "\<lambda>h. dependency_graph_wf h \<and> dg_repositories h = dg_repositories g"
          and E = "\<lambda>h. bmm_rel (dg_outgoing h)"]) (auto dest: add_relation_spec)
  then show ?thesis by simp
qed

lemma from_baseline_spec:
  assumes "from_baseline repositories overrides = Inr g"
  shows "dependency_graph_wf g
    \<and> dg_repositories g = bs_of_list (map (rs_identity \<circ> rf_state) repositories)
    \<and> bmm_rel (dg_outgoing g) =
        (\<Union>rel \<in> set (dependency_observations repositories) \<union> set (override_relations overrides).
           relation_edge (entity_owners repositories) (dg_repositories g) rel)"
proof -
  obtain g0 g1 where g0: "dependency_graph_new (map (rs_identity \<circ> rf_state) repositories) = Inr g0"
    and g1: "try_fold (add_relation (entity_owners repositories) SemanticObservation)
        (dependency_observations repositories) g0 = Inr g1"
    and g2: "try_fold (add_relation (entity_owners repositories) ResolutionOverride)
        (override_relations overrides) g1 = Inr g"
    using assms by (auto simp: from_baseline_def rbind_Inr_iff)
  have "dg_outgoing g0 = []" using g0 by (auto simp: dependency_graph_new_def split: if_splits)
  with add_relations_spec [OF g1 dependency_graph_new_wf [OF g0]] add_relations_spec [OF g2]
    dependency_graph_new_repositories [OF g0]
  show ?thesis by (simp add: bmm.rel_emp)
qed

lemma dependencies_from_targets:
  assumes "dependency_graph_wf g"
  shows "t \<in> set (direct_context g s) \<longleftrightarrow> t \<in> rd_to ` set (dependencies_from g s)"
proof -
  note wf = assms [unfolded dependency_graph_wf_def dependencies_wf_def]
  have e: "t \<in> set (direct_context g s) \<longleftrightarrow> dependency_at g s t \<noteq> None"
    using wf by (simp add: direct_context_def bmm_get_rel)
  show ?thesis
  proof (cases "map_of (dg_dependencies g) s")
    case None
    with e show ?thesis by (simp add: dependencies_from_def dependency_at_def)
  next
    case (Some m)
    then have at: "dependency_at g s u = map_of m u" for u by (simp add: dependency_at_def)
    have "rd_to d = u" if "map_of m u = Some d" for u d
      using wf that at [of u] by (metis evidence_wf_def)
    moreover have "bm_wf m" using wf Some by blast
    moreover have "t \<in> rd_to ` set (map snd m) \<longleftrightarrow> (\<exists>u d. (u, d) \<in> set m \<and> rd_to d = t)" by force
    ultimately have "t \<in> rd_to ` set (map snd m) \<longleftrightarrow> map_of m t \<noteq> None"
      by (metis bm_wf_in_iff not_None_eq)
    with e at Some show ?thesis by (simp add: dependencies_from_def)
  qed
qed

section \<open>Example values\<close>

definition example_facts :: "repository_facts list" where
  "example_facts =
     [\<lparr>rf_state = \<lparr>rs_repository = \<lparr>lr_identity = ''a''\<rparr>, rs_head = None, rs_fingerprint = ''fa''\<rparr>,
       rf_analysis_identity = ''ia'', rf_incomplete = False, rf_diagnostics = [], rf_entities = [],
       rf_grpc_bindings = [],
       rf_observations = [observation_dependency ''repo://a/rust/x'' Calls ''repo://b/rust/y'' ''e'']\<rparr>,
      \<lparr>rf_state = \<lparr>rs_repository = \<lparr>lr_identity = ''b''\<rparr>, rs_head = None, rs_fingerprint = ''fb''\<rparr>,
       rf_analysis_identity = ''ib'', rf_incomplete = False, rf_diagnostics = [], rf_entities = [],
       rf_grpc_bindings = [], rf_observations = []\<rparr>]"

definition example_graph :: repository_dependency_graph where
  "example_graph = projr (from_baseline example_facts [])"

definition example_candidates :: "repository_dependency_candidate list" where
  "example_candidates =
     [\<lparr>dc_from = ''b'', dc_to = ''a'', dc_analyzer = ''rust'', dc_kind = PathDependency, dc_evidence = ''Cargo.toml''\<rparr>]"

section \<open>Properties\<close>

text \<open>
  C36. Every graph the code builds, from a baseline and then from manifest candidates, keeps the
  invariant: outgoing and incoming edges are converse, no repository depends on itself, every
  endpoint is a registered repository, and exactly the edges carry a dependency record, whose
  analyzers and kinds are those of its non-empty evidence.
\<close>

theorem dependency_graph_invariant:
  assumes "from_baseline repositories overrides = Inr g" and "add_candidates candidates g = Inr g'"
  shows "dependency_graph_wf g \<and> dependency_graph_wf g'"
  using from_baseline_spec [OF assms(1)] add_candidates_wf [OF assms(2)] by blast

theorem dependency_graph_invariant_witness:
  "dependency_graph_wf (projr (add_candidates example_candidates example_graph))"
proof -
  have "from_baseline example_facts [] = Inr example_graph" by code_simp
  moreover have "add_candidates example_candidates example_graph = Inr (projr (add_candidates example_candidates example_graph))"
    by code_simp
  ultimately show ?thesis using dependency_graph_invariant by blast
qed

text \<open>
  C14. The four views of one edge agree: \<open>to\<close> is direct context of \<open>from\<close> iff \<open>from\<close> is an affected
  target of \<open>to\<close> iff \<open>contains_dependency\<close> says so iff a dependency record of \<open>from\<close> names \<open>to\<close>.
\<close>

theorem dependency_views_agree:
  assumes "dependency_graph_wf g"
  shows "(t \<in> set (direct_context g s)) = (s \<in> set (affected_targets g t))
    \<and> (t \<in> set (direct_context g s)) = contains_dependency g s t
    \<and> (t \<in> set (direct_context g s)) = (t \<in> rd_to ` set (dependencies_from g s))"
proof -
  note wf = assms [unfolded dependency_graph_wf_def edges_wf_def]
  have "t \<in> set (direct_context g s) \<longleftrightarrow> s \<in> set (affected_targets g t)"
    using wf by (simp add: direct_context_def affected_targets_def bmm_get_rel)
  moreover have "t \<in> set (direct_context g s) \<longleftrightarrow> contains_dependency g s t"
    by (simp add: direct_context_def contains_dependency_def bmm_get_def split: option.split)
  ultimately show ?thesis using dependencies_from_targets [OF assms] by blast
qed

theorem dependency_views_agree_witness:
  "(''b'' \<in> set (direct_context example_graph ''a'')) = (''a'' \<in> set (affected_targets example_graph ''b''))
    \<and> (''b'' \<in> set (direct_context example_graph ''a'')) = contains_dependency example_graph ''a'' ''b''
    \<and> (''b'' \<in> set (direct_context example_graph ''a'')) = (''b'' \<in> rd_to ` set (dependencies_from example_graph ''a''))"
proof (rule dependency_views_agree)
  have "from_baseline example_facts [] = Inr example_graph" by code_simp
  then show "dependency_graph_wf example_graph" using from_baseline_spec by blast
qed

text \<open>
  The baseline graph has an edge exactly where some dependency observation or resolved
  override leads from an entity of one repository, with a known analyzer, to an entity of another.
\<close>

theorem baseline_edges_exact:
  assumes "from_baseline repositories overrides = Inr g"
  shows "{(s, t). t \<in> set (direct_context g s)} =
    (\<Union>rel \<in> set (dependency_observations repositories) \<union> set (override_relations overrides).
       relation_edge (entity_owners repositories) (bs_of_list (map (rs_identity \<circ> rf_state) repositories)) rel)"
  using from_baseline_spec [OF assms] by (simp add: direct_context_def bmm_rel_def)

theorem baseline_edges_exact_witness:
  "{(s, t). t \<in> set (direct_context example_graph s)} =
    (\<Union>rel \<in> set (dependency_observations example_facts) \<union> set (override_relations []).
       relation_edge (entity_owners example_facts) (bs_of_list (map (rs_identity \<circ> rf_state) example_facts)) rel)"
proof (rule baseline_edges_exact)
  show "from_baseline example_facts [] = Inr example_graph" by code_simp
qed

text \<open>
  Adding a dependency fails exactly for an unknown repository or a blank analyzer; otherwise
  it adds that edge and its evidence (nothing for an edge to itself) and leaves the rest alone.
\<close>

theorem add_dependency_effect:
  "case add_dependency s t a k e g of
     Inl _ \<Rightarrow> \<not> (s \<in> set (dg_repositories g) \<and> t \<in> set (dg_repositories g) \<and> \<not> blank a)
   | Inr g' \<Rightarrow>
       s \<in> set (dg_repositories g) \<and> t \<in> set (dg_repositories g) \<and> \<not> blank a
       \<and> {(x, y). y \<in> set (direct_context g' x)} = {(x, y). y \<in> set (direct_context g x)} \<union> ({(s, t)} - Id)
       \<and> (\<forall>x y. dependency_at g' x y =
            (if s \<noteq> t \<and> x = s \<and> y = t then Some (record_evidence s t a k e (dependency_at g s t))
             else dependency_at g x y))"
proof (cases "add_dependency s t a k e g")
  case (Inl m)
  then show ?thesis by (auto simp: add_dependency_def split: if_splits)
next
  case (Inr g')
  have "dependency_at g' x y =
      (if s \<noteq> t \<and> x = s \<and> y = t then Some (record_evidence s t a k e (dependency_at g s t))
       else dependency_at g x y)" for x y
  proof (cases "s = t")
    case True
    with Inr show ?thesis by (simp add: add_dependency_Inr_iff)
  next
    case False
    with Inr show ?thesis by (simp add: dependency_at_add)
  qed
  then show ?thesis
    using Inr add_dependency_known [OF Inr] add_dependency_edges [OF Inr]
    by (simp add: direct_context_def bmm_rel_def)
qed

end
