(* ===== verification/Dto.thy ===== *)
theory Dto imports Domain_Semantic begin

text \<open>
  \<open>crates/dto/src/lib.rs\<close>: the values queries return and the daemon sends. Names that the domain
  crate uses too carry a prefix here (\<open>dto_\<close>, constructors \<open>Dto\<dots>\<close> or \<open>Ek\<dots>\<close>, \<open>Rk\<dots>\<close>). An \<open>f32\<close> or
  \<open>f64\<close> is the rational number it denotes: confidences are finite. How serde writes these values
  as JSON is not modelled.
\<close>

type_synonym f32 = rat
type_synonym f64 = rat

section \<open>Constants\<close>

definition CONTEXT_SCHEMA_V1 :: string where "CONTEXT_SCHEMA_V1 = ''beholder.context.v1''"
definition DEPENDENCIES_SCHEMA_V2 :: string where "DEPENDENCIES_SCHEMA_V2 = ''beholder.dependencies.v2''"
definition IMPACT_SCHEMA_V2 :: string where "IMPACT_SCHEMA_V2 = ''beholder.impact.v2''"
definition TRACE_SCHEMA_V2 :: string where "TRACE_SCHEMA_V2 = ''beholder.trace.v2''"
definition WHY_SCHEMA_V2 :: string where "WHY_SCHEMA_V2 = ''beholder.why.v2''"
definition WORKSPACE_TOPOLOGY_SCHEMA_V1 :: string where
  "WORKSPACE_TOPOLOGY_SCHEMA_V1 = ''beholder.workspace_topology.v1''"
definition ENTITY_SEARCH_SCHEMA_V2 :: string where "ENTITY_SEARCH_SCHEMA_V2 = ''beholder.entity_search.v2''"
definition TRAVERSE_GRAPH_SCHEMA_V2 :: string where "TRAVERSE_GRAPH_SCHEMA_V2 = ''beholder.traverse_graph.v2''"

definition DEFAULT_MAX_HOPS :: u32 where "DEFAULT_MAX_HOPS = 32"
definition DEFAULT_ENTITY_SEARCH_LIMIT :: u32 where "DEFAULT_ENTITY_SEARCH_LIMIT = 20"
definition MAX_ENTITY_SEARCH_LIMIT :: u32 where "MAX_ENTITY_SEARCH_LIMIT = 100"
definition DEFAULT_TRAVERSAL_HOPS :: u32 where "DEFAULT_TRAVERSAL_HOPS = 8"
definition MAX_TRAVERSAL_HOPS :: u32 where "MAX_TRAVERSAL_HOPS = 32"
definition DEFAULT_MAX_PATHS :: u32 where "DEFAULT_MAX_PATHS = 50"
definition MAX_PATHS :: u32 where "MAX_PATHS = 200"
definition MAX_TRAVERSAL_ROWS :: u32 where "MAX_TRAVERSAL_ROWS = 10000"
definition MAX_TRAVERSAL_STEPS :: u32 where "MAX_TRAVERSAL_STEPS = 100000"
definition TRAVERSAL_ACQUISITION_TIMEOUT_MS :: u32 where "TRAVERSAL_ACQUISITION_TIMEOUT_MS = 5000"

section \<open>Garbage collection and freshness\<close>

record garbage_collection =
  gc_repository_states_queued :: u64

datatype garbage_collection_phase =
    ClaimingObsoleteStates | SweepingObsoleteStates | CheckpointingDatabase | ReclaimingDatabaseSpace

record garbage_collection_progress =
  gp_phase :: garbage_collection_phase
  gp_step :: "string option"
  gp_rows :: "u64 option"
  gp_completed_rows :: "u64 option"
  gp_stale_states :: "u32 option"
  gp_repositories :: "u32 option"
  gp_completed_steps :: u32
  gp_total_steps :: u32

definition progress_phase :: "garbage_collection_phase \<Rightarrow> garbage_collection_progress" where
  "progress_phase phase =
     \<lparr>gp_phase = phase, gp_step = None, gp_rows = None, gp_completed_rows = None, gp_stale_states = None,
      gp_repositories = None, gp_completed_steps = 0, gp_total_steps = 0\<rparr>"

record garbage_collection_status =
  gs_running :: bool
  gs_repository_states_collectible :: u64
  gs_repository_states_queued :: u64
  gs_reclaimable_database_pages :: u64
  gs_progress :: "garbage_collection_progress option"

datatype garbage_collection_event = Progress garbage_collection_progress | Completed garbage_collection

record freshness =
  fr_stale :: bool
  fr_indexing :: bool
  fr_dirty_repositories :: "string list"
  fr_enriching_repositories :: "string list"

section \<open>Analysis metadata\<close>

datatype analysis_completeness = Complete | Incomplete
datatype dto_severity = DtoKnownLimitation | DtoWarning

record dto_diagnostic =
  dd_code :: string
  dd_severity :: dto_severity
  dd_repository :: string
  dd_path :: string
  dd_line :: "u32 option"
  dd_detail :: "string option"

record diagnostic_counts =
  dn_total :: u64
  dn_known_limitations :: u64
  dn_warnings :: u64

record analysis_metadata =
  am_completeness :: analysis_completeness
  am_diagnostic_counts :: diagnostic_counts
  am_diagnostics :: "dto_diagnostic list"

definition default_diagnostic_counts :: diagnostic_counts where
  "default_diagnostic_counts = \<lparr>dn_total = 0, dn_known_limitations = 0, dn_warnings = 0\<rparr>"

definition default_analysis_metadata :: analysis_metadata where
  "default_analysis_metadata =
     \<lparr>am_completeness = Complete, am_diagnostic_counts = default_diagnostic_counts, am_diagnostics = []\<rparr>"

definition analysis_is_complete :: "analysis_metadata \<Rightarrow> bool" where
  "analysis_is_complete a \<longleftrightarrow>
     am_completeness a = Complete \<and> dn_total (am_diagnostic_counts a) = 0 \<and> am_diagnostics a = []"

record repository_revision =
  rr_source_state :: string
  rr_head :: "string option"
  rr_analysis_identity :: string
  rr_analysis :: analysis_metadata

record repository_status =
  rst_identity :: string
  rst_display_name :: string
  rst_base :: string
  rst_alternatives :: "string list"
  rst_revision :: "repository_revision option"
  rst_indexing :: bool

record query_metadata =
  qm_revision :: u64
  qm_view :: string
  qm_freshness :: freshness
  qm_analysis :: analysis_metadata

definition query_metadata_completed :: "string \<Rightarrow> u64 \<Rightarrow> query_metadata" where
  "query_metadata_completed view revision =
     \<lparr>qm_revision = revision, qm_view = view,
      qm_freshness = \<lparr>fr_stale = False, fr_indexing = False, fr_dirty_repositories = [],
                      fr_enriching_repositories = []\<rparr>,
      qm_analysis = default_analysis_metadata\<rparr>"

record traversal_metadata =
  tm_max_hops :: u32
  tm_truncated :: bool

section \<open>Entities\<close>

datatype dto_entity_kind =
    EkCallable | EkGraphqlArgument | EkGraphqlEnumValue | EkGraphqlField | EkGraphqlOperation
  | EkGraphqlType | EkKafkaTopic | EkNamespace | EkProtoEnum | EkProtoField | EkProtoFile
  | EkProtoMessage | EkProtoService | EkRpc | EkService | EkUnityPrefab | EkUnknown

datatype entity_origin = Source | GeneratedOrigin | ExternalDependency

datatype dto_proto_type_kind = DtoProtoEnum | DtoProtoMessage
datatype dto_rpc_cardinality = DtoBidirectionalStreaming | DtoClientStreaming | DtoServerStreaming | DtoUnary
datatype dto_graphql_operation_kind = DtoMutation | DtoQuery | DtoSubscription
datatype dto_graphql_type_kind = DtoEnum | DtoInput | DtoInterface | DtoObject | DtoScalar | DtoUnion

datatype dto_entity_metadata =
    DtoGraphqlOperation dto_graphql_operation_kind
  | DtoGraphqlType dto_graphql_type_kind
  | DtoProtoMethod dto_rpc_cardinality
  | DtoProtoType dto_proto_type_kind

record entity_ref =
  er_id :: string
  er_kind :: dto_entity_kind
  er_name :: string
  er_repository :: "string option"
  er_origin :: entity_origin
  er_test :: bool
  er_metadata :: "dto_entity_metadata option"

section \<open>Relations\<close>

datatype relation_kind =
    RkBindsContract | RkCalls | RkCallsGraphql | RkCallsRpc | RkConsumedBy | RkDefines | RkFieldOf
  | RkImplements | RkImplementedBy | RkImports | RkPublishes | RkRequires | RkRequestType | RkResolvedBy
  | RkSelects | RkResponseType | RkUses

fun relation_kind_rank :: "relation_kind \<Rightarrow> nat" where
  "relation_kind_rank RkBindsContract = 0"
| "relation_kind_rank RkCalls = 1"
| "relation_kind_rank RkCallsGraphql = 2"
| "relation_kind_rank RkCallsRpc = 3"
| "relation_kind_rank RkConsumedBy = 4"
| "relation_kind_rank RkDefines = 5"
| "relation_kind_rank RkFieldOf = 6"
| "relation_kind_rank RkImplements = 7"
| "relation_kind_rank RkImplementedBy = 8"
| "relation_kind_rank RkImports = 9"
| "relation_kind_rank RkPublishes = 10"
| "relation_kind_rank RkRequires = 11"
| "relation_kind_rank RkRequestType = 12"
| "relation_kind_rank RkResolvedBy = 13"
| "relation_kind_rank RkSelects = 14"
| "relation_kind_rank RkResponseType = 15"
| "relation_kind_rank RkUses = 16"

fun relation_kind_as_str :: "relation_kind \<Rightarrow> string" where
  "relation_kind_as_str RkBindsContract = ''binds_contract''"
| "relation_kind_as_str RkCalls = ''calls''"
| "relation_kind_as_str RkCallsGraphql = ''calls_graphql''"
| "relation_kind_as_str RkCallsRpc = ''calls_rpc''"
| "relation_kind_as_str RkConsumedBy = ''consumed_by''"
| "relation_kind_as_str RkDefines = ''defines''"
| "relation_kind_as_str RkFieldOf = ''field_of''"
| "relation_kind_as_str RkImplements = ''implements''"
| "relation_kind_as_str RkImplementedBy = ''implemented_by''"
| "relation_kind_as_str RkImports = ''imports''"
| "relation_kind_as_str RkPublishes = ''publishes''"
| "relation_kind_as_str RkRequires = ''requires''"
| "relation_kind_as_str RkRequestType = ''request_type''"
| "relation_kind_as_str RkResolvedBy = ''resolved_by''"
| "relation_kind_as_str RkSelects = ''selects''"
| "relation_kind_as_str RkResponseType = ''response_type''"
| "relation_kind_as_str RkUses = ''uses''"

definition relation_kind_try_from :: "string \<Rightarrow> string + relation_kind" where
  "relation_kind_try_from value =
     (if value = ''binds_contract'' then Inr RkBindsContract
      else if value = ''calls'' then Inr RkCalls
      else if value = ''calls_graphql'' then Inr RkCallsGraphql
      else if value = ''calls_rpc'' then Inr RkCallsRpc
      else if value = ''consumed_by'' then Inr RkConsumedBy
      else if value = ''defines'' then Inr RkDefines
      else if value = ''field_of'' then Inr RkFieldOf
      else if value = ''implements'' then Inr RkImplements
      else if value = ''implemented_by'' then Inr RkImplementedBy
      else if value = ''imports'' then Inr RkImports
      else if value = ''publishes'' then Inr RkPublishes
      else if value = ''requires'' then Inr RkRequires
      else if value = ''request_type'' then Inr RkRequestType
      else if value = ''resolved_by'' then Inr RkResolvedBy
      else if value = ''selects'' then Inr RkSelects
      else if value = ''response_type'' then Inr RkResponseType
      else if value = ''uses'' then Inr RkUses
      else Inl (''unsupported semantic relation: '' @ value))"

lemma relation_kind_rank_inj: "relation_kind_rank k = relation_kind_rank l \<Longrightarrow> k = l"
  by (cases k; cases l) simp_all

instantiation relation_kind :: linorder begin

definition less_eq_relation_kind :: "relation_kind \<Rightarrow> relation_kind \<Rightarrow> bool" where
  "less_eq_relation_kind k l = (relation_kind_rank k \<le> relation_kind_rank l)"

definition less_relation_kind :: "relation_kind \<Rightarrow> relation_kind \<Rightarrow> bool" where
  "less_relation_kind k l = (relation_kind_rank k < relation_kind_rank l)"

instance
  by (rule linorder.intro_of_class,
      rule linorder_by_key [OF less_eq_relation_kind_def less_relation_kind_def])
    (rule relation_kind_rank_inj)

end

section \<open>Evidence references\<close>

datatype evidence_kind =
  EvAst | EvCompiler | EvConfiguration | EvDescriptor | EvGenerated | EvInference | EvUnknown

fun evidence_kind_rank :: "evidence_kind \<Rightarrow> nat" where
  "evidence_kind_rank EvAst = 0"
| "evidence_kind_rank EvCompiler = 1"
| "evidence_kind_rank EvConfiguration = 2"
| "evidence_kind_rank EvDescriptor = 3"
| "evidence_kind_rank EvGenerated = 4"
| "evidence_kind_rank EvInference = 5"
| "evidence_kind_rank EvUnknown = 6"

lemma evidence_kind_rank_inj: "evidence_kind_rank k = evidence_kind_rank l \<Longrightarrow> k = l"
  by (cases k; cases l) simp_all

instantiation evidence_kind :: linorder begin

definition less_eq_evidence_kind :: "evidence_kind \<Rightarrow> evidence_kind \<Rightarrow> bool" where
  "less_eq_evidence_kind k l = (evidence_kind_rank k \<le> evidence_kind_rank l)"

definition less_evidence_kind :: "evidence_kind \<Rightarrow> evidence_kind \<Rightarrow> bool" where
  "less_evidence_kind k l = (evidence_kind_rank k < evidence_kind_rank l)"

instance
  by (rule linorder.intro_of_class,
      rule linorder_by_key [OF less_eq_evidence_kind_def less_evidence_kind_def])
    (rule evidence_kind_rank_inj)

end

text \<open>
  The derived order of evidence contexts: the variant first, then the fields of the variant in
  order. The key has one slot per field; a variant without that field has a fixed value there.
\<close>

fun condition_construct_rank :: "condition_construct \<Rightarrow> nat" where
  "condition_construct_rank If = 0"
| "condition_construct_rank Cond = 1"
| "condition_construct_rank Ternary = 2"
| "condition_construct_rank TemplateIf = 3"

fun condition_arm_rank :: "condition_arm_kind \<Rightarrow> nat" where
  "condition_arm_rank Then = 0"
| "condition_arm_rank ElseIf = 1"
| "condition_arm_rank Else = 2"
| "condition_arm_rank Clause = 3"
| "condition_arm_rank Consequence = 4"
| "condition_arm_rank Alternative = 5"

fun pattern_construct_rank :: "pattern_construct \<Rightarrow> nat" where
  "pattern_construct_rank Match = 0"
| "pattern_construct_rank Case = 1"
| "pattern_construct_rank SwitchStatement = 2"
| "pattern_construct_rank SwitchExpression = 3"

fun clause_role_rank :: "callable_clause_role \<Rightarrow> nat" where
  "clause_role_rank Declaration = 0"
| "clause_role_rank Enclosing = 1"
| "clause_role_rank SelectedTarget = 2"

lemma construct_ranks_inj:
  "condition_construct_rank c = condition_construct_rank c' \<Longrightarrow> c = c'"
  "condition_arm_rank a = condition_arm_rank a' \<Longrightarrow> a = a'"
  "pattern_construct_rank p = pattern_construct_rank p' \<Longrightarrow> p = p'"
  "clause_role_rank r = clause_role_rank r' \<Longrightarrow> r = r'"
  by ((cases c; cases c'; simp), (cases a; cases a'; simp), (cases p; cases p'; simp), (cases r; cases r'; simp))

fun evidence_context_key ::
    "evidence_context \<Rightarrow> nat \<times> nat \<times> nat \<times> source_excerpt option \<times> source_excerpt option
       \<times> source_excerpt option \<times> bool \<times> source_range" where
  "evidence_context_key (ConditionArm c arm condition arm_range) =
     (0, condition_construct_rank c, condition_arm_rank arm, condition, None, None, False, arm_range)"
| "evidence_context_key (PatternArm c selector pattern guard is_default arm_range) =
     (1, pattern_construct_rank c, 0, selector, pattern, guard, is_default, arm_range)"
| "evidence_context_key (CallableClause role signature guard definition_range) =
     (2, clause_role_rank role, 0, Some signature, guard, None, False, definition_range)"

lemma evidence_context_key_inj: "evidence_context_key c = evidence_context_key d \<Longrightarrow> c = d"
  by (cases c; cases d) (auto dest: construct_ranks_inj)

instantiation evidence_context :: linorder begin

definition less_eq_evidence_context :: "evidence_context \<Rightarrow> evidence_context \<Rightarrow> bool" where
  "less_eq_evidence_context c d = (evidence_context_key c \<le> evidence_context_key d)"

definition less_evidence_context :: "evidence_context \<Rightarrow> evidence_context \<Rightarrow> bool" where
  "less_evidence_context c d = (evidence_context_key c < evidence_context_key d)"

instance
  by (rule linorder.intro_of_class,
      rule linorder_by_key [OF less_eq_evidence_context_def less_evidence_context_def])
    (rule evidence_context_key_inj)

end

record evidence_ref =
  ev_source_kind :: evidence_kind
  ev_repository :: "string option"
  ev_path :: "string option"
  ev_line :: "u32 option"
  ev_range :: "source_range option"
  ev_detail :: "string option"
  ev_contexts :: "evidence_context list"

instantiation evidence_ref_ext :: (linorder) linorder begin

definition less_eq_evidence_ref_ext :: "'a evidence_ref_scheme \<Rightarrow> 'a evidence_ref_scheme \<Rightarrow> bool" where
  "less_eq_evidence_ref_ext d e =
     ((ev_source_kind d, ev_repository d, ev_path d, ev_line d, ev_range d, ev_detail d, ev_contexts d, evidence_ref.more d)
      \<le> (ev_source_kind e, ev_repository e, ev_path e, ev_line e, ev_range e, ev_detail e, ev_contexts e, evidence_ref.more e))"

definition less_evidence_ref_ext :: "'a evidence_ref_scheme \<Rightarrow> 'a evidence_ref_scheme \<Rightarrow> bool" where
  "less_evidence_ref_ext d e =
     ((ev_source_kind d, ev_repository d, ev_path d, ev_line d, ev_range d, ev_detail d, ev_contexts d, evidence_ref.more d)
      < (ev_source_kind e, ev_repository e, ev_path e, ev_line e, ev_range e, ev_detail e, ev_contexts e, evidence_ref.more e))"

instance
  by (rule linorder.intro_of_class,
      rule linorder_by_key [OF less_eq_evidence_ref_ext_def less_evidence_ref_ext_def]) auto

end

record semantic_edge =
  se_id :: string
  se_from :: string
  se_to :: string
  se_kind :: relation_kind
  se_confidence :: f32
  se_evidence :: "evidence_ref list"

section \<open>Queries and results\<close>

record topology_result =
  top_schema :: string
  top_metadata :: query_metadata
  top_nodes :: "entity_ref list"
  top_edges :: "semantic_edge list"

record semantic_path =
  pth_nodes :: "string list"
  pth_edges :: "string list"

record entity_query =
  eq_entity :: string

record entity_search_query =
  esq_query :: string
  esq_limit :: u32

record entity_search_result =
  esr_schema :: string
  esr_metadata :: query_metadata
  esr_query :: entity_search_query
  esr_matches :: "entity_ref list"

record path_query =
  pq_from :: string
  pq_to :: string

record context_result =
  cr_schema :: string
  cr_metadata :: query_metadata
  cr_query :: entity_query
  cr_root :: entity_ref
  cr_nodes :: "entity_ref list"
  cr_edges :: "semantic_edge list"

record dependency_ref =
  dr_entity :: string
  dr_hops :: u32

record dependencies_result =
  ds_schema :: string
  ds_metadata :: query_metadata
  ds_query :: entity_query
  ds_traversal :: traversal_metadata
  ds_root :: entity_ref
  ds_dependencies :: "dependency_ref list"
  ds_nodes :: "entity_ref list"
  ds_edges :: "semantic_edge list"

record impact_ref =
  ir_entity :: string
  ir_hops :: u32

record impact_result =
  im_schema :: string
  im_metadata :: query_metadata
  im_query :: entity_query
  im_traversal :: traversal_metadata
  im_root :: entity_ref
  im_affected :: "impact_ref list"
  im_nodes :: "entity_ref list"
  im_edges :: "semantic_edge list"

record trace_result =
  tr_schema :: string
  tr_metadata :: query_metadata
  tr_query :: path_query
  tr_traversal :: traversal_metadata
  tr_nodes :: "entity_ref list"
  tr_edges :: "semantic_edge list"
  tr_paths :: "semantic_path list"

record why_result =
  wh_schema :: string
  wh_metadata :: query_metadata
  wh_query :: path_query
  wh_traversal :: traversal_metadata
  wh_nodes :: "entity_ref list"
  wh_edges :: "semantic_edge list"
  wh_paths :: "semantic_path list"

definition why_from_trace :: "trace_result \<Rightarrow> why_result" where
  "why_from_trace value =
     \<lparr>wh_schema = WHY_SCHEMA_V2, wh_metadata = tr_metadata value, wh_query = tr_query value,
      wh_traversal = tr_traversal value, wh_nodes = tr_nodes value, wh_edges = tr_edges value,
      wh_paths = tr_paths value\<rparr>"

record 'a revisioned =
  rv_result :: 'a
  rv_analysis_revision :: u64
  rv_analysis :: analysis_metadata

section \<open>Bounded traversal\<close>

datatype graph_direction = Dependencies | Dependents

record traverse_graph_query =
  tq_start :: string
  tq_direction :: graph_direction
  tq_destination :: "string option"
  tq_target_repositories :: "string list"
  tq_max_hops :: u32
  tq_max_paths :: u32

definition traverse_normalize :: "traverse_graph_query \<Rightarrow> traverse_graph_query" where
  "traverse_normalize q = q\<lparr>tq_target_repositories := sort_dedup (tq_target_repositories q)\<rparr>"

definition traverse_validate :: "traverse_graph_query \<Rightarrow> string + unit" where
  "traverse_validate q =
     (if blank (tq_start q) \<or> (case tq_destination q of None \<Rightarrow> False | Some d \<Rightarrow> blank d)
      then Inl ''start and destination must be non-empty canonical entity IDs''
      else if tq_destination q \<noteq> None \<and> tq_target_repositories q \<noteq> []
      then Inl ''destination and target_repositories are mutually exclusive''
      else if list_ex blank (tq_target_repositories q)
      then Inl ''target repository identities must be non-empty''
      else if tq_max_hops q > MAX_TRAVERSAL_HOPS
      then Inl ''max_hops must be between 0 and 32''
      else if tq_max_paths q = 0 \<or> tq_max_paths q > MAX_PATHS
      then Inl ''max_paths must be between 1 and 200''
      else Inr ())"

datatype path_termination = Destination | RepositoryBoundary | Leaf | Cycle | MaxHops

datatype truncation_reason = TrMaxHops | TrMaxPaths | TrAcquisitionLimit | TrWorkLimit

fun truncation_reason_rank :: "truncation_reason \<Rightarrow> nat" where
  "truncation_reason_rank TrMaxHops = 0"
| "truncation_reason_rank TrMaxPaths = 1"
| "truncation_reason_rank TrAcquisitionLimit = 2"
| "truncation_reason_rank TrWorkLimit = 3"

lemma truncation_reason_rank_inj: "truncation_reason_rank r = truncation_reason_rank s \<Longrightarrow> r = s"
  by (cases r; cases s) simp_all

instantiation truncation_reason :: linorder begin

definition less_eq_truncation_reason :: "truncation_reason \<Rightarrow> truncation_reason \<Rightarrow> bool" where
  "less_eq_truncation_reason r s = (truncation_reason_rank r \<le> truncation_reason_rank s)"

definition less_truncation_reason :: "truncation_reason \<Rightarrow> truncation_reason \<Rightarrow> bool" where
  "less_truncation_reason r s = (truncation_reason_rank r < truncation_reason_rank s)"

instance
  by (rule linorder.intro_of_class,
      rule linorder_by_key [OF less_eq_truncation_reason_def less_truncation_reason_def])
    (rule truncation_reason_rank_inj)

end

record traversal_path =
  tp_nodes :: "string list"
  tp_edges :: "string list"
  tp_termination :: path_termination

record graph_traversal_metadata =
  gm_max_hops :: u32
  gm_max_paths :: u32
  gm_max_rows :: u32
  gm_max_steps :: u32
  gm_acquisition_timeout_ms :: u32
  gm_truncated :: bool
  gm_truncation_reasons :: "truncation_reason list"

record traverse_graph_result =
  tg_schema :: string
  tg_metadata :: query_metadata
  tg_query :: traverse_graph_query
  tg_nodes :: "entity_ref list"
  tg_edges :: "semantic_edge list"
  tg_paths :: "traversal_path list"
  tg_traversal :: graph_traversal_metadata

section \<open>Lemmas\<close>

lemma relation_kind_try_from_as_str [simp]: "relation_kind_try_from (relation_kind_as_str k) = Inr k"
  by (cases k) (simp_all add: relation_kind_try_from_def)

lemma relation_kind_try_from_sound: "relation_kind_try_from s = Inr k \<Longrightarrow> s = relation_kind_as_str k"
  by (simp add: relation_kind_try_from_def split: if_split_asm)

lemma relation_kind_as_str_inj: "relation_kind_as_str k = relation_kind_as_str l \<longleftrightarrow> k = l"
  by (metis relation_kind_try_from_as_str sum.inject(2))

lemma relation_kind_try_from_error:
  "relation_kind_try_from s = Inl m \<Longrightarrow> m = ''unsupported semantic relation: '' @ s"
  by (simp add: relation_kind_try_from_def split: if_split_asm)

text \<open>Every relation of the domain is the relation kind of the same name.\<close>

definition relation_kind_of :: "semantic_relation \<Rightarrow> relation_kind" where
  "relation_kind_of r = projr (relation_kind_try_from (semantic_relation_as_str r))"

lemma relation_kind_try_from_domain:
  "relation_kind_try_from (semantic_relation_as_str r) = Inr (relation_kind_of r)"
proof (cases r)
  case (Structural s)
  then show ?thesis by (cases s) (simp_all add: relation_kind_of_def relation_kind_try_from_def)
next
  case (Dependency d)
  then show ?thesis by (cases d) (simp_all add: relation_kind_of_def relation_kind_try_from_def)
qed

lemma relation_kind_of_surj: "\<exists>r. semantic_relation_as_str r = relation_kind_as_str k"
proof (cases k)
  case RkDefines
  then show ?thesis by (intro exI [where x = "Structural Defines"]) simp
next
  case RkFieldOf
  then show ?thesis by (intro exI [where x = "Structural FieldOf"]) simp
next
  case RkRequestType
  then show ?thesis by (intro exI [where x = "Structural RequestType"]) simp
next
  case RkResponseType
  then show ?thesis by (intro exI [where x = "Structural ResponseType"]) simp
qed (metis relation_kind_as_str.simps semantic_relation_as_str.simps(5) dependency_relation_as_str.simps)+

lemma traverse_normalize_idem: "traverse_normalize (traverse_normalize q) = traverse_normalize q"
  by (simp add: traverse_normalize_def)

lemma traverse_validate_normalize: "traverse_validate (traverse_normalize q) = traverse_validate q"
proof -
  have "sort_dedup xs = [] \<longleftrightarrow> xs = []" for xs :: "string list"
    by (metis set_empty set_sort_dedup)
  then show ?thesis by (simp add: traverse_validate_def traverse_normalize_def list_ex_iff)
qed

lemma traverse_validate_Inr_iff:
  "traverse_validate q = Inr () \<longleftrightarrow>
     \<not> blank (tq_start q) \<and> (\<forall>d \<in> set_option (tq_destination q). \<not> blank d)
     \<and> (tq_destination q = None \<or> tq_target_repositories q = [])
     \<and> list_all (\<lambda>r. \<not> blank r) (tq_target_repositories q)
     \<and> tq_max_hops q \<le> 32 \<and> 1 \<le> tq_max_paths q \<and> tq_max_paths q \<le> 200"
  by (cases "tq_destination q")
    (auto simp: traverse_validate_def MAX_TRAVERSAL_HOPS_def MAX_PATHS_def list_ex_iff list_all_iff)

section \<open>Properties\<close>

text \<open>
  The names of the relation kinds of the wire and of the semantic relations of the domain are
  the same seventeen names: each domain relation parses to exactly one kind, each kind is the name
  of exactly one domain relation, and every other text is rejected with a message naming it.
\<close>

theorem relation_names_correspond:
  "(\<forall>r. relation_kind_as_str (relation_kind_of r) = semantic_relation_as_str r)
   \<and> (\<forall>k. \<exists>!r. semantic_relation_as_str r = relation_kind_as_str k)
   \<and> (\<forall>s. relation_kind_try_from s =
        (if s \<in> range semantic_relation_as_str then Inr (inv relation_kind_as_str s)
         else Inl (''unsupported semantic relation: '' @ s)))"
proof (intro conjI allI)
  fix r show "relation_kind_as_str (relation_kind_of r) = semantic_relation_as_str r"
    using relation_kind_try_from_domain relation_kind_try_from_sound by metis
next
  fix k show "\<exists>!r. semantic_relation_as_str r = relation_kind_as_str k"
    using relation_kind_of_surj [of k] by (metis semantic_relation_as_str_inj)
next
  fix s
  show "relation_kind_try_from s =
        (if s \<in> range semantic_relation_as_str then Inr (inv relation_kind_as_str s)
         else Inl (''unsupported semantic relation: '' @ s))"
  proof (cases "relation_kind_try_from s")
    case (Inl m)
    then have "s \<notin> range semantic_relation_as_str" using relation_kind_try_from_domain by fastforce
    with Inl relation_kind_try_from_error show ?thesis by simp
  next
    case (Inr k)
    then have s: "s = relation_kind_as_str k" by (rule relation_kind_try_from_sound)
    then have "s \<in> range semantic_relation_as_str" using relation_kind_of_surj by (metis rangeI)
    moreover have "inv relation_kind_as_str s = k"
      unfolding s by (rule inv_f_f) (simp add: inj_def relation_kind_as_str_inj)
    ultimately show ?thesis using Inr by simp
  qed
qed

text \<open>
  A traversal query is accepted exactly within its bounds (0 to 32 hops, 1 to 200 paths, a
  destination or target repositories but not both, no blank identity), and normalising it, which
  sorts and deduplicates the targets and is idempotent, never changes the verdict.
\<close>

theorem traverse_query_accepted_iff:
  "(traverse_validate q = Inr () \<longleftrightarrow>
     \<not> blank (tq_start q) \<and> tq_destination q \<notin> Some ` {d. blank d}
     \<and> (tq_destination q = None \<or> tq_target_repositories q = [])
     \<and> set (tq_target_repositories q) \<inter> {r. blank r} = {}
     \<and> tq_max_hops q \<le> 32 \<and> 1 \<le> tq_max_paths q \<and> tq_max_paths q \<le> 200)
   \<and> traverse_validate (traverse_normalize q) = traverse_validate q
   \<and> ascending (tq_target_repositories (traverse_normalize q))
   \<and> set (tq_target_repositories (traverse_normalize q)) = set (tq_target_repositories q)"
  unfolding traverse_validate_normalize traverse_validate_Inr_iff
  by (cases "tq_destination q") (auto simp: list_all_iff traverse_normalize_def)

end
