(* ===== verification/Graph_Builder.thy ===== *)
theory Graph_Builder imports Dto "HOL-Library.Log_Nat" begin

text \<open>
  \<open>crates/adapters-mnestic/src/semantic.rs\<close>, first part: rows of the store decoded into entity
  facts and edges, the builder that merges them into one graph, the names, kinds, repositories and
  origins read off an entity id, entity search, the context of an entity and the topology of a
  workspace. Store values are those of \<open>inspection.rs\<close>. \<open>from_json\<close> is the JSON parser of
  structured evidence.
\<close>

section \<open>Values of the store\<close>

datatype inspection_value =
    IvNull | IvBoolean bool | IvInteger int | IvFloat f64 | IvString string | IvBytes "nat list"
  | IvList "inspection_value list" | IvOther string

datatype inspection_result =
  InspectionResult (iq_headers: "string list") (iq_rows: "inspection_value list list")
    (iq_next: "inspection_result option")

fun iv_as_str :: "inspection_value \<Rightarrow> string option" where
  "iv_as_str (IvString value) = Some value"
| "iv_as_str _ = None"

fun iv_as_i64 :: "inspection_value \<Rightarrow> int option" where
  "iv_as_i64 (IvInteger value) = Some value"
| "iv_as_i64 _ = None"

definition row_get :: "'a list \<Rightarrow> nat \<Rightarrow> 'a option" where
  "row_get row index = (if index < length row then Some (row ! index) else None)"

text \<open>
  Rounding to a binary format of precision \<open>p\<close> whose least positive value is \<open>2 ^ least\<close>, to nearest with
  ties to even: \<open>as f32\<close> and \<open>i64 as f64\<close>, for values within the range of the format.
\<close>

definition binary_exponent :: "rat \<Rightarrow> int" where
  "binary_exponent x =
     (let (a, b) = quotient_of x; k = int (floorlog 2 (nat a)) - int (floorlog 2 (nat b))
      in if 2 powi k \<le> x then k else k - 1)"

definition round_half_even :: "rat \<Rightarrow> int" where
  "round_half_even q =
     (let f = \<lfloor>q\<rfloor>; d = q - rat_of_int f
      in if d < 1 / 2 then f else if d > 1 / 2 then f + 1 else if even f then f else f + 1)"

definition round_float :: "int \<Rightarrow> int \<Rightarrow> rat \<Rightarrow> rat" where
  "round_float p least x =
     (if x = 0 then 0
      else let u = 2 powi max (binary_exponent \<bar>x\<bar> - (p - 1)) least
           in rat_of_int (round_half_even (x / u)) * u)"

definition as_f32 :: "f64 \<Rightarrow> f32" where
  "as_f32 x = round_float 24 (- 149) x"

definition f64_of_i64 :: "int \<Rightarrow> f64" where
  "f64_of_i64 i = round_float 53 (- 1074) (rat_of_int i)"

definition text_at :: "inspection_value list \<Rightarrow> nat \<Rightarrow> string \<Rightarrow> string + string" where
  "text_at row index name = ok_or (Option.bind (row_get row index) iv_as_str) (name @ '' must be text'')"

definition float_at :: "inspection_value list \<Rightarrow> nat \<Rightarrow> string \<Rightarrow> string + f64" where
  "float_at row index name =
     (case row_get row index of
        Some (IvFloat value) \<Rightarrow> Inr value
      | Some (IvInteger value) \<Rightarrow> Inr (f64_of_i64 value)
      | _ \<Rightarrow> Inl (name @ '' must be numeric''))"

section \<open>Persisted entity facts\<close>

type_synonym entity_fact_map = "(string, dto_entity_kind \<times> dto_entity_metadata option) bmap"

definition persisted_kind :: "string \<Rightarrow> string \<Rightarrow> string + dto_entity_kind \<times> dto_entity_metadata option" where
  "persisted_kind kind metadata =
     (let p = (kind, metadata) in
      if p = (''callable'', '''') then Inr (EkCallable, None)
      else if p = (''graphql_argument'', '''') then Inr (EkGraphqlArgument, None)
      else if p = (''graphql_enum_value'', '''') then Inr (EkGraphqlEnumValue, None)
      else if p = (''graphql_field'', '''') then Inr (EkGraphqlField, None)
      else if p = (''graphql_operation'', '''') then Inr (EkGraphqlOperation, None)
      else if p = (''graphql_operation'', ''graphql_operation:mutation'')
        then Inr (EkGraphqlOperation, Some (DtoGraphqlOperation DtoMutation))
      else if p = (''graphql_operation'', ''graphql_operation:query'')
        then Inr (EkGraphqlOperation, Some (DtoGraphqlOperation DtoQuery))
      else if p = (''graphql_operation'', ''graphql_operation:subscription'')
        then Inr (EkGraphqlOperation, Some (DtoGraphqlOperation DtoSubscription))
      else if p = (''graphql_type'', ''graphql_type:enum'') then Inr (EkGraphqlType, Some (DtoGraphqlType DtoEnum))
      else if p = (''graphql_type'', ''graphql_type:input'') then Inr (EkGraphqlType, Some (DtoGraphqlType DtoInput))
      else if p = (''graphql_type'', ''graphql_type:interface'') then Inr (EkGraphqlType, Some (DtoGraphqlType DtoInterface))
      else if p = (''graphql_type'', ''graphql_type:object'') then Inr (EkGraphqlType, Some (DtoGraphqlType DtoObject))
      else if p = (''graphql_type'', ''graphql_type:scalar'') then Inr (EkGraphqlType, Some (DtoGraphqlType DtoScalar))
      else if p = (''graphql_type'', ''graphql_type:union'') then Inr (EkGraphqlType, Some (DtoGraphqlType DtoUnion))
      else if p = (''grpc_operation'', '''') then Inr (EkRpc, None)
      else if p = (''kafka_topic'', '''') then Inr (EkKafkaTopic, None)
      else if p = (''namespace'', '''') then Inr (EkNamespace, None)
      else if p = (''proto_field'', '''') then Inr (EkProtoField, None)
      else if p = (''proto_method'', ''rpc_cardinality:bidirectional_streaming'')
        then Inr (EkRpc, Some (DtoProtoMethod DtoBidirectionalStreaming))
      else if p = (''proto_method'', ''rpc_cardinality:client_streaming'')
        then Inr (EkRpc, Some (DtoProtoMethod DtoClientStreaming))
      else if p = (''proto_method'', ''rpc_cardinality:server_streaming'')
        then Inr (EkRpc, Some (DtoProtoMethod DtoServerStreaming))
      else if p = (''proto_method'', ''rpc_cardinality:unary'') then Inr (EkRpc, Some (DtoProtoMethod DtoUnary))
      else if p = (''proto_service'', '''') then Inr (EkProtoService, None)
      else if p = (''proto_type'', ''proto_type:enum'') then Inr (EkProtoEnum, Some (DtoProtoType DtoProtoEnum))
      else if p = (''proto_type'', ''proto_type:message'') then Inr (EkProtoMessage, Some (DtoProtoType DtoProtoMessage))
      else if p = (''service'', '''') then Inr (EkService, None)
      else if p = (''unity_prefab'', '''') then Inr (EkUnityPrefab, None)
      else Inl (''invalid persisted entity fact '' @ kind @ '' with '' @ metadata))"

definition entity_kind_row ::
    "inspection_value list \<Rightarrow> string + string \<times> dto_entity_kind \<times> dto_entity_metadata option" where
  "entity_kind_row row =
     rbind (text_at row 0 ''entity id'') (\<lambda>i.
       rbind (text_at row 1 ''entity kind'') (\<lambda>kind.
         rbind (text_at row 2 ''entity metadata'') (\<lambda>metadata.
           rbind (persisted_kind kind metadata) (\<lambda>entity. Inr (i, entity)))))"

definition entity_kinds :: "inspection_result \<Rightarrow> string + entity_fact_map" where
  "entity_kinds result = rbind (try_map entity_kind_row (iq_rows result)) (\<lambda>facts. Inr (bm_of_list facts))"

section \<open>What an id says about its entity\<close>

definition is_usize :: "string \<Rightarrow> bool" where
  "is_usize s = (parse_nat usize_max s \<noteq> None)"

definition infer_kind :: "string \<Rightarrow> dto_entity_kind" where
  "infer_kind i =
     (if starts_with i ''grpc://'' \<or> starts_with i ''proto-method://'' \<or> starts_with i ''rpc/'' \<or> starts_with i ''rpc://''
      then EkRpc
      else if starts_with i ''graphql-field://'' then EkGraphqlField
      else if starts_with i ''graphql-argument://'' then EkGraphqlArgument
      else if starts_with i ''graphql-enum-value://'' then EkGraphqlEnumValue
      else if starts_with i ''graphql-operation://'' then EkGraphqlOperation
      else if starts_with i ''graphql-type://'' then EkGraphqlType
      else if starts_with i ''kafka-topic://'' then EkKafkaTopic
      else if contains i ''/unity-prefab/'' then EkUnityPrefab
      else if starts_with i ''rust-call://'' \<or> starts_with i ''rust-method://'' \<or> starts_with i ''elixir-call://''
      then EkCallable
      else if starts_with i ''elixir-module://'' \<or> starts_with i ''erlang-module://'' then EkNamespace
      else if starts_with i ''proto-field://'' then EkProtoField
      else if starts_with i ''proto-service://'' then EkProtoService
      else if contains i ''/elixir-source/'' then EkNamespace
      else case rsplit_once ''/elixir/'' i of
             Some (_, symbol) \<Rightarrow>
               (case rsplit_once ''/'' symbol of
                  Some (_, arity) \<Rightarrow> if is_usize arity then EkCallable else EkNamespace
                | None \<Rightarrow> EkNamespace)
           | None \<Rightarrow> EkUnknown)"

definition relation_kind_hint :: "string \<Rightarrow> bool \<Rightarrow> string \<Rightarrow> dto_entity_kind" where
  "relation_kind_hint relation source i =
     (let inferred = infer_kind i in
      if inferred \<noteq> EkUnknown then inferred
      else if relation = ''defines'' \<and> source then EkNamespace
      else if relation = ''defines'' \<and> \<not> source \<or> relation = ''calls'' \<or> relation = ''implemented_by'' \<and> \<not> source
      then EkCallable
      else if relation = ''calls_graphql'' \<and> source then EkCallable
      else if relation = ''calls_graphql'' \<and> \<not> source then EkGraphqlOperation
      else if relation = ''calls_rpc'' \<and> \<not> source \<or> relation = ''implemented_by'' \<and> source then EkRpc
      else if relation = ''selects'' \<and> \<not> source \<or> relation = ''resolved_by'' \<and> source then EkGraphqlField
      else EkUnknown)"

text \<open>\<open>entity_name\<close>: each attempt gives the name or falls through to the next.\<close>

definition elixir_call_name :: "string \<Rightarrow> string option" where
  "elixir_call_name i =
     Option.bind (strip_prefix ''elixir-call://'' i) (\<lambda>symbol.
       Option.bind (rsplit_once ''/'' symbol) (\<lambda>(fname, arity).
         if is_usize arity
         then Some (case rsplit_once ''/'' fname of
                      Some (modname, fname) \<Rightarrow> modname @ ''.'' @ fname @ ''/'' @ arity
                    | None \<Rightarrow> fname @ ''/'' @ arity)
         else None))"

definition rpc_name :: "string \<Rightarrow> string option" where
  "rpc_name i =
     Option.bind (case strip_prefix ''proto-method://'' i of None \<Rightarrow> strip_prefix ''grpc://'' i | Some rest \<Rightarrow> Some rest)
       (\<lambda>rest. map_option (\<lambda>(service, method). last (split_on CHR ''.'' service) @ ''.'' @ method) (split_once ''/'' rest))"

definition elixir_symbol_name :: "string \<Rightarrow> string option" where
  "elixir_symbol_name i =
     Option.bind (rsplit_once ''/elixir/'' i) (\<lambda>(_, symbol).
       Option.bind (rsplit_once ''/'' symbol) (\<lambda>(fname, arity).
         if is_usize arity then Some (last (split_on CHR ''/'' fname) @ ''/'' @ arity) else None))"

definition last_segment_name :: "string \<Rightarrow> string" where
  "last_segment_name i =
     (case List.find (\<lambda>part. part \<noteq> []) (rev (concat (map (split_on CHR '':'') (split_on CHR ''/'' i)))) of
        Some part \<Rightarrow> part
      | None \<Rightarrow> i)"

definition entity_name :: "string \<Rightarrow> string" where
  "entity_name i =
     (case strip_prefix ''elixir-module://'' i of
        Some modname \<Rightarrow> modname
      | None \<Rightarrow>
          (case elixir_call_name i of
             Some name \<Rightarrow> name
           | None \<Rightarrow>
               (case rpc_name i of
                  Some name \<Rightarrow> name
                | None \<Rightarrow> (case elixir_symbol_name i of Some name \<Rightarrow> name | None \<Rightarrow> last_segment_name i))))"

definition repository_separators :: "string list" where
  "repository_separators =
     [''/elixir-source/'', ''/typescript-source/'', ''/javascript-source/'', ''/csharp-source/'',
      ''/unity-prefab/'', ''/rust/'', ''/elixir/'', ''/typescript/'', ''/javascript/'', ''/csharp/'']"

definition id_repository :: "string \<Rightarrow> string option" where
  "id_repository i =
     Option.bind (strip_prefix ''repo://'' i) (\<lambda>rest.
       map_option fst (fold (\<lambda>sep found. case found of Some f \<Rightarrow> Some f | None \<Rightarrow> rsplit_once sep rest)
         repository_separators None))"

definition target_repository :: "string \<Rightarrow> string bset \<Rightarrow> string option" where
  "target_repository i targets =
     Option.bind (strip_prefix ''repo://'' i) (\<lambda>rest.
       List.find (\<lambda>target. case strip_prefix target rest of None \<Rightarrow> False | Some rest' \<Rightarrow> starts_with rest' ''/'') targets)"

definition is_test_segment :: "string \<Rightarrow> bool" where
  "is_test_segment part =
     (let lower = to_ascii_lowercase part
      in lower \<in> {''test'', ''tests'', ''spec'', ''specs'', ''bench'', ''benches''}
         \<or> list_ex (ends_with lower) [''.test'', ''.spec'', ''_test'', ''_spec'']
         \<or> list_ex (contains lower) [''.test.'', ''.spec.'', ''_test.'', ''_spec.'']
         \<or> ends_with part ''Test'')"

definition is_test_entity :: "string \<Rightarrow> bool" where
  "is_test_entity i =
     (let name = last (split_on CHR ''/'' i)
      in list_ex is_test_segment (split_on CHR ''/'' i)
         \<or> list_ex (starts_with name) [''test_'', ''spec_'', ''bench_'']
         \<or> list_ex (ends_with name) [''_test'', ''_spec''])"

definition entity_ref_with_origin ::
    "string \<Rightarrow> dto_entity_kind \<Rightarrow> entity_origin option \<Rightarrow> dto_entity_metadata option \<Rightarrow> entity_ref" where
  "entity_ref_with_origin i kind origin metadata =
     \<lparr>er_id = i, er_kind = kind, er_name = entity_name i, er_repository = id_repository i,
      er_origin =
        (case origin of
           Some origin \<Rightarrow> origin
         | None \<Rightarrow>
             if list_ex (starts_with i) [''rust-call://'', ''rust-method://'', ''elixir-call://'',
                  ''elixir-module://'', ''erlang-module://'', ''unity://'']
             then ExternalDependency else Source),
      er_test = is_test_entity i, er_metadata = metadata\<rparr>"

definition entity_ref_of :: "string \<Rightarrow> dto_entity_kind \<Rightarrow> entity_ref" where
  "entity_ref_of i kind = entity_ref_with_origin i kind None None"

fun kind_priority :: "dto_entity_kind \<Rightarrow> nat" where
  "kind_priority EkUnknown = 0"
| "kind_priority EkNamespace = 1"
| "kind_priority EkCallable = 2"
| "kind_priority _ = 3"

definition evidence_ref_of ::
    "(string \<Rightarrow> evidence_payload option) \<Rightarrow> string \<Rightarrow> string \<Rightarrow> string \<Rightarrow> string \<Rightarrow> evidence_ref" where
  "evidence_ref_of from_json source target evidence provenance =
     (let decoded = evidence_decode from_json evidence;
          descriptor_path = (provenance = ''descriptor'' \<and> ep_path decoded = None);
          path = (case ep_path decoded of Some p \<Rightarrow> Some p | None \<Rightarrow> if descriptor_path then Some evidence else None)
      in \<lparr>ev_source_kind =
            (if provenance = ''ast'' then EvAst
             else if provenance = ''compiler'' then EvCompiler
             else if provenance = ''unique_name_heuristic'' then EvInference
             else if provenance = ''descriptor'' then EvDescriptor
             else if provenance = ''generated'' then EvGenerated
             else EvUnknown),
          ev_repository = (case id_repository source of Some r \<Rightarrow> Some r | None \<Rightarrow> id_repository target),
          ev_path = path,
          ev_line = ep_line decoded,
          ev_range = ep_range decoded,
          ev_detail =
            (if provenance = ''unique_name_heuristic'' then Some provenance
             else if descriptor_path then None
             else case ep_detail decoded of
                    Some d \<Rightarrow> Some d
                  | None \<Rightarrow> if path = None then Some evidence else None),
          ev_contexts = ep_contexts decoded\<rparr>)"

section \<open>The builder\<close>

type_synonym edge_key = "string \<times> string \<times> relation_kind"

record edge_data =
  ed_confidence :: f32
  ed_evidence :: "evidence_ref bset"

record graph_builder =
  gr_edges :: "(edge_key, edge_data) bmap"
  gr_facts :: entity_fact_map
  gr_kinds :: "(string, dto_entity_kind) bmap"
  gr_metadata :: "(string, dto_entity_metadata) bmap"
  gr_origins :: "(string, entity_origin) bmap"

record graph_output =
  go_nodes :: "entity_ref list"
  go_edges :: "semantic_edge list"

definition graph_builder_default :: graph_builder where
  "graph_builder_default = \<lparr>gr_edges = [], gr_facts = [], gr_kinds = [], gr_metadata = [], gr_origins = []\<rparr>"

definition hint_facts :: "entity_fact_map \<Rightarrow> graph_builder \<Rightarrow> graph_builder" where
  "hint_facts facts g = g\<lparr>gr_facts := facts\<rparr>"

definition hint :: "string \<Rightarrow> dto_entity_kind \<Rightarrow> graph_builder \<Rightarrow> graph_builder" where
  "hint i kind g =
     (case map_of (gr_facts g) i of
        Some (kind, metadata) \<Rightarrow>
          g\<lparr>gr_kinds := bm_put i kind (gr_kinds g),
            gr_metadata := (case metadata of None \<Rightarrow> gr_metadata g | Some m \<Rightarrow> bm_put i m (gr_metadata g))\<rparr>
      | None \<Rightarrow>
          g\<lparr>gr_kinds :=
              bm_entry i (\<lambda>current.
                let current = (case current of None \<Rightarrow> EkUnknown | Some k \<Rightarrow> k)
                in if kind_priority kind > kind_priority current then kind else current) (gr_kinds g)\<rparr>)"

definition add_edge ::
    "(string \<Rightarrow> evidence_payload option) \<Rightarrow> string \<Rightarrow> string \<Rightarrow> string \<Rightarrow> string \<Rightarrow> f32 \<Rightarrow> string
     \<Rightarrow> graph_builder \<Rightarrow> string + edge_key \<times> graph_builder" where
  "add_edge from_json source target relation evidence confidence provenance g =
     rbind (relation_kind_try_from relation) (\<lambda>relation.
       let key = (source, target, relation);
           g = hint source (relation_kind_hint (relation_kind_as_str relation) True source) g;
           g = hint target (relation_kind_hint (relation_kind_as_str relation) False target) g;
           g = (if provenance = ''generated''
                then (case relation of
                        RkDefines \<Rightarrow> g\<lparr>gr_origins := bm_put target GeneratedOrigin (gr_origins g)\<rparr>
                      | RkFieldOf \<Rightarrow> g\<lparr>gr_origins := bm_put source GeneratedOrigin (gr_origins g)\<rparr>
                      | _ \<Rightarrow> g)
                else g);
           evidence = evidence_ref_of from_json source target evidence provenance
       in Inr (key, g\<lparr>gr_edges :=
            bm_entry key (\<lambda>edge.
              case edge of
                Some edge \<Rightarrow> edge\<lparr>ed_confidence := max (ed_confidence edge) confidence,
                                  ed_evidence := bs_insert evidence (ed_evidence edge)\<rparr>
              | None \<Rightarrow> \<lparr>ed_confidence = confidence, ed_evidence = [evidence]\<rparr>) (gr_edges g)\<rparr>))"

definition finish_ids :: "graph_builder \<Rightarrow> string bset" where
  "finish_ids g =
     fold (\<lambda>((source, target, _), _) ids. bs_insert target (bs_insert source ids)) (gr_edges g)
       (bs_of_list (map fst (gr_kinds g)))"

definition finish_node :: "graph_builder \<Rightarrow> string \<Rightarrow> entity_ref" where
  "finish_node g i =
     entity_ref_with_origin i (case map_of (gr_kinds g) i of Some k \<Rightarrow> k | None \<Rightarrow> infer_kind i)
       (map_of (gr_origins g) i) (map_of (gr_metadata g) i)"

definition finish_edge :: "nat \<times> edge_key \<times> edge_data \<Rightarrow> semantic_edge" where
  "finish_edge = (\<lambda>(index, (source, target, relation), edge).
     \<lparr>se_id = ''e'' @ nat_str (index + 1), se_from = source, se_to = target, se_kind = relation,
      se_confidence = ed_confidence edge, se_evidence = ed_evidence edge\<rparr>)"

definition finish :: "graph_builder \<Rightarrow> graph_output" where
  "finish g =
     \<lparr>go_nodes = map (finish_node g) (finish_ids g),
      go_edges = map finish_edge (enumerate 0 (gr_edges g))\<rparr>"

definition output_entity :: "graph_output \<Rightarrow> string \<Rightarrow> entity_ref" where
  "output_entity out i =
     (case List.find (\<lambda>e. er_id e = i) (go_nodes out) of
        Some e \<Rightarrow> e
      | None \<Rightarrow> entity_ref_of i (infer_kind i))"

section \<open>Rows to edges\<close>

text \<open>The arguments of one \<open>add_edge\<close>: source, target, relation, evidence, confidence, provenance.\<close>

type_synonym edge_request = "string \<times> string \<times> string \<times> string \<times> f32 \<times> string"

definition add_request ::
    "(string \<Rightarrow> evidence_payload option) \<Rightarrow> edge_request \<Rightarrow> graph_builder \<Rightarrow> string + graph_builder" where
  "add_request from_json = (\<lambda>(source, target, relation, evidence, confidence, provenance) g.
     rbind (add_edge from_json source target relation evidence confidence provenance g) (\<lambda>(_, g). Inr g))"

definition add_rows ::
    "(string \<Rightarrow> evidence_payload option) \<Rightarrow> ('r \<Rightarrow> string + edge_request) \<Rightarrow> 'r list \<Rightarrow> graph_builder
     \<Rightarrow> string + graph_builder" where
  "add_rows from_json request rows g =
     try_fold (\<lambda>row g. rbind (request row) (\<lambda>r. add_request from_json r g)) rows g"

definition topology_request :: "entity_fact_map \<Rightarrow> inspection_value list \<Rightarrow> string + edge_request" where
  "topology_request facts row =
     rbind (text_at row 0 ''topology source'') (\<lambda>source.
     rbind (text_at row 1 ''topology target'') (\<lambda>target.
       if map_of facts source = None then Inl (''missing entity fact for topology endpoint '' @ source)
       else if map_of facts target = None then Inl (''missing entity fact for topology endpoint '' @ target)
       else
         rbind (text_at row 2 ''topology relation'') (\<lambda>relation.
         rbind (text_at row 3 ''topology evidence'') (\<lambda>evidence.
         rbind (float_at row 4 ''topology confidence'') (\<lambda>confidence.
         rbind (text_at row 5 ''topology provenance'') (\<lambda>provenance.
           Inr (source, target, relation, evidence, as_f32 confidence, provenance)))))))"

definition closure_request :: "inspection_value list \<Rightarrow> string + edge_request" where
  "closure_request row =
     rbind (text_at row 0 ''closure row kind'') (\<lambda>kind.
       if kind = ''edge'' then
         rbind (text_at row 3 ''closure edge source'') (\<lambda>source.
         rbind (text_at row 4 ''closure edge target'') (\<lambda>target.
         rbind (text_at row 5 ''closure relation'') (\<lambda>relation.
         rbind (text_at row 6 ''closure evidence'') (\<lambda>evidence.
         rbind (float_at row 7 ''closure confidence'') (\<lambda>confidence.
         rbind (text_at row 8 ''closure provenance'') (\<lambda>provenance.
           Inr (source, target, relation, evidence, as_f32 confidence, provenance)))))))
       else Inl (''unknown closure row kind: '' @ kind))"

record context_row =
  cx_direction :: string
  cx_relation :: string
  cx_related :: string
  cx_evidence :: string
  cx_confidence :: f64
  cx_provenance :: string

definition context_request :: "string \<Rightarrow> context_row \<Rightarrow> string + edge_request" where
  "context_request entity row =
     (if cx_direction row = ''outgoing''
      then Inr (entity, cx_related row, cx_relation row, cx_evidence row, as_f32 (cx_confidence row), cx_provenance row)
      else if cx_direction row = ''incoming''
      then Inr (cx_related row, entity, cx_relation row, cx_evidence row, as_f32 (cx_confidence row), cx_provenance row)
      else Inl (''unknown context direction: '' @ cx_direction row))"

section \<open>Query results\<close>

definition workspace_topology ::
    "(string \<Rightarrow> evidence_payload option) \<Rightarrow> string \<Rightarrow> inspection_result \<Rightarrow> inspection_result
     \<Rightarrow> string + topology_result" where
  "workspace_topology from_json view result entities =
     rbind (entity_kinds entities) (\<lambda>facts.
     rbind (add_rows from_json (topology_request facts) (iq_rows result)
              (fold (\<lambda>(i, (kind, _)). hint i kind) facts (hint_facts facts graph_builder_default))) (\<lambda>g.
       let output = finish g
       in if list_ex (\<lambda>node. er_kind node = EkUnknown) (go_nodes output)
          then Inl ''workspace topology contains an Unknown entity''
          else Inr \<lparr>top_schema = WORKSPACE_TOPOLOGY_SCHEMA_V1, top_metadata = query_metadata_completed view 0,
                    top_nodes = go_nodes output, top_edges = go_edges output\<rparr>))"

definition search_rank :: "entity_ref \<Rightarrow> string \<Rightarrow> nat" where
  "search_rank entity query =
     (if er_id entity = query then 0
      else if er_name entity = query then 1
      else if starts_with (er_id entity) query \<or> starts_with (er_name entity) query then 2
      else 3)"

definition search_entities ::
    "string \<Rightarrow> string \<Rightarrow> u32 \<Rightarrow> inspection_result \<Rightarrow> string + entity_search_result" where
  "search_entities view query limit entities =
     rbind (entity_kinds entities) (\<lambda>facts.
       let found = filter (\<lambda>entity. starts_with (er_id entity) query \<or> starts_with (er_name entity) query)
             (map (\<lambda>(i, (kind, metadata)). entity_ref_with_origin i kind None metadata) facts)
       in Inr \<lparr>esr_schema = ENTITY_SEARCH_SCHEMA_V2, esr_metadata = query_metadata_completed view 0,
               esr_query = \<lparr>esq_query = query, esq_limit = limit\<rparr>,
               esr_matches = take limit (sort_key (\<lambda>entity. (search_rank entity query, er_id entity)) found)\<rparr>)"

definition context_query ::
    "(string \<Rightarrow> evidence_payload option) \<Rightarrow> string \<Rightarrow> string \<Rightarrow> context_row list \<Rightarrow> inspection_result
     \<Rightarrow> string + context_result" where
  "context_query from_json view entity result entities =
     rbind (entity_kinds entities) (\<lambda>facts.
     rbind (add_rows from_json (context_request entity) result
              (hint entity (infer_kind entity) (hint_facts facts graph_builder_default))) (\<lambda>g.
       let output = finish g
       in Inr \<lparr>cr_schema = CONTEXT_SCHEMA_V1, cr_metadata = query_metadata_completed view 0,
               cr_query = \<lparr>eq_entity = entity\<rparr>, cr_root = output_entity output entity,
               cr_nodes = go_nodes output, cr_edges = go_edges output\<rparr>))"

definition graph_of ::
    "(string \<Rightarrow> evidence_payload option) \<Rightarrow> inspection_result \<Rightarrow> inspection_result \<Rightarrow> string list
     \<Rightarrow> string + graph_output" where
  "graph_of from_json result entities roots =
     rbind (entity_kinds entities) (\<lambda>facts.
     rbind (add_rows from_json closure_request (iq_rows result)
              (fold (\<lambda>root. hint root (infer_kind root)) roots (hint_facts facts graph_builder_default))) (\<lambda>g.
       Inr (finish g)))"

lemma entity_kinds_wf: "entity_kinds result = Inr facts \<Longrightarrow> bm_wf facts"
  by (auto simp: entity_kinds_def rbind_Inr_iff)

section \<open>The builder invariant\<close>

text \<open>
  Every id with a kind has the kind of its fact, or the kind its id implies; metadata comes from
  facts only; edges are between ids with a kind and carry evidence.
\<close>

definition node_kind_ok :: "entity_fact_map \<Rightarrow> string \<Rightarrow> dto_entity_kind \<Rightarrow> bool" where
  "node_kind_ok facts i k =
     (case map_of facts i of Some (k', _) \<Rightarrow> k = k' | None \<Rightarrow> infer_kind i \<in> {EkUnknown, k})"

definition builder_wf :: "graph_builder \<Rightarrow> bool" where
  "builder_wf g \<longleftrightarrow>
     bm_wf (gr_edges g) \<and> bm_wf (gr_kinds g)
     \<and> (\<forall>i k. map_of (gr_kinds g) i = Some k \<longrightarrow> node_kind_ok (gr_facts g) i k)
     \<and> (\<forall>i. map_of (gr_metadata g) i =
          (if map_of (gr_kinds g) i = None then None else Option.bind (map_of (gr_facts g) i) snd))
     \<and> (\<forall>s t r d. map_of (gr_edges g) (s, t, r) = Some d \<longrightarrow>
          map_of (gr_kinds g) s \<noteq> None \<and> map_of (gr_kinds g) t \<noteq> None)"

lemma builder_wfD:
  assumes "builder_wf g"
  shows "bm_wf (gr_edges g)" "bm_wf (gr_kinds g)"
    and "\<And>i k. map_of (gr_kinds g) i = Some k \<Longrightarrow> node_kind_ok (gr_facts g) i k"
    and "\<And>i. map_of (gr_metadata g) i =
          (if map_of (gr_kinds g) i = None then None else Option.bind (map_of (gr_facts g) i) snd)"
    and "\<And>s t r d. map_of (gr_edges g) (s, t, r) = Some d \<Longrightarrow>
          map_of (gr_kinds g) s \<noteq> None \<and> map_of (gr_kinds g) t \<noteq> None"
  using assms unfolding builder_wf_def by blast+

lemma kind_priority_pos: "0 < kind_priority k \<longleftrightarrow> k \<noteq> EkUnknown"
  by (cases k) simp_all

lemma relation_kind_hint_infer: "infer_kind i \<noteq> EkUnknown \<Longrightarrow> relation_kind_hint r b i = infer_kind i"
  by (simp add: relation_kind_hint_def)

lemma hint_sel [simp]:
  "gr_edges (hint i k g) = gr_edges g" "gr_facts (hint i k g) = gr_facts g" "gr_origins (hint i k g) = gr_origins g"
  by (simp_all add: hint_def split: option.split prod.split)

lemma hint_dom: "map_of (gr_kinds (hint i k g)) j = None \<longleftrightarrow> j \<noteq> i \<and> map_of (gr_kinds g) j = None"
  by (auto simp: hint_def split: option.split prod.split)

lemma hint_keys: "fst ` set (gr_kinds (hint i k g)) = insert i (fst ` set (gr_kinds g))"
  using hint_dom [of i k g] by (auto simp: map_of_eq_None_iff)

lemma hint_kind:
  assumes "map_of (gr_kinds (hint i k g)) j = Some k'" "map_of (gr_facts g) i = None \<Longrightarrow> infer_kind i \<in> {EkUnknown, k}"
    and "\<And>k. map_of (gr_kinds g) j = Some k \<Longrightarrow> node_kind_ok (gr_facts g) j k"
  shows "node_kind_ok (gr_facts g) j k'"
proof (cases "map_of (gr_facts g) i")
  case (Some f)
  then show ?thesis using assms(1,3)
    by (cases f) (auto simp: hint_def node_kind_ok_def split: if_splits)
next
  case None
  then show ?thesis
    using assms by (cases "map_of (gr_kinds g) i")
      (auto simp: hint_def node_kind_ok_def Let_def kind_priority_pos split: if_splits)
qed

lemma hint_metadata:
  assumes "map_of (gr_metadata g) j = (if map_of (gr_kinds g) j = None then None else Option.bind (map_of (gr_facts g) j) snd)"
  shows "map_of (gr_metadata (hint i k g)) j =
    (if j \<noteq> i \<and> map_of (gr_kinds g) j = None then None else Option.bind (map_of (gr_facts g) j) snd)"
  using assms by (auto simp: hint_def split: option.splits prod.splits if_splits)

lemma hint_wf:
  assumes "builder_wf g" "map_of (gr_facts g) i = None \<Longrightarrow> infer_kind i \<in> {EkUnknown, k}"
  shows "builder_wf (hint i k g)"
proof -
  have "bm_wf (gr_kinds (hint i k g))"
    using assms(1) by (auto simp: builder_wf_def hint_def split: option.split prod.split)
  moreover have "node_kind_ok (gr_facts g) j k'" if "map_of (gr_kinds (hint i k g)) j = Some k'" for j k'
    by (rule hint_kind [OF that assms(2) builder_wfD(3) [OF assms(1)]])
  moreover have "map_of (gr_metadata (hint i k g)) j =
      (if map_of (gr_kinds (hint i k g)) j = None then None else Option.bind (map_of (gr_facts g) j) snd)" for j
    by (simp only: hint_metadata [OF builder_wfD(4) [OF assms(1)]] hint_dom)
  moreover have "map_of (gr_kinds (hint i k g)) s \<noteq> None \<and> map_of (gr_kinds (hint i k g)) t \<noteq> None"
    if "map_of (gr_edges g) (s, t, r) = Some d" for s t r d
    using assms(1) that unfolding hint_dom builder_wf_def by blast
  ultimately show ?thesis using assms(1) by (simp add: builder_wf_def)
qed

text \<open>One request: the kinds of both ends, and one edge put under the key of the request.\<close>

definition request_key :: "edge_request \<Rightarrow> edge_key" where
  "request_key = (\<lambda>(source, target, relation, _). (source, target, projr (relation_kind_try_from relation)))"

definition request_evidence :: "(string \<Rightarrow> evidence_payload option) \<Rightarrow> edge_request \<Rightarrow> evidence_ref" where
  "request_evidence from_json = (\<lambda>(source, target, _, evidence, _, provenance).
     evidence_ref_of from_json source target evidence provenance)"

definition request_confidence :: "edge_request \<Rightarrow> f32" where
  "request_confidence = (\<lambda>(_, _, _, _, confidence, _). confidence)"

definition request_ends :: "edge_request \<Rightarrow> string set" where
  "request_ends = (\<lambda>(source, target, _). {source, target})"

definition merge_request ::
    "(string \<Rightarrow> evidence_payload option) \<Rightarrow> edge_request \<Rightarrow> edge_data option \<Rightarrow> edge_data" where
  "merge_request from_json rq edge =
     (case edge of
        Some edge \<Rightarrow> edge\<lparr>ed_confidence := max (ed_confidence edge) (request_confidence rq),
                          ed_evidence := bs_insert (request_evidence from_json rq) (ed_evidence edge)\<rparr>
      | None \<Rightarrow> \<lparr>ed_confidence = request_confidence rq, ed_evidence = [request_evidence from_json rq]\<rparr>)"

lemma add_request_cases:
  assumes "add_request fj rq g = Inr g'"
  obtains k1 k2 os where "infer_kind (fst rq) \<in> {EkUnknown, k1}" "infer_kind (fst (snd rq)) \<in> {EkUnknown, k2}"
    "relation_kind_try_from (fst (snd (snd rq))) = Inr (snd (snd (request_key rq)))"
    "g' = (hint (fst (snd rq)) k2 (hint (fst rq) k1 g))
       \<lparr>gr_origins := os, gr_edges := bm_entry (request_key rq) (merge_request fj rq) (gr_edges g)\<rparr>"
proof -
  obtain s t r e c p where rq: "rq = (s, t, r, e, c, p)" by (cases rq)
  obtain r' where r': "relation_kind_try_from r = Inr r'"
    using assms by (cases "relation_kind_try_from r") (auto simp: rq add_request_def add_edge_def)
  define k1 where "k1 = relation_kind_hint (relation_kind_as_str r') True s"
  define k2 where "k2 = relation_kind_hint (relation_kind_as_str r') False t"
  define h where "h = hint t k2 (hint s k1 g)"
  have key: "request_key rq = (s, t, r')" by (simp add: request_key_def rq r')
  have merge: "merge_request fj rq = (\<lambda>edge. case edge of
       Some edge \<Rightarrow> edge\<lparr>ed_confidence := max (ed_confidence edge) c,
                         ed_evidence := bs_insert (evidence_ref_of fj s t e p) (ed_evidence edge)\<rparr>
     | None \<Rightarrow> \<lparr>ed_confidence = c, ed_evidence = [evidence_ref_of fj s t e p]\<rparr>)"
    by (simp add: fun_eq_iff merge_request_def request_confidence_def request_evidence_def rq split: option.split)
  have "\<exists>os. g' = h\<lparr>gr_origins := os, gr_edges := bm_entry (request_key rq) (merge_request fj rq) (gr_edges g)\<rparr>"
  proof (cases "p = ''generated'' \<and> r' \<in> {RkDefines, RkFieldOf}")
    case True
    then show ?thesis
      using assms unfolding key merge
      by (auto simp: rq add_request_def add_edge_def r' Let_def h_def k1_def k2_def)
  next
    case False
    then have "g' = h\<lparr>gr_edges := bm_entry (request_key rq) (merge_request fj rq) (gr_edges g)\<rparr>"
      using assms unfolding key merge
      by (auto simp: rq add_request_def add_edge_def r' Let_def h_def k1_def k2_def split: relation_kind.splits)
    also have "\<dots> = h\<lparr>gr_origins := gr_origins h, gr_edges := bm_entry (request_key rq) (merge_request fj rq) (gr_edges g)\<rparr>"
      by simp
    finally show ?thesis by blast
  qed
  then obtain os where os:
    "g' = h\<lparr>gr_origins := os, gr_edges := bm_entry (request_key rq) (merge_request fj rq) (gr_edges g)\<rparr>" ..
  show ?thesis
  proof (rule that)
    show "infer_kind (fst rq) \<in> {EkUnknown, k1}"
      by (cases "infer_kind s = EkUnknown") (simp_all add: k1_def rq relation_kind_hint_infer)
    show "infer_kind (fst (snd rq)) \<in> {EkUnknown, k2}"
      by (cases "infer_kind t = EkUnknown") (simp_all add: k2_def rq relation_kind_hint_infer)
    show "relation_kind_try_from (fst (snd (snd rq))) = Inr (snd (snd (request_key rq)))"
      using r' by (simp add: key) (simp add: rq)
    show "g' = (hint (fst (snd rq)) k2 (hint (fst rq) k1 g))
       \<lparr>gr_origins := os, gr_edges := bm_entry (request_key rq) (merge_request fj rq) (gr_edges g)\<rparr>"
      using os by (simp add: h_def) (simp add: rq)
  qed
qed


lemma request_ends_eq: "request_ends rq = {fst rq, fst (snd rq)}"
  by (simp add: request_ends_def split: prod.split)

lemma request_key_fst: "fst (request_key rq) = fst rq" "fst (snd (request_key rq)) = fst (snd rq)"
  by (simp_all add: request_key_def split: prod.split)

lemma add_request_wf:
  assumes "add_request fj rq g = Inr g'" "builder_wf g"
  shows "builder_wf g'"
  using assms(1)
proof (rule add_request_cases)
  fix k1 k2 os
  assume k: "infer_kind (fst rq) \<in> {EkUnknown, k1}" "infer_kind (fst (snd rq)) \<in> {EkUnknown, k2}"
    and g': "g' = (hint (fst (snd rq)) k2 (hint (fst rq) k1 g))
       \<lparr>gr_origins := os, gr_edges := bm_entry (request_key rq) (merge_request fj rq) (gr_edges g)\<rparr>"
  let ?h = "hint (fst (snd rq)) k2 (hint (fst rq) k1 g)"
  have h: "builder_wf ?h" by (intro hint_wf assms(2) k)
  have "map_of (gr_kinds ?h) s \<noteq> None \<and> map_of (gr_kinds ?h) t \<noteq> None"
    if "map_of (bm_entry (request_key rq) (merge_request fj rq) (gr_edges g)) (s, t, r) = Some d" for s t r d
  proof (cases "(s, t, r) = request_key rq")
    case True
    then have "s = fst rq" "t = fst (snd rq)" using request_key_fst [of rq] by (metis fst_conv snd_conv)+
    then show ?thesis by (simp add: hint_dom del: not_None_eq)
  next
    case False
    then show ?thesis using that h by (simp add: builder_wf_def fun_upd_def split: if_splits) blast
  qed
  then show ?thesis using h unfolding g' builder_wf_def by simp
qed

lemma add_request_keys:
  assumes "add_request fj rq g = Inr g'"
  shows "fst ` set (gr_kinds g') = fst ` set (gr_kinds g) \<union> request_ends rq"
    and "gr_facts g' = gr_facts g"
  using assms by (rule add_request_cases, simp add: hint_keys request_ends_eq insert_commute)+

lemma add_request_edges:
  assumes "add_request fj rq g = Inr g'"
  shows "gr_edges g' = bm_entry (request_key rq) (merge_request fj rq) (gr_edges g)"
  using assms by (rule add_request_cases) simp

text \<open>All requests of a query: what the edge of a key holds is the merge of the requests with that key.\<close>

definition merged_edge ::
    "(string \<Rightarrow> evidence_payload option) \<Rightarrow> edge_request list \<Rightarrow> edge_key \<Rightarrow> edge_data option" where
  "merged_edge fj rqs key =
     (let same = filter (\<lambda>rq. request_key rq = key) rqs
      in if same = [] then None
         else Some \<lparr>ed_confidence = Max (request_confidence ` set same),
                    ed_evidence = bs_of_list (map (request_evidence fj) same)\<rparr>)"

lemma merged_edge_snoc:
  "merged_edge fj (rqs @ [rq]) key =
     (if request_key rq = key then Some (merge_request fj rq (merged_edge fj rqs key)) else merged_edge fj rqs key)"
proof (cases "request_key rq = key")
  case True
  let ?same = "filter (\<lambda>rq. request_key rq = key) rqs"
  show ?thesis
  proof (cases "?same = []")
    case empty: True
    then show ?thesis using True by (simp add: merged_edge_def merge_request_def bs_of_list_def)
  next
    case False
    then have "request_confidence ` set ?same \<noteq> {}" by (simp only: image_is_empty set_empty not_False_eq_True)
    then have "Max (insert (request_confidence rq) (request_confidence ` set ?same)) =
        max (request_confidence rq) (Max (request_confidence ` set ?same))"
      by (rule Max_insert [OF finite_imageI [OF finite_set]])
    moreover have "bs_of_list (xs @ [x]) = bs_insert x (bs_of_list xs)" for x :: evidence_ref and xs
      by (simp add: bs_of_list_def)
    ultimately show ?thesis using True False
      by (simp add: merged_edge_def merge_request_def Let_def max.commute)
  qed
qed (simp add: merged_edge_def)

lemma add_requests_spec:
  assumes "try_fold (add_request fj) rqs g = Inr g'" "builder_wf g" "gr_edges g = []"
  shows "builder_wf g'" "gr_facts g' = gr_facts g"
    and "fst ` set (gr_kinds g') = fst ` set (gr_kinds g) \<union> (\<Union>rq \<in> set rqs. request_ends rq)"
    and "map_of (gr_edges g') = merged_edge fj rqs"
proof -
  have "(builder_wf g' \<and> gr_facts g' = gr_facts g)
    \<and> fst ` set (gr_kinds g') = fst ` set (gr_kinds g) \<union> (\<Union>rq \<in> set rqs. request_ends rq)"
  proof (rule try_fold_collect [OF assms(1), where P = "\<lambda>h. builder_wf h \<and> gr_facts h = gr_facts g"])
    fix rq s t
    assume "builder_wf s \<and> gr_facts s = gr_facts g" and add: "add_request fj rq s = Inr t"
    then show "(builder_wf t \<and> gr_facts t = gr_facts g)
        \<and> fst ` set (gr_kinds t) = fst ` set (gr_kinds s) \<union> request_ends rq"
      using add_request_wf [OF add] add_request_keys [OF add] by simp
  qed (simp add: assms(2))
  then show "builder_wf g'" "gr_facts g' = gr_facts g"
    "fst ` set (gr_kinds g') = fst ` set (gr_kinds g) \<union> (\<Union>rq \<in> set rqs. request_ends rq)" by simp_all
  show "map_of (gr_edges g') = merged_edge fj rqs"
    using assms(1)
  proof (induction rqs arbitrary: g' rule: rev_induct)
    case Nil
    then show ?case using assms(3) by (auto simp: merged_edge_def)
  next
    case (snoc rq rqs)
    then obtain h where "try_fold (add_request fj) rqs g = Inr h" "add_request fj rq h = Inr g'"
      by (auto simp: try_fold_append rbind_Inr_iff)
    with snoc.IH show ?case
      by (auto simp: add_request_edges merged_edge_snoc fun_eq_iff)
  qed
qed

text \<open>Rows decode to requests; the rest is the fold over the requests.\<close>

definition decoded_requests :: "('r \<Rightarrow> string + edge_request) \<Rightarrow> 'r list \<Rightarrow> edge_request list" where
  "decoded_requests request rows = map (projr \<circ> request) rows"

lemma add_rows_requests:
  "add_rows fj request rows g = Inr g' \<Longrightarrow> try_fold (add_request fj) (decoded_requests request rows) g = Inr g'"
  by (induction rows arbitrary: g) (auto simp: add_rows_def decoded_requests_def rbind_Inr_iff)

section \<open>What a finished graph holds\<close>

text \<open>
  The contract of a finished graph over a set of ids, the facts it was given and the requests it was
  made from.
\<close>

definition graph_spec ::
    "(string \<Rightarrow> evidence_payload option) \<Rightarrow> entity_fact_map \<Rightarrow> string set \<Rightarrow> edge_request list \<Rightarrow> graph_output \<Rightarrow> bool" where
  "graph_spec fj facts hinted rqs out \<longleftrightarrow>
     ascending (map er_id (go_nodes out))
     \<and> er_id ` set (go_nodes out) = hinted \<union> (\<Union>rq \<in> set rqs. request_ends rq)
     \<and> (\<forall>n \<in> set (go_nodes out). node_kind_ok facts (er_id n) (er_kind n)
          \<and> er_metadata n = Option.bind (map_of facts (er_id n)) snd)
     \<and> map se_id (go_edges out) = map (\<lambda>n. ''e'' @ nat_str n) [1..<length (go_edges out) + 1]
     \<and> ascending (map (\<lambda>e. (se_from e, se_to e, se_kind e)) (go_edges out))
     \<and> (\<forall>key d. merged_edge fj rqs key = Some d \<longleftrightarrow>
          (\<exists>e \<in> set (go_edges out). (se_from e, se_to e, se_kind e) = key
             \<and> se_confidence e = ed_confidence d \<and> se_evidence e = ed_evidence d))"

lemma finish_ids_spec:
  "set (finish_ids g) = fst ` set (gr_kinds g) \<union> (\<Union>(s, t, r) \<in> fst ` set (gr_edges g). {s, t})
   \<and> ascending (finish_ids g)"
proof -
  have "set (fold (\<lambda>((s, t, _), _) ids. bs_insert t (bs_insert s ids)) es ids) =
      set ids \<union> (\<Union>(s, t, r) \<in> fst ` set es. {s, t})
    \<and> (ascending ids \<longrightarrow> ascending (fold (\<lambda>((s, t, _), _) ids. bs_insert t (bs_insert s ids)) es ids))"
    for es :: "(edge_key \<times> edge_data) list" and ids
    by (induction es arbitrary: ids) auto
  then show ?thesis by (simp add: finish_ids_def)
qed

lemma er_id_finish_node [simp]: "er_id (finish_node g i) = i"
  by (simp add: finish_node_def entity_ref_with_origin_def)

lemma finish_edge_sel [simp]:
  "se_id (finish_edge (n, key, d)) = ''e'' @ nat_str (n + 1)"
  "se_from (finish_edge (n, key, d)) = fst key" "se_to (finish_edge (n, key, d)) = fst (snd key)"
  "se_kind (finish_edge (n, key, d)) = snd (snd key)"
  "se_confidence (finish_edge (n, key, d)) = ed_confidence d" "se_evidence (finish_edge (n, key, d)) = ed_evidence d"
  by (cases key; simp add: finish_edge_def)+


lemma edge_data_eq_iff: "d = d' \<longleftrightarrow> ed_confidence d = ed_confidence d' \<and> ed_evidence d = ed_evidence (d' :: edge_data)"
  by (auto intro: edge_data.equality)

lemma finish_spec:
  assumes "builder_wf g" "gr_facts g = facts"
    and keys: "fst ` set (gr_kinds g) = hinted \<union> (\<Union>rq \<in> set rqs. request_ends rq)"
    and edges: "map_of (gr_edges g) = merged_edge fj rqs"
  shows "graph_spec fj facts hinted rqs (finish g)"
proof -
  note wf = builder_wfD [OF assms(1)]
  have ends: "{s, t} \<subseteq> fst ` set (gr_kinds g)" if "((s, t, r), d) \<in> set (gr_edges g)" for s t r d
  proof -
    have "map_of (gr_edges g) (s, t, r) = Some d" using that wf(1) by (simp add: bm_wf_in_iff)
    then have "map_of (gr_kinds g) s \<noteq> None \<and> map_of (gr_kinds g) t \<noteq> None" by (rule wf(5))
    then show ?thesis by (simp only: map_of_eq_None_iff) blast
  qed
  have "(\<Union>(s, t, r) \<in> fst ` set (gr_edges g). {s, t}) \<subseteq> fst ` set (gr_kinds g)"
  proof
    fix i assume "i \<in> (\<Union>(s, t, r) \<in> fst ` set (gr_edges g). {s, t})"
    then obtain s t r d where "((s, t, r), d) \<in> set (gr_edges g)" "i \<in> {s, t}" by auto
    then show "i \<in> fst ` set (gr_kinds g)" using ends by blast
  qed
  with finish_ids_spec [of g] have ids: "set (finish_ids g) = fst ` set (gr_kinds g)"
    by (simp only: Un_absorb2)
  have node: "node_kind_ok facts i (er_kind (finish_node g i))
      \<and> er_metadata (finish_node g i) = Option.bind (map_of facts i) snd" if i: "i \<in> fst ` set (gr_kinds g)" for i
  proof -
    obtain k where k: "map_of (gr_kinds g) i = Some k"
      using i by (cases "map_of (gr_kinds g) i") (simp_all add: map_of_eq_None_iff)
    then have "node_kind_ok facts i k" "map_of (gr_metadata g) i = Option.bind (map_of facts i) snd"
      using wf(3) [OF k] wf(4) [of i] assms(2) by simp_all
    with k show ?thesis by (simp add: finish_node_def entity_ref_with_origin_def)
  qed
  have es: "go_edges (finish g) = map finish_edge (enumerate 0 (gr_edges g))" by (simp add: finish_def)
  have sel: "map se_id (map finish_edge (enumerate n es)) = map (\<lambda>n. ''e'' @ nat_str n) [n + 1..<n + length es + 1]
      \<and> map (\<lambda>e. (se_from e, se_to e, se_kind e)) (map finish_edge (enumerate n es)) = map fst es" for n es
  proof (induction es arbitrary: n)
    case (Cons e es)
    have "[n + 1..<n + length (e # es) + 1] = (n + 1) # [Suc n + 1..<Suc n + length es + 1]"
      by (subst upt_conv_Cons) simp_all
    with Cons.IH [of "Suc n"] show ?case by (cases e) (simp del: upt_Suc)
  qed simp
  have edge: "(\<exists>e \<in> set (go_edges (finish g)). (se_from e, se_to e, se_kind e) = key
      \<and> se_confidence e = ed_confidence d \<and> se_evidence e = ed_evidence d) \<longleftrightarrow> (key, d) \<in> set (gr_edges g)" for key d
  proof -
    have "(\<exists>e \<in> set (map finish_edge (enumerate n es)). (se_from e, se_to e, se_kind e) = key
      \<and> se_confidence e = ed_confidence d \<and> se_evidence e = ed_evidence d) \<longleftrightarrow> (key, d) \<in> set es" for n es
      by (induction es arbitrary: n) (auto simp: edge_data_eq_iff)
    then show ?thesis by (simp only: es)
  qed
  have "map er_id (go_nodes (finish g)) = finish_ids g" by (simp add: finish_def comp_def)
  moreover have "ascending (map fst (gr_edges g))" using wf(1) by (simp add: bm_wf_def)
  moreover have "er_id ` set (go_nodes (finish g)) = set (finish_ids g)"
    by (simp add: finish_def image_image)
  ultimately show ?thesis
    unfolding graph_spec_def edge
    using finish_ids_spec [of g] sel [of 0 "gr_edges g"] node ids keys
    by (simp add: es edges [symmetric] bm_wf_in_iff [OF wf(1)]) (auto simp: finish_def ids)
qed

lemma builder_default_wf: "builder_wf (hint_facts facts graph_builder_default)"
  by (simp add: builder_wf_def hint_facts_def graph_builder_default_def)

lemma hint_fold_wf:
  assumes "builder_wf g" "\<And>x. x \<in> set xs \<Longrightarrow> map_of (gr_facts g) (f x) = None \<Longrightarrow> infer_kind (f x) \<in> {EkUnknown, k x}"
  shows "builder_wf (fold (\<lambda>x. hint (f x) (k x)) xs g)"
  using assms
proof (induction xs arbitrary: g)
  case (Cons x xs)
  have "builder_wf (hint (f x) (k x) g)" using Cons.prems by (intro hint_wf) auto
  moreover have "map_of (gr_facts (hint (f x) (k x) g)) (f y) = None \<Longrightarrow> infer_kind (f y) \<in> {EkUnknown, k y}"
    if "y \<in> set xs" for y
    using Cons.prems(2) [of y] that by simp
  ultimately have "builder_wf (fold (\<lambda>x. hint (f x) (k x)) xs (hint (f x) (k x) g))" by (rule Cons.IH)
  then show ?case by simp
qed simp


lemma built_graph_spec:
  assumes "add_rows fj request rows (fold (\<lambda>x. hint (f x) (k x)) xs (hint_facts facts graph_builder_default)) = Inr g"
    and "\<And>x. x \<in> set xs \<Longrightarrow> map_of facts (f x) = None \<Longrightarrow> infer_kind (f x) \<in> {EkUnknown, k x}"
  shows "graph_spec fj facts (f ` set xs) (decoded_requests request rows) (finish g)"
proof -
  let ?g0 = "hint_facts facts graph_builder_default"
  let ?g1 = "fold (\<lambda>x. hint (f x) (k x)) xs ?g0"
  have facts0: "gr_facts ?g0 = facts" by (simp add: hint_facts_def)
  have wf: "builder_wf ?g1"
    using assms(2) by (intro hint_fold_wf [OF builder_default_wf]) (simp add: facts0)
  have "gr_edges (fold (\<lambda>x. hint (f x) (k x)) ys g) = gr_edges g
    \<and> gr_facts (fold (\<lambda>x. hint (f x) (k x)) ys g) = gr_facts g
    \<and> fst ` set (gr_kinds (fold (\<lambda>x. hint (f x) (k x)) ys g)) = fst ` set (gr_kinds g) \<union> f ` set ys" for ys g
    by (induction ys arbitrary: g) (auto simp: hint_keys)
  from this [of xs ?g0] have sel: "gr_edges ?g1 = []" "gr_facts ?g1 = facts" "fst ` set (gr_kinds ?g1) = f ` set xs"
    by (simp_all add: hint_facts_def graph_builder_default_def)
  note spec = add_requests_spec [OF add_rows_requests [OF assms(1)] wf sel(1)]
  show ?thesis by (rule finish_spec) (use spec sel in simp_all)
qed

text \<open>The fields of the contract.\<close>

lemma graph_specD:
  assumes "graph_spec fj facts hinted rqs out"
  shows "ascending (map er_id (go_nodes out))"
    and "er_id ` set (go_nodes out) = hinted \<union> (\<Union>rq \<in> set rqs. request_ends rq)"
    and "\<And>n. n \<in> set (go_nodes out) \<Longrightarrow> node_kind_ok facts (er_id n) (er_kind n)"
    and "\<And>n. n \<in> set (go_nodes out) \<Longrightarrow> er_metadata n = Option.bind (map_of facts (er_id n)) snd"
  using assms unfolding graph_spec_def by blast+

lemma graph_spec_request:
  assumes "graph_spec fj facts hinted rqs out" "e \<in> set (go_edges out)"
  shows "\<exists>rq \<in> set rqs. request_ends rq = {se_from e, se_to e}"
proof -
  let ?key = "(se_from e, se_to e, se_kind e)"
  have "merged_edge fj rqs ?key = Some \<lparr>ed_confidence = se_confidence e, ed_evidence = se_evidence e\<rparr>"
    using assms unfolding graph_spec_def by fastforce
  then have "filter (\<lambda>rq. request_key rq = ?key) rqs \<noteq> []"
    by (simp add: merged_edge_def Let_def split: if_splits)
  then obtain rq where "rq \<in> set rqs" "request_key rq = ?key"
    by (meson filter_False)
  then have "rq \<in> set rqs" "request_ends rq = {se_from e, se_to e}"
    using request_key_fst [of rq] by (simp_all add: request_ends_eq)
  then show ?thesis by blast
qed

lemma graph_spec_ends:
  assumes "graph_spec fj facts hinted rqs out" "e \<in> set (go_edges out)"
  shows "{se_from e, se_to e} \<subseteq> er_id ` set (go_nodes out)"
  using graph_spec_request [OF assms] graph_specD(2) [OF assms(1)] by blast

lemma output_entity_spec:
  assumes "i \<in> er_id ` set (go_nodes out)"
  shows "output_entity out i \<in> set (go_nodes out) \<and> er_id (output_entity out i) = i"
proof (cases "List.find (\<lambda>e. er_id e = i) (go_nodes out)")
  case None
  with assms show ?thesis by (auto simp: find_None_iff_all)
next
  case (Some e)
  then have "e \<in> set (go_nodes out) \<and> er_id e = i" by (auto simp: find_Some_iff)
  with Some show ?thesis by (simp add: output_entity_def)
qed

text \<open>A topology row names two entities with facts.\<close>

lemma topology_request_ends:
  assumes "topology_request facts row = Inr rq"
  shows "request_ends rq \<subseteq> fst ` set facts"
proof -
  have "\<exists>s t rest. rq = (s, t, rest) \<and> map_of facts s \<noteq> None \<and> map_of facts t \<noteq> None"
    using assms by (auto simp: topology_request_def rbind_Inr_iff simp del: not_None_eq split: if_splits)
  then show ?thesis by (auto simp: request_ends_def map_of_eq_None_iff simp del: not_None_eq)
qed

lemma add_rows_decoded:
  "add_rows fj request rows g = Inr g' \<Longrightarrow> row \<in> set rows \<Longrightarrow> request row = Inr (projr (request row))"
  by (induction rows arbitrary: g) (auto simp: add_rows_def rbind_Inr_iff)

lemma query_graph_spec:
  assumes "graph_of from_json result entities roots = Inr out"
  shows "\<exists>facts. entity_kinds entities = Inr facts
    \<and> graph_spec from_json facts (set roots) (decoded_requests closure_request (iq_rows result)) out"
proof -
  obtain facts g where facts: "entity_kinds entities = Inr facts"
    and rows: "add_rows from_json closure_request (iq_rows result)
        (fold (\<lambda>root. hint root (infer_kind root)) roots (hint_facts facts graph_builder_default)) = Inr g"
    and out: "out = finish g"
    using assms by (auto simp: graph_of_def rbind_Inr_iff)
  have "graph_spec from_json facts (id ` set roots) (decoded_requests closure_request (iq_rows result)) (finish g)"
    by (rule built_graph_spec [where f = id and k = infer_kind]) (use rows in simp_all)
  with facts out show ?thesis by auto
qed

text \<open>
  When the rows succeed: each decodes and names a known relation. A stored fact never has the
  unknown kind, so the last check of the topology never fires.
\<close>

definition request_ok :: "('r \<Rightarrow> string + edge_request) \<Rightarrow> 'r \<Rightarrow> bool" where
  "request_ok request row =
     (case request row of
        Inl _ \<Rightarrow> False
      | Inr (_, _, relation, _) \<Rightarrow> (case relation_kind_try_from relation of Inl _ \<Rightarrow> False | Inr _ \<Rightarrow> True))"

lemma request_ok_add:
  assumes "request_ok request row"
  shows "\<exists>g'. rbind (request row) (\<lambda>r. add_request fj r g) = Inr g'"
proof -
  obtain rq where rq: "request row = Inr rq" using assms by (auto simp: request_ok_def split: sum.splits)
  obtain s t r e c p where "rq = (s, t, r, e, c, p)" by (cases rq)
  moreover from this obtain k where "relation_kind_try_from r = Inr k"
    using assms rq by (auto simp: request_ok_def split: sum.splits)
  ultimately show ?thesis by (simp add: rq add_request_def add_edge_def Let_def)
qed

lemma add_rows_total: "list_all (request_ok request) rows \<Longrightarrow> \<exists>g'. add_rows fj request rows g = Inr g'"
proof (induction rows arbitrary: g)
  case Nil
  then show ?case by (simp add: add_rows_def)
next
  case (Cons row rows)
  then obtain h where "rbind (request row) (\<lambda>r. add_request fj r g) = Inr h" using request_ok_add by fastforce
  moreover obtain g' where "add_rows fj request rows h = Inr g'" using Cons by auto
  ultimately show ?case by (simp add: add_rows_def)
qed

lemma if_neq: "x \<noteq> z \<Longrightarrow> y \<noteq> z \<Longrightarrow> (if c then x else y) \<noteq> z"
  by simp

lemma persisted_kind_known: "persisted_kind kind metadata = Inr (k, m) \<Longrightarrow> k \<noteq> EkUnknown"
proof -
  have "persisted_kind kind metadata \<noteq> Inr (EkUnknown, m)"
    unfolding persisted_kind_def Let_def by ((rule if_neq)?, simp)+
  then show "persisted_kind kind metadata = Inr (k, m) \<Longrightarrow> k \<noteq> EkUnknown" by blast
qed

lemma entity_kinds_known:
  assumes "entity_kinds result = Inr facts" "map_of facts i = Some (k, m)"
  shows "k \<noteq> EkUnknown"
proof -
  obtain kvs where kvs: "try_map entity_kind_row (iq_rows result) = Inr kvs" "facts = bm_of_list kvs"
    using assms(1) by (auto simp: entity_kinds_def rbind_Inr_iff)
  then have "(i, k, m) \<in> set kvs"
    using assms(2) by (auto simp: map_of_bm_of_list dest: map_of_SomeD)
  then obtain row where "entity_kind_row row = Inr (i, k, m)"
    using kvs(1) by (auto simp: try_map_Inr_iff list_all2_conv_all_nth in_set_conv_nth)
  then show ?thesis by (auto simp: entity_kind_row_def rbind_Inr_iff dest: persisted_kind_known)
qed

lemma topology_graph_spec:
  assumes facts: "entity_kinds entities = Inr facts"
    and rows: "add_rows from_json (topology_request facts) (iq_rows result)
        (fold (\<lambda>(i, (kind, _)). hint i kind) facts (hint_facts facts graph_builder_default)) = Inr g"
  shows "graph_spec from_json facts (fst ` set facts) (decoded_requests (topology_request facts) (iq_rows result)) (finish g)"
    and "map er_id (go_nodes (finish g)) = map fst facts"
    and "n \<in> set (go_nodes (finish g)) \<Longrightarrow> map_of facts (er_id n) = Some (er_kind n, er_metadata n) \<and> er_kind n \<noteq> EkUnknown"
proof -
  have wf: "bm_wf facts" using facts by (rule entity_kinds_wf)
  let ?rqs = "decoded_requests (topology_request facts) (iq_rows result)"
  show spec: "graph_spec from_json facts (fst ` set facts) ?rqs (finish g)"
  proof (rule built_graph_spec [where k = "fst \<circ> snd"])
    show "add_rows from_json (topology_request facts) (iq_rows result)
        (fold (\<lambda>x. hint (fst x) ((fst \<circ> snd) x)) facts (hint_facts facts graph_builder_default)) = Inr g"
      using rows by (simp add: case_prod_beta')
  qed (force simp: map_of_eq_None_iff)
  have "request_ends rq \<subseteq> fst ` set facts" if rq: "rq \<in> set ?rqs" for rq
  proof -
    obtain row where "row \<in> set (iq_rows result)" "rq = projr (topology_request facts row)"
      using rq by (auto simp: decoded_requests_def)
    then have "topology_request facts row = Inr rq" using add_rows_decoded [OF rows] by simp
    then show ?thesis by (rule topology_request_ends)
  qed
  then have "(\<Union>rq \<in> set ?rqs. request_ends rq) \<subseteq> fst ` set facts" by (rule UN_least)
  with graph_specD(2) [OF spec] have ids: "er_id ` set (go_nodes (finish g)) = fst ` set facts"
    by (simp only: Un_absorb2)
  show "map er_id (go_nodes (finish g)) = map fst facts"
    using graph_specD(1) [OF spec] wf ids by (intro ascending_unique) (simp_all add: bm_wf_def)
  show "map_of facts (er_id n) = Some (er_kind n, er_metadata n) \<and> er_kind n \<noteq> EkUnknown"
    if n: "n \<in> set (go_nodes (finish g))"
  proof -
    have "er_id n \<in> fst ` set facts" using ids n by blast
    then obtain k m where km: "map_of facts (er_id n) = Some (k, m)"
      by (cases "map_of facts (er_id n)") (auto simp: map_of_eq_None_iff)
    then show ?thesis
      using graph_specD(3,4) [OF spec n] entity_kinds_known [OF facts km] by (simp add: node_kind_ok_def)
  qed
qed

lemma workspace_topology_total:
  assumes "entity_kinds entities = Inr facts" "list_all (request_ok (topology_request facts)) (iq_rows result)"
  shows "\<exists>t. workspace_topology from_json view result entities = Inr t"
proof -
  obtain g where g: "add_rows from_json (topology_request facts) (iq_rows result)
      (fold (\<lambda>(i, (kind, _)). hint i kind) facts (hint_facts facts graph_builder_default)) = Inr g"
    using add_rows_total [OF assms(2)] by blast
  then have "\<not> list_ex (\<lambda>n. er_kind n = EkUnknown) (go_nodes (finish g))"
    using topology_graph_spec(3) [OF assms(1) g] by (auto simp: list_ex_iff)
  with assms(1) g show ?thesis by (simp add: workspace_topology_def Let_def)
qed

section \<open>Example values\<close>

definition example_rows :: inspection_result where
  "example_rows = InspectionResult []
     [[IvString ''edge'', IvNull, IvNull, IvString ''a'', IvString ''b'', IvString ''calls'', IvString ''x'', IvFloat 0, IvString ''ast''],
      [IvString ''edge'', IvNull, IvNull, IvString ''a'', IvString ''b'', IvString ''calls'', IvString ''y'', IvFloat 0, IvString ''ast''],
      [IvString ''edge'', IvNull, IvNull, IvString ''b'', IvString ''c'', IvString ''uses'', IvString ''z'', IvFloat 0, IvString ''ast'']] None"

definition example_entities :: inspection_result where
  "example_entities = InspectionResult []
     [[IvString ''c'', IvString ''callable'', IvString ''''], [IvString ''b'', IvString ''service'', IvString ''''],
      [IvString ''a'', IvString ''callable'', IvString '''']] None"

definition example_facts :: entity_fact_map where
  "example_facts = [(''a'', EkCallable, None), (''b'', EkService, None), (''c'', EkCallable, None)]"

definition example_topology_rows :: inspection_result where
  "example_topology_rows = InspectionResult []
     [[IvString ''a'', IvString ''b'', IvString ''calls'', IvString ''x'', IvFloat (3/5), IvString ''ast'']] None"

definition example_output :: graph_output where
  "example_output = projr (graph_of (\<lambda>_. None) example_rows example_entities [''a''])"

definition example_topology :: topology_result where
  "example_topology = projr (workspace_topology (\<lambda>_. None) ''w'' example_topology_rows example_entities)"

definition example_context_rows :: "context_row list" where
  "example_context_rows =
     [\<lparr>cx_direction = ''incoming'', cx_relation = ''calls'', cx_related = ''b'', cx_evidence = ''x'',
       cx_confidence = 1, cx_provenance = ''ast''\<rparr>]"

definition example_context :: context_result where
  "example_context = projr (context_query (\<lambda>_. None) ''w'' ''a'' example_context_rows example_entities)"

definition example_search :: entity_search_result where
  "example_search = projr (search_entities ''w'' ''b'' 1 example_entities)"

lemma example_entities_facts: "entity_kinds example_entities = Inr example_facts"
  by code_simp

lemma example_output_eq: "graph_of (\<lambda>_. None) example_rows example_entities [''a''] = Inr example_output"
proof -
  have "list_all (request_ok closure_request) (iq_rows example_rows)" by code_simp
  then obtain g where "add_rows (\<lambda>_. None) closure_request (iq_rows example_rows)
      (hint ''a'' (infer_kind ''a'') (hint_facts example_facts graph_builder_default)) = Inr g"
    using add_rows_total by blast
  then show ?thesis by (simp add: example_output_def graph_of_def example_entities_facts)
qed

lemma example_topology_eq:
  "workspace_topology (\<lambda>_. None) ''w'' example_topology_rows example_entities = Inr example_topology"
proof -
  have "list_all (request_ok (topology_request example_facts)) (iq_rows example_topology_rows)" by code_simp
  then have "\<exists>t. workspace_topology (\<lambda>_. None) ''w'' example_topology_rows example_entities = Inr t"
    by (rule workspace_topology_total [OF example_entities_facts])
  then show ?thesis by (auto simp: example_topology_def)
qed

lemma example_context_eq: "context_query (\<lambda>_. None) ''w'' ''a'' example_context_rows example_entities = Inr example_context"
proof -
  have "list_all (request_ok (context_request ''a'')) example_context_rows" by code_simp
  then obtain g where "add_rows (\<lambda>_. None) (context_request ''a'') example_context_rows
      (hint ''a'' (infer_kind ''a'') (hint_facts example_facts graph_builder_default)) = Inr g"
    using add_rows_total by blast
  then show ?thesis by (simp add: example_context_def context_query_def example_entities_facts Let_def)
qed

section \<open>Search\<close>

text \<open>Whether an entity answers a search, and the order of the answers.\<close>

definition search_matches :: "string \<Rightarrow> entity_ref \<Rightarrow> bool" where
  "search_matches query e \<longleftrightarrow> starts_with (er_id e) query \<or> starts_with (er_name e) query"

definition fact_entities :: "entity_fact_map \<Rightarrow> entity_ref list" where
  "fact_entities facts = map (\<lambda>(i, (kind, metadata)). entity_ref_with_origin i kind None metadata) facts"

abbreviation search_key :: "string \<Rightarrow> entity_ref \<Rightarrow> nat \<times> string" where
  "search_key query e \<equiv> (search_rank e query, er_id e)"

lemma fact_entities_ids: "map er_id (fact_entities facts) = map fst facts"
  by (auto simp: fact_entities_def entity_ref_with_origin_def)

lemma take_sorted_prefix:
  fixes key :: "'a \<Rightarrow> 'k::linorder"
  assumes "distinct (map key xs)"
  shows "sorted_wrt (\<lambda>x y. key x < key y) (take n (sort_key key xs))"
    and "x \<in> set (take n (sort_key key xs)) \<Longrightarrow> y \<in> set xs - set (take n (sort_key key xs)) \<Longrightarrow> key x < key y"
proof -
  let ?ys = "sort_key key xs"
  have "distinct (map key ?ys)" using assms by (metis distinct_map distinct_sort set_sort)
  then have "ascending (map key ?ys)" by (simp add: strict_sorted_iff)
  then have asc: "sorted_wrt (\<lambda>x y. key x < key y) ?ys" by (simp add: sorted_wrt_map)
  then show "sorted_wrt (\<lambda>x y. key x < key y) (take n ?ys)" by (rule sorted_wrt_take)
  assume "x \<in> set (take n ?ys)" "y \<in> set xs - set (take n ?ys)"
  moreover have "set xs = set (take n ?ys) \<union> set (drop n ?ys)"
    by (metis append_take_drop_id set_append set_sort)
  ultimately have "x \<in> set (take n ?ys)" "y \<in> set (drop n ?ys)" by auto
  with asc show "key x < key y" by (metis append_take_drop_id sorted_wrt_append)
qed

section \<open>Properties\<close>

text \<open>
  C26. A merged query graph holds exactly what its rows say: its nodes are the roots and the
  endpoints of the rows, once each in ascending order, with the kind and metadata of their fact, or
  the kind their id implies; its edges are one per source, target and relation, numbered from \<open>e1\<close>,
  with the greatest confidence and the set of all evidence of the rows they merge.
\<close>

theorem query_graph_exact:
  assumes "graph_of from_json result entities roots = Inr out"
  shows "\<exists>facts. entity_kinds entities = Inr facts
    \<and> graph_spec from_json facts (set roots) (decoded_requests closure_request (iq_rows result)) out"
  using assms by (rule query_graph_spec)

theorem query_graph_exact_witness:
  "\<exists>facts. entity_kinds example_entities = Inr facts
    \<and> graph_spec (\<lambda>_. None) facts {''a''} (decoded_requests closure_request (iq_rows example_rows)) example_output"
proof -
  show ?thesis using query_graph_exact [OF example_output_eq] by simp
qed

text \<open>
  Entity search returns at most the requested number of entities, exact ids before exact names
  before prefixes and each group by id, without repetition; every answer starts with the query, and
  every matching entity left out comes after all the returned ones.
\<close>

theorem search_exact:
  assumes "search_entities view query limit entities = Inr result"
  shows "\<exists>facts. entity_kinds entities = Inr facts
    \<and> length (esr_matches result) = min limit (length (filter (search_matches query) (fact_entities facts)))
    \<and> sorted_wrt (\<lambda>e f. search_key query e < search_key query f) (esr_matches result)
    \<and> set (esr_matches result) \<subseteq> {e \<in> set (fact_entities facts). search_matches query e}
    \<and> (\<forall>f \<in> {f \<in> set (fact_entities facts). search_matches query f} - set (esr_matches result).
         \<forall>e \<in> set (esr_matches result). search_key query e < search_key query f)"
proof -
  obtain facts where facts: "entity_kinds entities = Inr facts"
    using assms by (auto simp: search_entities_def rbind_Inr_iff)
  let ?found = "filter (search_matches query) (fact_entities facts)"
  let ?key = "search_key query"
  have found: "filter (\<lambda>e. starts_with (er_id e) query \<or> starts_with (er_name e) query)
       (map (\<lambda>(i, (kind, metadata)). entity_ref_with_origin i kind None metadata) facts) = ?found"
    by (simp add: fact_entities_def search_matches_def [abs_def])
  then have m: "esr_matches result = take limit (sort_key ?key ?found)"
    using assms facts by (auto simp: search_entities_def)
  have "distinct (map er_id (fact_entities facts))"
    using entity_kinds_wf [OF facts] by (simp add: fact_entities_ids bm_wf_distinct)
  then have "distinct (map er_id ?found)" by (rule distinct_map_filter)
  then have dist: "distinct (map ?key ?found)" by (auto simp: distinct_map inj_on_def)
  have "set (take limit (sort_key ?key ?found)) \<subseteq> set ?found"
    by (metis set_take_subset set_sort)
  moreover have "?key e < ?key f"
    if "e \<in> set (take limit (sort_key ?key ?found))" "f \<in> set ?found - set (take limit (sort_key ?key ?found))" for e f
    using dist that by (rule take_sorted_prefix(2))
  ultimately show ?thesis
    using facts take_sorted_prefix(1) [OF dist, of limit]
    by (intro exI [where x = facts]) (auto simp: m)
qed


theorem search_exact_witness:
  "\<exists>facts. entity_kinds example_entities = Inr facts
    \<and> length (esr_matches example_search) = min 1 (length (filter (search_matches ''b'') (fact_entities facts)))"
proof -
  have "search_entities ''w'' ''b'' 1 example_entities = Inr example_search" by code_simp
  then show ?thesis using search_exact by blast
qed

text \<open>
  A published topology has exactly the entities with facts as nodes, each with the kind and
  metadata of its fact and none of unknown kind, and every edge joins two of them.
\<close>

theorem workspace_topology_exact:
  assumes "workspace_topology from_json view result entities = Inr t"
  shows "\<exists>facts. entity_kinds entities = Inr facts
    \<and> map er_id (top_nodes t) = map fst facts
    \<and> (\<forall>n \<in> set (top_nodes t). map_of facts (er_id n) = Some (er_kind n, er_metadata n) \<and> er_kind n \<noteq> EkUnknown)
    \<and> (\<forall>e \<in> set (top_edges t). {se_from e, se_to e} \<subseteq> er_id ` set (top_nodes t))"
proof -
  obtain facts g where facts: "entity_kinds entities = Inr facts"
    and rows: "add_rows from_json (topology_request facts) (iq_rows result)
              (fold (\<lambda>(i, (kind, _)). hint i kind) facts (hint_facts facts graph_builder_default)) = Inr g"
    and t: "top_nodes t = go_nodes (finish g)" "top_edges t = go_edges (finish g)"
    using assms by (auto simp: workspace_topology_def rbind_Inr_iff Let_def split: if_splits)
  note spec = topology_graph_spec [OF facts rows]
  show ?thesis
    using facts spec(2,3) graph_spec_ends [OF spec(1)] by (intro exI [where x = facts]) (simp add: t)
qed

theorem workspace_topology_exact_witness: "map er_id (top_nodes example_topology) = [''a'', ''b'', ''c'']"
proof -
  obtain facts where "entity_kinds example_entities = Inr facts" "map er_id (top_nodes example_topology) = map fst facts"
    using workspace_topology_exact [OF example_topology_eq] by blast
  then show ?thesis by (auto simp: example_entities_facts example_facts_def)
qed

text \<open>
  The context of an entity is the graph of its incoming and outgoing rows: the root is always
  a node of it, found under its own id, every edge has the entity at one end, and the nodes are the
  entity and its neighbours.
\<close>

theorem context_exact:
  assumes "context_query from_json view entity rows entities = Inr c"
  shows "cr_root c \<in> set (cr_nodes c) \<and> er_id (cr_root c) = entity
    \<and> ascending (map er_id (cr_nodes c))
    \<and> er_id ` set (cr_nodes c) = insert entity (cx_related ` set rows)
    \<and> (\<forall>e \<in> set (cr_edges c). entity \<in> {se_from e, se_to e} \<and> {se_from e, se_to e} \<subseteq> er_id ` set (cr_nodes c))"
proof -
  obtain facts g where "entity_kinds entities = Inr facts"
    and add: "add_rows from_json (context_request entity) rows
              (hint entity (infer_kind entity) (hint_facts facts graph_builder_default)) = Inr g"
    and c: "cr_root c = output_entity (finish g) entity" "cr_nodes c = go_nodes (finish g)" "cr_edges c = go_edges (finish g)"
    using assms by (auto simp: context_query_def rbind_Inr_iff Let_def)
  let ?rqs = "decoded_requests (context_request entity) rows"
  have spec: "graph_spec from_json facts {entity} ?rqs (finish g)"
    using built_graph_spec [where f = id and k = infer_kind and xs = "[entity]"] add by fastforce
  have ends: "request_ends (projr (context_request entity row)) = {entity, cx_related row}" if "row \<in> set rows" for row
    using add_rows_decoded [OF add that] by (auto simp: context_request_def request_ends_eq split: if_splits)
  have ids: "er_id ` set (go_nodes (finish g)) = insert entity (cx_related ` set rows)"
    using graph_specD(2) [OF spec] ends by (auto simp: decoded_requests_def)
  have "entity \<in> {se_from e, se_to e}" if e: "e \<in> set (go_edges (finish g))" for e
  proof -
    obtain rq where "rq \<in> set ?rqs" "request_ends rq = {se_from e, se_to e}"
      using graph_spec_request [OF spec e] by blast
    then show ?thesis using ends by (auto simp: decoded_requests_def)
  qed
  then show ?thesis
    using output_entity_spec [of entity "finish g"] ids graph_specD(1) [OF spec] graph_spec_ends [OF spec]
    by (simp add: c)
qed

theorem context_exact_witness: "er_id ` set (cr_nodes example_context) = {''a'', ''b''}"
proof -
  have "er_id ` set (cr_nodes example_context) = insert ''a'' (cx_related ` set example_context_rows)"
    using context_exact [OF example_context_eq] by blast
  then show ?thesis by (simp add: example_context_rows_def)
qed

end
