(* ===== verification/Breadth_First.thy ===== *)
theory Breadth_First imports Ordered begin

text \<open>
  What the two breadth-first searches of \<open>crates/adapters-mnestic/src/semantic.rs\<close> share: the
  distances and the queue satisfy \<open>bfs_inv\<close>, whatever else a search keeps. The locale states the
  contract of one expansion (every new successor of the node gets the next distance and is queued
  once); its lemmas say that the invariant holds initially, is kept by every step, and gives the
  exact distances, and the exact meaning of the truncation flag, when the queue is empty.
\<close>

definition succ_rel :: "('a \<Rightarrow> 'a list) \<Rightarrow> ('a \<times> 'a) set" where
  "succ_rel succ = {(n, m). m \<in> set (succ n)}"

text \<open>The length of a shortest path.\<close>

definition at_distance :: "('a \<times> 'a) set \<Rightarrow> 'a \<Rightarrow> 'a \<Rightarrow> nat \<Rightarrow> bool" where
  "at_distance R a b k \<longleftrightarrow> (a, b) \<in> R ^^ k \<and> (\<forall>j < k. (a, b) \<notin> R ^^ j)"

lemma at_distance_unique: "at_distance R a b j \<Longrightarrow> at_distance R a b k \<Longrightarrow> j = k"
  unfolding at_distance_def by (meson linorder_neqE_nat)

lemma at_distance_ex: "(a, b) \<in> R ^^ k \<Longrightarrow> \<exists>j \<le> k. at_distance R a b j"
proof -
  assume ab: "(a, b) \<in> R ^^ k"
  let ?j = "LEAST j. (a, b) \<in> R ^^ j"
  have "at_distance R a b ?j"
    unfolding at_distance_def using LeastI [of "\<lambda>j. (a, b) \<in> R ^^ j", OF ab] not_less_Least by blast
  moreover have "?j \<le> k" using ab by (rule Least_le)
  ultimately show ?thesis by blast
qed

definition bfs_inv ::
    "('a \<Rightarrow> 'a list) \<Rightarrow> 'a \<Rightarrow> nat \<Rightarrow> ('a \<Rightarrow> nat option) \<Rightarrow> 'a list \<Rightarrow> bool \<Rightarrow> bool" where
  "bfs_inv succ src bound d q t \<longleftrightarrow>
     d src = Some 0 \<and> distinct q \<and> set q \<subseteq> dom d \<and> sorted (map (the \<circ> d) q)
     \<and> (\<forall>n k. d n = Some k \<longrightarrow> k \<le> bound \<and> (src, n) \<in> succ_rel succ ^^ k)
     \<and> (\<forall>n k. d n = Some k \<longrightarrow> q \<noteq> [] \<longrightarrow> k \<le> the (d (hd q)) + 1 \<and> (n \<in> set q \<or> k \<le> the (d (hd q))))
     \<and> (\<forall>n k. d n = Some k \<longrightarrow> n \<notin> set q \<longrightarrow> k < bound \<longrightarrow> (\<forall>m \<in> set (succ n). \<exists>k' \<le> k + 1. d m = Some k'))
     \<and> (t \<longleftrightarrow> (\<exists>n. d n = Some bound \<and> n \<notin> set q \<and> (\<exists>m \<in> set (succ n). d m = None)))"

lemma bfs_invD:
  assumes "bfs_inv succ src bound d q t"
  shows "d src = Some 0" "distinct q" "set q \<subseteq> dom d" "sorted (map (the \<circ> d) q)"
    and "\<And>n k. d n = Some k \<Longrightarrow> k \<le> bound" "\<And>n k. d n = Some k \<Longrightarrow> (src, n) \<in> succ_rel succ ^^ k"
    and "\<And>n k. d n = Some k \<Longrightarrow> q \<noteq> [] \<Longrightarrow> k \<le> the (d (hd q)) + 1"
    and "\<And>n k. d n = Some k \<Longrightarrow> q \<noteq> [] \<Longrightarrow> n \<notin> set q \<Longrightarrow> k \<le> the (d (hd q))"
    and "\<And>n k m. d n = Some k \<Longrightarrow> n \<notin> set q \<Longrightarrow> k < bound \<Longrightarrow> m \<in> set (succ n) \<Longrightarrow> \<exists>k' \<le> k + 1. d m = Some k'"
    and "t \<longleftrightarrow> (\<exists>n. d n = Some bound \<and> n \<notin> set q \<and> (\<exists>m \<in> set (succ n). d m = None))"
  using assms unfolding bfs_inv_def by blast+

lemma bfs_init: "bfs_inv succ src bound [src \<mapsto> 0] [src] False"
  by (auto simp: bfs_inv_def)

text \<open>A node at the bound is taken off the queue and not expanded.\<close>

lemma bfs_bound:
  assumes "bfs_inv succ src bound d (n # q) t" "d n = Some bound"
  shows "bfs_inv succ src bound d q (t \<or> (\<exists>m \<in> set (succ n). d m = None))"
proof -
  note inv = bfs_invD [OF assms(1)]
  have head: "the (d (hd q)) = bound" if "q \<noteq> []"
  proof -
    obtain m q' where q: "q = m # q'" using \<open>q \<noteq> []\<close> by (cases q) auto
    then obtain k where "d m = Some k" using inv(3) by auto
    moreover have "bound \<le> the (d m)" using inv(4) assms(2) q by simp
    ultimately show ?thesis using inv(5) [of m k] q by simp
  qed
  show ?thesis
    unfolding bfs_inv_def
  proof (intro conjI allI impI)
    show "d src = Some 0" by (rule inv(1))
    show "distinct q" "set q \<subseteq> dom d" using inv(2,3) by simp_all
    show "sorted (map (the \<circ> d) q)" using inv(4) by simp
    show "k \<le> bound" "(src, m) \<in> succ_rel succ ^^ k" if "d m = Some k" for m k
      using inv(5,6) [OF that] by simp_all
    show "k \<le> the (d (hd q)) + 1" "m \<in> set q \<or> k \<le> the (d (hd q))" if "d m = Some k" "q \<noteq> []" for m k
      using inv(5) [OF that(1)] head [OF that(2)] by simp_all
    show "\<forall>m' \<in> set (succ m). \<exists>k' \<le> k + 1. d m' = Some k'" if "d m = Some k" "m \<notin> set q" "k < bound" for m k
    proof (cases "m = n")
      case True
      with that assms(2) show ?thesis by simp
    next
      case False
      with that show ?thesis using inv(9) [of m k] by simp
    qed
    have "n \<notin> set q" using inv(2) by simp
    then show "(t \<or> (\<exists>m \<in> set (succ n). d m = None)) \<longleftrightarrow>
        (\<exists>n. d n = Some bound \<and> n \<notin> set q \<and> (\<exists>m \<in> set (succ n). d m = None))"
      using inv(10) assms(2) by auto
  qed
qed

text \<open>The end of a search.\<close>

lemma bfs_final:
  assumes "bfs_inv succ src bound d [] t"
  shows "d n = Some k \<longleftrightarrow> k \<le> bound \<and> at_distance (succ_rel succ) src n k"
    and "t \<longleftrightarrow> (\<exists>m. (src, m) \<in> (succ_rel succ)\<^sup>* \<and> d m = None)"
proof -
  note inv = bfs_invD [OF assms]
  have within: "\<exists>k' \<le> k. d n = Some k'" if "(src, n) \<in> succ_rel succ ^^ k" "k \<le> bound" for n k
    using that
  proof (induction k arbitrary: n)
    case 0
    then show ?case using inv(1) by simp
  next
    case (Suc k)
    then obtain m where m: "(src, m) \<in> succ_rel succ ^^ k" "n \<in> set (succ m)"
      by (auto simp: succ_rel_def elim: relpow_Suc_E)
    then obtain j where "j \<le> k" "d m = Some j" using Suc by force
    moreover from this have "j < bound" using Suc.prems by simp
    ultimately obtain k' where "k' \<le> j + 1" "d n = Some k'" using inv(9) [of m j n] m(2) by auto
    with \<open>j \<le> k\<close> show ?case by (intro exI [where x = k']) simp
  qed
  show dist: "d n = Some k \<longleftrightarrow> k \<le> bound \<and> at_distance (succ_rel succ) src n k" for n k
  proof
    assume d: "d n = Some k"
    have "(src, n) \<notin> succ_rel succ ^^ j" if "j < k" for j
      using within [of n j] inv(5) [OF d] d that by fastforce
    then show "k \<le> bound \<and> at_distance (succ_rel succ) src n k"
      using inv(5,6) [OF d] by (simp add: at_distance_def)
  next
    assume k: "k \<le> bound \<and> at_distance (succ_rel succ) src n k"
    then obtain k' where "k' \<le> k" "d n = Some k'" using within [of n k] by (auto simp: at_distance_def)
    moreover have "\<not> k' < k" using k inv(6) [OF \<open>d n = Some k'\<close>] by (auto simp: at_distance_def)
    ultimately show "d n = Some k" by simp
  qed
  show "t \<longleftrightarrow> (\<exists>m. (src, m) \<in> (succ_rel succ)\<^sup>* \<and> d m = None)"
  proof
    assume t
    then obtain n m where "d n = Some bound" "m \<in> set (succ n)" "d m = None" using inv(10) by auto
    moreover from this have "(src, n) \<in> (succ_rel succ)\<^sup>*" using inv(6) by (meson relpow_imp_rtrancl)
    ultimately show "\<exists>m. (src, m) \<in> (succ_rel succ)\<^sup>* \<and> d m = None"
      by (metis (mono_tags, lifting) case_prodI mem_Collect_eq rtrancl.rtrancl_into_rtrancl succ_rel_def)
  next
    assume "\<exists>m. (src, m) \<in> (succ_rel succ)\<^sup>* \<and> d m = None"
    then obtain m where "(src, m) \<in> (succ_rel succ)\<^sup>*" "d m = None" by blast
    then have "\<exists>n m. d n \<noteq> None \<and> m \<in> set (succ n) \<and> d m = None"
    proof (induction rule: rtrancl_induct)
      case base
      then show ?case using inv(1) by simp
    next
      case (step n m)
      then show ?case by (cases "d n") (auto simp: succ_rel_def)
    qed
    then obtain n k m where n: "d n = Some k" "m \<in> set (succ n)" "d m = None" by auto
    then have "\<not> k < bound" using inv(9) [of n k m] by auto
    then have "k = bound" using inv(5) [OF n(1)] by simp
    with n show t using inv(10) by auto
  qed
qed

text \<open>In the middle of a search: everything at most as far as the head of the queue is known.\<close>

lemma bfs_within:
  assumes "bfs_inv succ src bound d (n # q) t" "d n = Some h" "(src, m) \<in> succ_rel succ ^^ k" "k \<le> h"
  shows "\<exists>k' \<le> k. d m = Some k'"
  using assms(3,4)
proof (induction k arbitrary: m)
  case 0
  then show ?case using bfs_invD(1) [OF assms(1)] by simp
next
  case (Suc k)
  then obtain p where p: "(src, p) \<in> succ_rel succ ^^ k" "m \<in> set (succ p)"
    by (auto simp: succ_rel_def elim: relpow_Suc_E)
  then obtain j where j: "j \<le> k" "d p = Some j" using Suc by force
  have "h \<le> the (d x)" if "x \<in> set (n # q)" for x
    using bfs_invD(4) [OF assms(1)] assms(2) that by auto
  then have "p \<notin> set (n # q)" using j Suc.prems(2) by fastforce
  moreover have "j < bound" using j Suc.prems(2) bfs_invD(5) [OF assms(1) assms(2)] by simp
  ultimately obtain k' where "k' \<le> j + 1" "d m = Some k'"
    using bfs_invD(9) [OF assms(1) j(2)] p(2) by blast
  with j(1) show ?case by (intro exI [where x = k']) simp
qed

text \<open>A node the search did not reach is one beyond the bound.\<close>

lemma bfs_final_beyond:
  assumes "bfs_inv succ src bound d [] t"
  shows "d m = None \<longleftrightarrow> (\<forall>k \<le> bound. (src, m) \<notin> succ_rel succ ^^ k)"
proof
  assume none: "d m = None"
  show "\<forall>k \<le> bound. (src, m) \<notin> succ_rel succ ^^ k"
  proof (intro allI impI notI)
    fix k assume "k \<le> bound" "(src, m) \<in> succ_rel succ ^^ k"
    then obtain j where "j \<le> bound" "at_distance (succ_rel succ) src m j"
      using at_distance_ex by (meson le_trans)
    then have "d m = Some j" using bfs_final(1) [OF assms] by blast
    with none show False by simp
  qed
next
  assume "\<forall>k \<le> bound. (src, m) \<notin> succ_rel succ ^^ k"
  then show "d m = None"
    using bfs_invD(5,6) [OF assms] by (cases "d m") blast+
qed

section \<open>The contract of an expansion\<close>

locale breadth_first =
  fixes succ :: "'a \<Rightarrow> 'a list"
    and expands :: "'a \<Rightarrow> nat \<Rightarrow> ('a \<Rightarrow> nat option) \<Rightarrow> 'a list \<Rightarrow> ('a \<Rightarrow> nat option) \<Rightarrow> 'a list \<Rightarrow> bool"
  assumes expands_dist: "expands n h d q d' q' \<Longrightarrow>
      d' m = (if m \<in> set (succ n) \<and> d m = None then Some (h + 1) else d m)"
    and expands_queue: "expands n h d q d' q' \<Longrightarrow>
      \<exists>new. q' = q @ new \<and> distinct new \<and> set new = {m \<in> set (succ n). d m = None}"
begin

lemma expand_inv:
  assumes inv: "bfs_inv succ src bound d (n # q) t" and n: "d n = Some h" "h \<noteq> bound"
    and step: "expands n h d q d' q'"
  shows "bfs_inv succ src bound d' q' t"
proof -
  note inv = bfs_invD [OF inv]
  note dist = expands_dist [OF step]
  obtain new where q': "q' = q @ new" "distinct new" "set new = {m \<in> set (succ n). d m = None}"
    using expands_queue [OF step] by blast
  have h: "h < bound" using inv(5) [OF n(1)] n(2) by simp
  have keep: "d' m = Some k" if "d m = Some k" for m k using that by (simp add: dist)
  have old: "d m = Some k \<or> k = h + 1 \<and> m \<in> set new" if "d' m = Some k" for m k
    using that q'(3) by (auto simp: dist split: if_splits)
  have low: "k \<le> h + 1" if "d' m = Some k" for m k
    using old [OF that] inv(7) [of m k] n(1) by auto
  have mapq: "map (the \<circ> d') q = map (the \<circ> d) q"
    using inv(3) keep by fastforce
  have new: "the (d' m) = h + 1" if "m \<in> set new" for m using that q'(3) by (simp add: dist)
  have hq: "h \<le> the (d' m)" if "m \<in> set q'" for m
  proof (cases "m \<in> set q")
    case True
    then have "the (d m) = the (d' m)" using mapq by (metis comp_apply map_eq_conv)
    with True inv(4) n(1) show ?thesis by auto
  next
    case False
    with that q'(1) new show ?thesis by auto
  qed
  have hd: "h \<le> the (d' (hd q'))" if "q' \<noteq> []" using hq that by simp
  show ?thesis
    unfolding bfs_inv_def
  proof (intro conjI allI impI)
    show "d' src = Some 0" using inv(1) keep by blast
    show "distinct q'" using q' inv(2,3) by auto
    show "set q' \<subseteq> dom d'" using q' inv(3) keep by (auto simp: dist)
    have "the (d m) \<le> h + 1" if m: "m \<in> set q" for m
    proof -
      obtain k where "d m = Some k" using inv(3) m by auto
      with inv(7) [of m k] n(1) show ?thesis by simp
    qed
    moreover have "map (the \<circ> d') new = replicate (length new) (h + 1)"
      using new by (intro replicate_eqI) auto
    ultimately show "sorted (map (the \<circ> d') q')"
      using inv(4) by (simp add: q'(1) sorted_append mapq)
    show "k \<le> bound" "(src, m) \<in> succ_rel succ ^^ k" if "d' m = Some k" for m k
    proof -
      have "k \<le> bound \<and> (src, m) \<in> succ_rel succ ^^ k"
        using old [OF that]
      proof
        assume "d m = Some k"
        then show ?thesis using inv(5,6) by blast
      next
        assume m: "k = h + 1 \<and> m \<in> set new"
        then have "(n, m) \<in> succ_rel succ" using q'(3) by (simp add: succ_rel_def)
        with inv(6) [OF n(1)] m h show ?thesis by (auto intro: relpow_Suc_I)
      qed
      then show "k \<le> bound" "(src, m) \<in> succ_rel succ ^^ k" by simp_all
    qed
    show "k \<le> the (d' (hd q')) + 1" if "d' m = Some k" "q' \<noteq> []" for m k
      using low [OF that(1)] hd [OF that(2)] by simp
    show "m \<in> set q' \<or> k \<le> the (d' (hd q'))" if "d' m = Some k" "q' \<noteq> []" for m k
    proof (cases "m \<in> set q'")
      case False
      then have m: "d m = Some k" "m \<notin> set q" using old [OF that(1)] q'(1) by auto
      have "k \<le> h"
      proof (cases "m = n")
        case True
        then show ?thesis using m n(1) by simp
      next
        case False
        then show ?thesis using inv(8) [OF m(1)] m(2) n(1) by simp
      qed
      with hd [OF that(2)] show ?thesis by simp
    qed simp
    show "\<forall>m' \<in> set (succ m). \<exists>k' \<le> k + 1. d' m' = Some k'" if dm: "d' m = Some k" "m \<notin> set q'" "k < bound" for m k
    proof
      fix m' assume m': "m' \<in> set (succ m)"
      have m: "d m = Some k" "m \<notin> set q" using old [OF dm(1)] dm(2) q'(1) by auto
      show "\<exists>k' \<le> k + 1. d' m' = Some k'"
      proof (cases "m = n")
        case True
        then have "k = h" using m(1) n(1) by simp
        show ?thesis
        proof (cases "d m'")
          case None
          then show ?thesis using m' True \<open>k = h\<close> by (simp add: dist)
        next
          case (Some k')
          then show ?thesis using keep [OF Some] low [of m' k'] \<open>k = h\<close> by auto
        qed
      next
        case False
        then obtain k' where "k' \<le> k + 1" "d m' = Some k'" using inv(9) [OF m(1)] m(2) dm(3) m' by auto
        then show ?thesis using keep by auto
      qed
    qed
    have "\<not> t" using inv(8,10) h n(1) by fastforce
    moreover have "d' m \<noteq> Some bound" if "m \<notin> set q'" for m
      using old [of m bound] inv(8) [of m bound] that q'(1) h n(1) by force
    ultimately show "t \<longleftrightarrow> (\<exists>n. d' n = Some bound \<and> n \<notin> set q' \<and> (\<exists>m \<in> set (succ n). d' m = None))" by blast
  qed
qed

text \<open>Progress: each expansion leaves fewer unvisited nodes, or as many and a shorter queue.\<close>

lemma expand_progress:
  assumes "expands n h d q d' q'" "finite {m \<in> M. d m = None}" "set (succ n) \<subseteq> M"
  shows "card {m \<in> M. d' m = None} < card {m \<in> M. d m = None}
    \<or> card {m \<in> M. d' m = None} = card {m \<in> M. d m = None} \<and> length q' = length q"
proof -
  obtain new where q': "q' = q @ new" "set new = {m \<in> set (succ n). d m = None}"
    using expands_queue [OF assms(1)] by blast
  have "{m \<in> M. d' m = None} = {m \<in> M. d m = None} - set new"
    using q'(2) by (auto simp: expands_dist [OF assms(1)])
  then show ?thesis
  proof (cases "new = []")
    case False
    then have "hd new \<in> set new" by simp
    moreover have "set new \<subseteq> {m \<in> M. d m = None}" using q'(2) assms(3) by auto
    ultimately have "{m \<in> M. d m = None} - set new \<subset> {m \<in> M. d m = None}" by blast
    with \<open>{m \<in> M. d' m = None} = _\<close> assms(2) show ?thesis by (simp add: psubset_card_mono)
  qed (simp add: q'(1))
qed

end

end
