(* ===== verification/Graph_Distance.thy ===== *)
theory Graph_Distance imports Graph_Builder Breadth_First begin

text \<open>
  \<open>crates/adapters-mnestic/src/semantic.rs\<close>, second part: the breadth-first searches behind
  dependencies, impact and trace. A lookup that would panic makes the result \<open>None\<close>; the theorems
  show it never does. Hop counts stay below the bound, an \<open>u32\<close>, so \<open>hops + 1\<close> does not wrap.
\<close>

section \<open>Adjacency\<close>

datatype traversal_direction = Outgoing | Incoming

definition traversal_endpoints :: "semantic_edge \<Rightarrow> traversal_direction \<Rightarrow> string \<times> string" where
  "traversal_endpoints edge direction =
     (case direction of
        Outgoing \<Rightarrow> (se_from edge, se_to edge)
      | Incoming \<Rightarrow>
          if se_kind edge = RkImplementedBy \<and> starts_with (se_from edge) ''grpc://''
          then (se_from edge, se_to edge)
          else (se_to edge, se_from edge))"

text \<open>\<open>for edge in edges { adjacent.entry(from).or_default().push(value) }\<close>.\<close>

definition adjacency :: "('e \<Rightarrow> 'k::linorder \<times> 'v) \<Rightarrow> 'e list \<Rightarrow> ('k, 'v list) bmap" where
  "adjacency f edges =
     fold (\<lambda>e m. bm_entry (fst (f e)) (\<lambda>vs. (case vs of None \<Rightarrow> [] | Some vs \<Rightarrow> vs) @ [snd (f e)]) m) edges []"

definition neighbours :: "('k, 'v list) bmap \<Rightarrow> 'k \<Rightarrow> 'v list" where
  "neighbours m k = (case map_of m k of None \<Rightarrow> [] | Some vs \<Rightarrow> vs)"

lemma neighbours_adjacency: "neighbours (adjacency f edges) k = map (snd \<circ> f) (filter (\<lambda>e. fst (f e) = k) edges)"
  by (induction edges rule: rev_induct) (auto simp: adjacency_def neighbours_def split: option.splits)

lemma bm_wf_adjacency: "bm_wf (adjacency f edges)"
  by (induction edges rule: rev_induct) (auto simp: adjacency_def)

text \<open>The values of an adjacency map, the nodes a search can reach.\<close>

definition adjacent_values :: "('k, 'v list) bmap \<Rightarrow> 'v set" where
  "adjacent_values m = (\<Union>vs \<in> snd ` set m. set vs)"

lemma finite_adjacent_values [simp]: "finite (adjacent_values m)"
  by (simp add: adjacent_values_def)

lemma neighbours_values: "set (neighbours m k) \<subseteq> adjacent_values m"
proof (cases "map_of m k")
  case (Some vs)
  then have "vs \<in> snd ` set m" by (force dest: map_of_SomeD)
  with Some show ?thesis by (auto simp: neighbours_def adjacent_values_def)
qed (simp add: neighbours_def)

section \<open>Distances\<close>

definition expand_node :: "nat \<Rightarrow> string \<Rightarrow> (string, u32) bmap \<times> string list \<Rightarrow> (string, u32) bmap \<times> string list" where
  "expand_node hops target = (\<lambda>(distances, queue).
     if map_of distances target = None then (bm_put target (hops + 1) distances, queue @ [target])
     else (distances, queue))"

definition expand_nodes :: "nat \<Rightarrow> string list \<Rightarrow> (string, u32) bmap \<times> string list \<Rightarrow> (string, u32) bmap \<times> string list" where
  "expand_nodes hops targets state = fold (expand_node hops) targets state"

lemma expand_nodes_simps:
  "expand_nodes h [] s = s"
  "map_of D t \<noteq> None \<Longrightarrow> expand_nodes h (t # ts) (D, q) = expand_nodes h ts (D, q)"
  "map_of D t = None \<Longrightarrow> expand_nodes h (t # ts) (D, q) = expand_nodes h ts (bm_put t (h + 1) D, q @ [t])"
  by (auto simp: expand_nodes_def expand_node_def)

lemma expand_nodes_dist:
  "map_of (fst (expand_nodes h ts (D, q))) m = (if m \<in> set ts \<and> map_of D m = None then Some (h + 1) else map_of D m)"
proof (induction ts arbitrary: D q)
  case (Cons t ts)
  show ?case
  proof (cases "map_of D t = None")
    case True
    then show ?thesis by (simp add: expand_nodes_simps(3) Cons.IH)
  next
    case False
    then show ?thesis by (auto simp: expand_nodes_simps(2) Cons.IH)
  qed
qed (simp add: expand_nodes_simps(1))

lemma expand_nodes_wf: "bm_wf D \<Longrightarrow> bm_wf (fst (expand_nodes h ts (D, q)))"
proof (induction ts arbitrary: D q)
  case (Cons t ts)
  then show ?case by (cases "map_of D t = None") (simp_all add: expand_nodes_simps)
qed (simp add: expand_nodes_simps(1))

lemma expand_nodes_queue:
  "\<exists>new. snd (expand_nodes h ts (D, q)) = q @ new \<and> distinct new \<and> set new = {m \<in> set ts. map_of D m = None}"
proof (induction ts arbitrary: D q)
  case (Cons t ts)
  show ?case
  proof (cases "map_of D t = None")
    case True
    obtain new where new: "snd (expand_nodes h ts (bm_put t (h + 1) D, q @ [t])) = (q @ [t]) @ new"
      "distinct new" "set new = {m \<in> set ts. map_of (bm_put t (h + 1) D) m = None}"
      using Cons.IH by blast
    have "set (t # new) = {m \<in> set (t # ts). map_of D m = None}"
      unfolding list.set new(3) using True by (auto split: if_splits)
    moreover have "distinct (t # new)" using new(2,3) by simp
    ultimately show ?thesis using new(1) True
      by (intro exI [where x = "t # new"]) (simp add: expand_nodes_simps(3))
  next
    case False
    then have "{m \<in> set (t # ts). map_of D m = None} = {m \<in> set ts. map_of D m = None}" by auto
    with False Cons.IH [of D q] show ?thesis by (simp only: expand_nodes_simps(2) not_False_eq_True)
  qed
qed (simp add: expand_nodes_simps(1))

lemma expand_nodes_spec:
  assumes "expand_nodes h ts (D, q) = (D', q')"
  shows "map_of D' m = (if m \<in> set ts \<and> map_of D m = None then Some (h + 1) else map_of D m)"
    and "\<exists>new. q' = q @ new \<and> distinct new \<and> set new = {m \<in> set ts. map_of D m = None}"
    and "bm_wf D \<Longrightarrow> bm_wf D'"
  using expand_nodes_dist [of h ts D q m] expand_nodes_queue [of h ts D q] expand_nodes_wf [of D h ts q]
  unfolding assms by simp_all

interpretation levels: breadth_first "neighbours adjacent"
  "\<lambda>n h d q d' q'. \<exists>D D'. d = map_of D \<and> d' = map_of D' \<and> expand_nodes h (neighbours adjacent n) (D, q) = (D', q')"
  for adjacent :: "(string, string list) bmap"
proof
  fix n h and d d' :: "string \<Rightarrow> nat option" and q q' :: "string list" and m
  assume "\<exists>D D'. d = map_of D \<and> d' = map_of D' \<and> expand_nodes h (neighbours adjacent n) (D, q) = (D', q')"
  then obtain D D' where D: "d = map_of D" "d' = map_of D'" "expand_nodes h (neighbours adjacent n) (D, q) = (D', q')"
    by blast
  show "d' m = (if m \<in> set (neighbours adjacent n) \<and> d m = None then Some (h + 1) else d m)"
    unfolding D(1,2) by (rule expand_nodes_spec(1) [OF D(3)])
  show "\<exists>new. q' = q @ new \<and> distinct new \<and> set new = {m \<in> set (neighbours adjacent n). d m = None}"
    unfolding D(1,2) by (rule expand_nodes_spec(2) [OF D(3)])
qed

function distances_loop ::
    "(string, string list) bmap \<Rightarrow> u32 \<Rightarrow> (string, u32) bmap \<Rightarrow> string list \<Rightarrow> bool
     \<Rightarrow> ((string, u32) bmap \<times> bool) option" where
  "distances_loop adjacent max_hops distances [] truncated = Some (distances, truncated)"
| "distances_loop adjacent max_hops distances (node # queue) truncated =
     (case map_of distances node of
        None \<Rightarrow> None
      | Some hops \<Rightarrow>
          if hops = max_hops
          then distances_loop adjacent max_hops distances queue
                 (truncated \<or> list_ex (\<lambda>n. map_of distances n = None) (neighbours adjacent node))
          else let state = expand_nodes hops (neighbours adjacent node) (distances, queue)
               in distances_loop adjacent max_hops (fst state) (snd state) truncated)"
  by pat_completeness auto

termination
proof (relation "inv_image (less_than <*lex*> less_than)
    (\<lambda>(adjacent, max_hops, distances, queue, truncated).
       (card {m \<in> adjacent_values adjacent. map_of distances m = None}, length queue))")
  fix adjacent :: "(string, string list) bmap" and max_hops :: u32 and distances :: "(string, u32) bmap"
    and node queue truncated hops state
  assume "state = expand_nodes hops (neighbours adjacent node) (distances, queue)"
  then have "\<exists>D D'. map_of distances = map_of D \<and> map_of (fst state) = map_of D'
      \<and> expand_nodes hops (neighbours adjacent node) (D, queue) = (D', snd state)"
    by (intro exI [where x = distances] exI [where x = "fst state"]) simp
  from levels.expand_progress [OF this _ neighbours_values]
  show "((adjacent, max_hops, fst state, snd state, truncated), (adjacent, max_hops, distances, node # queue, truncated))
    \<in> inv_image (less_than <*lex*> less_than)
    (\<lambda>(adjacent, max_hops, distances, queue, truncated).
       (card {m \<in> adjacent_values adjacent. map_of distances m = None}, length queue))"
    by auto
qed auto

definition distances_from ::
    "string \<Rightarrow> semantic_edge list \<Rightarrow> u32 \<Rightarrow> traversal_direction \<Rightarrow> ((string, u32) bmap \<times> bool) option" where
  "distances_from origin edges max_hops direction =
     distances_loop (adjacency (\<lambda>e. traversal_endpoints e direction) edges) max_hops [(origin, 0)] [origin] False"

lemma distances_loop_inv:
  assumes "bfs_inv (neighbours adjacent) src bound (map_of D) q t" "bm_wf D"
  shows "\<exists>D' t'. distances_loop adjacent bound D q t = Some (D', t')
    \<and> bm_wf D' \<and> bfs_inv (neighbours adjacent) src bound (map_of D') [] t'"
  using assms
proof (induction adjacent bound D q t rule: distances_loop.induct)
  case (1 adjacent bound D t)
  then show ?case by simp
next
  case (2 adjacent bound D n q t)
  obtain h where h: "map_of D n = Some h" using bfs_invD(3) [OF 2(3)] by auto
  show ?case
  proof (cases "h = bound")
    case True
    then have "bfs_inv (neighbours adjacent) src bound (map_of D) q
        (t \<or> list_ex (\<lambda>n. map_of D n = None) (neighbours adjacent n))"
      using bfs_bound [OF 2(3)] h by (simp add: list_ex_iff)
    with 2(1) [OF h True] h True 2(4) show ?thesis by simp
  next
    case False
    let ?s = "expand_nodes h (neighbours adjacent n) (D, q)"
    have step: "expand_nodes h (neighbours adjacent n) (D, q) = (fst ?s, snd ?s)" by simp
    have "bfs_inv (neighbours adjacent) src bound (map_of (fst ?s)) (snd ?s) t"
      using step by (intro levels.expand_inv [OF 2(3) h False]) blast
    moreover have "bm_wf (fst ?s)" using expand_nodes_spec(3) [OF step] 2(4) by simp
    ultimately show ?thesis using 2(2) [OF h False refl] h False by (simp add: Let_def)
  qed
qed

text \<open>The edge relation a search follows.\<close>

definition direction_rel :: "semantic_edge list \<Rightarrow> traversal_direction \<Rightarrow> (string \<times> string) set" where
  "direction_rel edges direction = (\<lambda>e. traversal_endpoints e direction) ` set edges"

lemma succ_rel_adjacency: "succ_rel (neighbours (adjacency f edges)) = f ` set edges"
proof -
  have "(a, b) \<in> succ_rel (neighbours (adjacency f edges)) \<longleftrightarrow> (\<exists>e \<in> set edges. f e = (a, b))" for a b
    by (force simp: succ_rel_def neighbours_adjacency image_iff)
  then show ?thesis by (auto simp: image_iff) metis+
qed

lemma distances_from_spec:
  "\<exists>D t. distances_from src edges bound direction = Some (D, t) \<and> bm_wf D
    \<and> (\<forall>n k. map_of D n = Some k \<longleftrightarrow> k \<le> bound \<and> at_distance (direction_rel edges direction) src n k)
    \<and> (t \<longleftrightarrow> (\<exists>n. (src, n) \<in> (direction_rel edges direction)\<^sup>* \<and> map_of D n = None))"
proof -
  let ?adj = "adjacency (\<lambda>e. traversal_endpoints e direction) edges"
  have rel: "succ_rel (neighbours ?adj) = direction_rel edges direction"
    by (simp add: succ_rel_adjacency direction_rel_def)
  have "bfs_inv (neighbours ?adj) src bound (map_of [(src, 0)]) [src] False"
    using bfs_init by (simp add: fun_upd_def)
  then obtain D t where "distances_from src edges bound direction = Some (D, t)" "bm_wf D"
    and inv: "bfs_inv (neighbours ?adj) src bound (map_of D) [] t"
    using distances_loop_inv [of ?adj src bound "[(src, 0)]" "[src]" False]
    by (auto simp: distances_from_def bm_wf_def)
  with bfs_final [OF inv] show ?thesis unfolding rel by blast
qed

section \<open>Dependencies and impact\<close>

definition within_graph :: "(string, u32) bmap \<Rightarrow> graph_output \<Rightarrow> graph_output" where
  "within_graph distances output =
     \<lparr>go_nodes = filter (\<lambda>node. map_of distances (er_id node) \<noteq> None) (go_nodes output),
      go_edges = filter (\<lambda>edge. map_of distances (se_from edge) \<noteq> None \<and> map_of distances (se_to edge) \<noteq> None)
        (go_edges output)\<rparr>"

definition closure_of ::
    "(string \<Rightarrow> evidence_payload option) \<Rightarrow> inspection_result \<Rightarrow> inspection_result \<Rightarrow> string \<Rightarrow> u32
     \<Rightarrow> traversal_direction \<Rightarrow> (string + (string \<times> u32) list \<times> graph_output \<times> bool) option" where
  "closure_of from_json result entities origin max_hops direction =
     (case graph_of from_json result entities [origin] of
        Inl e \<Rightarrow> Some (Inl e)
      | Inr output \<Rightarrow>
          map_option (\<lambda>(distances, truncated).
            Inr (sort_key (\<lambda>(entity, hops). (hops, entity)) (filter (\<lambda>(entity, _). entity \<noteq> origin) distances),
                 within_graph distances output, truncated))
            (distances_from origin (go_edges output) max_hops direction))"

definition dependencies_query ::
    "(string \<Rightarrow> evidence_payload option) \<Rightarrow> string \<Rightarrow> string \<Rightarrow> u32 \<Rightarrow> inspection_result \<Rightarrow> inspection_result
     \<Rightarrow> (string + dependencies_result) option" where
  "dependencies_query from_json view entity max_hops result entities =
     map_option (\<lambda>r. rbind r (\<lambda>(entries, output, truncated).
       Inr \<lparr>ds_schema = DEPENDENCIES_SCHEMA_V2, ds_metadata = query_metadata_completed view 0,
            ds_query = \<lparr>eq_entity = entity\<rparr>,
            ds_traversal = \<lparr>tm_max_hops = max_hops, tm_truncated = truncated\<rparr>,
            ds_root = output_entity output entity,
            ds_dependencies = map (\<lambda>(entity, hops). \<lparr>dr_entity = entity, dr_hops = hops\<rparr>) entries,
            ds_nodes = go_nodes output, ds_edges = go_edges output\<rparr>))
       (closure_of from_json result entities entity max_hops Outgoing)"

definition impact_query ::
    "(string \<Rightarrow> evidence_payload option) \<Rightarrow> string \<Rightarrow> string \<Rightarrow> u32 \<Rightarrow> inspection_result \<Rightarrow> inspection_result
     \<Rightarrow> (string + impact_result) option" where
  "impact_query from_json view entity max_hops result entities =
     map_option (\<lambda>r. rbind r (\<lambda>(entries, output, truncated).
       Inr \<lparr>im_schema = IMPACT_SCHEMA_V2, im_metadata = query_metadata_completed view 0,
            im_query = \<lparr>eq_entity = entity\<rparr>,
            im_traversal = \<lparr>tm_max_hops = max_hops, tm_truncated = truncated\<rparr>,
            im_root = output_entity output entity,
            im_affected = map (\<lambda>(entity, hops). \<lparr>ir_entity = entity, ir_hops = hops\<rparr>) entries,
            im_nodes = go_nodes output, im_edges = go_edges output\<rparr>))
       (closure_of from_json result entities entity max_hops Incoming)"

section \<open>Shortest path\<close>

text \<open>
  The walk back over the parents: \<open>None\<close> when a parent is missing or the walk does not end. The
  expansion of a node stops at the target (\<open>True\<close>).
\<close>

partial_function (option) walk_back ::
    "(string, string \<times> string) bmap \<Rightarrow> string \<Rightarrow> string \<Rightarrow> string list \<Rightarrow> string list \<Rightarrow> (string list \<times> string list) option" where
  "walk_back parents source cursor nodes path_edges =
     (if cursor = source then Some (nodes, path_edges)
      else case map_of parents cursor of
             None \<Rightarrow> None
           | Some (parent, edge) \<Rightarrow> walk_back parents source parent (nodes @ [parent]) (path_edges @ [edge]))"

type_synonym path_state = "(string, u32) bmap \<times> (string, string \<times> string) bmap \<times> string list"

fun expand_edges :: "string \<Rightarrow> string \<Rightarrow> u32 \<Rightarrow> semantic_edge list \<Rightarrow> path_state \<Rightarrow> bool \<times> path_state" where
  "expand_edges target node hops [] state = (False, state)"
| "expand_edges target node hops (edge # edges) (distances, parents, queue) =
     (if map_of distances (se_to edge) \<noteq> None then expand_edges target node hops edges (distances, parents, queue)
      else let distances = bm_put (se_to edge) (hops + 1) distances;
               parents = bm_put (se_to edge) (node, se_id edge) parents
           in if se_to edge = target then (True, distances, parents, queue)
              else expand_edges target node hops edges (distances, parents, queue @ [se_to edge]))"

lemma expand_edges_nodes:
  "expand_edges target node h es (D, P, q) = (False, D', P', q') \<Longrightarrow>
     expand_nodes h (map se_to es) (D, q) = (D', q') \<and> (map_of D target = None \<longrightarrow> map_of D' target = None)"
proof (induction es arbitrary: D P q)
  case (Cons e es)
  show ?case
  proof (cases "map_of D (se_to e) = None")
    case True
    with Cons show ?thesis by (fastforce simp: Let_def expand_nodes_simps split: if_splits)
  next
    case False
    with Cons show ?thesis by (simp add: expand_nodes_simps(2))
  qed
qed (simp add: expand_nodes_simps)

interpretation paths: breadth_first "\<lambda>n. map se_to (neighbours adjacent n)"
  "\<lambda>n h d q d' q'. \<exists>target D P D' P'. d = map_of D \<and> d' = map_of D'
     \<and> expand_edges target n h (neighbours adjacent n) (D, P, q) = (False, D', P', q')"
  for adjacent :: "(string, semantic_edge list) bmap"
proof
  fix n h and d d' :: "string \<Rightarrow> nat option" and q q' :: "string list" and m
  assume "\<exists>target D P D' P'. d = map_of D \<and> d' = map_of D'
     \<and> expand_edges target n h (neighbours adjacent n) (D, P, q) = (False, D', P', q')"
  then obtain D D' where D: "d = map_of D" "d' = map_of D'"
    and step: "expand_nodes h (map se_to (neighbours adjacent n)) (D, q) = (D', q')"
    using expand_edges_nodes by blast
  show "d' m = (if m \<in> set (map se_to (neighbours adjacent n)) \<and> d m = None then Some (h + 1) else d m)"
    unfolding D by (rule expand_nodes_spec(1) [OF step])
  show "\<exists>new. q' = q @ new \<and> distinct new \<and> set new = {m \<in> set (map se_to (neighbours adjacent n)). d m = None}"
    unfolding D by (rule expand_nodes_spec(2) [OF step])
qed

function path_loop ::
    "(string, semantic_edge list) bmap \<Rightarrow> string \<Rightarrow> string \<Rightarrow> u32 \<Rightarrow> path_state \<Rightarrow> bool
     \<Rightarrow> (semantic_path option \<times> bool) option" where
  "path_loop adjacent source target max_hops (distances, parents, []) truncated = Some (None, truncated)"
| "path_loop adjacent source target max_hops (distances, parents, node # queue) truncated =
     (case map_of distances node of
        None \<Rightarrow> None
      | Some hops \<Rightarrow>
          if hops = max_hops
          then path_loop adjacent source target max_hops (distances, parents, queue)
                 (truncated \<or> list_ex (\<lambda>edge. map_of distances (se_to edge) = None) (neighbours adjacent node))
          else let step = expand_edges target node hops (neighbours adjacent node) (distances, parents, queue)
               in if fst step
                  then map_option (\<lambda>(nodes, path_edges).
                           (Some \<lparr>pth_nodes = rev nodes, pth_edges = rev path_edges\<rparr>, False))
                         (walk_back (fst (snd (snd step))) source target [target] [])
                  else path_loop adjacent source target max_hops (snd step) truncated)"
  by pat_completeness auto

termination
proof (relation "inv_image (less_than <*lex*> less_than)
    (\<lambda>(adjacent, source, target, max_hops, (distances, parents, queue), truncated).
       (card {m \<in> se_to ` adjacent_values adjacent. map_of distances m = None}, length queue))")
  fix adjacent :: "(string, semantic_edge list) bmap" and source target :: string and max_hops :: u32
    and distances :: "(string, u32) bmap" and parents :: "(string, string \<times> string) bmap"
    and node queue truncated hops step
  assume step: "step = expand_edges target node hops (neighbours adjacent node) (distances, parents, queue)"
    and "\<not> fst step"
  obtain D' P' q' where s: "snd step = (D', P', q')" by (cases "snd step")
  have "expand_edges target node hops (neighbours adjacent node) (distances, parents, queue) = (False, D', P', q')"
    using step s \<open>\<not> fst step\<close> by (metis prod.collapse)
  then have ex: "\<exists>tg D P E Q. map_of distances = map_of D \<and> map_of D' = map_of E
      \<and> expand_edges tg node hops (neighbours adjacent node) (D, P, queue) = (False, E, Q, q')"
    by blast
  have sub: "set (map se_to (neighbours adjacent node)) \<subseteq> se_to ` adjacent_values adjacent"
    using neighbours_values [of adjacent node] by auto
  show "((adjacent, source, target, max_hops, snd step, truncated),
      (adjacent, source, target, max_hops, (distances, parents, node # queue), truncated))
    \<in> inv_image (less_than <*lex*> less_than)
    (\<lambda>(adjacent, source, target, max_hops, (distances, parents, queue), truncated).
       (card {m \<in> se_to ` adjacent_values adjacent. map_of distances m = None}, length queue))"
    using paths.expand_progress [OF ex _ sub] by (auto simp: s)
qed auto

definition shortest_path ::
    "string \<Rightarrow> string \<Rightarrow> u32 \<Rightarrow> semantic_edge list \<Rightarrow> (semantic_path option \<times> bool) option" where
  "shortest_path source target max_hops edges =
     (if source = target then Some (Some \<lparr>pth_nodes = [source], pth_edges = []\<rparr>, False)
      else path_loop (adjacency (\<lambda>e. (se_from e, e)) edges) source target max_hops
             ([(source, 0)], [], [source]) False)"

definition on_path :: "string \<Rightarrow> string \<Rightarrow> semantic_path option \<Rightarrow> graph_output \<Rightarrow> graph_output" where
  "on_path source target path output =
     (let path_nodes = (case path of None \<Rightarrow> {source, target} | Some p \<Rightarrow> set (pth_nodes p));
          path_edges = (case path of None \<Rightarrow> {} | Some p \<Rightarrow> set (pth_edges p))
      in \<lparr>go_nodes = filter (\<lambda>node. er_id node \<in> path_nodes) (go_nodes output),
          go_edges = filter (\<lambda>edge. se_id edge \<in> path_edges) (go_edges output)\<rparr>)"

definition trace_query ::
    "(string \<Rightarrow> evidence_payload option) \<Rightarrow> string \<Rightarrow> string \<Rightarrow> string \<Rightarrow> u32 \<Rightarrow> inspection_result \<Rightarrow> inspection_result
     \<Rightarrow> (string + trace_result) option" where
  "trace_query from_json view source target max_hops result entities =
     (case graph_of from_json result entities [source, target] of
        Inl e \<Rightarrow> Some (Inl e)
      | Inr output \<Rightarrow>
          map_option (\<lambda>(path, truncated).
            let found = on_path source target path output
            in Inr \<lparr>tr_schema = TRACE_SCHEMA_V2, tr_metadata = query_metadata_completed view 0,
                    tr_query = \<lparr>pq_from = source, pq_to = target\<rparr>,
                    tr_traversal = \<lparr>tm_max_hops = max_hops, tm_truncated = truncated\<rparr>,
                    tr_nodes = go_nodes found, tr_edges = go_edges found,
                    tr_paths = (case path of None \<Rightarrow> [] | Some p \<Rightarrow> [p])\<rparr>)
            (shortest_path source target max_hops (go_edges output)))"

section \<open>Correctness of the path search\<close>

text \<open>The parents of all visited nodes but the source: an edge from a node one hop nearer.\<close>

definition parents_ok ::
    "semantic_edge list \<Rightarrow> string \<Rightarrow> (string, u32) bmap \<Rightarrow> (string, string \<times> string) bmap \<Rightarrow> bool" where
  "parents_ok edges source D P \<longleftrightarrow>
     (\<forall>n k. map_of D n = Some k \<longrightarrow> n \<noteq> source \<longrightarrow>
        (\<exists>p e j. map_of P n = Some (p, se_id e) \<and> e \<in> set edges \<and> se_from e = p \<and> se_to e = n
           \<and> map_of D p = Some j \<and> k = j + 1))"

text \<open>A path of the graph: consecutive nodes are joined by the edge of the given id.\<close>

fun edge_path :: "semantic_edge list \<Rightarrow> string list \<Rightarrow> string list \<Rightarrow> bool" where
  "edge_path edges [n] [] = True"
| "edge_path edges (n # m # ns) (i # is) \<longleftrightarrow>
     (\<exists>e \<in> set edges. se_id e = i \<and> se_from e = n \<and> se_to e = m) \<and> edge_path edges (m # ns) is"
| "edge_path edges _ _ = False"

lemma edge_path_length: "edge_path edges ns is \<Longrightarrow> length ns = length is + 1"
  by (induction edges ns "is" rule: edge_path.induct) auto

lemma edge_path_hd: "edge_path edges ns is \<Longrightarrow> ns \<noteq> []"
  by (cases ns) auto

lemma parents_put:
  assumes "parents_ok edges source D P" "map_of D node = Some h" "e \<in> set edges" "se_from e = node"
    and "map_of D (se_to e) = None"
  shows "parents_ok edges source (bm_put (se_to e) (h + 1) D) (bm_put (se_to e) (node, se_id e) P)"
  unfolding parents_ok_def
proof (intro allI impI)
  fix n k
  assume n: "map_of (bm_put (se_to e) (h + 1) D) n = Some k" "n \<noteq> source"
  have keep: "map_of (bm_put (se_to e) (h + 1) D) p = Some j" if "map_of D p = Some j" for p j
    using that assms(5) by auto
  show "\<exists>p e' j. map_of (bm_put (se_to e) (node, se_id e) P) n = Some (p, se_id e') \<and> e' \<in> set edges
      \<and> se_from e' = p \<and> se_to e' = n \<and> map_of (bm_put (se_to e) (h + 1) D) p = Some j \<and> k = j + 1"
  proof (cases "n = se_to e")
    case True
    then have "k = h + 1" using n(1) by simp
    then show ?thesis
      using True assms(3,4) keep [OF assms(2)] by (intro exI [where x = node] exI [where x = e] exI [where x = h]) simp
  next
    case False
    then have "map_of D n = Some k" using n(1) by simp
    with assms(1) n(2) obtain p e' j where "map_of P n = Some (p, se_id e')" "e' \<in> set edges"
      "se_from e' = p" "se_to e' = n" "map_of D p = Some j" "k = j + 1"
      unfolding parents_ok_def by blast
    then show ?thesis using False keep by (intro exI [where x = p] exI [where x = e'] exI [where x = j]) simp
  qed
qed

lemma expand_edges_parents:
  assumes "expand_edges target node h es (D, P, q) = (found, D', P', q')"
    and "parents_ok edges source D P" "map_of D node = Some h" "map_of D source = Some 0"
    and "set es \<subseteq> set edges" "\<forall>e \<in> set es. se_from e = node"
  shows "parents_ok edges source D' P'" "map_of D' source = Some 0" "found \<Longrightarrow> map_of D' target = Some (h + 1)"
proof -
  have "parents_ok edges source D' P' \<and> map_of D' source = Some 0 \<and> (found \<longrightarrow> map_of D' target = Some (h + 1))"
    using assms
  proof (induction es arbitrary: D P q)
    case (Cons e es)
    show ?case
    proof (cases "map_of D (se_to e) = None")
      case True
      have p: "parents_ok edges source (bm_put (se_to e) (h + 1) D) (bm_put (se_to e) (node, se_id e) P)"
        using Cons.prems True by (intro parents_put) simp_all
      have "map_of (bm_put (se_to e) (h + 1) D) source = Some 0" "map_of (bm_put (se_to e) (h + 1) D) node = Some h"
        using Cons.prems(3,4) True by auto
      with Cons.IH [OF _ p] Cons.prems(1,5,6) p True show ?thesis
        by (auto simp: Let_def split: if_splits)
    next
      case False
      then have step: "expand_edges target node h es (D, P, q) = (found, D', P', q')" using Cons.prems(1) by simp
      show ?thesis by (rule Cons.IH [OF step Cons.prems(2-4)]) (use Cons.prems(5,6) in simp_all)
    qed
  qed simp
  then show "parents_ok edges source D' P'" "map_of D' source = Some 0" "found \<Longrightarrow> map_of D' target = Some (h + 1)"
    by simp_all
qed

lemma walk_back_path:
  assumes "parents_ok edges source D P" "map_of D source = Some 0" "map_of D n = Some k"
    and "n # rest = rev nodes" "edge_path edges (n # rest) (rev path_edges)"
  shows "\<exists>ns is. walk_back P source n nodes path_edges = Some (ns, is) \<and> edge_path edges (rev ns) (rev is)
    \<and> hd (rev ns) = source \<and> last (rev ns) = last (n # rest) \<and> length is = length path_edges + k"
  using assms(3-5)
proof (induction k arbitrary: n rest nodes path_edges)
  case 0
  have "n = source" using assms(1) 0(1) unfolding parents_ok_def by fastforce
  with 0 show ?case by (subst walk_back.simps) (simp flip: 0(2))
next
  case (Suc k)
  then have "n \<noteq> source" using assms(2) by auto
  with assms(1) Suc.prems(1) obtain p e where p: "map_of P n = Some (p, se_id e)" "e \<in> set edges"
    "se_from e = p" "se_to e = n" "map_of D p = Some k"
    unfolding parents_ok_def by fastforce
  have "edge_path edges (p # n # rest) (rev (path_edges @ [se_id e]))"
    using Suc.prems(3) p by auto
  moreover have "p # n # rest = rev (nodes @ [p])" using Suc.prems(2) by simp
  ultimately obtain ns "is" where "walk_back P source p (nodes @ [p]) (path_edges @ [se_id e]) = Some (ns, is)"
    "edge_path edges (rev ns) (rev is)" "hd (rev ns) = source" "last (rev ns) = last (p # n # rest)"
    "length is = length (path_edges @ [se_id e]) + k"
    using Suc.IH [OF p(5)] by blast
  with \<open>n \<noteq> source\<close> p(1) show ?case by (subst walk_back.simps) simp
qed


text \<open>What a path search owes: a shortest path within the bound, or the proof that there is none.\<close>

definition beyond :: "(string \<times> string) set \<Rightarrow> string \<Rightarrow> u32 \<Rightarrow> bool" where
  "beyond R source bound \<longleftrightarrow> (\<exists>n. (source, n) \<in> R\<^sup>* \<and> (\<forall>k \<le> bound. (source, n) \<notin> R ^^ k))"

definition path_result_ok ::
    "semantic_edge list \<Rightarrow> string \<Rightarrow> string \<Rightarrow> u32 \<Rightarrow> semantic_path option \<times> bool \<Rightarrow> bool" where
  "path_result_ok edges source target bound r \<longleftrightarrow>
     (case fst r of
        Some p \<Rightarrow>
          \<not> snd r \<and> edge_path edges (pth_nodes p) (pth_edges p)
          \<and> hd (pth_nodes p) = source \<and> last (pth_nodes p) = target \<and> length (pth_edges p) \<le> bound
          \<and> at_distance (direction_rel edges Outgoing) source target (length (pth_edges p))
      | None \<Rightarrow>
          (\<forall>k \<le> bound. (source, target) \<notin> direction_rel edges Outgoing ^^ k)
          \<and> (snd r \<longleftrightarrow> beyond (direction_rel edges Outgoing) source bound))"

lemma succ_rel_paths:
  "succ_rel (\<lambda>n. map se_to (neighbours (adjacency (\<lambda>e. (se_from e, e)) edges) n)) = direction_rel edges Outgoing"
proof -
  have "(a, b) \<in> succ_rel (\<lambda>n. map se_to (neighbours (adjacency (\<lambda>e. (se_from e, e)) edges) n))
    \<longleftrightarrow> (\<exists>e \<in> set edges. (se_from e, se_to e) = (a, b))" for a b
    by (auto simp: succ_rel_def neighbours_adjacency)
  then show ?thesis by (auto simp: direction_rel_def traversal_endpoints_def image_iff)
qed

lemma edge_path_rel:
  "edge_path edges ns is \<Longrightarrow> (hd ns, last ns) \<in> direction_rel edges Outgoing ^^ length is"
proof (induction edges ns "is" rule: edge_path.induct)
  case (2 edges n m ns i "is")
  then have "(n, m) \<in> direction_rel edges Outgoing"
    by (force simp: direction_rel_def traversal_endpoints_def)
  moreover have "(m, last (m # ns)) \<in> direction_rel edges Outgoing ^^ length is" using 2 by simp
  ultimately have "(n, last (m # ns)) \<in> direction_rel edges Outgoing ^^ Suc (length is)" by (rule relpow_Suc_I2)
  then show ?case by simp
qed auto

lemma path_loop_spec:
  assumes "adj = adjacency (\<lambda>e. (se_from e, e)) edges" "source \<noteq> target"
    and "bfs_inv (\<lambda>n. map se_to (neighbours adj n)) source bound (map_of D) q t"
    and "parents_ok edges source D P" "map_of D target = None"
  shows "\<exists>r. path_loop adj source target bound (D, P, q) t = Some r \<and> path_result_ok edges source target bound r"
  using assms
proof (induction adj source target bound "(D, P, q)" t arbitrary: D P q rule: path_loop.induct)
  case (1 adj source target bound D P t)
  note rel = succ_rel_paths [of edges]
  have "map_of D m = None \<longleftrightarrow> (\<forall>k \<le> bound. (source, m) \<notin> direction_rel edges Outgoing ^^ k)" for m
    using bfs_final_beyond [OF 1(3)] 1(1) rel by simp
  moreover have "t \<longleftrightarrow> (\<exists>m. (source, m) \<in> (direction_rel edges Outgoing)\<^sup>* \<and> map_of D m = None)"
    using bfs_final(2) [OF 1(3)] 1(1) rel by simp
  ultimately show ?case using 1(5) by (simp add: path_result_ok_def beyond_def)
next
  case (2 adj source target bound D P n q t)
  note inv = 2(5) and adj = 2(3)
  obtain h where h: "map_of D n = Some h" using bfs_invD(3) [OF inv] by auto
  have src: "map_of D source = Some 0" using bfs_invD(1) [OF inv] .
  show ?case
  proof (cases "h = bound")
    case True
    then have "bfs_inv (\<lambda>n. map se_to (neighbours adj n)) source bound (map_of D) q
        (t \<or> list_ex (\<lambda>edge. map_of D (se_to edge) = None) (neighbours adj n))"
      using bfs_bound [OF inv] h by (simp add: list_ex_iff)
    from 2(1) [OF h True adj 2(4) this 2(6,7)] show ?thesis using h True by simp
  next
    case False
    let ?es = "neighbours adj n"
    have es: "set ?es \<subseteq> set edges" "\<forall>e \<in> set ?es. se_from e = n"
      by (auto simp: adj neighbours_adjacency)
    obtain found D' P' q' where step: "expand_edges target n h ?es (D, P, q) = (found, D', P', q')"
      by (cases "expand_edges target n h ?es (D, P, q)") auto
    note par = expand_edges_parents [OF step 2(6) h src es]
    show ?thesis
    proof (cases found)
      case True
      note found = par(3) [OF True]
      have "\<exists>ns is. walk_back P' source target [target] [] = Some (ns, is) \<and> edge_path edges (rev ns) (rev is)
          \<and> hd (rev ns) = source \<and> last (rev ns) = last [target] \<and> length is = length ([] :: string list) + (h + 1)"
        using found by (intro walk_back_path [OF par(1,2), where rest = "[]"]) simp_all
      then obtain ns "is" where walk: "walk_back P' source target [target] [] = Some (ns, is)"
        and p: "edge_path edges (rev ns) (rev is)" "hd (rev ns) = source" "last (rev ns) = target" "length is = h + 1"
        by auto
      have "(source, target) \<notin> direction_rel edges Outgoing ^^ j" if "j < h + 1" for j
        using bfs_within [OF inv h, of target j] that 2(7) adj succ_rel_paths [of edges] by auto
      moreover have "(source, target) \<in> direction_rel edges Outgoing ^^ (h + 1)"
        using edge_path_rel [OF p(1)] p by simp
      ultimately have "at_distance (direction_rel edges Outgoing) source target (h + 1)"
        by (simp add: at_distance_def)
      moreover have "h + 1 \<le> bound" using bfs_invD(5) [OF inv h] False by simp
      ultimately have "path_result_ok edges source target bound (Some \<lparr>pth_nodes = rev ns, pth_edges = rev is\<rparr>, False)"
        using p by (simp add: path_result_ok_def)
      then show ?thesis using h False step True walk by (simp add: Let_def)
    next
      case notfound: False
      then have step': "expand_edges target n h ?es (D, P, q) = (False, D', P', q')" using step by simp
      have "\<exists>tg E Q E' Q'. map_of D = map_of E \<and> map_of D' = map_of E'
          \<and> expand_edges tg n h ?es (E, Q, q) = (False, E', Q', q')" using step' by blast
      from paths.expand_inv [OF inv h False this]
      have inv': "bfs_inv (\<lambda>n. map se_to (neighbours adj n)) source bound (map_of D') q' t" .
      have "map_of D' target = None" using expand_edges_nodes [OF step'] 2(7) by blast
      from 2(2) [OF h False refl _ _ adj 2(4) inv' par(1) this] step'
      show ?thesis using h False by (simp add: Let_def)
    qed
  qed
qed

lemma shortest_path_spec:
  "\<exists>r. shortest_path source target bound edges = Some r \<and> path_result_ok edges source target bound r"
proof (cases "source = target")
  case True
  then show ?thesis by (simp add: shortest_path_def path_result_ok_def at_distance_def)
next
  case False
  let ?adj = "adjacency (\<lambda>e. (se_from e, e)) edges"
  have "bfs_inv (\<lambda>n. map se_to (neighbours ?adj n)) source bound (map_of [(source, 0)]) [source] False"
    using bfs_init by (simp add: fun_upd_def)
  moreover have "parents_ok edges source [(source, 0)] []" by (simp add: parents_ok_def)
  moreover have "map_of [(source, 0)] target = None" using False by simp
  ultimately have "\<exists>r. path_loop ?adj source target bound ([(source, 0)], [], [source]) False = Some r
      \<and> path_result_ok edges source target bound r"
    by (rule path_loop_spec [OF refl False])
  then show ?thesis using False by (simp only: shortest_path_def if_False)
qed

section \<open>Results of the queries\<close>

lemma within_bound_iff:
  assumes "\<And>n k. map_of D n = Some k \<longleftrightarrow> k \<le> bound \<and> at_distance R source n k"
  shows "map_of D n \<noteq> None \<longleftrightarrow> (\<exists>k \<le> bound. (source, n) \<in> R ^^ k)"
proof
  assume "map_of D n \<noteq> None"
  then show "\<exists>k \<le> bound. (source, n) \<in> R ^^ k" using assms by (auto simp: at_distance_def)
next
  assume "\<exists>k \<le> bound. (source, n) \<in> R ^^ k"
  then obtain j where "j \<le> bound" "at_distance R source n j" using at_distance_ex by (meson le_trans)
  then show "map_of D n \<noteq> None" using assms by fastforce
qed

text \<open>The part of a graph within a number of hops.\<close>

definition within_hops :: "(string \<times> string) set \<Rightarrow> string \<Rightarrow> u32 \<Rightarrow> string \<Rightarrow> bool" where
  "within_hops R source bound n \<longleftrightarrow> (\<exists>k \<le> bound. (source, n) \<in> R ^^ k)"

lemma closure_of_spec:
  fixes direction :: traversal_direction
  assumes "graph_of from_json result entities [source] = Inr out"
  defines "R \<equiv> direction_rel (go_edges out) direction"
  shows "\<exists>es o' t. closure_of from_json result entities source bound direction = Some (Inr (es, o', t))
    \<and> sorted_wrt (\<lambda>a b. (snd a, fst a) < (snd b, fst b)) es
    \<and> (\<forall>n k. (n, k) \<in> set es \<longleftrightarrow> n \<noteq> source \<and> k \<le> bound \<and> at_distance R source n k)
    \<and> (t \<longleftrightarrow> beyond R source bound)
    \<and> go_nodes o' = filter (\<lambda>n. within_hops R source bound (er_id n)) (go_nodes out)
    \<and> go_edges o' = filter (\<lambda>e. within_hops R source bound (se_from e) \<and> within_hops R source bound (se_to e)) (go_edges out)
    \<and> output_entity o' source \<in> set (go_nodes o') \<and> er_id (output_entity o' source) = source"
proof -
  obtain D t where D: "distances_from source (go_edges out) bound direction = Some (D, t)" "bm_wf D"
    and dist: "\<And>n k. map_of D n = Some k \<longleftrightarrow> k \<le> bound \<and> at_distance R source n k"
    and t: "t \<longleftrightarrow> (\<exists>n. (source, n) \<in> R\<^sup>* \<and> map_of D n = None)"
    using distances_from_spec [of source "go_edges out" bound direction] unfolding R_def by blast
  note known = within_bound_iff [OF dist]
  let ?es = "sort_key (\<lambda>(entity, hops). (hops, entity)) (filter (\<lambda>(entity, _). entity \<noteq> source) D)"
  have close: "closure_of from_json result entities source bound direction = Some (Inr (?es, within_graph D out, t))"
    using assms(1) D(1) by (simp add: closure_of_def)
  have "distinct (filter (\<lambda>(entity, _). entity \<noteq> source) D)"
    using bm_wf_distinct [OF D(2)] by (auto simp: distinct_map)
  then have dist_keys: "distinct (map (\<lambda>(entity, hops). (hops, entity)) (filter (\<lambda>(entity, _). entity \<noteq> source) D))"
    by (auto simp: distinct_map inj_on_def)
  then have "sorted_wrt (\<lambda>x y. (case x of (e, h) \<Rightarrow> (h, e)) < (case y of (e, h) \<Rightarrow> (h, e))) ?es"
    using take_sorted_prefix(1) [OF dist_keys, of "length ?es"] by simp
  then have sorted: "sorted_wrt (\<lambda>a b. (snd a, fst a) < (snd b, fst b)) ?es"
    by (simp add: case_prod_beta)
  have entries: "(n, k) \<in> set ?es \<longleftrightarrow> n \<noteq> source \<and> k \<le> bound \<and> at_distance R source n k" for n k
    using bm_wf_in_iff [OF D(2), of n k] dist by auto
  have trunc: "t \<longleftrightarrow> beyond R source bound"
    unfolding t beyond_def using known by blast
  obtain facts where "graph_spec from_json facts (set [source]) (decoded_requests closure_request (iq_rows result)) out"
    using query_graph_spec [OF assms(1)] by blast
  then have "source \<in> er_id ` set (go_nodes out)" using graph_specD(2) by fastforce
  moreover have "map_of D source \<noteq> None"
    unfolding known by (intro exI [where x = 0]) simp
  ultimately have "source \<in> er_id ` set (go_nodes (within_graph D out))"
    by (auto simp: within_graph_def simp del: not_None_eq)
  then have root: "output_entity (within_graph D out) source \<in> set (go_nodes (within_graph D out))
      \<and> er_id (output_entity (within_graph D out) source) = source"
    by (rule output_entity_spec)
  have nodes: "go_nodes (within_graph D out) = filter (\<lambda>n. within_hops R source bound (er_id n)) (go_nodes out)"
    by (simp only: within_graph_def known within_hops_def graph_output.simps)
  have edges: "go_edges (within_graph D out) =
      filter (\<lambda>e. within_hops R source bound (se_from e) \<and> within_hops R source bound (se_to e)) (go_edges out)"
    by (simp only: within_graph_def known within_hops_def graph_output.simps)
  show ?thesis
    using close sorted entries trunc nodes edges root
    by (intro exI [where x = ?es] exI [where x = "within_graph D out"] exI [where x = t]) blast
qed

lemma on_path_nodes:
  assumes "graph_spec fj facts {source, target} rqs out"
    and "\<And>p. path = Some p \<Longrightarrow> edge_path (go_edges out) (pth_nodes p) (pth_edges p) \<and> hd (pth_nodes p) = source"
  shows "er_id ` set (go_nodes (on_path source target path out)) =
    (case path of None \<Rightarrow> {source, target} | Some p \<Rightarrow> set (pth_nodes p))"
proof -
  have ids: "{source, target} \<subseteq> er_id ` set (go_nodes out)"
    using graph_specD(2) [OF assms(1)] by blast
  have path_ids: "set ns \<subseteq> insert (hd ns) (er_id ` set (go_nodes out))" if "edge_path (go_edges out) ns is" for ns "is"
    using that
  proof (induction "go_edges out" ns "is" rule: edge_path.induct)
    case (2 n m ns i "is")
    then obtain e where "e \<in> set (go_edges out)" "se_to e = m" by auto
    then have "m \<in> er_id ` set (go_nodes out)" using graph_spec_ends [OF assms(1)] by blast
    with 2 show ?case by auto
  qed auto
  show ?thesis
  proof (cases path)
    case None
    then show ?thesis using ids by (auto simp: on_path_def)
  next
    case (Some p)
    then have "set (pth_nodes p) \<subseteq> er_id ` set (go_nodes out)"
      using path_ids assms(2) ids by fastforce
    then show ?thesis using Some by (auto simp: on_path_def)
  qed
qed

lemma graph_of_total:
  assumes "entity_kinds entities = Inr facts" "list_all (request_ok closure_request) (iq_rows result)"
  shows "\<exists>out. graph_of from_json result entities roots = Inr out"
proof -
  obtain g where "add_rows from_json closure_request (iq_rows result)
      (fold (\<lambda>root. hint root (infer_kind root)) roots (hint_facts facts graph_builder_default)) = Inr g"
    using add_rows_total [OF assms(2)] by blast
  with assms(1) show ?thesis by (simp add: graph_of_def)
qed

section \<open>Properties\<close>

text \<open>
  C27. The distance search always terminates without a panic, in either direction; it finds exactly
  the entities within the bound, each with the length of a shortest path, and reports truncation
  exactly when some reachable entity is beyond the bound.
\<close>

theorem distances_exact:
  "\<exists>D t. distances_from source edges bound direction = Some (D, t) \<and> bm_wf D
    \<and> (\<forall>n k. map_of D n = Some k \<longleftrightarrow> k \<le> bound \<and> at_distance (direction_rel edges direction) source n k)
    \<and> (t \<longleftrightarrow> beyond (direction_rel edges direction) source bound)"
proof -
  obtain D t where D: "distances_from source edges bound direction = Some (D, t)" "bm_wf D"
    and dist: "\<And>n k. map_of D n = Some k \<longleftrightarrow> k \<le> bound \<and> at_distance (direction_rel edges direction) source n k"
    and t: "t \<longleftrightarrow> (\<exists>n. (source, n) \<in> (direction_rel edges direction)\<^sup>* \<and> map_of D n = None)"
    using distances_from_spec [of source edges bound direction] by blast
  have "t \<longleftrightarrow> beyond (direction_rel edges direction) source bound"
    unfolding t beyond_def using within_bound_iff [OF dist] by blast
  with D dist show ?thesis by blast
qed

text \<open>
  C28. The path search always terminates without a panic. A path it returns leads from the source
  to the target over edges of the graph, is within the bound and as short as any; without a path
  there is none within the bound, and truncation is reported exactly when the graph goes on beyond.
\<close>

theorem shortest_path_exact:
  "\<exists>r. shortest_path source target bound edges = Some r \<and> path_result_ok edges source target bound r"
  by (rule shortest_path_spec)

text \<open>
  C29. The impact of an entity is exact: the affected entities, in the order of their distance and
  then id, are those that reach it within the bound along reversed edges (implementations of a gRPC
  method count forwards), with shortest hop counts; nodes and edges are those within the bound; the
  root is the entity itself.
\<close>

theorem impact_exact:
  assumes "graph_of from_json result entities [entity] = Inr out"
  shows "\<exists>r. impact_query from_json view entity bound result entities = Some (Inr r)
    \<and> sorted_wrt (\<lambda>a b. (ir_hops a, ir_entity a) < (ir_hops b, ir_entity b)) (im_affected r)
    \<and> (\<forall>n k. \<lparr>ir_entity = n, ir_hops = k\<rparr> \<in> set (im_affected r) \<longleftrightarrow>
         n \<noteq> entity \<and> k \<le> bound \<and> at_distance (direction_rel (go_edges out) Incoming) entity n k)
    \<and> (tm_truncated (im_traversal r) \<longleftrightarrow> beyond (direction_rel (go_edges out) Incoming) entity bound)
    \<and> im_nodes r = filter (\<lambda>n. within_hops (direction_rel (go_edges out) Incoming) entity bound (er_id n)) (go_nodes out)
    \<and> im_root r \<in> set (im_nodes r) \<and> er_id (im_root r) = entity"
proof -
  obtain es o' t where c: "closure_of from_json result entities entity bound Incoming = Some (Inr (es, o', t))"
    and spec: "sorted_wrt (\<lambda>a b. (snd a, fst a) < (snd b, fst b)) es"
      "\<forall>n k. (n, k) \<in> set es \<longleftrightarrow> n \<noteq> entity \<and> k \<le> bound \<and> at_distance (direction_rel (go_edges out) Incoming) entity n k"
      "t \<longleftrightarrow> beyond (direction_rel (go_edges out) Incoming) entity bound"
      "go_nodes o' = filter (\<lambda>n. within_hops (direction_rel (go_edges out) Incoming) entity bound (er_id n)) (go_nodes out)"
      "output_entity o' entity \<in> set (go_nodes o')" "er_id (output_entity o' entity) = entity"
    using closure_of_spec [OF assms, of bound Incoming] by blast
  have "\<lparr>ir_entity = n, ir_hops = k\<rparr> \<in> set (map (\<lambda>(entity, hops). \<lparr>ir_entity = entity, ir_hops = hops\<rparr>) es) \<longleftrightarrow> (n, k) \<in> set es" for n k
    by force
  moreover have "sorted_wrt (\<lambda>a b. (ir_hops a, ir_entity a) < (ir_hops b, ir_entity b))
      (map (\<lambda>(entity, hops). \<lparr>ir_entity = entity, ir_hops = hops\<rparr>) es)"
    using spec(1) by (simp add: sorted_wrt_map case_prod_beta)
  ultimately show ?thesis
    using c spec(2-) by (simp add: impact_query_def)
qed

theorem impact_exact_witness:
  "\<exists>r. impact_query (\<lambda>_. None) ''w'' ''a'' 3 example_rows example_entities = Some (Inr r)
    \<and> er_id (im_root r) = ''a''"
  using impact_exact [OF example_output_eq] by blast

text \<open>
  The dependencies of an entity are exact in the same way, along the edges as they are.
\<close>

theorem dependencies_exact:
  assumes "graph_of from_json result entities [entity] = Inr out"
  shows "\<exists>r. dependencies_query from_json view entity bound result entities = Some (Inr r)
    \<and> sorted_wrt (\<lambda>a b. (dr_hops a, dr_entity a) < (dr_hops b, dr_entity b)) (ds_dependencies r)
    \<and> (\<forall>n k. \<lparr>dr_entity = n, dr_hops = k\<rparr> \<in> set (ds_dependencies r) \<longleftrightarrow>
         n \<noteq> entity \<and> k \<le> bound \<and> at_distance {(se_from e, se_to e) | e. e \<in> set (go_edges out)} entity n k)
    \<and> (tm_truncated (ds_traversal r) \<longleftrightarrow> beyond {(se_from e, se_to e) | e. e \<in> set (go_edges out)} entity bound)
    \<and> ds_edges r = filter (\<lambda>e.
         within_hops {(se_from e, se_to e) | e. e \<in> set (go_edges out)} entity bound (se_from e)
         \<and> within_hops {(se_from e, se_to e) | e. e \<in> set (go_edges out)} entity bound (se_to e)) (go_edges out)
    \<and> ds_root r \<in> set (ds_nodes r) \<and> er_id (ds_root r) = entity"
proof -
  have R: "direction_rel (go_edges out) Outgoing = {(se_from e, se_to e) | e. e \<in> set (go_edges out)}"
    by (auto simp: direction_rel_def traversal_endpoints_def)
  obtain es o' t where c: "closure_of from_json result entities entity bound Outgoing = Some (Inr (es, o', t))"
    and spec: "sorted_wrt (\<lambda>a b. (snd a, fst a) < (snd b, fst b)) es"
      "\<forall>n k. (n, k) \<in> set es \<longleftrightarrow> n \<noteq> entity \<and> k \<le> bound \<and> at_distance (direction_rel (go_edges out) Outgoing) entity n k"
      "t \<longleftrightarrow> beyond (direction_rel (go_edges out) Outgoing) entity bound"
      "go_edges o' = filter (\<lambda>e. within_hops (direction_rel (go_edges out) Outgoing) entity bound (se_from e)
         \<and> within_hops (direction_rel (go_edges out) Outgoing) entity bound (se_to e)) (go_edges out)"
      "output_entity o' entity \<in> set (go_nodes o')" "er_id (output_entity o' entity) = entity"
    using closure_of_spec [OF assms, of bound Outgoing] by blast
  have "\<lparr>dr_entity = n, dr_hops = k\<rparr> \<in> set (map (\<lambda>(entity, hops). \<lparr>dr_entity = entity, dr_hops = hops\<rparr>) es) \<longleftrightarrow> (n, k) \<in> set es" for n k
    by force
  moreover have "sorted_wrt (\<lambda>a b. (dr_hops a, dr_entity a) < (dr_hops b, dr_entity b))
      (map (\<lambda>(entity, hops). \<lparr>dr_entity = entity, dr_hops = hops\<rparr>) es)"
    using spec(1) by (simp add: sorted_wrt_map case_prod_beta)
  ultimately show ?thesis
    using c spec(2-) by (simp add: dependencies_query_def flip: R)
qed

theorem dependencies_exact_witness:
  "\<exists>r. dependencies_query (\<lambda>_. None) ''w'' ''a'' 3 example_rows example_entities = Some (Inr r)
    \<and> er_id (ds_root r) = ''a''"
  using dependencies_exact [OF example_output_eq] by blast

text \<open>
  A trace returns at most one path, a shortest one of the query graph, and exactly the nodes
  on it (the two ends when there is no path) and edges of it.
\<close>

theorem trace_exact:
  assumes "graph_of from_json result entities [source, target] = Inr out"
  shows "\<exists>r path. trace_query from_json view source target bound result entities = Some (Inr r)
    \<and> tr_paths r = (case path of None \<Rightarrow> [] | Some p \<Rightarrow> [p])
    \<and> path_result_ok (go_edges out) source target bound (path, tm_truncated (tr_traversal r))
    \<and> er_id ` set (tr_nodes r) = (case path of None \<Rightarrow> {source, target} | Some p \<Rightarrow> set (pth_nodes p))
    \<and> tr_edges r = filter (\<lambda>e. se_id e \<in> (case path of None \<Rightarrow> {} | Some p \<Rightarrow> set (pth_edges p))) (go_edges out)"
proof -
  obtain path t where sp: "shortest_path source target bound (go_edges out) = Some (path, t)"
    and ok: "path_result_ok (go_edges out) source target bound (path, t)"
    using shortest_path_spec [of source target bound "go_edges out"] by auto
  obtain facts where spec: "graph_spec from_json facts {source, target} (decoded_requests closure_request (iq_rows result)) out"
    using query_graph_spec [OF assms] by auto
  have "edge_path (go_edges out) (pth_nodes p) (pth_edges p) \<and> hd (pth_nodes p) = source" if "path = Some p" for p
    using ok that by (simp add: path_result_ok_def)
  note nodes = on_path_nodes [OF spec this]
  let ?found = "on_path source target path out"
  let ?r = "\<lparr>tr_schema = TRACE_SCHEMA_V2, tr_metadata = query_metadata_completed view 0,
     tr_query = \<lparr>pq_from = source, pq_to = target\<rparr>,
     tr_traversal = \<lparr>tm_max_hops = bound, tm_truncated = t\<rparr>,
     tr_nodes = go_nodes ?found, tr_edges = go_edges ?found,
     tr_paths = (case path of None \<Rightarrow> [] | Some p \<Rightarrow> [p])\<rparr>"
  have "trace_query from_json view source target bound result entities = Some (Inr ?r)"
    using assms sp by (simp add: trace_query_def Let_def)
  moreover have "tr_edges ?r = filter (\<lambda>e. se_id e \<in> (case path of None \<Rightarrow> {} | Some p \<Rightarrow> set (pth_edges p))) (go_edges out)"
    by (simp add: on_path_def Let_def)
  ultimately show ?thesis using ok nodes by (intro exI [where x = ?r] exI [where x = path]) simp
qed

theorem trace_exact_witness:
  "\<exists>r. trace_query (\<lambda>_. None) ''w'' ''a'' ''c'' 3 example_rows example_entities = Some (Inr r) \<and> length (tr_paths r) \<le> 1"
proof -
  have "list_all (request_ok closure_request) (iq_rows example_rows)" by code_simp
  then obtain out where "graph_of (\<lambda>_. None) example_rows example_entities [''a'', ''c''] = Inr out"
    using graph_of_total [OF example_entities_facts] by blast
  from trace_exact [OF this, of "''w''" 3] show ?thesis by (auto split: option.splits)
qed

end
