(* ===== verification/Graph_Traversal.thy ===== *)
theory Graph_Traversal imports Graph_Distance begin

text \<open>
  \<open>crates/adapters-mnestic/src/semantic.rs\<close>, third part: the bounded enumeration of paths. The
  borrowed fields of \<open>PathSearch\<close> are a \<open>search_context\<close>, the fields it updates a \<open>search_state\<close>.
  The mutated vectors \<open>nodes\<close> and \<open>edges\<close> are arguments; they are never empty at a visit. The code's
  one recursive function is the definitions \<open>arrive\<close> (up to the boundary), \<open>expand\<close> (up to the
  loop), \<open>visit\<close> and \<open>visit_loop\<close>.
\<close>

section \<open>The search\<close>

record search_context =
  sx_query :: traverse_graph_query
  sx_adjacent :: "(string, (string \<times> string) list) bmap"
  sx_incomplete :: "string bset"
  sx_repository_boundaries :: "string bset"
  sx_target_reachability :: "(string, string bset) bmap"

record search_state =
  ss_paths :: "traversal_path list"
  ss_reasons :: "truncation_reason bset"
  ss_steps :: u32

definition add_reason :: "truncation_reason \<Rightarrow> search_state \<Rightarrow> search_state" where
  "add_reason reason st = st\<lparr>ss_reasons := bs_insert reason (ss_reasons st)\<rparr>"

definition add_steps :: "nat \<Rightarrow> search_state \<Rightarrow> search_state" where
  "add_steps n st = st\<lparr>ss_steps := ss_steps st + n\<rparr>"

definition search_stopped :: "search_state \<Rightarrow> bool" where
  "search_stopped st \<longleftrightarrow> TrMaxPaths \<in> set (ss_reasons st) \<or> TrWorkLimit \<in> set (ss_reasons st)"

definition repository_state_of :: "search_context \<Rightarrow> string list \<Rightarrow> string bset \<times> string option" where
  "repository_state_of ctx nodes =
     (let targets = bs_of_list (tq_target_repositories (sx_query ctx))
      in fold (\<lambda>node (visited, completion).
           case target_repository node targets of
             None \<Rightarrow> (visited, completion)
           | Some repository \<Rightarrow>
               let visited = bs_insert repository visited
               in (visited, if completion = None \<and> visited = targets then Some repository else completion))
         nodes ([], None))"

definition can_follow :: "search_context \<Rightarrow> string list \<Rightarrow> string \<Rightarrow> bool" where
  "can_follow ctx nodes next_node =
     (if tq_target_repositories (sx_query ctx) = [] then True
      else let targets = bs_of_list (tq_target_repositories (sx_query ctx));
               (visited, completion) = repository_state_of ctx nodes
           in case completion of
                Some repository \<Rightarrow>
                  \<not> starts_with next_node ''repo://'' \<or> target_repository next_node targets = Some repository
              | None \<Rightarrow>
                  let visited = (case target_repository next_node targets of None \<Rightarrow> visited | Some owner \<Rightarrow> bs_insert owner visited);
                      missing = filter (\<lambda>t. t \<notin> set visited) targets
                  in missing = []
                     \<or> (case map_of (sx_target_reachability ctx) next_node of
                          None \<Rightarrow> False
                        | Some reachable \<Rightarrow> list_all (\<lambda>t. t \<in> set reachable) missing))"

definition emit :: "search_context \<Rightarrow> string list \<Rightarrow> string list \<Rightarrow> path_termination \<Rightarrow> search_state \<Rightarrow> search_state" where
  "emit ctx nodes edges termination st =
     (if length (ss_paths st) = tq_max_paths (sx_query ctx) then add_reason TrMaxPaths st
      else st\<lparr>ss_paths := ss_paths st @ [\<lparr>tp_nodes = nodes, tp_edges = edges, tp_termination = termination\<rparr>]\<rparr>)"

definition completed :: "search_context \<Rightarrow> string list \<Rightarrow> bool" where
  "completed ctx nodes \<longleftrightarrow> snd (repository_state_of ctx nodes) \<noteq> None"

definition boundary_reached :: "search_context \<Rightarrow> string list \<Rightarrow> bool" where
  "boundary_reached ctx nodes \<longleftrightarrow>
     completed ctx nodes \<and> last nodes \<in> set (sx_repository_boundaries ctx) \<and> last nodes \<notin> set (sx_incomplete ctx)"

definition followable :: "search_context \<Rightarrow> string list \<Rightarrow> (string \<times> string) list" where
  "followable ctx nodes =
     filter (\<lambda>(to, _). can_follow ctx nodes to) (neighbours (sx_adjacent ctx) (last nodes))"

definition has_extension :: "search_context \<Rightarrow> string list \<Rightarrow> bool" where
  "has_extension ctx nodes = list_ex (\<lambda>(to, _). to \<notin> set nodes) (followable ctx nodes)"

definition open_ended :: "search_context \<Rightarrow> string list \<Rightarrow> bool" where
  "open_ended ctx nodes \<longleftrightarrow>
     tq_destination (sx_query ctx) = None
     \<and> (tq_target_repositories (sx_query ctx) = [] \<or> completed ctx nodes)"

definition expand ::
    "search_context \<Rightarrow> string list \<Rightarrow> string list \<Rightarrow> search_state \<Rightarrow> search_state \<times> (string \<times> string) list option" where
  "expand ctx nodes edges st =
     (let node = last nodes;
          emitted_boundary = boundary_reached ctx nodes;
          st = (if emitted_boundary then emit ctx nodes edges RepositoryBoundary st else st) in
      if emitted_boundary \<and> TrMaxPaths \<in> set (ss_reasons st) then (st, None)
      else
        let ns = followable ctx nodes in
        if length ns > MAX_TRAVERSAL_STEPS - ss_steps st then (add_reason TrWorkLimit st, None)
        else
          let st = add_steps (length ns) st in
          if \<not> has_extension ctx nodes
          then (if open_ended ctx nodes \<and> node \<notin> set (sx_incomplete ctx) \<and> \<not> emitted_boundary
                then emit ctx nodes edges (if ns = [] then Leaf else Cycle) st else st, None)
          else if length edges = tq_max_hops (sx_query ctx)
          then (let st = add_reason TrMaxHops st
                in if open_ended ctx nodes then emit ctx nodes edges MaxHops st else st, None)
          else (st, Some ns))"

definition arrive ::
    "search_context \<Rightarrow> string list \<Rightarrow> string list \<Rightarrow> search_state \<Rightarrow> search_state \<times> (string \<times> string) list option" where
  "arrive ctx nodes edges st =
     (if search_stopped st then (st, None)
      else if ss_steps st = MAX_TRAVERSAL_STEPS then (add_reason TrWorkLimit st, None)
      else
        let st = add_steps 1 st; node = last nodes in
        if tq_destination (sx_query ctx) = Some node then (emit ctx nodes edges Destination st, None)
        else if completed ctx nodes \<and> \<not> starts_with node ''repo://''
        then (if node \<notin> set (sx_incomplete ctx) then emit ctx nodes edges RepositoryBoundary st else st, None)
        else expand ctx nodes edges st)"

lemma arrive_Some:
  "snd (arrive ctx nodes edges st) = Some ns \<Longrightarrow>
     ns = followable ctx nodes \<and> set (map fst ns) \<subseteq> fst ` adjacent_values (sx_adjacent ctx)"
  using neighbours_values [of "sx_adjacent ctx" "last nodes"]
  by (auto simp: arrive_def expand_def Let_def followable_def split: if_splits)

definition unvisited :: "search_context \<Rightarrow> string list \<Rightarrow> (string \<times> string) list \<Rightarrow> nat" where
  "unvisited ctx nodes ns = card ((fst ` adjacent_values (sx_adjacent ctx) \<union> fst ` set ns) - set nodes)"

lemma unvisited_less: "to \<notin> set nodes \<Longrightarrow> unvisited ctx (nodes @ [to]) [] < unvisited ctx nodes ((to, edge) # ns)"
  unfolding unvisited_def by (intro psubset_card_mono) auto

lemma unvisited_tl: "unvisited ctx nodes ns \<le> unvisited ctx nodes (x # ns)"
  unfolding unvisited_def by (intro card_mono) auto

lemma unvisited_arrive: "snd (arrive ctx nodes edges st) = Some ns \<Longrightarrow> unvisited ctx nodes ns = unvisited ctx nodes []"
  using arrive_Some [of ctx nodes edges st ns] unfolding unvisited_def set_map
  by (simp only: Un_absorb2 list.set image_empty Un_empty_right)

lemma unvisited_arrive_eq: "(st', Some ns) = arrive ctx nodes edges st \<Longrightarrow> unvisited ctx nodes ns = unvisited ctx nodes []"
  by (metis unvisited_arrive snd_conv)

function visit :: "search_context \<Rightarrow> string list \<Rightarrow> string list \<Rightarrow> search_state \<Rightarrow> search_state"
  and visit_loop :: "search_context \<Rightarrow> string list \<Rightarrow> string list \<Rightarrow> (string \<times> string) list \<Rightarrow> search_state \<Rightarrow> search_state"
where
  "visit ctx nodes edges st =
     (case arrive ctx nodes edges st of
        (st, None) \<Rightarrow> st
      | (st, Some ns) \<Rightarrow> visit_loop ctx nodes edges ns st)"
| "visit_loop ctx nodes edges [] st = st"
| "visit_loop ctx nodes edges ((to, edge) # ns) st =
     (if ss_steps st = MAX_TRAVERSAL_STEPS then add_reason TrWorkLimit st
      else if to \<in> set nodes then visit_loop ctx nodes edges ns (add_steps 1 st)
      else let st = visit ctx (nodes @ [to]) (edges @ [edge]) (add_steps 1 st)
           in if search_stopped st then st else visit_loop ctx nodes edges ns st)"
  by pat_completeness auto

termination
proof (relation "inv_image (less_than <*lex*> less_than <*lex*> less_than)
    (\<lambda>x. case x of
       Inl (ctx, nodes, edges, st) \<Rightarrow> (unvisited ctx nodes [], Suc 0, 0)
     | Inr (ctx, nodes, edges, ns, st) \<Rightarrow> (unvisited ctx nodes ns, 0, length ns))")
qed (auto simp: unvisited_less unvisited_tl le_neq_implies_less le_imp_less_or_eq [OF unvisited_tl]
    dest!: unvisited_arrive_eq)

declare visit.simps [simp del]

definition search_context_of ::
    "traverse_graph_query \<Rightarrow> semantic_edge list \<Rightarrow> string bset \<Rightarrow> string bset \<Rightarrow> (string, string bset) bmap \<Rightarrow> search_context" where
  "search_context_of query edges incomplete boundaries reachability =
     (let direction = (case tq_direction query of Dependencies \<Rightarrow> Outgoing | Dependents \<Rightarrow> Incoming)
      in \<lparr>sx_query = query,
          sx_adjacent = bm_map sort (adjacency (\<lambda>e. let (source, to) = traversal_endpoints e direction in (source, (to, se_id e))) edges),
          sx_incomplete = incomplete, sx_repository_boundaries = boundaries,
          sx_target_reachability = reachability\<rparr>)"

definition initial_state :: "string bset \<Rightarrow> search_state" where
  "initial_state incomplete =
     \<lparr>ss_paths = [], ss_reasons = (if incomplete \<noteq> [] then bs_insert TrAcquisitionLimit [] else []), ss_steps = 0\<rparr>"

definition path_search ::
    "traverse_graph_query \<Rightarrow> semantic_edge list \<Rightarrow> string bset \<Rightarrow> string bset \<Rightarrow> (string, string bset) bmap \<Rightarrow> search_state" where
  "path_search query edges incomplete boundaries reachability =
     visit (search_context_of query edges incomplete boundaries reachability) [tq_start query] [] (initial_state incomplete)"

definition traverse_graph ::
    "(string \<Rightarrow> evidence_payload option) \<Rightarrow> string \<Rightarrow> traverse_graph_query \<Rightarrow> inspection_result \<Rightarrow> inspection_result
     \<Rightarrow> string bset \<Rightarrow> string bset \<Rightarrow> (string, string bset) bmap \<Rightarrow> string + traverse_graph_result" where
  "traverse_graph from_json view query result entities incomplete boundaries reachability =
     rbind (graph_of from_json result entities [tq_start query]) (\<lambda>output.
       let st = path_search query (go_edges output) incomplete boundaries reachability;
           nodes = insert (tq_start query) (\<Union>p \<in> set (ss_paths st). set (tp_nodes p))
       in Inr \<lparr>tg_schema = TRAVERSE_GRAPH_SCHEMA_V2, tg_metadata = query_metadata_completed view 0,
               tg_query = query,
               tg_nodes = filter (\<lambda>node. er_id node \<in> nodes) (go_nodes output),
               tg_edges = filter (\<lambda>edge. se_from edge \<in> nodes \<and> se_to edge \<in> nodes) (go_edges output),
               tg_paths = ss_paths st,
               tg_traversal =
                 \<lparr>gm_max_hops = tq_max_hops query, gm_max_paths = tq_max_paths query,
                  gm_max_rows = MAX_TRAVERSAL_ROWS, gm_max_steps = MAX_TRAVERSAL_STEPS,
                  gm_acquisition_timeout_ms = TRAVERSAL_ACQUISITION_TIMEOUT_MS,
                  gm_truncated = (ss_reasons st \<noteq> []), gm_truncation_reasons = ss_reasons st\<rparr>\<rparr>)"

section \<open>The tree of paths\<close>

text \<open>
  What a visit reports and where it goes on, without the limits on work and paths; \<open>walk\<close> is the
  tree of visits, and \<open>tree_paths\<close> are the reports of all of them.
\<close>

definition reports :: "search_context \<Rightarrow> string list \<Rightarrow> string list \<Rightarrow> path_termination list" where
  "reports ctx nodes edges =
     (if tq_destination (sx_query ctx) = Some (last nodes) then [Destination]
      else if completed ctx nodes \<and> \<not> starts_with (last nodes) ''repo://''
      then (if last nodes \<notin> set (sx_incomplete ctx) then [RepositoryBoundary] else [])
      else (if boundary_reached ctx nodes then [RepositoryBoundary] else [])
           @ (if \<not> has_extension ctx nodes
              then (if open_ended ctx nodes \<and> last nodes \<notin> set (sx_incomplete ctx) \<and> \<not> boundary_reached ctx nodes
                    then [if followable ctx nodes = [] then Leaf else Cycle] else [])
              else if length edges = tq_max_hops (sx_query ctx) \<and> open_ended ctx nodes then [MaxHops] else []))"

definition extends :: "search_context \<Rightarrow> string list \<Rightarrow> string list \<Rightarrow> bool" where
  "extends ctx nodes edges \<longleftrightarrow>
     tq_destination (sx_query ctx) \<noteq> Some (last nodes)
     \<and> \<not> (completed ctx nodes \<and> \<not> starts_with (last nodes) ''repo://'')
     \<and> has_extension ctx nodes \<and> length edges \<noteq> tq_max_hops (sx_query ctx)"

inductive walk :: "search_context \<Rightarrow> string list \<Rightarrow> string list \<Rightarrow> string list \<Rightarrow> string list \<Rightarrow> bool" for ctx where
  walk_here: "walk ctx nodes edges nodes edges"
| walk_on: "extends ctx nodes edges \<Longrightarrow> (to, edge) \<in> set (followable ctx nodes) \<Longrightarrow> to \<notin> set nodes \<Longrightarrow>
    walk ctx (nodes @ [to]) (edges @ [edge]) nodes' edges' \<Longrightarrow> walk ctx nodes edges nodes' edges'"

definition tree_paths :: "search_context \<Rightarrow> string list \<Rightarrow> string list \<Rightarrow> traversal_path set" where
  "tree_paths ctx nodes edges =
     {\<lparr>tp_nodes = ns, tp_edges = es, tp_termination = t\<rparr> | ns es t. walk ctx nodes edges ns es \<and> t \<in> set (reports ctx ns es)}"

definition own_paths :: "search_context \<Rightarrow> string list \<Rightarrow> string list \<Rightarrow> traversal_path list" where
  "own_paths ctx nodes edges =
     map (\<lambda>t. \<lparr>tp_nodes = nodes, tp_edges = edges, tp_termination = t\<rparr>) (reports ctx nodes edges)"

definition branch_paths ::
    "search_context \<Rightarrow> string list \<Rightarrow> string list \<Rightarrow> (string \<times> string) list \<Rightarrow> traversal_path set" where
  "branch_paths ctx nodes edges ns =
     (\<Union>(to, edge) \<in> {p \<in> set ns. fst p \<notin> set nodes}. tree_paths ctx (nodes @ [to]) (edges @ [edge]))"

lemma walk_iff:
  "walk ctx nodes edges ns es \<longleftrightarrow> (ns = nodes \<and> es = edges) \<or>
     extends ctx nodes edges \<and> (\<exists>(to, edge) \<in> {p \<in> set (followable ctx nodes). fst p \<notin> set nodes}.
        walk ctx (nodes @ [to]) (edges @ [edge]) ns es)"
  by (subst walk.simps) force

lemma tree_paths_unfold:
  "tree_paths ctx nodes edges =
     set (own_paths ctx nodes edges)
     \<union> (if extends ctx nodes edges then branch_paths ctx nodes edges (followable ctx nodes) else {})"
proof -
  have "p \<in> tree_paths ctx ns es \<longleftrightarrow>
      walk ctx ns es (tp_nodes p) (tp_edges p) \<and> tp_termination p \<in> set (reports ctx (tp_nodes p) (tp_edges p))" for p ns es
    unfolding tree_paths_def by (cases p) simp
  moreover have "p \<in> set (own_paths ctx nodes edges) \<longleftrightarrow>
      tp_nodes p = nodes \<and> tp_edges p = edges \<and> tp_termination p \<in> set (reports ctx (tp_nodes p) (tp_edges p))" for p
    unfolding own_paths_def by (cases p) auto
  ultimately show ?thesis
    unfolding branch_paths_def by (intro set_eqI) (simp add: walk_iff [of ctx nodes edges] case_prod_beta, blast)
qed

lemma branch_paths_simps:
  "branch_paths ctx nodes edges [] = {}"
  "to \<in> set nodes \<Longrightarrow> branch_paths ctx nodes edges ((to, edge) # ns) = branch_paths ctx nodes edges ns"
  "to \<notin> set nodes \<Longrightarrow> branch_paths ctx nodes edges ((to, edge) # ns) =
     tree_paths ctx (nodes @ [to]) (edges @ [edge]) \<union> branch_paths ctx nodes edges ns"
  by (auto simp: branch_paths_def)

lemma search_stopped_add [simp]:
  "search_stopped (add_reason TrMaxPaths st)" "search_stopped (add_reason TrWorkLimit st)"
  "search_stopped (add_reason TrMaxHops st) = search_stopped st"
  "search_stopped (add_steps n st) = search_stopped st"
  by (simp_all add: search_stopped_def add_reason_def add_steps_def)

lemma state_sel [simp]:
  "ss_paths (add_reason r st) = ss_paths st" "ss_paths (add_steps n st) = ss_paths st"
  "ss_reasons (add_steps n st) = ss_reasons st" "ss_steps (add_reason r st) = ss_steps st"
  "ss_steps (add_steps n st) = ss_steps st + n" "set (ss_reasons (add_reason r st)) = insert r (set (ss_reasons st))"
  by (simp_all add: add_reason_def add_steps_def)

text \<open>A report: kept, unless the paths are full, which stops the search.\<close>

lemma emit_cases:
  obtains "length (ss_paths st) = tq_max_paths (sx_query ctx)" "emit ctx nodes edges t st = add_reason TrMaxPaths st"
  | "length (ss_paths st) \<noteq> tq_max_paths (sx_query ctx)"
    "ss_paths (emit ctx nodes edges t st) = ss_paths st @ [\<lparr>tp_nodes = nodes, tp_edges = edges, tp_termination = t\<rparr>]"
    "ss_reasons (emit ctx nodes edges t st) = ss_reasons st" "ss_steps (emit ctx nodes edges t st) = ss_steps st"
  by (cases "length (ss_paths st) = tq_max_paths (sx_query ctx)") (simp_all add: emit_def)

lemma emit_steps [simp]: "ss_steps (emit ctx nodes edges t st) = ss_steps st"
  by (simp add: emit_def)

text \<open>How one step relates the states before and after it: it only adds, and within the limits.\<close>

definition limits_ok :: "search_context \<Rightarrow> search_state \<Rightarrow> bool" where
  "limits_ok ctx st \<longleftrightarrow>
     ss_steps st \<le> MAX_TRAVERSAL_STEPS \<and> length (ss_paths st) \<le> tq_max_paths (sx_query ctx)
     \<and> ascending (ss_reasons st)
     \<and> (TrMaxPaths \<in> set (ss_reasons st) \<longrightarrow> length (ss_paths st) = tq_max_paths (sx_query ctx))"

definition grows :: "search_context \<Rightarrow> traversal_path set \<Rightarrow> search_state \<Rightarrow> search_state \<Rightarrow> bool" where
  "grows ctx new st st' \<longleftrightarrow>
     set (ss_reasons st) \<subseteq> set (ss_reasons st')
     \<and> set (ss_reasons st') \<subseteq> set (ss_reasons st) \<union> {TrMaxHops, TrMaxPaths, TrWorkLimit}
     \<and> set (ss_paths st) \<subseteq> set (ss_paths st') \<and> set (ss_paths st') \<subseteq> set (ss_paths st) \<union> new
     \<and> (search_stopped st' \<or> set (ss_paths st') = set (ss_paths st) \<union> new)
     \<and> (limits_ok ctx st \<longrightarrow> limits_ok ctx st')"

lemma grows_refl: "grows ctx {} st st"
  by (auto simp: grows_def)

lemma grows_stopped: "search_stopped st \<Longrightarrow> grows ctx new st st"
  unfolding grows_def by (intro conjI subset_refl Un_upper1 disjI1 impI)

lemma grows_stays_stopped: "grows ctx new st st' \<Longrightarrow> search_stopped st \<Longrightarrow> search_stopped st'"
  unfolding grows_def search_stopped_def by blast

lemma grows_trans:
  assumes "grows ctx A st st'" "grows ctx B st' st''"
  shows "grows ctx (A \<union> B) st st''"
proof -
  have "search_stopped st' \<Longrightarrow> search_stopped st''" using assms(2) by (rule grows_stays_stopped)
  then have "search_stopped st'' \<or> set (ss_paths st'') = set (ss_paths st) \<union> (A \<union> B)"
    using assms unfolding grows_def by auto
  moreover have "limits_ok ctx st \<longrightarrow> limits_ok ctx st''" using assms unfolding grows_def by simp
  moreover have "set (ss_paths st) \<subseteq> set (ss_paths st'')" "set (ss_paths st'') \<subseteq> set (ss_paths st) \<union> (A \<union> B)"
    "set (ss_reasons st) \<subseteq> set (ss_reasons st'')"
    "set (ss_reasons st'') \<subseteq> set (ss_reasons st) \<union> {TrMaxHops, TrMaxPaths, TrWorkLimit}"
    using assms unfolding grows_def by auto
  ultimately show ?thesis unfolding grows_def by simp
qed

lemma grows_stop:
  assumes "grows ctx A st st'" "search_stopped st'" "A \<subseteq> B"
  shows "grows ctx B st st'"
  using assms unfolding grows_def by auto

lemma limits_ok_reason:
  "r \<noteq> TrMaxPaths \<or> length (ss_paths st) = tq_max_paths (sx_query ctx) \<Longrightarrow> limits_ok ctx st \<Longrightarrow> limits_ok ctx (add_reason r st)"
  unfolding limits_ok_def by (auto simp: add_reason_def)

lemma grows_work: "grows ctx new st (add_reason TrWorkLimit st)"
  using limits_ok_reason [of TrWorkLimit st ctx] by (auto simp: grows_def)

lemma grows_hops: "grows ctx {} st (add_reason TrMaxHops st)"
  using limits_ok_reason [of TrMaxHops st ctx] by (auto simp: grows_def)

lemma grows_steps:
  "(limits_ok ctx st \<Longrightarrow> ss_steps st + n \<le> MAX_TRAVERSAL_STEPS) \<Longrightarrow> grows ctx {} st (add_steps n st)"
  by (auto simp: grows_def) (simp add: limits_ok_def)

lemma grows_emit:
  "grows ctx {\<lparr>tp_nodes = nodes, tp_edges = edges, tp_termination = t\<rparr>} st (emit ctx nodes edges t st)"
proof (cases rule: emit_cases [of st ctx nodes edges t])
  case 1
  then show ?thesis using limits_ok_reason [of TrMaxPaths st ctx] by (auto simp: grows_def)
next
  case 2
  then show ?thesis by (auto simp: grows_def limits_ok_def)
qed

text \<open>The steps of a visit, composed.\<close>

definition single_path :: "string list \<Rightarrow> string list \<Rightarrow> path_termination \<Rightarrow> traversal_path" where
  "single_path nodes edges t = \<lparr>tp_nodes = nodes, tp_edges = edges, tp_termination = t\<rparr>"

lemma grows_emit_if: "grows ctx (if b then {single_path nodes edges t} else {}) st (if b then emit ctx nodes edges t st else st)"
  using grows_emit grows_refl by (simp add: single_path_def)

lemma own_paths_set: "set (own_paths ctx nodes edges) = single_path nodes edges ` set (reports ctx nodes edges)"
  by (auto simp: own_paths_def single_path_def)

text \<open>The outcome of a step towards the visit's own reports: the state, and where the search goes on.\<close>

definition step_ok :: "search_context \<Rightarrow> string list \<Rightarrow> string list \<Rightarrow> search_state
    \<Rightarrow> search_state \<times> (string \<times> string) list option \<Rightarrow> bool" where
  "step_ok ctx nodes edges st r \<longleftrightarrow>
     grows ctx (set (own_paths ctx nodes edges)) st (fst r)
     \<and> (case snd r of
          None \<Rightarrow> search_stopped (fst r) \<or> \<not> extends ctx nodes edges
        | Some ns \<Rightarrow> ns = followable ctx nodes \<and> extends ctx nodes edges)"

lemma step_ok_prepend:
  assumes "grows ctx {} st st'" "step_ok ctx nodes edges st' r"
  shows "step_ok ctx nodes edges st r"
  using assms grows_trans [of ctx "{}" st st'] by (simp add: step_ok_def)

lemma own_paths_inner:
  assumes "tq_destination (sx_query ctx) \<noteq> Some (last nodes)"
    "\<not> (completed ctx nodes \<and> \<not> starts_with (last nodes) ''repo://'')"
  shows "set (own_paths ctx nodes edges) =
    (if boundary_reached ctx nodes then {single_path nodes edges RepositoryBoundary} else {}) \<union>
    (if \<not> has_extension ctx nodes
     then (if open_ended ctx nodes \<and> last nodes \<notin> set (sx_incomplete ctx) \<and> \<not> boundary_reached ctx nodes
           then {single_path nodes edges (if followable ctx nodes = [] then Leaf else Cycle)} else {})
     else if length edges = tq_max_hops (sx_query ctx)
     then (if open_ended ctx nodes then {single_path nodes edges MaxHops} else {})
     else {})"
  using assms unfolding own_paths_set reports_def by (auto simp del: de_Morgan_conj)

lemma expand_spec:
  assumes "tq_destination (sx_query ctx) \<noteq> Some (last nodes)"
    "\<not> (completed ctx nodes \<and> \<not> starts_with (last nodes) ''repo://'')"
  shows "step_ok ctx nodes edges st (expand ctx nodes edges st)"
proof -
  note own = own_paths_inner [OF assms, of edges]
  define B where "B = (if boundary_reached ctx nodes then {single_path nodes edges RepositoryBoundary} else {})"
  define s2 where "s2 = (if boundary_reached ctx nodes then emit ctx nodes edges RepositoryBoundary st else st)"
  define s3 where "s3 = add_steps (length (followable ctx nodes)) s2"
  note E = expand_def [of ctx nodes edges st, unfolded Let_def, folded s2_def, folded s3_def]
  have g2: "grows ctx B st s2" unfolding B_def s2_def by (rule grows_emit_if)
  have sub: "B \<subseteq> set (own_paths ctx nodes edges)" unfolding own B_def by blast
  consider (full) "boundary_reached ctx nodes \<and> TrMaxPaths \<in> set (ss_reasons s2)"
    | (work) "\<not> (boundary_reached ctx nodes \<and> TrMaxPaths \<in> set (ss_reasons s2))"
        "length (followable ctx nodes) > MAX_TRAVERSAL_STEPS - ss_steps s2"
    | (room) "\<not> (boundary_reached ctx nodes \<and> TrMaxPaths \<in> set (ss_reasons s2))"
        "\<not> length (followable ctx nodes) > MAX_TRAVERSAL_STEPS - ss_steps s2"
    by blast
  then show ?thesis
  proof cases
    case full
    then have "search_stopped s2" by (simp add: search_stopped_def)
    with full grows_stop [OF g2 _ sub] show ?thesis unfolding E step_ok_def by simp
  next
    case work
    have "grows ctx (set (own_paths ctx nodes edges)) st (add_reason TrWorkLimit s2)"
      using grows_trans [OF g2 grows_work, of "set (own_paths ctx nodes edges)"] sub by (simp add: Un_absorb1)
    with work show ?thesis unfolding E step_ok_def by (auto simp del: de_Morgan_conj)
  next
    case room
    then have "limits_ok ctx s2 \<Longrightarrow> ss_steps s2 + length (followable ctx nodes) \<le> MAX_TRAVERSAL_STEPS"
      unfolding limits_ok_def by linarith
    from grows_trans [OF g2 grows_steps [OF this]] have g3: "grows ctx B st s3" by (simp add: s3_def)
    then have g4: "grows ctx B st (add_reason TrMaxHops s3)" using grows_trans [OF _ grows_hops] by fastforce
    have "extends ctx nodes edges \<longleftrightarrow> has_extension ctx nodes \<and> length edges \<noteq> tq_max_hops (sx_query ctx)"
      using assms by (simp add: extends_def)
    then show ?thesis
      using grows_trans [OF g3 grows_emit_if] grows_trans [OF g4 grows_emit_if] g3
      unfolding step_ok_def own E B_def [symmetric] if_not_P [OF room(1)] if_not_P [OF room(2)]
      by (cases "has_extension ctx nodes"; cases "length edges = tq_max_hops (sx_query ctx)")
        (simp_all split del: if_split)
  qed
qed

lemma arrive_spec:
  assumes "\<not> search_stopped st"
  shows "step_ok ctx nodes edges st (arrive ctx nodes edges st)"
proof (cases "ss_steps st = MAX_TRAVERSAL_STEPS")
  case True
  then show ?thesis using assms by (simp add: arrive_def step_ok_def grows_work)
next
  case steps: False
  then have g: "grows ctx {} st (add_steps 1 st)" by (intro grows_steps) (simp add: limits_ok_def)
  have A: "arrive ctx nodes edges st = (let st = add_steps 1 st; node = last nodes in
        if tq_destination (sx_query ctx) = Some node then (emit ctx nodes edges Destination st, None)
        else if completed ctx nodes \<and> \<not> starts_with node ''repo://''
        then (if node \<notin> set (sx_incomplete ctx) then emit ctx nodes edges RepositoryBoundary st else st, None)
        else expand ctx nodes edges st)"
    using steps assms by (simp add: arrive_def)
  show ?thesis
  proof (intro step_ok_prepend [OF g])
    let ?s = "add_steps 1 st"
    consider (destination) "tq_destination (sx_query ctx) = Some (last nodes)"
      | (outside) "tq_destination (sx_query ctx) \<noteq> Some (last nodes)"
          "completed ctx nodes \<and> \<not> starts_with (last nodes) ''repo://''"
      | (inner) "tq_destination (sx_query ctx) \<noteq> Some (last nodes)"
          "\<not> (completed ctx nodes \<and> \<not> starts_with (last nodes) ''repo://'')"
      by blast
    then show "step_ok ctx nodes edges ?s (arrive ctx nodes edges st)"
    proof cases
      case destination
      then show ?thesis using grows_emit [of ctx nodes edges Destination ?s]
        unfolding A Let_def by (simp add: step_ok_def own_paths_def reports_def extends_def)
    next
      case outside
      then show ?thesis using grows_emit [of ctx nodes edges RepositoryBoundary ?s] grows_refl [of ctx ?s]
        unfolding A Let_def by (simp add: step_ok_def own_paths_def reports_def extends_def)
    next
      case inner
      then have "arrive ctx nodes edges st = expand ctx nodes edges ?s" unfolding A Let_def by (simp only: if_False)
      with expand_spec [OF inner] show ?thesis by simp
    qed
  qed
qed

lemma visit_grows:
  "grows ctx (tree_paths ctx nodes edges) st (visit ctx nodes edges st)"
  "grows ctx (branch_paths ctx nodes edges ns) st (visit_loop ctx nodes edges ns st)"
proof (induction ctx nodes edges st and ctx nodes edges ns st rule: visit_visit_loop.induct)
  case (1 ctx nodes edges st)
  let ?r = "arrive ctx nodes edges st"
  show ?case
  proof (cases "search_stopped st")
    case True
    then have "visit ctx nodes edges st = st" by (simp add: visit.simps arrive_def)
    then show ?thesis using grows_stopped [OF True] by simp
  next
    case False
    note spec = arrive_spec [OF this, of ctx nodes edges, unfolded step_ok_def]
    show ?thesis
    proof (cases "snd ?r")
      case None
      then have v: "visit ctx nodes edges st = fst ?r" by (auto simp: visit.simps split: prod.split)
      have "set (own_paths ctx nodes edges) \<subseteq> tree_paths ctx nodes edges"
        "\<not> extends ctx nodes edges \<Longrightarrow> tree_paths ctx nodes edges = set (own_paths ctx nodes edges)"
        by (simp_all add: tree_paths_unfold)
      then show ?thesis unfolding v using spec None grows_stop [of ctx _ st "fst ?r"] by fastforce
    next
      case (Some ns)
      then have "?r = (fst ?r, Some ns)" by (metis prod.collapse)
      moreover from this have "visit ctx nodes edges st = visit_loop ctx nodes edges ns (fst ?r)"
        by (subst visit.simps) (metis case_prod_conv option.simps(5))
      moreover have "tree_paths ctx nodes edges = set (own_paths ctx nodes edges) \<union> branch_paths ctx nodes edges ns"
        using spec Some by (simp add: tree_paths_unfold)
      ultimately show ?thesis using grows_trans spec "1.IH" [of "fst ?r" "Some ns"] by metis
    qed
  qed
next
  case (2 ctx nodes edges st)
  then show ?case by (simp add: grows_refl branch_paths_simps)
next
  case (3 ctx nodes edges to edge ns st)
  show ?case
  proof (cases "ss_steps st = MAX_TRAVERSAL_STEPS")
    case True
    then show ?thesis by (simp add: grows_work)
  next
    case steps: False
    then have g: "grows ctx {} st (add_steps 1 st)" by (intro grows_steps) (simp add: limits_ok_def)
    show ?thesis
    proof (cases "to \<in> set nodes")
      case True
      with steps grows_trans [OF g "3.IH"(1) [OF steps True]] show ?thesis by (simp add: branch_paths_simps)
    next
      case new: False
      let ?s = "visit ctx (nodes @ [to]) (edges @ [edge]) (add_steps 1 st)"
      have v: "grows ctx (tree_paths ctx (nodes @ [to]) (edges @ [edge])) st ?s"
        using grows_trans [OF g "3.IH"(2) [OF steps new]] by simp
      show ?thesis
      proof (cases "search_stopped ?s")
        case True
        then show ?thesis using steps new grows_stop [OF v] by (simp add: branch_paths_simps)
      next
        case False
        with steps new grows_trans [OF v "3.IH"(3) [OF steps new refl False]] show ?thesis
          by (simp add: branch_paths_simps)
      qed
    qed
  qed
qed

section \<open>Paths of the graph\<close>

text \<open>A path along edges of the graph, in a direction: its nodes and the ids of its edges.\<close>

definition query_direction :: "traverse_graph_query \<Rightarrow> traversal_direction" where
  "query_direction query = (case tq_direction query of Dependencies \<Rightarrow> Outgoing | Dependents \<Rightarrow> Incoming)"

definition edge_step :: "semantic_edge list \<Rightarrow> traversal_direction \<Rightarrow> string \<Rightarrow> string \<Rightarrow> string \<Rightarrow> bool" where
  "edge_step edges direction from i to \<longleftrightarrow>
     (\<exists>e \<in> set edges. traversal_endpoints e direction = (from, to) \<and> se_id e = i)"

fun directed_path :: "semantic_edge list \<Rightarrow> traversal_direction \<Rightarrow> string list \<Rightarrow> string list \<Rightarrow> bool" where
  "directed_path edges direction [n] [] = True"
| "directed_path edges direction (n # m # ns) (i # is) \<longleftrightarrow>
     edge_step edges direction n i m \<and> directed_path edges direction (m # ns) is"
| "directed_path edges direction _ _ = False"

lemma directed_path_length: "directed_path edges d ns is \<Longrightarrow> length ns = Suc (length is)"
  by (induction edges d ns "is" rule: directed_path.induct) auto

lemma directed_path_nonempty: "directed_path edges d ns is \<Longrightarrow> ns \<noteq> []"
  by (cases ns) auto

lemma directed_path_Cons:
  "directed_path edges d (n # ns) (i # is) \<longleftrightarrow> ns \<noteq> [] \<and> edge_step edges d n i (hd ns) \<and> directed_path edges d ns is"
  by (cases ns) auto

lemma directed_path_snoc:
  "ns \<noteq> [] \<Longrightarrow> directed_path edges d (ns @ [m]) (is @ [i]) \<longleftrightarrow> directed_path edges d ns is \<and> edge_step edges d (last ns) i m"
proof (induction ns arbitrary: "is")
  case (Cons n ns)
  show ?case
  proof (cases ns)
    case Nil
    then show ?thesis by (cases "is") (auto simp: directed_path_Cons dest: directed_path_length)
  next
    case (Cons m' ns')
    then show ?thesis using Cons.IH by (cases "is") (auto simp: directed_path_Cons dest: directed_path_length)
  qed
qed simp

definition simple_path :: "semantic_edge list \<Rightarrow> traverse_graph_query \<Rightarrow> string list \<Rightarrow> string list \<Rightarrow> bool" where
  "simple_path edges query ns is \<longleftrightarrow>
     directed_path edges (query_direction query) ns is \<and> hd ns = tq_start query \<and> distinct ns
     \<and> length is \<le> tq_max_hops query"

lemma neighbours_search:
  "(to, i) \<in> set (neighbours (sx_adjacent (search_context_of query edges x y z)) n) \<longleftrightarrow>
     edge_step edges (query_direction query) n i to"
proof -
  let ?f = "\<lambda>e. let (source, to) = traversal_endpoints e (query_direction query) in (source, (to, se_id e))"
  have "set (neighbours (bm_map sort (adjacency ?f edges)) n) = set (neighbours (adjacency ?f edges) n)"
    by (simp add: neighbours_def map_of_bm_map split: option.splits)
  moreover have "(to, i) \<in> set (neighbours (adjacency ?f edges) n) \<longleftrightarrow> edge_step edges (query_direction query) n i to"
    unfolding neighbours_adjacency edge_step_def by (force simp: case_prod_beta prod_eq_iff)
  moreover have "sx_adjacent (search_context_of query edges x y z) = bm_map sort (adjacency ?f edges)"
    by (simp add: search_context_of_def query_direction_def Let_def)
  ultimately show ?thesis by simp
qed

lemma query_search [simp]: "sx_query (search_context_of query edges x y z) = query"
  "sx_incomplete (search_context_of query edges x y z) = x"
  by (simp_all add: search_context_of_def Let_def)

lemma followable_step:
  "(to, i) \<in> set (followable (search_context_of query edges x y z) ns) \<Longrightarrow> edge_step edges (query_direction query) (last ns) i to"
  by (auto simp: followable_def neighbours_search)

lemma walk_simple_path:
  assumes "walk (search_context_of query edges x y z) ns is ns' is'" "simple_path edges query ns is"
  shows "simple_path edges query ns' is'"
  using assms
proof (induction rule: walk.induct)
  case (walk_on ns "is" to i ns' is')
  have "ns \<noteq> []" using walk_on.prems directed_path_nonempty by (auto simp: simple_path_def)
  moreover have "length is < tq_max_hops query"
    using walk_on.hyps(1) walk_on.prems by (simp add: extends_def simple_path_def)
  ultimately have "simple_path edges query (ns @ [to]) (is @ [i])"
    using walk_on.prems walk_on.hyps(2,3) followable_step [OF walk_on.hyps(2)]
    by (simp add: simple_path_def directed_path_snoc)
  then show ?case by (rule walk_on.IH)
qed

lemma simple_path_start: "simple_path edges query [tq_start query] []"
  by (simp add: simple_path_def)

lemma walk_snoc:
  assumes "walk ctx nodes edges ns is" "extends ctx ns is" "(to, i) \<in> set (followable ctx ns)" "to \<notin> set ns"
  shows "walk ctx nodes edges (ns @ [to]) (is @ [i])"
  using assms by (induction rule: walk.induct) (auto intro: walk_on walk_here)

text \<open>Without target repositories nothing is filtered, and the walks are the simple paths.\<close>

definition stays_before :: "traverse_graph_query \<Rightarrow> string list \<Rightarrow> bool" where
  "stays_before query ns \<longleftrightarrow> tq_destination query \<notin> Some ` set (butlast ns)"

lemma no_targets:
  assumes "tq_target_repositories query = []"
  shows "\<not> completed (search_context_of query edges x y z) ns"
    and "followable (search_context_of query edges x y z) ns = neighbours (sx_adjacent (search_context_of query edges x y z)) (last ns)"
proof -
  have none: "target_repository node [] = None" for node
    by (cases "strip_prefix ''repo://'' node") (simp_all add: target_repository_def)
  have "repository_state_of (search_context_of query edges x y z) ns = ([], None)"
    using assms by (induction ns) (simp_all add: repository_state_of_def bs_of_list_def none Let_def)
  then show "\<not> completed (search_context_of query edges x y z) ns" by (simp add: completed_def)
  show "followable (search_context_of query edges x y z) ns = neighbours (sx_adjacent (search_context_of query edges x y z)) (last ns)"
    using assms by (simp add: followable_def can_follow_def case_prod_beta)
qed

lemma has_extension_iff:
  assumes "tq_target_repositories query = []"
  shows "has_extension (search_context_of query edges x y z) ns \<longleftrightarrow>
    (\<exists>i to. edge_step edges (query_direction query) (last ns) i to \<and> to \<notin> set ns)"
proof -
  let ?N = "set (neighbours (sx_adjacent (search_context_of query edges x y z)) (last ns))"
  have "has_extension (search_context_of query edges x y z) ns \<longleftrightarrow> (\<exists>to i. (to, i) \<in> ?N \<and> to \<notin> set ns)"
    unfolding has_extension_def no_targets(2) [OF assms] list_ex_iff by blast
  then show ?thesis unfolding neighbours_search by blast
qed

lemma butlast_snoc_last: "ns \<noteq> [] \<Longrightarrow> set (butlast (ns @ [m])) = insert (last ns) (set (butlast ns))"
  unfolding butlast_snoc by (cases ns rule: rev_cases) auto

lemma simple_path_walk:
  assumes "tq_target_repositories query = []" "simple_path edges query ns is" "stays_before query ns"
  shows "walk (search_context_of query edges x y z) [tq_start query] [] ns is"
  using assms(2,3)
proof (induction "is" arbitrary: ns rule: rev_induct)
  case Nil
  then have "ns = [tq_start query]" by (cases ns) (auto simp: simple_path_def dest: directed_path_length)
  then show ?case by (simp add: walk_here)
next
  case (snoc i "is")
  let ?c = "search_context_of query edges x y z"
  have len: "length ns = Suc (Suc (length is))"
    using snoc.prems(1) by (auto simp: simple_path_def dest: directed_path_length)
  then obtain ns' m where ns: "ns = ns' @ [m]" by (cases ns rule: rev_cases) auto
  with len have "ns' \<noteq> []" by auto
  then have path: "directed_path edges (query_direction query) ns' is" "edge_step edges (query_direction query) (last ns') i m"
    using snoc.prems(1) \<open>ns' \<noteq> []\<close> unfolding simple_path_def ns by (simp_all add: directed_path_snoc)
  have before: "stays_before query ns'" "tq_destination query \<noteq> Some (last ns')"
    using snoc.prems(2) butlast_snoc_last [OF \<open>ns' \<noteq> []\<close>, of m] unfolding stays_before_def ns by auto
  have "simple_path edges query ns' is"
    using snoc.prems(1) path(1) \<open>ns' \<noteq> []\<close> unfolding simple_path_def ns by simp
  from snoc.IH [OF this before(1)] have "walk ?c [tq_start query] [] ns' is" .
  moreover have "m \<notin> set ns'" "length is < tq_max_hops query"
    using snoc.prems(1) unfolding simple_path_def ns by simp_all
  moreover have "(m, i) \<in> set (followable ?c ns')"
    using path(2) by (simp add: no_targets(2) [OF assms(1)] neighbours_search)
  moreover have "extends ?c ns' is"
    using before(2) path(2) calculation(2,3) no_targets(1) [OF assms(1)] has_extension_iff [OF assms(1)]
    unfolding extends_def by auto
  ultimately show ?case unfolding ns by (intro walk_snoc)
qed

lemma walk_stays_before:
  assumes "walk (search_context_of query edges x y z) ns is ns' is'" "stays_before query ns" "ns \<noteq> []"
  shows "stays_before query ns'"
  using assms
proof (induction rule: walk.induct)
  case (walk_on ns "is" to i ns' is')
  have "stays_before query (ns @ [to])"
    using walk_on.hyps(1) walk_on.prems butlast_snoc_last [of ns to]
    by (auto simp: stays_before_def extends_def)
  then show ?case by (intro walk_on.IH) simp_all
qed

lemma walk_iff_simple_path:
  assumes "tq_target_repositories query = []"
  shows "walk (search_context_of query edges x y z) [tq_start query] [] ns is \<longleftrightarrow>
    simple_path edges query ns is \<and> stays_before query ns"
  using walk_simple_path [OF _ simple_path_start] walk_stays_before simple_path_walk [OF assms]
  by (fastforce simp: stays_before_def)

lemma search_context_initial: "limits_ok ctx (initial_state incomplete)" "\<not> search_stopped (initial_state incomplete)"
  by (auto simp: limits_ok_def initial_state_def search_stopped_def)

lemma path_search_grows:
  "grows (search_context_of query edges incomplete boundaries reachability)
     (tree_paths (search_context_of query edges incomplete boundaries reachability) [tq_start query] [])
     (initial_state incomplete) (path_search query edges incomplete boundaries reachability)"
  unfolding path_search_def by (rule visit_grows)

lemma path_search_complete:
  assumes "TrMaxPaths \<notin> set (ss_reasons (path_search query edges incomplete boundaries reachability))"
    "TrWorkLimit \<notin> set (ss_reasons (path_search query edges incomplete boundaries reachability))"
  shows "set (ss_paths (path_search query edges incomplete boundaries reachability)) =
    tree_paths (search_context_of query edges incomplete boundaries reachability) [tq_start query] []"
  using path_search_grows [of query edges incomplete boundaries reachability] assms
  unfolding grows_def search_stopped_def by (simp add: initial_state_def Let_def target_repository_def strip_prefix_def)

lemma path_search_sound:
  assumes "p \<in> set (ss_paths (path_search query edges incomplete boundaries reachability))"
  shows "walk (search_context_of query edges incomplete boundaries reachability) [tq_start query] [] (tp_nodes p) (tp_edges p)"
    and "tp_termination p \<in> set (reports (search_context_of query edges incomplete boundaries reachability) (tp_nodes p) (tp_edges p))"
  using path_search_grows [of query edges incomplete boundaries reachability] assms
  unfolding grows_def tree_paths_def by (auto simp: initial_state_def Let_def target_repository_def strip_prefix_def)

text \<open>The last node of a path that visits every target repository completes it.\<close>

lemma repository_state_snoc:
  "repository_state_of ctx (ns @ [n]) =
     (let targets = bs_of_list (tq_target_repositories (sx_query ctx)); (visited, completion) = repository_state_of ctx ns
      in case target_repository n targets of
           None \<Rightarrow> (visited, completion)
         | Some r \<Rightarrow> (bs_insert r visited,
             if completion = None \<and> bs_insert r visited = targets then Some r else completion))"
  by (simp add: repository_state_of_def Let_def case_prod_beta split: option.split)

lemma repository_state_visited:
  "set (fst (repository_state_of ctx ns)) \<subseteq>
     {r. \<exists>node \<in> set ns. target_repository node (bs_of_list (tq_target_repositories (sx_query ctx))) = Some r}
   \<and> (completed ctx ns \<longrightarrow> set (tq_target_repositories (sx_query ctx)) \<subseteq> set (fst (repository_state_of ctx ns)))"
proof (induction ns rule: rev_induct)
  case Nil
  then show ?case by (simp add: completed_def repository_state_of_def)
next
  case (snoc n ns)
  obtain visited completion where st: "repository_state_of ctx ns = (visited, completion)" by fastforce
  let ?t = "bs_of_list (tq_target_repositories (sx_query ctx))"
  show ?case
  proof (cases "target_repository n ?t")
    case None
    then show ?thesis using snoc st by (auto simp: completed_def repository_state_snoc Let_def)
  next
    case (Some r)
    have "set visited \<subseteq> {r. \<exists>node \<in> set ns. target_repository node ?t = Some r}"
      "completion \<noteq> None \<Longrightarrow> set (tq_target_repositories (sx_query ctx)) \<subseteq> set visited"
      using snoc st by (simp_all add: completed_def)
    moreover have "bs_insert r visited = ?t \<Longrightarrow> insert r (set visited) = set (tq_target_repositories (sx_query ctx))"
      by (metis set_bs_insert set_bs_of_list)
    ultimately show ?thesis using Some st
      by (cases "completion = None \<and> bs_insert r visited = ?t") (auto simp: completed_def repository_state_snoc Let_def)
  qed
qed


lemmas search_eval = visit.simps arrive_def expand_def
  followable_def can_follow_def has_extension_def boundary_reached_def completed_def open_ended_def
  repository_state_of_def bs_of_list_def emit_def add_reason_def add_steps_def search_stopped_def MAX_TRAVERSAL_STEPS_def

definition example_edge :: "string \<Rightarrow> string \<Rightarrow> string \<Rightarrow> semantic_edge" where
  "example_edge i source target =
     \<lparr>se_id = i, se_from = source, se_to = target, se_kind = RkCalls, se_confidence = 0, se_evidence = []\<rparr>"

definition example_traversal :: "string option \<Rightarrow> string list \<Rightarrow> traverse_graph_query" where
  "example_traversal destination targets =
     \<lparr>tq_start = ''a'', tq_direction = Dependencies, tq_destination = destination, tq_target_repositories = targets,
      tq_max_hops = 3, tq_max_paths = 5\<rparr>"

definition example_edges :: "semantic_edge list" where
  "example_edges = [example_edge ''1'' ''a'' ''b'', example_edge ''2'' ''b'' ''a'', example_edge ''3'' ''a'' ''repo://r/d'']"

definition example_search_context :: "string option \<Rightarrow> string list \<Rightarrow> search_context" where
  "example_search_context destination targets = search_context_of (example_traversal destination targets) example_edges [] [] []"

lemma example_neighbours:
  "neighbours (sx_adjacent (example_search_context d t)) n =
    (if n = ''a'' then [(''b'', ''1''), (''repo://r/d'', ''3'')] else if n = ''b'' then [(''a'', ''2'')] else [])"
proof -
  have "sx_adjacent (example_search_context d t) = [(''a'', [(''b'', ''1''), (''repo://r/d'', ''3'')]), (''b'', [(''a'', ''2'')])]"
    by code_simp
  then show ?thesis by (simp add: neighbours_def)
qed

lemma example_context_sel:
  "sx_query (example_search_context d t) = example_traversal d t" "sx_incomplete (example_search_context d t) = []"
  "sx_repository_boundaries (example_search_context d t) = []" "sx_target_reachability (example_search_context d t) = []"
  by (simp_all add: example_search_context_def search_context_of_def Let_def)

lemma example_search_to: "path_search (example_traversal (Some ''b'') []) example_edges [] [] [] =
  \<lparr>ss_paths = [\<lparr>tp_nodes = [''a'', ''b''], tp_edges = [''1''], tp_termination = Destination\<rparr>], ss_reasons = [], ss_steps = 7\<rparr>"
  unfolding path_search_def example_search_context_def [symmetric]
  by (simp add: search_eval example_neighbours example_context_sel example_traversal_def initial_state_def Let_def
    target_repository_def strip_prefix_def)

lemma example_search_open: "path_search (example_traversal None []) example_edges [] [] [] =
  \<lparr>ss_paths = [\<lparr>tp_nodes = [''a'', ''b''], tp_edges = [''1''], tp_termination = Cycle\<rparr>,
     \<lparr>tp_nodes = [''a'', ''repo://r/d''], tp_edges = [''3''], tp_termination = Leaf\<rparr>], ss_reasons = [], ss_steps = 8\<rparr>"
  unfolding path_search_def example_search_context_def [symmetric]
  by (simp add: search_eval example_neighbours example_context_sel example_traversal_def initial_state_def Let_def
    target_repository_def strip_prefix_def)

lemma example_search_targets: "path_search (example_traversal None [''r'']) example_edges [] [] [] =
  \<lparr>ss_paths = [\<lparr>tp_nodes = [''a'', ''repo://r/d''], tp_edges = [''3''], tp_termination = Leaf\<rparr>], ss_reasons = [], ss_steps = 4\<rparr>"
  unfolding path_search_def example_search_context_def [symmetric]
  by (simp add: search_eval example_neighbours example_context_sel example_traversal_def initial_state_def Let_def
    target_repository_def strip_prefix_def)

section \<open>Properties\<close>



text \<open>
  C30. A search for a destination that hits neither the path nor the work limit is exact: it
  reports the simple paths of the graph from the start to the destination within the hop bound,
  all of them and nothing else.
\<close>

theorem destination_paths_exact:
  assumes "tq_destination query = Some d" "tq_target_repositories query = []"
    and "TrMaxPaths \<notin> set (ss_reasons (path_search query edges incomplete boundaries reachability))"
    and "TrWorkLimit \<notin> set (ss_reasons (path_search query edges incomplete boundaries reachability))"
  shows "p \<in> set (ss_paths (path_search query edges incomplete boundaries reachability)) \<longleftrightarrow>
    simple_path edges query (tp_nodes p) (tp_edges p) \<and> last (tp_nodes p) = d \<and> tp_termination p = Destination"
proof -
  let ?c = "search_context_of query edges incomplete boundaries reachability"
  have "p \<in> tree_paths ?c [tq_start query] [] \<longleftrightarrow>
      walk ?c [tq_start query] [] (tp_nodes p) (tp_edges p) \<and> tp_termination p \<in> set (reports ?c (tp_nodes p) (tp_edges p))"
    unfolding tree_paths_def by (cases p) simp
  moreover have "reports ?c ns is = (if last ns = d then [Destination] else [])" for ns "is"
    using assms(1) by (auto simp: reports_def boundary_reached_def no_targets(1) [OF assms(2)] open_ended_def)
  moreover have "stays_before query ns" if "simple_path edges query ns is" "last ns = d" for ns "is"
  proof -
    have "ns \<noteq> []" "distinct ns" using that(1) directed_path_nonempty by (auto simp: simple_path_def)
    then show ?thesis using that(2) assms(1) unfolding stays_before_def by (cases ns rule: rev_cases) auto
  qed
  ultimately show ?thesis
    unfolding path_search_complete [OF assms(3,4)] walk_iff_simple_path [OF assms(2)] by auto
qed

theorem destination_paths_exact_witness:
  "simple_path example_edges (example_traversal (Some ''b'') []) [''a'', ''b''] [''1'']"
proof -
  let ?p = "\<lparr>tp_nodes = [''a'', ''b''], tp_edges = [''1''], tp_termination = Destination\<rparr>"
  have "?p \<in> set (ss_paths (path_search (example_traversal (Some ''b'') []) example_edges [] [] []))"
    by (simp add: example_search_to)
  then show ?thesis
    by (subst (asm) destination_paths_exact [of _ "''b''"]) (simp_all add: example_search_to, simp_all add: example_traversal_def)
qed

text \<open>
  C31. An open search without target repositories, when it hits neither the path nor the work
  limit, reports exactly the maximal simple paths: those at the hop bound that could go on, those
  that end at a fully explored node with no outgoing edge (leaf), and those whose every
  continuation would revisit a node (cycle).
\<close>

theorem open_paths_exact:
  assumes "tq_destination query = None" "tq_target_repositories query = []"
    and "TrMaxPaths \<notin> set (ss_reasons (path_search query edges incomplete boundaries reachability))"
    and "TrWorkLimit \<notin> set (ss_reasons (path_search query edges incomplete boundaries reachability))"
  shows "p \<in> set (ss_paths (path_search query edges incomplete boundaries reachability)) \<longleftrightarrow>
    simple_path edges query (tp_nodes p) (tp_edges p)
    \<and> (if \<exists>i to. edge_step edges (query_direction query) (last (tp_nodes p)) i to \<and> to \<notin> set (tp_nodes p)
       then length (tp_edges p) = tq_max_hops query \<and> tp_termination p = MaxHops
       else last (tp_nodes p) \<notin> set incomplete
         \<and> tp_termination p = (if \<exists>i to. edge_step edges (query_direction query) (last (tp_nodes p)) i to then Cycle else Leaf))"
proof -
  let ?c = "search_context_of query edges incomplete boundaries reachability"
  have "p \<in> tree_paths ?c [tq_start query] [] \<longleftrightarrow>
      walk ?c [tq_start query] [] (tp_nodes p) (tp_edges p) \<and> tp_termination p \<in> set (reports ?c (tp_nodes p) (tp_edges p))"
    unfolding tree_paths_def by (cases p) simp
  moreover have "followable ?c ns \<noteq> [] \<longleftrightarrow> (\<exists>i to. edge_step edges (query_direction query) (last ns) i to)" for ns
  proof -
    have "followable ?c ns \<noteq> [] \<longleftrightarrow> (\<exists>x. x \<in> set (followable ?c ns))" by (cases "followable ?c ns") auto
    then show ?thesis
      unfolding no_targets(2) [OF assms(2)] using neighbours_search [of _ _ query edges incomplete boundaries reachability "last ns"]
      by (simp only: split_paired_Ex) blast
  qed
  ultimately show ?thesis
    unfolding path_search_complete [OF assms(3,4)] walk_iff_simple_path [OF assms(2)]
    using assms(1,2) no_targets(1) [OF assms(2)] has_extension_iff [OF assms(2), of edges incomplete boundaries reachability "tp_nodes p"]
    by (auto simp: reports_def open_ended_def boundary_reached_def stays_before_def)
qed

theorem open_paths_exact_witness:
  "simple_path example_edges (example_traversal None []) [''a'', ''b''] [''1'']"
proof -
  let ?p = "\<lparr>tp_nodes = [''a'', ''b''], tp_edges = [''1''], tp_termination = Cycle\<rparr>"
  have "?p \<in> set (ss_paths (path_search (example_traversal None []) example_edges [] [] []))"
    by (simp add: example_search_open)
  then show ?thesis
    by (subst (asm) open_paths_exact) (simp_all add: example_search_open, simp_all add: example_traversal_def)
qed

text \<open>
  With target repositories and no destination, every reported path, whatever limits were hit,
  visits each target repository: for each target some node on the path belongs to it.
\<close>

theorem repository_paths_visit_targets:
  assumes "tq_destination query = None" "r \<in> set (tq_target_repositories query)"
    and "p \<in> set (ss_paths (path_search query edges incomplete boundaries reachability))"
  shows "\<exists>node \<in> set (tp_nodes p). target_repository node (bs_of_list (tq_target_repositories query)) = Some r"
proof -
  let ?c = "search_context_of query edges incomplete boundaries reachability"
  have "tq_target_repositories query \<noteq> []" using assms(2) by auto
  then have "completed ?c (tp_nodes p)"
    using path_search_sound(2) [OF assms(3)] assms(1)
    by (auto simp: reports_def open_ended_def boundary_reached_def split: if_splits)
  then show ?thesis using repository_state_visited [of ?c "tp_nodes p"] assms(2) by auto
qed

theorem repository_paths_visit_targets_witness:
  "\<exists>node \<in> set [''a'', ''repo://r/d'']. target_repository node [''r''] = Some ''r''"
proof -
  let ?p = "\<lparr>tp_nodes = [''a'', ''repo://r/d''], tp_edges = [''3''], tp_termination = Leaf\<rparr>"
  have p: "?p \<in> set (ss_paths (path_search (example_traversal None [''r'']) example_edges [] [] []))"
    by (simp add: example_search_targets)
  have "tq_destination (example_traversal None [''r'']) = None" "''r'' \<in> set (tq_target_repositories (example_traversal None [''r'']))"
    by (simp_all add: example_traversal_def)
  from repository_paths_visit_targets [OF this p] show ?thesis
    by (simp add: example_traversal_def bs_of_list_def)
qed

end
