(* ===== verification/Paths.thy ===== *)
theory Paths imports Ordered begin

text \<open>
  The operations of \<open>std::path\<close> the daemon uses, on what \<open>Path\<close> comparisons observe, the list of
  components (\<^const>\<open>path_components\<close>), and the lossy conversion of a path to text, which replaces
  every maximal ill-formed byte sequence by U+FFFD. Also the directories no component indexes
  (\<open>crates/daemon/src/indexing/sources.rs\<close>).
\<close>

type_synonym path = "(nat \<times> string) list"

section \<open>Components\<close>

definition path_parent :: "path \<Rightarrow> path option" where
  "path_parent p = (if p = [] \<or> fst (last p) = 1 then None else Some (butlast p))"

definition strip_path_prefix :: "path \<Rightarrow> path \<Rightarrow> path option" where
  "strip_path_prefix base p = (if prefix base p then Some (drop (length base) p) else None)"

definition component_text :: "nat \<times> string \<Rightarrow> string" where
  "component_text c = (if fst c = 1 then '''' else if fst c = 2 then ''.'' else if fst c = 3 then ''..'' else snd c)"

definition path_text :: "path \<Rightarrow> string" where
  "path_text p = join ''/'' (map component_text p)"

definition is_ignored_directory :: "string \<Rightarrow> bool" where
  "is_ignored_directory name \<longleftrightarrow> name \<in>
     {''.git'', ''.github'', ''.moon'', ''.next'', ''.next-server'', ''.terraform'', ''.turbo'', ''_build'', ''bin'',
      ''build'', ''coverage'', ''deps'', ''dist'', ''node_modules'', ''obj'', ''storybook-static'', ''target''}"

definition is_ignored_path :: "path \<Rightarrow> bool" where
  "is_ignored_path p = list_ex (is_ignored_directory \<circ> component_text) p"

text \<open>A path below a repository as the watcher reports it: names only.\<close>

definition plain_path :: "path \<Rightarrow> bool" where
  "plain_path p \<longleftrightarrow> (\<forall>c \<in> set p. fst c = 4 \<and> snd c \<noteq> [] \<and> CHR ''/'' \<notin> set (snd c) \<and> snd c \<noteq> ''.'' \<and> snd c \<noteq> ''..'')"

lemma split_on_join:
  "xs \<noteq> [] \<Longrightarrow> \<forall>x \<in> set xs. d \<notin> set x \<Longrightarrow> split_on d (join [d] xs) = xs"
proof (induction "[d]" xs rule: join.induct)
  case (2 x)
  then have "d \<notin> set x" by simp
  then show ?case by (induction x) auto
next
  case (3 x y ys)
  have "split_on d (x @ d # s) = x # split_on d s" if "d \<notin> set x" for s
    using that by (induction x) auto
  with 3 show ?case by simp
qed simp

text \<open>The text of a plain path parses back to it.\<close>

lemma path_components_text:
  assumes "plain_path p"
  shows "path_components (path_text p) = p"
proof (cases "p = []")
  case True
  then show ?thesis by (simp add: path_text_def path_components_def)
next
  case False
  let ?names = "map component_text p"
  have plain: "fst c = 4" "snd c \<noteq> []" "CHR ''/'' \<notin> set (snd c)" "snd c \<noteq> ''.''" "snd c \<noteq> ''..''" if "c \<in> set p" for c
    using that assms by (simp_all add: plain_path_def)
  then have names: "?names = map snd p" by (simp add: component_text_def)
  have split: "split_on CHR ''/'' (path_text p) = map snd p"
    unfolding path_text_def names using False plain by (intro split_on_join) auto
  have first: "hd p \<in> set p" using False by (rule hd_in_set)
  have "\<not> starts_with (path_text p) ''/''"
  proof
    assume "starts_with (path_text p) ''/''"
    then have "hd (split_on CHR ''/'' (path_text p)) = []" by (auto simp: prefix_def)
    then show False using split plain(2) [OF first] False by (simp add: hd_map)
  qed
  moreover have "hd (map snd p) \<noteq> ''.''" using plain(4) [OF first] False by (simp add: hd_map)
  moreover have "filter (\<lambda>s. s \<noteq> [] \<and> s \<noteq> ''.'') (map snd p) = map snd p"
    using plain by (intro filter_True) auto
  moreover have "map (\<lambda>s. if s = ''..'' then (3, '''') else (4 :: nat, s)) (map snd p) = p"
    unfolding map_map using plain by (intro map_idI) (simp add: prod_eq_iff)
  ultimately show ?thesis unfolding path_components_def split Let_def by (simp only: if_False append_Nil)
qed

section \<open>Lossy UTF-8\<close>

definition byte_in :: "nat \<Rightarrow> nat \<Rightarrow> char \<Rightarrow> bool" where
  "byte_in lo hi c \<longleftrightarrow> lo \<le> (of_char c :: nat) \<and> (of_char c :: nat) \<le> hi"

text \<open>The length of the first character, or of the first maximal ill-formed sequence, and which of the two.\<close>

definition second_ok :: "char \<Rightarrow> char \<Rightarrow> bool" where
  "second_ok a b =
     (if a = CHR 0xE0 then byte_in 0xA0 0xBF b else if a = CHR 0xED then byte_in 0x80 0x9F b
      else if a = CHR 0xF0 then byte_in 0x90 0xBF b else if a = CHR 0xF4 then byte_in 0x80 0x8F b
      else byte_in 0x80 0xBF b)"

definition utf8_width :: "char \<Rightarrow> nat" where
  "utf8_width a =
     (if byte_in 0 0x7F a then 1 else if byte_in 0xC2 0xDF a then 2 else if byte_in 0xE0 0xEF a then 3
      else if byte_in 0xF0 0xF4 a then 4 else 0)"

definition byte_at :: "string \<Rightarrow> nat \<Rightarrow> char" where
  "byte_at s i = (if i < length s then s ! i else CHR 0x00)"

definition utf8_chunk :: "string \<Rightarrow> nat \<times> bool" where
  "utf8_chunk s =
     (let a = byte_at s 0; w = utf8_width a in
      if w = 0 then (1, False)
      else if w = 1 then (1, True)
      else if \<not> second_ok a (byte_at s 1) then (1, False)
      else if w = 2 then (2, True)
      else if \<not> byte_in 0x80 0xBF (byte_at s 2) then (2, False)
      else if w = 3 then (3, True)
      else if \<not> byte_in 0x80 0xBF (byte_at s 3) then (3, False)
      else (4, True))"

lemma utf8_chunk_pos: "0 < fst (utf8_chunk s)"
  by (simp add: utf8_chunk_def Let_def)

lemma utf8_chunk_less: "(n, ok) = utf8_chunk s \<Longrightarrow> Suc k - n < Suc k"
  using utf8_chunk_pos [of s] by (cases "utf8_chunk s") auto

function utf8_lossy :: "string \<Rightarrow> string" where
  "utf8_lossy [] = []"
| "utf8_lossy (c # cs) =
     (let (n, ok) = utf8_chunk (c # cs)
      in (if ok then take n (c # cs) else [CHR 0xEF, CHR 0xBF, CHR 0xBD]) @ utf8_lossy (drop n (c # cs)))"
  by pat_completeness auto
termination
  by (relation "measure length") (auto dest: utf8_chunk_less)

function utf8_valid :: "string \<Rightarrow> bool" where
  "utf8_valid [] = True"
| "utf8_valid (c # cs) = (let (n, ok) = utf8_chunk (c # cs) in ok \<and> utf8_valid (drop n (c # cs)))"
  by pat_completeness auto
termination
  by (relation "measure length") (auto dest: utf8_chunk_less)

lemma utf8_lossy_valid: "utf8_valid s \<Longrightarrow> utf8_lossy s = s"
  by (induction s rule: utf8_valid.induct) (auto simp: Let_def split: prod.splits)

section \<open>Standard library\<close>

text \<open>\<open>max_by_key\<close> returns the last of the greatest elements.\<close>

definition max_by_key :: "('a \<Rightarrow> nat) \<Rightarrow> 'a list \<Rightarrow> 'a option" where
  "max_by_key key xs =
     fold (\<lambda>x best. case best of None \<Rightarrow> Some x | Some b \<Rightarrow> if key b \<le> key x then Some x else Some b) xs None"

text \<open>\<open>str::trim\<close>: the encodings of white space are removed from both ends.\<close>

lemma encodings_nonempty: "e \<in> set white_space_encodings \<Longrightarrow> e \<noteq> []"
  by (auto simp: white_space_encodings_def)

lemma find_less: "\<forall>e \<in> set es. e \<noteq> [] \<Longrightarrow> List.find (\<lambda>e. prefix e s) es = Some e \<Longrightarrow> length s - length e < length s"
  by (cases s) (auto simp: find_Some_iff)

function trim_front :: "bool \<Rightarrow> string \<Rightarrow> string" where
  "trim_front backwards s =
     (case List.find (\<lambda>e. prefix e s) (if backwards then map rev white_space_encodings else white_space_encodings) of
        None \<Rightarrow> s
      | Some e \<Rightarrow> trim_front backwards (drop (length e) s))"
  by pat_completeness auto
termination
  by (relation "measure (length \<circ> snd)")
    (auto dest!: find_less [rotated] dest: encodings_nonempty split: if_splits)

declare trim_front.simps [simp del]

definition str_trim :: "string \<Rightarrow> string" where
  "str_trim s = rev (trim_front True (rev (trim_front False s)))"

end
