(* ===== verification/Git_Adapter.thy ===== *)
theory Git_Adapter imports Paths Domain_Workspace begin

text \<open>
  \<open>crates/adapters-git/src/lib.rs\<close>: the identity of a repository, its checkouts, its revision and
  the fingerprint of its inputs. What \<open>gix\<close>, the \<open>git\<close> command and the file system answer is the
  record \<open>git_environment\<close>; SHA-256 (in hexadecimal) is its last field.
\<close>

record discovered_repository =
  gx_git_dir :: "string + string"
  gx_common_dir :: "string + string"
  gx_remote :: "(string option \<times> string) option"
  gx_main :: "(string + working_tree) option"
  gx_linked :: "(string \<times> (string + working_tree)) list"

record command_output =
  co_success :: bool
  co_stdout :: string
  co_stderr :: string

record git_environment =
  ge_canonicalize :: "string \<Rightarrow> string + string"
  ge_exists :: "string \<Rightarrow> bool"
  ge_discover :: "string \<Rightarrow> discovered_repository option"
  ge_worktree_list :: "string \<Rightarrow> string + command_output"
  ge_sha256 :: "string \<Rightarrow> string"

section \<open>Identity\<close>

definition trim_matches :: "char \<Rightarrow> string \<Rightarrow> string" where
  "trim_matches c s = rev (dropWhile (\<lambda>d. d = c) (rev (dropWhile (\<lambda>d. d = c) s)))"

definition canonical_url :: "string option \<times> string \<Rightarrow> string option" where
  "canonical_url remote =
     Option.bind (fst remote) (\<lambda>host.
       if \<not> utf8_valid (snd remote) then None
       else let path = trim_matches CHR ''/'' (snd remote);
                path = (case strip_suffix ''.git'' path of None \<Rightarrow> path | Some p \<Rightarrow> p)
            in if host \<noteq> [] \<and> path \<noteq> [] then Some (host @ ''/'' @ path) else None)"

definition local_identity :: "git_environment \<Rightarrow> string \<Rightarrow> string + string" where
  "local_identity env anchor =
     (if utf8_valid anchor then Inr (''local://'' @ ge_sha256 env anchor)
      else Inl (''repository path is not UTF-8: '' @ utf8_lossy anchor))"

definition local_repository_identity :: "git_environment \<Rightarrow> string \<Rightarrow> string + string" where
  "local_repository_identity env root_path = rbind (ge_canonicalize env root_path) (local_identity env)"

definition repository_identity_from :: "git_environment \<Rightarrow> discovered_repository \<Rightarrow> string + string" where
  "repository_identity_from env repository =
     (case Option.bind (gx_remote repository) canonical_url of
        Some identity \<Rightarrow> Inr identity
      | None \<Rightarrow> rbind (gx_common_dir repository) (local_identity env))"

definition repository_identity :: "git_environment \<Rightarrow> string \<Rightarrow> string + string" where
  "repository_identity env root_path =
     (case ge_discover env root_path of
        Some repository \<Rightarrow> repository_identity_from env repository
      | None \<Rightarrow> local_repository_identity env root_path)"

definition git_display_name :: "string \<Rightarrow> string + string" where
  "git_display_name root_path =
     (let cs = path_components root_path
      in if cs \<noteq> [] \<and> fst (last cs) = 4 \<and> utf8_valid (snd (last cs)) then Inr (snd (last cs))
         else Inl (''cannot derive repository identity from '' @ utf8_lossy root_path))"

section \<open>Checkouts\<close>

text \<open>The fields of \<open>git worktree list --porcelain -z\<close>: a record ends at an empty field.\<close>

definition prunable_field :: "string \<Rightarrow> string list \<times> string option \<times> bool \<Rightarrow> string list \<times> string option \<times> bool" where
  "prunable_field field = (\<lambda>(paths, worktree, prunable).
     if field = [] then
       (case worktree of
          Some path \<Rightarrow> (if prunable then paths @ [path] else paths, None, False)
        | None \<Rightarrow> (paths, None, False))
     else case strip_prefix ''worktree '' field of
            Some path \<Rightarrow> (paths, Some path, prunable)
          | None \<Rightarrow>
              if field = ''prunable'' \<or> starts_with field ''prunable '' then (paths, worktree, True)
              else (paths, worktree, prunable))"

definition prunable_paths :: "string \<Rightarrow> string list" where
  "prunable_paths stdout = fst (fold prunable_field (split_on (CHR 0x00) stdout) ([], None, False))"

definition prunable_worktrees :: "git_environment \<Rightarrow> string \<Rightarrow> string + string list" where
  "prunable_worktrees env root_path =
     rbind (ge_worktree_list env root_path) (\<lambda>output.
       if \<not> co_success output
       then Inl (''git worktree list failed for '' @ utf8_lossy root_path @ '': '' @ str_trim (utf8_lossy (co_stderr output)))
       else Inr (prunable_paths (co_stdout output)))"

definition linked_trees :: "string list \<Rightarrow> (string \<times> (string + working_tree)) list \<Rightarrow> string + working_tree list" where
  "linked_trees prunable linked =
     try_map snd (filter (\<lambda>(base, _). \<not> list_ex (\<lambda>p. path_eq p base) prunable) linked)"

definition topology_from :: "git_environment \<Rightarrow> discovered_repository \<Rightarrow> string \<Rightarrow> string + git_topology" where
  "topology_from env repository root_path =
     rbind (gx_common_dir repository) (\<lambda>common.
     rbind (prunable_worktrees env root_path) (\<lambda>prunable.
     rbind (case gx_main repository of None \<Rightarrow> Inr [] | Some tree \<Rightarrow> rbind tree (\<lambda>t. Inr [t])) (\<lambda>main.
     rbind (linked_trees prunable (gx_linked repository)) (\<lambda>linked.
     rbind (repository_identity_from env repository) (\<lambda>identity.
       Inr \<lparr>gt_repository = \<lparr>lr_identity = identity\<rparr>, gt_clone = \<lparr>gc_common_directory = common\<rparr>,
            gt_working_trees = sort_key (path_components \<circ> wt_path) (main @ linked)\<rparr>)))))"

definition selected_tree :: "git_topology \<Rightarrow> string \<Rightarrow> string + working_tree" where
  "selected_tree topology root_path =
     ok_or (max_by_key (\<lambda>t. length (path_components (wt_path t)))
              (filter (\<lambda>t. prefix (path_components (wt_path t)) (path_components root_path)) (gt_working_trees topology)))
       (utf8_lossy root_path @ '' is not inside a discovered working tree'')"

definition git_workspace_repository :: "git_environment \<Rightarrow> string \<Rightarrow> string + workspace_repository" where
  "git_workspace_repository env root_path =
     rbind (ge_canonicalize env root_path) (\<lambda>root_path.
       case ge_discover env root_path of
         Some repository \<Rightarrow>
           rbind (topology_from env repository root_path) (\<lambda>topology.
           rbind (selected_tree topology root_path) (\<lambda>tree.
           rbind (git_display_name (wt_path tree)) (\<lambda>name.
             Inr \<lparr>wr_repository = gt_repository topology, wr_display_name = name, wr_base = wt_path tree,
                  wr_alternatives = filter (\<lambda>p. \<not> path_eq p (wt_path tree)) (map wt_path (gt_working_trees topology))\<rparr>)))
       | None \<Rightarrow>
           rbind (local_repository_identity env root_path) (\<lambda>identity.
           rbind (git_display_name root_path) (\<lambda>name.
             Inr \<lparr>wr_repository = \<lparr>lr_identity = identity\<rparr>, wr_display_name = name, wr_base = root_path,
                  wr_alternatives = []\<rparr>)))"

section \<open>Revision\<close>

definition repository_version :: "git_environment \<Rightarrow> string \<Rightarrow> string + logical_repository \<times> string option" where
  "repository_version env root_path =
     (case ge_discover env root_path of
        Some repository \<Rightarrow>
          rbind (topology_from env repository root_path) (\<lambda>topology.
          rbind (ge_canonicalize env root_path) (\<lambda>root_path.
          rbind (selected_tree topology root_path) (\<lambda>tree.
            Inr (gt_repository topology, Some (wt_head tree)))))
      | None \<Rightarrow> rbind (local_repository_identity env root_path) (\<lambda>identity. Inr (\<lparr>lr_identity = identity\<rparr>, None)))"

text \<open>\<open>(value.len() as u64).to_le_bytes()\<close> and the value.\<close>

definition le_bytes :: "nat \<Rightarrow> string" where
  "le_bytes n = map (\<lambda>i. char_of (n div 256 ^ i)) [0..<8]"

definition framed_bytes :: "string \<Rightarrow> string" where
  "framed_bytes v = le_bytes (length v) @ v"

definition head_bytes :: "string option \<Rightarrow> string" where
  "head_bytes head = (case head of None \<Rightarrow> [CHR 0x00] | Some h \<Rightarrow> CHR 0x01 # framed_bytes h)"

definition content_input :: "string \<times> nat \<times> string \<Rightarrow> string" where
  "content_input = (\<lambda>(path, kind, hash). framed_bytes path @ [char_of kind] @ framed_bytes hash)"

definition content_bytes :: "string \<Rightarrow> string option \<Rightarrow> (string \<times> nat \<times> string) list \<Rightarrow> string" where
  "content_bytes identity head inputs =
     ''beholder-repository-content-v1'' @ framed_bytes identity @ head_bytes head @ concat (map content_input inputs)"

definition state_from_content_hashes ::
    "git_environment \<Rightarrow> string \<Rightarrow> (string \<times> nat \<times> string) list \<Rightarrow> string + repository_state" where
  "state_from_content_hashes env root_path inputs =
     rbind (repository_version env root_path) (\<lambda>(repository, head).
       Inr \<lparr>rs_repository = repository, rs_head = head,
            rs_fingerprint = ge_sha256 env (content_bytes (lr_identity repository) head inputs)\<rparr>)"

definition state_bytes :: "string \<Rightarrow> string option \<Rightarrow> (string \<times> string) list \<Rightarrow> string" where
  "state_bytes identity head sources =
     framed_bytes identity @ head_bytes head
     @ concat (map (\<lambda>(path, source). framed_bytes (utf8_lossy path) @ framed_bytes source) sources)"

definition state_from_sources :: "git_environment \<Rightarrow> string \<Rightarrow> (string \<times> string) list \<Rightarrow> string + repository_state" where
  "state_from_sources env root_path sources =
     rbind (repository_version env root_path) (\<lambda>(repository, head).
       Inr \<lparr>rs_repository = repository, rs_head = head,
            rs_fingerprint = ge_sha256 env (state_bytes (lr_identity repository) head sources)\<rparr>)"

section \<open>Watched paths\<close>

record watch_path =
  wp_path :: string
  wp_recursive :: bool

definition repository_watch_paths :: "git_environment \<Rightarrow> string \<Rightarrow> string + watch_path list" where
  "repository_watch_paths env root_path =
     (case ge_discover env root_path of
        None \<Rightarrow> Inr []
      | Some repository \<Rightarrow>
          rbind (gx_git_dir repository) (\<lambda>git_dir.
          rbind (gx_common_dir repository) (\<lambda>common.
            Inr (sort_dedup_by (\<lambda>w. (path_components (wp_path w), wp_recursive w))
                   (filter (\<lambda>w. ge_exists env (wp_path w))
                      [\<lparr>wp_path = git_dir, wp_recursive = False\<rparr>,
                       \<lparr>wp_path = common @ ''/refs'', wp_recursive = True\<rparr>,
                       \<lparr>wp_path = common, wp_recursive = False\<rparr>])))))"

section \<open>The digested bytes\<close>

definition fits :: "string \<Rightarrow> bool" where
  "fits s \<longleftrightarrow> length s < 2 ^ 64"

definition input_fits :: "string \<times> nat \<times> string \<Rightarrow> bool" where
  "input_fits = (\<lambda>(path, kind, hash). fits path \<and> kind < 256 \<and> fits hash)"

definition contents_fit :: "string \<Rightarrow> string option \<Rightarrow> (string \<times> nat \<times> string) list \<Rightarrow> bool" where
  "contents_fit identity head inputs \<longleftrightarrow> fits identity \<and> pred_option fits head \<and> list_all input_fits inputs"

lemma low_digits:
  assumes "\<And>i. i < k \<Longrightarrow> n div b ^ i mod b = m div b ^ i mod b"
  shows "n mod b ^ k = m mod (b ^ k :: nat)"
  using assms
proof (induction k)
  case (Suc k)
  have "n mod b ^ k = m mod b ^ k" using Suc by simp
  then show ?case unfolding power_Suc2 mod_mult2_eq using Suc.prems [of k] by (simp only: lessI)
qed simp

lemma le_bytes_inj: "n < 2 ^ 64 \<Longrightarrow> m < 2 ^ 64 \<Longrightarrow> le_bytes n = le_bytes m \<Longrightarrow> n = m"
proof -
  assume b: "n < 2 ^ 64" "m < 2 ^ 64" and eq: "le_bytes n = le_bytes m"
  have "n div 256 ^ i mod 256 = m div 256 ^ i mod 256" if "i < 8" for i
  proof -
    have "le_bytes n ! i = le_bytes m ! i" using eq by simp
    then have "char_of (n div 256 ^ i) = (char_of (m div 256 ^ i) :: char)" using that by (simp add: le_bytes_def)
    then have "of_char (char_of (n div 256 ^ i) :: char) = (of_char (char_of (m div 256 ^ i) :: char) :: nat)" by simp
    then show ?thesis by simp
  qed
  then have "n mod 256 ^ 8 = m mod (256 :: nat) ^ 8" by (rule low_digits)
  with b show "n = m" by simp
qed

lemma length_le_bytes [simp]: "length (le_bytes n) = 8"
  by (simp add: le_bytes_def)

lemma framed_bytes_inj:
  assumes "fits v" "fits w" "framed_bytes v @ xs = framed_bytes w @ ys"
  shows "v = w \<and> xs = ys"
proof -
  have "le_bytes (length v) = le_bytes (length w) \<and> v @ xs = w @ ys"
    using assms(3) by (simp add: framed_bytes_def append_eq_append_conv)
  moreover from this have "length v = length w" using le_bytes_inj assms(1,2) unfolding fits_def by blast
  ultimately show ?thesis by simp
qed

lemma head_bytes_inj:
  assumes "pred_option fits h" "pred_option fits h'" "head_bytes h @ xs = head_bytes h' @ ys"
  shows "h = h' \<and> xs = ys"
proof (cases h)
  case None
  with assms(3) show ?thesis by (cases h') (auto simp: head_bytes_def)
next
  case (Some v)
  with assms(3) obtain w where "h' = Some w" by (cases h') (auto simp: head_bytes_def)
  with Some framed_bytes_inj [of v w xs ys] assms show ?thesis by (simp add: head_bytes_def)
qed

lemma content_input_inj:
  assumes "input_fits x" "input_fits y" "content_input x @ xs = content_input y @ ys"
  shows "x = y \<and> xs = ys"
proof -
  obtain p k h q l g where xy: "x = (p, k, h)" "y = (q, l, g)" by (cases x; cases y)
  have "framed_bytes p @ (char_of k # framed_bytes h @ xs) = framed_bytes q @ (char_of l # framed_bytes g @ ys)"
    using assms(3) by (simp add: xy content_input_def)
  from framed_bytes_inj [OF _ _ this]
  have 1: "p = q" "char_of k = (char_of l :: char)" "framed_bytes h @ xs = framed_bytes g @ ys"
    using assms(1,2) by (simp_all add: xy input_fits_def)
  then have "of_char (char_of k :: char) = (of_char (char_of l :: char) :: nat)" by simp
  then have "k = l" using assms(1,2) by (simp add: xy input_fits_def)
  with 1 show ?thesis using assms(1,2) framed_bytes_inj [of h g xs ys] by (simp add: xy input_fits_def)
qed

lemma content_input_nonempty [simp]: "content_input x \<noteq> []"
  by (cases x) (simp add: content_input_def)

lemma content_inputs_inj:
  "list_all input_fits xs \<Longrightarrow> list_all input_fits ys \<Longrightarrow> concat (map content_input xs) = concat (map content_input ys) \<Longrightarrow> xs = ys"
proof (induction xs arbitrary: ys)
  case Nil
  then show ?case by (cases ys) auto
next
  case (Cons x xs)
  from Cons.prems(3) have "ys \<noteq> []" by (cases ys) simp_all
  then obtain y ys' where ys: "ys = y # ys'" by (cases ys) simp_all
  from content_input_inj [of x y "concat (map content_input xs)" "concat (map content_input ys')"]
  have "x = y" "concat (map content_input xs) = concat (map content_input ys')"
    using Cons.prems by (simp_all add: ys)
  with Cons.IH [of ys'] Cons.prems(1,2) show ?case by (simp add: ys)
qed

text \<open>A selected checkout is never among its own alternatives and its name is its directory's.\<close>

lemma git_workspace_repository_cases:
  assumes "git_workspace_repository env p = Inr r"
  obtains (git) tree :: working_tree and trees where "git_display_name (wt_path tree) = Inr (wr_display_name r)" "wr_base r = wt_path tree"
      "wr_alternatives r = filter (\<lambda>p. \<not> path_eq p (wt_path tree)) trees"
  | (plain) root_path where "git_display_name root_path = Inr (wr_display_name r)" "wr_base r = root_path" "wr_alternatives r = []"
proof -
  obtain root_path where root_path: "ge_canonicalize env p = Inr root_path"
    using assms by (cases "ge_canonicalize env p") (simp_all add: git_workspace_repository_def)
  show ?thesis
  proof (cases "ge_discover env root_path")
    case None
    then obtain i where i: "local_repository_identity env root_path = Inr i"
      using assms root_path by (cases "local_repository_identity env root_path") (simp_all add: git_workspace_repository_def)
    then obtain name where "git_display_name root_path = Inr name"
      using assms root_path None by (cases "git_display_name root_path") (simp_all add: git_workspace_repository_def)
    then show ?thesis using assms root_path None i by (intro plain [of root_path]) (auto simp: git_workspace_repository_def)
  next
    case (Some repository)
    then obtain topology where t: "topology_from env repository root_path = Inr topology"
      using assms root_path by (cases "topology_from env repository root_path") (simp_all add: git_workspace_repository_def)
    then obtain tree where tree: "selected_tree topology root_path = Inr tree"
      using assms root_path Some by (cases "selected_tree topology root_path") (simp_all add: git_workspace_repository_def)
    then obtain name where "git_display_name (wt_path tree) = Inr name"
      using assms root_path Some t by (cases "git_display_name (wt_path tree)") (simp_all add: git_workspace_repository_def)
    then show ?thesis using assms root_path Some t tree
      by (intro git [of tree "map wt_path (gt_working_trees topology)"]) (auto simp: git_workspace_repository_def)
  qed
qed

lemma git_workspace_repository_spec:
  assumes "git_workspace_repository env p = Inr r"
  shows "path_components (wr_base r) \<notin> path_components ` set (wr_alternatives r)"
    and "git_display_name (wr_base r) = Inr (wr_display_name r)"
  by (rule git_workspace_repository_cases [OF assms], force simp: path_eq_def, simp)
    (rule git_workspace_repository_cases [OF assms], simp_all)

section \<open>Properties\<close>

text \<open>
  The bytes digested into a repository fingerprint determine what is indexed: the identity, the
  revision or its absence, and every input with its path, kind and content hash, in order. Two
  states with one fingerprint are the same state or a collision of SHA-256.
\<close>

theorem content_bytes_injective:
  assumes "contents_fit identity head inputs" "contents_fit identity' head' inputs'"
  shows "content_bytes identity head inputs = content_bytes identity' head' inputs' \<longleftrightarrow>
    identity = identity' \<and> head = head' \<and> inputs = inputs'"
proof
  assume "content_bytes identity head inputs = content_bytes identity' head' inputs'"
  then have "framed_bytes identity @ (head_bytes head @ concat (map content_input inputs))
      = framed_bytes identity' @ (head_bytes head' @ concat (map content_input inputs'))"
    by (simp add: content_bytes_def)
  from framed_bytes_inj [OF _ _ this] have 1: "identity = identity'"
    "head_bytes head @ concat (map content_input inputs) = head_bytes head' @ concat (map content_input inputs')"
    using assms by (simp_all add: contents_fit_def)
  from head_bytes_inj [OF _ _ this(2)]
  have "head = head'" "concat (map content_input inputs) = concat (map content_input inputs')"
    using assms by (simp_all add: contents_fit_def)
  then show "identity = identity' \<and> head = head' \<and> inputs = inputs'"
    using 1 assms content_inputs_inj by (simp add: contents_fit_def)
qed simp

theorem content_bytes_injective_witness:
  "content_bytes ''r'' None [(''a'', 0, ''1'')] \<noteq> content_bytes ''r'' (Some ''a'') [(''a'', 0, ''1'')]"
proof -
  have "contents_fit ''r'' None [(''a'', 0, ''1'')]" "contents_fit ''r'' (Some ''a'') [(''a'', 0, ''1'')]"
    by (simp_all add: contents_fit_def input_fits_def fits_def)
  from content_bytes_injective [OF this] show ?thesis by simp
qed

end
