(* ===== verification/Registry.thy ===== *)
theory Registry imports Git_Adapter begin

text \<open>
  The registries of the daemon: \<open>crates/daemon/src/repository_registry.rs\<close> and
  \<open>workspace_registry.rs\<close>. A document on disk is the value it holds (\<open>serde_json\<close> writes and reads
  it), \<open>None\<close> when the file does not exist, \<open>Inl\<close> when it does not parse. What the file system and
  git answer is the record \<open>environment\<close>. A write replaces the file atomically
  (temporary file, sync, rename) or fails with an error and leaves it.
\<close>

record environment =
  env_git :: git_environment
  env_is_dir :: "string \<Rightarrow> bool"
  env_is_file :: "string \<Rightarrow> bool"

type_synonym 'd document = "(string + 'd) option"

definition write_document :: "string option \<Rightarrow> 'd \<Rightarrow> 'd document \<Rightarrow> 'd document \<times> (string + unit)" where
  "write_document failure d old = (case failure of Some e \<Rightarrow> (old, Inl e) | None \<Rightarrow> (Some (Inr d), Inr ()))"

section \<open>Repositories\<close>

record registered_repository =
  rr_selection :: workspace_repository

type_synonym repository_registry = "(string, registered_repository) bmap"

definition selection_of :: "environment \<Rightarrow> string \<Rightarrow> string + workspace_repository" where
  "selection_of env path =
     (case ge_canonicalize (env_git env) path of
        Inl e \<Rightarrow> Inl (''invalid repository '' @ utf8_lossy path @ '': '' @ e)
      | Inr path \<Rightarrow>
          if \<not> env_is_dir env path then Inl (''repository is not a directory: '' @ utf8_lossy path)
          else git_workspace_repository (env_git env) path)"

definition merge_alternatives :: "workspace_repository \<Rightarrow> workspace_repository \<Rightarrow> workspace_repository" where
  "merge_alternatives to selection =
     to\<lparr>wr_alternatives :=
         filter (\<lambda>p. \<not> path_eq p (wr_base to))
           (sort_dedup_by path_components (wr_alternatives to @ wr_base selection # wr_alternatives selection))\<rparr>"

definition repositories_open :: "workspace_repository list document \<Rightarrow> string + repository_registry" where
  "repositories_open document =
     (case document of
        None \<Rightarrow> Inr []
      | Some (Inl e) \<Rightarrow> Inl e
      | Some (Inr stored) \<Rightarrow> Inr (bm_of_list (map (\<lambda>s. (wr_identity s, \<lparr>rr_selection = s\<rparr>)) stored)))"

definition repositories_document :: "repository_registry \<Rightarrow> workspace_repository list" where
  "repositories_document reg = map (rr_selection \<circ> snd) reg"

text \<open>Equality of selections compares the paths by components.\<close>

definition selection_eq :: "workspace_repository \<Rightarrow> workspace_repository \<Rightarrow> bool" where
  "selection_eq a b \<longleftrightarrow>
     wr_repository a = wr_repository b \<and> wr_display_name a = wr_display_name b \<and> path_eq (wr_base a) (wr_base b)
     \<and> map path_components (wr_alternatives a) = map path_components (wr_alternatives b)"

definition remember_selection :: "workspace_repository \<Rightarrow> repository_registry \<Rightarrow> repository_registry \<times> bool" where
  "remember_selection selection reg =
     (case map_of reg (wr_identity selection) of
        Some existing \<Rightarrow>
          let merged = merge_alternatives (rr_selection existing) selection
          in (bm_put (wr_identity selection) (existing\<lparr>rr_selection := merged\<rparr>) reg,
              \<not> selection_eq merged (rr_selection existing))
      | None \<Rightarrow> (bm_put (wr_identity selection) \<lparr>rr_selection = selection\<rparr> reg, True))"

definition replace_selection :: "workspace_repository \<Rightarrow> repository_registry \<Rightarrow> repository_registry" where
  "replace_selection selection reg =
     (let selection = (case map_of reg (wr_identity selection) of
            Some existing \<Rightarrow> merge_alternatives selection (rr_selection existing)
          | None \<Rightarrow> selection)
      in bm_put (wr_identity selection) \<lparr>rr_selection = selection\<rparr> reg)"

lemma merge_alternatives_sel [simp]:
  "wr_repository (merge_alternatives t s) = wr_repository t" "wr_display_name (merge_alternatives t s) = wr_display_name t"
  "wr_base (merge_alternatives t s) = wr_base t"
  by (simp_all add: merge_alternatives_def)

text \<open>\<open>RepositoryRegistry::register\<close> and \<open>remove\<close>: the staged registry replaces the old one once it is on disk.\<close>

definition repositories_register ::
    "environment \<Rightarrow> string option \<Rightarrow> string \<Rightarrow> repository_registry \<times> workspace_repository list document
     \<Rightarrow> (repository_registry \<times> workspace_repository list document) \<times> (string + registered_repository)" where
  "repositories_register env failure path = (\<lambda>(reg, document).
     case selection_of env path of
       Inl e \<Rightarrow> ((reg, document), Inl e)
     | Inr selection \<Rightarrow>
         let staged = replace_selection selection reg;
             (document', written) = write_document failure (repositories_document staged) document
         in case written of
              Inl e \<Rightarrow> ((reg, document'), Inl e)
            | Inr _ \<Rightarrow>
                case map_of staged (wr_identity selection) of
                  None \<Rightarrow> ((reg, document'), Inl ''registered repository disappeared'')
                | Some registered \<Rightarrow> ((staged, document'), Inr registered))"

definition repositories_remove ::
    "string option \<Rightarrow> string \<Rightarrow> repository_registry \<times> workspace_repository list document
     \<Rightarrow> (repository_registry \<times> workspace_repository list document) \<times> (string + bool)" where
  "repositories_remove failure identity = (\<lambda>(reg, document).
     if map_of reg identity = None then ((reg, document), Inr False)
     else
       let staged = bm_remove identity reg;
           (document', written) = write_document failure (repositories_document staged) document
       in case written of
            Inl e \<Rightarrow> ((reg, document'), Inl e)
          | Inr _ \<Rightarrow> ((staged, document'), Inr True))"

section \<open>Workspaces\<close>

text \<open>
  A stored repository is untagged: the reader takes the first form that fits. The writer only
  produces \<open>SrSelected\<close>, whose two fields no earlier form accepts.
\<close>

datatype stored_repository =
    SrPath string
  | SrRegistered workspace_repository
  | SrSelected string string
  | SrReference string

record stored_workspace =
  sw_name :: string
  sw_repositories :: "stored_repository list"
  sw_protobuf_descriptors :: "(string \<times> string) list"
  sw_enabled_plugins :: "string list"

record workspace_registry =
  wg_repositories :: repository_registry
  wg_workspaces :: "(string, workspace) bmap"

record registry_files =
  rf_repositories :: "workspace_repository list document"
  rf_workspaces :: "stored_workspace list document"

definition workspaces_document :: "(string, workspace) bmap \<Rightarrow> stored_workspace list" where
  "workspaces_document workspaces =
     map (\<lambda>(_, ws). \<lparr>sw_name = ws_name ws,
            sw_repositories = map (\<lambda>r. SrSelected (wr_identity r) (wr_base r)) (ws_repositories ws),
            sw_protobuf_descriptors = map (\<lambda>d. (lr_identity (pd_repository d), pd_path d)) (ws_protobuf_descriptors ws),
            sw_enabled_plugins = ws_enabled_plugins ws\<rparr>) workspaces"

text \<open>\<open>Path::file_name\<close> and \<open>to_str\<close>: the last component, if it is a name and valid UTF-8.\<close>

definition utf8_file_name :: "string \<Rightarrow> string option" where
  "utf8_file_name path =
     (let cs = path_components path
      in if cs \<noteq> [] \<and> fst (last cs) = 4 \<and> utf8_valid (snd (last cs)) then Some (snd (last cs)) else None)"

definition remove_nth :: "nat \<Rightarrow> 'a list \<Rightarrow> 'a list" where
  "remove_nth i xs = take i xs @ drop (Suc i) xs"

fun position :: "('a \<Rightarrow> bool) \<Rightarrow> 'a list \<Rightarrow> nat option" where
  "position P [] = None"
| "position P (x # xs) = (if P x then Some 0 else map_option Suc (position P xs))"

definition checkout_selection :: "environment \<Rightarrow> string \<Rightarrow> string \<Rightarrow> string + workspace_repository" where
  "checkout_selection env identity base =
     rbind (selection_of env base) (\<lambda>selection.
       if wr_identity selection \<noteq> identity
       then Inl (''repository checkout identity changed: expected '' @ identity @ '', found '' @ wr_identity selection)
       else Inr selection)"

definition select_checkout :: "environment \<Rightarrow> repository_registry \<Rightarrow> string \<Rightarrow> string \<Rightarrow> string + workspace_repository" where
  "select_checkout env reg identity base =
     (case map_of reg identity of
        None \<Rightarrow> checkout_selection env identity base
      | Some registered \<Rightarrow>
          let selection = rr_selection registered in
          if path_eq (wr_base selection) base then Inr selection
          else case position (\<lambda>a. path_eq a base) (wr_alternatives selection) of
                 None \<Rightarrow> checkout_selection env identity base
               | Some i \<Rightarrow>
                   rbind (ok_or (utf8_file_name base) ''repository checkout has no UTF-8 display name'') (\<lambda>name.
                     Inr (selection\<lparr>wr_alternatives := remove_nth i (wr_alternatives selection) @ [wr_base selection],
                                    wr_base := base, wr_display_name := name\<rparr>)))"

text \<open>The selection and whether it is stored in the current form.\<close>

definition stored_selection ::
    "environment \<Rightarrow> repository_registry \<Rightarrow> stored_repository \<Rightarrow> string + workspace_repository \<times> bool" where
  "stored_selection env reg stored =
     (case stored of
        SrPath path \<Rightarrow> rbind (selection_of env path) (\<lambda>s. Inr (s, False))
      | SrRegistered selection \<Rightarrow> Inr (selection, False)
      | SrSelected identity base \<Rightarrow> rbind (select_checkout env reg identity base) (\<lambda>s. Inr (s, True))
      | SrReference identity \<Rightarrow>
          (case map_of reg identity of
             None \<Rightarrow> Inl (''repository not registered: '' @ identity)
           | Some registered \<Rightarrow> Inr (rr_selection registered, False)))"

record open_state =
  os_repositories :: repository_registry
  os_migrated :: bool
  os_changed :: bool
  os_selections :: "workspace_repository list"

definition open_selection :: "environment \<Rightarrow> stored_repository \<Rightarrow> open_state \<Rightarrow> string + open_state" where
  "open_selection env stored st =
     rbind (stored_selection env (os_repositories st) stored) (\<lambda>(selection, current).
       let (reg, changed) = remember_selection selection (os_repositories st)
       in Inr \<lparr>os_repositories = reg, os_migrated = (os_migrated st \<or> \<not> current),
               os_changed = (os_changed st \<or> changed), os_selections = os_selections st @ [selection]\<rparr>)"

definition build_workspace ::
    "string \<Rightarrow> workspace_repository list \<Rightarrow> protobuf_descriptor_source list \<Rightarrow> string list \<Rightarrow> string + workspace" where
  "build_workspace name selections descriptors plugins =
     rbind (workspace_new name selections) (\<lambda>ws.
       rbind (with_protobuf_descriptors ws descriptors) (\<lambda>ws. with_enabled_plugins ws plugins))"

definition open_workspace ::
    "environment \<Rightarrow> stored_workspace \<Rightarrow> open_state \<times> (string, workspace) bmap \<Rightarrow> string + open_state \<times> (string, workspace) bmap" where
  "open_workspace env stored = (\<lambda>(st, workspaces).
     rbind (try_fold (open_selection env) (sw_repositories stored) (st\<lparr>os_selections := []\<rparr>)) (\<lambda>st.
       rbind (build_workspace (sw_name stored) (os_selections st)
           (map (\<lambda>(r, p). \<lparr>pd_repository = \<lparr>lr_identity = r\<rparr>, pd_path = p\<rparr>) (sw_protobuf_descriptors stored))
           (sw_enabled_plugins stored)) (\<lambda>ws.
         Inr (st, bm_put (ws_name ws) ws workspaces))))"

definition registry_open ::
    "environment \<Rightarrow> string option \<times> string option \<Rightarrow> registry_files \<Rightarrow> registry_files \<times> (string + workspace_registry)" where
  "registry_open env failures files =
     (let loaded = rbind (repositories_open (rf_repositories files)) (\<lambda>reg.
            let start = (\<lparr>os_repositories = reg, os_migrated = False, os_changed = False, os_selections = []\<rparr>, [])
            in case rf_workspaces files of
                 None \<Rightarrow> Inr start
               | Some (Inl e) \<Rightarrow> Inl e
               | Some (Inr stored) \<Rightarrow> try_fold (open_workspace env) stored start)
      in case loaded of
           Inl e \<Rightarrow> (files, Inl e)
         | Inr (st, workspaces) \<Rightarrow>
             let opened = \<lparr>wg_repositories = os_repositories st, wg_workspaces = workspaces\<rparr> in
             if workspaces \<noteq> [] \<and> (os_migrated st \<or> os_changed st \<or> rf_repositories files = None)
             then case write_document (fst failures) (repositories_document (os_repositories st)) (rf_repositories files) of
                    (reps, Inl e) \<Rightarrow> (files\<lparr>rf_repositories := reps\<rparr>, Inl e)
                  | (reps, Inr _) \<Rightarrow>
                      (case write_document (snd failures) (workspaces_document workspaces) (rf_workspaces files) of
                         (docs, Inl e) \<Rightarrow> (\<lparr>rf_repositories = reps, rf_workspaces = docs\<rparr>, Inl e)
                       | (docs, Inr _) \<Rightarrow> (\<lparr>rf_repositories = reps, rf_workspaces = docs\<rparr>, Inr opened))
             else (files, Inr opened))"

definition descriptor_source ::
    "environment \<Rightarrow> workspace_repository list \<Rightarrow> string \<Rightarrow> string + protobuf_descriptor_source" where
  "descriptor_source env repositories path =
     (case ge_canonicalize (env_git env) path of
        Inl e \<Rightarrow> Inl (''invalid protobuf descriptor '' @ utf8_lossy path @ '': '' @ e)
      | Inr path \<Rightarrow>
          if \<not> env_is_file env path then Inl (''protobuf descriptor is not a file: '' @ utf8_lossy path)
          else case max_by_key (\<lambda>r. length (path_components (wr_base r)))
                 (filter (\<lambda>r. prefix (path_components (wr_base r)) (path_components path)) repositories) of
                 None \<Rightarrow> Inl (''protobuf descriptor is outside registered repositories: '' @ utf8_lossy path)
               | Some repository \<Rightarrow> Inr \<lparr>pd_repository = wr_repository repository, pd_path = path\<rparr>)"

definition register_with_plugins ::
    "environment \<Rightarrow> string option \<times> string option \<Rightarrow> string \<Rightarrow> string list \<Rightarrow> string list \<Rightarrow> string list
     \<Rightarrow> workspace_registry \<times> registry_files \<Rightarrow> (workspace_registry \<times> registry_files) \<times> (string + workspace)" where
  "register_with_plugins env failures name repositories descriptors plugins = (\<lambda>(registry, files).
     case rbind (try_map (selection_of env) repositories) (\<lambda>selections.
            rbind (try_map (descriptor_source env selections) descriptors) (\<lambda>sources.
              build_workspace name selections sources plugins)) of
       Inl e \<Rightarrow> ((registry, files), Inl e)
     | Inr ws \<Rightarrow>
         let reg = fold (\<lambda>r reg. fst (remember_selection r reg)) (ws_repositories ws) (wg_repositories registry);
             workspaces = bm_put (ws_name ws) ws (wg_workspaces registry)
         in case write_document (fst failures) (repositories_document reg) (rf_repositories files) of
              (reps, Inl e) \<Rightarrow> ((registry, files\<lparr>rf_repositories := reps\<rparr>), Inl e)
            | (reps, Inr _) \<Rightarrow>
                (case write_document (snd failures) (workspaces_document workspaces) (rf_workspaces files) of
                   (docs, Inl e) \<Rightarrow> ((registry, \<lparr>rf_repositories = reps, rf_workspaces = docs\<rparr>), Inl e)
                 | (docs, Inr _) \<Rightarrow>
                     ((\<lparr>wg_repositories = reg, wg_workspaces = workspaces\<rparr>, \<lparr>rf_repositories = reps, rf_workspaces = docs\<rparr>),
                      Inr ws)))"

definition set_plugin ::
    "string option \<Rightarrow> string \<Rightarrow> string \<Rightarrow> bool \<Rightarrow> workspace_registry \<times> registry_files
     \<Rightarrow> (workspace_registry \<times> registry_files) \<times> (string + workspace)" where
  "set_plugin failure name plugin enabled = (\<lambda>(registry, files).
     if blank plugin then ((registry, files), Inl ''plugin ID must not be empty'')
     else case map_of (wg_workspaces registry) name of
            None \<Rightarrow> ((registry, files), Inl (''workspace not registered: '' @ name))
          | Some ws \<Rightarrow>
              let ws = ws\<lparr>ws_enabled_plugins := (if enabled then bs_insert plugin (ws_enabled_plugins ws)
                                                 else bs_remove plugin (ws_enabled_plugins ws))\<rparr>;
                  workspaces = bm_put name ws (wg_workspaces registry)
              in case write_document failure (workspaces_document workspaces) (rf_workspaces files) of
                   (docs, Inl e) \<Rightarrow> ((registry, files\<lparr>rf_workspaces := docs\<rparr>), Inl e)
                 | (docs, Inr _) \<Rightarrow>
                     ((registry\<lparr>wg_workspaces := workspaces\<rparr>, files\<lparr>rf_workspaces := docs\<rparr>), Inr ws))"

definition registered_workspaces :: "workspace_registry \<Rightarrow> workspace list" where
  "registered_workspaces registry = map snd (wg_workspaces registry)"

definition has_repository :: "string \<Rightarrow> workspace \<Rightarrow> bool" where
  "has_repository identity ws = list_ex (\<lambda>r. wr_identity r = identity) (ws_repositories ws)"

definition workspace_referencing_repository :: "string \<Rightarrow> workspace_registry \<Rightarrow> string option" where
  "workspace_referencing_repository identity registry =
     map_option ws_name (List.find (has_repository identity) (registered_workspaces registry))"

definition workspaces_referencing_repository :: "string \<Rightarrow> workspace_registry \<Rightarrow> workspace list" where
  "workspaces_referencing_repository identity registry = filter (has_repository identity) (registered_workspaces registry)"

text \<open>The registry's view of the two repository operations.\<close>

definition register_repository ::
    "environment \<Rightarrow> string option \<Rightarrow> string \<Rightarrow> workspace_registry \<times> registry_files
     \<Rightarrow> (workspace_registry \<times> registry_files) \<times> (string + registered_repository)" where
  "register_repository env failure path = (\<lambda>(registry, files).
     let ((reg, document), result) = repositories_register env failure path (wg_repositories registry, rf_repositories files)
     in ((registry\<lparr>wg_repositories := reg\<rparr>, files\<lparr>rf_repositories := document\<rparr>), result))"

definition remove_repository ::
    "string option \<Rightarrow> string \<Rightarrow> workspace_registry \<times> registry_files
     \<Rightarrow> (workspace_registry \<times> registry_files) \<times> (string + bool)" where
  "remove_repository failure identity = (\<lambda>(registry, files).
     let ((reg, document), result) = repositories_remove failure identity (wg_repositories registry, rf_repositories files)
     in ((registry\<lparr>wg_repositories := reg\<rparr>, files\<lparr>rf_repositories := document\<rparr>), result))"

section \<open>The registry invariant\<close>

text \<open>The checkouts a selection covers, as components; a merge covers what either side does.\<close>

definition covers :: "workspace_repository \<Rightarrow> path set" where
  "covers r = path_components ` insert (wr_base r) (set (wr_alternatives r))"

lemma covers_merge [simp]: "covers (merge_alternatives t s) = covers t \<union> covers s"
proof -
  have "path_components ` {p \<in> set ps. \<not> path_eq p b} = path_components ` set ps - {path_components b}" for ps b
    by (auto simp: path_eq_def)
  then have "path_components ` set (wr_alternatives (merge_alternatives t s)) =
      path_components ` set (wr_alternatives t @ wr_base s # wr_alternatives s) - {path_components (wr_base t)}"
    by (simp add: merge_alternatives_def keyset_sort_dedup_by)
  then show ?thesis by (auto simp: covers_def)
qed

definition named :: "workspace_repository \<Rightarrow> bool" where
  "named r \<longleftrightarrow> utf8_file_name (wr_base r) = Some (wr_display_name r)"

definition repositories_wf :: "repository_registry \<Rightarrow> bool" where
  "repositories_wf reg \<longleftrightarrow>
     bm_wf reg \<and> (\<forall>i e. map_of reg i = Some e \<longrightarrow> wr_identity (rr_selection e) = i \<and> named (rr_selection e))"

definition knows :: "repository_registry \<Rightarrow> workspace_repository \<Rightarrow> bool" where
  "knows reg r \<longleftrightarrow> (\<exists>e. map_of reg (wr_identity r) = Some e \<and> path_components (wr_base r) \<in> covers (rr_selection e))"

definition registry_wf :: "workspace_registry \<Rightarrow> bool" where
  "registry_wf g \<longleftrightarrow>
     repositories_wf (wg_repositories g) \<and> bm_wf (wg_workspaces g)
     \<and> (\<forall>n ws. map_of (wg_workspaces g) n = Some ws \<longrightarrow> ws_name ws = n \<and> workspace_wf ws
          \<and> (\<forall>r \<in> set (ws_repositories ws). named r \<and> knows (wg_repositories g) r))"

lemma git_display_name_iff: "git_display_name p = Inr n \<longleftrightarrow> utf8_file_name p = Some n"
  by (auto simp: git_display_name_def utf8_file_name_def Let_def)

lemma selection_of_named: "selection_of env p = Inr r \<Longrightarrow> named r"
  using git_workspace_repository_spec(2)
  by (auto simp: selection_of_def named_def git_display_name_iff split: sum.splits if_splits)

text \<open>One more selection, remembered or replacing: what was known stays known.\<close>

definition absorbs :: "repository_registry \<Rightarrow> repository_registry \<Rightarrow> bool" where
  "absorbs reg' reg \<longleftrightarrow> (\<forall>r. knows reg r \<longrightarrow> knows reg' r)"

lemma absorbs_refl [simp]: "absorbs reg reg"
  by (simp add: absorbs_def)

lemma absorbs_trans: "absorbs c b \<Longrightarrow> absorbs b a \<Longrightarrow> absorbs c a"
  by (simp add: absorbs_def)

lemma absorbs_put:
  assumes "\<And>e. map_of reg i = Some e \<Longrightarrow> covers (rr_selection e) \<subseteq> covers s"
  shows "absorbs (bm_put i \<lparr>rr_selection = s\<rparr> reg) reg"
  using assms by (fastforce simp: absorbs_def knows_def)

lemma registered_update [simp]: "(e :: registered_repository)\<lparr>rr_selection := x\<rparr> = \<lparr>rr_selection = x\<rparr>"
  by (cases e) simp

lemma remember_selection_put:
  "fst (remember_selection s reg) = bm_put (wr_identity s)
     \<lparr>rr_selection = (case map_of reg (wr_identity s) of None \<Rightarrow> s | Some e \<Rightarrow> merge_alternatives (rr_selection e) s)\<rparr> reg"
  by (auto simp: remember_selection_def Let_def split: option.splits)

lemma remember_selection_wf:
  assumes "repositories_wf reg" "named s"
  shows "repositories_wf (fst (remember_selection s reg))"
    and "absorbs (fst (remember_selection s reg)) reg" and "knows (fst (remember_selection s reg)) s"
proof -
  show "repositories_wf (fst (remember_selection s reg))"
    using assms by (auto simp: remember_selection_put repositories_wf_def named_def split: option.splits)
  show "absorbs (fst (remember_selection s reg)) reg"
    unfolding remember_selection_put by (intro absorbs_put) simp
  show "knows (fst (remember_selection s reg)) s"
    unfolding remember_selection_put knows_def by (auto simp: covers_def [of s] split: option.splits)
qed

lemma replace_selection_wf:
  assumes "repositories_wf reg" "named s"
  shows "repositories_wf (replace_selection s reg) \<and> absorbs (replace_selection s reg) reg"
proof -
  have "replace_selection s reg = bm_put (wr_identity s)
     \<lparr>rr_selection = (case map_of reg (wr_identity s) of None \<Rightarrow> s | Some e \<Rightarrow> merge_alternatives s (rr_selection e))\<rparr> reg"
    by (simp add: replace_selection_def Let_def split: option.splits)
  then show ?thesis
    using assms by (auto intro!: absorbs_put simp: repositories_wf_def named_def split: option.splits)
qed

lemma remember_all:
  assumes "repositories_wf reg" "\<forall>r \<in> set rs. named r"
  shows "repositories_wf (fold (\<lambda>r reg. fst (remember_selection r reg)) rs reg)
    \<and> absorbs (fold (\<lambda>r reg. fst (remember_selection r reg)) rs reg) reg
    \<and> (\<forall>r \<in> set rs. knows (fold (\<lambda>r reg. fst (remember_selection r reg)) rs reg) r)"
  using assms
proof (induction rs arbitrary: reg)
  case (Cons r rs)
  note step = remember_selection_wf [OF Cons.prems(1), of r]
  from Cons.IH [of "fst (remember_selection r reg)"] Cons.prems step
  show ?case by (auto simp: absorbs_def)
qed simp

lemma registry_wf_grow:
  assumes "registry_wf g" "repositories_wf reg" "absorbs reg (wg_repositories g)"
  shows "registry_wf (g\<lparr>wg_repositories := reg\<rparr>)"
  using assms by (auto simp: registry_wf_def absorbs_def)

text \<open>Building a workspace keeps the base and the name of some selection.\<close>

lemma with_protobuf_descriptors_repositories:
  "with_protobuf_descriptors ws ds = Inr ws' \<Longrightarrow> ws_repositories ws' = ws_repositories ws \<and> ws_name ws' = ws_name ws"
  by (auto simp: with_protobuf_descriptors_def split: option.splits)

lemma with_enabled_plugins_repositories:
  "with_enabled_plugins ws ps = Inr ws' \<Longrightarrow> ws_repositories ws' = ws_repositories ws \<and> ws_name ws' = ws_name ws"
  by (auto simp: with_enabled_plugins_def rbind_Inr_iff)

lemma build_workspace_cases:
  assumes "build_workspace name ss ds ps = Inr ws"
  obtains a b where "workspace_new name ss = Inr a" "with_protobuf_descriptors a ds = Inr b" "with_enabled_plugins b ps = Inr ws"
    "ws_name ws = ws_name a" "ws_repositories ws = ws_repositories a"
  using assms with_protobuf_descriptors_repositories with_enabled_plugins_repositories
  by (auto simp: build_workspace_def rbind_Inr_iff)

lemma build_workspace_wf:
  assumes "build_workspace name ss ds ps = Inr ws"
  shows "workspace_wf ws \<and> ws_name ws = name"
proof -
  obtain a b where a: "workspace_new name ss = Inr a" and b: "with_protobuf_descriptors a ds = Inr b"
    and c: "with_enabled_plugins b ps = Inr ws" "ws_name ws = ws_name a"
    using assms by (rule build_workspace_cases)
  have "workspace_wf ws" using workspace_new_wf [OF a] with_protobuf_descriptors_wf [OF _ b] with_enabled_plugins_wf [OF _ c(1)] by simp
  moreover have "ws_name a = name" using a by (rule workspace_new_cases) simp
  ultimately show ?thesis using c(2) by simp
qed

lemma build_workspace_named:
  assumes "build_workspace name ss ds ps = Inr ws" "\<forall>s \<in> set ss. named s" "r \<in> set (ws_repositories ws)"
  shows "named r"
proof -
  obtain a where a: "workspace_new name ss = Inr a" "ws_repositories ws = ws_repositories a"
    using assms(1) by (rule build_workspace_cases) simp
  from a(1) obtain m where m: "bm_wf m" "map_of m = merged_entry ss" "ws_repositories a = map (settle_alternatives \<circ> snd) m"
    by (auto elim: workspace_new_cases)
  with assms(3) a(2) obtain i e where e: "(i, e) \<in> set m" "r = settle_alternatives e" by auto
  from merged_snd(1) [OF m(1,2) e(1)] obtain f rest where
    "filter (\<lambda>q. wr_identity q = i) ss = f # rest" "wr_base e = wr_base f" "wr_display_name e = wr_display_name f"
    using merged_entry_Some by blast
  moreover from this have "f \<in> set ss" using filter_is_subset [of "\<lambda>q. wr_identity q = i" ss] by auto
  ultimately show ?thesis using assms(2) by (simp add: e(2) named_def)
qed

lemma register_with_plugins_cases:
  obtains (failed) e files' where "register_with_plugins env failures name rs ds ps (g, files) = ((g, files'), Inl e)"
  | (stored) ss sources ws reg where "try_map (selection_of env) rs = Inr ss" "build_workspace name ss sources ps = Inr ws"
      "reg = fold (\<lambda>r reg. fst (remember_selection r reg)) (ws_repositories ws) (wg_repositories g)"
      "register_with_plugins env failures name rs ds ps (g, files) =
        ((\<lparr>wg_repositories = reg, wg_workspaces = bm_put (ws_name ws) ws (wg_workspaces g)\<rparr>,
          \<lparr>rf_repositories = Some (Inr (repositories_document reg)),
           rf_workspaces = Some (Inr (workspaces_document (bm_put (ws_name ws) ws (wg_workspaces g))))\<rparr>), Inr ws)"
proof (cases "rbind (try_map (selection_of env) rs) (\<lambda>selections.
            rbind (try_map (descriptor_source env selections) ds) (\<lambda>sources. build_workspace name selections sources ps))")
  case (Inl e)
  then have "register_with_plugins env failures name rs ds ps (g, files) = ((g, files), Inl e)"
    by (simp add: register_with_plugins_def)
  then show ?thesis by (rule failed)
next
  case (Inr ws)
  then obtain ss sources where b: "try_map (selection_of env) rs = Inr ss" "build_workspace name ss sources ps = Inr ws"
    by (auto simp: rbind_Inr_iff)
  show ?thesis
  proof (cases "fst failures = None \<and> snd failures = None")
    case True
    then show ?thesis using Inr by (intro stored [OF b refl]) (simp add: register_with_plugins_def write_document_def Let_def)
  next
    case False
    then have "\<exists>files' e. register_with_plugins env failures name rs ds ps (g, files) = ((g, files'), Inl e)"
      using Inr by (cases "fst failures"; cases "snd failures") (simp_all add: register_with_plugins_def write_document_def Let_def)
    then show ?thesis using failed by blast
  qed
qed

lemma register_with_plugins_wf:
  assumes "registry_wf g"
  shows "registry_wf (fst (fst (register_with_plugins env failures name rs ds ps (g, files))))"
proof (cases rule: register_with_plugins_cases [of env failures name rs ds ps g files])
  case (failed e files')
  then show ?thesis using assms by simp
next
  case (stored ss sources ws reg)
  have named: "\<forall>s \<in> set ss. named s"
    using stored(1) by (auto simp: try_map_Inr_iff list_all2_conv_all_nth in_set_conv_nth) (metis selection_of_named)
  have wf: "repositories_wf (wg_repositories g)" using assms by (simp add: registry_wf_def)
  have repos: "\<forall>r \<in> set (ws_repositories ws). named r" using build_workspace_named [OF stored(2) named] by blast
  note all = remember_all [OF wf repos, folded stored(3)]
  have "workspace_wf ws" using build_workspace_wf [OF stored(2)] by simp
  then show ?thesis
    unfolding stored(4) using assms all repos by (auto simp: registry_wf_def absorbs_def)
qed

lemma set_plugin_cases:
  obtains (failed) e files' where "set_plugin failure name plugin enabled (g, files) = ((g, files'), Inl e)"
  | (stored) ws ps where "map_of (wg_workspaces g) name = Some ws" "\<not> blank plugin"
      "ps = (if enabled then bs_insert plugin (ws_enabled_plugins ws) else bs_remove plugin (ws_enabled_plugins ws))"
      "fst (fst (set_plugin failure name plugin enabled (g, files))) =
         g\<lparr>wg_workspaces := bm_put name (ws\<lparr>ws_enabled_plugins := ps\<rparr>) (wg_workspaces g)\<rparr>"
      "snd (set_plugin failure name plugin enabled (g, files)) = Inr (ws\<lparr>ws_enabled_plugins := ps\<rparr>)"
proof (cases "blank plugin \<or> map_of (wg_workspaces g) name = None \<or> failure \<noteq> None")
  case True
  then have "\<exists>files' e. set_plugin failure name plugin enabled (g, files) = ((g, files'), Inl e)"
    by (cases "map_of (wg_workspaces g) name"; cases failure) (simp_all add: set_plugin_def write_document_def Let_def)
  then show ?thesis using failed by blast
next
  case False
  then obtain ws where "map_of (wg_workspaces g) name = Some ws" by auto
  with False show ?thesis
    by (intro stored [OF _ _ refl]) (simp_all add: set_plugin_def write_document_def Let_def)
qed

lemma set_plugin_wf:
  assumes "registry_wf g"
  shows "registry_wf (fst (fst (set_plugin failure name plugin enabled (g, files))))"
proof (cases rule: set_plugin_cases [of failure name plugin enabled g files])
  case (failed e files')
  then show ?thesis using assms by simp
next
  case (stored ws ps)
  have ws: "ws_name ws = name" "workspace_wf ws" "\<forall>r \<in> set (ws_repositories ws). named r \<and> knows (wg_repositories g) r"
    using assms stored(1) unfolding registry_wf_def by blast+
  have "workspace_wf (ws\<lparr>ws_enabled_plugins := ps\<rparr>)"
    using ws(2) stored(2) unfolding stored(3) by (auto simp: workspace_wf_def list_all_iff)
  then show ?thesis unfolding stored(4) using assms ws by (auto simp: registry_wf_def)
qed

lemma register_repository_wf:
  assumes "registry_wf g"
  shows "registry_wf (fst (fst (register_repository env failure path (g, files))))"
proof -
  let ?r = "repositories_register env failure path (wg_repositories g, rf_repositories files)"
  have "fst (fst (register_repository env failure path (g, files))) = g\<lparr>wg_repositories := fst (fst ?r)\<rparr>"
    by (simp add: register_repository_def case_prod_beta Let_def)
  moreover have "fst (fst ?r) = wg_repositories g \<or>
      (\<exists>s. named s \<and> fst (fst ?r) = replace_selection s (wg_repositories g))"
    using selection_of_named [of env path]
    by (auto simp: repositories_register_def write_document_def Let_def split: sum.splits option.splits)
  moreover have "repositories_wf (wg_repositories g)" using assms by (simp add: registry_wf_def)
  ultimately show ?thesis
    using registry_wf_grow [OF assms] replace_selection_wf assms by fastforce
qed

lemma not_referenced:
  assumes "workspace_referencing_repository identity g = None" "map_of (wg_workspaces g) n = Some ws"
  shows "identity \<notin> wr_identity ` set (ws_repositories ws)"
proof -
  have "ws \<in> set (registered_workspaces g)"
    using map_of_SomeD [OF assms(2)] by (force simp: registered_workspaces_def)
  then show ?thesis
    using assms(1) by (auto simp: workspace_referencing_repository_def find_None_iff has_repository_def list_ex_iff)
qed

lemma remove_repository_wf:
  assumes "registry_wf g" "workspace_referencing_repository identity g = None"
  shows "registry_wf (fst (fst (remove_repository failure identity (g, files))))"
proof -
  let ?r = "repositories_remove failure identity (wg_repositories g, rf_repositories files)"
  have eq: "fst (fst (remove_repository failure identity (g, files))) = g\<lparr>wg_repositories := fst (fst ?r)\<rparr>"
    by (simp add: remove_repository_def case_prod_beta Let_def)
  have cases: "fst (fst ?r) = wg_repositories g \<or> fst (fst ?r) = bm_remove identity (wg_repositories g)"
    by (auto simp: repositories_remove_def write_document_def Let_def split: option.splits)
  have "repositories_wf (bm_remove identity (wg_repositories g))"
    using assms(1) by (simp add: registry_wf_def repositories_wf_def)
  moreover have "knows (bm_remove identity (wg_repositories g)) r"
    if "map_of (wg_workspaces g) n = Some ws" "r \<in> set (ws_repositories ws)" for n ws r
  proof -
    have "wr_identity r \<noteq> identity" using not_referenced [OF assms(2) that(1)] that(2) by auto
    moreover have "knows (wg_repositories g) r" using assms(1) that unfolding registry_wf_def by blast
    ultimately show ?thesis by (simp add: knows_def)
  qed
  ultimately have "registry_wf (g\<lparr>wg_repositories := bm_remove identity (wg_repositories g)\<rparr>)"
    using assms(1) by (auto simp: registry_wf_def)
  then show ?thesis using cases assms(1) unfolding eq by (elim disjE) simp_all
qed

section \<open>Reopening\<close>

text \<open>What a restart must keep of a repository: its identity, its checkout and its name.\<close>

definition same_checkout :: "workspace_repository \<Rightarrow> workspace_repository \<Rightarrow> bool" where
  "same_checkout s r \<longleftrightarrow>
     wr_repository s = wr_repository r \<and> path_eq (wr_base s) (wr_base r) \<and> wr_display_name s = wr_display_name r"

lemma utf8_file_name_eq: "path_eq p q \<Longrightarrow> utf8_file_name p = utf8_file_name q"
  by (simp add: path_eq_def utf8_file_name_def)

lemma logical_eq_iff: "wr_identity a = wr_identity b \<longleftrightarrow> wr_repository a = wr_repository b"
  by (metis logical_repository.equality old.unit.exhaust)

lemma position_Some: "x \<in> set xs \<Longrightarrow> P x \<Longrightarrow> \<exists>i. position P xs = Some i \<and> i < length xs"
  by (induction xs) auto

lemma select_checkout_known:
  assumes "repositories_wf reg" "knows reg r" "named r"
  shows "\<exists>s. select_checkout env reg (wr_identity r) (wr_base r) = Inr s \<and> same_checkout s r \<and> named s"
proof -
  obtain e where e: "map_of reg (wr_identity r) = Some e" "path_components (wr_base r) \<in> covers (rr_selection e)"
    using assms(2) by (auto simp: knows_def)
  then have id: "wr_identity (rr_selection e) = wr_identity r" "named (rr_selection e)"
    using assms(1) by (auto simp: repositories_wf_def)
  show ?thesis
  proof (cases "path_eq (wr_base (rr_selection e)) (wr_base r)")
    case True
    then have "wr_display_name (rr_selection e) = wr_display_name r"
      using id(2) assms(3) utf8_file_name_eq [OF True] by (simp add: named_def)
    with True e(1) id show ?thesis by (simp add: select_checkout_def same_checkout_def flip: logical_eq_iff)
  next
    case False
    then obtain a where "a \<in> set (wr_alternatives (rr_selection e))" "path_eq a (wr_base r)"
      using e(2) by (auto simp: covers_def path_eq_def)
    from position_Some [OF this(1), of "\<lambda>a. path_eq a (wr_base r)"] this(2)
    obtain i where "position (\<lambda>a. path_eq a (wr_base r)) (wr_alternatives (rr_selection e)) = Some i" by blast
    with False e(1) id(1) assms(3) show ?thesis
      by (simp add: select_checkout_def Let_def named_def same_checkout_def path_eq_def flip: logical_eq_iff)
  qed
qed

lemma open_selections:
  assumes "repositories_wf (os_repositories st)" "\<forall>r \<in> set rs. knows (os_repositories st) r \<and> named r"
  shows "\<exists>st'. try_fold (open_selection env) (map (\<lambda>r. SrSelected (wr_identity r) (wr_base r)) rs) st = Inr st'
    \<and> repositories_wf (os_repositories st') \<and> absorbs (os_repositories st') (os_repositories st)
    \<and> (\<exists>ss. os_selections st' = os_selections st @ ss \<and> list_all2 same_checkout ss rs)"
  using assms
proof (induction rs arbitrary: st)
  case (Cons r rs)
  obtain s where s: "select_checkout env (os_repositories st) (wr_identity r) (wr_base r) = Inr s" "same_checkout s r" "named s"
    using select_checkout_known [of "os_repositories st" r env] Cons.prems by auto
  define st' where "st' = \<lparr>os_repositories = fst (remember_selection s (os_repositories st)),
    os_migrated = os_migrated st, os_changed = (os_changed st \<or> snd (remember_selection s (os_repositories st))),
    os_selections = os_selections st @ [s]\<rparr>"
  have step: "open_selection env (SrSelected (wr_identity r) (wr_base r)) st = Inr st'"
    using s(1) by (simp add: open_selection_def stored_selection_def st'_def case_prod_beta Let_def)
  note wf = remember_selection_wf [OF Cons.prems(1) s(3)]
  have "repositories_wf (os_repositories st')" "absorbs (os_repositories st') (os_repositories st)"
    using wf(1,2) by (simp_all add: st'_def)
  moreover from this(2) have "\<forall>r \<in> set rs. knows (os_repositories st') r \<and> named r"
    using Cons.prems(2) by (auto simp: absorbs_def)
  ultimately obtain st'' ss where "try_fold (open_selection env) (map (\<lambda>r. SrSelected (wr_identity r) (wr_base r)) rs) st' = Inr st''"
    "repositories_wf (os_repositories st'')" "absorbs (os_repositories st'') (os_repositories st')"
    "os_selections st'' = os_selections st' @ ss" "list_all2 same_checkout ss rs"
    using Cons.IH [of st'] by blast
  then show ?case
    using step absorbs_trans [OF _ \<open>absorbs (os_repositories st') (os_repositories st)\<close>] s(2)
    by (intro exI [where x = st'']) (auto simp: st'_def)
qed simp

lemma rebuild_workspace:
  assumes "workspace_wf ws" "list_all2 same_checkout ss (ws_repositories ws)"
  shows "\<exists>ws'. build_workspace (ws_name ws) ss (ws_protobuf_descriptors ws) (ws_enabled_plugins ws) = Inr ws'
    \<and> ws_name ws' = ws_name ws \<and> list_all2 same_checkout (ws_repositories ws') (ws_repositories ws)
    \<and> ws_protobuf_descriptors ws' = ws_protobuf_descriptors ws \<and> ws_enabled_plugins ws' = ws_enabled_plugins ws"
proof -
  have repo: "map wr_repository ss = map wr_repository (ws_repositories ws)" "map wr_display_name ss = map wr_display_name (ws_repositories ws)"
    using assms(2) by (auto simp: same_checkout_def list_all2_conv_all_nth intro!: nth_equalityI)
  then have ids: "map wr_identity ss = map wr_identity (ws_repositories ws)"
    by (metis (no_types, lifting) map_map comp_def map_eq_conv)
  have "\<not> blank (wr_identity s) \<and> \<not> blank (wr_display_name s)" if "s \<in> set ss" for s
  proof -
    from assms(2) that obtain r where "r \<in> set (ws_repositories ws)" "same_checkout s r"
      by (metis list_all2_conv_all_nth in_set_conv_nth)
    then show ?thesis using assms(1) logical_eq_iff [of s r]
      by (auto simp: workspace_wf_def list_all_iff repository_wf_def same_checkout_def)
  qed
  moreover have "ascending (map wr_identity ss)" "ss \<noteq> []" "\<not> blank (ws_name ws)"
    using assms ids by (auto simp: workspace_wf_def)
  ultimately have new: "workspace_new (ws_name ws) ss = Inr \<lparr>ws_name = ws_name ws, ws_repositories = map settle_alternatives ss,
      ws_protobuf_descriptors = [], ws_enabled_plugins = []\<rparr>" (is "_ = Inr ?a")
    by (simp add: workspace_new_def merge_distinct)
  have "List.find (\<lambda>d. \<not> list_ex (\<lambda>r. wr_repository r = pd_repository d) (ws_repositories ?a)) (ws_protobuf_descriptors ws) = None"
    unfolding find_None_iff_all
  proof
    fix d
    assume "d \<in> set (ws_protobuf_descriptors ws)"
    then have "pd_repository d \<in> set (map wr_repository (ws_repositories ws))"
      using assms(1) by (auto simp: workspace_wf_def)
    then have "pd_repository d \<in> wr_repository ` set ss" unfolding repo(1) [symmetric] by simp
    then show "\<not> \<not> list_ex (\<lambda>r. wr_repository r = pd_repository d) (ws_repositories ?a)"
      by (auto simp: list_ex_iff)
  qed
  then have desc: "with_protobuf_descriptors ?a (ws_protobuf_descriptors ws) =
      Inr (?a\<lparr>ws_protobuf_descriptors := ws_protobuf_descriptors ws\<rparr>)" (is "_ = Inr ?b")
    using assms(1) by (simp add: with_protobuf_descriptors_def sort_dedup_by_id workspace_wf_def)
  have "try_map (\<lambda>plugin. if \<not> blank plugin then Inr plugin else Inl ''enabled plugin ID must not be empty'') (ws_enabled_plugins ws)
      = Inr (map id (ws_enabled_plugins ws))"
    using assms(1) by (intro try_map_all) (simp add: workspace_wf_def list_all_iff)
  then have plug: "with_enabled_plugins ?b (ws_enabled_plugins ws) = Inr (?b\<lparr>ws_enabled_plugins := ws_enabled_plugins ws\<rparr>)"
    using assms(1) by (simp add: with_enabled_plugins_def bs_of_list_id workspace_wf_def)
  have "list_all2 same_checkout (map settle_alternatives ss) (ws_repositories ws)"
    using assms(2) by (auto simp: list_all2_conv_all_nth same_checkout_def)
  then show ?thesis using new desc plug by (simp add: build_workspace_def)
qed

definition same_workspace :: "workspace \<Rightarrow> workspace \<Rightarrow> bool" where
  "same_workspace a b \<longleftrightarrow>
     ws_name a = ws_name b \<and> list_all2 same_checkout (ws_repositories a) (ws_repositories b)
     \<and> ws_protobuf_descriptors a = ws_protobuf_descriptors b \<and> ws_enabled_plugins a = ws_enabled_plugins b"

lemma bm_of_list_id: "bm_wf m \<Longrightarrow> bm_of_list m = m"
  by (intro bm_ext) (simp_all add: map_of_bm_of_list bm_wf_distinct map_of_inject_set rev_map [symmetric])

lemma repositories_reopen:
  assumes "repositories_wf reg"
  shows "repositories_open (Some (Inr (repositories_document reg))) = Inr reg"
proof -
  have "map (\<lambda>s. (wr_identity s, \<lparr>rr_selection = s\<rparr>)) (repositories_document reg) = map id reg"
    unfolding repositories_document_def map_map
  proof (intro map_cong refl)
    fix p
    assume "p \<in> set reg"
    moreover obtain i e where p: "p = (i, e)" by (cases p)
    ultimately have "map_of reg i = Some e" using assms by (simp add: repositories_wf_def bm_wf_in_iff)
    then have "wr_identity (rr_selection e) = i" using assms by (simp add: repositories_wf_def)
    then show "((\<lambda>s. (wr_identity s, \<lparr>rr_selection = s\<rparr>)) \<circ> (rr_selection \<circ> snd)) p = id p" by (cases e) (simp add: p)
  qed
  then show ?thesis using assms by (simp add: repositories_open_def bm_of_list_id repositories_wf_def)
qed

lemma descriptors_back:
  "map ((\<lambda>(r, p). \<lparr>pd_repository = \<lparr>lr_identity = r\<rparr>, pd_path = p\<rparr>) \<circ> (\<lambda>d. (lr_identity (pd_repository d), pd_path d))) ds = ds"
  by (rule map_idI) simp

definition stored_form :: "workspace \<Rightarrow> stored_workspace" where
  "stored_form ws = \<lparr>sw_name = ws_name ws, sw_repositories = map (\<lambda>r. SrSelected (wr_identity r) (wr_base r)) (ws_repositories ws),
     sw_protobuf_descriptors = map (\<lambda>d. (lr_identity (pd_repository d), pd_path d)) (ws_protobuf_descriptors ws),
     sw_enabled_plugins = ws_enabled_plugins ws\<rparr>"

lemma workspaces_document_form: "workspaces_document W = map (stored_form \<circ> snd) W"
  by (simp add: workspaces_document_def stored_form_def case_prod_beta comp_def)

lemma open_workspace_known:
  assumes "repositories_wf (os_repositories st)" "workspace_wf ws"
    and "\<forall>r \<in> set (ws_repositories ws). named r \<and> knows (os_repositories st) r"
  shows "\<exists>st' ws'. open_workspace env (stored_form ws) (st, acc) = Inr (st', bm_put (ws_name ws) ws' acc)
    \<and> repositories_wf (os_repositories st') \<and> absorbs (os_repositories st') (os_repositories st) \<and> same_workspace ws' ws"
proof -
  let ?st = "st\<lparr>os_selections := []\<rparr>"
  obtain st' ss where st': "try_fold (open_selection env) (map (\<lambda>r. SrSelected (wr_identity r) (wr_base r)) (ws_repositories ws)) ?st = Inr st'"
    "repositories_wf (os_repositories st')" "absorbs (os_repositories st') (os_repositories st)"
    "os_selections st' = ss" "list_all2 same_checkout ss (ws_repositories ws)"
    using open_selections [of ?st "ws_repositories ws" env] assms(1,3) by auto
  obtain ws' where "build_workspace (ws_name ws) ss (ws_protobuf_descriptors ws) (ws_enabled_plugins ws) = Inr ws'"
    "ws_name ws' = ws_name ws" "same_workspace ws' ws"
    using rebuild_workspace [OF assms(2) st'(5)] by (auto simp: same_workspace_def)
  with st' show ?thesis
    by (intro exI [where x = st'] exI [where x = ws']) (simp add: open_workspace_def stored_form_def descriptors_back)
qed

lemma open_workspaces:
  assumes "repositories_wf (os_repositories st)" "distinct (map fst W)" "bm_wf acc"
    and "\<forall>(n, ws) \<in> set W. ws_name ws = n \<and> workspace_wf ws \<and> (\<forall>r \<in> set (ws_repositories ws). named r \<and> knows (os_repositories st) r)"
  shows "\<exists>st' acc'. try_fold (open_workspace env) (map (stored_form \<circ> snd) W) (st, acc) = Inr (st', acc')
    \<and> repositories_wf (os_repositories st') \<and> bm_wf acc'
    \<and> (\<forall>n. case map_of W n of None \<Rightarrow> map_of acc' n = map_of acc n | Some ws \<Rightarrow> \<exists>a. map_of acc' n = Some a \<and> same_workspace a ws)"
  using assms
proof (induction W arbitrary: st acc)
  case (Cons p W)
  obtain n ws where p: "p = (n, ws)" by (cases p)
  have ws: "ws_name ws = n" "workspace_wf ws" "\<forall>r \<in> set (ws_repositories ws). named r \<and> knows (os_repositories st) r"
    using Cons.prems(4) by (simp_all add: p)
  from open_workspace_known [OF Cons.prems(1) ws(2,3), of env acc]
  obtain st' ws' where step: "open_workspace env (stored_form ws) (st, acc) = Inr (st', bm_put n ws' acc)"
    "repositories_wf (os_repositories st')" "absorbs (os_repositories st') (os_repositories st)" "same_workspace ws' ws"
    unfolding ws(1) by blast
  have keys: "distinct (map fst W)" "bm_wf (bm_put n ws' acc)" using Cons.prems(2,3) by simp_all
  have "\<forall>(n, ws) \<in> set W. ws_name ws = n \<and> workspace_wf ws \<and> (\<forall>r \<in> set (ws_repositories ws). named r \<and> knows (os_repositories st') r)"
    using Cons.prems(4) step(3) by (auto simp: absorbs_def)
  from Cons.IH [OF step(2) keys this] obtain st'' acc'' where rest: "try_fold (open_workspace env) (map (stored_form \<circ> snd) W) (st', bm_put n ws' acc) = Inr (st'', acc'')"
    "repositories_wf (os_repositories st'')" "bm_wf acc''"
    "\<forall>m. case map_of W m of None \<Rightarrow> map_of acc'' m = map_of (bm_put n ws' acc) m | Some ws \<Rightarrow> \<exists>a. map_of acc'' m = Some a \<and> same_workspace a ws"
    by blast
  have "map_of W n = None" using Cons.prems(2) by (simp add: p map_of_eq_None_iff)
  then have "map_of acc'' n = Some ws'" using rest(4) [rule_format, of n] by simp
  then have "case map_of (p # W) m of None \<Rightarrow> map_of acc'' m = map_of acc m | Some ws \<Rightarrow> \<exists>a. map_of acc'' m = Some a \<and> same_workspace a ws" for m
    using rest(4) [rule_format, of m] step(4) by (cases "m = n"; cases "map_of W m") (simp_all add: p)
  then show ?case using step(1) rest(1-3) by (intro exI [where x = st''] exI [where x = acc'']) (simp add: p comp_def)
qed simp

lemma registry_reopen:
  assumes "registry_wf g" "rf_repositories files = Some (Inr (repositories_document (wg_repositories g)))"
    and "rf_workspaces files = Some (Inr (workspaces_document (wg_workspaces g)))"
  shows "\<exists>g'. snd (registry_open env (None, None) files) = Inr g'
    \<and> (\<forall>n. rel_option same_workspace (map_of (wg_workspaces g') n) (map_of (wg_workspaces g) n))"
proof -
  let ?start = "\<lparr>os_repositories = wg_repositories g, os_migrated = False, os_changed = False, os_selections = []\<rparr>"
  have wf: "repositories_wf (wg_repositories g)" "bm_wf (wg_workspaces g)" using assms(1) by (simp_all add: registry_wf_def)
  have all: "\<forall>(n, ws) \<in> set (wg_workspaces g). ws_name ws = n \<and> workspace_wf ws
      \<and> (\<forall>r \<in> set (ws_repositories ws). named r \<and> knows (wg_repositories g) r)"
    using assms(1) wf(2) by (auto simp: registry_wf_def bm_wf_in_iff)
  obtain st' acc' where opened: "try_fold (open_workspace env) (map (stored_form \<circ> snd) (wg_workspaces g)) (?start, []) = Inr (st', acc')"
    and same: "\<forall>n. case map_of (wg_workspaces g) n of None \<Rightarrow> map_of acc' n = map_of [] n
        | Some ws \<Rightarrow> \<exists>a. map_of acc' n = Some a \<and> same_workspace a ws"
    using open_workspaces [of ?start "wg_workspaces g" "[]" env] wf all bm_wf_distinct [OF wf(2)] by auto
  have rel: "rel_option same_workspace (map_of acc' n) (map_of (wg_workspaces g) n)" for n
    using same [rule_format, of n] by (auto split: option.splits)
  have "snd (registry_open env (None, None) files) = Inr \<lparr>wg_repositories = os_repositories st', wg_workspaces = acc'\<rparr>"
    using assms(2,3) repositories_reopen [OF wf(1)] opened
    by (simp add: registry_open_def workspaces_document_form write_document_def Let_def)
  with rel show ?thesis by simp
qed

section \<open>Properties\<close>

definition example_environment :: environment where
  "example_environment =
     \<lparr>env_git = \<lparr>ge_canonicalize = Inr, ge_exists = (\<lambda>_. True), ge_discover = (\<lambda>_. None),
        ge_worktree_list = (\<lambda>_. Inl []), ge_sha256 = (\<lambda>_. ''0'')\<rparr>,
      env_is_dir = (\<lambda>_. True), env_is_file = (\<lambda>_. True)\<rparr>"

definition example_registration :: "(workspace_registry \<times> registry_files) \<times> (string + workspace)" where
  "example_registration = register_with_plugins example_environment (None, None) ''w'' [''/a''] [] []
     (\<lparr>wg_repositories = [], wg_workspaces = []\<rparr>, \<lparr>rf_repositories = None, rf_workspaces = None\<rparr>)"



text \<open>
  C25. A registration survives a restart: the files a successful registration leaves open without an
  error, whatever the file system and git answer then, to the same workspaces, with the same
  repositories, checkouts and names, descriptors and plugins.
\<close>

theorem registration_survives_restart:
  assumes "registry_wf g" "register_with_plugins env failures name rs ds ps (g, files) = ((g', files'), Inr ws)"
  shows "\<exists>g''. snd (registry_open env' (None, None) files') = Inr g''
    \<and> (\<forall>n. rel_option same_workspace (map_of (wg_workspaces g'') n) (map_of (wg_workspaces g') n))"
proof (rule registry_reopen)
  show "registry_wf g'" using register_with_plugins_wf [OF assms(1), of env failures name rs ds ps files] assms(2) by simp
  show "rf_repositories files' = Some (Inr (repositories_document (wg_repositories g')))"
    "rf_workspaces files' = Some (Inr (workspaces_document (wg_workspaces g')))"
    using assms(2) by (cases rule: register_with_plugins_cases [of env failures name rs ds ps g files]; auto)+
qed


theorem registration_survives_restart_witness:
  "\<exists>g. snd (registry_open example_environment (None, None) (snd (fst example_registration))) = Inr g"
proof -
  have "registry_wf \<lparr>wg_repositories = [], wg_workspaces = []\<rparr>" by (simp add: registry_wf_def repositories_wf_def)
  moreover have "\<not> isl (snd example_registration)" by code_simp
  then obtain ws where "example_registration = ((fst (fst example_registration), snd (fst example_registration)), Inr ws)"
    by (metis prod.collapse sum.collapse(2))
  ultimately show ?thesis
    using registration_survives_restart unfolding example_registration_def by blast
qed

end
