(* ===== verification/Job_Types.thy ===== *)
theory Job_Types imports Paths begin

text \<open>
  The jobs of the durable queue, \<open>crates/daemon/src/jobs.rs\<close>, first part: what an index or an
  enrichment job asks for and what it reports. The scheduler and the queue share them.
\<close>

datatype job_trigger = Automatic | Manual

datatype index_target =
    ItWorkspace (it_workspace: string)
  | ItRepository (it_repository: string) (it_workspace_scope: "string option")

datatype repository_change =
    SourcePath string
  | ConfigurationPath string
  | HeadChange
  | Reconciliation

record durable_intent =
  di_repository :: string
  di_changes :: "repository_change list"

type_synonym index_job_id = string

record index_job =
  ij_target :: index_target
  ij_trigger :: job_trigger
  ij_prerequisite_index_jobs :: "index_job_id list"
  ij_generation :: "u64 option"
  ij_repository_intents :: "durable_intent list"

datatype index_outcome = IoPublished | IoUnchanged | IoSuperseded

datatype index_destination = IdWorkspace string | IdStandaloneRepository string

record index_destination_result =
  idr_destination :: index_destination
  idr_observation_count :: nat
  idr_published :: bool
  idr_outcome :: index_outcome

type_synonym index_job_result = "index_destination_result list"

datatype enrichment_target =
    EtWorkspaceRepository string string
  | EtStandaloneRepository string

record enrichment_job =
  ej_target :: enrichment_target
  ej_worker_id :: string
  ej_expected_worker_version :: string
  ej_trigger :: job_trigger
  ej_prerequisite_index_jobs :: "index_job_id list"
  ej_input_fingerprint :: "string option"

datatype enrichment_outcome = EoPublished | EoUnchanged | EoAlreadyCurrent | EoSuperseded

record enrichment_job_result =
  ejr_target :: enrichment_target
  ejr_worker_id :: string
  ejr_expected_worker_version :: string
  ejr_outcome :: enrichment_outcome
  ejr_failed_prerequisite_index_jobs :: "index_job_id list"

definition index_job_summary :: "index_job \<Rightarrow> string" where
  "index_job_summary job =
     (case ij_target job of
        ItWorkspace workspace \<Rightarrow> ''index workspace '' @ workspace
      | ItRepository repository (Some workspace) \<Rightarrow> ''index repository '' @ repository @ '' in workspace '' @ workspace
      | ItRepository repository None \<Rightarrow> ''index repository '' @ repository)"

definition enrichment_job_summary :: "enrichment_job \<Rightarrow> string" where
  "enrichment_job_summary job =
     (case ej_target job of
        EtWorkspaceRepository workspace repository \<Rightarrow>
          ''enrich repository '' @ repository @ '' in workspace '' @ workspace @ '' with worker '' @ ej_worker_id job
      | EtStandaloneRepository repository \<Rightarrow>
          ''enrich repository '' @ repository @ '' with worker '' @ ej_worker_id job)"

end
