(* ===== verification/Dirty_Repository.thy ===== *)
theory Dirty_Repository imports Job_Types begin

text \<open>
  \<open>crates/daemon/src/indexing/scheduler.rs\<close>, first part: the pending changes of a repository. Paths
  are relative to the repository and held as their components, which is what \<open>BTreeSet<PathBuf>\<close>
  orders by; their text matters only for durable intents.
\<close>

section \<open>Pending changes\<close>

definition MAX_PENDING_PATHS :: nat where "MAX_PENDING_PATHS = 1024"
definition MAX_PENDING_EVENTS :: nat where "MAX_PENDING_EVENTS = 4096"

record dirty_repository =
  dy_all :: bool
  dy_reconcile :: bool
  dy_head :: bool
  dy_sources :: "path bset"
  dy_configuration :: "path bset"
  dy_events :: nat

datatype repository_intent =
    RiAll
  | RiReconcile
  | RiHead
  | RiSource path
  | RiConfiguration path

definition dirty_default :: dirty_repository where
  "dirty_default =
     \<lparr>dy_all = False, dy_reconcile = False, dy_head = False, dy_sources = [], dy_configuration = [], dy_events = 0\<rparr>"

definition authoritative :: "dirty_repository \<Rightarrow> bool" where
  "authoritative d \<longleftrightarrow> dy_all d \<or> dy_reconcile d"

fun dirty_apply :: "repository_intent \<Rightarrow> dirty_repository \<Rightarrow> dirty_repository" where
  "dirty_apply RiAll d = d\<lparr>dy_all := True, dy_reconcile := False, dy_sources := [], dy_configuration := []\<rparr>"
| "dirty_apply RiReconcile d =
     (if \<not> dy_all d then d\<lparr>dy_reconcile := True, dy_sources := [], dy_configuration := []\<rparr> else d)"
| "dirty_apply RiHead d = d\<lparr>dy_head := True\<rparr>"
| "dirty_apply (RiSource path) d =
     (if \<not> dy_all d \<and> \<not> dy_reconcile d then d\<lparr>dy_sources := bs_insert path (dy_sources d)\<rparr> else d)"
| "dirty_apply (RiConfiguration path) d =
     (if \<not> dy_all d \<and> \<not> dy_reconcile d then d\<lparr>dy_configuration := bs_insert path (dy_configuration d)\<rparr> else d)"

definition from_intent :: "repository_intent \<Rightarrow> dirty_repository" where
  "from_intent intent = dirty_apply intent dirty_default"

definition path_count :: "dirty_repository \<Rightarrow> nat" where
  "path_count d = length (dy_sources d) + length (dy_configuration d)"

definition source_count :: "dirty_repository \<Rightarrow> nat" where
  "source_count d = length (dy_sources d)"

definition dirty_paths :: "dirty_repository \<Rightarrow> path bset" where
  "dirty_paths d = bs_of_list (dy_sources d @ dy_configuration d)"

definition saturating_add :: "nat \<Rightarrow> nat \<Rightarrow> nat" where
  "saturating_add a b = min usize_max (a + b)"

definition limit_pending :: "dirty_repository \<Rightarrow> dirty_repository" where
  "limit_pending d =
     (if dy_events d > MAX_PENDING_EVENTS \<or> path_count d > MAX_PENDING_PATHS then dirty_apply RiReconcile d else d)"

definition record_event :: "dirty_repository \<Rightarrow> dirty_repository" where
  "record_event d = limit_pending (d\<lparr>dy_events := saturating_add (dy_events d) 1\<rparr>)"

definition merge_intents :: "dirty_repository \<Rightarrow> dirty_repository \<Rightarrow> dirty_repository" where
  "merge_intents d incoming =
     (if dy_all incoming then dirty_apply RiAll d
      else if dy_reconcile incoming then dirty_apply RiReconcile d
      else
        let d = (if dy_head incoming then dirty_apply RiHead d else d);
            d = fold (\<lambda>path. dirty_apply (RiSource path)) (dy_sources incoming) d
        in fold (\<lambda>path. dirty_apply (RiConfiguration path)) (dy_configuration incoming) d)"

definition dirty_merge :: "dirty_repository \<Rightarrow> dirty_repository \<Rightarrow> dirty_repository" where
  "dirty_merge d incoming =
     (let d = merge_intents d incoming
      in limit_pending (d\<lparr>dy_events := saturating_add (dy_events d) (dy_events incoming)\<rparr>))"

definition dirty_is_empty :: "dirty_repository \<Rightarrow> bool" where
  "dirty_is_empty d \<longleftrightarrow>
     \<not> dy_all d \<and> \<not> dy_reconcile d \<and> \<not> dy_head d \<and> dy_sources d = [] \<and> dy_configuration d = []"

definition head_only :: "dirty_repository \<Rightarrow> bool" where
  "head_only d \<longleftrightarrow>
     dy_head d \<and> \<not> dy_all d \<and> \<not> dy_reconcile d \<and> dy_sources d = [] \<and> dy_configuration d = []"

text \<open>\<open>to_string_lossy\<close> of a path, and the path of a text.\<close>

definition durable :: "string \<Rightarrow> dirty_repository \<Rightarrow> durable_intent" where
  "durable repository d =
     \<lparr>di_repository = repository,
      di_changes =
        (if dy_all d \<or> dy_reconcile d then [Reconciliation]
         else map (\<lambda>p. SourcePath (utf8_lossy (path_text p))) (dy_sources d)
           @ map (\<lambda>p. ConfigurationPath (utf8_lossy (path_text p))) (dy_configuration d))
        @ (if dy_head d then [HeadChange] else [])\<rparr>"

fun intent_of_change :: "repository_change \<Rightarrow> repository_intent" where
  "intent_of_change (SourcePath p) = RiSource (path_components p)"
| "intent_of_change (ConfigurationPath p) = RiConfiguration (path_components p)"
| "intent_of_change HeadChange = RiHead"
| "intent_of_change Reconciliation = RiReconcile"

definition from_durable :: "durable_intent \<Rightarrow> dirty_repository" where
  "from_durable intent = fold (dirty_apply \<circ> intent_of_change) (di_changes intent) dirty_default"

section \<open>What is pending\<close>

text \<open>
  The abstract view: every path of the repository is pending, or a set of paths is. The invariant:
  no paths are listed beside a request for everything, and what is listed is bounded.
\<close>

definition dirty_wf :: "dirty_repository \<Rightarrow> bool" where
  "dirty_wf d \<longleftrightarrow>
     ascending (dy_sources d) \<and> ascending (dy_configuration d) \<and> \<not> (dy_all d \<and> dy_reconcile d)
     \<and> (authoritative d \<longrightarrow> dy_sources d = [] \<and> dy_configuration d = [])"

definition dirty_bounded :: "dirty_repository \<Rightarrow> bool" where
  "dirty_bounded d \<longleftrightarrow>
     dirty_wf d \<and> path_count d \<le> MAX_PENDING_PATHS \<and> (dy_events d > MAX_PENDING_EVENTS \<longrightarrow> authoritative d)"

definition pending :: "dirty_repository \<Rightarrow> path \<Rightarrow> bool" where
  "pending d p \<longleftrightarrow> authoritative d \<or> p \<in> set (dy_sources d) \<or> p \<in> set (dy_configuration d)"

lemma dirty_default_wf: "dirty_wf dirty_default" "dirty_bounded dirty_default"
  by (simp_all add: dirty_wf_def dirty_bounded_def dirty_default_def path_count_def authoritative_def)

lemma dirty_apply_wf [wf_intros]: "dirty_wf d \<Longrightarrow> dirty_wf (dirty_apply intent d)"
  by (cases intent) (auto simp: dirty_wf_def authoritative_def)

fun intent_pending :: "repository_intent \<Rightarrow> path \<Rightarrow> bool" where
  "intent_pending RiAll p = True"
| "intent_pending RiReconcile p = True"
| "intent_pending RiHead p = False"
| "intent_pending (RiSource q) p = (p = q)"
| "intent_pending (RiConfiguration q) p = (p = q)"

text \<open>Each intent adds exactly what it names.\<close>

lemma dirty_apply_pending:
  "pending (dirty_apply intent d) p \<longleftrightarrow> pending d p \<or> intent_pending intent p"
  by (cases intent) (auto simp: pending_def authoritative_def)

lemma dirty_apply_authoritative:
  "authoritative (dirty_apply intent d) \<longleftrightarrow> authoritative d \<or> intent \<in> {RiAll, RiReconcile}"
  by (cases intent) (auto simp: authoritative_def)

lemma dirty_apply_head: "dy_head (dirty_apply intent d) \<longleftrightarrow> dy_head d \<or> intent = RiHead"
  by (cases intent) auto

lemma dirty_apply_events [simp]: "dy_events (dirty_apply intent d) = dy_events d"
  by (cases intent) auto

lemma dirty_apply_sources:
  "set (dy_sources (dirty_apply intent d)) =
     (if intent \<in> {RiAll, RiReconcile} \<and> (intent = RiAll \<or> \<not> dy_all d) then {}
      else set (dy_sources d) \<union> (if authoritative d then {} else {p. intent = RiSource p}))"
  by (cases intent) (auto simp: authoritative_def)

lemma fold_apply_wf: "dirty_wf d \<Longrightarrow> dirty_wf (fold dirty_apply intents d)"
  by (induction intents arbitrary: d) (auto intro: dirty_apply_wf)

lemma fold_apply_pending:
  "pending (fold dirty_apply intents d) p \<longleftrightarrow> pending d p \<or> (\<exists>i \<in> set intents. intent_pending i p)"
  by (induction intents arbitrary: d) (auto simp: dirty_apply_pending)

lemma fold_apply_authoritative:
  "authoritative (fold dirty_apply intents d) \<longleftrightarrow> authoritative d \<or> RiAll \<in> set intents \<or> RiReconcile \<in> set intents"
  by (induction intents arbitrary: d) (auto simp: dirty_apply_authoritative)

lemma fold_apply_head: "dy_head (fold dirty_apply intents d) \<longleftrightarrow> dy_head d \<or> RiHead \<in> set intents"
  by (induction intents arbitrary: d) (auto simp: dirty_apply_head)

lemma fold_apply_events [simp]: "dy_events (fold dirty_apply intents d) = dy_events d"
  by (induction intents arbitrary: d) auto

text \<open>The intents of a merge.\<close>

definition intents_of :: "dirty_repository \<Rightarrow> repository_intent list" where
  "intents_of d =
     (if dy_all d then [RiAll] else if dy_reconcile d then [RiReconcile]
      else (if dy_head d then [RiHead] else []) @ map RiSource (dy_sources d) @ map RiConfiguration (dy_configuration d))"

lemma merge_intents_fold: "merge_intents d incoming = fold dirty_apply (intents_of incoming) d"
  by (simp add: merge_intents_def intents_of_def Let_def fold_map comp_def)

lemma intents_of_pending: "(\<exists>i \<in> set (intents_of d). intent_pending i p) \<longleftrightarrow> pending d p"
  by (auto simp: intents_of_def pending_def authoritative_def bex_Un)

lemma intents_of_authoritative: "RiAll \<in> set (intents_of d) \<or> RiReconcile \<in> set (intents_of d) \<longleftrightarrow> authoritative d"
  by (auto simp: intents_of_def authoritative_def)

lemma intents_of_head: "RiHead \<in> set (intents_of d) \<longleftrightarrow> dy_head d \<and> \<not> authoritative d"
  by (auto simp: intents_of_def authoritative_def)

lemma limit_pending_cases:
  "limit_pending d = (if dy_events d > MAX_PENDING_EVENTS \<or> path_count d > MAX_PENDING_PATHS then dirty_apply RiReconcile d else d)"
  by (simp add: limit_pending_def)

lemma limit_pending_bounded: "dirty_wf d \<Longrightarrow> dirty_bounded (limit_pending d)"
  using dirty_apply_wf [of d RiReconcile]
  by (auto simp: limit_pending_def dirty_bounded_def authoritative_def path_count_def dirty_wf_def)

lemma fold_source: "\<not> authoritative d \<Longrightarrow>
  fold dirty_apply (map RiSource ps) d = d\<lparr>dy_sources := fold bs_insert ps (dy_sources d)\<rparr>"
  by (induction ps arbitrary: d) (simp_all add: authoritative_def)

lemma fold_configuration: "\<not> authoritative d \<Longrightarrow>
  fold dirty_apply (map RiConfiguration ps) d = d\<lparr>dy_configuration := fold bs_insert ps (dy_configuration d)\<rparr>"
  by (induction ps arbitrary: d) (simp_all add: authoritative_def)

lemma merge_intents_paths:
  assumes "\<not> authoritative d" "\<not> authoritative incoming"
  shows "merge_intents d incoming = d\<lparr>dy_head := dy_head d \<or> dy_head incoming,
    dy_sources := bs_union (dy_sources d) (dy_sources incoming),
    dy_configuration := bs_union (dy_configuration d) (dy_configuration incoming)\<rparr>"
proof -
  let ?h = "d\<lparr>dy_head := dy_head d \<or> dy_head incoming\<rparr>"
  have "merge_intents d incoming =
      fold dirty_apply (map RiConfiguration (dy_configuration incoming)) (fold dirty_apply (map RiSource (dy_sources incoming)) ?h)"
    using assms by (simp add: merge_intents_fold intents_of_def authoritative_def)
  then show ?thesis
    using assms(1) by (simp add: fold_source fold_configuration authoritative_def bs_union_def)
qed

text \<open>Paths of a durable intent come back as they were.\<close>

definition durable_paths :: "dirty_repository \<Rightarrow> bool" where
  "durable_paths d \<longleftrightarrow>
     (\<forall>p \<in> set (dy_sources d) \<union> set (dy_configuration d). plain_path p \<and> utf8_valid (path_text p))"

lemma durable_paths_back:
  assumes "durable_paths d" "p \<in> set (dy_sources d) \<union> set (dy_configuration d)"
  shows "path_components (utf8_lossy (path_text p)) = p"
  using assms by (simp add: durable_paths_def utf8_lossy_valid path_components_text)

definition example_dirty :: dirty_repository where
  "example_dirty = dirty_default\<lparr>dy_head := True, dy_sources := [path_components ''src/lib.rs''], dy_events := 1\<rparr>"

lemma events_irrelevant [simp]:
  "pending (d\<lparr>dy_events := n\<rparr>) = pending d" "authoritative (d\<lparr>dy_events := n\<rparr>) = authoritative d"
  "dirty_wf (d\<lparr>dy_events := n\<rparr>) = dirty_wf d" "path_count (d\<lparr>dy_events := n\<rparr>) = path_count d"
  by (simp_all add: pending_def authoritative_def dirty_wf_def path_count_def fun_eq_iff)

section \<open>Properties\<close>

text \<open>
  C23. Merging pending changes loses nothing and stays bounded: a path is pending afterwards exactly
  when it was pending in either, or the batch overflowed, in which case everything is (a
  reconciliation); without overflow the listed paths are the unions. At most 1,024 paths are ever
  listed, and past 4,096 events a reconciliation is requested.
\<close>

theorem dirty_merge_exact:
  assumes "dirty_wf d" "dirty_wf incoming"
  defines "overflow \<equiv> saturating_add (dy_events d) (dy_events incoming) > 4096
    \<or> \<not> authoritative d \<and> \<not> authoritative incoming
      \<and> length (bs_union (dy_sources d) (dy_sources incoming))
        + length (bs_union (dy_configuration d) (dy_configuration incoming)) > 1024"
  shows "dirty_bounded (dirty_merge d incoming)
    \<and> (pending (dirty_merge d incoming) p \<longleftrightarrow> pending d p \<or> pending incoming p \<or> overflow)
    \<and> (authoritative (dirty_merge d incoming) \<longleftrightarrow> authoritative d \<or> authoritative incoming \<or> overflow)
    \<and> (dy_head (dirty_merge d incoming) \<longleftrightarrow> dy_head d \<or> dy_head incoming \<and> \<not> authoritative incoming)
    \<and> (\<not> authoritative (dirty_merge d incoming) \<longrightarrow>
         dy_sources (dirty_merge d incoming) = bs_union (dy_sources d) (dy_sources incoming)
         \<and> dy_configuration (dirty_merge d incoming) = bs_union (dy_configuration d) (dy_configuration incoming))"
proof -
  define m where "m = (merge_intents d incoming)\<lparr>dy_events := saturating_add (dy_events d) (dy_events incoming)\<rparr>"
  have ev: "dy_events (merge_intents d incoming) = dy_events d" by (simp add: merge_intents_fold)
  have merge: "dirty_merge d incoming = limit_pending m"
    unfolding dirty_merge_def Let_def m_def by (simp add: merge_intents_fold)
  have m_sel: "pending m p \<longleftrightarrow> pending d p \<or> pending incoming p"
    "authoritative m \<longleftrightarrow> authoritative d \<or> authoritative incoming"
    "dy_head m \<longleftrightarrow> dy_head d \<or> dy_head incoming \<and> \<not> authoritative incoming"
    using fold_apply_pending [of "intents_of incoming" d p] intents_of_pending [of incoming p]
      fold_apply_authoritative [of "intents_of incoming" d] intents_of_authoritative [of incoming]
      fold_apply_head [of "intents_of incoming" d] intents_of_head [of incoming]
    by (simp_all add: m_def merge_intents_fold)
  have wf: "dirty_wf m"
    using fold_apply_wf [OF assms(1), of "intents_of incoming"] by (simp add: m_def merge_intents_fold)
  have count: "path_count m = (if authoritative m then 0 else
      length (bs_union (dy_sources d) (dy_sources incoming)) + length (bs_union (dy_configuration d) (dy_configuration incoming)))"
    using wf m_sel(2) merge_intents_paths [of d incoming]
    by (auto simp: dirty_wf_def path_count_def m_def authoritative_def)
  have over: "overflow \<longleftrightarrow> dy_events m > MAX_PENDING_EVENTS \<or> path_count m > MAX_PENDING_PATHS"
    unfolding overflow_def count m_sel(2) by (auto simp: m_def MAX_PENDING_EVENTS_def MAX_PENDING_PATHS_def)
  have lim: "limit_pending m = (if overflow then dirty_apply RiReconcile m else m)"
    unfolding limit_pending_cases over ..
  have "\<not> authoritative m \<Longrightarrow> dy_sources m = bs_union (dy_sources d) (dy_sources incoming)
      \<and> dy_configuration m = bs_union (dy_configuration d) (dy_configuration incoming)"
    using m_sel(2) merge_intents_paths [of d incoming] by (simp add: m_def)
  then show ?thesis
    unfolding merge using limit_pending_bounded [OF wf] m_sel dirty_apply_pending [of RiReconcile m p]
      dirty_apply_authoritative [of RiReconcile m] dirty_apply_head [of RiReconcile m]
    unfolding lim by (cases overflow) simp_all
qed

theorem dirty_merge_exact_witness:
  "pending (dirty_merge example_dirty dirty_default) (path_components ''src/lib.rs'')
   \<and> dirty_bounded (dirty_merge example_dirty dirty_default)"
proof -
  have "dirty_wf example_dirty" by (simp add: dirty_wf_def example_dirty_def dirty_default_def authoritative_def)
  moreover have "pending example_dirty (path_components ''src/lib.rs'')" by (simp add: pending_def example_dirty_def)
  ultimately show ?thesis
    using dirty_merge_exact [OF _ dirty_default_wf(1), of example_dirty "path_components ''src/lib.rs''"] by blast
qed

text \<open>
  A durable intent keeps what is pending: read back it lists the same paths, or asks for a
  reconciliation exactly when everything was pending, with the same mark for the head; only the
  event count is not kept. (The paths must be valid UTF-8: others are altered.)
\<close>

theorem durable_roundtrip:
  assumes "dirty_wf d" "durable_paths d"
  shows "di_repository (durable repository d) = repository
    \<and> from_durable (durable repository d) =
        (if authoritative d then dirty_default\<lparr>dy_reconcile := True, dy_head := dy_head d\<rparr> else d\<lparr>dy_events := 0\<rparr>)"
proof (cases "authoritative d")
  case True
  then show ?thesis by (simp add: durable_def from_durable_def authoritative_def dirty_default_def)
next
  case False
  have src: "fold (dirty_apply \<circ> intent_of_change) (map (\<lambda>p. SourcePath (utf8_lossy (path_text p))) (dy_sources d)) s
      = fold dirty_apply (map RiSource (dy_sources d)) s" for s
    unfolding fold_map comp_def using durable_paths_back [OF assms(2)] by (intro fold_cong) simp_all
  have cfg: "fold (dirty_apply \<circ> intent_of_change) (map (\<lambda>p. ConfigurationPath (utf8_lossy (path_text p))) (dy_configuration d)) s
      = fold dirty_apply (map RiConfiguration (dy_configuration d)) s" for s
    unfolding fold_map comp_def using durable_paths_back [OF assms(2)] by (intro fold_cong) simp_all
  have ins: "fold bs_insert xs [] = xs" if "ascending xs" for xs :: "path list"
    using bs_of_list_id [OF that] by (simp add: bs_of_list_def)
  have "from_durable (durable repository d) =
      fold (dirty_apply \<circ> intent_of_change) (if dy_head d then [HeadChange] else [])
        (fold dirty_apply (map RiConfiguration (dy_configuration d)) (fold dirty_apply (map RiSource (dy_sources d)) dirty_default))"
    using False by (simp add: from_durable_def durable_def authoritative_def src cfg del: fold_map)
  then show ?thesis
    using False assms(1) ins
    by (simp add: fold_source fold_configuration authoritative_def dirty_default_def dirty_wf_def durable_def)
qed

theorem durable_roundtrip_witness:
  "from_durable (durable ''r'' example_dirty) = example_dirty\<lparr>dy_events := 0\<rparr>"
proof -
  have "dirty_wf example_dirty" "\<not> authoritative example_dirty"
    by (simp_all add: dirty_wf_def example_dirty_def dirty_default_def authoritative_def)
  moreover have "durable_paths example_dirty" by code_simp
  ultimately show ?thesis using durable_roundtrip [of example_dirty "''r''"] by simp
qed

end
