(* ===== verification/Job_Queue.thy ===== *)
theory Job_Queue imports Job_Types Domain_Workspace "HOL-Library.Multiset" begin

text \<open>
  The durable job queue, \<open>crates/daemon/src/jobs.rs\<close>. The table \<open>Jobs\<close> of SQLite is the list of its
  rows; each statement of the code is a function on it. What serde reads a payload or a result as
  is stored in the row. The clock (milliseconds and seconds), the drawn ULID and the errors the
  database may answer are arguments. Integers of the database stay far below 2^63.
\<close>

section \<open>The table\<close>

definition INDEX_QUEUE :: string where "INDEX_QUEUE = ''index''"
definition ENRICHMENT_QUEUE :: string where "ENRICHMENT_QUEUE = ''enrichment''"
definition AUTOMATIC_PRIORITY :: i32 where "AUTOMATIC_PRIORITY = 0"
definition MANUAL_PRIORITY :: i32 where "MANUAL_PRIORITY = 1"
definition MAX_ATTEMPTS :: nat where "MAX_ATTEMPTS = 5"

datatype job_payload = JpIndex index_job | JpEnrichment enrichment_job | JpOther

datatype stored_value =
    SvIndex index_job_result
  | SvLegacyIndex string nat bool index_outcome
  | SvEnrichment enrichment_job_result
  | SvOther

datatype stored_result = RsOk stored_value | RsErr string | RsOther

record job_row =
  jr_id :: string
  jr_job_type :: string
  jr_status :: string
  jr_job :: job_payload
  jr_attempts :: int
  jr_max_attempts :: int
  jr_priority :: i32
  jr_run_at :: "int option"
  jr_eligible :: "int option"
  jr_lock_at :: "int option"
  jr_lock_by :: "string option"
  jr_done_at :: "int option"
  jr_last_result :: "stored_result option"

record database =
  db_fetch :: "string option"
  db_write :: "string \<Rightarrow> string option"

record job_queue =
  jq_admission :: bool
  jq_rows :: "job_row list"

definition index_payload :: "job_row \<Rightarrow> index_job option" where
  "index_payload row = (case jr_job row of JpIndex job \<Rightarrow> Some job | _ \<Rightarrow> None)"

definition enrichment_payload :: "job_row \<Rightarrow> enrichment_job option" where
  "enrichment_payload row = (case jr_job row of JpEnrichment job \<Rightarrow> Some job | _ \<Rightarrow> None)"

text \<open>The two conditions the statements share.\<close>

definition active_row :: "job_row \<Rightarrow> bool" where
  "active_row row \<longleftrightarrow>
     jr_status row \<in> set [''Pending'', ''Queued'', ''Running'']
     \<or> jr_status row = ''Failed'' \<and> jr_attempts row < jr_max_attempts row"

definition terminal_row :: "job_row \<Rightarrow> bool" where
  "terminal_row row \<longleftrightarrow>
     jr_status row \<in> set [''Done'', ''Killed'']
     \<or> jr_status row = ''Failed'' \<and> jr_max_attempts row \<le> jr_attempts row"

definition active_rows :: "string \<Rightarrow> job_row list \<Rightarrow> job_row list" where
  "active_rows queue rows = filter (\<lambda>row. jr_job_type row = queue \<and> active_row row) rows"

section \<open>Reading a row\<close>

datatype stored_job_kind = SjIndex | SjEnrichment
datatype stored_job_status = SjQueued | SjWaiting | SjRunning | SjCompleted | SjFailed

datatype stored_job_target =
    SjWorkspace string
  | SjRepository string "string option" "string option"

record stored_job =
  sj_id :: string
  sj_kind :: stored_job_kind
  sj_status :: stored_job_status
  sj_trigger :: job_trigger
  sj_target :: stored_job_target
  sj_attempts :: nat
  sj_max_attempts :: nat
  sj_submitted_at_ms :: int
  sj_eligible_at_ms :: "int option"
  sj_lock_at :: "int option"
  sj_done_at :: "int option"
  sj_last_error :: "string option"
  sj_prerequisites :: "string list"
  sj_warnings :: "string list"
  sj_index_result :: "index_job_result option"
  sj_enrichment_result :: "enrichment_job_result option"

definition i64_max :: int where "i64_max = 9223372036854775807"
definition i64_min :: int where "i64_min = - 9223372036854775808"

definition saturate_i64 :: "int \<Rightarrow> int" where
  "saturate_i64 x = max i64_min (min i64_max x)"

definition cast_u32 :: "int \<Rightarrow> nat" where
  "cast_u32 x = nat (x mod 4294967296)"

definition row_attempts :: "job_row \<Rightarrow> nat" where
  "row_attempts row = cast_u32 (jr_attempts row + (if jr_status row = ''Running'' then 1 else 0))"

definition eligible_at :: "job_row \<Rightarrow> int option" where
  "eligible_at row =
     (case jr_eligible row of
        Some millis \<Rightarrow> Some millis
      | None \<Rightarrow> map_option (\<lambda>seconds. saturate_i64 (seconds * 1000)) (jr_run_at row))"

definition stored_status :: "int \<Rightarrow> job_row \<Rightarrow> stored_job_status option" where
  "stored_status now row =
     (if jr_status row = ''Running'' then Some SjRunning
      else if jr_status row = ''Done'' then Some SjCompleted
      else if jr_status row = ''Killed'' then Some SjFailed
      else if jr_status row = ''Failed'' \<and> cast_u32 (jr_max_attempts row) \<le> row_attempts row then Some SjFailed
      else if jr_status row \<in> set [''Pending'', ''Queued'', ''Failed''] then
        if (case eligible_at row of Some eligible \<Rightarrow> now < eligible | None \<Rightarrow> False) then Some SjWaiting
        else Some SjQueued
      else None)"

text \<open>What the payload says: kind, trigger, target and prerequisites.\<close>

definition decode_payload ::
    "job_row \<Rightarrow> (stored_job_kind \<times> job_trigger \<times> stored_job_target \<times> string list) option" where
  "decode_payload row =
     (if jr_job_type row = INDEX_QUEUE then
        map_option (\<lambda>job. (SjIndex, ij_trigger job,
            (case ij_target job of
               ItWorkspace workspace \<Rightarrow> SjWorkspace workspace
             | ItRepository repository scope \<Rightarrow> SjRepository repository scope None),
            ij_prerequisite_index_jobs job)) (index_payload row)
      else if jr_job_type row = ENRICHMENT_QUEUE then
        map_option (\<lambda>job. (SjEnrichment, ej_trigger job,
            (case ej_target job of
               EtWorkspaceRepository workspace repository \<Rightarrow> SjRepository repository (Some workspace) (Some (ej_worker_id job))
             | EtStandaloneRepository repository \<Rightarrow> SjRepository repository None (Some (ej_worker_id job))),
            ej_prerequisite_index_jobs job)) (enrichment_payload row)
      else None)"

definition decode_index_result :: "stored_value \<Rightarrow> index_job_result option" where
  "decode_index_result value =
     (case value of
        SvIndex result \<Rightarrow> Some result
      | SvLegacyIndex workspace observations published outcome \<Rightarrow>
          Some [\<lparr>idr_destination = IdWorkspace workspace, idr_observation_count = observations,
                 idr_published = published, idr_outcome = outcome\<rparr>]
      | _ \<Rightarrow> None)"

definition successful_result :: "job_row \<Rightarrow> stored_value option" where
  "successful_result row = (case jr_last_result row of Some (RsOk value) \<Rightarrow> Some value | _ \<Rightarrow> None)"

definition last_error :: "job_row \<Rightarrow> string option" where
  "last_error row = (case jr_last_result row of Some (RsErr e) \<Rightarrow> Some e | _ \<Rightarrow> None)"

definition enrichment_result_of :: "job_row \<Rightarrow> enrichment_job_result option" where
  "enrichment_result_of row = (case successful_result row of Some (SvEnrichment result) \<Rightarrow> Some result | _ \<Rightarrow> None)"

definition prerequisite_warnings :: "enrichment_job_result option \<Rightarrow> string list" where
  "prerequisite_warnings result =
     (case result of
        None \<Rightarrow> []
      | Some result \<Rightarrow>
          map (\<lambda>i. ''index prerequisite '' @ i @ '' failed; used the latest successful baseline'')
            (ejr_failed_prerequisite_index_jobs result))"

definition decode_row :: "(string \<Rightarrow> int option) \<Rightarrow> int \<Rightarrow> job_row \<Rightarrow> stored_job option" where
  "decode_row ulid_ms now row =
     (case (stored_status now row, decode_payload row, ulid_ms (jr_id row)) of
        (Some status, Some (kind, trigger, target, prerequisites), Some submitted) \<Rightarrow>
          let enrichment_result = (if kind = SjEnrichment then enrichment_result_of row else None)
          in Some \<lparr>sj_id = jr_id row, sj_kind = kind, sj_status = status, sj_trigger = trigger, sj_target = target,
               sj_attempts = row_attempts row, sj_max_attempts = cast_u32 (jr_max_attempts row),
               sj_submitted_at_ms = submitted, sj_eligible_at_ms = eligible_at row,
               sj_lock_at = (if jr_status row \<noteq> ''Pending'' \<and> jr_status row \<noteq> ''Queued'' then jr_lock_at row else None),
               sj_done_at = (if status \<in> {SjCompleted, SjFailed} then jr_done_at row else None),
               sj_last_error = last_error row, sj_prerequisites = prerequisites,
               sj_warnings = prerequisite_warnings enrichment_result,
               sj_index_result =
                 (if kind = SjIndex then Option.bind (successful_result row) decode_index_result else None),
               sj_enrichment_result = enrichment_result\<rparr>
      | _ \<Rightarrow> None)"

section \<open>Submitting jobs\<close>

text \<open>
  The row a pushed task becomes: pending, with no attempt made, eligible at once. The write may fail;
  the queue then stays as it is.
\<close>

definition priority_of :: "job_trigger \<Rightarrow> i32" where
  "priority_of trigger = (case trigger of Automatic \<Rightarrow> AUTOMATIC_PRIORITY | Manual \<Rightarrow> MANUAL_PRIORITY)"

definition queued_row :: "string \<Rightarrow> string \<Rightarrow> job_payload \<Rightarrow> job_trigger \<Rightarrow> int \<Rightarrow> job_row" where
  "queued_row queue i payload trigger now =
     \<lparr>jr_id = i, jr_job_type = queue, jr_status = ''Pending'', jr_job = payload, jr_attempts = 0,
      jr_max_attempts = int MAX_ATTEMPTS, jr_priority = priority_of trigger, jr_run_at = Some (now div 1000),
      jr_eligible = Some now, jr_lock_at = None, jr_lock_by = None, jr_done_at = None, jr_last_result = None\<rparr>"

definition push_row :: "database \<Rightarrow> job_row \<Rightarrow> job_row list \<Rightarrow> string + job_row list" where
  "push_row db row rows =
     (case db_write db (jr_id row) of Some e \<Rightarrow> Inl e | None \<Rightarrow> Inr (rows @ [row]))"

definition push_index_job ::
    "database \<Rightarrow> string \<Rightarrow> int \<Rightarrow> index_job \<Rightarrow> job_row list \<Rightarrow> string + (index_job_id \<times> job_row list)" where
  "push_index_job db i now job rows =
     rbind (push_row db (queued_row INDEX_QUEUE i (JpIndex job) (ij_trigger job) now) rows) (\<lambda>rows. Inr (i, rows))"

definition push_enrichment_job ::
    "database \<Rightarrow> string \<Rightarrow> int \<Rightarrow> enrichment_job \<Rightarrow> job_row list \<Rightarrow> string + (string \<times> job_row list)" where
  "push_enrichment_job db i now job rows =
     rbind (push_row db (queued_row ENRICHMENT_QUEUE i (JpEnrichment job) (ej_trigger job) now) rows) (\<lambda>rows. Inr (i, rows))"

definition fetch :: "database \<Rightarrow> 'a \<Rightarrow> string + 'a" where
  "fetch db x = (case db_fetch db of Some e \<Rightarrow> Inl e | None \<Rightarrow> Inr x)"

definition automatic_for :: "string \<Rightarrow> job_row \<Rightarrow> bool" where
  "automatic_for workspace row \<longleftrightarrow>
     (case index_payload row of
        None \<Rightarrow> False
      | Some job \<Rightarrow> ij_trigger job = Automatic \<and> ij_target job = ItWorkspace workspace)"

definition automatic_index_active :: "database \<Rightarrow> string \<Rightarrow> job_row list \<Rightarrow> string + bool" where
  "automatic_index_active db workspace rows =
     rbind (fetch db (active_rows INDEX_QUEUE rows)) (\<lambda>rows. Inr (list_ex (automatic_for workspace) rows))"

definition close_admission :: "job_queue \<Rightarrow> job_queue" where
  "close_admission q = q\<lparr>jq_admission := False\<rparr>"

definition enqueue_automatic_index ::
    "database \<Rightarrow> string \<Rightarrow> int \<Rightarrow> index_job \<Rightarrow> job_queue \<Rightarrow> job_queue \<times> (string + index_job_id option)" where
  "enqueue_automatic_index db i now job q =
     (if \<not> jq_admission q then (q, Inl ''job admission is closed'')
      else case ij_target job of
             ItRepository _ _ \<Rightarrow> (q, Inl ''automatic index jobs must target one workspace'')
           | ItWorkspace workspace \<Rightarrow>
               (case automatic_index_active db workspace (jq_rows q) of
                  Inl e \<Rightarrow> (q, Inl e)
                | Inr active \<Rightarrow>
                    if active then (q, Inr None)
                    else (case push_index_job db i now job (jq_rows q) of
                            Inl e \<Rightarrow> (q, Inl e)
                          | Inr (i, rows) \<Rightarrow> (q\<lparr>jq_rows := rows\<rparr>, Inr (Some i)))))"

text \<open>The pairs of a workspace and a repository a target stands for.\<close>

definition workspace_contains :: "string \<Rightarrow> workspace \<Rightarrow> bool" where
  "workspace_contains repository ws = list_ex (\<lambda>r. wr_identity r = repository) (ws_repositories ws)"

definition index_target_pairs :: "index_target \<Rightarrow> workspace list \<Rightarrow> (string option \<times> string) list" where
  "index_target_pairs target workspaces =
     (case target of
        ItWorkspace workspace \<Rightarrow>
          (case List.find (\<lambda>ws. ws_name ws = workspace) workspaces of
             None \<Rightarrow> []
           | Some ws \<Rightarrow> map (\<lambda>r. (Some (ws_name ws), wr_identity r)) (ws_repositories ws))
      | ItRepository repository (Some workspace) \<Rightarrow> [(Some workspace, repository)]
      | ItRepository repository None \<Rightarrow>
          let pairs = map (\<lambda>ws. (Some (ws_name ws), repository)) (filter (workspace_contains repository) workspaces)
          in if pairs = [] then [(None, repository)] else pairs)"

definition pairs_overlap :: "(string option \<times> string) list \<Rightarrow> (string option \<times> string) list \<Rightarrow> bool" where
  "pairs_overlap xs ys = list_ex (\<lambda>x. x \<in> set ys) xs"

definition overlapping_index_jobs ::
    "database \<Rightarrow> (string \<Rightarrow> int option) \<Rightarrow> int \<Rightarrow> index_target \<Rightarrow> workspace list \<Rightarrow> job_row list \<Rightarrow> string + stored_job list" where
  "overlapping_index_jobs db ulid_ms now target workspaces rows =
     rbind (fetch db (sort_key jr_id (active_rows INDEX_QUEUE rows))) (\<lambda>rows.
       Inr (List.map_filter (\<lambda>row.
              Option.bind (index_payload row) (\<lambda>active.
                if pairs_overlap (index_target_pairs target workspaces) (index_target_pairs (ij_target active) workspaces)
                then decode_row ulid_ms now row else None)) rows))"

definition enqueue_manual_index ::
    "database \<Rightarrow> (string \<Rightarrow> int option) \<Rightarrow> string \<Rightarrow> int \<Rightarrow> index_job \<Rightarrow> workspace list \<Rightarrow> job_queue
     \<Rightarrow> job_queue \<times> (string + (index_job_id \<times> stored_job list))" where
  "enqueue_manual_index db ulid_ms i now job workspaces q =
     (if \<not> jq_admission q then (q, Inl ''job admission is closed'')
      else if ij_trigger job \<noteq> Manual then (q, Inl ''manual index submission requires a manual trigger'')
      else case rbind (overlapping_index_jobs db ulid_ms now (ij_target job) workspaces (jq_rows q)) (\<lambda>overlaps.
                  rbind (push_index_job db i now job (jq_rows q)) (\<lambda>(i, rows). Inr (rows, (i, overlaps)))) of
             Inl e \<Rightarrow> (q, Inl e)
           | Inr (rows, result) \<Rightarrow> (q\<lparr>jq_rows := rows\<rparr>, Inr result))"

definition enrichment_jobs_are_equivalent :: "enrichment_job \<Rightarrow> enrichment_job \<Rightarrow> bool" where
  "enrichment_jobs_are_equivalent left right \<longleftrightarrow>
     ej_target left = ej_target right \<and> ej_worker_id left = ej_worker_id right
     \<and> ej_expected_worker_version left = ej_expected_worker_version right
     \<and> ej_prerequisite_index_jobs left = ej_prerequisite_index_jobs right
     \<and> ej_input_fingerprint left = ej_input_fingerprint right"

datatype manual_enrichment_submission = MeEnqueued string | MeInProgress stored_job

text \<open>The first equivalent active job that decodes.\<close>

fun equivalent_in_progress ::
    "(string \<Rightarrow> int option) \<Rightarrow> int \<Rightarrow> enrichment_job \<Rightarrow> job_row list \<Rightarrow> stored_job option" where
  "equivalent_in_progress ulid_ms now job [] = None"
| "equivalent_in_progress ulid_ms now job (row # rows) =
     (case (enrichment_payload row, decode_row ulid_ms now row) of
        (Some active, Some stored) \<Rightarrow>
          if enrichment_jobs_are_equivalent active job then Some stored
          else equivalent_in_progress ulid_ms now job rows
      | _ \<Rightarrow> equivalent_in_progress ulid_ms now job rows)"

definition enqueue_manual_enrichment ::
    "database \<Rightarrow> (string \<Rightarrow> int option) \<Rightarrow> string \<Rightarrow> int \<Rightarrow> enrichment_job \<Rightarrow> job_queue
     \<Rightarrow> job_queue \<times> (string + manual_enrichment_submission)" where
  "enqueue_manual_enrichment db ulid_ms i now job q =
     (if \<not> jq_admission q then (q, Inl ''job admission is closed'')
      else if ej_trigger job \<noteq> Manual then (q, Inl ''manual enrichment submission requires a manual trigger'')
      else case fetch db (sort_key jr_id (active_rows ENRICHMENT_QUEUE (jq_rows q))) of
             Inl e \<Rightarrow> (q, Inl e)
           | Inr rows \<Rightarrow>
               (case equivalent_in_progress ulid_ms now job rows of
                  Some active \<Rightarrow> (q, Inr (MeInProgress active))
                | None \<Rightarrow>
                    (case push_enrichment_job db i now job (jq_rows q) of
                       Inl e \<Rightarrow> (q, Inl e)
                     | Inr (i, rows) \<Rightarrow> (q\<lparr>jq_rows := rows\<rparr>, Inr (MeEnqueued i)))))"


text \<open>
  An automatic enrichment job replaces the queued ones for its target and worker, unless an active
  one covers it: same version, and the same inputs or a pending manual job with its prerequisites.
\<close>

definition same_enrichment :: "enrichment_job \<Rightarrow> enrichment_job \<Rightarrow> bool" where
  "same_enrichment active job \<longleftrightarrow> ej_target active = ej_target job \<and> ej_worker_id active = ej_worker_id job"

definition covers_enrichment :: "enrichment_job \<Rightarrow> enrichment_job \<Rightarrow> bool" where
  "covers_enrichment active job \<longleftrightarrow>
     ej_expected_worker_version active = ej_expected_worker_version job
     \<and> (ej_input_fingerprint active = ej_input_fingerprint job
        \<or> ej_trigger active = Manual \<and> ej_input_fingerprint active = None
          \<and> list_all (\<lambda>i. i \<in> set (ej_prerequisite_index_jobs active)) (ej_prerequisite_index_jobs job))"

text \<open>\<open>None\<close> when the job is covered, else the jobs it makes obsolete.\<close>

fun obsolete_enrichments :: "enrichment_job \<Rightarrow> job_row list \<Rightarrow> (string \<times> enrichment_job) list option" where
  "obsolete_enrichments job [] = Some []"
| "obsolete_enrichments job (row # rows) =
     (case enrichment_payload row of
        None \<Rightarrow> obsolete_enrichments job rows
      | Some active \<Rightarrow>
          if \<not> same_enrichment active job then obsolete_enrichments job rows
          else if covers_enrichment active job then None
          else map_option (\<lambda>obsolete. if jr_status row \<noteq> ''Running'' then (jr_id row, active) # obsolete else obsolete)
                 (obsolete_enrichments job rows))"

definition superseded_result :: "enrichment_job \<Rightarrow> enrichment_job_result" where
  "superseded_result job =
     \<lparr>ejr_target = ej_target job, ejr_worker_id = ej_worker_id job,
      ejr_expected_worker_version = ej_expected_worker_version job, ejr_outcome = EoSuperseded,
      ejr_failed_prerequisite_index_jobs = []\<rparr>"

definition update_row :: "string \<Rightarrow> (job_row \<Rightarrow> job_row) \<Rightarrow> job_row list \<Rightarrow> job_row list" where
  "update_row i f rows = map (\<lambda>row. if jr_id row = i then f row else row) rows"

definition supersede_row :: "int \<Rightarrow> enrichment_job \<Rightarrow> job_row \<Rightarrow> job_row" where
  "supersede_row now job row =
     row\<lparr>jr_status := ''Done'', jr_done_at := Some (now div 1000),
         jr_last_result := Some (RsOk (SvEnrichment (superseded_result job)))\<rparr>"

text \<open>The updates are separate statements: the ones before a failing one stay.\<close>

fun supersede_rows :: "database \<Rightarrow> int \<Rightarrow> (string \<times> enrichment_job) list \<Rightarrow> job_row list \<Rightarrow> job_row list \<times> (string + unit)" where
  "supersede_rows db now [] rows = (rows, Inr ())"
| "supersede_rows db now ((i, job) # obsolete) rows =
     (case db_write db i of
        Some e \<Rightarrow> (rows, Inl e)
      | None \<Rightarrow> supersede_rows db now obsolete (update_row i (supersede_row now job) rows))"

definition enqueue_automatic_enrichment ::
    "database \<Rightarrow> string \<Rightarrow> int \<Rightarrow> enrichment_job \<Rightarrow> job_queue \<Rightarrow> job_queue \<times> (string + string option)" where
  "enqueue_automatic_enrichment db i now job q =
     (if \<not> jq_admission q then (q, Inl ''job admission is closed'')
      else if ej_trigger job \<noteq> Automatic \<or> (case ej_target job of EtWorkspaceRepository _ _ \<Rightarrow> False | _ \<Rightarrow> True)
      then (q, Inl ''automatic enrichment jobs must target a workspace repository'')
      else case fetch db (active_rows ENRICHMENT_QUEUE (jq_rows q)) of
             Inl e \<Rightarrow> (q, Inl e)
           | Inr rows \<Rightarrow>
               (case obsolete_enrichments job rows of
                  None \<Rightarrow> (q, Inr None)
                | Some obsolete \<Rightarrow>
                    (case supersede_rows db now obsolete (jq_rows q) of
                       (rows, Inl e) \<Rightarrow> (q\<lparr>jq_rows := rows\<rparr>, Inl e)
                     | (rows, Inr _) \<Rightarrow>
                         (case push_enrichment_job db i now job rows of
                            Inl e \<Rightarrow> (q\<lparr>jq_rows := rows\<rparr>, Inl e)
                          | Inr (i, rows) \<Rightarrow> (q\<lparr>jq_rows := rows\<rparr>, Inr (Some i))))))"

definition active_enrichment_repositories :: "database \<Rightarrow> string \<Rightarrow> job_row list \<Rightarrow> string + string list" where
  "active_enrichment_repositories db workspace rows =
     rbind (fetch db (active_rows ENRICHMENT_QUEUE rows)) (\<lambda>rows.
       Inr (bs_of_list (List.map_filter (\<lambda>row.
              Option.bind (enrichment_payload row) (\<lambda>job.
                case ej_target job of
                  EtWorkspaceRepository active repository \<Rightarrow> if active = workspace then Some repository else None
                | _ \<Rightarrow> None)) rows)))"

section \<open>Running, retrying and recovering\<close>

definition row_by_id :: "string \<Rightarrow> job_row list \<Rightarrow> job_row option" where
  "row_by_id i rows = List.find (\<lambda>row. jr_id row = i) rows"

definition terminal_automatic_job :: "database \<Rightarrow> string \<Rightarrow> job_row list \<Rightarrow> string + (string \<times> u64 option) option" where
  "terminal_automatic_job db i rows =
     rbind (fetch db (row_by_id i rows)) (\<lambda>found.
       Inr (Option.bind found (\<lambda>row.
         if active_row row then None
         else Option.bind (index_payload row) (\<lambda>job.
           case (ij_trigger job, ij_target job) of
             (Automatic, ItWorkspace workspace) \<Rightarrow> Some (workspace, ij_generation job)
           | _ \<Rightarrow> None))))"

record recovery =
  rv_released_reservations :: nat
  rv_interrupted_running :: nat
  rv_immediate_retries :: nat
  rv_terminal_failures :: nat

definition reserved_row :: "job_row \<Rightarrow> bool" where
  "reserved_row row \<longleftrightarrow> jr_status row = ''Queued'' \<and> jr_lock_by row \<noteq> None"

definition release_row :: "job_row \<Rightarrow> job_row" where
  "release_row row =
     (if reserved_row row then row\<lparr>jr_status := ''Pending'', jr_lock_at := None, jr_lock_by := None\<rparr> else row)"

definition interrupt_terminal :: "job_row \<Rightarrow> bool" where
  "interrupt_terminal row \<longleftrightarrow> jr_max_attempts row \<le> jr_attempts row + 1"

definition interrupt_row :: "int \<Rightarrow> job_row \<Rightarrow> job_row" where
  "interrupt_row now row =
     (if jr_status row = ''Running'' then
        row\<lparr>jr_status := (if interrupt_terminal row then ''Killed'' else ''Failed''),
            jr_attempts := jr_attempts row + 1, jr_run_at := Some (now div 1000), jr_done_at := Some (now div 1000),
            jr_lock_at := None, jr_lock_by := None,
            jr_last_result := Some (RsErr ''daemon stopped during job attempt'')\<rparr>
      else row)"

text \<open>One transaction: an error of the database leaves the table as it was.\<close>

definition recover :: "string option \<Rightarrow> int \<Rightarrow> job_row list \<Rightarrow> job_row list \<times> (string + recovery)" where
  "recover failure now rows =
     (case failure of
        Some e \<Rightarrow> (rows, Inl e)
      | None \<Rightarrow>
          let interrupted = filter (\<lambda>row. jr_status row = ''Running'') (map release_row rows)
          in (map (interrupt_row now) (map release_row rows),
              Inr \<lparr>rv_released_reservations = length (filter reserved_row rows),
                   rv_interrupted_running = length interrupted,
                   rv_immediate_retries = length (filter (Not \<circ> interrupt_terminal) interrupted),
                   rv_terminal_failures = length (filter interrupt_terminal interrupted)\<rparr>))"

text \<open>\<open>1_i64 << n\<close> shifts by \<open>n\<close> modulo 64 and wraps into the sign.\<close>

definition shift_one :: "nat \<Rightarrow> int" where
  "shift_one n = (if n mod 64 = 63 then i64_min else 2 ^ (n mod 64))"

definition retry_delay_ms :: "nat \<Rightarrow> int" where
  "retry_delay_ms attempt = saturate_i64 (250 * shift_one (attempt - 1))"

definition schedule_retry :: "database \<Rightarrow> int \<Rightarrow> string \<Rightarrow> nat \<Rightarrow> job_row list \<Rightarrow> job_row list \<times> (string + unit)" where
  "schedule_retry db now i attempt rows =
     (case db_write db i of
        Some e \<Rightarrow> (rows, Inl e)
      | None \<Rightarrow>
          let eligible = saturate_i64 (now + retry_delay_ms attempt)
          in (update_row i (\<lambda>row. row\<lparr>jr_run_at := Some (eligible div 1000), jr_eligible := Some eligible\<rparr>) rows, Inr ()))"

text \<open>
  Waiting for the prerequisites: the loop polls until each is settled or the daemon stops. What a
  poll sees, whether the daemon stops and the table, is an element of a list; when the list ends
  the job is still waiting.
\<close>

datatype prerequisite_wait = PwWaiting | PwStopped | PwReady "index_job_id list"

definition prerequisite_verdict :: "job_row list \<Rightarrow> string \<Rightarrow> bool option" where
  "prerequisite_verdict rows i =
     (case row_by_id i rows of
        None \<Rightarrow> Some False
      | Some row \<Rightarrow>
          if jr_status row = ''Done'' then Some True
          else if jr_status row = ''Killed'' then Some False
          else if jr_status row = ''Failed'' \<and> jr_max_attempts row \<le> jr_attempts row then Some False
          else None)"

fun await_prerequisites ::
    "index_job_id list \<Rightarrow> index_job_id list \<Rightarrow> (bool \<times> job_row list) list \<Rightarrow> prerequisite_wait" where
  "await_prerequisites prerequisites failed [] = PwWaiting"
| "await_prerequisites [] failed ((stopping, rows) # polls) = (if stopping then PwStopped else PwReady failed)"
| "await_prerequisites (i # prerequisites) failed ((stopping, rows) # polls) =
     (if stopping then PwStopped
      else case prerequisite_verdict rows i of
             None \<Rightarrow> await_prerequisites (i # prerequisites) failed polls
           | Some done_ok \<Rightarrow>
               await_prerequisites prerequisites (if done_ok then failed else failed @ [i]) polls)"

section \<open>Listing\<close>

definition null_first :: "int option \<Rightarrow> nat \<times> int" where
  "null_first x = (case x of None \<Rightarrow> (0, 0) | Some n \<Rightarrow> (1, n))"

definition activity_rank :: "int \<Rightarrow> job_row \<Rightarrow> nat" where
  "activity_rank now row =
     (if jr_status row = ''Running'' then 0
      else if (case eligible_at row of Some eligible \<Rightarrow> now < eligible | None \<Rightarrow> False) then 1 else 2)"

definition listed_active :: "int \<Rightarrow> job_row list \<Rightarrow> job_row list" where
  "listed_active now rows =
     sort_key (\<lambda>row. (activity_rank now row, null_first (eligible_at row), jr_id row)) (filter active_row rows)"

definition terminal_key :: "job_row \<Rightarrow> (nat \<times> int) \<times> string" where
  "terminal_key row = (null_first (jr_done_at row), jr_id row)"

definition listed_terminal :: "job_row list \<Rightarrow> job_row list" where
  "listed_terminal rows = rev (sort_key terminal_key (filter terminal_row rows))"

definition after_cursor :: "(int \<times> string) option \<Rightarrow> job_row \<Rightarrow> bool" where
  "after_cursor cursor row =
     (case cursor of
        None \<Rightarrow> True
      | Some (done_at, i) \<Rightarrow>
          (case jr_done_at row of
             None \<Rightarrow> False
           | Some row_done \<Rightarrow> row_done < done_at \<or> row_done = done_at \<and> jr_id row < i))"

text \<open>A page; \<open>Inl\<close> when the \<open>expect\<close> on its last row panics.\<close>

definition list_jobs ::
    "(string \<Rightarrow> int option) \<Rightarrow> int \<Rightarrow> (int \<times> string) option \<Rightarrow> job_row list
     \<Rightarrow> string + (stored_job list \<times> (int \<times> string) option)" where
  "list_jobs ulid_ms now cursor rows =
     (let active = (if cursor = None then List.map_filter (decode_row ulid_ms now) (listed_active now rows) else []);
          terminal = take 16 (filter (after_cursor cursor) (listed_terminal rows));
          jobs = active @ List.map_filter (decode_row ulid_ms now) (take 15 terminal)
      in if length terminal \<le> 15 then Inr (jobs, None)
         else if jobs = [] then Inl ''terminal page contains a last row''
         else Inr (jobs, Some (case sj_done_at (last jobs) of None \<Rightarrow> 0 | Some d \<Rightarrow> d, sj_id (last jobs))))"

definition get_job :: "(string \<Rightarrow> int option) \<Rightarrow> int \<Rightarrow> string \<Rightarrow> job_row list \<Rightarrow> stored_job option" where
  "get_job ulid_ms now i rows = Option.bind (row_by_id i rows) (decode_row ulid_ms now)"


section \<open>The queue as a step relation\<close>

text \<open>
  What the worker library does to a row of its own: it never touches the job and never reopens a
  job that is finished for good.
\<close>

definition worker_change :: "(job_row \<Rightarrow> job_row) \<Rightarrow> bool" where
  "worker_change f \<longleftrightarrow>
     (\<forall>row. jr_id (f row) = jr_id row \<and> jr_job_type (f row) = jr_job_type row \<and> jr_job (f row) = jr_job row
            \<and> (\<not> active_row row \<longrightarrow> \<not> active_row (f row)))"

inductive queue_step :: "job_queue \<Rightarrow> job_queue \<Rightarrow> bool" where
  automatic_index: "queue_step q (fst (enqueue_automatic_index db i now job q))"
| manual_index: "queue_step q (fst (enqueue_manual_index db ulid_ms i now job workspaces q))"
| automatic_enrichment: "queue_step q (fst (enqueue_automatic_enrichment db i now ejob q))"
| manual_enrichment: "queue_step q (fst (enqueue_manual_enrichment db ulid_ms i now ejob q))"
| close: "queue_step q (close_admission q)"
| recovery: "queue_step q (q\<lparr>jq_rows := fst (recover failure now (jq_rows q))\<rparr>)"
| retry: "queue_step q (q\<lparr>jq_rows := fst (schedule_retry db now i attempt (jq_rows q))\<rparr>)"
| worker: "worker_change f \<Longrightarrow> queue_step q (q\<lparr>jq_rows := update_row i f (jq_rows q)\<rparr>)"

definition automatic_rows :: "string \<Rightarrow> job_row list \<Rightarrow> job_row list" where
  "automatic_rows workspace rows = filter (automatic_for workspace) (active_rows INDEX_QUEUE rows)"

definition one_automatic :: "job_queue \<Rightarrow> bool" where
  "one_automatic q \<longleftrightarrow> (\<forall>workspace. length (automatic_rows workspace (jq_rows q)) \<le> 1)"

lemma automatic_rows_append: "automatic_rows w (xs @ ys) = automatic_rows w xs @ automatic_rows w ys"
  by (simp add: automatic_rows_def active_rows_def)

lemma automatic_for_queued [simp]:
  "automatic_for w (queued_row queue i (JpEnrichment ejob) trigger now) = False"
  "automatic_for w (queued_row queue i (JpIndex job) trigger now) \<longleftrightarrow> ij_trigger job = Automatic \<and> ij_target job = ItWorkspace w"
  by (simp_all add: automatic_for_def index_payload_def queued_row_def)

lemma queued_row_id [simp]: "jr_id (queued_row queue i payload trigger now) = i"
  by (simp add: queued_row_def)

lemma automatic_rows_single:
  "automatic_rows w [queued_row queue i payload trigger now] =
     (if queue = INDEX_QUEUE \<and> automatic_for w (queued_row queue i payload trigger now)
      then [queued_row queue i payload trigger now] else [])"
  by (simp add: automatic_rows_def active_rows_def queued_row_def active_row_def)

text \<open>A change that keeps what a row is for and reopens nothing adds no active automatic job.\<close>

lemma automatic_rows_map:
  assumes "\<And>row. jr_job_type (f row) = jr_job_type row \<and> jr_job (f row) = jr_job row \<and> (\<not> active_row row \<longrightarrow> \<not> active_row (f row))"
  shows "length (automatic_rows w (map f rows)) \<le> length (automatic_rows w rows)"
proof (induction rows)
  case (Cons row rows)
  moreover have "automatic_for w (f row) = automatic_for w row"
    using assms [of row] by (simp add: automatic_for_def index_payload_def)
  ultimately show ?case
    using assms [of row] by (auto simp: automatic_rows_def active_rows_def)
qed (simp add: automatic_rows_def active_rows_def)

lemma automatic_rows_update:
  assumes "\<And>row. jr_job_type (f row) = jr_job_type row \<and> jr_job (f row) = jr_job row \<and> (\<not> active_row row \<longrightarrow> \<not> active_row (f row))"
  shows "length (automatic_rows w (update_row i f rows)) \<le> length (automatic_rows w rows)"
  unfolding update_row_def by (rule automatic_rows_map) (use assms in auto)

lemma supersede_row_inert:
  "jr_job_type (supersede_row now job row) = jr_job_type row \<and> jr_job (supersede_row now job row) = jr_job row
   \<and> (\<not> active_row row \<longrightarrow> \<not> active_row (supersede_row now job row))"
  by (simp add: supersede_row_def active_row_def)

lemma automatic_rows_supersede:
  "length (automatic_rows w (fst (supersede_rows db now obsolete rows))) \<le> length (automatic_rows w rows)"
proof (induction db now obsolete rows rule: supersede_rows.induct)
  case (2 db now i job obsolete rows)
  then show ?case
    using automatic_rows_update [of "supersede_row now job" w i rows] supersede_row_inert [of now job]
    by (cases "db_write db i") (auto intro: order_trans)
qed simp

lemma automatic_rows_recover:
  "length (automatic_rows w (fst (recover failure now rows))) \<le> length (automatic_rows w rows)"
proof (cases failure)
  case None
  have "length (automatic_rows w (map (interrupt_row now) (map release_row rows))) \<le> length (automatic_rows w (map release_row rows))"
    by (rule automatic_rows_map) (auto simp: interrupt_row_def active_row_def)
  also have "\<dots> \<le> length (automatic_rows w rows)"
    by (rule automatic_rows_map) (auto simp: release_row_def reserved_row_def active_row_def)
  finally show ?thesis by (simp add: None recover_def Let_def)
qed (simp add: recover_def)

lemma push_row_Inr: "push_row db row rows = Inr rows' \<longleftrightarrow> db_write db (jr_id row) = None \<and> rows' = rows @ [row]"
  by (auto simp: push_row_def split: option.splits)

text \<open>Pushing an enrichment job or a manual index job adds no automatic index job.\<close>

lemma automatic_rows_push_enrichment:
  "push_enrichment_job db i now job rows = Inr (j, rows') \<Longrightarrow> automatic_rows w rows' = automatic_rows w rows"
  by (auto simp: push_enrichment_job_def rbind_Inr_iff push_row_Inr automatic_rows_append automatic_rows_single)

lemma automatic_rows_push_index:
  "push_index_job db i now job rows = Inr (j, rows') \<Longrightarrow>
     automatic_rows w rows' = automatic_rows w rows
       @ (if ij_trigger job = Automatic \<and> ij_target job = ItWorkspace w
          then [queued_row INDEX_QUEUE i (JpIndex job) (ij_trigger job) now] else [])"
  by (auto simp: push_index_job_def rbind_Inr_iff push_row_Inr automatic_rows_append automatic_rows_single)

lemma automatic_inactive:
  "automatic_index_active db w rows = Inr False \<Longrightarrow> automatic_rows w rows = []"
  by (auto simp: automatic_index_active_def rbind_Inr_iff fetch_def automatic_rows_def list_ex_iff split: option.splits)


lemma one_automatic_mono:
  assumes "one_automatic q" "\<And>w. length (automatic_rows w rows) \<le> length (automatic_rows w (jq_rows q))"
  shows "one_automatic (q\<lparr>jq_rows := rows\<rparr>)"
  using assms by (auto simp: one_automatic_def intro: order_trans)

lemma automatic_rows_enqueue_automatic:
  assumes "one_automatic q"
  shows "one_automatic (fst (enqueue_automatic_index db i now job q))"
proof (cases "\<exists>j rows w. ij_target job = ItWorkspace w \<and> jq_admission q \<and> automatic_index_active db w (jq_rows q) = Inr False
    \<and> push_index_job db i now job (jq_rows q) = Inr (j, rows)")
  case True
  then obtain j rows w where t: "ij_target job = ItWorkspace w" "jq_admission q"
    "automatic_index_active db w (jq_rows q) = Inr False" "push_index_job db i now job (jq_rows q) = Inr (j, rows)" by auto
  have "length (automatic_rows v rows) \<le> 1" for v
    using automatic_rows_push_index [OF t(4), of v] automatic_inactive [OF t(3)] assms t(1)
    by (auto simp: one_automatic_def)
  then show ?thesis using t by (simp add: enqueue_automatic_index_def one_automatic_def)
next
  case False
  then have "fst (enqueue_automatic_index db i now job q) = q"
    by (auto simp: enqueue_automatic_index_def split: index_target.splits sum.splits)
  then show ?thesis using assms by simp
qed

lemma automatic_rows_enqueue_manual:
  assumes "one_automatic q"
  shows "one_automatic (fst (enqueue_manual_index db ulid_ms i now job workspaces q))"
  using assms
  by (auto simp: enqueue_manual_index_def one_automatic_def rbind_Inr_iff automatic_rows_push_index split: sum.splits)

lemma automatic_rows_enqueue_enrichment:
  assumes "one_automatic q"
  shows "one_automatic (fst (enqueue_automatic_enrichment db i now job q))"
    and "one_automatic (fst (enqueue_manual_enrichment db ulid_ms i now job q))"
proof -
  note le = one_automatic_mono [OF assms]
  have sup: "length (automatic_rows w rows) \<le> length (automatic_rows w (jq_rows q))"
    if "supersede_rows db now obsolete (jq_rows q) = (rows, r)" for w rows obsolete r
    using automatic_rows_supersede [of w db now obsolete "jq_rows q"] that by simp
  show "one_automatic (fst (enqueue_automatic_enrichment db i now job q))"
    using assms sup
    by (auto simp: enqueue_automatic_enrichment_def automatic_rows_push_enrichment intro!: le
        split: sum.splits option.splits prod.splits)
  show "one_automatic (fst (enqueue_manual_enrichment db ulid_ms i now job q))"
    using assms
    by (auto simp: enqueue_manual_enrichment_def automatic_rows_push_enrichment intro!: le split: sum.splits option.splits)
qed

lemma schedule_retry_rows:
  "fst (schedule_retry db now i attempt rows) = rows
   \<or> (\<exists>run eligible. fst (schedule_retry db now i attempt rows) = update_row i (\<lambda>row. row\<lparr>jr_run_at := run, jr_eligible := eligible\<rparr>) rows)"
  by (auto simp: schedule_retry_def Let_def split: option.splits)

lemma queue_step_one_automatic:
  assumes "queue_step q q'" "one_automatic q"
  shows "one_automatic q'"
  using assms
proof (induction rule: queue_step.induct)
  case (retry q db now i attempt)
  have upd: "length (automatic_rows w (update_row i (\<lambda>row. row\<lparr>jr_run_at := run, jr_eligible := eligible\<rparr>) (jq_rows q)))
      \<le> length (automatic_rows w (jq_rows q))" for w run eligible
    by (rule automatic_rows_update) (simp add: active_row_def)
  then have "length (automatic_rows w (fst (schedule_retry db now i attempt (jq_rows q)))) \<le> length (automatic_rows w (jq_rows q))" for w
    using schedule_retry_rows [of db now i attempt "jq_rows q"] by (metis order_refl)
  with retry show ?case by (intro one_automatic_mono)
next
  case (worker f q i)
  have "length (automatic_rows w (update_row i f (jq_rows q))) \<le> length (automatic_rows w (jq_rows q))" for w
    by (rule automatic_rows_update) (use worker(1) in \<open>auto simp: worker_change_def\<close>)
  with worker(2) show ?case by (intro one_automatic_mono)
next
  case (recovery q failure now)
  then show ?case by (intro one_automatic_mono automatic_rows_recover)
next
  case (close q)
  then show ?case by (simp add: close_admission_def one_automatic_def)
qed (simp_all add: automatic_rows_enqueue_automatic automatic_rows_enqueue_manual automatic_rows_enqueue_enrichment)

interpretation queue_system: step_invariant queue_step one_automatic
  by unfold_locales (rule queue_step_one_automatic)


section \<open>Recovery\<close>

text \<open>What recovery makes of a row.\<close>

definition recovered_row :: "int \<Rightarrow> job_row \<Rightarrow> job_row" where
  "recovered_row now row = interrupt_row now (release_row row)"

lemma recover_rows: "fst (recover None now rows) = map (recovered_row now) rows"
  by (simp add: recover_def recovered_row_def comp_def)

lemma recovered_settled: "jr_status (recovered_row now row) \<noteq> ''Running'' \<and> \<not> reserved_row (recovered_row now row)"
  by (simp add: recovered_row_def interrupt_row_def release_row_def reserved_row_def)

lemma recovered_idem: "recovered_row later (recovered_row now row) = recovered_row now row"
  using recovered_settled [of now row]
  by (simp add: recovered_row_def [of later] release_row_def interrupt_row_def)

lemma released_running: "jr_status (release_row row) = ''Running'' \<longleftrightarrow> jr_status row = ''Running''"
  by (auto simp: release_row_def reserved_row_def)

lemma released_interrupt [simp]: "interrupt_terminal (release_row row) = interrupt_terminal row"
  by (simp add: interrupt_terminal_def release_row_def)

section \<open>Pages\<close>

text \<open>Reading page after page until there is no cursor; \<open>None\<close> when the fuel runs out.\<close>

fun read_pages ::
    "nat \<Rightarrow> (string \<Rightarrow> int option) \<Rightarrow> int \<Rightarrow> (int \<times> string) option \<Rightarrow> job_row list \<Rightarrow> (string + stored_job list) option" where
  "read_pages 0 ulid_ms now cursor rows = None"
| "read_pages (Suc fuel) ulid_ms now cursor rows =
     (case list_jobs ulid_ms now cursor rows of
        Inl e \<Rightarrow> Some (Inl e)
      | Inr (jobs, None) \<Rightarrow> Some (Inr jobs)
      | Inr (jobs, Some c) \<Rightarrow>
          map_option (\<lambda>rest. rbind rest (\<lambda>more. Inr (jobs @ more))) (read_pages fuel ulid_ms now (Some c) rows))"

text \<open>A finished job as the queue writes it: readable, with its time of completion and small counters.\<close>

definition listable :: "(string \<Rightarrow> int option) \<Rightarrow> int \<Rightarrow> job_row \<Rightarrow> bool" where
  "listable ulid_ms now row \<longleftrightarrow>
     decode_row ulid_ms now row \<noteq> None \<and> jr_done_at row \<noteq> None
     \<and> 0 \<le> jr_attempts row \<and> jr_attempts row < 4294967296
     \<and> 0 \<le> jr_max_attempts row \<and> jr_max_attempts row < 4294967296"

lemma decode_row_id: "decode_row ulid_ms now row = Some job \<Longrightarrow> sj_id job = jr_id row"
  by (auto simp: decode_row_def Let_def split: option.splits prod.splits)

lemma terminal_status:
  "terminal_row row \<Longrightarrow> listable ulid_ms now row \<Longrightarrow> stored_status now row \<in> {Some SjCompleted, Some SjFailed}"
  by (auto simp: terminal_row_def listable_def stored_status_def row_attempts_def cast_u32_def)

lemma decode_row_done_at:
  assumes "terminal_row row" "listable ulid_ms now row" "decode_row ulid_ms now row = Some job"
  shows "sj_done_at job = jr_done_at row"
  using assms(3) terminal_status [OF assms(1,2)]
  by (auto simp: decode_row_def Let_def split: option.splits prod.splits)

lemma filter_after_element:
  fixes f :: "'a \<Rightarrow> 'k::linorder"
  assumes "sorted_wrt (\<lambda>a b. f b < f a) (xs @ x # ys)"
  shows "filter (\<lambda>r. f r < f x) (xs @ x # ys) = ys"
  using assms by (auto simp: sorted_wrt_append filter_empty_conv intro: filter_True dest: less_asym)

lemma listed_terminal_descending:
  assumes "distinct (map jr_id rows)"
  shows "sorted_wrt (\<lambda>a b. terminal_key b < terminal_key a) (listed_terminal rows)"
proof -
  have inj: "inj_on terminal_key (set (filter terminal_row rows))"
    using assms by (auto simp: terminal_key_def distinct_map inj_on_def)
  have "distinct (map terminal_key (sort_key terminal_key (filter terminal_row rows)))"
    using assms inj by (simp add: distinct_map distinct_filter)
  then have "sorted_wrt (\<lambda>a b. terminal_key a < terminal_key b) (sort_key terminal_key (filter terminal_row rows))"
    by (simp add: strict_sorted_iff flip: sorted_wrt_map)
  then show ?thesis by (simp add: listed_terminal_def sorted_wrt_rev)
qed

lemma after_cursor_key:
  assumes "jr_done_at r \<noteq> None"
  shows "after_cursor (Some (d, i)) r \<longleftrightarrow> terminal_key r < ((1, d), i)"
  using assms by (auto simp: after_cursor_def terminal_key_def null_first_def less_prod_def')

lemma map_filter_all: "(\<And>x. x \<in> set xs \<Longrightarrow> f x \<noteq> None) \<Longrightarrow> List.map_filter f xs = map (the \<circ> f) xs"
  by (auto simp: List.map_filter_def intro!: map_cong filter_True)


text \<open>A page that ends at \<open>x\<close> leaves what follows \<open>x\<close>.\<close>

lemma after_page:
  assumes desc: "sorted_wrt (\<lambda>a b. terminal_key b < terminal_key a) (listed_terminal rows)"
    and finished: "\<And>row. row \<in> set (listed_terminal rows) \<Longrightarrow> jr_done_at row \<noteq> None"
    and rest: "filter (after_cursor c) (listed_terminal rows) = ys @ x # zs" and d: "jr_done_at x = Some d"
  shows "filter (after_cursor (Some (d, jr_id x))) (listed_terminal rows) = zs"
proof -
  have cursor: "after_cursor (Some (e, i)) r \<longleftrightarrow> terminal_key r < ((1, e), i)" if "r \<in> set (listed_terminal rows)" for e i r
    using finished [OF that] by (rule after_cursor_key)
  have key: "terminal_key x = ((1, d), jr_id x)" by (simp add: terminal_key_def null_first_def d)
  have x: "x \<in> set (filter (after_cursor c) (listed_terminal rows))" using rest by simp
  have "after_cursor (Some (d, jr_id x)) r \<longleftrightarrow> terminal_key r < terminal_key x \<and> after_cursor c r"
    if r: "r \<in> set (listed_terminal rows)" for r
  proof (cases c)
    case None
    then show ?thesis unfolding cursor [OF r] key by (simp add: after_cursor_def)
  next
    case (Some p)
    then have "terminal_key x < ((1, fst p), snd p)" using x cursor [of x "fst p" "snd p"] by simp
    then show ?thesis
      unfolding cursor [OF r] key Some using cursor [OF r, of "fst p" "snd p"] by (auto dest: less_trans simp: key simp del: less_prod_simp)
  qed
  then have "filter (after_cursor (Some (d, jr_id x))) (listed_terminal rows)
      = filter (\<lambda>r. terminal_key r < terminal_key x) (filter (after_cursor c) (listed_terminal rows))"
    unfolding filter_filter by (intro filter_cong refl) auto
  also have "\<dots> = zs"
    using sorted_wrt_filter [OF desc, of "after_cursor c"] unfolding rest by (rule filter_after_element)
  finally show ?thesis .
qed

text \<open>A full page: its jobs, and a cursor after its last job.\<close>

lemma full_page:
  assumes "\<And>row. row \<in> set rest \<Longrightarrow> terminal_row row \<and> listable ulid_ms now row"
    and "filter (after_cursor cursor) (listed_terminal rows) = rest" "15 < length rest"
  defines "x \<equiv> rest ! 14"
  shows "list_jobs ulid_ms now cursor rows =
      Inr ((if cursor = None then List.map_filter (decode_row ulid_ms now) (listed_active now rows) else [])
             @ map (the \<circ> decode_row ulid_ms now) (take 15 rest), Some (the (jr_done_at x), jr_id x))"
    and "rest = take 14 rest @ x # drop 15 rest" "jr_done_at x = Some (the (jr_done_at x))"
proof -
  show split: "rest = take 14 rest @ x # drop 15 rest"
    using assms(3) id_take_nth_drop [of 14 rest] by (simp add: x_def)
  have t15: "take 15 rest = take 14 rest @ [x]"
    using assms(3) take_Suc_conv_app_nth [of 14 rest] by (simp add: x_def)
  have x: "terminal_row x" "listable ulid_ms now x" using assms(1,3) by (simp_all add: x_def)
  then obtain job d where job: "decode_row ulid_ms now x = Some job" and d: "jr_done_at x = Some d"
    by (auto simp: listable_def)
  then show "jr_done_at x = Some (the (jr_done_at x))" by simp
  have decode: "List.map_filter (decode_row ulid_ms now) (take 15 rest) = map (the \<circ> decode_row ulid_ms now) (take 15 rest)"
    using assms(1) by (intro map_filter_all) (auto simp: listable_def dest: in_set_takeD)
  have last: "last (xs @ map (the \<circ> decode_row ulid_ms now) (take 15 rest)) = job" for xs
    by (simp add: t15 job)
  show "list_jobs ulid_ms now cursor rows =
      Inr ((if cursor = None then List.map_filter (decode_row ulid_ms now) (listed_active now rows) else [])
             @ map (the \<circ> decode_row ulid_ms now) (take 15 rest), Some (the (jr_done_at x), jr_id x))"
    using assms(3) decode_row_id [OF job] decode_row_done_at [OF x job] d last
    by (auto simp: list_jobs_def Let_def assms(2) min_def decode)
qed

lemma last_page:
  assumes "\<And>row. row \<in> set rest \<Longrightarrow> terminal_row row \<and> listable ulid_ms now row"
    and "filter (after_cursor cursor) (listed_terminal rows) = rest" "length rest \<le> 15"
  shows "list_jobs ulid_ms now cursor rows =
      Inr ((if cursor = None then List.map_filter (decode_row ulid_ms now) (listed_active now rows) else [])
             @ map (the \<circ> decode_row ulid_ms now) rest, None)"
proof -
  have "List.map_filter (decode_row ulid_ms now) rest = map (the \<circ> decode_row ulid_ms now) rest"
    using assms(1) by (intro map_filter_all) (auto simp: listable_def)
  then show ?thesis using assms(2,3) by (simp add: list_jobs_def Let_def min_def)
qed

text \<open>From a cursor that leaves the suffix \<open>rest\<close> of the finished jobs, the pages are that suffix.\<close>

lemma read_pages_rest:
  assumes desc: "sorted_wrt (\<lambda>a b. terminal_key b < terminal_key a) (listed_terminal rows)"
    and listable: "\<And>row. row \<in> set (listed_terminal rows) \<Longrightarrow> terminal_row row \<and> listable ulid_ms now row"
  shows "filter (after_cursor cursor) (listed_terminal rows) = rest \<Longrightarrow> length rest \<le> 15 * fuel \<Longrightarrow> 0 < fuel
    \<Longrightarrow> read_pages fuel ulid_ms now cursor rows
      = Some (Inr ((if cursor = None then List.map_filter (decode_row ulid_ms now) (listed_active now rows) else [])
          @ map (the \<circ> decode_row ulid_ms now) rest))"
proof (induction fuel arbitrary: cursor rest)
  case (Suc fuel)
  have sub: "row \<in> set rest \<Longrightarrow> terminal_row row \<and> listable ulid_ms now row" for row
    using Suc.prems(1) listable by auto
  show ?case
  proof (cases "length rest \<le> 15")
    case True
    then show ?thesis using last_page [OF sub Suc.prems(1)] by simp
  next
    case False
    define x d where "x = rest ! 14" and "d = the (jr_done_at x)"
    note page = full_page [OF sub Suc.prems(1), folded x_def, folded d_def]
    have "filter (after_cursor (Some (d, jr_id x))) (listed_terminal rows) = drop 15 rest"
      using page(2,3) False Suc.prems(1) listable by (intro after_page [OF desc]) (auto simp: listable_def)
    then have "read_pages fuel ulid_ms now (Some (d, jr_id x)) rows
        = Some (Inr (map (the \<circ> decode_row ulid_ms now) (drop 15 rest)))"
      using False Suc.prems(2,3) Suc.IH by auto
    then show ?thesis using page(1) False by (simp flip: map_append)
  qed
qed simp

section \<open>Prerequisites\<close>

definition polls_agree :: "(string \<Rightarrow> bool) \<Rightarrow> string list \<Rightarrow> bool \<times> job_row list \<Rightarrow> bool" where
  "polls_agree verdict prerequisites poll \<longleftrightarrow>
     \<not> fst poll \<and> list_all (\<lambda>i. prerequisite_verdict (snd poll) i \<in> {None, Some (verdict i)}) prerequisites"

definition all_settled :: "string list \<Rightarrow> bool \<times> job_row list \<Rightarrow> bool" where
  "all_settled prerequisites poll \<longleftrightarrow> list_all (\<lambda>i. prerequisite_verdict (snd poll) i \<noteq> None) prerequisites"

lemma settled_fewer: "length (filter (all_settled (i # prerequisites)) polls) \<le> length (filter (all_settled prerequisites) polls)"
  by (induction polls) (auto simp: all_settled_def)

lemma await_ready:
  assumes "list_all (polls_agree verdict prerequisites) polls"
    and "length prerequisites < length (filter (all_settled prerequisites) polls)"
  shows "await_prerequisites prerequisites failed polls = PwReady (failed @ filter (Not \<circ> verdict) prerequisites)"
  using assms
proof (induction prerequisites failed polls rule: await_prerequisites.induct)
  case (3 i prerequisites failed stopping rows polls)
  have running: "\<not> stopping" and verdicts: "prerequisite_verdict rows i \<in> {None, Some (verdict i)}"
    using 3(3) by (simp_all add: polls_agree_def)
  have weaker: "list_all (polls_agree verdict prerequisites) polls"
    using 3(3) by (auto simp: polls_agree_def list_all_iff)
  show ?case
  proof (cases "prerequisite_verdict rows i")
    case None
    then have "\<not> all_settled (i # prerequisites) (stopping, rows)" by (simp add: all_settled_def)
    then show ?thesis using 3 None running by simp
  next
    case (Some b)
    have "length prerequisites < length (filter (all_settled prerequisites) polls)"
      using 3(4) settled_fewer [of i prerequisites polls] by (auto split: if_splits)
    then show ?thesis using 3(2) [OF running Some weaker] Some verdicts running by simp
  qed
qed (auto simp: polls_agree_def)

section \<open>Examples\<close>

definition example_index_job :: "job_trigger \<Rightarrow> index_job" where
  "example_index_job trigger =
     \<lparr>ij_target = ItWorkspace ''main'', ij_trigger = trigger, ij_prerequisite_index_jobs = [],
      ij_generation = Some 1, ij_repository_intents = []\<rparr>"

definition example_row :: "string \<Rightarrow> string \<Rightarrow> job_row" where
  "example_row i status =
     (queued_row INDEX_QUEUE i (JpIndex (example_index_job Manual)) Manual 5000)\<lparr>jr_status := status, jr_done_at := Some 7\<rparr>"

definition example_rows :: "job_row list" where
  "example_rows = map (\<lambda>n. example_row (''job'' @ nat_str n) ''Done'') [0..<17] @ [example_row ''next'' ''Running'']"

definition example_ulid :: "string \<Rightarrow> int option" where
  "example_ulid i = Some 0"

definition working_database :: database where
  "working_database = \<lparr>db_fetch = None, db_write = (\<lambda>_. None)\<rparr>"

section \<open>Properties\<close>

text \<open>
  C21. However index and enrichment jobs are submitted, retried, recovered and worked on, no
  workspace ever has two active automatic index jobs.
\<close>

theorem automatic_jobs_unique:
  assumes "queue_step\<^sup>*\<^sup>* \<lparr>jq_admission = True, jq_rows = []\<rparr> q"
  shows "length (filter (\<lambda>row. automatic_for workspace row) (active_rows INDEX_QUEUE (jq_rows q))) \<le> 1"
  using queue_system.reachable [OF assms]
  by (simp add: one_automatic_def automatic_rows_def active_rows_def)

theorem automatic_jobs_unique_witness:
  "length (filter (\<lambda>row. automatic_for ''main'' row) (active_rows INDEX_QUEUE (jq_rows
     (fst (enqueue_automatic_index working_database ''b'' 2 (example_index_job Automatic)
       (fst (enqueue_automatic_index working_database ''a'' 1 (example_index_job Automatic)
         \<lparr>jq_admission = True, jq_rows = []\<rparr>))))))) \<le> 1"
  by (rule automatic_jobs_unique, rule rtranclp.rtrancl_into_rtrancl, rule r_into_rtranclp, rule queue_step.automatic_index,
      rule queue_step.automatic_index)

text \<open>
  After recovery no job is running or reserved: an interrupted job has one more attempt and is
  queued for a retry exactly while attempts remain, else it is killed; every other job is kept. The
  report counts them, and recovering again changes nothing.
\<close>

theorem recovery_exact:
  "recover None now rows = (rows', Inr report) \<Longrightarrow>
     list_all2 (\<lambda>row row'.
       if jr_status row = ''Running'' then
         row' = row\<lparr>jr_status := (if jr_attempts row + 1 < jr_max_attempts row then ''Failed'' else ''Killed''),
                    jr_attempts := jr_attempts row + 1, jr_run_at := Some (now div 1000), jr_done_at := Some (now div 1000),
                    jr_lock_at := None, jr_lock_by := None,
                    jr_last_result := Some (RsErr ''daemon stopped during job attempt'')\<rparr>
       else if jr_status row = ''Queued'' \<and> jr_lock_by row \<noteq> None then
         row' = row\<lparr>jr_status := ''Pending'', jr_lock_at := None, jr_lock_by := None\<rparr>
       else row' = row) rows rows'
     \<and> rv_interrupted_running report = length (filter (\<lambda>row. jr_status row = ''Running'') rows)
     \<and> rv_interrupted_running report = rv_immediate_retries report + rv_terminal_failures report
     \<and> fst (recover None later rows') = rows'"
proof (intro conjI)
  assume run: "recover None now rows = (rows', Inr report)"
  then have rows': "rows' = map (recovered_row now) rows" using recover_rows [of now rows] by simp
  show "fst (recover None later rows') = rows'" by (simp add: rows' recover_rows recovered_idem)
  show "rv_interrupted_running report = length (filter (\<lambda>row. jr_status row = ''Running'') rows)"
    using run by (auto simp: recover_def Let_def filter_map comp_def released_running)
  show "rv_interrupted_running report = rv_immediate_retries report + rv_terminal_failures report"
    using run sum_length_filter_compl [of interrupt_terminal "filter (\<lambda>row. jr_status row = ''Running'') (map release_row rows)"]
    by (auto simp: recover_def Let_def comp_def add.commute simp del: filter_filter)
  show "list_all2 (\<lambda>row row'.
       if jr_status row = ''Running'' then
         row' = row\<lparr>jr_status := (if jr_attempts row + 1 < jr_max_attempts row then ''Failed'' else ''Killed''),
                    jr_attempts := jr_attempts row + 1, jr_run_at := Some (now div 1000), jr_done_at := Some (now div 1000),
                    jr_lock_at := None, jr_lock_by := None,
                    jr_last_result := Some (RsErr ''daemon stopped during job attempt'')\<rparr>
       else if jr_status row = ''Queued'' \<and> jr_lock_by row \<noteq> None then
         row' = row\<lparr>jr_status := ''Pending'', jr_lock_at := None, jr_lock_by := None\<rparr>
       else row' = row) rows rows'"
    by (auto simp: rows' list_all2_map2 recovered_row_def interrupt_row_def release_row_def reserved_row_def
        interrupt_terminal_def intro!: list_all2_same [THEN iffD2])
qed


text \<open>
  A job that waits for its prerequisites is released: once every prerequisite is settled for as
  many polls as there are prerequisites, and one more, while the daemon keeps running, the wait ends
  with exactly the prerequisites that failed or vanished, in order.
\<close>

theorem prerequisites_release:
  assumes "list_all (polls_agree verdict prerequisites) polls"
    and "length prerequisites < length (filter (all_settled prerequisites) polls)"
  shows "await_prerequisites prerequisites [] polls = PwReady (filter (Not \<circ> verdict) prerequisites)"
  using await_ready [OF assms] by simp


text \<open>The rows of the examples.\<close>

theorem recovery_exact_witness:
  "fst (recover None 9 (fst (recover None 5 example_rows))) = fst (recover None 5 example_rows)"
  using recovery_exact [of 5 example_rows "fst (recover None 5 example_rows)" "projr (snd (recover None 5 example_rows))" 9]
  by (simp add: recover_def Let_def)


theorem prerequisites_release_witness:
  "await_prerequisites [''next'', ''gone''] [] (replicate 4 (False, [example_row ''next'' ''Done''])) = PwReady [''gone'']"
proof -
  have "list_all (polls_agree (\<lambda>i. i = ''next'') [''next'', ''gone'']) (replicate 4 (False, [example_row ''next'' ''Done'']))" by code_simp
  moreover have "length (filter (all_settled [''next'', ''gone'']) (replicate 4 (False, [example_row ''next'' ''Done'']))) = 4" by code_simp
  ultimately show ?thesis
    using prerequisites_release [of "\<lambda>i. i = ''next''" "[''next'', ''gone'']" "replicate 4 (False, [example_row ''next'' ''Done''])"] by simp
qed

section \<open>Rows that do not decode\<close>

text \<open>
  The cursor of a page is taken from its last decoded job, not from its last row. When no row of a
  full page decodes and no job is active, the \<open>expect\<close> panics.
\<close>

lemma undecodable_page_panics:
  "list_jobs example_ulid 6000 None (map (\<lambda>n. (example_row (''job'' @ nat_str n) ''Done'')\<lparr>jr_job := JpOther\<rparr>) [0..<16])
   = Inl ''terminal page contains a last row''"
  by code_simp

end
