(* ===== verification/Inventory.thy ===== *)
theory Inventory imports Git_Adapter Domain_Error begin

text \<open>
  The input inventory, \<open>crates/daemon/src/indexing/inventory.rs\<close>, and the walk that finds the inputs
  (\<open>accepted_files\<close> of \<open>sources.rs\<close>): which files of a repository are analyzer inputs, which must be
  read again, and when a persisted checkpoint still describes them. The file system is a record of
  what each call answers; a refresh asks for the metadata and the content of a path at most once
  each, so answers that change meanwhile are covered. Manifests, checkpoints and blobs on disk are
  maps of what serde reads back; an unreadable one is absent. Paths below the base are held as
  components. Content digests are SHA-256 in hexadecimal, the parameter \<open>ge_sha256\<close>.
\<close>

section \<open>Inputs\<close>

record metadata_hint =
  mh_len :: nat
  mh_modified_nanos :: "nat option"
  mh_device :: nat
  mh_inode :: nat
  mh_changed_seconds :: int
  mh_changed_nanos :: int

datatype dir_entry = FileEntry string | DirEntry string "string + dir_entry list"

record file_system =
  fs_git :: git_environment
  fs_root :: string
  fs_is_dir :: "string \<Rightarrow> bool"
  fs_tree :: "string \<Rightarrow> string + dir_entry list"
  fs_metadata :: "string \<Rightarrow> string + metadata_hint"
  fs_read :: "string \<Rightarrow> string + string"
  fs_create_dir :: "string \<Rightarrow> string option"
  fs_write_blob :: "string \<Rightarrow> string option"
  fs_write_manifest :: "string \<Rightarrow> string option"
  fs_write_checkpoint :: "string \<Rightarrow> string option"

text \<open>What the inventory asks the indexer.\<close>

record input_catalog =
  ic_accepts :: "string \<Rightarrow> bool"
  ic_reconciliation_identity :: string

definition input_error :: "string \<Rightarrow> string \<Rightarrow> beholder_error" where
  "input_error path cause =
     with_source (new_error FailedPrecondition WorkspaceIndexFailed
       (''failed to load indexing inputs from '' @ utf8_lossy path)) cause"

definition join_path :: "string \<Rightarrow> string \<Rightarrow> string" where
  "join_path directory name =
     (if directory = [] \<or> last directory = CHR ''/'' then directory @ name else directory @ ''/'' @ name)"

text \<open>The walk: ignored directories are skipped, the first error ends it.\<close>

fun accepted_files :: "(string \<Rightarrow> bool) \<Rightarrow> string \<Rightarrow> dir_entry list \<Rightarrow> string + string list"
  and accepted_entry :: "(string \<Rightarrow> bool) \<Rightarrow> string \<Rightarrow> dir_entry \<Rightarrow> string + string list" where
  "accepted_files accepts directory [] = Inr []"
| "accepted_files accepts directory (entry # entries) =
     rbind (accepted_entry accepts directory entry) (\<lambda>files.
       rbind (accepted_files accepts directory entries) (\<lambda>more. Inr (files @ more)))"
| "accepted_entry accepts directory (FileEntry name) =
     Inr (if accepts (join_path directory name) then [join_path directory name] else [])"
| "accepted_entry accepts directory (DirEntry name children) =
     (if utf8_valid name \<and> is_ignored_directory name then Inr []
      else case children of
             Inl e \<Rightarrow> Inl e
           | Inr entries \<Rightarrow> accepted_files accepts (join_path directory name) entries)"

datatype input_kind = Source | ProtobufDescriptor

definition kind_code :: "input_kind \<Rightarrow> nat" where
  "kind_code kind = (case kind of Source \<Rightarrow> 0 | ProtobufDescriptor \<Rightarrow> 1)"

text \<open>Candidates in the order of their relative path (or the whole path outside the base), then kind.\<close>

definition candidate_key :: "string \<Rightarrow> string \<times> input_kind \<Rightarrow> path \<times> nat" where
  "candidate_key base = (\<lambda>(p, kind).
     (case strip_path_prefix (path_components base) (path_components p) of
        None \<Rightarrow> path_components p
      | Some relative \<Rightarrow> relative, kind_code kind))"

definition inventory_candidates ::
    "file_system \<Rightarrow> input_catalog \<Rightarrow> string \<Rightarrow> string list \<Rightarrow> beholder_error + (string \<times> input_kind) list" where
  "inventory_candidates fs catalog base descriptors =
     (case rbind (fs_tree fs base) (accepted_files (ic_accepts catalog) base) of
        Inl e \<Rightarrow> Inl (input_error base e)
      | Inr files \<Rightarrow>
          Inr (sort_key (candidate_key base)
                 (map (\<lambda>p. (p, Source)) files @ map (\<lambda>p. (p, ProtobufDescriptor)) descriptors)))"

definition inventory_key :: "git_environment \<Rightarrow> string \<Rightarrow> string \<Rightarrow> string list \<Rightarrow> string" where
  "inventory_key git repository canonical descriptors =
     ge_sha256 git (framed_bytes repository @ framed_bytes canonical @ concat (map framed_bytes (sort descriptors)))"

section \<open>The store\<close>

record persisted_entry =
  pe_path :: string
  pe_kind :: input_kind
  pe_metadata :: metadata_hint
  pe_content_hash :: string

record persisted_inventory =
  pi_version :: nat
  pi_fingerprint :: "string option"
  pi_entries :: "persisted_entry list"

record persisted_checkpoint_repository =
  cr_identity :: string
  cr_inventory_key :: string
  cr_fingerprint :: string

record persisted_checkpoint =
  pk_version :: nat
  pk_reconciliation_identity :: string
  pk_enabled_plugins :: "string bset"
  pk_verification_fingerprint :: string
  pk_repositories :: "persisted_checkpoint_repository list"

record inventory_store =
  iv_verified :: "string bset"
  iv_content :: "(string, string) bmap"
  iv_blobs :: "(string, string) bmap"
  iv_manifests :: "(string, persisted_inventory) bmap"
  iv_checkpoints :: "(string, persisted_checkpoint) bmap"

definition INVENTORY_VERSION :: nat where "INVENTORY_VERSION = 1"
definition CHECKPOINT_VERSION :: nat where "CHECKPOINT_VERSION = 1"

definition clear_store :: "inventory_store \<Rightarrow> inventory_store" where
  "clear_store st = st\<lparr>iv_verified := [], iv_content := []\<rparr>"

definition load_manifest :: "string \<Rightarrow> inventory_store \<Rightarrow> persisted_inventory option" where
  "load_manifest key st =
     (case map_of (iv_manifests st) key of
        Some manifest \<Rightarrow> if pi_version manifest = INVENTORY_VERSION then Some manifest else None
      | None \<Rightarrow> None)"

definition load_checkpoint :: "string \<Rightarrow> inventory_store \<Rightarrow> persisted_checkpoint option" where
  "load_checkpoint path st =
     (case map_of (iv_checkpoints st) path of
        Some checkpoint \<Rightarrow> if pk_version checkpoint = CHECKPOINT_VERSION then Some checkpoint else None
      | None \<Rightarrow> None)"

definition checkpoint_path :: "file_system \<Rightarrow> string \<Rightarrow> string" where
  "checkpoint_path fs workspace = fs_root fs @ ''/checkpoints/'' @ ge_sha256 (fs_git fs) workspace @ ''.json''"

definition hex_digit :: "char \<Rightarrow> bool" where
  "hex_digit c \<longleftrightarrow> c \<in> set ''0123456789abcdefABCDEF''"

definition valid_digest :: "string \<Rightarrow> bool" where
  "valid_digest hash \<longleftrightarrow> length hash = 64 \<and> list_all hex_digit hash"

definition remember :: "string \<Rightarrow> string \<Rightarrow> inventory_store \<Rightarrow> inventory_store" where
  "remember hash content st = st\<lparr>iv_content := bm_put hash content (iv_content st)\<rparr>"

definition blob_path :: "file_system \<Rightarrow> string \<Rightarrow> string option" where
  "blob_path fs hash =
     (if valid_digest hash then Some (fs_root fs @ ''/blobs/'' @ take 2 hash @ ''/'' @ hash) else None)"

definition load_content :: "file_system \<Rightarrow> string \<Rightarrow> string \<Rightarrow> inventory_store \<Rightarrow> inventory_store \<times> (beholder_error + string)" where
  "load_content fs hash base st =
     (case map_of (iv_content st) hash of
        Some content \<Rightarrow> (st, Inr content)
      | None \<Rightarrow>
          (case blob_path fs hash of
             None \<Rightarrow> (st, Inl (input_error base ''invalid inventory content digest''))
           | Some path \<Rightarrow>
               (case map_of (iv_blobs st) hash of
                  None \<Rightarrow> (st, Inl (input_error path ''missing blob''))
                | Some bytes \<Rightarrow>
                    if ge_sha256 (fs_git fs) bytes \<noteq> hash then (st, Inl (input_error path ''inventory content digest mismatch''))
                    else (remember hash bytes st, Inr bytes))))"

text \<open>
  A blob of the same length is taken to be there; \<open>expect\<close> on the digest cannot fail for SHA-256, so the
  path is built without the check. A directory that cannot be created is named in the error.
\<close>

definition store_blob :: "file_system \<Rightarrow> string \<Rightarrow> string \<Rightarrow> string \<Rightarrow> inventory_store \<Rightarrow> inventory_store \<times> (beholder_error + unit)" where
  "store_blob fs hash content base st =
     (if map_option length (map_of (iv_blobs st) hash) = Some (length content) then (st, Inr ())
      else
        let parent = fs_root fs @ ''/blobs/'' @ take 2 hash
        in case fs_create_dir fs parent of
             Some e \<Rightarrow> (st, Inl (input_error parent e))
           | None \<Rightarrow>
               (case fs_write_blob fs hash of
                  Some e \<Rightarrow> (st, Inl (input_error base e))
                | None \<Rightarrow> (st\<lparr>iv_blobs := bm_put hash content (iv_blobs st)\<rparr>, Inr ())))"

section \<open>Refresh\<close>

datatype refresh_mode = Hinted | Dirty "path bset" | Authoritative

record repository_input =
  ri_path :: path
  ri_content :: string
  ri_kind :: input_kind

record repository_snapshot =
  rp_base :: string
  rp_state :: repository_state
  rp_inputs :: "repository_input list"

abbreviation repository_of :: "repository_snapshot \<Rightarrow> string" where
  "repository_of r \<equiv> rs_identity (rp_state r)"

record inventory_statistics =
  is_discovered_inputs :: nat
  is_watcher_inputs :: nat
  is_content_hashes :: nat
  is_authoritative_hashes :: nat
  is_watcher_hashes :: nat
  is_membership_or_metadata_hashes :: nat
  is_cache_recovery_hashes :: nat
  is_repository_bytes_read :: nat
  is_cached_bytes_reused :: nat
  is_repositories_changed :: nat
  is_repositories_reused :: nat

definition no_statistics :: inventory_statistics where
  "no_statistics =
     \<lparr>is_discovered_inputs = 0, is_watcher_inputs = 0, is_content_hashes = 0, is_authoritative_hashes = 0,
      is_watcher_hashes = 0, is_membership_or_metadata_hashes = 0, is_cache_recovery_hashes = 0,
      is_repository_bytes_read = 0, is_cached_bytes_reused = 0, is_repositories_changed = 0, is_repositories_reused = 0\<rparr>"

definition add_statistics :: "inventory_statistics \<Rightarrow> inventory_statistics \<Rightarrow> inventory_statistics" where
  "add_statistics a b =
     \<lparr>is_discovered_inputs = is_discovered_inputs a + is_discovered_inputs b,
      is_watcher_inputs = is_watcher_inputs a + is_watcher_inputs b,
      is_content_hashes = is_content_hashes a + is_content_hashes b,
      is_authoritative_hashes = is_authoritative_hashes a + is_authoritative_hashes b,
      is_watcher_hashes = is_watcher_hashes a + is_watcher_hashes b,
      is_membership_or_metadata_hashes = is_membership_or_metadata_hashes a + is_membership_or_metadata_hashes b,
      is_cache_recovery_hashes = is_cache_recovery_hashes a + is_cache_recovery_hashes b,
      is_repository_bytes_read = is_repository_bytes_read a + is_repository_bytes_read b,
      is_cached_bytes_reused = is_cached_bytes_reused a + is_cached_bytes_reused b,
      is_repositories_changed = is_repositories_changed a + is_repositories_changed b,
      is_repositories_reused = is_repositories_reused a + is_repositories_reused b\<rparr>"

definition previous_entry :: "persisted_entry list \<Rightarrow> string \<Rightarrow> input_kind \<Rightarrow> persisted_entry option" where
  "previous_entry entries stored_path kind =
     map_of (rev (map (\<lambda>e. ((pe_path e, pe_kind e), e)) entries)) (stored_path, kind)"

text \<open>Reading a file: its content and digest, remembered in memory and stored as a blob.\<close>

definition read_input :: "file_system \<Rightarrow> string \<Rightarrow> string \<Rightarrow> inventory_store \<Rightarrow> inventory_store \<times> (beholder_error + string \<times> string)" where
  "read_input fs base p st =
     (case fs_read fs p of
        Inl e \<Rightarrow> (st, Inl (input_error p e))
      | Inr bytes \<Rightarrow>
          let hash = ge_sha256 (fs_git fs) bytes
          in case store_blob fs hash bytes base (remember hash bytes st) of
               (st, Inl e) \<Rightarrow> (st, Inl e)
             | (st, Inr _) \<Rightarrow> (st, Inr (bytes, hash)))"

definition hash_statistics :: "bool \<Rightarrow> bool \<Rightarrow> nat \<Rightarrow> inventory_statistics \<Rightarrow> inventory_statistics" where
  "hash_statistics authoritative watcher_selected bytes s =
     (let s = s\<lparr>is_content_hashes := is_content_hashes s + 1,
                is_repository_bytes_read := is_repository_bytes_read s + bytes\<rparr>
      in if authoritative then s\<lparr>is_authoritative_hashes := is_authoritative_hashes s + 1\<rparr>
         else if watcher_selected then s\<lparr>is_watcher_hashes := is_watcher_hashes s + 1\<rparr>
         else s\<lparr>is_membership_or_metadata_hashes := is_membership_or_metadata_hashes s + 1\<rparr>)"

definition recovery_statistics :: "nat \<Rightarrow> inventory_statistics \<Rightarrow> inventory_statistics" where
  "recovery_statistics bytes s =
     s\<lparr>is_content_hashes := is_content_hashes s + 1, is_cache_recovery_hashes := is_cache_recovery_hashes s + 1,
       is_repository_bytes_read := is_repository_bytes_read s + bytes\<rparr>"

text \<open>The body of the loop: the content of a candidate, read or taken from the cache.\<close>

record refresh_plan =
  rf_base :: string
  rf_authoritative :: bool
  rf_dirty :: "path bset option"
  rf_previous :: "persisted_entry list"

definition counted_read ::
    "file_system \<Rightarrow> string \<Rightarrow> string \<Rightarrow> (nat \<Rightarrow> inventory_statistics \<Rightarrow> inventory_statistics) \<Rightarrow> inventory_store \<times> inventory_statistics
     \<Rightarrow> (inventory_store \<times> inventory_statistics) \<times> (beholder_error + string \<times> string)" where
  "counted_read fs base p record_read = (\<lambda>(st, s).
     let (st, r) = read_input fs base p st
     in ((st, case r of Inl _ \<Rightarrow> s | Inr (content, _) \<Rightarrow> record_read (length content) s), r))"

definition input_content ::
    "file_system \<Rightarrow> refresh_plan \<Rightarrow> string \<Rightarrow> path \<Rightarrow> input_kind \<Rightarrow> metadata_hint \<Rightarrow> inventory_store \<times> inventory_statistics
     \<Rightarrow> (inventory_store \<times> inventory_statistics) \<times> (beholder_error + string \<times> string)" where
  "input_content fs plan p relative kind hint acc =
     (let old = previous_entry (rf_previous plan) (path_text relative) kind;
          watcher_selected = (case rf_dirty plan of None \<Rightarrow> False | Some paths \<Rightarrow> relative \<in> set paths);
          selected = (rf_authoritative plan \<or> watcher_selected
            \<or> (case old of None \<Rightarrow> True | Some entry \<Rightarrow> pe_metadata entry \<noteq> hint))
      in if selected then counted_read fs (rf_base plan) p (hash_statistics (rf_authoritative plan) watcher_selected) acc
         else
           let hash = pe_content_hash (the old)
           in case load_content fs hash (rf_base plan) (fst acc) of
                (st, Inr content) \<Rightarrow>
                  ((st, (snd acc)\<lparr>is_cached_bytes_reused := is_cached_bytes_reused (snd acc) + length content\<rparr>), Inr (content, hash))
              | (st, Inl _) \<Rightarrow> counted_read fs (rf_base plan) p recovery_statistics (st, snd acc))"

fun refresh_inputs ::
    "file_system \<Rightarrow> refresh_plan \<Rightarrow> (string \<times> input_kind) list \<Rightarrow> inventory_store \<times> inventory_statistics
     \<Rightarrow> (inventory_store \<times> inventory_statistics) \<times> (beholder_error + (persisted_entry \<times> repository_input) list)" where
  "refresh_inputs fs plan [] acc = (acc, Inr [])"
| "refresh_inputs fs plan ((p, kind) # candidates) acc =
     (case strip_path_prefix (path_components (rf_base plan)) (path_components p) of
        None \<Rightarrow> (acc, Inl (input_error p ''prefix not found''))
      | Some relative \<Rightarrow>
          (case fs_metadata fs p of
             Inl e \<Rightarrow> (acc, Inl (input_error p e))
           | Inr hint \<Rightarrow>
               (case input_content fs plan p relative kind hint acc of
                  (acc, Inl e) \<Rightarrow> (acc, Inl e)
                | (acc, Inr (content, hash)) \<Rightarrow>
                    (case refresh_inputs fs plan candidates acc of
                       (acc, Inl e) \<Rightarrow> (acc, Inl e)
                     | (acc, Inr inputs) \<Rightarrow>
                         (acc, Inr ((\<lparr>pe_path = path_text relative, pe_kind = kind, pe_metadata = hint, pe_content_hash = hash\<rparr>,
                                     \<lparr>ri_path = relative, ri_content = content, ri_kind = kind\<rparr>) # inputs))))))"

text \<open>The digested description of an input.\<close>

definition input_description :: "persisted_entry \<times> repository_input \<Rightarrow> string \<times> nat \<times> string" where
  "input_description = (\<lambda>(entry, input). (path_text (ri_path input), kind_code (ri_kind input), pe_content_hash entry))"

definition snapshot_state :: "file_system \<Rightarrow> string \<Rightarrow> string \<Rightarrow> (string \<times> nat \<times> string) list \<Rightarrow> beholder_error + repository_state" where
  "snapshot_state fs repository base inputs =
     (case state_from_content_hashes (fs_git fs) base inputs of
        Inl e \<Rightarrow> Inl (input_error base e)
      | Inr state \<Rightarrow> Inr (state\<lparr>rs_repository := \<lparr>lr_identity = repository\<rparr>\<rparr>))"

definition store_manifest :: "file_system \<Rightarrow> string \<Rightarrow> persisted_inventory \<Rightarrow> inventory_store \<Rightarrow> inventory_store \<times> (beholder_error + unit)" where
  "store_manifest fs key manifest st =
     (case fs_create_dir fs (fs_root fs @ ''/manifests'') of
        Some e \<Rightarrow> (st, Inl (input_error (fs_root fs @ ''/manifests'') e))
      | None \<Rightarrow>
          (case fs_write_manifest fs key of
             Some e \<Rightarrow> (st, Inl (input_error (fs_root fs @ ''/manifests/'' @ key @ ''.json'') e))
           | None \<Rightarrow> (st\<lparr>iv_manifests := bm_put key manifest (iv_manifests st)\<rparr>, Inr ())))"

definition finish_refresh ::
    "file_system \<Rightarrow> string \<Rightarrow> string \<Rightarrow> string \<Rightarrow> string option \<Rightarrow> (persisted_entry \<times> repository_input) list
     \<Rightarrow> inventory_store \<times> inventory_statistics \<Rightarrow> inventory_store \<times> (beholder_error + repository_snapshot \<times> inventory_statistics)" where
  "finish_refresh fs repository base key previous_fingerprint inputs = (\<lambda>(st, s).
     case snapshot_state fs repository base (map input_description inputs) of
       Inl e \<Rightarrow> (st, Inl e)
     | Inr state \<Rightarrow>
         let s = (if previous_fingerprint = Some (rs_fingerprint state) then s\<lparr>is_repositories_reused := 1\<rparr>
                  else s\<lparr>is_repositories_changed := 1\<rparr>);
             manifest = \<lparr>pi_version = INVENTORY_VERSION, pi_fingerprint = Some (rs_fingerprint state), pi_entries = map fst inputs\<rparr>
         in case store_manifest fs key manifest st of
              (st, Inl e) \<Rightarrow> (st, Inl e)
            | (st, Inr _) \<Rightarrow>
                (st\<lparr>iv_verified := bs_insert key (iv_verified st)\<rparr>,
                 Inr (\<lparr>rp_base = base, rp_state = state, rp_inputs = map snd inputs\<rparr>, s)))"

definition refresh ::
    "file_system \<Rightarrow> input_catalog \<Rightarrow> string \<Rightarrow> string \<Rightarrow> string list \<Rightarrow> refresh_mode \<Rightarrow> inventory_store
     \<Rightarrow> inventory_store \<times> (beholder_error + repository_snapshot \<times> inventory_statistics)" where
  "refresh fs catalog repository base descriptors mode st =
     (if \<not> fs_is_dir fs base then (st, Inl (input_error base (''repository does not exist: '' @ utf8_lossy base)))
      else case ge_canonicalize (fs_git fs) base of
             Inl e \<Rightarrow> (st, Inl (input_error base e))
           | Inr canonical \<Rightarrow>
               let key = inventory_key (fs_git fs) repository canonical descriptors;
                   runtime_verified = key \<in> set (iv_verified st);
                   authoritative = (mode = Authoritative \<or> \<not> runtime_verified);
                   dirty = (case mode of Dirty paths \<Rightarrow> if runtime_verified then Some paths else None | _ \<Rightarrow> None);
                   previous = load_manifest key st
               in case inventory_candidates fs catalog base descriptors of
                    Inl e \<Rightarrow> (st, Inl e)
                  | Inr candidates \<Rightarrow>
                      let plan = \<lparr>rf_base = base, rf_authoritative = authoritative, rf_dirty = dirty,
                                  rf_previous = (case previous of None \<Rightarrow> [] | Some m \<Rightarrow> pi_entries m)\<rparr>;
                          s = no_statistics\<lparr>is_discovered_inputs := length candidates,
                                is_watcher_inputs := (case dirty of None \<Rightarrow> 0 | Some paths \<Rightarrow> length paths)\<rparr>
                      in case refresh_inputs fs plan candidates (st, s) of
                           ((st, s), Inl e) \<Rightarrow> (st, Inl e)
                         | ((st, s), Inr inputs) \<Rightarrow>
                             finish_refresh fs repository base key (Option.bind previous pi_fingerprint) inputs (st, s))"


section \<open>Checkpoints\<close>

text \<open>
  Does a manifest still describe the repository? Every candidate must be listed with the metadata it
  has now, and the fingerprint recomputed from the listed digests must be the expected one.
\<close>

fun manifest_inputs ::
    "file_system \<Rightarrow> string \<Rightarrow> persisted_entry list \<Rightarrow> (string \<times> input_kind) list
     \<Rightarrow> beholder_error + (string \<times> nat \<times> string) list option" where
  "manifest_inputs fs base previous [] = Inr (Some [])"
| "manifest_inputs fs base previous ((p, kind) # candidates) =
     (case strip_path_prefix (path_components base) (path_components p) of
        None \<Rightarrow> Inl (input_error p ''prefix not found'')
      | Some relative \<Rightarrow>
          (case previous_entry previous (path_text relative) kind of
             None \<Rightarrow> Inr None
           | Some entry \<Rightarrow>
               (case fs_metadata fs p of
                  Inl _ \<Rightarrow> Inr None
                | Inr hint \<Rightarrow>
                    if pe_metadata entry \<noteq> hint then Inr None
                    else rbind (manifest_inputs fs base previous candidates) (\<lambda>rest.
                           Inr (map_option (\<lambda>inputs. (path_text relative, kind_code kind, pe_content_hash entry) # inputs) rest)))))"

definition distinct_entries :: "persisted_entry list \<Rightarrow> nat" where
  "distinct_entries entries = length (remdups (map (\<lambda>e. (pe_path e, pe_kind e)) entries))"

definition verify_manifest ::
    "file_system \<Rightarrow> input_catalog \<Rightarrow> string \<Rightarrow> string \<Rightarrow> string list \<Rightarrow> string \<Rightarrow> string \<Rightarrow> inventory_store
     \<Rightarrow> beholder_error + bool" where
  "verify_manifest fs catalog repository base descriptors key expected st =
     (case load_manifest key st of
        None \<Rightarrow> Inr False
      | Some manifest \<Rightarrow>
          rbind (inventory_candidates fs catalog base descriptors) (\<lambda>candidates.
            if length candidates \<noteq> distinct_entries (pi_entries manifest) then Inr False
            else rbind (manifest_inputs fs base (pi_entries manifest) candidates) (\<lambda>inputs.
              case inputs of
                None \<Rightarrow> Inr False
              | Some inputs \<Rightarrow>
                  rbind (snapshot_state fs repository base inputs) (\<lambda>state.
                    Inr (pi_fingerprint manifest = Some (rs_fingerprint state) \<and> rs_fingerprint state = expected)))))"

definition descriptors_of :: "workspace \<Rightarrow> workspace_repository \<Rightarrow> string list" where
  "descriptors_of ws r = map pd_path (filter (\<lambda>d. pd_repository d = wr_repository r) (ws_protobuf_descriptors ws))"

record checkpoint_verification =
  cv_verification_fingerprint :: string
  cv_inventory_keys :: "string list"

text \<open>The repositories one by one; \<open>None\<close> when one has changed, else their inventory keys.\<close>

fun verify_repositories ::
    "file_system \<Rightarrow> input_catalog \<Rightarrow> workspace \<Rightarrow> (workspace_repository \<times> persisted_checkpoint_repository) list \<Rightarrow> inventory_store
     \<Rightarrow> beholder_error + string list option" where
  "verify_repositories fs catalog ws [] st = Inr (Some [])"
| "verify_repositories fs catalog ws ((configured, persisted) # rest) st =
     (case ge_canonicalize (fs_git fs) (wr_base configured) of
        Inl e \<Rightarrow> Inl (input_error (wr_base configured) e)
      | Inr canonical \<Rightarrow>
          let descriptors = descriptors_of ws configured;
              key = inventory_key (fs_git fs) (wr_identity configured) canonical descriptors
          in rbind (verify_manifest fs catalog (wr_identity configured) (wr_base configured) descriptors key
                     (cr_fingerprint persisted) st) (\<lambda>verified.
               if cr_identity persisted \<noteq> wr_identity configured \<or> cr_inventory_key persisted \<noteq> key \<or> \<not> verified
               then Inr None
               else rbind (verify_repositories fs catalog ws rest st) (\<lambda>keys. Inr (map_option ((#) key) keys))))"

definition verify_checkpoint ::
    "file_system \<Rightarrow> input_catalog \<Rightarrow> workspace \<Rightarrow> inventory_store \<Rightarrow> beholder_error + checkpoint_verification option" where
  "verify_checkpoint fs catalog ws st =
     (case load_checkpoint (checkpoint_path fs (ws_name ws)) st of
        None \<Rightarrow> Inr None
      | Some checkpoint \<Rightarrow>
          if pk_reconciliation_identity checkpoint \<noteq> ic_reconciliation_identity catalog
             \<or> pk_enabled_plugins checkpoint \<noteq> ws_enabled_plugins ws
             \<or> length (pk_repositories checkpoint) \<noteq> length (ws_repositories ws)
          then Inr None
          else rbind (verify_repositories fs catalog ws (zip (ws_repositories ws) (pk_repositories checkpoint)) st) (\<lambda>keys.
                 Inr (map_option (\<lambda>keys. \<lparr>cv_verification_fingerprint = pk_verification_fingerprint checkpoint,
                                          cv_inventory_keys = keys\<rparr>) keys)))"

definition accept_checkpoint :: "checkpoint_verification \<Rightarrow> inventory_store \<Rightarrow> inventory_store" where
  "accept_checkpoint checkpoint st = st\<lparr>iv_verified := bs_union (iv_verified st) (cv_inventory_keys checkpoint)\<rparr>"

definition checkpoint_repository ::
    "file_system \<Rightarrow> workspace \<Rightarrow> workspace_repository \<times> repository_snapshot \<Rightarrow> beholder_error + persisted_checkpoint_repository" where
  "checkpoint_repository fs ws = (\<lambda>(configured, snapshot).
     case ge_canonicalize (fs_git fs) (wr_base configured) of
       Inl e \<Rightarrow> Inl (input_error (wr_base configured) e)
     | Inr canonical \<Rightarrow>
         Inr \<lparr>cr_identity = wr_identity configured,
              cr_inventory_key = inventory_key (fs_git fs) (wr_identity configured) canonical (descriptors_of ws configured),
              cr_fingerprint = rs_fingerprint (rp_state snapshot)\<rparr>)"

definition store_checkpoint ::
    "file_system \<Rightarrow> input_catalog \<Rightarrow> workspace \<Rightarrow> repository_snapshot list \<Rightarrow> string \<Rightarrow> inventory_store
     \<Rightarrow> inventory_store \<times> (beholder_error + unit)" where
  "store_checkpoint fs catalog ws snapshots verification st =
     (case try_map (checkpoint_repository fs ws) (zip (ws_repositories ws) snapshots) of
        Inl e \<Rightarrow> (st, Inl e)
      | Inr repositories \<Rightarrow>
          let path = checkpoint_path fs (ws_name ws);
              checkpoint = \<lparr>pk_version = CHECKPOINT_VERSION, pk_reconciliation_identity = ic_reconciliation_identity catalog,
                 pk_enabled_plugins = ws_enabled_plugins ws, pk_verification_fingerprint = verification,
                 pk_repositories = repositories\<rparr>
          in case fs_create_dir fs (fs_root fs @ ''/checkpoints'') of
               Some e \<Rightarrow> (st, Inl (input_error (fs_root fs @ ''/checkpoints'') e))
             | None \<Rightarrow>
                 (case fs_write_checkpoint fs path of
                    Some e \<Rightarrow> (st, Inl (input_error path e))
                  | None \<Rightarrow> (st\<lparr>iv_checkpoints := bm_put path checkpoint (iv_checkpoints st)\<rparr>, Inr ())))"


section \<open>The full snapshot\<close>

text \<open>What the repository holds: every candidate read, and the state its contents determine.\<close>

fun read_all :: "file_system \<Rightarrow> string \<Rightarrow> (string \<times> input_kind) list \<Rightarrow> repository_input list option" where
  "read_all fs base [] = Some []"
| "read_all fs base ((p, kind) # candidates) =
     (case (strip_path_prefix (path_components base) (path_components p), fs_read fs p, read_all fs base candidates) of
        (Some relative, Inr content, Some inputs) \<Rightarrow>
          Some (\<lparr>ri_path = relative, ri_content = content, ri_kind = kind\<rparr> # inputs)
      | _ \<Rightarrow> None)"

definition content_description :: "git_environment \<Rightarrow> repository_input \<Rightarrow> string \<times> nat \<times> string" where
  "content_description git input = (path_text (ri_path input), kind_code (ri_kind input), ge_sha256 git (ri_content input))"

definition full_snapshot ::
    "file_system \<Rightarrow> input_catalog \<Rightarrow> string \<Rightarrow> string \<Rightarrow> string list \<Rightarrow> repository_snapshot option" where
  "full_snapshot fs catalog repository base descriptors =
     (case inventory_candidates fs catalog base descriptors of
        Inl _ \<Rightarrow> None
      | Inr candidates \<Rightarrow>
          Option.bind (read_all fs base candidates) (\<lambda>inputs.
            case snapshot_state fs repository base (map (content_description (fs_git fs)) inputs) of
              Inl _ \<Rightarrow> None
            | Inr state \<Rightarrow> Some \<lparr>rp_base = base, rp_state = state, rp_inputs = inputs\<rparr>))"

text \<open>
  The hints are sound when a file that looks as a manifest entry says, and that the watcher has not
  reported, still has the content the entry digests. The caches are sound when the memory holds each
  content under its digest; \<open>K\<close> collects the contents seen, to say that no two of them collide.
\<close>

definition watched :: "refresh_plan \<Rightarrow> path \<Rightarrow> bool" where
  "watched plan relative \<longleftrightarrow> (case rf_dirty plan of None \<Rightarrow> False | Some paths \<Rightarrow> relative \<in> set paths)"

definition hint_sound :: "file_system \<Rightarrow> refresh_plan \<Rightarrow> string \<times> input_kind \<Rightarrow> bool" where
  "hint_sound fs plan = (\<lambda>(p, kind).
     case strip_path_prefix (path_components (rf_base plan)) (path_components p) of
       None \<Rightarrow> True
     | Some relative \<Rightarrow>
         (case previous_entry (rf_previous plan) (path_text relative) kind of
            None \<Rightarrow> True
          | Some entry \<Rightarrow>
              watched plan relative
              \<or> (fs_metadata fs p = Inr (pe_metadata entry) \<longrightarrow>
                 (case fs_read fs p of Inl _ \<Rightarrow> False | Inr content \<Rightarrow> ge_sha256 (fs_git fs) content = pe_content_hash entry))))"

definition caches_sound :: "git_environment \<Rightarrow> string set \<Rightarrow> inventory_store \<Rightarrow> bool" where
  "caches_sound git K st \<longleftrightarrow>
     (\<forall>hash content. map_of (iv_content st) hash = Some content \<longrightarrow> ge_sha256 git content = hash \<and> content \<in> K)
     \<and> (\<forall>hash content. map_of (iv_blobs st) hash = Some content \<longrightarrow> content \<in> K)"

definition contents_known :: "file_system \<Rightarrow> string set \<Rightarrow> bool" where
  "contents_known fs K \<longleftrightarrow> (\<forall>p content. fs_read fs p = Inr content \<longrightarrow> content \<in> K)"

lemma caches_sound_remember:
  "caches_sound git K st \<Longrightarrow> content \<in> K \<Longrightarrow> caches_sound git K (remember (ge_sha256 git content) content st)"
  by (auto simp: caches_sound_def remember_def)

lemma caches_sound_store_blob:
  "store_blob fs hash content base st = (st', r) \<Longrightarrow> caches_sound git K st \<Longrightarrow> content \<in> K \<Longrightarrow> caches_sound git K st'"
  by (auto simp: store_blob_def Let_def caches_sound_def split: if_splits option.splits)

lemma caches_sound_cong:
  "iv_content st' = iv_content st \<Longrightarrow> iv_blobs st' = iv_blobs st \<Longrightarrow> caches_sound git K st' = caches_sound git K st"
  by (simp add: caches_sound_def)

lemma read_input_Inr:
  "read_input fs base p st = (st', Inr (content, hash)) \<Longrightarrow> fs_read fs p = Inr content \<and> hash = ge_sha256 (fs_git fs) content"
  by (auto simp: read_input_def Let_def split: sum.splits prod.splits)

lemma read_input_sound:
  assumes "read_input fs base p st = (st', r)" "caches_sound (fs_git fs) K st" "contents_known fs K"
  shows "caches_sound (fs_git fs) K st'"
proof (cases "fs_read fs p")
  case (Inl e)
  with assms show ?thesis by (simp add: read_input_def)
next
  case (Inr bytes)
  let ?hash = "ge_sha256 (fs_git fs) bytes"
  obtain st1 r1 where store: "store_blob fs ?hash bytes base (remember ?hash bytes st) = (st1, r1)" by fastforce
  with assms(1) Inr have "st' = st1" by (cases r1) (simp_all add: read_input_def Let_def)
  moreover have "bytes \<in> K" using Inr assms(3) by (simp add: contents_known_def)
  ultimately show ?thesis using caches_sound_store_blob [OF store caches_sound_remember [OF assms(2)]] by simp
qed

lemma load_content_sound:
  assumes "load_content fs hash base st = (st', r)" "caches_sound (fs_git fs) K st"
  shows "caches_sound (fs_git fs) K st'" "r = Inr content \<Longrightarrow> ge_sha256 (fs_git fs) content = hash \<and> content \<in> K"
proof -
  have "caches_sound (fs_git fs) K st' \<and> (r = Inr content \<longrightarrow> ge_sha256 (fs_git fs) content = hash \<and> content \<in> K)"
  proof (cases "map_of (iv_content st) hash")
    case (Some found)
    then have "ge_sha256 (fs_git fs) found = hash \<and> found \<in> K" using assms(2) by (simp add: caches_sound_def)
    with Some assms show ?thesis by (auto simp: load_content_def)
  next
    case None
    note run = assms(1) [unfolded load_content_def None option.case]
    show ?thesis
    proof (cases "blob_path fs hash")
      case None
      with run assms(2) show ?thesis by auto
    next
      case path: (Some path)
      show ?thesis
      proof (cases "map_of (iv_blobs st) hash")
        case None
        with run path assms(2) show ?thesis by auto
      next
        case (Some bytes)
        then have "bytes \<in> K" using assms(2) by (simp add: caches_sound_def)
        with run path Some assms(2) caches_sound_remember [OF assms(2), of bytes] show ?thesis by (auto split: if_splits)
      qed
    qed
  qed
  then show "caches_sound (fs_git fs) K st'" "r = Inr content \<Longrightarrow> ge_sha256 (fs_git fs) content = hash \<and> content \<in> K" by blast+
qed

lemma counted_read: "counted_read fs base p f (st, s) = ((st', s'), r) \<Longrightarrow> read_input fs base p st = (st', r)"
  by (auto simp: counted_read_def split: prod.splits)

text \<open>A content is read, perhaps after the cache failed, or is the cached one of an entry that looks unchanged.\<close>

lemma input_content_cases:
  assumes "input_content fs plan p relative kind hint (st, s) = ((st', s'), r)"
  obtains (direct) "read_input fs (rf_base plan) p st = (st', r)"
  | (recovered) st1 hash e where "load_content fs hash (rf_base plan) st = (st1, Inl e)"
      "read_input fs (rf_base plan) p st1 = (st', r)"
  | (cached) entry content where "previous_entry (rf_previous plan) (path_text relative) kind = Some entry"
      "\<not> rf_authoritative plan" "\<not> watched plan relative" "pe_metadata entry = hint" "r = Inr (content, pe_content_hash entry)"
      "load_content fs (pe_content_hash entry) (rf_base plan) st = (st', Inr content)"
proof -
  define old where "old = previous_entry (rf_previous plan) (path_text relative) kind"
  define watcher where "watcher = watched plan relative"
  define selected where "selected = (rf_authoritative plan \<or> watcher \<or> (case old of None \<Rightarrow> True | Some entry \<Rightarrow> pe_metadata entry \<noteq> hint))"
  note run = assms [unfolded input_content_def Let_def, folded old_def watched_def, folded watcher_def, folded selected_def]
  show thesis
  proof (cases selected)
    case True
    with run have "counted_read fs (rf_base plan) p (hash_statistics (rf_authoritative plan) watcher) (st, s) = ((st', s'), r)"
      by simp
    then show ?thesis using counted_read direct by blast
  next
    case False
    then obtain entry where entry: "old = Some entry" "\<not> rf_authoritative plan" "\<not> watcher" "pe_metadata entry = hint"
      by (auto simp: selected_def split: option.splits)
    obtain st1 loaded where load: "load_content fs (pe_content_hash entry) (rf_base plan) st = (st1, loaded)" by fastforce
    show ?thesis
    proof (cases loaded)
      case (Inl e)
      then have "counted_read fs (rf_base plan) p recovery_statistics (st1, s) = ((st', s'), r)"
        using run False load entry(1) by simp
      then show ?thesis using counted_read recovered load Inl by blast
    next
      case (Inr content)
      then show ?thesis using run False load entry cached [of entry content] by (simp add: old_def watcher_def)
    qed
  qed
qed

lemma input_content_sound:
  assumes "input_content fs plan p relative kind hint (st, s) = ((st', s'), r)" "caches_sound (fs_git fs) K st" "contents_known fs K"
  shows "caches_sound (fs_git fs) K st'"
  using assms(1)
proof (cases rule: input_content_cases)
  case direct
  then show ?thesis using read_input_sound assms(2,3) by blast
next
  case recovered
  then show ?thesis using read_input_sound load_content_sound(1) assms(2,3) by blast
next
  case cached
  then show ?thesis using load_content_sound(1) assms(2) by blast
qed

lemma refresh_inputs_Cons:
  assumes "refresh_inputs fs plan ((p, kind) # candidates) (st, s) = ((st', s'), Inr inputs)"
  obtains relative hint st1 s1 content hash rest where
    "strip_path_prefix (path_components (rf_base plan)) (path_components p) = Some relative"
    "fs_metadata fs p = Inr hint" "input_content fs plan p relative kind hint (st, s) = ((st1, s1), Inr (content, hash))"
    "refresh_inputs fs plan candidates (st1, s1) = ((st', s'), Inr rest)"
    "inputs = (\<lparr>pe_path = path_text relative, pe_kind = kind, pe_metadata = hint, pe_content_hash = hash\<rparr>,
               \<lparr>ri_path = relative, ri_content = content, ri_kind = kind\<rparr>) # rest"
  using assms by (auto split: option.splits sum.splits prod.splits)

lemma refresh_inputs_sound:
  "refresh_inputs fs plan candidates (st, s) = ((st', s'), Inr inputs) \<Longrightarrow> caches_sound (fs_git fs) K st \<Longrightarrow> contents_known fs K
   \<Longrightarrow> caches_sound (fs_git fs) K st'"
proof (induction candidates arbitrary: st s inputs)
  case (Cons c candidates)
  obtain p kind where c: "c = (p, kind)" by fastforce
  from Cons.prems(1) [unfolded c] show ?case
    by (rule refresh_inputs_Cons) (use Cons.IH Cons.prems(2,3) input_content_sound in blast)
qed simp

text \<open>When a plan may be trusted: it reads everything, or its shortcuts are sound.\<close>

definition trusted :: "file_system \<Rightarrow> string set \<Rightarrow> refresh_plan \<Rightarrow> (string \<times> input_kind) list \<Rightarrow> bool" where
  "trusted fs K plan candidates \<longleftrightarrow>
     rf_authoritative plan \<or> inj_on (ge_sha256 (fs_git fs)) K \<and> list_all (hint_sound fs plan) candidates"

lemma input_content_exact:
  assumes "input_content fs plan p relative kind hint (st, s) = ((st', s'), Inr (content, hash))"
    and "caches_sound (fs_git fs) K st" "contents_known fs K"
    and "trusted fs K plan ((p, kind) # candidates)" "fs_metadata fs p = Inr hint"
    and "strip_path_prefix (path_components (rf_base plan)) (path_components p) = Some relative"
  shows "fs_read fs p = Inr content \<and> hash = ge_sha256 (fs_git fs) content"
  using assms(1)
proof (cases rule: input_content_cases)
  case direct
  then show ?thesis by (rule read_input_Inr)
next
  case recovered
  from recovered(2) show ?thesis by (rule read_input_Inr)
next
  case (cached entry cached_content)
  from assms(4) cached(2) have inj: "inj_on (ge_sha256 (fs_git fs)) K" and sound: "hint_sound fs plan (p, kind)"
    by (auto simp: trusted_def)
  have hash: "content = cached_content" "pe_content_hash entry = hash" using cached(5) by simp_all
  with load_content_sound(2) [OF cached(6) assms(2) refl] have digest: "ge_sha256 (fs_git fs) content = hash" "content \<in> K"
    by simp_all
  have "case fs_read fs p of Inl _ \<Rightarrow> False | Inr bytes \<Rightarrow> ge_sha256 (fs_git fs) bytes = hash"
    using sound by (simp add: hint_sound_def assms(5,6) cached(1,3,4) hash(2) split: sum.splits)
  with digest inj_onD [OF inj] assms(3) show ?thesis by (cases "fs_read fs p") (auto simp: contents_known_def)
qed

lemma refresh_inputs_exact:
  assumes "refresh_inputs fs plan candidates (st, s) = ((st', s'), Inr inputs)"
    and "caches_sound (fs_git fs) K st" "contents_known fs K" "trusted fs K plan candidates"
  shows "read_all fs (rf_base plan) candidates = Some (map snd inputs)
    \<and> map input_description inputs = map (content_description (fs_git fs)) (map snd inputs)"
  using assms(1,2,4)
proof (induction candidates arbitrary: st s inputs)
  case (Cons c candidates)
  obtain p kind where c: "c = (p, kind)" by fastforce
  from Cons.prems(1) [unfolded c] show ?case
  proof (cases rule: refresh_inputs_Cons)
    case step: (1 relative hint st1 s1 content hash rest)
    have "trusted fs K plan candidates" using Cons.prems(3) by (auto simp: trusted_def)
    from Cons.IH [OF step(4) input_content_sound [OF step(3) Cons.prems(2) assms(3)] this]
      input_content_exact [OF step(3) Cons.prems(2) assms(3) Cons.prems(3) [unfolded c] step(2,1)]
    show ?thesis by (simp add: c step(1,5) input_description_def content_description_def)
  qed
qed simp

lemma store_manifest_Inr:
  "store_manifest fs key manifest st = (st', Inr u) \<Longrightarrow> st' = st\<lparr>iv_manifests := bm_put key manifest (iv_manifests st)\<rparr>"
  by (auto simp: store_manifest_def split: option.splits)

lemma finish_refresh_cases:
  assumes "finish_refresh fs repository base key fp inputs (st, s) = (st', Inr (snapshot, s'))"
  obtains state where "snapshot_state fs repository base (map input_description inputs) = Inr state"
    "snapshot = \<lparr>rp_base = base, rp_state = state, rp_inputs = map snd inputs\<rparr>"
    "st' = st\<lparr>iv_manifests := bm_put key \<lparr>pi_version = INVENTORY_VERSION, pi_fingerprint = Some (rs_fingerprint state),
                pi_entries = map fst inputs\<rparr> (iv_manifests st), iv_verified := bs_insert key (iv_verified st)\<rparr>"
proof -
  obtain state where state: "snapshot_state fs repository base (map input_description inputs) = Inr state"
    using assms by (cases "snapshot_state fs repository base (map input_description inputs)") (simp_all add: finish_refresh_def)
  obtain st1 r1 where store: "store_manifest fs key
      \<lparr>pi_version = INVENTORY_VERSION, pi_fingerprint = Some (rs_fingerprint state), pi_entries = map fst inputs\<rparr> st = (st1, r1)"
    by fastforce
  note run = assms [unfolded finish_refresh_def prod.case state sum.case Let_def store]
  then obtain u where r1: "r1 = Inr u" by (cases r1) simp_all
  show thesis
    by (rule that [OF state]) (use run r1 store_manifest_Inr [OF store [unfolded r1]] in simp_all)
qed

definition refresh_plan ::
    "file_system \<Rightarrow> string \<Rightarrow> string \<Rightarrow> string \<Rightarrow> string list \<Rightarrow> refresh_mode \<Rightarrow> inventory_store \<Rightarrow> refresh_plan" where
  "refresh_plan fs repository base canonical descriptors mode st =
     (let key = inventory_key (fs_git fs) repository canonical descriptors;
          runtime_verified = key \<in> set (iv_verified st)
      in \<lparr>rf_base = base, rf_authoritative = (mode = Authoritative \<or> \<not> runtime_verified),
          rf_dirty = (case mode of Dirty paths \<Rightarrow> if runtime_verified then Some paths else None | _ \<Rightarrow> None),
          rf_previous = (case load_manifest key st of None \<Rightarrow> [] | Some m \<Rightarrow> pi_entries m)\<rparr>)"

lemma refresh_cases:
  assumes "refresh fs catalog repository base descriptors mode st = (st', Inr (snapshot, s'))"
  obtains canonical candidates s st1 s1 inputs fp where
    "ge_canonicalize (fs_git fs) base = Inr canonical" "inventory_candidates fs catalog base descriptors = Inr candidates"
    "refresh_inputs fs (refresh_plan fs repository base canonical descriptors mode st) candidates (st, s) = ((st1, s1), Inr inputs)"
    "finish_refresh fs repository base (inventory_key (fs_git fs) repository canonical descriptors) fp inputs (st1, s1)
       = (st', Inr (snapshot, s'))"
proof -
  note run = assms [unfolded refresh_def]
  from run obtain canonical where canonical: "ge_canonicalize (fs_git fs) base = Inr canonical"
    by (cases "ge_canonicalize (fs_git fs) base") (simp_all split: if_splits)
  let ?key = "inventory_key (fs_git fs) repository canonical descriptors"
  let ?plan = "refresh_plan fs repository base canonical descriptors mode st"
  from run canonical obtain candidates where candidates: "inventory_candidates fs catalog base descriptors = Inr candidates"
    by (cases "inventory_candidates fs catalog base descriptors") (simp_all add: Let_def split: if_splits)
  define s where "s = no_statistics\<lparr>is_discovered_inputs := length candidates,
    is_watcher_inputs := (case rf_dirty ?plan of None \<Rightarrow> 0 | Some paths \<Rightarrow> length paths)\<rparr>"
  obtain st1 s1 r1 where inputs: "refresh_inputs fs ?plan candidates (st, s) = ((st1, s1), r1)" by (metis surj_pair)
  have "(case r1 of Inl e \<Rightarrow> (st1, Inl e)
      | Inr inputs \<Rightarrow> finish_refresh fs repository base ?key (Option.bind (load_manifest ?key st) pi_fingerprint) inputs (st1, s1))
    = (st', Inr (snapshot, s'))"
    using run inputs by (simp add: canonical candidates Let_def refresh_plan_def s_def split: if_splits sum.splits)
  with inputs show thesis by (cases r1) (auto intro: that [OF canonical candidates])
qed

definition candidates_trusted ::
    "file_system \<Rightarrow> input_catalog \<Rightarrow> string set \<Rightarrow> string \<Rightarrow> string \<Rightarrow> string list \<Rightarrow> refresh_mode \<Rightarrow> inventory_store \<Rightarrow> bool" where
  "candidates_trusted fs catalog K repository base descriptors mode st =
     (case (ge_canonicalize (fs_git fs) base, inventory_candidates fs catalog base descriptors) of
        (Inr canonical, Inr candidates) \<Rightarrow>
          trusted fs K (refresh_plan fs repository base canonical descriptors mode st) candidates
      | _ \<Rightarrow> True)"

lemma authoritative_trusted: "candidates_trusted fs catalog K repository base descriptors Authoritative st"
  by (simp add: candidates_trusted_def trusted_def refresh_plan_def Let_def split: sum.splits)

lemma refresh_plan_base [simp]: "rf_base (refresh_plan fs repository base canonical descriptors mode st) = base"
  by (simp add: refresh_plan_def Let_def)

lemma finish_refresh_caches:
  assumes "finish_refresh fs repository base key fp inputs (st, s) = (st', Inr (snapshot, s'))"
  shows "caches_sound git K st' = caches_sound git K st"
  using assms by (rule finish_refresh_cases) (simp add: caches_sound_def)

lemma refresh_caches_sound:
  assumes "refresh fs catalog repository base descriptors mode st = (st', Inr (snapshot, s))"
    and "caches_sound (fs_git fs) K st" "contents_known fs K"
  shows "caches_sound (fs_git fs) K st'"
  using assms(1) by (rule refresh_cases) (use finish_refresh_caches refresh_inputs_sound [OF _ assms(2,3)] in blast)

lemma refresh_full_snapshot:
  assumes "refresh fs catalog repository base descriptors mode st = (st', Inr (snapshot, s))"
    and "caches_sound (fs_git fs) K st" "contents_known fs K"
    and "candidates_trusted fs catalog K repository base descriptors mode st"
  shows "full_snapshot fs catalog repository base descriptors = Some snapshot \<and> caches_sound (fs_git fs) K st'"
  using assms(1)
proof (cases rule: refresh_cases)
  case (1 canonical candidates s0 st1 s1 inputs fp)
  let ?plan = "refresh_plan fs repository base canonical descriptors mode st"
  have "trusted fs K ?plan candidates" using assms(4) by (simp add: candidates_trusted_def 1(1,2))
  from refresh_inputs_exact [OF 1(3) assms(2,3) this] have all:
    "read_all fs base candidates = Some (map snd inputs)"
    "map input_description inputs = map (content_description (fs_git fs)) (map snd inputs)" by simp_all
  from 1(4) obtain state where "snapshot_state fs repository base (map input_description inputs) = Inr state"
      "snapshot = \<lparr>rp_base = base, rp_state = state, rp_inputs = map snd inputs\<rparr>" by (rule finish_refresh_cases)
  then have "full_snapshot fs catalog repository base descriptors = Some snapshot"
    by (simp add: full_snapshot_def 1(2) all(1) all(2) [symmetric] del: map_map map_eq_conv)
  then show ?thesis using finish_refresh_caches [OF 1(4)] refresh_inputs_sound [OF 1(3) assms(2,3)] by simp
qed

text \<open>
  C9. A refresh that succeeds returns the snapshot a full read of the repository gives, whatever it took
  from the cache, when every unreported file with unchanged metadata is unchanged and the contents
  seen do not collide; an authoritative refresh needs neither. The caches stay sound.
\<close>

theorem refresh_exact:
  assumes "refresh fs catalog repository base descriptors mode st = (st', Inr (snapshot, s))"
    and "caches_sound (fs_git fs) K st" "contents_known fs K"
    and "candidates_trusted fs catalog K repository base descriptors mode st"
  shows "full_snapshot fs catalog repository base descriptors = Some snapshot \<and> caches_sound (fs_git fs) K st'"
  using assms by (rule refresh_full_snapshot)

text \<open>A manifest that verifies describes what the files hold now, when the hints are sound.\<close>

definition manifest_plan :: "git_environment \<Rightarrow> workspace \<Rightarrow> workspace_repository \<Rightarrow> inventory_store \<Rightarrow> refresh_plan" where
  "manifest_plan git ws configured st =
     \<lparr>rf_base = wr_base configured, rf_authoritative = False, rf_dirty = None,
      rf_previous = (case ge_canonicalize git (wr_base configured) of
         Inl _ \<Rightarrow> []
       | Inr canonical \<Rightarrow>
           (case load_manifest (inventory_key git (wr_identity configured) canonical (descriptors_of ws configured)) st of
              None \<Rightarrow> [] | Some m \<Rightarrow> pi_entries m))\<rparr>"

definition hints_sound :: "file_system \<Rightarrow> input_catalog \<Rightarrow> workspace \<Rightarrow> inventory_store \<Rightarrow> workspace_repository \<Rightarrow> bool" where
  "hints_sound fs catalog ws st configured =
     (case inventory_candidates fs catalog (wr_base configured) (descriptors_of ws configured) of
        Inl _ \<Rightarrow> True
      | Inr candidates \<Rightarrow> list_all (hint_sound fs (manifest_plan (fs_git fs) ws configured st)) candidates)"

lemma manifest_inputs_Cons:
  assumes "manifest_inputs fs base previous ((p, kind) # candidates) = Inr (Some inputs)"
  obtains relative entry rest where "strip_path_prefix (path_components base) (path_components p) = Some relative"
    "previous_entry previous (path_text relative) kind = Some entry" "fs_metadata fs p = Inr (pe_metadata entry)"
    "manifest_inputs fs base previous candidates = Inr (Some rest)"
    "inputs = (path_text relative, kind_code kind, pe_content_hash entry) # rest"
proof -
  from assms obtain relative where relative: "strip_path_prefix (path_components base) (path_components p) = Some relative"
    by (cases "strip_path_prefix (path_components base) (path_components p)") simp_all
  with assms obtain entry where entry: "previous_entry previous (path_text relative) kind = Some entry"
    by (cases "previous_entry previous (path_text relative) kind") simp_all
  with assms relative obtain hint where hint: "fs_metadata fs p = Inr hint"
    by (cases "fs_metadata fs p") simp_all
  with assms relative entry have same: "hint = pe_metadata entry" by (simp split: if_splits)
  show thesis
    using assms relative entry hint same
    by (cases "manifest_inputs fs base previous candidates") (auto intro: that [OF relative entry])
qed

lemma manifest_inputs_exact:
  assumes "manifest_inputs fs (rf_base plan) (rf_previous plan) candidates = Inr (Some inputs)"
    and "rf_dirty plan = None" "list_all (hint_sound fs plan) candidates"
  shows "\<exists>read. read_all fs (rf_base plan) candidates = Some read \<and> map (content_description (fs_git fs)) read = inputs"
  using assms
proof (induction candidates arbitrary: inputs)
  case (Cons c candidates)
  obtain p kind where c: "c = (p, kind)" by fastforce
  from Cons.prems(1) [unfolded c] show ?case
  proof (cases rule: manifest_inputs_Cons)
    case step: (1 relative entry rest)
    have "hint_sound fs plan (p, kind)" using Cons.prems(3) c by simp
    then obtain content where content: "fs_read fs p = Inr content" "ge_sha256 (fs_git fs) content = pe_content_hash entry"
      by (auto simp: hint_sound_def watched_def step(1,2,3) Cons.prems(2) split: sum.splits)
    from Cons.IH [OF step(4) Cons.prems(2)] Cons.prems(3) obtain read where
      "read_all fs (rf_base plan) candidates = Some read" "map (content_description (fs_git fs)) read = rest" by auto
    moreover have "content_description (fs_git fs) \<lparr>ri_path = relative, ri_content = content, ri_kind = kind\<rparr>
        = (path_text relative, kind_code kind, pe_content_hash entry)" by (simp add: content_description_def content)
    ultimately show ?thesis using content(1) step(1,5) by (simp add: c)
  qed
qed simp

text \<open>The repository is as the checkpoint's entry for it says.\<close>

definition entry_current :: "file_system \<Rightarrow> input_catalog \<Rightarrow> workspace \<Rightarrow> workspace_repository \<times> persisted_checkpoint_repository \<Rightarrow> bool" where
  "entry_current fs catalog ws = (\<lambda>(configured, persisted).
     cr_identity persisted = wr_identity configured
     \<and> (case full_snapshot fs catalog (wr_identity configured) (wr_base configured) (descriptors_of ws configured) of
          None \<Rightarrow> False
        | Some snapshot \<Rightarrow> rs_fingerprint (rp_state snapshot) = cr_fingerprint persisted))"

lemma verify_manifest_cases:
  assumes "verify_manifest fs catalog repository base descriptors key expected st = Inr True"
  obtains manifest candidates inputs state where "load_manifest key st = Some manifest"
    "inventory_candidates fs catalog base descriptors = Inr candidates"
    "manifest_inputs fs base (pi_entries manifest) candidates = Inr (Some inputs)"
    "snapshot_state fs repository base inputs = Inr state" "rs_fingerprint state = expected"
proof -
  from assms obtain manifest where manifest: "load_manifest key st = Some manifest"
    by (cases "load_manifest key st") (simp_all add: verify_manifest_def)
  with assms obtain candidates where candidates: "inventory_candidates fs catalog base descriptors = Inr candidates"
    by (cases "inventory_candidates fs catalog base descriptors") (simp_all add: verify_manifest_def)
  with assms manifest obtain read where read: "manifest_inputs fs base (pi_entries manifest) candidates = Inr read"
    by (cases "manifest_inputs fs base (pi_entries manifest) candidates") (simp_all add: verify_manifest_def split: if_splits)
  with assms manifest candidates obtain inputs where inputs: "read = Some inputs"
    by (cases read) (simp_all add: verify_manifest_def split: if_splits)
  show thesis
    using assms manifest candidates read inputs
    by (cases "snapshot_state fs repository base inputs")
       (auto simp: verify_manifest_def intro: that [OF manifest candidates] split: if_splits)
qed

lemma verify_manifest_exact:
  assumes "verify_manifest fs catalog (wr_identity configured) (wr_base configured) (descriptors_of ws configured)
      (inventory_key (fs_git fs) (wr_identity configured) canonical (descriptors_of ws configured)) expected st = Inr True"
    and "ge_canonicalize (fs_git fs) (wr_base configured) = Inr canonical" "hints_sound fs catalog ws st configured"
  shows "\<exists>snapshot. full_snapshot fs catalog (wr_identity configured) (wr_base configured) (descriptors_of ws configured) = Some snapshot
    \<and> rs_fingerprint (rp_state snapshot) = expected"
  using assms(1)
proof (cases rule: verify_manifest_cases)
  case (1 manifest candidates inputs state)
  let ?plan = "manifest_plan (fs_git fs) ws configured st"
  have plan: "rf_base ?plan = wr_base configured" "rf_dirty ?plan = None" "rf_previous ?plan = pi_entries manifest"
    by (simp_all add: manifest_plan_def assms(2) 1(1))
  have "list_all (hint_sound fs ?plan) candidates" using assms(3) 1(2) by (simp add: hints_sound_def)
  with manifest_inputs_exact [of fs ?plan] 1(3) plan obtain read where
    "read_all fs (wr_base configured) candidates = Some read" "map (content_description (fs_git fs)) read = inputs" by auto
  with 1(2,4,5) show ?thesis by (simp add: full_snapshot_def)
qed

lemma verify_repositories_exact:
  "verify_repositories fs catalog ws pairs st = Inr (Some keys) \<Longrightarrow> list_all (hints_sound fs catalog ws st) (map fst pairs)
   \<Longrightarrow> list_all (entry_current fs catalog ws) pairs"
proof (induction pairs arbitrary: keys)
  case (Cons pair pairs)
  obtain configured persisted where pair: "pair = (configured, persisted)" by fastforce
  let ?descriptors = "descriptors_of ws configured"
  from Cons.prems(1) obtain canonical where canonical: "ge_canonicalize (fs_git fs) (wr_base configured) = Inr canonical"
    by (cases "ge_canonicalize (fs_git fs) (wr_base configured)") (simp_all add: pair)
  let ?verify = "verify_manifest fs catalog (wr_identity configured) (wr_base configured) ?descriptors
    (inventory_key (fs_git fs) (wr_identity configured) canonical ?descriptors) (cr_fingerprint persisted) st"
  from Cons.prems(1) have verified: "?verify = Inr True" "cr_identity persisted = wr_identity configured"
    by (cases ?verify; simp add: pair canonical Let_def split: if_splits)+
  from Cons.prems(1) obtain rest where "verify_repositories fs catalog ws pairs st = Inr (Some rest)"
    by (cases "verify_repositories fs catalog ws pairs st") (auto simp: pair canonical Let_def verified split: if_splits)
  with Cons.IH Cons.prems(2) have "list_all (entry_current fs catalog ws) pairs" by simp
  moreover have "hints_sound fs catalog ws st configured" using Cons.prems(2) pair by simp
  from verify_manifest_exact [OF verified(1) canonical this] verified(2) have "entry_current fs catalog ws pair"
    by (auto simp: entry_current_def pair)
  ultimately show ?case by simp
qed simp


section \<open>Freshly stored manifests verify\<close>

lemma previous_entry_self:
  "distinct (map (\<lambda>e. (pe_path e, pe_kind e)) entries) \<Longrightarrow> entry \<in> set entries
   \<Longrightarrow> previous_entry entries (pe_path entry) (pe_kind entry) = Some entry"
  unfolding previous_entry_def by (rule map_of_is_SomeI) (auto simp: rev_map [symmetric] o_def)

lemma refresh_inputs_verify:
  assumes "refresh_inputs fs plan candidates acc = (acc', Inr inputs)"
    and "\<And>entry. entry \<in> set (map fst inputs) \<Longrightarrow> previous_entry previous (pe_path entry) (pe_kind entry) = Some entry"
  shows "manifest_inputs fs (rf_base plan) previous candidates = Inr (Some (map input_description inputs))"
  using assms
proof (induction candidates arbitrary: acc inputs)
  case (Cons c candidates)
  obtain p kind where c: "c = (p, kind)" by fastforce
  obtain st s st' s' where acc: "acc = (st, s)" "acc' = (st', s')" by fastforce
  from Cons.prems(1) [unfolded c acc] show ?case
  proof (cases rule: refresh_inputs_Cons)
    case step: (1 relative hint st1 s1 content hash rest)
    have "manifest_inputs fs (rf_base plan) previous candidates = Inr (Some (map input_description rest))"
      using Cons.IH [OF step(4) [folded acc]] Cons.prems(2) step(5) by simp
    with step(1,2) Cons.prems(2) [of "fst (hd inputs)"] step(5) show ?thesis by (simp add: c input_description_def)
  qed
qed simp

lemma refresh_inputs_keys:
  "refresh_inputs fs plan candidates acc = (acc', Inr inputs)
   \<Longrightarrow> length inputs = length candidates
     \<and> map (\<lambda>e. (pe_path e, pe_kind e)) (map fst inputs) = map (\<lambda>i. (path_text (ri_path i), ri_kind i)) (map snd inputs)"
proof (induction candidates arbitrary: acc inputs)
  case (Cons c candidates)
  obtain p kind where c: "c = (p, kind)" by fastforce
  obtain st s st' s' where acc: "acc = (st, s)" "acc' = (st', s')" by fastforce
  from Cons.prems(1) [unfolded c acc] show ?case
    by (rule refresh_inputs_Cons) (use Cons.IH acc in fastforce)
qed simp

text \<open>
  C16. And it is worth storing: the manifest a refresh leaves verifies at once, with the fingerprint of the
  snapshot, when no input is listed twice.
\<close>

theorem refreshed_manifest_verifies:
  assumes "refresh fs catalog repository base descriptors mode st = (st', Inr (snapshot, s))"
    and "ge_canonicalize (fs_git fs) base = Inr canonical"
    and "distinct (map (\<lambda>i. (path_text (ri_path i), ri_kind i)) (rp_inputs snapshot))"
  shows "verify_manifest fs catalog repository base descriptors (inventory_key (fs_git fs) repository canonical descriptors)
    (rs_fingerprint (rp_state snapshot)) st' = Inr True"
  using assms(1)
proof (cases rule: refresh_cases)
  case (1 canonical' candidates s0 st1 s1 inputs fp)
  have key: "canonical' = canonical" using 1(1) assms(2) by simp
  let ?key = "inventory_key (fs_git fs) repository canonical descriptors"
  from 1(4) obtain state where state: "snapshot_state fs repository base (map input_description inputs) = Inr state"
      "snapshot = \<lparr>rp_base = base, rp_state = state, rp_inputs = map snd inputs\<rparr>"
    and stored: "load_manifest ?key st' =
      Some \<lparr>pi_version = INVENTORY_VERSION, pi_fingerprint = Some (rs_fingerprint state), pi_entries = map fst inputs\<rparr>"
    by (rule finish_refresh_cases) (simp add: load_manifest_def key)
  note keys = refresh_inputs_keys [OF 1(3)]
  with assms(3) state(2) have entries: "distinct (map (\<lambda>e. (pe_path e, pe_kind e)) (map fst inputs))"
    by (simp del: map_map map_eq_conv)
  then have "manifest_inputs fs base (map fst inputs) candidates = Inr (Some (map input_description inputs))"
    using refresh_inputs_verify [OF 1(3) previous_entry_self] by simp
  moreover have "distinct_entries (map fst inputs) = length candidates"
    unfolding distinct_entries_def distinct_remdups_id [OF entries] using keys by simp
  ultimately show ?thesis using state stored by (simp add: verify_manifest_def 1(2))
qed

section \<open>An example\<close>

lemma refresh_succeeds:
  assumes "fs_is_dir fs base" "ge_canonicalize (fs_git fs) base = Inr canonical"
    and "inventory_candidates fs catalog base descriptors = Inr candidates"
    and plan: "plan = refresh_plan fs repository base canonical descriptors mode st"
    and "refresh_inputs fs plan candidates (st, no_statistics\<lparr>is_discovered_inputs := length candidates,
           is_watcher_inputs := (case rf_dirty plan of None \<Rightarrow> 0 | Some paths \<Rightarrow> length paths)\<rparr>) = ((st1, s1), Inr inputs)"
    and "snapshot_state fs repository base (map input_description inputs) = Inr state"
    and "fs_create_dir fs (fs_root fs @ ''/manifests'') = None"
    and "fs_write_manifest fs (inventory_key (fs_git fs) repository canonical descriptors) = None"
  shows "\<exists>st' s'. refresh fs catalog repository base descriptors mode st
    = (st', Inr (\<lparr>rp_base = base, rp_state = state, rp_inputs = map snd inputs\<rparr>, s'))"
  using assms(5)
  by (simp add: refresh_def assms(1-3,6-8) Let_def refresh_plan_def plan finish_refresh_def store_manifest_def)

definition example_hint :: metadata_hint where
  "example_hint = \<lparr>mh_len = 1, mh_modified_nanos = None, mh_device = 0, mh_inode = 0, mh_changed_seconds = 0, mh_changed_nanos = 0\<rparr>"

definition example_digest :: "string \<Rightarrow> string" where
  "example_digest s = (if s = ''x'' then ''1'' else if s = ''y'' then ''2'' else ''0'')"

definition example_files :: file_system where
  "example_files =
     \<lparr>fs_git = \<lparr>ge_canonicalize = Inr, ge_exists = (\<lambda>_. True), ge_discover = (\<lambda>_. None), ge_worktree_list = Inl,
                ge_sha256 = example_digest\<rparr>,
      fs_root = ''/data'', fs_is_dir = (\<lambda>_. True),
      fs_tree = (\<lambda>_. Inr [FileEntry ''b'', FileEntry ''a'']), fs_metadata = (\<lambda>_. Inr example_hint),
      fs_read = (\<lambda>p. if p = ''/r/a'' then Inr ''x'' else if p = ''/r/b'' then Inr ''y'' else Inl ''missing''),
      fs_create_dir = (\<lambda>_. None), fs_write_blob = (\<lambda>_. None), fs_write_manifest = (\<lambda>_. None), fs_write_checkpoint = (\<lambda>_. None)\<rparr>"

definition example_catalog :: input_catalog where
  "example_catalog = \<lparr>ic_accepts = (\<lambda>_. True), ic_reconciliation_identity = ''v1''\<rparr>"

definition example_entry :: "string \<Rightarrow> string \<Rightarrow> persisted_entry" where
  "example_entry p hash = \<lparr>pe_path = p, pe_kind = Source, pe_metadata = example_hint, pe_content_hash = hash\<rparr>"

text \<open>\<open>b\<close> was rewritten within the resolution of its metadata; only the watcher knows.\<close>

definition example_store :: inventory_store where
  "example_store =
     \<lparr>iv_verified = [''0''], iv_content = [(''1'', ''x'')], iv_blobs = [],
      iv_manifests = [(''0'', \<lparr>pi_version = 1, pi_fingerprint = None, pi_entries = [example_entry ''a'' ''1'', example_entry ''b'' ''1'']\<rparr>)],
      iv_checkpoints = []\<rparr>"

definition example_refresh :: "inventory_store \<times> (beholder_error + repository_snapshot \<times> inventory_statistics)" where
  "example_refresh = refresh example_files example_catalog ''r'' ''/r'' [] (Dirty [[(4, ''b'')]]) example_store"

text \<open>Anything longer than one character has the digest \<open>0\<close>; the keys need not be computed.\<close>

lemma example_digest_long [simp]: "1 < length s \<Longrightarrow> example_digest s = ''0''"
  by (auto simp: example_digest_def)

lemma example_key [simp]: "inventory_key (fs_git example_files) repository canonical descriptors = ''0''"
  by (simp add: inventory_key_def example_files_def framed_bytes_def le_bytes_def)

lemma example_candidates: "inventory_candidates example_files example_catalog ''/r'' [] = Inr [(''/r/a'', Source), (''/r/b'', Source)]"
  by code_simp

lemma example_canonical: "ge_canonicalize (fs_git example_files) base = Inr base"
  by (simp add: example_files_def)

lemma example_state:
  "snapshot_state example_files ''r'' ''/r'' inputs = Inr \<lparr>rs_repository = \<lparr>lr_identity = ''r''\<rparr>, rs_head = None, rs_fingerprint = ''0''\<rparr>"
proof -
  have "utf8_valid ''/r''" by code_simp
  then show ?thesis
    by (simp add: snapshot_state_def state_from_content_hashes_def repository_version_def example_files_def
        local_repository_identity_def local_identity_def content_bytes_def)
qed

lemma example_plan:
  "refresh_plan example_files ''r'' ''/r'' ''/r'' [] (Dirty [[(4, ''b'')]]) example_store
     = \<lparr>rf_base = ''/r'', rf_authoritative = False, rf_dirty = Some [[(4, ''b'')]],
        rf_previous = [example_entry ''a'' ''1'', example_entry ''b'' ''1'']\<rparr>"
  by (simp add: refresh_plan_def Let_def example_store_def load_manifest_def INVENTORY_VERSION_def)

lemma example_inputs:
  "case refresh_inputs example_files \<lparr>rf_base = ''/r'', rf_authoritative = False, rf_dirty = Some [[(4, ''b'')]],
       rf_previous = [example_entry ''a'' ''1'', example_entry ''b'' ''1'']\<rparr> [(''/r/a'', Source), (''/r/b'', Source)]
       (example_store, no_statistics\<lparr>is_discovered_inputs := 2, is_watcher_inputs := 1\<rparr>) of
     ((_, s), Inr inputs) \<Rightarrow> map (ri_content \<circ> snd) inputs = [''x'', ''y''] \<and> is_cached_bytes_reused s = 1
       \<and> is_watcher_hashes s = 1 \<and> map (\<lambda>i. (path_text (ri_path (snd i)), ri_kind (snd i))) inputs = [(''a'', Source), (''b'', Source)]
   | _ \<Rightarrow> False"
  by code_simp

lemma example_refresh_ok:
  "\<exists>st snapshot s. example_refresh = (st, Inr (snapshot, s)) \<and> map ri_content (rp_inputs snapshot) = [''x'', ''y'']
    \<and> distinct (map (\<lambda>i. (path_text (ri_path i), ri_kind i)) (rp_inputs snapshot))"
proof -
  obtain st s inputs where inputs:
      "refresh_inputs example_files \<lparr>rf_base = ''/r'', rf_authoritative = False, rf_dirty = Some [[(4, ''b'')]],
         rf_previous = [example_entry ''a'' ''1'', example_entry ''b'' ''1'']\<rparr> [(''/r/a'', Source), (''/r/b'', Source)]
         (example_store, no_statistics\<lparr>is_discovered_inputs := 2, is_watcher_inputs := 1\<rparr>) = ((st, s), Inr inputs)"
    and contents: "map (ri_content \<circ> snd) inputs = [''x'', ''y'']"
      "map (\<lambda>i. (path_text (ri_path (snd i)), ri_kind (snd i))) inputs = [(''a'', Source), (''b'', Source)]"
    using example_inputs by (auto split: prod.splits sum.splits)
  moreover have "fs_is_dir example_files ''/r''" "fs_create_dir example_files dir = None" "fs_write_manifest example_files key = None" for dir key
    by (simp_all add: example_files_def)
  ultimately obtain st' s' where "example_refresh =
      (st', Inr (\<lparr>rp_base = ''/r'', rp_state = \<lparr>rs_repository = \<lparr>lr_identity = ''r''\<rparr>, rs_head = None, rs_fingerprint = ''0''\<rparr>,
                  rp_inputs = map snd inputs\<rparr>, s'))"
    using refresh_succeeds [OF _ example_canonical example_candidates example_plan [symmetric] _ example_state]
    by (auto simp: example_refresh_def numeral_2_eq_2)
  then show ?thesis using contents by (intro exI conjI) (assumption, simp_all add: o_def)
qed

lemma example_caches: "caches_sound (fs_git example_files) {''x'', ''y''} example_store" "contents_known example_files {''x'', ''y''}"
  by (auto simp: caches_sound_def contents_known_def example_store_def example_files_def example_digest_def split: if_splits)

lemma example_trusted:
  "candidates_trusted example_files example_catalog {''x'', ''y''} ''r'' ''/r'' [] (Dirty [[(4, ''b'')]]) example_store"
proof -
  have "inj_on (ge_sha256 (fs_git example_files)) {''x'', ''y''}" by (auto simp: example_files_def example_digest_def)
  moreover have "list_all (hint_sound example_files \<lparr>rf_base = ''/r'', rf_authoritative = False, rf_dirty = Some [[(4, ''b'')]],
       rf_previous = [example_entry ''a'' ''1'', example_entry ''b'' ''1'']\<rparr>) [(''/r/a'', Source), (''/r/b'', Source)]"
    by code_simp
  ultimately show ?thesis
    by (simp add: candidates_trusted_def example_candidates example_plan trusted_def example_canonical)
qed

theorem refresh_exact_witness:
  "\<exists>snapshot. full_snapshot example_files example_catalog ''r'' ''/r'' [] = Some snapshot
    \<and> map ri_content (rp_inputs snapshot) = [''x'', ''y'']"
  using example_refresh_ok refresh_exact [OF _ example_caches example_trusted] unfolding example_refresh_def by metis

theorem refreshed_manifest_verifies_witness:
  "\<exists>fingerprint st. verify_manifest example_files example_catalog ''r'' ''/r'' [] ''0'' fingerprint st = Inr True"
proof -
  from example_refresh_ok [unfolded example_refresh_def] obtain st snapshot s where
    run: "refresh example_files example_catalog ''r'' ''/r'' [] (Dirty [[(4, ''b'')]]) example_store = (st, Inr (snapshot, s))"
    and distinct: "distinct (map (\<lambda>i. (path_text (ri_path i), ri_kind i)) (rp_inputs snapshot))" by blast
  from refreshed_manifest_verifies [OF run example_canonical distinct, unfolded example_key] show ?thesis by blast
qed

text \<open>A checkpoint of the refreshed repository.\<close>

definition checkpoint_workspace :: workspace where
  "checkpoint_workspace =
     \<lparr>ws_name = ''w'', ws_repositories = [\<lparr>wr_repository = \<lparr>lr_identity = ''r''\<rparr>, wr_display_name = ''r'', wr_base = ''/r'', wr_alternatives = []\<rparr>],
      ws_protobuf_descriptors = [], ws_enabled_plugins = []\<rparr>"

definition checkpoint_store :: inventory_store where
  "checkpoint_store =
     \<lparr>iv_verified = [], iv_content = [], iv_blobs = [],
      iv_manifests = [(''0'', \<lparr>pi_version = 1, pi_fingerprint = Some ''0'', pi_entries = [example_entry ''a'' ''1'', example_entry ''b'' ''2'']\<rparr>)],
      iv_checkpoints = [(''/data/checkpoints/0.json'', \<lparr>pk_version = 1, pk_reconciliation_identity = ''v1'', pk_enabled_plugins = [],
         pk_verification_fingerprint = ''f'',
         pk_repositories = [\<lparr>cr_identity = ''r'', cr_inventory_key = ''0'', cr_fingerprint = ''0''\<rparr>]\<rparr>)]\<rparr>"

lemma example_verified:
  "verify_checkpoint example_files example_catalog checkpoint_workspace checkpoint_store
     = Inr (Some \<lparr>cv_verification_fingerprint = ''f'', cv_inventory_keys = [''0'']\<rparr>)"
proof -
  have path: "checkpoint_path example_files ''w'' = ''/data/checkpoints/0.json''" by code_simp
  have inputs: "manifest_inputs example_files ''/r'' [example_entry ''a'' ''1'', example_entry ''b'' ''2''] [(''/r/a'', Source), (''/r/b'', Source)]
      = Inr (Some [(''a'', 0, ''1''), (''b'', 0, ''2'')])" by code_simp
  have "distinct_entries [example_entry ''a'' ''1'', example_entry ''b'' ''2''] = 2" by code_simp
  with inputs show ?thesis
    by (simp add: verify_checkpoint_def path load_checkpoint_def checkpoint_store_def CHECKPOINT_VERSION_def checkpoint_workspace_def
        verify_manifest_def load_manifest_def INVENTORY_VERSION_def descriptors_of_def example_canonical example_candidates
        example_state Let_def example_catalog_def [THEN arg_cong [where f = ic_reconciliation_identity]])
qed


end
