(* ===== verification/Analysis_Identity.thy ===== *)
theory Analysis_Identity imports Inventory begin

text \<open>
  The identities of \<open>crates/indexing/src/lib.rs\<close>: texts that stand for a set of analyzers, for the
  analyzers of every repository of a workspace, for the inputs of an analyzer. Caches and the store
  are keyed by them, so each must determine what it stands for. SHA-256 in hexadecimal is a parameter.
\<close>

section \<open>Analyzer inputs\<close>

datatype analysis_input_kind = SourceInput | ConfigurationInput | DependencyInput | ToolchainInput | EnvironmentInput

record analyzer_metadata =
  am_id :: string
  am_version :: string

record analysis_input =
  an_path :: string
  an_content :: string
  an_kind :: analysis_input_kind

definition from_repository :: "repository_input \<Rightarrow> analysis_input_kind \<Rightarrow> analysis_input" where
  "from_repository input kind =
     \<lparr>an_path = path_text (ri_path input), an_content = ri_content input, an_kind = kind\<rparr>"

fun analysis_input_kind_tag :: "analysis_input_kind \<Rightarrow> nat" where
  "analysis_input_kind_tag SourceInput = 0"
| "analysis_input_kind_tag ConfigurationInput = 1"
| "analysis_input_kind_tag DependencyInput = 2"
| "analysis_input_kind_tag ToolchainInput = 3"
| "analysis_input_kind_tag EnvironmentInput = 4"

text \<open>The derived order is that of the tags; two inputs are equal when their paths have the same components.\<close>

instantiation analysis_input_kind :: linorder begin

definition less_eq_analysis_input_kind :: "analysis_input_kind \<Rightarrow> analysis_input_kind \<Rightarrow> bool" where
  "less_eq_analysis_input_kind k l \<longleftrightarrow> analysis_input_kind_tag k \<le> analysis_input_kind_tag l"

definition less_analysis_input_kind :: "analysis_input_kind \<Rightarrow> analysis_input_kind \<Rightarrow> bool" where
  "less_analysis_input_kind k l \<longleftrightarrow> analysis_input_kind_tag k < analysis_input_kind_tag l"

instance
  by (rule linorder.intro_of_class,
      rule linorder_by_key [OF less_eq_analysis_input_kind_def less_analysis_input_kind_def])
    (rename_tac k l, case_tac k; case_tac l; simp)

end

definition analysis_input_key :: "analysis_input \<Rightarrow> analysis_input_kind \<times> path \<times> string" where
  "analysis_input_key i = (an_kind i, path_components (an_path i), an_content i)"

definition analysis_input_bytes :: "analysis_input \<Rightarrow> string" where
  "analysis_input_bytes i =
     char_of (analysis_input_kind_tag (an_kind i)) # framed_bytes (an_path i) @ framed_bytes (an_content i)"

definition analysis_inputs_bytes :: "analysis_input list \<Rightarrow> string" where
  "analysis_inputs_bytes inputs = concat (map analysis_input_bytes (sort_dedup_by analysis_input_key inputs))"

definition analysis_inputs_identity :: "(string \<Rightarrow> string) \<Rightarrow> analysis_input list \<Rightarrow> string" where
  "analysis_inputs_identity sha inputs = sha (analysis_inputs_bytes inputs)"

section \<open>Analyzers and workspaces\<close>

definition CORE_RULE_PACK_VERSION :: string where
  "CORE_RULE_PACK_VERSION = ''6''"

definition encode_identity :: "(string \<times> string) list \<Rightarrow> string" where
  "encode_identity pairs = concat (map (\<lambda>(id, version). framed id @ framed version) (sort_dedup pairs))"

definition repository_analysis_identity :: "analyzer_metadata list \<Rightarrow> string" where
  "repository_analysis_identity metadata =
     (if metadata = [] then ''none'' else encode_identity (map (\<lambda>m. (am_id m, am_version m)) metadata))"

definition repository_identity_text :: "string \<times> string \<Rightarrow> string" where
  "repository_identity_text = (\<lambda>(repository, identity). framed repository @ '':'' @ framed identity)"

definition workspace_analysis_identity_with_rules :: "(string, string) bmap \<Rightarrow> string \<Rightarrow> string" where
  "workspace_analysis_identity_with_rules identities rule_pack_version =
     ''repositories:'' @ join '':'' (map repository_identity_text identities) @ '':core-rules:'' @ rule_pack_version"

definition workspace_analysis_identity :: "(string, string) bmap \<Rightarrow> string" where
  "workspace_analysis_identity identities = workspace_analysis_identity_with_rules identities CORE_RULE_PACK_VERSION"

definition enrichment_identity :: "string \<Rightarrow> string" where
  "enrichment_identity identity = framed identity @ '':core-rules:'' @ CORE_RULE_PACK_VERSION"

section \<open>What the identities determine\<close>

lemma framed_Cons_digit: "\<exists>d cs. d < 10 \<and> framed s = digit_char d # cs"
proof -
  obtain c cs where "nat_str (length s) = c # cs" by (cases "nat_str (length s)") simp_all
  moreover from this have "\<exists>d<10. c = digit_char d" by (intro nat_str_digits [of _ "length s"]) simp
  ultimately show ?thesis by (auto simp: framed_def)
qed

lemma digit_char_neq [simp]:
  "d < 10 \<Longrightarrow> digit_char d \<noteq> CHR ''c''" "d < 10 \<Longrightarrow> digit_char d \<noteq> CHR ''n''" "d < 10 \<Longrightarrow> digit_char d \<noteq> CHR '':''"
  by (auto simp: digit_char_def dest!: arg_cong [where f = "of_char :: char \<Rightarrow> nat"])

lemma framed_pairs_inj:
  "concat (map (\<lambda>(a, b). framed a @ framed b) xs) = concat (map (\<lambda>(a, b). framed a @ framed b) ys) \<Longrightarrow> xs = ys"
proof (induction xs arbitrary: ys)
  case Nil
  then show ?case by (cases ys) auto
next
  case (Cons x xs)
  then obtain y ys' where ys: "ys = y # ys'" by (cases ys) (auto split: prod.splits)
  obtain a b c d where xy: "x = (a, b)" "y = (c, d)" by (cases x; cases y)
  have "framed a @ framed b @ concat (map (\<lambda>(a, b). framed a @ framed b) xs) =
      framed c @ framed d @ concat (map (\<lambda>(a, b). framed a @ framed b) ys')"
    using Cons.prems by (simp add: ys xy)
  then have "a = c" "b = d" "concat (map (\<lambda>(a, b). framed a @ framed b) xs) = concat (map (\<lambda>(a, b). framed a @ framed b) ys')"
    by (auto dest!: framed_append_inj)
  with Cons.IH show ?case by (simp add: ys xy)
qed

lemma encode_identity_eq_iff: "encode_identity xs = encode_identity ys \<longleftrightarrow> set xs = set ys"
proof
  assume "encode_identity xs = encode_identity ys"
  then have "sort_dedup xs = sort_dedup ys" unfolding encode_identity_def by (rule framed_pairs_inj)
  then show "set xs = set ys" by (metis set_sort_dedup)
next
  assume "set xs = set ys"
  then have "sort_dedup xs = sort_dedup ys" by (intro ascending_unique) simp_all
  then show "encode_identity xs = encode_identity ys" by (simp add: encode_identity_def)
qed

lemma encode_identity_Nil_iff: "encode_identity xs = [] \<longleftrightarrow> xs = []"
  using encode_identity_eq_iff [of xs "[]"] by (simp add: encode_identity_def sort_dedup_def)

lemma encode_identity_not_none: "encode_identity xs \<noteq> ''none''"
proof (cases "sort_dedup xs")
  case (Cons p ps)
  obtain d cs where "d < 10" "framed (fst p) = digit_char d # cs" using framed_Cons_digit by blast
  then show ?thesis by (cases p) (simp add: encode_identity_def Cons)
qed (simp add: encode_identity_def)

lemma metadata_pair_inj: "(am_id m, am_version m) = (am_id n, am_version n) \<Longrightarrow> m = (n :: analyzer_metadata)"
  by simp

lemma repository_analysis_identity_eq_iff:
  "repository_analysis_identity ms = repository_analysis_identity ns \<longleftrightarrow> set ms = set ns"
proof -
  have inj: "inj (\<lambda>m :: analyzer_metadata. (am_id m, am_version m))" by (rule injI) simp
  have pairs: "set (map (\<lambda>m. (am_id m, am_version m)) ms) = set (map (\<lambda>m. (am_id m, am_version m)) ns) \<longleftrightarrow> set ms = set ns"
    unfolding set_map by (rule inj_image_eq_iff [OF inj])
  show ?thesis
    using encode_identity_not_none encode_identity_not_none [symmetric]
    by (cases "ms = []"; cases "ns = []")
      (simp_all add: repository_analysis_identity_def encode_identity_eq_iff pairs del: set_map)
qed

text \<open>The text of a workspace can be read back: after each separator comes a digit or the rules.\<close>

definition identities_tail :: "(string, string) bmap \<Rightarrow> string \<Rightarrow> string" where
  "identities_tail m v = concat (map (\<lambda>e. repository_identity_text e @ '':'') m) @ ''core-rules:'' @ v"

lemma workspace_identity_text:
  "workspace_analysis_identity_with_rules m v =
     ''repositories:'' @ (if m = [] then '':'' @ identities_tail [] v else identities_tail m v)"
proof -
  have "join '':'' (map f xs) @ '':'' = concat (map (\<lambda>e. f e @ '':'') xs)" if "xs \<noteq> []" for f and xs :: "(string \<times> string) list"
    using that by (induction xs rule: induct_list012) auto
  then have "join '':'' (map repository_identity_text m) @ '':'' @ r = concat (map (\<lambda>e. repository_identity_text e @ '':'') m) @ r"
    if "m \<noteq> []" for r
    using that by (metis append.assoc)
  then show ?thesis
    by (cases "m = []") (simp_all add: workspace_analysis_identity_with_rules_def identities_tail_def)
qed

lemma identities_tail_Cons: "\<exists>d cs. d < 10 \<and> identities_tail (e # m) v = digit_char d # cs"
  using framed_Cons_digit [of "fst e"]
  by (cases e) (fastforce simp: identities_tail_def repository_identity_text_def)

lemma identities_tail_hd:
  "hd (identities_tail m v) \<noteq> CHR '':''" "m \<noteq> [] \<Longrightarrow> hd (identities_tail m v) \<noteq> CHR ''c''"
proof -
  show "hd (identities_tail m v) \<noteq> CHR '':''"
  proof (cases m)
    case (Cons e m')
    obtain d cs where "d < 10" "identities_tail (e # m') v = digit_char d # cs" using identities_tail_Cons by blast
    then show ?thesis by (simp add: Cons)
  qed (simp add: identities_tail_def)
  assume "m \<noteq> []"
  then obtain e m' where m: "m = e # m'" by (cases m) simp_all
  obtain d cs where "d < 10" "identities_tail (e # m') v = digit_char d # cs" using identities_tail_Cons by blast
  then show "hd (identities_tail m v) \<noteq> CHR ''c''" by (simp add: m)
qed

lemma identities_tail_inj: "identities_tail m v = identities_tail n w \<Longrightarrow> m = n \<and> v = w"
proof (induction m arbitrary: n)
  case Nil
  then have "hd (identities_tail n w) = CHR ''c''" by (metis append_Nil concat.simps(1) identities_tail_def list.map(1) append_Cons list.sel(1))
  then have "n = []" using identities_tail_hd(2) by blast
  with Nil show ?case by (simp add: identities_tail_def)
next
  case (Cons e m)
  have "n \<noteq> []"
  proof
    assume "n = []"
    then have "hd (identities_tail (e # m) v) = CHR ''c''" using Cons.prems by (simp add: identities_tail_def)
    then show False using identities_tail_hd(2) [of "e # m" v] by simp
  qed
  then obtain f n' where n: "n = f # n'" by (cases n) simp_all
  obtain a b c d where ef: "e = (a, b)" "f = (c, d)" by (cases e; cases f)
  have "framed a @ CHR '':'' # framed b @ CHR '':'' # identities_tail m v =
      framed c @ CHR '':'' # framed d @ CHR '':'' # identities_tail n' w"
    using Cons.prems by (simp add: n ef identities_tail_def repository_identity_text_def)
  then have "a = c" "b = d" "identities_tail m v = identities_tail n' w" by (auto dest!: framed_append_inj)
  with Cons.IH show ?case by (simp add: n ef)
qed

lemma workspace_identity_inj:
  "workspace_analysis_identity_with_rules m v = workspace_analysis_identity_with_rules n w \<longleftrightarrow> m = n \<and> v = w"
proof
  assume eq: "workspace_analysis_identity_with_rules m v = workspace_analysis_identity_with_rules n w"
  have "m = [] \<longleftrightarrow> n = []"
  proof (rule ccontr)
    assume "\<not> (m = [] \<longleftrightarrow> n = [])"
    then have "hd (identities_tail m v) = CHR '':'' \<or> hd (identities_tail n w) = CHR '':''"
      using eq by (auto simp: workspace_identity_text dest: arg_cong [where f = hd] split: if_splits)
    then show False using identities_tail_hd(1) by blast
  qed
  with eq have "identities_tail m v = identities_tail n w" by (simp add: workspace_identity_text split: if_splits)
  then show "m = n \<and> v = w" by (rule identities_tail_inj)
qed simp


section \<open>The digested inputs\<close>

text \<open>Lengths are written in 64 bits, and two inputs with one path write it the same way.\<close>

definition analysis_inputs_fit :: "analysis_input list \<Rightarrow> bool" where
  "analysis_inputs_fit inputs \<longleftrightarrow> list_all (\<lambda>i. fits (an_path i) \<and> fits (an_content i)) inputs"

definition same_spelling :: "analysis_input list \<Rightarrow> bool" where
  "same_spelling inputs \<longleftrightarrow>
     list_all (\<lambda>i. list_all (\<lambda>j. path_eq (an_path i) (an_path j) \<longrightarrow> an_path i = an_path j) inputs) inputs"

lemma analysis_input_bytes_inj:
  assumes "fits (an_path i)" "fits (an_content i)" "fits (an_path j)" "fits (an_content j)"
    "analysis_input_bytes i @ xs = analysis_input_bytes j @ ys"
  shows "(i :: analysis_input) = j \<and> xs = ys"
proof -
  have tag: "of_char (char_of (analysis_input_kind_tag k) :: char) = analysis_input_kind_tag k" for k
    by (cases k) simp_all
  from assms(5) have head: "char_of (analysis_input_kind_tag (an_kind i)) = (char_of (analysis_input_kind_tag (an_kind j)) :: char)"
    and body: "framed_bytes (an_path i) @ framed_bytes (an_content i) @ xs = framed_bytes (an_path j) @ framed_bytes (an_content j) @ ys"
    by (simp_all add: analysis_input_bytes_def)
  from framed_bytes_inj [OF assms(1,3) body]
  have "an_path i = an_path j" "framed_bytes (an_content i) @ xs = framed_bytes (an_content j) @ ys" by simp_all
  moreover from framed_bytes_inj [OF assms(2,4) this(2)] have "an_content i = an_content j" "xs = ys" by simp_all
  moreover have "analysis_input_kind_tag (an_kind i) = analysis_input_kind_tag (an_kind j)"
    using head by (metis tag)
  then have "an_kind i = an_kind j" by (cases "an_kind i"; cases "an_kind j"; simp)
  ultimately show ?thesis by simp
qed

lemma analysis_inputs_concat_inj:
  assumes "analysis_inputs_fit xs" "analysis_inputs_fit ys"
    "concat (map analysis_input_bytes xs) = concat (map analysis_input_bytes ys)"
  shows "xs = ys"
  using assms
proof (induction xs arbitrary: ys)
  case Nil
  then show ?case by (cases ys) (auto simp: analysis_input_bytes_def)
next
  case (Cons x xs)
  then obtain y ys' where ys: "ys = y # ys'" by (cases ys) (auto simp: analysis_input_bytes_def)
  have "x = y \<and> concat (map analysis_input_bytes xs) = concat (map analysis_input_bytes ys')"
    using Cons.prems by (intro analysis_input_bytes_inj) (simp_all add: ys analysis_inputs_fit_def)
  with Cons.IH [of ys'] Cons.prems(1,2) show ?case by (simp add: ys analysis_inputs_fit_def)
qed

lemma analysis_inputs_fit_subset: "set xs \<subseteq> set ys \<Longrightarrow> analysis_inputs_fit ys \<Longrightarrow> analysis_inputs_fit xs"
  by (auto simp: analysis_inputs_fit_def list_all_iff)

lemma same_spelling_inj: "same_spelling xs \<Longrightarrow> inj_on analysis_input_key (set xs)"
  by (intro inj_onI) (auto simp: same_spelling_def list_all_iff analysis_input_key_def path_eq_def)

lemma sort_dedup_by_determined:
  assumes "inj_on key (set xs \<union> set ys)" "set xs = set ys"
  shows "sort_dedup_by key xs = sort_dedup_by key ys"
proof -
  have "map key (sort_dedup_by key xs) = map key (sort_dedup_by key ys)"
    unfolding keys_sort_dedup_by using assms(2) by (intro ascending_unique) simp_all
  moreover have "inj_on key (set (sort_dedup_by key xs) \<union> set (sort_dedup_by key ys))"
    using assms(1) set_sort_dedup_by [of key xs] set_sort_dedup_by [of key ys] by (meson Un_mono inj_on_subset)
  ultimately show ?thesis using map_inj_on by blast
qed

lemma sort_dedup_by_set: "inj_on key (set xs) \<Longrightarrow> set (sort_dedup_by key xs) = set xs"
  using keyset_sort_dedup_by [of key xs] set_sort_dedup_by [of key xs] by (metis inj_on_image_eq_iff order_refl)

text \<open>
  The bytes digested into the identity of an analyzer's inputs are the same for two lists of inputs
  exactly when the lists have the same inputs: neither order nor repetition counts, and a change of
  one byte of a path or a content, or of the role of a file, does.
\<close>

lemma input_identity_exact:
  assumes "analysis_inputs_fit (xs @ ys)" "same_spelling (xs @ ys)"
  shows "analysis_inputs_bytes xs = analysis_inputs_bytes ys \<longleftrightarrow> set xs = set ys"
proof
  have inj: "inj_on analysis_input_key (set xs \<union> set ys)" using same_spelling_inj [OF assms(2)] by simp
  { assume eq: "analysis_inputs_bytes xs = analysis_inputs_bytes ys"
    have "sort_dedup_by analysis_input_key xs = sort_dedup_by analysis_input_key ys"
      using eq unfolding analysis_inputs_bytes_def
      by (rule analysis_inputs_concat_inj [rotated 2])
        (rule analysis_inputs_fit_subset [OF _ assms(1)], use set_sort_dedup_by in fastforce)+
    then show "set xs = set ys"
      using inj sort_dedup_by_set by (metis inj_on_Un) }
  assume "set xs = set ys"
  then show "analysis_inputs_bytes xs = analysis_inputs_bytes ys"
    using sort_dedup_by_determined [OF inj] by (simp add: analysis_inputs_bytes_def)
qed

end
