(* ===== verification/Scheduler.thy ===== *)
theory Scheduler imports Registry Dirty_Repository Job_Queue Dto Domain_Error Analysis_Identity begin

text \<open>
  The index scheduler, \<open>crates/daemon/src/indexing/scheduler.rs\<close>: which workspaces are stale, what is
  pending in their repositories, who holds the one indexing slot, and how changes become jobs. The
  state behind its mutexes is one record; a method that takes several locks in turn is atomic here,
  and no lock is poisoned. \<open>sd_changed\<close> and \<open>sd_collection\<close> are the stored permits of the two \<open>Notify\<close>
  objects. Generations count changes since the last complete index, far below 2^64.
\<close>

section \<open>State\<close>

definition QUIET_PERIOD :: nat where "QUIET_PERIOD = 200"
definition MAX_LATENCY :: nat where "MAX_LATENCY = 2000"
definition STANDALONE_VIEW_PREFIX :: string where "STANDALONE_VIEW_PREFIX = ''beholder:standalone:''"

definition standalone_view_name :: "string \<Rightarrow> string" where
  "standalone_view_name repository = STANDALONE_VIEW_PREFIX @ repository"

text \<open>When a batch of changes is handed over, in milliseconds.\<close>

definition batch_deadline :: "nat \<Rightarrow> nat \<Rightarrow> nat" where
  "batch_deadline first_change last_change = min (last_change + QUIET_PERIOD) (first_change + MAX_LATENCY)"

type_synonym dirty_map = "(string, dirty_repository) bmap"

record scheduler =
  sd_generations :: "(string, u64) bmap"
  sd_dirty :: "(string, dirty_map) bmap"
  sd_dormant :: "(string, u64) bmap"
  sd_automatic :: "(string, u64 option) bmap"
  sd_active :: "string option"
  sd_indexing :: "string bset"
  sd_changed :: bool
  sd_collection :: bool
  sd_stopping :: bool
  sd_checkpointing :: bool

definition new_scheduler :: scheduler where
  "new_scheduler =
     \<lparr>sd_generations = [], sd_dirty = [], sd_dormant = [], sd_automatic = [], sd_active = None, sd_indexing = [],
      sd_changed = False, sd_collection = False, sd_stopping = False, sd_checkpointing = False\<rparr>"

definition scheduler_unavailable :: beholder_error where
  "scheduler_unavailable = new_error Internal SchedulerUnavailable ''index scheduler is unavailable''"

text \<open>\<open>*entry(name).or_default() += 1\<close> and \<open>entry(name).or_default()\<close>.\<close>

definition bump :: "string \<Rightarrow> (string, u64) bmap \<Rightarrow> (string, u64) bmap" where
  "bump name = bm_entry name (\<lambda>g. case g of None \<Rightarrow> 1 | Some n \<Rightarrow> n + 1)"

definition or_default :: "'v \<Rightarrow> 'v option \<Rightarrow> 'v" where
  "or_default d v = (case v of None \<Rightarrow> d | Some x \<Rightarrow> x)"

definition mark :: "workspace \<Rightarrow> scheduler \<Rightarrow> scheduler" where
  "mark ws s =
     s\<lparr>sd_dormant := bm_remove (ws_name ws) (sd_dormant s),
       sd_generations := bump (ws_name ws) (sd_generations s),
       sd_dirty := bm_entry (ws_name ws)
         (\<lambda>d. fold (\<lambda>r. bm_put (wr_identity r) (from_intent RiAll)) (ws_repositories ws) (or_default [] d)) (sd_dirty s),
       sd_changed := True\<rparr>"

definition query_metadata_with_enrichments ::
    "string \<Rightarrow> u64 \<Rightarrow> analysis_metadata \<Rightarrow> string list option \<Rightarrow> scheduler \<Rightarrow> query_metadata" where
  "query_metadata_with_enrichments workspace revision analysis durable_enrichments s =
     (let full_index_active = (sd_active s = Some workspace);
          enriching = or_default [] durable_enrichments
      in \<lparr>qm_revision = revision, qm_view = workspace,
          qm_freshness =
            \<lparr>fr_stale = (full_index_active \<or> map_of (sd_generations s) workspace \<noteq> None \<or> enriching \<noteq> []),
             fr_indexing = (full_index_active \<or> map_of (sd_automatic s) workspace \<noteq> None \<or> enriching \<noteq> []),
             fr_dirty_repositories = map fst (or_default [] (map_of (sd_dirty s) workspace)),
             fr_enriching_repositories = enriching\<rparr>,
          qm_analysis = analysis\<rparr>)"

definition query_metadata_of :: "string \<Rightarrow> u64 \<Rightarrow> analysis_metadata \<Rightarrow> scheduler \<Rightarrow> query_metadata" where
  "query_metadata_of workspace revision analysis s =
     query_metadata_with_enrichments workspace revision analysis None s"

section \<open>The indexing slot\<close>

text \<open>\<open>begin\<close>: \<open>None\<close> while another operation holds the slot, so the caller waits.\<close>

definition begin_operation :: "string \<Rightarrow> scheduler \<Rightarrow> (beholder_error + scheduler) option" where
  "begin_operation operation s =
     (if sd_stopping s then Some (Inl scheduler_unavailable)
      else case sd_active s of
             Some _ \<Rightarrow> None
           | None \<Rightarrow> Some (Inr (s\<lparr>sd_active := Some operation\<rparr>)))"

definition end_operation :: "scheduler \<Rightarrow> scheduler" where
  "end_operation s = s\<lparr>sd_active := None\<rparr>"

definition begin_repository :: "string \<Rightarrow> scheduler \<Rightarrow> beholder_error + scheduler" where
  "begin_repository identity s =
     (if sd_stopping s then Inl scheduler_unavailable
      else if identity \<in> set (sd_indexing s) then
        Inl (new_error FailedPrecondition RepositoryIndexFailed (''repository is already indexing: '' @ identity))
      else Inr (s\<lparr>sd_indexing := bs_insert identity (sd_indexing s)\<rparr>))"

definition end_repository :: "string \<Rightarrow> scheduler \<Rightarrow> scheduler" where
  "end_repository identity s = s\<lparr>sd_indexing := bs_remove identity (sd_indexing s)\<rparr>"

definition repository_indexing :: "string \<Rightarrow> scheduler \<Rightarrow> bool" where
  "repository_indexing repository s \<longleftrightarrow> repository \<in> set (sd_indexing s)"

definition complete_generation :: "string \<Rightarrow> u64 option \<Rightarrow> scheduler \<Rightarrow> scheduler" where
  "complete_generation workspace indexed s =
     (let s = (if indexed \<noteq> None \<and> map_of (sd_generations s) workspace = indexed
               then s\<lparr>sd_generations := bm_remove workspace (sd_generations s), sd_dirty := bm_remove workspace (sd_dirty s)\<rparr>
               else s)
      in if map_of (sd_generations s) workspace \<noteq> None then s\<lparr>sd_changed := True\<rparr> else s)"

definition ensure_generation_current :: "string \<Rightarrow> u64 option \<Rightarrow> scheduler \<Rightarrow> string + unit" where
  "ensure_generation_current workspace indexed s =
     (if map_of (sd_generations s) workspace = indexed then Inr ()
      else Inl ''workspace inputs changed during indexing; stale analysis was discarded'')"

definition request_garbage_collection :: "scheduler \<Rightarrow> scheduler" where
  "request_garbage_collection s = s\<lparr>sd_collection := True\<rparr>"

definition stop :: "scheduler \<Rightarrow> scheduler" where
  "stop s = s\<lparr>sd_stopping := True\<rparr>"

text \<open>
  The checkpoint thread: started unless one runs already, it takes the slot (or is refused), gives
  it back and asks for garbage collection. A thread that fails to start gives up the flag.
\<close>

definition schedule_checkpoint :: "bool \<Rightarrow> scheduler \<Rightarrow> scheduler \<times> bool" where
  "schedule_checkpoint spawned s =
     (if sd_stopping s \<or> sd_checkpointing s then (s, False) else (s\<lparr>sd_checkpointing := spawned\<rparr>, spawned))"

definition finish_checkpoint :: "scheduler \<Rightarrow> scheduler" where
  "finish_checkpoint s = request_garbage_collection (s\<lparr>sd_checkpointing := False\<rparr>)"

section \<open>Filesystem events\<close>

text \<open>The kinds of \<open>notify\<close>'s events, as far as the scheduler distinguishes them.\<close>

datatype modify_kind = MkAny | MkData | MkMetadata | MkName | MkOther
datatype event_kind = EkAny | EkAccess | EkCreate | EkModify modify_kind | EkRemove | EkOther

record watch_event =
  ev_kind :: event_kind
  ev_paths :: "string list"

definition structural_event :: "event_kind \<Rightarrow> bool" where
  "structural_event kind \<longleftrightarrow> kind \<in> {EkCreate, EkRemove, EkModify MkName}"

text \<open>What the watcher consults: git's administrative paths, and the indexer's classification of inputs.\<close>

record watcher =
  wa_git :: git_environment
  wa_input_kinds :: "path \<Rightarrow> analysis_input_kind list"

definition administrative_paths :: "watcher \<Rightarrow> string \<Rightarrow> watch_path list" where
  "administrative_paths w base = (case repository_watch_paths (wa_git w) base of Inl _ \<Rightarrow> [] | Inr paths \<Rightarrow> paths)"

definition watches :: "string \<Rightarrow> watch_path \<Rightarrow> bool" where
  "watches p target \<longleftrightarrow>
     path_eq p (wp_path target)
     \<or> (if wp_recursive target then prefix (path_components (wp_path target)) (path_components p)
        else path_parent (path_components p) = Some (path_components (wp_path target)))"

definition path_intent :: "watcher \<Rightarrow> event_kind \<Rightarrow> workspace \<Rightarrow> workspace_repository \<Rightarrow> string \<Rightarrow> repository_intent option" where
  "path_intent w kind ws r p =
     (if list_ex (watches p) (administrative_paths w (wr_base r)) then Some RiHead
      else case strip_path_prefix (path_components (wr_base r)) (path_components p) of
             None \<Rightarrow> None
           | Some relative \<Rightarrow>
               if is_ignored_path relative then None
               else
                 let descriptor = list_ex (\<lambda>d. pd_repository d = wr_repository r \<and> path_eq (pd_path d) p) (ws_protobuf_descriptors ws);
                     kinds = wa_input_kinds w relative
                 in if descriptor \<or> SourceInput \<in> set kinds then Some (RiSource relative)
                    else if kinds \<noteq> [] then Some (RiConfiguration relative)
                    else if structural_event kind then Some RiReconcile
                    else None)"

definition apply_path :: "watcher \<Rightarrow> event_kind \<Rightarrow> workspace \<Rightarrow> workspace_repository \<Rightarrow> string \<Rightarrow> dirty_repository \<Rightarrow> dirty_repository" where
  "apply_path w kind ws r p d = (case path_intent w kind ws r p of None \<Rightarrow> d | Some intent \<Rightarrow> dirty_apply intent d)"

definition repository_change_of ::
    "watcher \<Rightarrow> watch_event \<Rightarrow> workspace \<Rightarrow> workspace_repository \<Rightarrow> (string \<times> dirty_repository) option" where
  "repository_change_of w event ws r =
     (let d = fold (apply_path w (ev_kind event) ws r) (ev_paths event) dirty_default
      in if dirty_is_empty d then None else Some (wr_identity r, record_event d))"

definition event_changes :: "watcher \<Rightarrow> watch_event \<Rightarrow> workspace list \<Rightarrow> (string \<times> (string \<times> dirty_repository) list) list" where
  "event_changes w event workspaces =
     filter (\<lambda>(_, dirty). dirty \<noteq> [])
       (map (\<lambda>ws. (ws_name ws, List.map_filter (repository_change_of w event ws) (ws_repositories ws))) workspaces)"

definition merge_pending :: "string \<times> dirty_repository \<Rightarrow> dirty_map \<Rightarrow> dirty_map" where
  "merge_pending = (\<lambda>(repository, pending). bm_entry repository (\<lambda>d. dirty_merge (or_default dirty_default d) pending))"

definition record_change :: "string \<times> (string \<times> dirty_repository) list \<Rightarrow> scheduler \<Rightarrow> scheduler" where
  "record_change = (\<lambda>(workspace, dirty) s.
     s\<lparr>sd_generations := bump workspace (sd_generations s),
       sd_dirty := bm_entry workspace (\<lambda>d. fold merge_pending dirty (or_default [] d)) (sd_dirty s)\<rparr>)"

text \<open>A watcher error may have lost events: everything is reconciled.\<close>

definition reconcile_workspace :: "workspace \<Rightarrow> scheduler \<Rightarrow> scheduler" where
  "reconcile_workspace ws s =
     (if ws_repositories ws = [] then s
      else s\<lparr>sd_generations := bump (ws_name ws) (sd_generations s),
             sd_dirty := bm_entry (ws_name ws)
               (\<lambda>d. fold (\<lambda>r. bm_entry (wr_identity r) (\<lambda>d. dirty_apply RiReconcile (or_default dirty_default d)))
                      (ws_repositories ws) (or_default [] d)) (sd_dirty s)\<rparr>)"

definition reconcile_after_watcher_error :: "workspace_registry \<Rightarrow> scheduler \<Rightarrow> scheduler" where
  "reconcile_after_watcher_error registry s =
     (let s' = fold reconcile_workspace (registered_workspaces registry) s
      in if list_ex (\<lambda>ws. ws_repositories ws \<noteq> []) (registered_workspaces registry)
         then s'\<lparr>sd_dormant := [], sd_changed := True\<rparr> else s')"

definition add_event :: "watcher \<Rightarrow> string + watch_event \<Rightarrow> workspace_registry \<Rightarrow> scheduler \<Rightarrow> scheduler" where
  "add_event w event registry s =
     (case event of
        Inl _ \<Rightarrow> reconcile_after_watcher_error registry s
      | Inr event \<Rightarrow>
          if ev_kind event = EkAccess then s
          else
            let changes = event_changes w event (registered_workspaces registry)
            in if changes = [] then s
               else let s = fold record_change changes s
                    in s\<lparr>sd_dormant := fold (\<lambda>(workspace, _). bm_remove workspace) changes (sd_dormant s),
                         sd_changed := True\<rparr>)"

section \<open>From changes to jobs\<close>

text \<open>
  Pending changes of the administrative paths alone mean nothing while every repository concerned
  is still at its published head. \<open>published_head\<close> is the store's answer.
\<close>

type_synonym heads = "string \<Rightarrow> string \<Rightarrow> string + string option"

fun heads_published :: "git_environment \<Rightarrow> heads \<Rightarrow> string \<Rightarrow> dirty_map \<Rightarrow> workspace_repository list \<Rightarrow> string + bool" where
  "heads_published git published_head workspace dirty [] = Inr True"
| "heads_published git published_head workspace dirty (r # rs) =
     (if map_of dirty (wr_identity r) = None then heads_published git published_head workspace dirty rs
      else rbind (repository_version git (wr_base r)) (\<lambda>(_, head).
             rbind (published_head workspace (wr_identity r)) (\<lambda>published.
               if published \<noteq> head then Inr False
               else heads_published git published_head workspace dirty rs)))"

definition git_head_only_noop :: "git_environment \<Rightarrow> heads \<Rightarrow> workspace \<Rightarrow> dirty_map \<Rightarrow> string + bool" where
  "git_head_only_noop git published_head ws dirty =
     (if dirty = [] \<or> \<not> list_all (\<lambda>(_, d). head_only d) dirty then Inr False
      else heads_published git published_head (ws_name ws) dirty (ws_repositories ws))"

definition automatic_job :: "string \<Rightarrow> u64 option \<Rightarrow> dirty_map \<Rightarrow> index_job" where
  "automatic_job workspace generation dirty =
     \<lparr>ij_target = ItWorkspace workspace, ij_trigger = Automatic, ij_prerequisite_index_jobs = [],
      ij_generation = generation, ij_repository_intents = map (\<lambda>(repository, d). durable repository d) dirty\<rparr>"

text \<open>The body of the loop of \<open>enqueue_dirty\<close> for a registered workspace and its captured generation.\<close>

record producer =
  pc_git :: git_environment
  pc_published_head :: heads
  pc_database :: database
  pc_ids :: "string \<Rightarrow> string"
  pc_now :: int

definition enqueue_workspace ::
    "producer \<Rightarrow> u64 option \<Rightarrow> workspace \<Rightarrow> scheduler \<times> job_queue \<Rightarrow> (scheduler \<times> job_queue) \<times> (string + unit)" where
  "enqueue_workspace pc generation ws = (\<lambda>(s, q).
     if generation \<noteq> None \<and> map_of (sd_dormant s) (ws_name ws) = generation then ((s, q), Inr ())
     else
       let dirty = or_default [] (map_of (sd_dirty s) (ws_name ws))
       in case git_head_only_noop (pc_git pc) (pc_published_head pc) ws dirty of
            Inl e \<Rightarrow> ((s, q), Inl e)
          | Inr noop \<Rightarrow>
              if noop then ((complete_generation (ws_name ws) generation s, q), Inr ())
              else
                let s = s\<lparr>sd_automatic := bm_put (ws_name ws) generation (sd_automatic s)\<rparr>
                in case enqueue_automatic_index (pc_database pc) (pc_ids pc (ws_name ws)) (pc_now pc)
                          (automatic_job (ws_name ws) generation dirty) q of
                     (q, Inr _) \<Rightarrow> ((s, q), Inr ())
                   | (q, Inl e) \<Rightarrow>
                       ((if map_of (sd_automatic s) (ws_name ws) = Some generation
                         then s\<lparr>sd_automatic := bm_remove (ws_name ws) (sd_automatic s)\<rparr> else s, q), Inl e))"

fun enqueue_workspaces ::
    "producer \<Rightarrow> (string, u64) bmap \<Rightarrow> workspace list \<Rightarrow> scheduler \<times> job_queue \<Rightarrow> (scheduler \<times> job_queue) \<times> (string + unit)" where
  "enqueue_workspaces pc snapshot [] sq = (sq, Inr ())"
| "enqueue_workspaces pc snapshot (ws # workspaces) sq =
     (if sd_stopping (fst sq) then (sq, Inr ())
      else case enqueue_workspace pc (map_of snapshot (ws_name ws)) ws sq of
             (sq, Inl e) \<Rightarrow> (sq, Inl e)
           | (sq, Inr _) \<Rightarrow> enqueue_workspaces pc snapshot workspaces sq)"

definition enqueue_dirty ::
    "producer \<Rightarrow> workspace_registry \<Rightarrow> scheduler \<times> job_queue \<Rightarrow> (scheduler \<times> job_queue) \<times> (string + unit)" where
  "enqueue_dirty pc registry sq =
     (let snapshot = sd_generations (fst sq)
      in enqueue_workspaces pc snapshot
           (List.map_filter (\<lambda>(name, _). map_of (wg_workspaces registry) name) snapshot) sq)"

definition automatic_job_failed :: "string \<Rightarrow> u64 option \<Rightarrow> bool \<Rightarrow> scheduler \<Rightarrow> scheduler" where
  "automatic_job_failed workspace generation terminal s =
     (case generation of
        Some g \<Rightarrow> if terminal then s\<lparr>sd_dormant := bm_put workspace g (sd_dormant s)\<rparr> else s
      | None \<Rightarrow> s)"

definition automatic_job_finished :: "string \<Rightarrow> u64 option \<Rightarrow> scheduler \<Rightarrow> scheduler" where
  "automatic_job_finished workspace generation s =
     (if map_of (sd_automatic s) workspace = Some generation
      then s\<lparr>sd_automatic := bm_remove workspace (sd_automatic s)\<rparr> else s)\<lparr>sd_changed := True\<rparr>"

section \<open>Running jobs\<close>

text \<open>
  Indexing itself (\<open>Index_Run\<close>) is an argument: what it answers, and the state it leaves when it
  returns, which holds everything the other threads did meanwhile. \<open>ho_wait\<close> is what they did
  while the job waited for the slot; a job that never gets it never returns (\<open>None\<close>).
\<close>

type_synonym index_answer = "string + nat \<times> bool"

record host =
  ho_wait :: "scheduler \<Rightarrow> scheduler"
  ho_index :: "workspace \<Rightarrow> dirty_map option \<Rightarrow> u64 option \<Rightarrow> scheduler \<Rightarrow> scheduler \<times> index_answer"
  ho_index_repository :: "workspace_repository \<Rightarrow> bool \<Rightarrow> scheduler \<Rightarrow> scheduler \<times> index_answer"

definition in_slot :: "host \<Rightarrow> string \<Rightarrow> (scheduler \<Rightarrow> scheduler \<times> index_answer) \<Rightarrow> scheduler \<Rightarrow> (scheduler \<times> index_answer) option" where
  "in_slot host operation task s =
     (case begin_operation operation (ho_wait host s) of
        None \<Rightarrow> None
      | Some (Inl e) \<Rightarrow> Some (ho_wait host s, Inl (display_error e))
      | Some (Inr s) \<Rightarrow> let (s, answer) = task s in Some (end_operation s, answer))"

definition destination_result :: "index_destination \<Rightarrow> nat \<times> bool \<Rightarrow> index_destination_result" where
  "destination_result destination = (\<lambda>(observations, published).
     \<lparr>idr_destination = destination, idr_observation_count = observations, idr_published = published,
      idr_outcome = (if published then IoPublished else IoUnchanged)\<rparr>)"

definition superseded_destination :: "string \<Rightarrow> index_destination_result" where
  "superseded_destination workspace =
     \<lparr>idr_destination = IdWorkspace workspace, idr_observation_count = 0, idr_published = False, idr_outcome = IoSuperseded\<rparr>"

definition missing_workspace :: "string \<Rightarrow> string" where
  "missing_workspace workspace = ''workspace is no longer registered: '' @ workspace"

definition run_automatic_workspace_job ::
    "host \<Rightarrow> workspace_registry \<Rightarrow> index_job \<Rightarrow> string \<Rightarrow> scheduler \<Rightarrow> (scheduler \<times> (string + index_destination_result)) option" where
  "run_automatic_workspace_job host registry job workspace s =
     (if map_of (sd_generations s) workspace \<noteq> ij_generation job
      then Some (s, Inr (superseded_destination workspace))
      else case map_of (wg_workspaces registry) workspace of
             None \<Rightarrow> Some (s, Inl (missing_workspace workspace))
           | Some ws \<Rightarrow>
               let dirty = bm_of_list (map (\<lambda>intent. (di_repository intent, from_durable intent)) (ij_repository_intents job))
               in case in_slot host workspace (ho_index host ws (Some dirty) (ij_generation job)) s of
                    None \<Rightarrow> None
                  | Some (s, Inr answer) \<Rightarrow>
                      Some (complete_generation workspace (ij_generation job) s, Inr (destination_result (IdWorkspace workspace) answer))
                  | Some (s, Inl e) \<Rightarrow>
                      Some (s, if map_of (sd_generations s) workspace \<noteq> ij_generation job
                               then Inr (superseded_destination workspace) else Inl e))"

definition manual_dirty :: "workspace \<Rightarrow> string option \<Rightarrow> bool \<Rightarrow> dirty_map \<Rightarrow> dirty_map" where
  "manual_dirty ws repository reconcile dirty =
     fold (\<lambda>r dirty.
        if (repository = None \<or> repository = Some (wr_identity r)) \<and> (repository = None \<or> reconcile)
        then bm_entry (wr_identity r) (\<lambda>d. dirty_apply RiReconcile (or_default dirty_default d)) dirty
        else dirty) (ws_repositories ws) dirty"

definition run_manual_workspace ::
    "host \<Rightarrow> workspace \<Rightarrow> string option \<Rightarrow> bool \<Rightarrow> scheduler \<Rightarrow> (scheduler \<times> (string + index_destination_result)) option" where
  "run_manual_workspace host ws repository reconcile s =
     (let generation = map_of (sd_generations s) (ws_name ws);
          dirty = manual_dirty ws repository reconcile (or_default [] (map_of (sd_dirty s) (ws_name ws)))
      in case in_slot host (ws_name ws) (ho_index host ws (Some dirty) generation) s of
           None \<Rightarrow> None
         | Some (s, Inl e) \<Rightarrow> Some (s, Inl e)
         | Some (s, Inr answer) \<Rightarrow>
             Some (complete_generation (ws_name ws) generation s, Inr (destination_result (IdWorkspace (ws_name ws)) answer)))"

text \<open>The targets of a manual repository job: the workspace asked for, or every workspace with the repository.\<close>

definition manual_repository_targets ::
    "workspace_registry \<Rightarrow> string \<Rightarrow> string option \<Rightarrow> string + (registered_repository \<times> workspace list)" where
  "manual_repository_targets registry repository workspace_scope =
     (case map_of (wg_repositories registry) repository of
        None \<Rightarrow> Inl (''repository is no longer registered: '' @ repository)
      | Some registered \<Rightarrow>
          (case workspace_scope of
             None \<Rightarrow> Inr (registered, workspaces_referencing_repository repository registry)
           | Some scope_name \<Rightarrow>
               (case map_of (wg_workspaces registry) scope_name of
                  None \<Rightarrow> Inl (missing_workspace scope_name)
                | Some ws \<Rightarrow>
                    if has_repository repository ws then Inr (registered, [ws])
                    else Inl (''repository '' @ repository @ '' is not in workspace '' @ scope_name))))"

fun run_manual_targets ::
    "host \<Rightarrow> string \<Rightarrow> bool \<Rightarrow> workspace list \<Rightarrow> scheduler \<Rightarrow> (scheduler \<times> (string + index_destination_result list)) option" where
  "run_manual_targets host repository reconcile [] s = Some (s, Inr [])"
| "run_manual_targets host repository reconcile (ws # targets) s =
     (case run_manual_workspace host ws (Some repository) reconcile s of
        None \<Rightarrow> None
      | Some (s, Inl e) \<Rightarrow> Some (s, Inl e)
      | Some (s, Inr result) \<Rightarrow>
          map_option (\<lambda>(s, results). (s, rbind results (\<lambda>results. Inr (result # results))))
            (run_manual_targets host repository False targets s))"

definition one_destination ::
    "(scheduler \<times> (string + index_destination_result)) option \<Rightarrow> (scheduler \<times> (string + index_job_result)) option" where
  "one_destination = map_option (\<lambda>(s, result). (s, rbind result (\<lambda>result. Inr [result])))"

definition scheduler_run_index_job ::
    "host \<Rightarrow> workspace_registry \<Rightarrow> index_job \<Rightarrow> scheduler \<Rightarrow> (scheduler \<times> (string + index_job_result)) option" where
  "scheduler_run_index_job host registry job s =
     (case (ij_trigger job, ij_target job) of
        (Automatic, ItWorkspace workspace) \<Rightarrow> one_destination (run_automatic_workspace_job host registry job workspace s)
      | (Automatic, ItRepository _ _) \<Rightarrow> Some (s, Inl ''automatic index jobs must target one workspace'')
      | (Manual, ItWorkspace workspace) \<Rightarrow>
          (case map_of (wg_workspaces registry) workspace of
             None \<Rightarrow> Some (s, Inl (missing_workspace workspace))
           | Some ws \<Rightarrow> one_destination (run_manual_workspace host ws None True s))
      | (Manual, ItRepository repository workspace_scope) \<Rightarrow>
          (case manual_repository_targets registry repository workspace_scope of
             Inl e \<Rightarrow> Some (s, Inl e)
           | Inr (registered, []) \<Rightarrow>
               (let (s, answer) = ho_index_repository host (rr_selection registered) True s
                in Some (s, rbind answer (\<lambda>answer. Inr [destination_result (IdStandaloneRepository repository) answer])))
           | Inr (registered, targets) \<Rightarrow> run_manual_targets host repository True targets s))"

text \<open>
  What the index worker makes of the result (\<open>run_index_job\<close> of \<open>jobs.rs\<close>): the workspaces whose
  enrichments are queued next, whether a checkpoint is due, and the outcome it reports.
\<close>

definition enrichable_workspaces :: "index_job_result \<Rightarrow> string list" where
  "enrichable_workspaces results =
     List.map_filter (\<lambda>r. if idr_outcome r \<noteq> IoSuperseded
        then (case idr_destination r of IdWorkspace workspace \<Rightarrow> Some workspace | IdStandaloneRepository _ \<Rightarrow> None)
        else None) results"

definition any_published :: "index_job_result \<Rightarrow> bool" where
  "any_published results = list_ex idr_published results"

definition job_outcome :: "index_job_result \<Rightarrow> string" where
  "job_outcome results =
     (if list_all (\<lambda>r. idr_outcome r = IoSuperseded) results then ''superseded''
      else if any_published results then ''published'' else ''unchanged'')"

text \<open>After a failed attempt: dormant on the last one, else retried.\<close>

definition index_attempt_failed ::
    "database \<Rightarrow> int \<Rightarrow> string \<Rightarrow> nat \<Rightarrow> index_job \<Rightarrow> scheduler \<times> job_queue \<Rightarrow> (scheduler \<times> job_queue) \<times> (string + unit)" where
  "index_attempt_failed db now i attempt job = (\<lambda>(s, q).
     let terminal = MAX_ATTEMPTS \<le> attempt;
         s = (case (ij_trigger job, ij_target job) of
                (Automatic, ItWorkspace workspace) \<Rightarrow> automatic_job_failed workspace (ij_generation job) terminal s
              | _ \<Rightarrow> s)
     in if terminal then ((s, q), Inr ())
        else let (rows, written) = schedule_retry db now i attempt (jq_rows q) in ((s, q\<lparr>jq_rows := rows\<rparr>), written))"

text \<open>The acknowledgement of an automatic job that is finished for good.\<close>

definition acknowledge_automatic :: "database \<Rightarrow> string \<Rightarrow> scheduler \<times> job_queue \<Rightarrow> scheduler \<times> (string + unit)" where
  "acknowledge_automatic db i = (\<lambda>(s, q).
     case terminal_automatic_job db i (jq_rows q) of
       Inl e \<Rightarrow> (s, Inl e)
     | Inr None \<Rightarrow> (s, Inr ())
     | Inr (Some (workspace, generation)) \<Rightarrow> (automatic_job_finished workspace generation s, Inr ()))"

text \<open>
  Deleting a repository takes the slot and the repository; both are given back on every path.
  \<open>deletion\<close> is what the store answers.
\<close>

definition delete_repository ::
    "string + u64 \<Rightarrow> string option \<Rightarrow> string \<Rightarrow> scheduler \<times> workspace_registry \<times> registry_files
     \<Rightarrow> ((scheduler \<times> workspace_registry \<times> registry_files) \<times> (beholder_error + u64)) option" where
  "delete_repository deletion failure identity = (\<lambda>(s, registry, files).
     case begin_operation (''repository deletion '' @ identity) s of
       None \<Rightarrow> None
     | Some (Inl e) \<Rightarrow> Some ((s, registry, files), Inl e)
     | Some (Inr active) \<Rightarrow>
         (case begin_repository identity active of
            Inl e \<Rightarrow> Some ((end_operation active, registry, files), Inl e)
          | Inr held \<Rightarrow>
              let s = end_operation (end_repository identity held)
              in if map_of (wg_repositories registry) identity = None then
                   Some ((s, registry, files), Inl (new_error NotFound RepositoryNotRegistered (''repository not registered: '' @ identity)))
                 else case workspace_referencing_repository identity registry of
                        Some workspace \<Rightarrow>
                          Some ((s, registry, files), Inl (new_error FailedPrecondition RepositoryDeleteFailed
                            (''repository is referenced by workspace: '' @ workspace)))
                      | None \<Rightarrow>
                          (case deletion of
                             Inl source \<Rightarrow>
                               Some ((s, registry, files), Inl (with_source
                                 (new_error Internal RepositoryDeleteFailed ''repository revision deletion failed'') source))
                           | Inr queued \<Rightarrow>
                               (case remove_repository failure identity (registry, files) of
                                  ((registry, files), Inl source) \<Rightarrow>
                                    Some ((s, registry, files), Inl (with_source
                                      (new_error Internal RepositoryRegistryFailed ''repository registration deletion failed'') source))
                                | ((registry, files), Inr _) \<Rightarrow> Some ((s, registry, files), Inr queued)))))"


section \<open>The scheduler as a step relation\<close>

text \<open>Every critical section of the scheduler, whichever thread runs it.\<close>

inductive sched_step :: "scheduler \<Rightarrow> scheduler \<Rightarrow> bool" where
  marked: "sched_step s (mark ws s)"
| event: "sched_step s (add_event w e registry s)"
| completed: "sched_step s (complete_generation workspace indexed s)"
| begun: "begin_operation operation s = Some (Inr s') \<Longrightarrow> sched_step s s'"
| ended: "sched_step s (end_operation s)"
| repository_begun: "begin_repository identity s = Inr s' \<Longrightarrow> sched_step s s'"
| repository_ended: "sched_step s (end_repository identity s)"
| enqueued: "sched_step s (fst (fst (enqueue_workspace pc generation ws (s, q))))"
| job_failed: "sched_step s (automatic_job_failed workspace generation terminal s)"
| job_finished: "sched_step s (automatic_job_finished workspace generation s)"
| stopped: "sched_step s (stop s)"
| checkpoint: "sched_step s (fst (schedule_checkpoint spawned s))"
| checkpoint_done: "sched_step s (finish_checkpoint s)"
| collection: "sched_step s (request_garbage_collection s)"

definition dirty_map_wf :: "dirty_map \<Rightarrow> bool" where
  "dirty_map_wf m \<longleftrightarrow> bm_wf m \<and> (\<forall>r d. map_of m r = Some d \<longrightarrow> dirty_bounded d)"

definition scheduler_wf :: "scheduler \<Rightarrow> bool" where
  "scheduler_wf s \<longleftrightarrow>
     bm_wf (sd_generations s) \<and> bm_wf (sd_dirty s) \<and> ascending (sd_indexing s)
     \<and> dom (map_of (sd_generations s)) = dom (map_of (sd_dirty s))
     \<and> (\<forall>w m. map_of (sd_dirty s) w = Some m \<longrightarrow> dirty_map_wf m)"

declare dirty_apply.simps [simp del]

lemma or_default_simps [simp]: "or_default d None = d" "or_default d (Some x) = x"
  by (simp_all add: or_default_def)

lemma dirty_map_wf_Nil [simp]: "dirty_map_wf []"
  by (simp add: dirty_map_wf_def)

lemma dirty_map_wf_put: "dirty_map_wf m \<Longrightarrow> dirty_bounded d \<Longrightarrow> dirty_map_wf (bm_put r d m)"
  by (auto simp: dirty_map_wf_def)

lemma dirty_map_wf_entry:
  "dirty_map_wf m \<Longrightarrow> (\<And>d. dirty_bounded d \<Longrightarrow> dirty_bounded (f d)) \<Longrightarrow>
     dirty_map_wf (bm_entry r (\<lambda>d. f (or_default dirty_default d)) m)"
  using dirty_default_wf by (cases "map_of m r") (auto simp: dirty_map_wf_def)

lemma bounded_wf: "dirty_bounded d \<Longrightarrow> dirty_wf d"
  by (simp add: dirty_bounded_def)

lemma apply_all_bounded: "dirty_bounded (from_intent RiAll)"
  by (simp add: from_intent_def dirty_apply.simps dirty_default_def dirty_bounded_def dirty_wf_def authoritative_def path_count_def)

lemma apply_reconcile_bounded: "dirty_bounded d \<Longrightarrow> dirty_bounded (dirty_apply RiReconcile d)"
  using dirty_apply_wf [of d RiReconcile]
  by (auto simp: dirty_bounded_def authoritative_def path_count_def dirty_wf_def dirty_apply.simps)

lemma merge_bounded: "dirty_bounded d \<Longrightarrow> dirty_bounded (dirty_merge d incoming)"
  unfolding dirty_merge_def Let_def
  using fold_apply_wf [OF bounded_wf, of d "intents_of incoming"]
  by (intro limit_pending_bounded) (simp add: merge_intents_fold)

lemma fold_merge_pending_wf: "dirty_map_wf m \<Longrightarrow> dirty_map_wf (fold merge_pending dirty m)"
proof (induction dirty arbitrary: m)
  case (Cons p dirty)
  have "dirty_map_wf (bm_entry (fst p) (\<lambda>d. dirty_merge (or_default dirty_default d) (snd p)) m)"
    using dirty_map_wf_entry [of m "\<lambda>d. dirty_merge d (snd p)" "fst p"] Cons.prems merge_bounded by blast
  then show ?case using Cons.IH by (simp add: merge_pending_def case_prod_beta)
qed simp

lemma fold_mark_wf:
  "dirty_map_wf m \<Longrightarrow> dirty_map_wf (fold (\<lambda>r. bm_put (wr_identity r) (from_intent RiAll)) rs m)"
  by (induction rs arbitrary: m) (auto intro: dirty_map_wf_put apply_all_bounded)

lemma fold_reconcile_wf:
  "dirty_map_wf m \<Longrightarrow>
     dirty_map_wf (fold (\<lambda>r. bm_entry (wr_identity r) (\<lambda>d. dirty_apply RiReconcile (or_default dirty_default d))) rs m)"
  by (induction rs arbitrary: m) (auto intro: dirty_map_wf_entry apply_reconcile_bounded)

text \<open>A change of one workspace: its generation grows and its pending map is replaced.\<close>

definition changed_entry :: "string \<Rightarrow> (dirty_map \<Rightarrow> dirty_map) \<Rightarrow> scheduler \<Rightarrow> scheduler" where
  "changed_entry name f s =
     s\<lparr>sd_generations := bump name (sd_generations s), sd_dirty := bm_entry name (\<lambda>d. f (or_default [] d)) (sd_dirty s)\<rparr>"

lemma mark_entry:
  "mark ws s = (changed_entry (ws_name ws) (fold (\<lambda>r. bm_put (wr_identity r) (from_intent RiAll)) (ws_repositories ws)) s)
     \<lparr>sd_dormant := bm_remove (ws_name ws) (sd_dormant s), sd_changed := True\<rparr>"
  by (simp add: mark_def changed_entry_def)

lemma record_change_entry: "record_change p s = changed_entry (fst p) (fold merge_pending (snd p)) s"
  by (simp add: record_change_def changed_entry_def case_prod_beta)

lemma reconcile_workspace_entry:
  "reconcile_workspace ws s = (if ws_repositories ws = [] then s else changed_entry (ws_name ws)
     (fold (\<lambda>r. bm_entry (wr_identity r) (\<lambda>d. dirty_apply RiReconcile (or_default dirty_default d))) (ws_repositories ws)) s)"
  by (simp add: reconcile_workspace_def changed_entry_def)

lemma changed_entry_wf:
  assumes "scheduler_wf s" "\<And>m. dirty_map_wf m \<Longrightarrow> dirty_map_wf (f m)"
  shows "scheduler_wf (changed_entry name f s)"
  using assms
  by (cases "map_of (sd_dirty s) name") (auto simp: scheduler_wf_def changed_entry_def bump_def)

lemma changed_entry_sel [simp]:
  "map_of (sd_generations (changed_entry name f s)) =
     (map_of (sd_generations s))(name \<mapsto> (case map_of (sd_generations s) name of None \<Rightarrow> 1 | Some n \<Rightarrow> n + 1))"
  "map_of (sd_dirty (changed_entry name f s)) = (map_of (sd_dirty s))(name \<mapsto> f (or_default [] (map_of (sd_dirty s) name)))"
  "sd_stopping (changed_entry name f s) = sd_stopping s" "sd_dormant (changed_entry name f s) = sd_dormant s"
  "sd_automatic (changed_entry name f s) = sd_automatic s" "sd_changed (changed_entry name f s) = sd_changed s"
  by (simp_all add: changed_entry_def bump_def)

lemma fold_record_wf: "scheduler_wf s \<Longrightarrow> scheduler_wf (fold record_change changes s)"
  by (induction changes arbitrary: s) (simp_all add: record_change_entry changed_entry_wf fold_merge_pending_wf)

lemma fold_reconcile_workspace_wf: "scheduler_wf s \<Longrightarrow> scheduler_wf (fold reconcile_workspace workspaces s)"
  by (induction workspaces arbitrary: s) (simp_all add: reconcile_workspace_entry changed_entry_wf fold_reconcile_wf)

lemma scheduler_wf_record [simp]:
  "scheduler_wf (t\<lparr>sd_dormant := a\<rparr>) = scheduler_wf t" "scheduler_wf (t\<lparr>sd_changed := b\<rparr>) = scheduler_wf t"
  "scheduler_wf (t\<lparr>sd_automatic := c\<rparr>) = scheduler_wf t" "scheduler_wf (t\<lparr>sd_active := d\<rparr>) = scheduler_wf t"
  "scheduler_wf (t\<lparr>sd_stopping := e\<rparr>) = scheduler_wf t" "scheduler_wf (t\<lparr>sd_checkpointing := e\<rparr>) = scheduler_wf t"
  "scheduler_wf (t\<lparr>sd_collection := e\<rparr>) = scheduler_wf t"
  by (simp_all add: scheduler_wf_def)

lemma complete_generation_wf: "scheduler_wf s \<Longrightarrow> scheduler_wf (complete_generation workspace indexed s)"
  by (auto simp: complete_generation_def scheduler_wf_def Let_def)


lemma enqueue_workspace_state:
  "(\<exists>m. fst (fst (enqueue_workspace pc generation ws (s, q))) = s\<lparr>sd_automatic := m\<rparr>)
   \<or> fst (fst (enqueue_workspace pc generation ws (s, q))) = complete_generation (ws_name ws) generation s"
proof -
  have same: "\<exists>m. s = s\<lparr>sd_automatic := m\<rparr>" by (rule exI [of _ "sd_automatic s"]) simp
  show ?thesis
    by (auto simp: enqueue_workspace_def Let_def same split: sum.splits prod.splits)
qed

lemma add_event_state:
  "\<exists>t. ((\<exists>changes. t = fold record_change changes s) \<or> (\<exists>workspaces. t = fold reconcile_workspace workspaces s))
     \<and> (add_event w e registry s = t \<or> (\<exists>dormant. add_event w e registry s = t\<lparr>sd_dormant := dormant, sd_changed := True\<rparr>))"
proof (cases e)
  case (Inl x)
  show ?thesis
    by (rule exI [of _ "fold reconcile_workspace (registered_workspaces registry) s"])
      (auto simp: add_event_def Inl reconcile_after_watcher_error_def Let_def)
next
  case (Inr ev)
  have nothing: "add_event w e registry s = fold record_change [] s
      \<or> add_event w e registry s = (fold record_change (event_changes w ev (registered_workspaces registry)) s)
           \<lparr>sd_dormant := fold (\<lambda>(workspace, _). bm_remove workspace) (event_changes w ev (registered_workspaces registry))
                           (sd_dormant (fold record_change (event_changes w ev (registered_workspaces registry)) s)), sd_changed := True\<rparr>"
    by (simp add: add_event_def Inr Let_def)
  then show ?thesis by blast
qed

lemma sched_step_wf:
  assumes "sched_step s t" "scheduler_wf s"
  shows "scheduler_wf t"
  using assms
proof (induction rule: sched_step.induct)
  case (marked s ws)
  then show ?case
    using changed_entry_wf [of s "fold (\<lambda>r. bm_put (wr_identity r) (from_intent RiAll)) (ws_repositories ws)" "ws_name ws"] fold_mark_wf
    by (auto simp: mark_entry)
next
  case (event s w e registry)
  then show ?case
    using add_event_state [of s w e registry] fold_record_wf fold_reconcile_workspace_wf
    by (elim exE conjE disjE) simp_all
next
  case (enqueued s pc generation ws q)
  then show ?case
    using enqueue_workspace_state [of pc generation ws s q] complete_generation_wf
    by (auto)
next
  case (repository_begun identity s s')
  then have "s' = s\<lparr>sd_indexing := bs_insert identity (sd_indexing s)\<rparr>"
    by (auto simp: begin_repository_def split: if_splits)
  then show ?case using repository_begun(2) by (simp add: scheduler_wf_def)
next
  case (repository_ended s identity)
  then show ?case by (simp add: end_repository_def scheduler_wf_def)
qed (auto simp: complete_generation_wf begin_operation_def end_operation_def automatic_job_failed_def
    automatic_job_finished_def stop_def schedule_checkpoint_def finish_checkpoint_def request_garbage_collection_def
    split: option.splits if_splits)

interpretation scheduler_system: step_invariant sched_step scheduler_wf
  by unfold_locales (rule sched_step_wf)

section \<open>What happens to one workspace\<close>

text \<open>
  A workspace's generation and pending changes stay, or the generation grows with the changes, or
  both are gone with a completed index.
\<close>

definition advances :: "string \<Rightarrow> scheduler \<Rightarrow> scheduler \<Rightarrow> bool" where
  "advances w s t \<longleftrightarrow>
     map_of (sd_generations t) w = map_of (sd_generations s) w \<and> map_of (sd_dirty t) w = map_of (sd_dirty s) w
     \<or> (\<exists>h. map_of (sd_generations t) w = Some h \<and> (\<forall>g. map_of (sd_generations s) w = Some g \<longrightarrow> g < h))"

lemma advances_refl: "sd_generations t = sd_generations s \<Longrightarrow> sd_dirty t = sd_dirty s \<Longrightarrow> advances w s t"
  by (simp add: advances_def)

lemma advances_trans: "advances w s t \<Longrightarrow> advances w t u \<Longrightarrow> advances w s u"
  unfolding advances_def by (auto dest: less_trans)

lemma changed_entry_advances: "advances w s (changed_entry name f s)"
  by (auto simp: advances_def split: option.splits)

lemma fold_record_advances: "advances w s (fold record_change changes s)"
proof (induction changes arbitrary: s)
  case (Cons p changes)
  then show ?case using changed_entry_advances advances_trans by (simp add: record_change_entry) blast
qed (simp add: advances_refl)

lemma fold_reconcile_advances: "advances w s (fold reconcile_workspace workspaces s)"
proof (induction workspaces arbitrary: s)
  case (Cons ws workspaces)
  then show ?case
    using changed_entry_advances advances_trans by (cases "ws_repositories ws = []") (simp_all add: reconcile_workspace_entry, blast)
qed (simp add: advances_refl)

lemma complete_generation_view:
  "advances w s (complete_generation workspace indexed s)
   \<or> map_of (sd_generations (complete_generation workspace indexed s)) w = None
     \<and> map_of (sd_dirty (complete_generation workspace indexed s)) w = None"
  by (auto simp: complete_generation_def advances_def Let_def)

lemma advances_record [simp]:
  "advances w s (t\<lparr>sd_dormant := a\<rparr>) = advances w s t" "advances w s (t\<lparr>sd_changed := b\<rparr>) = advances w s t"
  "advances w s (t\<lparr>sd_automatic := c\<rparr>) = advances w s t"
  by (simp_all add: advances_def)

lemma sched_step_view:
  assumes "sched_step s t"
  shows "advances w s t \<or> map_of (sd_generations t) w = None \<and> map_of (sd_dirty t) w = None"
  using assms
proof (induction rule: sched_step.induct)
  case (marked s ws)
  then show ?case by (simp add: mark_entry changed_entry_advances)
next
  case (event s wa e registry)
  then show ?case
    using add_event_state [of s wa e registry] fold_record_advances [of w s] fold_reconcile_advances [of w s] by auto
next
  case (completed s workspace indexed)
  then show ?case by (rule complete_generation_view)
next
  case (enqueued s pc generation ws q)
  then show ?case
    using enqueue_workspace_state [of pc generation ws s q] complete_generation_view [of w s "ws_name ws" generation]
    by (elim disjE exE) (simp_all add: advances_refl)
qed (auto simp: advances_refl begin_operation_def end_operation_def begin_repository_def end_repository_def automatic_job_failed_def
    automatic_job_finished_def stop_def schedule_checkpoint_def finish_checkpoint_def request_garbage_collection_def
    split: option.splits if_splits)


section \<open>What an event leaves\<close>

definition event_intents :: "watcher \<Rightarrow> watch_event \<Rightarrow> workspace \<Rightarrow> workspace_repository \<Rightarrow> repository_intent list" where
  "event_intents w ev ws r = List.map_filter (path_intent w (ev_kind ev) ws r) (ev_paths ev)"

lemma fold_apply_path: "fold (apply_path w kind ws r) ps d = fold dirty_apply (List.map_filter (path_intent w kind ws r) ps) d"
  by (induction ps arbitrary: d) (auto simp: apply_path_def List.map_filter_simps split: option.splits)

lemma bs_insert_nonempty: "bs_insert x s \<noteq> []"
  by (cases s) auto

lemma dirty_apply_nonempty: "\<not> dirty_is_empty (dirty_apply i d)"
  by (cases i) (auto simp: dirty_is_empty_def dirty_apply.simps bs_insert_nonempty)

lemma fold_apply_empty: "dirty_is_empty (fold dirty_apply is dirty_default) \<longleftrightarrow> is = []"
proof (cases "is" rule: rev_cases)
  case (snoc js i)
  then show ?thesis using dirty_apply_nonempty [of i] by simp
qed (simp add: dirty_is_empty_def dirty_default_def)

lemma repository_change_intents:
  "repository_change_of w ev ws r =
     (if event_intents w ev ws r = [] then None
      else Some (wr_identity r, record_event (fold dirty_apply (event_intents w ev ws r) dirty_default)))"
  by (simp add: repository_change_of_def fold_apply_path fold_apply_empty event_intents_def [symmetric] Let_def)

lemma limit_pending_keeps: "pending d p \<Longrightarrow> pending (limit_pending d) p"
  by (simp add: limit_pending_def dirty_apply_pending)

lemma limit_pending_only: "pending (limit_pending d) p \<Longrightarrow> pending d p \<or> authoritative (limit_pending d)"
  by (auto simp: limit_pending_def dirty_apply_authoritative split: if_splits)

lemma merge_pending_iff:
  "pending (dirty_merge d incoming) p \<longleftrightarrow> pending d p \<or> pending incoming p \<or> authoritative (dirty_merge d incoming)"
proof -
  define m where "m = (merge_intents d incoming)\<lparr>dy_events := saturating_add (dy_events (merge_intents d incoming)) (dy_events incoming)\<rparr>"
  have merge: "dirty_merge d incoming = limit_pending m" by (simp add: dirty_merge_def m_def Let_def)
  have "pending m p \<longleftrightarrow> pending d p \<or> pending incoming p"
    using fold_apply_pending [of "intents_of incoming" d p] intents_of_pending [of incoming p]
    by (simp add: m_def merge_intents_fold)
  then show ?thesis
    unfolding merge using limit_pending_keeps [of m p] limit_pending_only [of m p] by (auto simp: pending_def)
qed

lemma record_event_pending:
  "pending (record_event d) p \<longleftrightarrow> pending d p \<or> authoritative (record_event d)"
  using limit_pending_keeps [of "d\<lparr>dy_events := saturating_add (dy_events d) 1\<rparr>" p]
    limit_pending_only [of "d\<lparr>dy_events := saturating_add (dy_events d) 1\<rparr>" p]
  by (auto simp: record_event_def pending_def)

lemma merge_authoritative: "authoritative incoming \<Longrightarrow> authoritative (dirty_merge d incoming)"
  using fold_apply_authoritative [of "intents_of incoming" d] intents_of_authoritative [of incoming]
  by (auto simp: dirty_merge_def limit_pending_def merge_intents_fold dirty_apply_authoritative Let_def)

lemma merge_pending_get:
  "map_of (merge_pending p m) = (map_of m)(fst p \<mapsto> dirty_merge (or_default dirty_default (map_of m (fst p))) (snd p))"
  by (simp add: merge_pending_def case_prod_beta)

lemma map_of_fold_merge:
  "distinct (map fst xs) \<Longrightarrow> map_of (fold merge_pending xs m) r =
     (case map_of xs r of None \<Rightarrow> map_of m r
      | Some d \<Rightarrow> Some (dirty_merge (or_default dirty_default (map_of m r)) d))"
proof (induction xs arbitrary: m)
  case (Cons p xs)
  then have "map_of xs (fst p) = None" by (simp add: map_of_eq_None_iff)
  with Cons show ?case by (cases p; cases "map_of xs r") (auto simp: merge_pending_get)
qed simp

lemma fold_record_dormant: "sd_dormant (fold record_change changes s) = sd_dormant s"
  by (induction changes arbitrary: s) (simp_all add: record_change_entry)

lemma fold_record_view:
  assumes "distinct (map fst changes)"
  shows "map_of (sd_generations (fold record_change changes s)) w =
      (case map_of changes w of None \<Rightarrow> map_of (sd_generations s) w
       | Some _ \<Rightarrow> Some (case map_of (sd_generations s) w of None \<Rightarrow> 1 | Some n \<Rightarrow> n + 1))"
    and "map_of (sd_dirty (fold record_change changes s)) w =
      (case map_of changes w of None \<Rightarrow> map_of (sd_dirty s) w
       | Some dirty \<Rightarrow> Some (fold merge_pending dirty (or_default [] (map_of (sd_dirty s) w))))"
proof -
  have "map_of (sd_generations (fold record_change changes s)) w =
      (case map_of changes w of None \<Rightarrow> map_of (sd_generations s) w
       | Some _ \<Rightarrow> Some (case map_of (sd_generations s) w of None \<Rightarrow> 1 | Some n \<Rightarrow> n + 1))
    \<and> map_of (sd_dirty (fold record_change changes s)) w =
      (case map_of changes w of None \<Rightarrow> map_of (sd_dirty s) w
       | Some dirty \<Rightarrow> Some (fold merge_pending dirty (or_default [] (map_of (sd_dirty s) w))))"
    using assms
  proof (induction changes arbitrary: s)
    case (Cons p changes)
    then have "map_of changes (fst p) = None" by (simp add: map_of_eq_None_iff)
    with Cons show ?case by (cases p; cases "map_of changes w") (auto simp: record_change_entry)
  qed simp
  then show "map_of (sd_generations (fold record_change changes s)) w =
      (case map_of changes w of None \<Rightarrow> map_of (sd_generations s) w
       | Some _ \<Rightarrow> Some (case map_of (sd_generations s) w of None \<Rightarrow> 1 | Some n \<Rightarrow> n + 1))"
    and "map_of (sd_dirty (fold record_change changes s)) w =
      (case map_of changes w of None \<Rightarrow> map_of (sd_dirty s) w
       | Some dirty \<Rightarrow> Some (fold merge_pending dirty (or_default [] (map_of (sd_dirty s) w))))"
    by simp_all
qed

lemma map_of_fold_remove:
  "map_of (fold (\<lambda>(k, _). bm_remove k) xs m) k = (if k \<in> fst ` set xs then None else map_of m k)"
  by (induction xs arbitrary: m) auto

definition workspace_changes :: "watcher \<Rightarrow> watch_event \<Rightarrow> workspace \<Rightarrow> (string \<times> dirty_repository) list" where
  "workspace_changes w ev ws = List.map_filter (repository_change_of w ev ws) (ws_repositories ws)"

lemma event_changes_alt:
  "event_changes w ev workspaces =
     map (\<lambda>ws. (ws_name ws, workspace_changes w ev ws)) (filter (\<lambda>ws. workspace_changes w ev ws \<noteq> []) workspaces)"
  by (simp add: event_changes_def workspace_changes_def filter_map comp_def)

lemma map_of_event_changes:
  assumes "distinct (map ws_name workspaces)" "ws \<in> set workspaces"
  shows "map_of (event_changes w ev workspaces) (ws_name ws) =
      (if workspace_changes w ev ws = [] then None else Some (workspace_changes w ev ws))"
    and "distinct (map fst (event_changes w ev workspaces))"
proof -
  show dist: "distinct (map fst (event_changes w ev workspaces))"
    using assms(1) by (simp add: event_changes_alt comp_def distinct_map inj_on_def)
  show "map_of (event_changes w ev workspaces) (ws_name ws) =
      (if workspace_changes w ev ws = [] then None else Some (workspace_changes w ev ws))"
  proof (cases "workspace_changes w ev ws = []")
    case True
    then have "ws_name ws \<notin> fst ` set (event_changes w ev workspaces)"
      using assms by (auto simp: event_changes_alt distinct_map dest: inj_onD)
    then show ?thesis using True by (simp add: map_of_eq_None_iff)
  next
    case False
    then have "(ws_name ws, workspace_changes w ev ws) \<in> set (event_changes w ev workspaces)"
      using assms(2) by (auto simp: event_changes_alt)
    then show ?thesis using dist False by simp
  qed
qed

lemma map_of_workspace_changes:
  assumes "distinct (map wr_identity rs)" "r \<in> set rs"
  shows "map_of (List.map_filter (repository_change_of w ev ws) rs) (wr_identity r) =
      (if event_intents w ev ws r = [] then None
       else Some (record_event (fold dirty_apply (event_intents w ev ws r) dirty_default)))"
    and "distinct (map fst (List.map_filter (repository_change_of w ev ws) rs))"
proof -
  have alt: "List.map_filter (repository_change_of w ev ws) rs =
      map (\<lambda>r. (wr_identity r, record_event (fold dirty_apply (event_intents w ev ws r) dirty_default)))
        (filter (\<lambda>r. event_intents w ev ws r \<noteq> []) rs)" for rs
    by (induction rs) (simp_all add: List.map_filter_simps repository_change_intents)
  show dist: "distinct (map fst (List.map_filter (repository_change_of w ev ws) rs))"
    using assms(1) by (simp add: alt comp_def distinct_map inj_on_def)
  show "map_of (List.map_filter (repository_change_of w ev ws) rs) (wr_identity r) =
      (if event_intents w ev ws r = [] then None
       else Some (record_event (fold dirty_apply (event_intents w ev ws r) dirty_default)))"
  proof (cases "event_intents w ev ws r = []")
    case True
    then have "wr_identity r \<notin> fst ` set (List.map_filter (repository_change_of w ev ws) rs)"
      using assms by (auto simp: alt distinct_map dest: inj_onD)
    then show ?thesis using True by (simp add: map_of_eq_None_iff)
  next
    case False
    then have "(wr_identity r, record_event (fold dirty_apply (event_intents w ev ws r) dirty_default))
        \<in> set (List.map_filter (repository_change_of w ev ws) rs)"
      using assms(2) by (auto simp: alt)
    then show ?thesis using dist False by simp
  qed
qed


definition pending_of :: "scheduler \<Rightarrow> string \<Rightarrow> string \<Rightarrow> dirty_repository" where
  "pending_of s workspace repository =
     or_default dirty_default (map_of (or_default [] (map_of (sd_dirty s) workspace)) repository)"

lemma add_event_changes:
  assumes "ev_kind ev \<noteq> EkAccess" "event_changes w ev (registered_workspaces registry) \<noteq> []"
  shows "add_event w (Inr ev) registry s =
    (fold record_change (event_changes w ev (registered_workspaces registry)) s)
      \<lparr>sd_dormant := fold (\<lambda>(workspace, _). bm_remove workspace) (event_changes w ev (registered_workspaces registry)) (sd_dormant s),
       sd_changed := True\<rparr>"
  using assms by (simp add: add_event_def Let_def fold_record_dormant)

lemma workspace_changes_empty:
  "workspace_changes w ev ws = [] \<longleftrightarrow> (\<forall>r \<in> set (ws_repositories ws). event_intents w ev ws r = [])"
  by (auto simp: workspace_changes_def List.map_filter_def filter_empty_conv repository_change_intents)

lemma add_event_unaffected:
  assumes "distinct (map ws_name (registered_workspaces registry))" "ws \<in> set (registered_workspaces registry)"
    and "workspace_changes w ev ws = []"
  shows "map_of (sd_generations (add_event w (Inr ev) registry s)) (ws_name ws) = map_of (sd_generations s) (ws_name ws)
    \<and> map_of (sd_dirty (add_event w (Inr ev) registry s)) (ws_name ws) = map_of (sd_dirty s) (ws_name ws)"
  using fold_record_view [OF map_of_event_changes(2) [OF assms(1,2), of w ev], of s "ws_name ws"]
    map_of_event_changes(1) [OF assms(1,2), of w ev] assms(3)
  by (simp add: add_event_def Let_def)

lemma add_event_affected:
  fixes s :: scheduler
  assumes "distinct (map ws_name (registered_workspaces registry))" "ws \<in> set (registered_workspaces registry)"
    and "workspace_changes w ev ws \<noteq> []" "ev_kind ev \<noteq> EkAccess"
  defines "s' \<equiv> add_event w (Inr ev) registry s"
  shows "map_of (sd_generations s') (ws_name ws) =
      Some (case map_of (sd_generations s) (ws_name ws) of None \<Rightarrow> 1 | Some n \<Rightarrow> n + 1)"
    and "map_of (sd_dirty s') (ws_name ws) =
      Some (fold merge_pending (workspace_changes w ev ws) (or_default [] (map_of (sd_dirty s) (ws_name ws))))"
    and "map_of (sd_dormant s') (ws_name ws) = None" "sd_changed s'"
proof -
  let ?changes = "event_changes w ev (registered_workspaces registry)"
  have entry: "map_of ?changes (ws_name ws) = Some (workspace_changes w ev ws)"
    using map_of_event_changes(1) [OF assms(1,2), of w ev] assms(3) by simp
  then have nonempty: "?changes \<noteq> []" and dom: "ws_name ws \<in> fst ` set ?changes"
    by (auto simp flip: dom_map_of_conv_image_fst)
  note s' = add_event_changes [OF assms(4) nonempty, of s, folded s'_def]
  note view = fold_record_view [OF map_of_event_changes(2) [OF assms(1,2), of w ev], of s "ws_name ws"]
  show "map_of (sd_generations s') (ws_name ws) =
      Some (case map_of (sd_generations s) (ws_name ws) of None \<Rightarrow> 1 | Some n \<Rightarrow> n + 1)"
    using view(1) by (simp add: s' entry)
  show "map_of (sd_dirty s') (ws_name ws) =
      Some (fold merge_pending (workspace_changes w ev ws) (or_default [] (map_of (sd_dirty s) (ws_name ws))))"
    using view(2) by (simp add: s' entry)
  show "map_of (sd_dormant s') (ws_name ws) = None" "sd_changed s'"
    using dom by (simp_all add: s' map_of_fold_remove)
qed

lemma not_pending_default: "\<not> pending dirty_default p"
  by (simp add: pending_def dirty_default_def authoritative_def)

lemma affected_pending:
  assumes "distinct (map wr_identity (ws_repositories ws))" "r \<in> set (ws_repositories ws)"
    and "map_of (sd_dirty s') (ws_name ws) =
      Some (fold merge_pending (workspace_changes w ev ws) (or_default [] (map_of (sd_dirty s) (ws_name ws))))"
  shows "pending (pending_of s' (ws_name ws) (wr_identity r)) p \<longleftrightarrow>
      pending (pending_of s (ws_name ws) (wr_identity r)) p
      \<or> (\<exists>i \<in> set (event_intents w ev ws r). intent_pending i p)
      \<or> authoritative (pending_of s' (ws_name ws) (wr_identity r))"
proof (cases "event_intents w ev ws r = []")
  case True
  then have "pending_of s' (ws_name ws) (wr_identity r) = pending_of s (ws_name ws) (wr_identity r)"
    using map_of_workspace_changes [OF assms(1,2), of w ev ws] assms(3)
    by (simp add: pending_of_def map_of_fold_merge workspace_changes_def)
  then show ?thesis using True by (auto simp: pending_def)
next
  case False
  define batch where "batch = record_event (fold dirty_apply (event_intents w ev ws r) dirty_default)"
  have "pending_of s' (ws_name ws) (wr_identity r) = dirty_merge (pending_of s (ws_name ws) (wr_identity r)) batch"
    using False map_of_workspace_changes [OF assms(1,2), of w ev ws] assms(3)
    by (simp add: pending_of_def map_of_fold_merge workspace_changes_def batch_def)
  moreover have "pending batch p \<longleftrightarrow> (\<exists>i \<in> set (event_intents w ev ws r). intent_pending i p) \<or> authoritative batch"
    using fold_apply_pending [of "event_intents w ev ws r" dirty_default p] not_pending_default
    by (simp add: batch_def record_event_pending)
  ultimately show ?thesis
    using merge_pending_iff [of "pending_of s (ws_name ws) (wr_identity r)" batch p] merge_authoritative [of batch]
    by auto
qed


section \<open>What a batch queues\<close>

lemma enqueue_automatic_rows:
  "\<exists>rows. jq_rows (fst (enqueue_automatic_index db i now job q)) = jq_rows q @ rows"
  by (auto simp: enqueue_automatic_index_def push_index_job_def push_row_def rbind_Inr_iff
      split: index_target.splits sum.splits option.splits)

lemma enqueue_automatic_active:
  assumes "enqueue_automatic_index db i now job q = (q', Inr r)" "ij_target job = ItWorkspace w" "ij_trigger job = Automatic"
  shows "automatic_rows w (jq_rows q') \<noteq> []"
proof (cases "automatic_index_active db w (jq_rows q) = Inr True")
  case True
  then have "list_ex (automatic_for w) (active_rows INDEX_QUEUE (jq_rows q))" "q' = q"
    using assms by (auto simp: automatic_index_active_def rbind_Inr_iff fetch_def enqueue_automatic_index_def
        split: option.splits if_splits)
  then show ?thesis by (auto simp: automatic_rows_def list_ex_iff filter_empty_conv)
next
  case False
  then obtain j rows where "push_index_job db i now job (jq_rows q) = Inr (j, rows)" "q' = q\<lparr>jq_rows := rows\<rparr>"
    using assms(1,2) by (auto simp: enqueue_automatic_index_def split: sum.splits if_splits)
  then show ?thesis using automatic_rows_push_index assms(2,3) by simp
qed

text \<open>A workspace's own turn in the batch.\<close>

lemma enqueue_workspace_own:
  assumes "enqueue_workspace pc (Some g) ws (s, q) = ((s', q'), Inr ())"
    and "map_of (sd_generations s) (ws_name ws) = Some g" "map_of (sd_dormant s) (ws_name ws) \<noteq> Some g"
  shows "git_head_only_noop (pc_git pc) (pc_published_head pc) ws (or_default [] (map_of (sd_dirty s) (ws_name ws))) = Inr True
      \<and> map_of (sd_generations s') (ws_name ws) = None
    \<or> automatic_rows (ws_name ws) (jq_rows q') \<noteq> [] \<and> map_of (sd_generations s') (ws_name ws) = Some g"
proof -
  let ?dirty = "or_default [] (map_of (sd_dirty s) (ws_name ws))"
  consider (noop) "git_head_only_noop (pc_git pc) (pc_published_head pc) ws ?dirty = Inr True"
      "s' = complete_generation (ws_name ws) (Some g) s"
    | (queued) r where "enqueue_automatic_index (pc_database pc) (pc_ids pc (ws_name ws)) (pc_now pc)
          (automatic_job (ws_name ws) (Some g) ?dirty) q = (q', Inr r)"
        "s' = s\<lparr>sd_automatic := bm_put (ws_name ws) (Some g) (sd_automatic s)\<rparr>"
    using assms(1,3) by (auto simp: enqueue_workspace_def Let_def split: sum.splits prod.splits if_splits)
  then show ?thesis
  proof cases
    case noop
    then show ?thesis using assms(2) by (simp add: complete_generation_def Let_def)
  next
    case queued
    then show ?thesis
      using enqueue_automatic_active [OF queued(1)] assms(2) by (simp add: automatic_job_def)
  qed
qed

text \<open>The turns of the others leave it alone.\<close>

lemma enqueue_workspace_other:
  assumes "w \<noteq> ws_name ws"
  shows "map_of (sd_generations (fst (fst (enqueue_workspace pc generation ws (s, q))))) w = map_of (sd_generations s) w
    \<and> map_of (sd_dirty (fst (fst (enqueue_workspace pc generation ws (s, q))))) w = map_of (sd_dirty s) w"
  using enqueue_workspace_state [of pc generation ws s q] assms
  by (auto simp: complete_generation_def Let_def)

lemma enqueue_workspace_keeps:
  "sd_dormant (fst (fst (enqueue_workspace pc generation ws (s, q)))) = sd_dormant s
   \<and> sd_stopping (fst (fst (enqueue_workspace pc generation ws (s, q)))) = sd_stopping s
   \<and> (\<exists>rows. jq_rows (snd (fst (enqueue_workspace pc generation ws (s, q)))) = jq_rows q @ rows)"
proof -
  have "\<exists>rows. jq_rows (snd (fst (enqueue_workspace pc generation ws (s, q)))) = jq_rows q @ rows"
    using enqueue_automatic_rows [of "pc_database pc" "pc_ids pc (ws_name ws)" "pc_now pc"
        "automatic_job (ws_name ws) generation (or_default [] (map_of (sd_dirty s) (ws_name ws)))" q]
    by (auto simp: enqueue_workspace_def Let_def split: sum.splits prod.splits)
  moreover have "sd_dormant (complete_generation (ws_name ws) generation s) = sd_dormant s
      \<and> sd_stopping (complete_generation (ws_name ws) generation s) = sd_stopping s"
    by (simp add: complete_generation_def Let_def)
  ultimately show ?thesis using enqueue_workspace_state [of pc generation ws s q] by auto
qed

lemma enqueue_workspaces_other:
  assumes "enqueue_workspaces pc snapshot workspaces (s, q) = ((s', q'), r)" "w \<notin> ws_name ` set workspaces"
  shows "map_of (sd_generations s') w = map_of (sd_generations s) w
    \<and> (automatic_rows w (jq_rows q) \<noteq> [] \<longrightarrow> automatic_rows w (jq_rows q') \<noteq> [])"
  using assms
proof (induction workspaces arbitrary: s q)
  case (Cons ws workspaces)
  obtain s1 q1 r1 where step: "enqueue_workspace pc (map_of snapshot (ws_name ws)) ws (s, q) = ((s1, q1), r1)"
    by (metis prod.exhaust)
  have one: "map_of (sd_generations s1) w = map_of (sd_generations s) w"
      "automatic_rows w (jq_rows q) \<noteq> [] \<longrightarrow> automatic_rows w (jq_rows q1) \<noteq> []"
    using enqueue_workspace_other [of w ws pc "map_of snapshot (ws_name ws)" s q]
      enqueue_workspace_keeps [of pc "map_of snapshot (ws_name ws)" ws s q] step Cons.prems(2)
    by (auto simp: automatic_rows_append)
  show ?case
    using Cons.prems Cons.IH [of s1 q1] one step by (cases r1) (auto split: if_splits)
qed simp

lemma enqueue_workspaces_own:
  assumes "enqueue_workspaces pc snapshot workspaces (s, q) = ((s', q'), Inr ())"
    and "distinct (map ws_name workspaces)" "ws \<in> set workspaces" "map_of snapshot (ws_name ws) = Some g"
    and "map_of (sd_generations s) (ws_name ws) = Some g" "map_of (sd_dormant s) (ws_name ws) \<noteq> Some g" "\<not> sd_stopping s"
  shows "git_head_only_noop (pc_git pc) (pc_published_head pc) ws (or_default [] (map_of (sd_dirty s) (ws_name ws))) = Inr True
      \<and> map_of (sd_generations s') (ws_name ws) = None
    \<or> automatic_rows (ws_name ws) (jq_rows q') \<noteq> [] \<and> map_of (sd_generations s') (ws_name ws) = Some g"
  using assms
proof (induction workspaces arbitrary: s q)
  case (Cons v workspaces)
  obtain s1 q1 where step: "enqueue_workspace pc (map_of snapshot (ws_name v)) v (s, q) = ((s1, q1), Inr ())"
      and rest: "enqueue_workspaces pc snapshot workspaces (s1, q1) = ((s', q'), Inr ())"
    using Cons.prems(1,7) by (auto split: prod.splits sum.splits if_splits)
  show ?case
  proof (cases "ws = v")
    case True
    have "ws_name ws \<notin> ws_name ` set workspaces" using Cons.prems(2) True by simp
    from enqueue_workspaces_other [OF rest this] show ?thesis
      using enqueue_workspace_own [of pc g ws s q s1 q1] step True Cons.prems(4-6) by auto
  next
    case False
    then have mem: "ws \<in> set workspaces" using Cons.prems(3) by simp
    then have ne: "ws_name ws \<noteq> ws_name v" using Cons.prems(2) by (metis distinct.simps(2) image_eqI list.set_map list.simps(9))
    have "map_of (sd_generations s1) (ws_name ws) = map_of (sd_generations s) (ws_name ws)"
        "map_of (sd_dirty s1) (ws_name ws) = map_of (sd_dirty s) (ws_name ws)" "sd_dormant s1 = sd_dormant s" "sd_stopping s1 = sd_stopping s"
      using enqueue_workspace_other [OF ne, of pc "map_of snapshot (ws_name v)" s q]
        enqueue_workspace_keeps [of pc "map_of snapshot (ws_name v)" v s q] step by auto
    then show ?thesis using Cons.IH [OF rest _ mem] Cons.prems by simp
  qed
qed simp


lemma snapshot_workspaces:
  assumes names: "\<And>name ws. map_of workspaces name = Some ws \<Longrightarrow> ws_name ws = name" and "distinct (map fst snapshot)"
  shows "distinct (map ws_name (List.map_filter (\<lambda>(name, _). map_of workspaces name) snapshot))
    \<and> ws_name ` set (List.map_filter (\<lambda>(name, _). map_of workspaces name) snapshot) \<subseteq> fst ` set snapshot"
  using assms(2)
proof (induction snapshot)
  case (Cons p snapshot)
  then show ?case
    using names [of "fst p"] by (cases p; cases "map_of workspaces (fst p)") (auto simp: List.map_filter_simps)
qed simp

section \<open>Examples\<close>

definition example_watcher :: watcher where
  "example_watcher = \<lparr>wa_git = env_git example_environment, wa_input_kinds = (\<lambda>_. [SourceInput])\<rparr>"

definition example_registry :: workspace_registry where
  "example_registry = \<lparr>wg_repositories = [], wg_workspaces = [(''w'', example_workspace)]\<rparr>"

definition example_event :: watch_event where
  "example_event = \<lparr>ev_kind = EkModify MkData, ev_paths = [''/a/lib.rs'']\<rparr>"

definition example_producer :: producer where
  "example_producer =
     \<lparr>pc_git = env_git example_environment, pc_published_head = (\<lambda>_ _. Inr None), pc_database = working_database,
      pc_ids = (\<lambda>_. ''job''), pc_now = 1\<rparr>"

definition example_repository :: workspace_repository where
  "example_repository = \<lparr>wr_repository = \<lparr>lr_identity = ''a''\<rparr>, wr_display_name = ''A'', wr_base = ''/a'', wr_alternatives = []\<rparr>"

lemma example_event_facts:
  "ws_name example_workspace = ''w''" "wr_identity example_repository = ''a''"
  "example_repository \<in> set (ws_repositories example_workspace)"
  "distinct (map ws_name (registered_workspaces example_registry))"
  "example_workspace \<in> set (registered_workspaces example_registry)"
  "distinct (map wr_identity (ws_repositories example_workspace))" "ev_kind example_event \<noteq> EkAccess"
  "event_intents example_watcher example_event example_workspace example_repository = [RiSource (path_components ''lib.rs'')]"
  by code_simp+

section \<open>Properties\<close>










section \<open>Two things the counters allow\<close>

text \<open>
  A completed index removes the generation, so the next change starts again at 1. A job queued for
  the old generation 1 (here, while a manual index completed it) then passes for current, and its
  completion clears changes it never saw.
\<close>

definition reused_generation :: scheduler where
  "reused_generation =
     add_event example_watcher (Inr example_event) example_registry
       (complete_generation ''w'' (Some 1) (mark example_workspace new_scheduler))"

lemma reused_generation_lost:
  "ensure_generation_current ''w'' (Some 1) reused_generation = Inr ()
   \<and> pending (pending_of reused_generation ''w'' ''a'') (path_components ''lib.rs'')
   \<and> \<not> pending (pending_of (complete_generation ''w'' (Some 1) reused_generation) ''w'' ''a'') (path_components ''lib.rs'')"
proof -
  note facts = example_event_facts
  let ?s = "complete_generation ''w'' (Some 1) (mark example_workspace new_scheduler)"
  have gone: "map_of (sd_generations ?s) ''w'' = None"
    by (simp add: complete_generation_def Let_def mark_entry facts(1) new_scheduler_def)
  have "workspace_changes example_watcher example_event example_workspace \<noteq> []"
    unfolding workspace_changes_empty by (metis facts(3,8) list.distinct(1))
  note affected = add_event_affected [OF facts(4,5) this facts(7), of ?s, folded reused_generation_def]
  have "pending (pending_of reused_generation ''w'' ''a'') (path_components ''lib.rs'')"
    using affected_pending [OF facts(6,3) affected(2), of "path_components ''lib.rs''"] facts by simp
  moreover have gen: "map_of (sd_generations reused_generation) ''w'' = Some 1"
    using affected(1) gone facts(1) by simp
  moreover have "pending_of (complete_generation ''w'' (Some 1) reused_generation) ''w'' ''a'' = dirty_default"
    using gen by (simp add: pending_of_def complete_generation_def Let_def)
  ultimately show ?thesis by (simp add: ensure_generation_current_def not_pending_default)
qed

text \<open>
  A batch notes its generation as queued even when the queue already has an automatic job and
  refuses a second one. When that older job ends and a manual index then completes the newer
  generation, nothing removes the note, and queries report indexing until the workspace changes again.
\<close>

definition stuck_indexing :: scheduler where
  "stuck_indexing =
     (let q = \<lparr>jq_admission = True, jq_rows = []\<rparr>;
          (sq1, _) = enqueue_dirty example_producer example_registry (mark example_workspace new_scheduler, q);
          (sq2, _) = enqueue_dirty example_producer example_registry (mark example_workspace (fst sq1), snd sq1);
          s3 = automatic_job_finished ''w'' (Some 1) (fst sq2)
      in complete_generation ''w'' (Some 2) s3)"

lemma stuck_indexing_reported:
  "map_of (sd_generations stuck_indexing) ''w'' = None \<and> sd_active stuck_indexing = None
   \<and> fr_indexing (qm_freshness (query_metadata_of ''w'' 0 default_analysis_metadata stuck_indexing))"
  by code_simp


end
