(* ===== verification/Elixir_Resolution.thy ===== *)
theory Elixir_Resolution imports Ordered Domain_Semantic begin

text \<open>
  Resolution of Elixir names, \<open>crates/adapters-treesitter-elixir/src/resolution.rs\<close>: module references
  and dynamic calls across the repositories of a workspace, and calls within one repository. A name
  that several definitions claim resolves to none of them.
\<close>

section \<open>Unique definitions\<close>

text \<open>\<open>entry(k)\<close>, \<open>and_modify\<close> to nothing unless it is the same value, \<open>or_insert\<close> the value.\<close>

definition record_unique :: "'k::linorder \<times> 'v \<Rightarrow> ('k, 'v option) bmap \<Rightarrow> ('k, 'v option) bmap" where
  "record_unique = (\<lambda>(k, v). bm_entry k (\<lambda>existing.
     case existing of None \<Rightarrow> Some v | Some candidate \<Rightarrow> if candidate \<noteq> Some v then None else candidate))"

definition unique_of :: "('k::linorder \<times> 'v) list \<Rightarrow> ('k, 'v option) bmap" where
  "unique_of kvs = fold record_unique kvs []"

lemma unique_of_snoc: "unique_of (kvs @ [kv]) = record_unique kv (unique_of kvs)"
  by (simp add: unique_of_def)

lemma unique_of_exact: "map_of (unique_of kvs) k =
    (if k \<notin> fst ` set kvs then None else Some (if \<exists>v. {v. (k, v) \<in> set kvs} = {v} then Some (THE v. {v. (k, v) \<in> set kvs} = {v}) else None))"
proof (induction kvs rule: rev_induct)
  case Nil
  then show ?case by (simp add: unique_of_def)
next
  case (snoc kv kvs)
  obtain k' v' where kv: "kv = (k', v')" by fastforce
  show ?case
  proof (cases "k = k'")
    case False
    then show ?thesis using snoc by (simp add: unique_of_snoc kv record_unique_def bm_entry_def)
  next
    case True
    let ?V = "{v. (k, v) \<in> set kvs}"
    have V: "{v. (k, v) \<in> set (kvs @ [kv])} = insert v' ?V" by (auto simp: kv True)
    have none: "?V = {} \<longleftrightarrow> k \<notin> fst ` set kvs" by force
    consider "?V = {}" | v where "?V = {v}" | "?V \<noteq> {}" "\<nexists>v. ?V = {v}" by blast
    then show ?thesis
    proof cases
      case 1
      then show ?thesis using snoc none by (simp add: unique_of_snoc kv record_unique_def bm_entry_def V True)
    next
      case (2 v)
      then have "k \<in> fst ` set kvs" using none by blast
      with snoc 2 have "map_of (unique_of kvs) k = Some (Some v)" by simp
      moreover have "(\<exists>w. insert v' ?V = {w}) \<longleftrightarrow> v = v'" using 2 by auto
      ultimately show ?thesis using 2 V by (auto simp: unique_of_snoc kv record_unique_def bm_entry_def True)
    next
      case 3
      then have "k \<in> fst ` set kvs" using none by blast
      with snoc 3 have "map_of (unique_of kvs) k = Some None" by simp
      moreover have "\<nexists>w. insert v' ?V = {w}" using 3 by (auto simp: subset_singleton_iff insert_eq_iff)
      ultimately show ?thesis using V by (auto simp: unique_of_snoc kv record_unique_def bm_entry_def True)
    qed
  qed
qed

lemma unique_of_Some_iff: "map_of (unique_of kvs) k = Some (Some v) \<longleftrightarrow> {v. (k, v) \<in> set kvs} = {v}"
proof
  assume "map_of (unique_of kvs) k = Some (Some v)"
  then show "{v. (k, v) \<in> set kvs} = {v}" by (auto simp: unique_of_exact split: if_splits)
next
  assume only: "{v. (k, v) \<in> set kvs} = {v}"
  then have "k \<in> fst ` set kvs" by force
  with only show "map_of (unique_of kvs) k = Some (Some v)" by (simp add: unique_of_exact)
qed

section \<open>Modules of a workspace\<close>

definition is_defines :: "observation \<Rightarrow> bool" where
  "is_defines ob \<longleftrightarrow> ob_relation ob = Structural Defines"

definition module_definition :: "observation \<Rightarrow> (string \<times> entity_id) option" where
  "module_definition ob =
     (case rsplit_once ''/elixir/'' (ob_to ob) of
        None \<Rightarrow> None
      | Some (_, name) \<Rightarrow> if CHR ''/'' \<in> set name then None else Some (name, ob_to ob))"

definition workspace_module_definitions :: "observation list \<Rightarrow> (string, entity_id option) bmap" where
  "workspace_module_definitions observations =
     unique_of (List.map_filter module_definition (filter is_defines observations))"

definition resolvable_relation :: "semantic_relation \<Rightarrow> dependency_relation option" where
  "resolvable_relation relation =
     (case relation of
        Dependency r \<Rightarrow> if r \<in> {Implements, Imports, Requires, Uses} then Some r else None
      | Structural _ \<Rightarrow> None)"

definition module_override :: "(string, entity_id option) bmap \<Rightarrow> observation \<Rightarrow> dependency_override option" where
  "module_override definitions ob =
     Option.bind (resolvable_relation (ob_relation ob)) (\<lambda>relation.
     Option.bind (strip_prefix ''elixir-module://'' (ob_to ob)) (\<lambda>name.
     Option.bind (Option.bind (map_of definitions name) id) (\<lambda>target.
       Some \<lparr>do_from = ob_from ob, do_relation = relation, do_unresolved_to = ob_to ob, do_resolved_to = target,
             do_evidence = ob_evidence ob, do_confidence = Exact, do_provenance = Ast\<rparr>)))"

definition resolve_workspace_modules :: "observation list \<Rightarrow> dependency_override list" where
  "resolve_workspace_modules observations =
     List.map_filter (module_override (workspace_module_definitions observations)) observations"

text \<open>Entities for the endpoints that stay unresolved; \<open>unwrap\<close> is the error branch.\<close>

definition unresolved_kind :: "string \<Rightarrow> entity_kind option" where
  "unresolved_kind i =
     (if starts_with i ''elixir-call://'' \<or> starts_with i ''elixir-dynamic-call://'' then Some Callable
      else if starts_with i ''elixir-module://'' \<or> starts_with i ''erlang-module://'' then Some Namespace
      else None)"

definition unresolved_endpoint_entities :: "observation list \<Rightarrow> string + entity_fact list" where
  "unresolved_endpoint_entities observations =
     try_map (\<lambda>(i, kind). entity_fact_new i kind None)
       (bm_of_list (List.map_filter (\<lambda>i. map_option (Pair i) (unresolved_kind i))
          (concat (map (\<lambda>ob. [ob_from ob, ob_to ob]) observations))))"

definition generated_entities :: "observation list \<Rightarrow> string + entity_fact list" where
  "generated_entities observations =
     try_map (\<lambda>ob. entity_fact_new (ob_to ob) Callable None)
       (filter is_defines (filter (\<lambda>ob. ob_provenance ob = Generated) observations))"

section \<open>Dynamic calls\<close>

definition callback_definition :: "observation \<Rightarrow> (string \<times> entity_id) option" where
  "callback_definition ob =
     map_option (\<lambda>signature. (signature, ob_from ob)) (strip_prefix (ob_from ob @ ''/callback/'') (ob_to ob))"

definition callback_owners :: "observation list \<Rightarrow> (string, entity_id option) bmap" where
  "callback_owners observations = unique_of (List.map_filter callback_definition (filter is_defines observations))"

definition definitions_of :: "observation list \<Rightarrow> string bset" where
  "definitions_of observations = bs_of_list (map ob_to (filter is_defines observations))"

definition is_dependency :: "dependency_relation \<Rightarrow> observation \<Rightarrow> bool" where
  "is_dependency relation ob \<longleftrightarrow> ob_relation ob = Dependency relation"

definition used_module :: "observation \<Rightarrow> (entity_id \<times> string) option" where
  "used_module ob = map_option (Pair (ob_from ob)) (strip_prefix ''elixir-module://'' (ob_to ob))"

definition used_modules :: "observation list \<Rightarrow> (entity_id, string bset) bmap" where
  "used_modules observations =
     fold (\<lambda>(caller, used). bmm_add caller used) (List.map_filter used_module (filter (is_dependency Uses) observations)) []"

definition caller_receiver_modules :: "observation list \<Rightarrow> (entity_id, string bset) bmap" where
  "caller_receiver_modules observations =
     fold (\<lambda>(callee, modules). bm_entry callee (\<lambda>receivers. bs_union (case receivers of None \<Rightarrow> [] | Some r \<Rightarrow> r) modules))
       (List.map_filter (\<lambda>ob. map_option (Pair (ob_to ob)) (map_of (used_modules observations) (ob_from ob)))
          (filter (is_dependency Calls) observations)) []"

text \<open>A dynamic call: the receiver's module when the call names one, and the signature.\<close>

definition dynamic_call :: "observation \<Rightarrow> (string option \<times> string) option" where
  "dynamic_call ob =
     Option.bind (strip_prefix ''elixir-dynamic-call://'' (ob_to ob)) (\<lambda>target.
     Option.bind (rsplit_once ''/'' target) (\<lambda>(target, arity).
       Some (case rsplit_once ''/'' target of
               None \<Rightarrow> (None, target @ ''/'' @ arity)
             | Some (receiver, name) \<Rightarrow> (Some receiver, name @ ''/'' @ arity))))"

definition dispatch_target ::
    "observation list \<Rightarrow> string bset \<Rightarrow> entity_id \<Rightarrow> string \<Rightarrow> observation \<Rightarrow> entity_id option" where
  "dispatch_target observations receiver_modules callback_owner signature implementation =
     Option.bind (split_once ''/elixir/'' (ob_from implementation)) (\<lambda>(_, implementation_module).
       if implementation_module \<notin> set receiver_modules then None
       else
         Option.bind (strip_prefix ''elixir-module://'' (ob_to implementation)) (\<lambda>name.
         Option.bind (Option.bind (map_of (workspace_module_definitions observations) name) id) (\<lambda>behaviour.
           if behaviour \<noteq> callback_owner then None
           else
             let target = ob_from implementation @ ''/'' @ signature
             in if target \<in> set (definitions_of observations) then Some target else None)))"

definition receiver_modules_of :: "observation list \<Rightarrow> observation \<Rightarrow> string option \<Rightarrow> string bset option" where
  "receiver_modules_of observations call receiver_module =
     (case receiver_module of
        Some receiver \<Rightarrow> Some [receiver]
      | None \<Rightarrow> map_of (caller_receiver_modules observations) (ob_from call))"

type_synonym dispatch_state = "(entity_id \<times> entity_id) bset \<times> (observation \<times> entity_id) list"

definition offer :: "observation \<Rightarrow> entity_id option \<Rightarrow> dispatch_state \<Rightarrow> dispatch_state" where
  "offer call target = (\<lambda>(seen, candidates).
     case target of
       None \<Rightarrow> (seen, candidates)
     | Some t \<Rightarrow>
         if (ob_from call, t) \<in> set seen then (seen, candidates)
         else (bs_insert (ob_from call, t) seen, candidates @ [(call, t)]))"

definition dispatch_call :: "observation list \<Rightarrow> observation \<Rightarrow> dispatch_state \<Rightarrow> dispatch_state" where
  "dispatch_call observations call state =
     (case dynamic_call call of
        None \<Rightarrow> state
      | Some (receiver_module, signature) \<Rightarrow>
          (case (receiver_modules_of observations call receiver_module, map_of (callback_owners observations) signature) of
             (Some receiver_modules, Some (Some callback_owner)) \<Rightarrow>
               fold (\<lambda>implementation. offer call (dispatch_target observations receiver_modules callback_owner signature implementation))
                 (filter (is_dependency Implements) observations) state
           | _ \<Rightarrow> state))"

definition dynamic_dispatch_candidates :: "observation list \<Rightarrow> (observation \<times> entity_id) list" where
  "dynamic_dispatch_candidates observations =
     snd (fold (dispatch_call observations) (filter (is_dependency Calls) observations) ([], []))"

definition workspace_dynamic_dispatch_observations :: "observation list \<Rightarrow> observation list" where
  "workspace_dynamic_dispatch_observations observations =
     map (\<lambda>(call, target).
            (observation_dependency (ob_from call) Calls target (ob_evidence call))
              \<lparr>ob_confidence := Inferred, ob_provenance := ob_provenance call\<rparr>)
       (dynamic_dispatch_candidates observations)"

section \<open>What a dynamic call may reach\<close>

text \<open>The only definition a name has.\<close>

definition only_module :: "observation list \<Rightarrow> string \<Rightarrow> entity_id \<Rightarrow> bool" where
  "only_module observations name i \<longleftrightarrow>
     {v. \<exists>ob \<in> set observations. is_defines ob \<and> module_definition ob = Some (name, v)} = {i}"

definition only_callback :: "observation list \<Rightarrow> string \<Rightarrow> entity_id \<Rightarrow> bool" where
  "only_callback observations signature i \<longleftrightarrow>
     {v. \<exists>ob \<in> set observations. is_defines ob \<and> callback_definition ob = Some (signature, v)} = {i}"

text \<open>The modules a call may be received by: the one it names, or those a caller of its function uses.\<close>

inductive receives :: "observation list \<Rightarrow> observation \<Rightarrow> string option \<Rightarrow> string \<Rightarrow> bool" for observations where
  named: "receives observations call (Some m) m"
| used: "\<lbrakk>c \<in> set observations; is_dependency Calls c; ob_to c = ob_from call;
          u \<in> set observations; is_dependency Uses u; ob_from u = ob_from c; ob_to u = ''elixir-module://'' @ m\<rbrakk>
         \<Longrightarrow> receives observations call None m"

inductive_simps receives_Some [simp]: "receives observations call (Some m) m'"
inductive_simps receives_None: "receives observations call None m"

text \<open>
  A dynamic call reaches the function with its signature of an implementation of the behaviour that
  declares the callback, when the implementing module may receive the call and defines the function.
\<close>

inductive dispatches :: "observation list \<Rightarrow> observation \<Rightarrow> entity_id \<Rightarrow> bool" for observations where
  "\<lbrakk>dynamic_call call = Some (receiver, signature); only_callback observations signature behaviour;
    implementation \<in> set observations; is_dependency Implements implementation;
    split_once ''/elixir/'' (ob_from implementation) = Some (repository, m); receives observations call receiver m;
    ob_to implementation = ''elixir-module://'' @ name; only_module observations name behaviour;
    ob \<in> set observations; is_defines ob; ob_to ob = ob_from implementation @ ''/'' @ signature\<rbrakk>
   \<Longrightarrow> dispatches observations call (ob_from implementation @ ''/'' @ signature)"

lemma map_filter_set: "set (List.map_filter f xs) = {y. \<exists>x \<in> set xs. f x = Some y}"
  by (force simp: List.map_filter_def)

lemma module_definitions_only: "map_of (workspace_module_definitions observations) name = Some (Some i) \<longleftrightarrow> only_module observations name i"
  by (simp add: workspace_module_definitions_def unique_of_Some_iff only_module_def map_filter_set Bex_def conj_commute conj_left_commute)

lemma callback_owners_only: "map_of (callback_owners observations) signature = Some (Some i) \<longleftrightarrow> only_callback observations signature i"
  by (simp add: callback_owners_def unique_of_Some_iff only_callback_def map_filter_set Bex_def conj_commute conj_left_commute)

lemma used_modules_rel:
  "bmm_rel (used_modules observations)
     = {(c, m). \<exists>u \<in> set observations. is_dependency Uses u \<and> ob_from u = c \<and> ob_to u = ''elixir-module://'' @ m}"
  by (auto simp: used_modules_def bmm.rel_fold bmm.rel_emp map_filter_set used_module_def strip_prefix_Some_iff)

lemma extend_rel:
  "bmm_rel (fold (\<lambda>(k, ms). bm_entry k (\<lambda>e. bs_union (case e of None \<Rightarrow> [] | Some r \<Rightarrow> r) ms)) kvs m)
     = bmm_rel m \<union> {(k, x). \<exists>ms. (k, ms) \<in> set kvs \<and> x \<in> set ms}"
proof (induction kvs arbitrary: m)
  case (Cons kv kvs)
  obtain k ms where kv: "kv = (k, ms)" by fastforce
  have "bmm_rel (bm_entry k (\<lambda>e. bs_union (case e of None \<Rightarrow> [] | Some r \<Rightarrow> r) ms) m) = bmm_rel m \<union> {k} \<times> set ms"
    by (auto simp: bmm_rel_def bmm_get_def bm_entry_def split: option.splits if_splits)
  with Cons.IH show ?case by (auto simp: kv)
qed simp

lemma bmm_rel_lookup: "(k, x) \<in> bmm_rel m \<longleftrightarrow> (\<exists>xs. map_of m k = Some xs \<and> x \<in> set xs)"
  by (cases "map_of m k") (simp_all add: bmm_rel_def bmm_get_def)

lemma receiver_modules_rel:
  "bmm_rel (caller_receiver_modules observations)
     = {(callee, m). \<exists>c \<in> set observations. is_dependency Calls c \<and> ob_to c = callee \<and> (ob_from c, m) \<in> bmm_rel (used_modules observations)}"
  by (auto simp: caller_receiver_modules_def extend_rel bmm.rel_emp map_filter_set bmm_rel_lookup)

lemma receivers_exact:
  "receives observations call receiver m \<longleftrightarrow>
     (\<exists>ms. receiver_modules_of observations call receiver = Some ms \<and> m \<in> set ms)"
proof (cases receiver)
  case None
  have "(\<exists>ms. map_of (caller_receiver_modules observations) (ob_from call) = Some ms \<and> m \<in> set ms)
      \<longleftrightarrow> (ob_from call, m) \<in> bmm_rel (caller_receiver_modules observations)"
    by (simp add: bmm_rel_lookup)
  then show ?thesis by (auto simp: None receiver_modules_of_def receives_None receiver_modules_rel used_modules_rel)
qed (auto simp: receiver_modules_of_def)

lemma set_definitions_of: "t \<in> set (definitions_of observations) \<longleftrightarrow> (\<exists>ob \<in> set observations. is_defines ob \<and> ob_to ob = t)"
  by (auto simp: definitions_of_def)

lemma dispatch_target_Some_iff:
  "dispatch_target observations ms behaviour signature implementation = Some t \<longleftrightarrow>
     t = ob_from implementation @ ''/'' @ signature
     \<and> (\<exists>repository m. split_once ''/elixir/'' (ob_from implementation) = Some (repository, m) \<and> m \<in> set ms)
     \<and> (\<exists>name. ob_to implementation = ''elixir-module://'' @ name \<and> only_module observations name behaviour)
     \<and> (\<exists>ob \<in> set observations. is_defines ob \<and> ob_to ob = t)"
  by (auto simp: dispatch_target_def bind_eq_Some_conv strip_prefix_Some_iff set_definitions_of Let_def module_definitions_only
      split: if_splits)

definition reached :: "(observation \<times> entity_id) list \<Rightarrow> (entity_id \<times> entity_id) list" where
  "reached candidates = map (\<lambda>(call, target). (ob_from call, target)) candidates"

definition dispatch_wf :: "dispatch_state \<Rightarrow> bool" where
  "dispatch_wf state \<longleftrightarrow> set (fst state) = set (reached (snd state)) \<and> distinct (reached (snd state))"

lemma offer_wf: "dispatch_wf state \<Longrightarrow> dispatch_wf (offer call target state)"
  by (cases state) (auto simp: dispatch_wf_def offer_def reached_def split: option.splits)

lemma offer_reached:
  "dispatch_wf state \<Longrightarrow> set (reached (snd (offer call target state))) = set (reached (snd state)) \<union> {(ob_from call, t) | t. target = Some t}"
  by (cases state) (auto simp: dispatch_wf_def offer_def reached_def split: option.splits)

lemma offers_reached:
  "dispatch_wf state \<Longrightarrow>
     dispatch_wf (fold (\<lambda>i. offer call (f i)) is state)
     \<and> set (reached (snd (fold (\<lambda>i. offer call (f i)) is state))) = set (reached (snd state)) \<union> {(ob_from call, t) | t. \<exists>i \<in> set is. f i = Some t}"
proof (induction "is" arbitrary: state)
  case (Cons i "is")
  from Cons.IH [OF offer_wf [OF Cons.prems]] offer_reached [OF Cons.prems] show ?case by auto
qed simp

lemma dispatch_call_reached:
  assumes "dispatch_wf state"
  shows "dispatch_wf (dispatch_call observations call state)
    \<and> set (reached (snd (dispatch_call observations call state)))
      = set (reached (snd state)) \<union> {(ob_from call, t) | t. dispatches observations call t}"
proof -
  show ?thesis
  proof (cases "\<exists>receiver signature ms behaviour. dynamic_call call = Some (receiver, signature)
      \<and> receiver_modules_of observations call receiver = Some ms \<and> map_of (callback_owners observations) signature = Some (Some behaviour)")
    case True
    then obtain receiver signature ms behaviour where call: "dynamic_call call = Some (receiver, signature)"
      "receiver_modules_of observations call receiver = Some ms" "only_callback observations signature behaviour"
      by (auto simp: callback_owners_only)
    have only: "only_callback observations signature b \<longleftrightarrow> b = behaviour" for b using call(3) by (auto simp: only_callback_def)
    have receivers: "receives observations call receiver m \<longleftrightarrow> m \<in> set ms" for m by (simp add: receivers_exact call(2))
    let ?target = "dispatch_target observations ms behaviour signature"
    have "dispatches observations call t \<longleftrightarrow> (\<exists>i \<in> set (filter (is_dependency Implements) observations). ?target i = Some t)" for t
      by (auto simp: dispatches.simps dispatch_target_Some_iff call(1) only receivers) blast
    moreover have "dispatch_call observations call state = fold (\<lambda>i. offer call (?target i)) (filter (is_dependency Implements) observations) state"
      using call by (simp add: dispatch_call_def callback_owners_only [symmetric])
    ultimately show ?thesis using offers_reached [OF assms, of call ?target] by (simp only:)
  next
    case False
    then have "dispatch_call observations call state = state" 
      by (auto simp: dispatch_call_def split: option.splits)
    moreover have "\<not> dispatches observations call t" for t
      using False by (auto simp: dispatches.simps callback_owners_only receivers_exact)
    ultimately show ?thesis using assms by simp
  qed
qed

lemma dispatch_calls_reached:
  assumes "dispatch_wf state"
  shows "dispatch_wf (fold (dispatch_call observations) calls state)
    \<and> set (reached (snd (fold (dispatch_call observations) calls state)))
      = set (reached (snd state)) \<union> {(ob_from call, t) | call t. call \<in> set calls \<and> dispatches observations call t}"
  using assms
proof (induction calls arbitrary: state)
  case (Cons call calls)
  from dispatch_call_reached [OF Cons.prems] Cons.IH [of "dispatch_call observations call state"] show ?case by auto
qed simp

text \<open>
  C33. The dynamic calls of a workspace resolve to exactly the calls the specification \<open>dispatches\<close> allows,
  each pair of caller and target once, as inferred calls.
\<close>

theorem dynamic_dispatch_exact:
  "(\<lambda>ob. (ob_from ob, ob_to ob)) ` set (workspace_dynamic_dispatch_observations observations)
      = {(ob_from call, t) | call t. call \<in> set observations \<and> is_dependency Calls call \<and> dispatches observations call t}
    \<and> distinct (map (\<lambda>ob. (ob_from ob, ob_to ob)) (workspace_dynamic_dispatch_observations observations))
    \<and> (\<lambda>ob. (ob_relation ob, ob_confidence ob)) ` set (workspace_dynamic_dispatch_observations observations)
      \<subseteq> {(Dependency Calls, Inferred)}"
proof -
  let ?dispatched = "workspace_dynamic_dispatch_observations observations"
  have wf: "dispatch_wf ([], [])" by (simp add: dispatch_wf_def reached_def)
  have "map (\<lambda>ob. (ob_from ob, ob_to ob)) ?dispatched = reached (dynamic_dispatch_candidates observations)"
    by (simp add: workspace_dynamic_dispatch_observations_def reached_def observation_dependency_def case_prod_unfold)
  moreover from this have "(\<lambda>ob. (ob_from ob, ob_to ob)) ` set ?dispatched = set (reached (dynamic_dispatch_candidates observations))"
    by (metis set_map)
  moreover have "(\<lambda>ob. (ob_relation ob, ob_confidence ob)) ` set ?dispatched \<subseteq> {(Dependency Calls, Inferred)}"
    by (auto simp: workspace_dynamic_dispatch_observations_def observation_dependency_def)
  ultimately show ?thesis
    using dispatch_calls_reached [OF wf, of observations "filter (is_dependency Calls) observations"]
    by (auto simp: dynamic_dispatch_candidates_def dispatch_wf_def reached_def)
qed

section \<open>Module references and what stays unresolved\<close>

lemma module_override_Some_iff:
  "module_override (workspace_module_definitions observations) ob = Some ov \<longleftrightarrow>
     (\<exists>relation name target. resolvable_relation (ob_relation ob) = Some relation \<and> ob_to ob = ''elixir-module://'' @ name
        \<and> only_module observations name target
        \<and> ov = \<lparr>do_from = ob_from ob, do_relation = relation, do_unresolved_to = ob_to ob, do_resolved_to = target,
                 do_evidence = ob_evidence ob, do_confidence = Exact, do_provenance = Ast\<rparr>)"
  by (auto simp: module_override_def bind_eq_Some_conv strip_prefix_Some_iff module_definitions_only)

text \<open>
  A module reference of a workspace is overridden exactly when one module definition has the name
  it refers to, and then by that definition.
\<close>

theorem module_resolution_exact:
  "(\<lambda>ov. (do_from ov, do_relation ov, do_unresolved_to ov, do_resolved_to ov)) ` set (resolve_workspace_modules observations)
     = {(ob_from ob, relation, ob_to ob, target) | ob relation name target.
          ob \<in> set observations \<and> resolvable_relation (ob_relation ob) = Some relation
          \<and> ob_to ob = ''elixir-module://'' @ name \<and> only_module observations name target}"
  unfolding resolve_workspace_modules_def map_filter_set module_override_Some_iff by force

lemma entity_fact_new_plain: "kind \<in> {Callable, Namespace} \<Longrightarrow> entity_fact_new i kind None = Inr \<lparr>ef_id = i, ef_kind = kind, ef_metadata = None\<rparr>"
  by (auto simp: entity_fact_new_def metadata_matches_kind_def)

text \<open>Neither \<open>unwrap\<close> can panic.\<close>

lemma generated_entities_total: "\<exists>entities. generated_entities observations = Inr entities"
  unfolding generated_entities_def by (rule exI, rule try_map_all, rule entity_fact_new_plain) simp

lemma unresolved_kind_plain: "unresolved_kind i = Some kind \<Longrightarrow> kind \<in> {Callable, Namespace}"
  by (auto simp: unresolved_kind_def split: if_splits)

lemma set_bm_of_list: "set (bm_of_list kvs) \<subseteq> set kvs"
proof -
  have "set (bm_put k v m) \<subseteq> insert (k, v) (set m)" for k :: 'a and v :: 'b and m
    by (induction m) (auto split: if_splits)
  then have "set (fold (\<lambda>(k, v). bm_put k v) kvs m) \<subseteq> set kvs \<union> set m" for m
    by (induction kvs arbitrary: m) (simp, fastforce)
  from this [of "[]"] show ?thesis by (simp add: bm_of_list_def)
qed

lemma unresolved_endpoint_entities_total: "\<exists>entities. unresolved_endpoint_entities observations = Inr entities"
proof -
  let ?ids = "List.map_filter (\<lambda>i. map_option (Pair i) (unresolved_kind i)) (concat (map (\<lambda>ob. [ob_from ob, ob_to ob]) observations))"
  have "entity_fact_new (fst x) (snd x) None = Inr \<lparr>ef_id = fst x, ef_kind = snd x, ef_metadata = None\<rparr>" if "x \<in> set (bm_of_list ?ids)" for x
  proof (rule entity_fact_new_plain)
    from that set_bm_of_list have "x \<in> set ?ids" by blast
    then show "snd x \<in> {Callable, Namespace}" unfolding map_filter_set by (auto dest: unresolved_kind_plain)
  qed
  then have "try_map (\<lambda>x. entity_fact_new (fst x) (snd x) None) (bm_of_list ?ids)
      = Inr (map (\<lambda>x. \<lparr>ef_id = fst x, ef_kind = snd x, ef_metadata = None\<rparr>) (bm_of_list ?ids))" by (rule try_map_all)
  then show ?thesis by (simp add: unresolved_endpoint_entities_def case_prod_unfold)
qed

section \<open>An example\<close>

text \<open>A handler calls \<open>run/1\<close> of whatever module it is given; one caller hands it \<open>Impl\<close>, which implements \<open>Job\<close>.\<close>

definition example_observation :: "entity_id \<Rightarrow> semantic_relation \<Rightarrow> entity_id \<Rightarrow> observation" where
  "example_observation source relation target =
     \<lparr>ob_from = source, ob_relation = relation, ob_to = target, ob_evidence = ''a.ex:1'', ob_confidence = Exact, ob_provenance = Ast\<rparr>"

definition example_workspace_observations :: "observation list" where
  "example_workspace_observations =
     [example_observation ''f'' (Structural Defines) ''repo://a/elixir/Job'',
      example_observation ''repo://a/elixir/Job'' (Structural Defines) ''repo://a/elixir/Job/callback/run/1'',
      example_observation ''repo://b/elixir/Impl'' (Dependency Implements) ''elixir-module://Job'',
      example_observation ''repo://b/elixir/Impl'' (Structural Defines) ''repo://b/elixir/Impl/run/1'',
      example_observation ''repo://b/elixir/Main/go/0'' (Dependency Uses) ''elixir-module://Impl'',
      example_observation ''repo://b/elixir/Main/go/0'' (Dependency Calls) ''repo://a/elixir/Runner/handle/1'',
      example_observation ''repo://a/elixir/Runner/handle/1'' (Dependency Calls) ''elixir-dynamic-call://run/1'']"

lemma example_dispatch:
  "map (\<lambda>ob. (ob_from ob, ob_to ob)) (workspace_dynamic_dispatch_observations example_workspace_observations)
     = [(''repo://a/elixir/Runner/handle/1'', ''repo://b/elixir/Impl/run/1'')]"
  by code_simp

end
