(* ===== verification/Analyzer_Plan.thy ===== *)
theory Analyzer_Plan imports Analysis_Identity Domain_Dependency "HOL-Library.Multiset" begin

text \<open>
  Plugins and plans of \<open>crates/indexing/src/lib.rs\<close>: the descriptor a runtime plugin declares and its
  validation at the process boundary, the builder that installs plugins into a language analyzer, what
  an active plugin contributes, and the plan an analyzer prepares for each repository. What a plugin
  does is a parameter: functions held by the records. A panic (\<open>expect\<close>) is \<open>None\<close>.
\<close>

section \<open>Runtime plugins\<close>

definition path_file_name :: "path \<Rightarrow> string option" where
  "path_file_name p = (if p \<noteq> [] \<and> fst (last p) = 4 then Some (snd (last p)) else None)"

definition path_extension :: "path \<Rightarrow> string option" where
  "path_extension p =
     Option.bind (path_file_name p) (\<lambda>name.
       case rsplit_once ''.'' name of
         None \<Rightarrow> None
       | Some (stem, extension) \<Rightarrow> if stem = [] then None else Some extension)"

datatype plugin_input_scope = TargetScope | ContextScope
datatype plugin_path_matcher = Extension string | FileName string | PathSuffix string

fun plugin_path_matches :: "plugin_path_matcher \<Rightarrow> path \<Rightarrow> bool" where
  "plugin_path_matches (Extension extension) p \<longleftrightarrow> path_extension p = Some extension"
| "plugin_path_matches (FileName name) p \<longleftrightarrow> path_file_name p = Some name"
| "plugin_path_matches (PathSuffix end) p \<longleftrightarrow> suffix (path_components end) p"

definition one_segment :: "string \<Rightarrow> bool" where
  "one_segment value \<longleftrightarrow> value \<noteq> [] \<and> CHR ''/'' \<notin> set value \<and> CHR 0x5C \<notin> set value"

fun matcher_valid :: "plugin_path_matcher \<Rightarrow> bool" where
  "matcher_valid (Extension value) \<longleftrightarrow> one_segment value"
| "matcher_valid (FileName value) \<longleftrightarrow> one_segment value"
| "matcher_valid (PathSuffix value) \<longleftrightarrow>
     value \<noteq> [] \<and> \<not> starts_with value ''/'' \<and> \<not> list_ex (\<lambda>c. fst c = 3) (path_components value)"

definition matcher_validate :: "plugin_path_matcher \<Rightarrow> string + unit" where
  "matcher_validate matcher = (if matcher_valid matcher then Inr () else Inl ''plugin input selector is invalid'')"

record plugin_input_selector =
  pis_scope :: plugin_input_scope
  pis_matcher :: plugin_path_matcher
  pis_kind :: analysis_input_kind

record plugin_descriptor =
  pd_id :: string
  pd_api_version :: nat
  pd_inputs :: "plugin_input_selector list"
  pd_semantic_entities :: "entity_kind list"
  pd_semantic_relations :: "semantic_relation list"
  pd_produces_entities :: "entity_kind list"
  pd_produces_relations :: "semantic_relation list"

definition PLUGIN_API_VERSION :: nat where
  "PLUGIN_API_VERSION = 1"

definition ascii_alphanumeric :: "char \<Rightarrow> bool" where
  "ascii_alphanumeric c \<longleftrightarrow> c \<in> set ''abcdefghijklmnopqrstuvwxyz0123456789''"

definition plugin_id_rejected :: "string \<Rightarrow> bool" where
  "plugin_id_rejected name \<longleftrightarrow>
     name = [] \<or> length name > 64 \<or> \<not> list_all (\<lambda>c. (of_char c :: nat) < 128) name
     \<or> \<not> list_all (\<lambda>c. ascii_alphanumeric c \<or> c \<in> set ''-_.'') name
     \<or> \<not> (case name of [] \<Rightarrow> False | c # _ \<Rightarrow> ascii_alphanumeric c)"

definition descriptor_validate :: "plugin_descriptor \<Rightarrow> string + unit" where
  "descriptor_validate d =
     (if plugin_id_rejected (pd_id d)
      then Inl (''plugin ID must be 1-64 lowercase ASCII letters, digits, '-', '_', or '.'' @ [CHR 0x27])
      else if pd_api_version d \<noteq> PLUGIN_API_VERSION
      then Inl (''unsupported plugin API version '' @ nat_str (pd_api_version d) @ ''; expected '' @ nat_str PLUGIN_API_VERSION)
      else if \<not> list_ex (\<lambda>input. pis_scope input = TargetScope) (pd_inputs d)
      then Inl ''plugin must declare at least one target input selector''
      else try_fold (\<lambda>input _. matcher_validate (pis_matcher input)) (pd_inputs d) ())"

definition descriptor_input_kind :: "plugin_descriptor \<Rightarrow> plugin_input_scope \<Rightarrow> path \<Rightarrow> analysis_input_kind option" where
  "descriptor_input_kind d scope p =
     map_option pis_kind
       (List.find (\<lambda>input. pis_scope input = scope \<and> plugin_path_matches (pis_matcher input) p) (pd_inputs d))"

lemma validate_matchers:
  "try_fold (\<lambda>input _. matcher_validate (pis_matcher input)) inputs () =
     (if list_all (matcher_valid \<circ> pis_matcher) inputs then Inr () else Inl ''plugin input selector is invalid'')"
  by (induction inputs) (simp_all add: matcher_validate_def)

section \<open>Language analyzers\<close>

record plugin_activation =
  pa_path :: string
  pa_reason :: string

record active_plugin =
  ap_metadata :: analyzer_metadata
  ap_activation :: plugin_activation

type_synonym active_plugins = "(string, active_plugin) bmap"

definition active_plugins_identity :: "active_plugins \<Rightarrow> string" where
  "active_plugins_identity active =
     encode_identity (map (\<lambda>(_, p). (am_id (ap_metadata p), am_version (ap_metadata p))) active)"

definition plugin_active :: "active_plugins \<Rightarrow> string \<Rightarrow> bool" where
  "plugin_active active name \<longleftrightarrow> map_of active name \<noteq> None"

record repository_enrichment =
  re_entities :: "entity_fact list"
  re_grpc_bindings :: "grpc_binding_candidate list"
  re_observations :: "observation list"
  re_diagnostics :: "analysis_diagnostic list"

type_synonym ('i, 'a) source_recognizer = "'i \<Rightarrow> 'a \<Rightarrow> string + 'a"
type_synonym 'r repository_enricher = "'r \<Rightarrow> entity_fact list \<times> observation list \<Rightarrow> string + repository_enrichment"

datatype ('i, 'a, 'r) installation = Recognizer "('i, 'a) source_recognizer" | Enricher "'r repository_enricher"

record ('i, 'a, 'r) plugin =
  pg_metadata :: analyzer_metadata
  pg_activate :: "repository_snapshot \<Rightarrow> plugin_activation option"
  pg_install :: "('i, 'a, 'r) installation list"

record ('i, 'a, 'r) language_builder =
  lb_plugins :: "('i, 'a, 'r) plugin list"
  lb_source_recognizers :: "(analyzer_metadata \<times> ('i, 'a) source_recognizer) list"
  lb_repository_enrichers :: "(analyzer_metadata \<times> 'r repository_enricher) list"
  lb_installing :: "analyzer_metadata option"

definition new_builder :: "('i, 'a, 'r) language_builder" where
  "new_builder = \<lparr>lb_plugins = [], lb_source_recognizers = [], lb_repository_enrichers = [], lb_installing = None\<rparr>"

fun install :: "('i, 'a, 'r) installation \<Rightarrow> ('i, 'a, 'r) language_builder \<Rightarrow> ('i, 'a, 'r) language_builder option" where
  "install (Recognizer r) b =
     map_option (\<lambda>m. b\<lparr>lb_source_recognizers := lb_source_recognizers b @ [(m, r)]\<rparr>) (lb_installing b)"
| "install (Enricher e) b =
     map_option (\<lambda>m. b\<lparr>lb_repository_enrichers := lb_repository_enrichers b @ [(m, e)]\<rparr>) (lb_installing b)"

fun install_all :: "('i, 'a, 'r) installation list \<Rightarrow> ('i, 'a, 'r) language_builder \<Rightarrow> ('i, 'a, 'r) language_builder option" where
  "install_all [] b = Some b"
| "install_all (x # xs) b = Option.bind (install x b) (install_all xs)"

definition add_plugin :: "('i, 'a, 'r) plugin \<Rightarrow> ('i, 'a, 'r) language_builder \<Rightarrow> ('i, 'a, 'r) language_builder option" where
  "add_plugin plugin b =
     map_option (\<lambda>b. b\<lparr>lb_installing := None, lb_plugins := lb_plugins b @ [plugin]\<rparr>)
       (install_all (pg_install plugin) (b\<lparr>lb_installing := Some (pg_metadata plugin)\<rparr>))"

fun add_plugins :: "('i, 'a, 'r) plugin list \<Rightarrow> ('i, 'a, 'r) language_builder \<Rightarrow> ('i, 'a, 'r) language_builder option" where
  "add_plugins [] b = Some b"
| "add_plugins (p # ps) b = Option.bind (add_plugin p b) (add_plugins ps)"

record ('i, 'a, 'r) language_analyzer =
  la_plugins :: "('i, 'a, 'r) plugin list"
  la_source_recognizers :: "(analyzer_metadata \<times> ('i, 'a) source_recognizer) list"
  la_repository_enrichers :: "(analyzer_metadata \<times> 'r repository_enricher) list"

text \<open>\<open>windows(2).find(..)\<close>: the first of two neighbours with one key.\<close>

fun window_duplicate :: "('x \<Rightarrow> 'k) \<Rightarrow> 'x list \<Rightarrow> 'x option" where
  "window_duplicate key (x # y # xs) = (if key x = key y then Some x else window_duplicate key (y # xs))"
| "window_duplicate key xs = None"

definition plugin_id :: "('i, 'a, 'r) plugin \<Rightarrow> string" where
  "plugin_id p = am_id (pg_metadata p)"

definition build_language_analyzer :: "('i, 'a, 'r) language_builder \<Rightarrow> string + ('i, 'a, 'r) language_analyzer" where
  "build_language_analyzer b =
     (let plugins = sort_key plugin_id (lb_plugins b) in
      case window_duplicate plugin_id plugins of
        Some duplicate \<Rightarrow> Inl (''duplicate plugin identity '' @ plugin_id duplicate)
      | None \<Rightarrow> Inr \<lparr>la_plugins = plugins,
                     la_source_recognizers = sort_key (am_id \<circ> fst) (lb_source_recognizers b),
                     la_repository_enrichers = sort_key (am_id \<circ> fst) (lb_repository_enrichers b)\<rparr>)"


definition plugins_identity :: "('i, 'a, 'r) language_analyzer \<Rightarrow> string" where
  "plugins_identity la =
     encode_identity (map (\<lambda>p. (am_id (pg_metadata p), am_version (pg_metadata p))) (la_plugins la))"

definition activate :: "('i, 'a, 'r) language_analyzer \<Rightarrow> repository_snapshot \<Rightarrow> bool \<Rightarrow> active_plugins" where
  "activate la repository has_language_inputs =
     (if \<not> has_language_inputs then []
      else bm_of_list (List.map_filter (\<lambda>p.
             map_option (\<lambda>activation. (plugin_id p, \<lparr>ap_metadata = pg_metadata p, ap_activation = activation\<rparr>))
               (pg_activate p repository)) (la_plugins la)))"

definition activate_direct :: "('i, 'a, 'r) language_analyzer \<Rightarrow> string \<Rightarrow> active_plugins" where
  "activate_direct la p =
     bm_of_list (map (\<lambda>plugin. (plugin_id plugin,
       \<lparr>ap_metadata = pg_metadata plugin, ap_activation = \<lparr>pa_path = p, pa_reason = ''direct source analysis''\<rparr>\<rparr>))
       (la_plugins la))"

definition source_identity :: "('i, 'a, 'r) language_analyzer \<Rightarrow> active_plugins \<Rightarrow> string" where
  "source_identity la active =
     encode_identity (map (\<lambda>(m, _). (am_id m, am_version m))
       (filter (\<lambda>(m, _). plugin_active active (am_id m)) (la_source_recognizers la)))"

record analyzer_repository_plan =
  ar_repository :: string
  ar_analysis :: analyzer_metadata
  ar_source_plugins :: string
  ar_active_plugins :: active_plugins

definition plugged_version :: "string \<Rightarrow> string \<Rightarrow> string" where
  "plugged_version version plugins = (if plugins = [] then version else framed version @ framed plugins)"

definition prepare_repository ::
    "('i, 'a, 'r) language_analyzer \<Rightarrow> analyzer_metadata \<Rightarrow> repository_snapshot \<Rightarrow> bool \<Rightarrow> bool \<Rightarrow> analyzer_repository_plan option" where
  "prepare_repository la analyzer repository analyzer_active has_language_inputs =
     (if \<not> analyzer_active then None
      else let active = activate la repository has_language_inputs in
           Some \<lparr>ar_repository = rs_identity (rp_state repository),
                 ar_analysis = \<lparr>am_id = am_id analyzer,
                               am_version = plugged_version (am_version analyzer) (active_plugins_identity active)\<rparr>,
                 ar_source_plugins = source_identity la active,
                 ar_active_plugins = active\<rparr>)"

definition recognize :: "('i, 'a, 'r) language_analyzer \<Rightarrow> 'i \<Rightarrow> active_plugins \<Rightarrow> 'a \<Rightarrow> string + 'a" where
  "recognize la input active =
     try_fold (\<lambda>(m, recognizer) analysis. if \<not> plugin_active active (am_id m) then Inr analysis else recognizer input analysis)
       (la_source_recognizers la)"

text \<open>\<open>extend_unique\<close>: what is not there yet is appended, in order.\<close>

definition extend_unique :: "'x list \<Rightarrow> 'x list \<Rightarrow> 'x list" where
  "extend_unique target source = fold (\<lambda>value target. if value \<in> set target then target else target @ [value]) source target"

definition merge_enrichment :: "repository_enrichment \<Rightarrow> repository_enrichment \<Rightarrow> repository_enrichment" where
  "merge_enrichment merged contribution =
     \<lparr>re_entities = extend_unique (re_entities merged) (re_entities contribution),
      re_grpc_bindings = extend_unique (re_grpc_bindings merged) (re_grpc_bindings contribution),
      re_observations = extend_unique (re_observations merged) (re_observations contribution),
      re_diagnostics = extend_unique (re_diagnostics merged) (re_diagnostics contribution)\<rparr>"

definition no_enrichment :: repository_enrichment where
  "no_enrichment = \<lparr>re_entities = [], re_grpc_bindings = [], re_observations = [], re_diagnostics = []\<rparr>"

definition enrich_repository ::
    "('i, 'a, 'r) language_analyzer \<Rightarrow> 'r \<Rightarrow> entity_fact list \<times> observation list \<Rightarrow> active_plugins \<Rightarrow> string + repository_enrichment" where
  "enrich_repository la repository base active =
     try_fold (\<lambda>(m, enricher) merged.
       if \<not> plugin_active active (am_id m) then Inr merged
       else rbind (enricher repository base) (\<lambda>contribution. Inr (merge_enrichment merged contribution)))
       (la_repository_enrichers la) no_enrichment"

section \<open>Plans\<close>

record workspace_snapshot =
  wn_name :: string
  wn_repositories :: "repository_snapshot list"

record analyzer_analysis =
  cz_entities :: "entity_fact list"
  cz_observations :: "observation list"
  cz_fact_shards :: "fact_shard list"

record analyzer_plan =
  az_analyzer :: analyzer_metadata
  az_repositories :: "(string, analyzer_repository_plan) bmap"
  az_cached_repositories :: "(string, analyzer_analysis) bmap"

definition plan_without_plugins :: "analyzer_metadata \<Rightarrow> workspace_snapshot \<Rightarrow> (repository_snapshot \<Rightarrow> bool) \<Rightarrow> analyzer_plan" where
  "plan_without_plugins analyzer snapshot is_active =
     \<lparr>az_analyzer = analyzer,
      az_repositories = bm_of_list (map (\<lambda>r. (rs_identity (rp_state r),
        \<lparr>ar_repository = rs_identity (rp_state r), ar_analysis = analyzer, ar_source_plugins = [], ar_active_plugins = []\<rparr>))
        (filter is_active (wn_repositories snapshot))),
      az_cached_repositories = []\<rparr>"

definition plan_from_repositories :: "analyzer_metadata \<Rightarrow> analyzer_repository_plan list \<Rightarrow> analyzer_plan" where
  "plan_from_repositories analyzer repositories =
     \<lparr>az_analyzer = analyzer, az_repositories = bm_of_list (map (\<lambda>r. (ar_repository r, r)) repositories),
      az_cached_repositories = []\<rparr>"

definition plan_repository :: "analyzer_plan \<Rightarrow> string \<Rightarrow> analyzer_repository_plan option" where
  "plan_repository plan repository = map_of (az_repositories plan) repository"

definition cached_repository :: "analyzer_plan \<Rightarrow> string \<Rightarrow> (entity_fact list \<times> observation list) option" where
  "cached_repository plan repository =
     map_option (\<lambda>a. (cz_entities a, cz_observations a)) (map_of (az_cached_repositories plan) repository)"

definition cached_fact_shards :: "analyzer_plan \<Rightarrow> string \<Rightarrow> fact_shard list option" where
  "cached_fact_shards plan repository = map_option cz_fact_shards (map_of (az_cached_repositories plan) repository)"

definition cache_repository :: "string \<Rightarrow> analyzer_analysis \<Rightarrow> analyzer_plan \<Rightarrow> analyzer_plan" where
  "cache_repository repository analysis plan =
     plan\<lparr>az_cached_repositories := bm_put repository analysis (az_cached_repositories plan)\<rparr>"

section \<open>Lists without repetition\<close>

lemma extend_unique_simps [simp]:
  "extend_unique target [] = target"
  "extend_unique target (x # xs) = (if x \<in> set target then extend_unique target xs else extend_unique (target @ [x]) xs)"
  by (simp_all add: extend_unique_def)

lemma extend_unique_append: "extend_unique target (xs @ ys) = extend_unique (extend_unique target xs) ys"
  by (simp add: extend_unique_def)

lemma set_extend_unique [simp]: "set (extend_unique target xs) = set target \<union> set xs"
  by (induction xs arbitrary: target) auto

lemma distinct_extend_unique [simp]: "distinct (extend_unique target xs) = distinct target"
  by (induction xs arbitrary: target) auto

lemma extend_unique_subset: "set xs \<subseteq> set target \<Longrightarrow> extend_unique target xs = target"
  by (induction xs arbitrary: target) auto

lemma fold_extend_unique: "fold (\<lambda>ys acc. extend_unique acc ys) yss target = extend_unique target (concat yss)"
  by (induction yss arbitrary: target) (simp_all add: extend_unique_append)

text \<open>The first occurrence of each value is kept.\<close>

lemma extend_unique_remdups:
  assumes "distinct target"
  shows "extend_unique target xs = rev (remdups (rev (target @ xs)))"
proof (induction xs rule: rev_induct)
  case Nil
  show ?case using assms by (simp add: distinct_remdups_id)
next
  case (snoc x xs)
  then show ?case by (simp add: extend_unique_append)
qed


section \<open>What a builder builds\<close>

definition installed_recognizers :: "('i, 'a, 'r) plugin \<Rightarrow> (analyzer_metadata \<times> ('i, 'a) source_recognizer) list" where
  "installed_recognizers p =
     List.map_filter (\<lambda>i. case i of Recognizer r \<Rightarrow> Some (pg_metadata p, r) | Enricher _ \<Rightarrow> None) (pg_install p)"

definition installed_enrichers :: "('i, 'a, 'r) plugin \<Rightarrow> (analyzer_metadata \<times> 'r repository_enricher) list" where
  "installed_enrichers p =
     List.map_filter (\<lambda>i. case i of Enricher e \<Rightarrow> Some (pg_metadata p, e) | Recognizer _ \<Rightarrow> None) (pg_install p)"

definition language_analyzer_of :: "('i, 'a, 'r) plugin list \<Rightarrow> ('i, 'a, 'r) language_analyzer" where
  "language_analyzer_of plugins =
     \<lparr>la_plugins = plugins, la_source_recognizers = concat (map installed_recognizers plugins),
      la_repository_enrichers = concat (map installed_enrichers plugins)\<rparr>"

lemma install_all_installing:
  "lb_installing b = Some m \<Longrightarrow>
     install_all xs b = Some (b
       \<lparr>lb_source_recognizers := lb_source_recognizers b @
          List.map_filter (\<lambda>i. case i of Recognizer r \<Rightarrow> Some (m, r) | Enricher _ \<Rightarrow> None) xs,
        lb_repository_enrichers := lb_repository_enrichers b @
          List.map_filter (\<lambda>i. case i of Enricher e \<Rightarrow> Some (m, e) | Recognizer _ \<Rightarrow> None) xs\<rparr>)"
proof (induction xs arbitrary: b)
  case (Cons x xs)
  then show ?case by (cases x) (simp_all add: map_filter_simps)
qed (simp add: map_filter_simps)

lemma add_plugin_effect:
  "add_plugin p b = Some
     \<lparr>lb_plugins = lb_plugins b @ [p], lb_source_recognizers = lb_source_recognizers b @ installed_recognizers p,
      lb_repository_enrichers = lb_repository_enrichers b @ installed_enrichers p, lb_installing = None\<rparr>"
  by (simp add: add_plugin_def install_all_installing installed_recognizers_def installed_enrichers_def)

lemma add_plugins_effect:
  "lb_installing b = None \<Longrightarrow> add_plugins ps b = Some
     \<lparr>lb_plugins = lb_plugins b @ ps, lb_source_recognizers = lb_source_recognizers b @ concat (map installed_recognizers ps),
      lb_repository_enrichers = lb_repository_enrichers b @ concat (map installed_enrichers ps), lb_installing = None\<rparr>"
  by (induction ps arbitrary: b) (simp_all add: add_plugin_effect)

lemma window_duplicate_None_iff: "sorted (map key xs) \<Longrightarrow> window_duplicate key xs = None \<longleftrightarrow> distinct (map key xs)"
  by (induction key xs rule: window_duplicate.induct) (auto simp: less_le dest: antisym)

lemma window_duplicate_cong: "map key xs = map key ys \<Longrightarrow> map_option key (window_duplicate key xs) = map_option key (window_duplicate key ys)"
proof (induction key xs arbitrary: ys rule: window_duplicate.induct)
  case (1 key x y xs)
  then obtain a b zs where "ys = a # b # zs" by (cases ys; cases "tl ys") auto
  with 1 show ?case by auto
next
  fix key v ys
  assume "map key [v] = map key ys"
  then show "map_option key (window_duplicate key [v]) = map_option key (window_duplicate key ys)" by (cases ys) auto
qed simp

lemma filter_concat_key:
  assumes "\<And>p y. y \<in> set (g p) \<Longrightarrow> key y = key' p"
  shows "filter (\<lambda>y. key y = k) (concat (map g ps)) = concat (map g (filter (\<lambda>p. key' p = k) ps))"
proof (induction ps)
  case (Cons p ps)
  have "filter (\<lambda>y. key y = k) (g p) = (if key' p = k then g p else [])"
    using assms by (auto simp: filter_id_conv filter_empty_conv)
  with Cons show ?case by simp
qed simp

lemma sorted_concat_key:
  assumes "\<And>p y. y \<in> set (g p) \<Longrightarrow> key y = key' p" "sorted (map key' ps)"
  shows "sorted (map key (concat (map g ps)))"
  using assms(2)
proof (induction ps)
  case (Cons p ps)
  have "map key (g p) = replicate (length (g p)) (key' p)"
    using assms(1) by (intro replicate_eqI) auto
  then have "sorted (map key (g p))" by simp
  moreover have "key y \<le> key z" if "y \<in> set (g p)" "q \<in> set ps" "z \<in> set (g q)" for y z q
    using that Cons.prems assms(1) by simp
  ultimately show ?case using Cons by (fastforce simp: sorted_append)
qed simp

text \<open>Sorting what each plugin installed, stably, is sorting the plugins.\<close>

lemma sort_concat_key:
  assumes "\<And>p y. y \<in> set (g p) \<Longrightarrow> key y = key' p"
  shows "sort_key key (concat (map g ps)) = concat (map g (sort_key key' ps))"
proof (rule properties_for_sort_key)
  show "mset (concat (map g (sort_key key' ps))) = mset (concat (map g ps))"
    by (simp add: mset_concat flip: sum_mset_sum_list)
  show "filter (\<lambda>y. key x = key y) (concat (map g (sort_key key' ps))) = filter (\<lambda>y. key x = key y) (concat (map g ps))" for x
    using filter_concat_key [of g key key', OF assms] by (simp add: eq_commute [of "key x"] sort_key_stable)
  show "sorted (map key (concat (map g (sort_key key' ps))))"
    by (rule sorted_concat_key [OF assms sorted_sort_key])
qed


lemma built_recognizers:
  "sort_key (am_id \<circ> fst) (concat (map installed_recognizers ps)) = concat (map installed_recognizers (sort_key plugin_id ps))"
  by (rule sort_concat_key) (auto simp: installed_recognizers_def List.map_filter_def plugin_id_def split: installation.splits)

lemma built_enrichers:
  "sort_key (am_id \<circ> fst) (concat (map installed_enrichers ps)) = concat (map installed_enrichers (sort_key plugin_id ps))"
  by (rule sort_concat_key) (auto simp: installed_enrichers_def List.map_filter_def plugin_id_def split: installation.splits)

lemma build_language_analyzer_add:
  "map_option build_language_analyzer (add_plugins ps new_builder) =
     Some (case window_duplicate plugin_id (sort_key plugin_id ps) of
             Some duplicate \<Rightarrow> Inl (''duplicate plugin identity '' @ plugin_id duplicate)
           | None \<Rightarrow> Inr (language_analyzer_of (sort_key plugin_id ps)))"
  unfolding new_builder_def
  by (subst add_plugins_effect)
    (simp_all add: build_language_analyzer_def language_analyzer_of_def Let_def built_recognizers built_enrichers
      del: comp_apply split: option.splits)

lemma sort_key_map: "map key (sort_key key xs) = sort (map key xs)"
  by (rule properties_for_sort [symmetric]) simp_all

lemma sort_key_determined:
  assumes "mset ps = mset qs" "distinct (map key ps)"
  shows "sort_key key ps = sort_key key qs"
proof (rule map_inj_on)
  have "mset (map key ps) = mset (map key qs)" using assms(1) by simp
  then show "map key (sort_key key ps) = map key (sort_key key qs)"
    unfolding sort_key_map by (intro properties_for_sort) simp_all
  show "inj_on key (set (sort_key key ps) \<union> set (sort_key key qs))"
    using mset_eq_setD [OF assms(1)] assms(2) by (simp add: distinct_map)
qed

lemma distinct_sort_key: "distinct (map key (sort_key key xs)) \<longleftrightarrow> distinct (map key xs)"
  unfolding sort_key_map by simp

text \<open>Of sorted keys, the first window with one key is at the least key that occurs twice.\<close>

definition least_duplicate :: "'k::linorder list \<Rightarrow> 'k" where
  "least_duplicate ks = hd (filter (\<lambda>k. 1 < count (mset ks) k) (sort ks))"

lemma window_duplicate_key:
  assumes "sorted (map key xs)" "window_duplicate key xs = Some d"
  shows "key d = hd (filter (\<lambda>k. 1 < count (mset (map key xs)) k) (map key xs))"
  using assms
proof (induction key xs rule: window_duplicate.induct)
  case (1 key x y xs)
  show ?case
  proof (cases "key x = key y")
    case True
    with 1 show ?thesis by simp
  next
    case False
    with 1 have d: "key d = hd (filter (\<lambda>k. 1 < count (mset (map key (y # xs))) k) (map key (y # xs)))" by simp
    have less: "key x < k" if "k \<in> set (map key (y # xs))" for k
      using that False "1.prems"(1) by (auto simp: less_le dest: antisym)
    then have "key x \<notin> set (map key (y # xs))" by blast
    then have "count (mset (map key (y # xs))) (key x) = 0" by (simp only: count_mset_0_iff not_False_eq_True)
    moreover have "filter (\<lambda>k. 1 < count (mset (map key (x # y # xs))) k) (map key (y # xs)) =
        filter (\<lambda>k. 1 < count (mset (map key (y # xs))) k) (map key (y # xs))"
    proof (rule filter_cong [OF refl])
      fix k assume "k \<in> set (map key (y # xs))"
      then have "key x \<noteq> k" using less by blast
      then show "(1 < count (mset (map key (x # y # xs))) k) = (1 < count (mset (map key (y # xs))) k)"
        unfolding list.map(2) [of key x] mset.simps(2) [of "key x"] by (simp only: count_add_mset if_False)
    qed
    ultimately show ?thesis using d by simp
  qed
qed simp_all

text \<open>
  C35. A language analyzer is a function of its set of plugins. Whatever order they are added in, the
  analyzer that is built lists them by identity and runs what each installed, in the order it installed
  it, after everything of a smaller identity; it is refused, naming the smallest identity that occurs
  twice, exactly when one does. Installing never panics.
\<close>

theorem plugin_order_irrelevant:
  assumes "mset ps = mset qs"
  shows "map_option build_language_analyzer (add_plugins ps new_builder) =
      Some (if distinct (map plugin_id qs) then Inr (language_analyzer_of (sort_key plugin_id qs))
            else Inl (''duplicate plugin identity '' @ least_duplicate (map plugin_id qs)))"
proof -
  let ?sorted = "sort_key plugin_id ps"
  have keys: "map plugin_id ?sorted = sort (map plugin_id qs)"
    unfolding sort_key_map using assms by (intro properties_for_sort) simp_all
  have distinct: "distinct (map plugin_id ps) \<longleftrightarrow> distinct (map plugin_id qs)"
    using assms by (metis mset_map mset_eq_imp_distinct_iff)
  show ?thesis
  proof (cases "window_duplicate plugin_id ?sorted")
    case None
    then have "distinct (map plugin_id ps)"
      using window_duplicate_None_iff [of plugin_id ?sorted] by (simp only: sorted_sort_key distinct_sort_key)
    then show ?thesis using None distinct sort_key_determined [OF assms, of plugin_id]
      by (simp add: build_language_analyzer_add)
  next
    case (Some d)
    then have "\<not> distinct (map plugin_id qs)"
      using window_duplicate_None_iff [of plugin_id ?sorted] distinct by (simp add: distinct_sort_key)
    moreover have "plugin_id d = least_duplicate (map plugin_id qs)"
      using window_duplicate_key [OF sorted_sort_key Some] unfolding keys least_duplicate_def mset_sort .
    ultimately show ?thesis using Some by (simp add: build_language_analyzer_add)
  qed
qed


section \<open>What is prepared, recognized and enriched\<close>

text \<open>An accepted identity is one plain component of a path.\<close>

lemma accepted_plugin_id:
  assumes "\<not> plugin_id_rejected name"
  shows "path_components name = [(4, name)]"
proof -
  obtain c cs where name: "name = c # cs" using assms by (cases name) (simp_all add: plugin_id_rejected_def)
  have "list_all (\<lambda>c. c \<noteq> CHR ''/'') name"
  proof (rule list.pred_mono_strong)
    show "list_all (\<lambda>c. ascii_alphanumeric c \<or> c \<in> set ''-_.'') name"
      using assms unfolding plugin_id_rejected_def by blast
    show "d \<noteq> CHR ''/''" if "ascii_alphanumeric d \<or> d \<in> set ''-_.''" for d
      using that by (auto simp: ascii_alphanumeric_def)
  qed
  moreover have "ascii_alphanumeric c" using assms unfolding plugin_id_rejected_def name by simp
  then have "c \<noteq> CHR ''.''" by (auto simp: ascii_alphanumeric_def)
  ultimately have chars: "CHR ''/'' \<notin> set name" "name \<noteq> []" "hd name \<noteq> CHR ''.''"
    by (auto simp: name list_all_iff)
  then have "\<not> starts_with name ''/''" "name \<noteq> ''.''" "name \<noteq> ''..''" by (auto simp: prefix_def)
  moreover have "split_on CHR ''/'' name = [name]"
    using chars(1) split_on_join [of "[name]" "CHR ''/''"] by simp
  ultimately show ?thesis using chars(2) by (simp add: path_components_def)
qed

lemma descriptor_accepted_iff:
  "descriptor_validate d = Inr () \<longleftrightarrow>
     \<not> plugin_id_rejected (pd_id d) \<and> pd_api_version d = 1
     \<and> (\<exists>input \<in> set (pd_inputs d). pis_scope input = TargetScope)
     \<and> (\<forall>input \<in> set (pd_inputs d). matcher_valid (pis_matcher input))"
  by (auto simp: descriptor_validate_def validate_matchers PLUGIN_API_VERSION_def list_ex_iff list_all_iff)

text \<open>Equal prepared analyses: the same analyzer with the same active plugins.\<close>

definition active_metadata :: "active_plugins \<Rightarrow> (string \<times> string) set" where
  "active_metadata active = (\<lambda>(_, p). (am_id (ap_metadata p), am_version (ap_metadata p))) ` set active"

lemma plugged_version_inj:
  "plugged_version v (active_plugins_identity active) = plugged_version v (active_plugins_identity active') \<longleftrightarrow>
     active_metadata active = active_metadata active'"
proof -
  have same: "active_plugins_identity active = active_plugins_identity active' \<longleftrightarrow> active_metadata active = active_metadata active'"
    by (simp add: active_plugins_identity_def active_metadata_def encode_identity_eq_iff)
  have longer: "framed v @ s \<noteq> v" "v \<noteq> framed v @ s" for s
    by (auto simp: framed_def dest!: arg_cong [where f = length])
  have "s = t" if eq: "plugged_version v s = plugged_version v t" for s t
  proof (cases "s = [] \<or> t = []")
    case True
    then show ?thesis using eq longer by (auto simp: plugged_version_def split: if_splits)
  next
    case False
    then have "framed s @ [] = framed t @ []" using eq by (simp add: plugged_version_def)
    then show ?thesis using framed_append_inj by blast
  qed
  then show ?thesis using same by metis
qed

lemma prepared_analysis_eq_iff:
  assumes "prepare_repository la analyzer r True i = Some p" "prepare_repository la analyzer r' True i' = Some p'"
  shows "ar_analysis p = ar_analysis p' \<longleftrightarrow> active_metadata (ar_active_plugins p) = active_metadata (ar_active_plugins p')"
  using assms by (auto simp: prepare_repository_def Let_def plugged_version_inj)

text \<open>What the active plugins' enrichers contribute, in order, each fact once.\<close>

lemma enrich_repository_exact:
  assumes "\<And>m e. (m, e) \<in> set (la_repository_enrichers la) \<Longrightarrow> plugin_active active (am_id m) \<Longrightarrow> e repository base = Inr (c e)"
  defines "cs \<equiv> map (c \<circ> snd) (filter (\<lambda>(m, _). plugin_active active (am_id m)) (la_repository_enrichers la))"
  shows "enrich_repository la repository base active = Inr
    \<lparr>re_entities = extend_unique [] (concat (map re_entities cs)),
     re_grpc_bindings = extend_unique [] (concat (map re_grpc_bindings cs)),
     re_observations = extend_unique [] (concat (map re_observations cs)),
     re_diagnostics = extend_unique [] (concat (map re_diagnostics cs))\<rparr>"
proof -
  have "try_fold (\<lambda>(m, enricher) merged.
       if \<not> plugin_active active (am_id m) then Inr merged
       else rbind (enricher repository base) (\<lambda>contribution. Inr (merge_enrichment merged contribution))) es acc =
    Inr (let cs = map (c \<circ> snd) (filter (\<lambda>(m, _). plugin_active active (am_id m)) es) in
      \<lparr>re_entities = extend_unique (re_entities acc) (concat (map re_entities cs)),
       re_grpc_bindings = extend_unique (re_grpc_bindings acc) (concat (map re_grpc_bindings cs)),
       re_observations = extend_unique (re_observations acc) (concat (map re_observations cs)),
       re_diagnostics = extend_unique (re_diagnostics acc) (concat (map re_diagnostics cs))\<rparr>)"
    if "set es \<subseteq> set (la_repository_enrichers la)" for es acc
    using that
  proof (induction es arbitrary: acc)
    case (Cons x es)
    obtain m e where x: "x = (m, e)" by (cases x)
    show ?case
      using Cons assms(1) [of m e] by (auto simp: x merge_enrichment_def extend_unique_append Let_def)
  qed simp
  then show ?thesis by (simp add: enrich_repository_def cs_def no_enrichment_def)
qed

definition example_plugin :: "string \<Rightarrow> (unit, unit, unit) plugin" where
  "example_plugin name =
     \<lparr>pg_metadata = \<lparr>am_id = name, am_version = ''1''\<rparr>, pg_activate = (\<lambda>_. None),
      pg_install = [Recognizer (\<lambda>_ _. Inr ()), Enricher (\<lambda>_ _. Inr no_enrichment)]\<rparr>"

theorem plugin_order_irrelevant_witness:
  "map_option build_language_analyzer (add_plugins [example_plugin ''b'', example_plugin ''a''] new_builder) =
     Some (Inr (language_analyzer_of [example_plugin ''a'', example_plugin ''b'']))
   \<and> map_option build_language_analyzer (add_plugins [example_plugin ''b'', example_plugin ''a'', example_plugin ''b''] new_builder) =
     Some (Inl (''duplicate plugin identity '' @ least_duplicate [''a'', ''b'', ''b'']))"
proof -
  have id: "plugin_id (example_plugin name) = name" for name by (simp add: plugin_id_def example_plugin_def)
  have "sort_key plugin_id [example_plugin ''a'', example_plugin ''b''] = [example_plugin ''a'', example_plugin ''b'']"
    by (simp add: id)
  then show ?thesis
    using plugin_order_irrelevant [of "[example_plugin ''b'', example_plugin ''a'']" "[example_plugin ''a'', example_plugin ''b'']"]
      plugin_order_irrelevant [of "[example_plugin ''b'', example_plugin ''a'', example_plugin ''b'']"
        "[example_plugin ''a'', example_plugin ''b'', example_plugin ''b'']"]
    by (simp add: id)
qed

end
