(* ===== verification/Indexer.thy ===== *)
theory Indexer imports Analyzer_Plan begin

text \<open>
  The indexer of \<open>crates/indexing/src/lib.rs\<close>: the interface of analyzers and enrichers (records of what
  their methods answer), the builder that refuses two of one identity, and the identities the indexer
  derives from them for inputs, catalogs and enrichments.
\<close>

section \<open>Contributions\<close>

datatype contribution_completeness = CompleteContribution | IncompleteContribution

record repository_contribution =
  rc_repository :: string
  rc_completeness :: contribution_completeness
  rc_entities :: "entity_fact list"
  rc_grpc_bindings :: "grpc_binding_candidate list"
  rc_observations :: "observation list"
  rc_semantic_candidates :: "semantic_candidate list"
  rc_diagnostics :: "analysis_diagnostic list"
  rc_replaced_diagnostic_codes :: "string bset"
  rc_fact_shards :: "fact_shard list"

record graphql_resolver_candidate =
  gr_repository :: string
  gr_field :: string
  gr_parent :: "string option"
  gr_resolver :: entity_id
  gr_evidence :: evidence

record cache_statistics =
  ca_memory_hits :: nat
  ca_disk_hits :: nat
  ca_misses :: nat

record analyzer_contribution =
  ab_metadata :: analyzer_metadata
  ab_active_repositories :: "string list"
  ab_repositories :: "repository_contribution list"
  ab_overrides :: "dependency_override list"
  ab_candidate_overrides :: "candidate_override list"
  ab_graphql_resolvers :: "graphql_resolver_candidate list"
  ab_diagnostics :: "(string \<times> analysis_diagnostic) list"
  ab_cache :: cache_statistics

datatype cache_status = MemoryHit | DiskHit | CacheMiss

record analyzed_repository =
  ay_facts :: repository_facts
  ay_cache :: cache_status

record workspace_analysis =
  wa_analysis_identity :: string
  wa_repositories :: "analyzed_repository list"
  wa_overrides :: "dependency_override list"
  wa_semantic_candidates :: "semantic_candidate list"
  wa_diagnostics :: "(string \<times> analysis_diagnostic) list"
  wa_repository_dependencies :: "repository_dependency_candidate list"
  wa_cache :: cache_statistics
  wa_fact_shards :: "fact_shard list"

section \<open>Analyzers and enrichers\<close>

record analyzer =
  ax_metadata :: analyzer_metadata
  ax_accepts :: "path \<Rightarrow> bool"
  ax_input_kind :: "path \<Rightarrow> analysis_input_kind option"
  ax_analysis_inputs :: "repository_snapshot \<Rightarrow> analysis_input list"
  ax_identity_inputs :: "analysis_input list"
  ax_prepare :: "workspace_snapshot \<Rightarrow> analyzer_plan"
  ax_dependencies :: "workspace_snapshot \<Rightarrow> string + repository_dependency_candidate list"
  ax_analyze :: "workspace_snapshot \<Rightarrow> analyzer_plan \<Rightarrow> string + analyzer_contribution"
  ax_clear_cache :: "string option"

record semantic_snapshot =
  sm_entities :: "entity_fact list"
  sm_observations :: "observation list"
  sm_candidates :: "semantic_candidate list"

record enrichment_snapshot =
  es_target_repository :: string
  es_workspace :: workspace_snapshot
  es_baseline :: semantic_snapshot

definition snapshot_target :: "enrichment_snapshot \<Rightarrow> repository_snapshot option" where
  "snapshot_target s =
     List.find (\<lambda>r. rs_identity (rp_state r) = es_target_repository s) (wn_repositories (es_workspace s))"

definition snapshot_contexts :: "enrichment_snapshot \<Rightarrow> repository_snapshot list" where
  "snapshot_contexts s =
     filter (\<lambda>r. rs_identity (rp_state r) \<noteq> es_target_repository s) (wn_repositories (es_workspace s))"

datatype source_currentness = RawInputs | SemanticShards "string bset"

record enricher =
  er_metadata :: analyzer_metadata
  er_accepts :: "path \<Rightarrow> bool"
  er_input_kind :: "path \<Rightarrow> analysis_input_kind option"
  er_analysis_inputs :: "repository_snapshot \<Rightarrow> analysis_input list"
  er_identity_inputs :: "analysis_input list"
  er_repository_identity_inputs :: "repository_snapshot \<Rightarrow> analysis_input list"
  er_is_active :: "repository_snapshot \<Rightarrow> bool"
  er_requires_workspace_enablement :: bool
  er_context_repositories :: "workspace_snapshot \<Rightarrow> string \<Rightarrow> string list"
  er_semantic_inputs :: "entity_kind list \<times> semantic_relation list"
  er_source_currentness :: source_currentness
  er_enrich :: "enrichment_snapshot \<Rightarrow> string + analyzer_contribution"
  er_clear_cache :: "string option"

text \<open>The default methods of both traits.\<close>

definition default_input_kind :: "(path \<Rightarrow> bool) \<Rightarrow> path \<Rightarrow> analysis_input_kind option" where
  "default_input_kind accepts p = (if accepts p then Some SourceInput else None)"

definition default_analysis_inputs :: "(path \<Rightarrow> analysis_input_kind option) \<Rightarrow> repository_snapshot \<Rightarrow> analysis_input list" where
  "default_analysis_inputs kind_of repository =
     List.map_filter (\<lambda>input. map_option (from_repository input) (kind_of (ri_path input))) (rp_inputs repository)"

definition default_is_active :: "(path \<Rightarrow> bool) \<Rightarrow> repository_snapshot \<Rightarrow> bool" where
  "default_is_active accepts repository = list_ex (\<lambda>input. accepts (ri_path input)) (rp_inputs repository)"

definition default_prepare :: "analyzer_metadata \<Rightarrow> (repository_snapshot \<Rightarrow> bool) \<Rightarrow> workspace_snapshot \<Rightarrow> analyzer_plan" where
  "default_prepare metadata is_active snapshot = plan_without_plugins metadata snapshot is_active"

section \<open>The builder\<close>

record analysis_indexer =
  in_analyzers :: "analyzer list"
  in_enrichers :: "enricher list"
  in_cache_dir :: string

definition analyzer_id :: "analyzer \<Rightarrow> string" where
  "analyzer_id a = am_id (ax_metadata a)"

definition enricher_id :: "enricher \<Rightarrow> string" where
  "enricher_id e = am_id (er_metadata e)"

text \<open>\<open>pool\<close> is why the thread pool could not be made, if it could not.\<close>

definition build_indexer :: "analyzer list \<Rightarrow> enricher list \<Rightarrow> string \<Rightarrow> string option \<Rightarrow> string + analysis_indexer" where
  "build_indexer analyzers enrichers cache_dir pool =
     (let analyzers = sort_key analyzer_id analyzers; enrichers = sort_key enricher_id enrichers in
      case window_duplicate analyzer_id analyzers of
        Some duplicate \<Rightarrow> Inl (''duplicate analyzer identity '' @ analyzer_id duplicate)
      | None \<Rightarrow>
          (case window_duplicate enricher_id enrichers of
             Some duplicate \<Rightarrow> Inl (''duplicate enricher identity '' @ enricher_id duplicate)
           | None \<Rightarrow>
               (case pool of
                  Some e \<Rightarrow> Inl e
                | None \<Rightarrow> Inr \<lparr>in_analyzers = analyzers, in_enrichers = enrichers, in_cache_dir = cache_dir\<rparr>)))"

section \<open>What the indexer answers\<close>

definition indexer_accepts :: "analysis_indexer \<Rightarrow> path \<Rightarrow> bool" where
  "indexer_accepts ix p \<longleftrightarrow>
     list_ex (\<lambda>a. ax_accepts a p) (in_analyzers ix) \<or> list_ex (\<lambda>e. er_accepts e p) (in_enrichers ix)"

definition analysis_input_kinds :: "analysis_indexer \<Rightarrow> path \<Rightarrow> analysis_input_kind bset" where
  "analysis_input_kinds ix p =
     bs_of_list (List.map_filter (\<lambda>a. ax_input_kind a p) (in_analyzers ix)
       @ List.map_filter (\<lambda>e. er_input_kind e p) (in_enrichers ix))"

definition catalog_identity :: "analysis_indexer \<Rightarrow> string" where
  "catalog_identity ix =
     repository_analysis_identity (map ax_metadata (in_analyzers ix)) @ '':core-rules:'' @ CORE_RULE_PACK_VERSION"

definition reconciliation_entry :: "(string \<Rightarrow> string) \<Rightarrow> nat \<Rightarrow> analyzer_metadata \<times> analysis_input list \<Rightarrow> string" where
  "reconciliation_entry sha tag = (\<lambda>(metadata, inputs).
     char_of tag # framed_bytes (am_id metadata) @ framed_bytes (am_version metadata)
     @ framed_bytes (analysis_inputs_identity sha inputs))"

definition reconciliation_bytes :: "(string \<Rightarrow> string) \<Rightarrow> analysis_indexer \<Rightarrow> string" where
  "reconciliation_bytes sha ix =
     ''beholder-reconciliation-v1'' @ framed_bytes (catalog_identity ix)
     @ concat (map (\<lambda>a. reconciliation_entry sha 0 (ax_metadata a, ax_identity_inputs a)) (in_analyzers ix))
     @ concat (map (\<lambda>e. reconciliation_entry sha 1 (er_metadata e, er_identity_inputs e)) (in_enrichers ix))"

definition reconciliation_identity :: "(string \<Rightarrow> string) \<Rightarrow> analysis_indexer \<Rightarrow> string" where
  "reconciliation_identity sha ix = sha (reconciliation_bytes sha ix)"

definition find_enricher :: "analysis_indexer \<Rightarrow> string \<Rightarrow> enricher option" where
  "find_enricher ix name = List.find (\<lambda>e. enricher_id e = name) (in_enrichers ix)"

definition enricher_is_active :: "analysis_indexer \<Rightarrow> string \<Rightarrow> string bset \<Rightarrow> repository_snapshot \<Rightarrow> bool" where
  "enricher_is_active ix name enabled_plugins repository =
     (case find_enricher ix name of
        None \<Rightarrow> False
      | Some e \<Rightarrow> (\<not> er_requires_workspace_enablement e \<or> name \<in> set enabled_plugins) \<and> er_is_active e repository)"

definition enrichment_contexts :: "analysis_indexer \<Rightarrow> string \<Rightarrow> workspace_snapshot \<Rightarrow> string \<Rightarrow> string list" where
  "enrichment_contexts ix name snapshot target =
     (case find_enricher ix name of None \<Rightarrow> [] | Some e \<Rightarrow> er_context_repositories e snapshot target)"

definition enrichment_semantic_inputs :: "analysis_indexer \<Rightarrow> string \<Rightarrow> entity_kind list \<times> semantic_relation list" where
  "enrichment_semantic_inputs ix name =
     (case find_enricher ix name of None \<Rightarrow> ([], []) | Some e \<Rightarrow> er_semantic_inputs e)"

definition enrichment_catalog :: "analysis_indexer \<Rightarrow> analyzer_metadata list" where
  "enrichment_catalog ix = map er_metadata (in_enrichers ix)"

definition enrich :: "analysis_indexer \<Rightarrow> enrichment_snapshot \<Rightarrow> string \<Rightarrow> string + analyzer_contribution" where
  "enrich ix snapshot name =
     rbind (ok_or (find_enricher ix name) (''unknown enricher identity '' @ name)) (\<lambda>e. er_enrich e snapshot)"

definition analysis_input_identities ::
    "(string \<Rightarrow> string) \<Rightarrow> analysis_indexer \<Rightarrow> workspace_snapshot \<Rightarrow> (string, (string, string) bmap) bmap" where
  "analysis_input_identities sha ix snapshot =
     bm_of_list (map (\<lambda>a. (analyzer_id a, bm_of_list (map (\<lambda>r.
       (rs_identity (rp_state r), analysis_inputs_identity sha (ax_analysis_inputs a r @ ax_identity_inputs a)))
       (wn_repositories snapshot)))) (in_analyzers ix))"

definition enrichment_inputs_of :: "enricher \<Rightarrow> repository_snapshot \<Rightarrow> analysis_input list" where
  "enrichment_inputs_of e r = er_analysis_inputs e r @ er_repository_identity_inputs e r @ er_identity_inputs e"

definition enrichment_input_identities ::
    "(string \<Rightarrow> string) \<Rightarrow> analysis_indexer \<Rightarrow> workspace_snapshot \<Rightarrow> (string, (string, string) bmap) bmap" where
  "enrichment_input_identities sha ix snapshot =
     bm_of_list (map (\<lambda>e. (enricher_id e, bm_of_list (map (\<lambda>r.
       (rs_identity (rp_state r), analysis_inputs_identity sha (enrichment_inputs_of e r)))
       (wn_repositories snapshot)))) (in_enrichers ix))"

text \<open>After analysis, what an enricher read of the semantic shards replaces the source files.\<close>

definition selected_shards :: "string bset \<Rightarrow> string \<Rightarrow> fact_shard list \<Rightarrow> (string \<times> string \<times> string) list" where
  "selected_shards producers repository shards =
     sort_dedup (map (\<lambda>s. (fs_producer s, fs_owner s, fs_version s))
       (filter (\<lambda>s. fs_producer s \<in> set producers \<and> fs_repository s = repository) shards))"

definition semantic_input_bytes :: "(string \<Rightarrow> string) \<Rightarrow> enricher \<Rightarrow> repository_snapshot \<Rightarrow> (string \<times> string \<times> string) list \<Rightarrow> string" where
  "semantic_input_bytes sha e r shards =
     framed_bytes ''beholder-enrichment-semantic-input-v1''
     @ framed_bytes (analysis_inputs_identity sha
         (filter (\<lambda>i. an_kind i \<noteq> SourceInput) (er_analysis_inputs e r)
          @ er_repository_identity_inputs e r @ er_identity_inputs e))
     @ concat (map (\<lambda>(producer, owner, version). framed_bytes producer @ framed_bytes owner @ framed_bytes version) shards)"

definition shard_identities ::
    "(string \<Rightarrow> string) \<Rightarrow> string bset \<Rightarrow> enricher \<Rightarrow> workspace_analysis \<Rightarrow> repository_snapshot list
     \<Rightarrow> (string, string) bmap \<Rightarrow> (string, string) bmap" where
  "shard_identities sha producers e analysis = fold (\<lambda>r identities.
     let shards = selected_shards producers (rs_identity (rp_state r)) (wa_fact_shards analysis) in
     if shards = [] then identities
     else bm_put (rs_identity (rp_state r)) (sha (semantic_input_bytes sha e r shards)) identities)"

definition analyzed_identities ::
    "(string \<Rightarrow> string) \<Rightarrow> workspace_snapshot \<Rightarrow> workspace_analysis \<Rightarrow> enricher
     \<Rightarrow> (string, (string, string) bmap) bmap \<Rightarrow> (string, (string, string) bmap) bmap" where
  "analyzed_identities sha snapshot analysis e identities =
     (case er_source_currentness e of
        RawInputs \<Rightarrow> identities
      | SemanticShards producers \<Rightarrow>
          if producers = [] then identities
          else case map_of identities (enricher_id e) of
                 None \<Rightarrow> identities
               | Some own \<Rightarrow> bm_put (enricher_id e) (shard_identities sha producers e analysis (wn_repositories snapshot) own) identities)"

definition analyzed_enrichment_input_identities ::
    "(string \<Rightarrow> string) \<Rightarrow> analysis_indexer \<Rightarrow> workspace_snapshot \<Rightarrow> workspace_analysis \<Rightarrow> (string, (string, string) bmap) bmap" where
  "analyzed_enrichment_input_identities sha ix snapshot analysis =
     fold (analyzed_identities sha snapshot analysis) (in_enrichers ix) (enrichment_input_identities sha ix snapshot)"

definition dependency_key :: "repository_dependency_candidate \<Rightarrow> string \<times> string \<times> string \<times> repository_dependency_kind \<times> string" where
  "dependency_key c = (dc_from c, dc_to c, dc_analyzer c, dc_kind c, dc_evidence c)"

definition repository_dependencies :: "analyzer list \<Rightarrow> workspace_snapshot \<Rightarrow> string + repository_dependency_candidate list" where
  "repository_dependencies analyzers snapshot =
     rbind (try_fold (\<lambda>a dependencies. rbind (ax_dependencies a snapshot) (\<lambda>more. Inr (dependencies @ more))) analyzers [])
       (\<lambda>dependencies. Inr (sort_dedup_by dependency_key dependencies))"

definition accepted_paths :: "analyzer list \<Rightarrow> path list \<Rightarrow> path list" where
  "accepted_paths analyzers = filter (\<lambda>p. list_ex (\<lambda>a. ax_accepts a p) analyzers)"


section \<open>The builder refuses two of one identity\<close>

lemma build_indexer_accepts:
  "build_indexer analyzers enrichers cache_dir pool = Inr ix \<longleftrightarrow>
     distinct (map analyzer_id analyzers) \<and> distinct (map enricher_id enrichers) \<and> pool = None
     \<and> ix = \<lparr>in_analyzers = sort_key analyzer_id analyzers, in_enrichers = sort_key enricher_id enrichers, in_cache_dir = cache_dir\<rparr>"
  using window_duplicate_None_iff [OF sorted_sort_key, of analyzer_id analyzers]
    window_duplicate_None_iff [OF sorted_sort_key, of enricher_id enrichers]
  by (auto simp: build_indexer_def Let_def distinct_sort_key split: option.splits)

lemma built_indexer_distinct:
  assumes "build_indexer analyzers enrichers cache_dir pool = Inr ix"
  shows "distinct (map analyzer_id (in_analyzers ix))" "distinct (map enricher_id (in_enrichers ix))"
    "mset (in_analyzers ix) = mset analyzers" "mset (in_enrichers ix) = mset enrichers"
  using assms by (auto simp: build_indexer_accepts distinct_sort_key)

section \<open>What an enrichment depends on\<close>

lemma find_append: "List.find P (xs @ ys) = (case List.find P xs of None \<Rightarrow> List.find P ys | Some x \<Rightarrow> Some x)"
  by (induction xs) simp_all

lemma keys_map_put: "map_of (fold (\<lambda>r m. if c r then m else bm_put (key r) (v r) m) rs m) k =
    (case List.find (\<lambda>r. \<not> c r \<and> key r = k) (rev rs) of None \<Rightarrow> map_of m k | Some r \<Rightarrow> Some (v r))"
  by (induction rs arbitrary: m) (auto simp: find_append split: option.splits)

lemma find_distinct:
  assumes "distinct (map key rs)" "r \<in> set rs"
  shows "List.find (\<lambda>q. c q \<and> key q = key r) rs = (if c r then Some r else None)"
proof (cases "List.find (\<lambda>q. c q \<and> key q = key r) rs")
  case (Some q)
  then have "q \<in> set rs" "c q" "key q = key r" by (auto simp: find_Some_iff)
  with assms have "q = r" by (auto simp: distinct_map dest: inj_onD)
  with Some \<open>c q\<close> show ?thesis by simp
next
  case None
  with assms(2) show ?thesis by (auto simp: find_None_iff)
qed

lemma map_of_of_list_map:
  assumes "distinct (map key rs)" "r \<in> set rs"
  shows "map_of (bm_of_list (map (\<lambda>r. (key r, v r)) rs)) (key r) = Some (v r)"
proof -
  have "distinct (map fst (rev (map (\<lambda>r. (key r, v r)) rs)))" using assms(1) by (simp add: comp_def rev_map [symmetric])
  then show ?thesis unfolding map_of_bm_of_list using assms(2) by (intro map_of_is_SomeI) auto
qed

definition enrichment_preimage :: "(string \<Rightarrow> string) \<Rightarrow> enricher \<Rightarrow> repository_snapshot \<Rightarrow> workspace_analysis \<Rightarrow> string" where
  "enrichment_preimage sha e r analysis =
     (let shards = (case er_source_currentness e of
                      RawInputs \<Rightarrow> []
                    | SemanticShards producers \<Rightarrow> selected_shards producers (rs_identity (rp_state r)) (wa_fact_shards analysis))
      in if shards = [] then analysis_inputs_bytes (enrichment_inputs_of e r) else semantic_input_bytes sha e r shards)"

lemma shard_identities_lookup:
  assumes "distinct (map (\<lambda>r. rs_identity (rp_state r)) rs)" "r \<in> set rs"
  shows "map_of (shard_identities sha producers e analysis rs m) (rs_identity (rp_state r)) =
    (let shards = selected_shards producers (rs_identity (rp_state r)) (wa_fact_shards analysis) in
     if shards = [] then map_of m (rs_identity (rp_state r)) else Some (sha (semantic_input_bytes sha e r shards)))"
proof -
  have "distinct (map (\<lambda>r. rs_identity (rp_state r)) (rev rs))" "r \<in> set (rev rs)"
    using assms by (simp_all add: rev_map [symmetric])
  from find_distinct [OF this] show ?thesis
    by (simp add: shard_identities_def Let_def keys_map_put)
qed

lemma analyzed_identities_other:
  "enricher_id e \<noteq> k \<Longrightarrow> map_of (analyzed_identities sha s a e m) k = map_of m k"
  by (auto simp: analyzed_identities_def split: source_currentness.splits option.splits)

lemma selected_shards_no_producers [simp]: "selected_shards [] repository shards = []"
  by (simp add: selected_shards_def sort_dedup_def)

lemma analyzed_identities_own:
  assumes "distinct (map (\<lambda>r. rs_identity (rp_state r)) (wn_repositories s))" "r \<in> set (wn_repositories s)"
    "map_of m (enricher_id e) = Some own" "map_of own (rs_identity (rp_state r)) = Some (sha (analysis_inputs_bytes (enrichment_inputs_of e r)))"
  shows "Option.bind (map_of (analyzed_identities sha s a e m) (enricher_id e)) (\<lambda>m. map_of m (rs_identity (rp_state r))) =
    Some (sha (enrichment_preimage sha e r a))"
  using assms(3,4) shard_identities_lookup [OF assms(1,2)]
  by (auto simp: analyzed_identities_def enrichment_preimage_def Let_def split: source_currentness.splits)

text \<open>
  The identity an enrichment is kept under after analysis. For every enricher of a built indexer and
  every repository of the snapshot there is one. For an enricher that reads semantic shards it digests
  the producer, owner and version of each shard selected for the repository, with the inputs that are
  not source files; without selected shards, and for an enricher that reads raw inputs, it digests all
  inputs.
\<close>

theorem enrichment_identities_exact:
  assumes "build_indexer analyzers enrichers cache_dir pool = Inr ix"
    and "distinct (map (\<lambda>r. rs_identity (rp_state r)) (wn_repositories s))"
    and "e \<in> set enrichers" "r \<in> set (wn_repositories s)"
  shows "Option.bind (map_of (analyzed_enrichment_input_identities sha ix s a) (enricher_id e))
           (\<lambda>identities. map_of identities (rs_identity (rp_state r))) = Some (sha (enrichment_preimage sha e r a))"
proof -
  have distinct: "distinct (map enricher_id (in_enrichers ix))" by (rule built_indexer_distinct [OF assms(1)])
  have "e \<in> set (in_enrichers ix)" using assms(3) mset_eq_setD [OF built_indexer_distinct(4) [OF assms(1)]] by simp
  then obtain before rest where split: "in_enrichers ix = before @ e # rest" by (meson split_list)
  then have others: "enricher_id e' \<noteq> enricher_id e" if "e' \<in> set before \<union> set rest" for e'
  proof -
    have "enricher_id e' \<in> enricher_id ` (set before \<union> set rest)" using that by (rule imageI)
    moreover have "enricher_id e \<notin> enricher_id ` (set before \<union> set rest)" using distinct by (simp add: split image_Un)
    ultimately show ?thesis by metis
  qed
  have keep: "map_of (fold (analyzed_identities sha s a) es m) (enricher_id e) = map_of m (enricher_id e)"
    if "set es \<subseteq> set before \<union> set rest" for es m
    using that by (induction es arbitrary: m) (simp_all add: analyzed_identities_other others)
  let ?own = "bm_of_list (map (\<lambda>r. (rs_identity (rp_state r), analysis_inputs_identity sha (enrichment_inputs_of e r))) (wn_repositories s))"
  have start: "map_of (enrichment_input_identities sha ix s) (enricher_id e) = Some ?own"
    unfolding enrichment_input_identities_def by (rule map_of_of_list_map [OF distinct]) (simp add: split)
  have own: "map_of ?own (rs_identity (rp_state r)) = Some (sha (analysis_inputs_bytes (enrichment_inputs_of e r)))"
    using map_of_of_list_map [OF assms(2,4)] by (simp add: analysis_inputs_identity_def)
  have "map_of (fold (analyzed_identities sha s a) before (enrichment_input_identities sha ix s)) (enricher_id e) = Some ?own"
    by (simp add: keep start)
  from analyzed_identities_own [where sha = sha and s = s and r = r, OF assms(2,4) this own] show ?thesis
    by (simp add: analyzed_enrichment_input_identities_def split keep)
qed


text \<open>The digested bytes of a semantic input say which shards were selected and which other inputs there were.\<close>

definition shards_fit :: "(string \<times> string \<times> string) list \<Rightarrow> bool" where
  "shards_fit = list_all (\<lambda>(producer, owner, version). fits producer \<and> fits owner \<and> fits version)"

lemma selected_shards_eq_iff:
  "selected_shards ps r xs = selected_shards qs r' ys \<longleftrightarrow> set (selected_shards ps r xs) = set (selected_shards qs r' ys)"
proof
  assume "set (selected_shards ps r xs) = set (selected_shards qs r' ys)"
  then show "selected_shards ps r xs = selected_shards qs r' ys"
    by (rule ascending_unique [rotated 2]) (simp_all only: selected_shards_def strict_sorted_sort_dedup)
qed simp

lemma shard_bytes_inj:
  assumes "shards_fit xs" "shards_fit ys"
    "concat (map (\<lambda>(p, ow, v). framed_bytes p @ framed_bytes ow @ framed_bytes v) xs) =
     concat (map (\<lambda>(p, ow, v). framed_bytes p @ framed_bytes ow @ framed_bytes v) ys)"
  shows "xs = ys"
  using assms
proof (induction xs arbitrary: ys)
  case Nil
  then show ?case by (cases ys) (auto simp: framed_bytes_def split: prod.splits dest: arg_cong [where f = length])
next
  case (Cons x xs)
  then obtain y ys' where ys: "ys = y # ys'"
    by (cases ys) (auto simp: framed_bytes_def split: prod.splits dest: arg_cong [where f = length])
  obtain p ow v p' ow' v' where xy: "x = (p, ow, v)" "y = (p', ow', v')" by (cases x; cases y)
  let ?tail = "\<lambda>zs. concat (map (\<lambda>(p, ow, v). framed_bytes p @ framed_bytes ow @ framed_bytes v) zs)"
  have fit: "fits p" "fits p'" "fits ow" "fits ow'" "fits v" "fits v'"
    using Cons.prems(1,2) by (simp_all add: ys xy shards_fit_def)
  have "framed_bytes p @ (framed_bytes ow @ framed_bytes v @ ?tail xs) = framed_bytes p' @ (framed_bytes ow' @ framed_bytes v' @ ?tail ys')"
    using Cons.prems(3) by (simp add: ys xy)
  from framed_bytes_inj [OF fit(1,2) this] have "p = p'"
    and "framed_bytes ow @ (framed_bytes v @ ?tail xs) = framed_bytes ow' @ (framed_bytes v' @ ?tail ys')" by simp_all
  moreover from framed_bytes_inj [OF fit(3,4) this(2)] have "ow = ow'" and "framed_bytes v @ ?tail xs = framed_bytes v' @ ?tail ys'" by simp_all
  moreover from framed_bytes_inj [OF fit(5,6) this(2)] have "v = v'" and "?tail xs = ?tail ys'" by simp_all
  moreover have "xs = ys'" using Cons.IH [of ys'] Cons.prems(1,2) calculation(6) by (simp add: ys shards_fit_def)
  ultimately show ?case by (simp add: ys xy)
qed

lemma semantic_input_bytes_inj:
  fixes sha :: "string \<Rightarrow> string"
  defines "inputs e r \<equiv> analysis_inputs_identity sha (filter (\<lambda>i. an_kind i \<noteq> SourceInput) (er_analysis_inputs e r)
        @ er_repository_identity_inputs e r @ er_identity_inputs e)"
  assumes "shards_fit xs" "shards_fit ys" "fits (inputs e r)" "fits (inputs e' r')"
  shows "semantic_input_bytes sha e r xs = semantic_input_bytes sha e' r' ys \<longleftrightarrow>
    inputs e r = inputs e' r' \<and> xs = ys"
proof
  let ?tail = "\<lambda>zs. concat (map (\<lambda>(p, ow, v). framed_bytes p @ framed_bytes ow @ framed_bytes v) zs)"
  assume "semantic_input_bytes sha e r xs = semantic_input_bytes sha e' r' ys"
  then have "framed_bytes (inputs e r) @ ?tail xs = framed_bytes (inputs e' r') @ ?tail ys"
    by (simp only: semantic_input_bytes_def inputs_def same_append_eq)
  from framed_bytes_inj [OF assms(4,5) this] have "inputs e r = inputs e' r'" "?tail xs = ?tail ys" by simp_all
  then show "inputs e r = inputs e' r' \<and> xs = ys" using shard_bytes_inj [OF assms(2,3)] by simp
qed (simp add: semantic_input_bytes_def inputs_def)

text \<open>
  When an edit keeps an enrichment: what is digested for a repository that has selected shards before
  and after is the same exactly when the same versions of the same shards are selected and the inputs
  that are not source files are the same; no source file counts. The two digests of those inputs are
  taken not to collide.
\<close>

lemma semantic_currentness_exact:
  fixes sha :: "string \<Rightarrow> string" and e :: enricher and r r' :: repository_snapshot and producers :: "string bset"
  assumes "er_source_currentness e = SemanticShards producers" "rs_identity (rp_state r') = rs_identity (rp_state r)"
  defines "selected a \<equiv> selected_shards producers (rs_identity (rp_state r)) (wa_fact_shards a)"
    and "others q \<equiv> filter (\<lambda>i. an_kind i \<noteq> SourceInput) (er_analysis_inputs e q)
          @ er_repository_identity_inputs e q @ er_identity_inputs e"
  assumes "selected a \<noteq> []" "selected a' \<noteq> []" "shards_fit (selected a)" "shards_fit (selected a')"
    and "analysis_inputs_fit (others r @ others r')" "same_spelling (others r @ others r')"
    and "inj_on sha {analysis_inputs_bytes (others r), analysis_inputs_bytes (others r')}"
    and "fits (sha (analysis_inputs_bytes (others r)))" "fits (sha (analysis_inputs_bytes (others r')))"
  shows "enrichment_preimage sha e r a = enrichment_preimage sha e r' a' \<longleftrightarrow>
    set (selected a) = set (selected a') \<and> set (others r) = set (others r')"
proof -
  have sets: "selected a = selected a' \<longleftrightarrow> set (selected a) = set (selected a')"
    unfolding selected_def by (rule selected_shards_eq_iff)
  have "sha (analysis_inputs_bytes (others r)) = sha (analysis_inputs_bytes (others r')) \<longleftrightarrow>
      analysis_inputs_bytes (others r) = analysis_inputs_bytes (others r')"
    using assms(11) by (auto dest: inj_onD)
  then have "analysis_inputs_identity sha (others r) = analysis_inputs_identity sha (others r') \<longleftrightarrow> set (others r) = set (others r')"
    unfolding input_identity_exact [OF assms(9,10)] analysis_inputs_identity_def .
  moreover have "enrichment_preimage sha e r a = semantic_input_bytes sha e r (selected a)"
    "enrichment_preimage sha e r' a' = semantic_input_bytes sha e r' (selected a')"
    using assms(5,6) by (simp_all add: enrichment_preimage_def assms(1,2) selected_def)
  moreover have "semantic_input_bytes sha e r (selected a) = semantic_input_bytes sha e r' (selected a') \<longleftrightarrow>
      analysis_inputs_identity sha (others r) = analysis_inputs_identity sha (others r') \<and> selected a = selected a'"
    unfolding others_def
    by (rule semantic_input_bytes_inj)
      (use assms(7,8,12,13) in \<open>simp_all add: others_def analysis_inputs_identity_def\<close>)
  ultimately show ?thesis using sets by argo
qed

definition example_enricher :: enricher where
  "example_enricher =
     \<lparr>er_metadata = \<lparr>am_id = ''e'', am_version = ''1''\<rparr>, er_accepts = (\<lambda>_. True), er_input_kind = (\<lambda>_. Some SourceInput),
      er_analysis_inputs = (\<lambda>_. []), er_identity_inputs = [], er_repository_identity_inputs = (\<lambda>_. []),
      er_is_active = (\<lambda>_. True), er_requires_workspace_enablement = False, er_context_repositories = (\<lambda>_ _. []),
      er_semantic_inputs = ([], []), er_source_currentness = SemanticShards [''x''],
      er_enrich = (\<lambda>_. Inl ''none''), er_clear_cache = None\<rparr>"

definition sharded_repository :: repository_snapshot where
  "sharded_repository =
     \<lparr>rp_base = ''/r'', rp_state = \<lparr>rs_repository = \<lparr>lr_identity = ''r''\<rparr>, rs_head = None, rs_fingerprint = ''1''\<rparr>, rp_inputs = []\<rparr>"

definition example_shards :: "fact_shard list" where
  "example_shards =
     [\<lparr>fs_repository = ''r'', fs_producer = ''x'', fs_owner = ''o'', fs_version = ''2'', fs_entities = [], fs_observations = []\<rparr>,
      \<lparr>fs_repository = ''q'', fs_producer = ''x'', fs_owner = ''p'', fs_version = ''3'', fs_entities = [], fs_observations = []\<rparr>]"

definition sharded_analysis :: workspace_analysis where
  "sharded_analysis =
     \<lparr>wa_analysis_identity = '''', wa_repositories = [], wa_overrides = [], wa_semantic_candidates = [], wa_diagnostics = [],
      wa_repository_dependencies = [], wa_cache = \<lparr>ca_memory_hits = 0, ca_disk_hits = 0, ca_misses = 0\<rparr>,
      wa_fact_shards = example_shards\<rparr>"

lemma example_selected: "selected_shards [''x''] ''r'' example_shards = [(''x'', ''o'', ''2'')]"
  by code_simp

theorem enrichment_identities_exact_witness:
  "\<exists>ix. build_indexer [] [example_enricher] ''/cache'' None = Inr ix \<and>
     Option.bind (map_of (analyzed_enrichment_input_identities (\<lambda>s. s) ix \<lparr>wn_name = ''w'', wn_repositories = [sharded_repository]\<rparr> sharded_analysis) ''e'')
       (\<lambda>identities. map_of identities ''r'') =
     Some (semantic_input_bytes (\<lambda>s. s) example_enricher sharded_repository [(''x'', ''o'', ''2'')])"
proof -
  obtain ix where ix: "build_indexer [] [example_enricher] ''/cache'' None = Inr ix" by (simp add: build_indexer_def)
  have "enricher_id example_enricher = ''e''" "rs_identity (rp_state sharded_repository) = ''r''"
    "enrichment_preimage (\<lambda>s. s) example_enricher sharded_repository sharded_analysis =
       semantic_input_bytes (\<lambda>s. s) example_enricher sharded_repository [(''x'', ''o'', ''2'')]"
    by (simp_all add: enricher_id_def example_enricher_def sharded_repository_def enrichment_preimage_def sharded_analysis_def
        example_selected)
  with enrichment_identities_exact [OF ix, of "\<lparr>wn_name = ''w'', wn_repositories = [sharded_repository]\<rparr>" example_enricher
      sharded_repository "\<lambda>s. s" sharded_analysis] ix
  show ?thesis by simp
qed

end
