(* ===== verification/Analysis_Cache.thy ===== *)
theory Analysis_Cache imports Indexer begin

text \<open>
  The repository caches of the indexer (\<open>lookup_repository\<close>, \<open>store_repository\<close> and
  \<open>persist_repository_analysis\<close> of \<open>crates/indexing/src/lib.rs\<close>): two maps in memory and JSON files. A
  file may be a hard link, so the disk maps paths to inodes and inodes to contents, and writing
  through one path is seen through every other. What the operating system and \<open>serde_json\<close> answer is
  the parameter \<open>cache_io\<close>; every failure of theirs is ignored by the code.
\<close>

section \<open>State\<close>

record repository_analysis =
  cr_incomplete :: bool
  cr_entities :: "entity_fact list"
  cr_grpc_bindings :: "grpc_binding_candidate list"
  cr_observations :: "observation list"
  cr_semantic_candidates :: "semantic_candidate list"
  cr_diagnostics :: "analysis_diagnostic list"
  cr_analyzers :: "(string, analyzer_analysis) bmap"

definition no_analysis :: repository_analysis where
  "no_analysis =
     \<lparr>cr_incomplete = False, cr_entities = [], cr_grpc_bindings = [], cr_observations = [],
      cr_semantic_candidates = [], cr_diagnostics = [], cr_analyzers = []\<rparr>"

record analysis_disk =
  dk_names :: "string \<Rightarrow> nat option"
  dk_contents :: "nat \<Rightarrow> string"
  dk_next :: nat

record analysis_cache =
  ac_memory :: "(string \<times> string, repository_analysis) bmap"
  ac_latest :: "(string \<times> string, string \<times> repository_analysis) bmap"
  ac_disk :: analysis_disk

record cache_io =
  io_root :: string
  io_open :: "string \<Rightarrow> bool"
  io_create_dir :: "string \<Rightarrow> bool"
  io_create :: "string \<Rightarrow> bool"
  io_link :: "string \<Rightarrow> string \<Rightarrow> bool"
  io_write :: "string \<Rightarrow> string \<Rightarrow> string"
  io_print :: "repository_analysis \<Rightarrow> string"
  io_parse :: "string \<Rightarrow> repository_analysis option"

section \<open>Files\<close>

definition hex_char :: "nat \<Rightarrow> char" where
  "hex_char d = (if d < 10 then char_of (48 + d) else char_of (87 + d))"

definition hex_text :: "string \<Rightarrow> string" where
  "hex_text s = concat (map (\<lambda>c. [hex_char (of_char c div 16), hex_char (of_char c mod 16)]) s)"

definition repository_cache_path :: "cache_io \<Rightarrow> string \<Rightarrow> string \<Rightarrow> string" where
  "repository_cache_path io fingerprint analysis_identity =
     join_path (join_path (join_path (join_path (io_root io) ''repository'') ''semantic'') (hex_text analysis_identity))
       (fingerprint @ ''.json'')"

text \<open>\<open>File::create\<close> truncates the file a path names, or makes one; what is written may be cut short.\<close>

definition write_file :: "string \<Rightarrow> string \<Rightarrow> analysis_disk \<Rightarrow> analysis_disk" where
  "write_file p content d =
     (case dk_names d p of
        Some inode \<Rightarrow> d\<lparr>dk_contents := (dk_contents d)(inode := content)\<rparr>
      | None \<Rightarrow> d\<lparr>dk_names := (dk_names d)(p \<mapsto> dk_next d), dk_contents := (dk_contents d)(dk_next d := content),
                  dk_next := Suc (dk_next d)\<rparr>)"

definition persist_repository_analysis :: "cache_io \<Rightarrow> string \<Rightarrow> repository_analysis \<Rightarrow> analysis_disk \<Rightarrow> analysis_disk" where
  "persist_repository_analysis io p analysis d =
     (if io_create_dir io p \<and> io_create io p then write_file p (io_write io p (io_print io analysis)) d else d)"

text \<open>A hard link needs the old path and a new one not there yet.\<close>

definition hard_link :: "cache_io \<Rightarrow> string \<Rightarrow> string \<Rightarrow> analysis_disk \<Rightarrow> analysis_disk option" where
  "hard_link io old new d =
     (case dk_names d old of
        Some inode \<Rightarrow> if dk_names d new = None \<and> io_link io old new then Some (d\<lparr>dk_names := (dk_names d)(new \<mapsto> inode)\<rparr>) else None
      | None \<Rightarrow> None)"

section \<open>Lookup and store\<close>

definition read_analysis :: "cache_io \<Rightarrow> string \<Rightarrow> analysis_disk \<Rightarrow> repository_analysis option" where
  "read_analysis io p d =
     (case dk_names d p of
        Some inode \<Rightarrow> if io_open io p then io_parse io (dk_contents d inode) else None
      | None \<Rightarrow> None)"

definition remember_analysis :: "string \<Rightarrow> string \<Rightarrow> string \<Rightarrow> repository_analysis \<Rightarrow> analysis_cache \<Rightarrow> analysis_cache" where
  "remember_analysis repository fingerprint analysis_identity analysis c =
     c\<lparr>ac_memory := bm_put (fingerprint, analysis_identity) analysis (ac_memory c),
       ac_latest := bm_put (repository, analysis_identity) (fingerprint, analysis) (ac_latest c)\<rparr>"

definition lookup_repository ::
    "cache_io \<Rightarrow> string \<Rightarrow> string \<Rightarrow> string \<Rightarrow> analysis_cache \<Rightarrow> analysis_cache \<times> (repository_analysis \<times> cache_status) option" where
  "lookup_repository io repository fingerprint analysis_identity c =
     (case map_of (ac_memory c) (fingerprint, analysis_identity) of
        Some analysis \<Rightarrow> (c, Some (analysis, MemoryHit))
      | None \<Rightarrow>
          (case read_analysis io (repository_cache_path io fingerprint analysis_identity) (ac_disk c) of
             None \<Rightarrow> (c, None)
           | Some analysis \<Rightarrow>
               (remember_analysis repository fingerprint analysis_identity analysis c, Some (analysis, DiskHit))))"

definition store_repository ::
    "cache_io \<Rightarrow> string \<Rightarrow> string \<Rightarrow> string \<Rightarrow> repository_analysis \<Rightarrow> analysis_cache
     \<Rightarrow> analysis_cache \<times> repository_analysis \<times> cache_status" where
  "store_repository io repository fingerprint analysis_identity analysis c =
     (let p = repository_cache_path io fingerprint analysis_identity in
      case map_of (ac_latest c) (repository, analysis_identity) of
        Some (previous_fingerprint, previous) \<Rightarrow>
          if previous = analysis then
            let disk = (case hard_link io (repository_cache_path io previous_fingerprint analysis_identity) p (ac_disk c) of
                          Some d \<Rightarrow> d
                        | None \<Rightarrow> persist_repository_analysis io p previous (ac_disk c))
            in (remember_analysis repository fingerprint analysis_identity previous (c\<lparr>ac_disk := disk\<rparr>), previous, MemoryHit)
          else (remember_analysis repository fingerprint analysis_identity analysis
                  (c\<lparr>ac_disk := persist_repository_analysis io p analysis (ac_disk c)\<rparr>), analysis, CacheMiss)
      | None \<Rightarrow>
          (remember_analysis repository fingerprint analysis_identity analysis
             (c\<lparr>ac_disk := persist_repository_analysis io p analysis (ac_disk c)\<rparr>), analysis, CacheMiss))"

definition clear_analysis_cache :: "(string \<Rightarrow> bool) \<Rightarrow> analysis_cache \<Rightarrow> analysis_cache" where
  "clear_analysis_cache below c =
     \<lparr>ac_memory = [], ac_latest = [],
      ac_disk = (ac_disk c)\<lparr>dk_names := (\<lambda>p. if below p then None else dk_names (ac_disk c) p)\<rparr>\<rparr>"

section \<open>Soundness\<close>

text \<open>
  \<open>canon fingerprint identity\<close> is the analysis a repository of that fingerprint has under that analysis
  identity. A cache is sound when it holds nothing else: in memory, as the latest of a repository, in
  every file that parses; two paths share an inode only for one analysis.
\<close>

definition path_sound :: "(string \<Rightarrow> string \<Rightarrow> repository_analysis) \<Rightarrow> cache_io \<Rightarrow> analysis_disk \<Rightarrow> bool" where
  "path_sound canon io d \<longleftrightarrow>
     (\<forall>fp aid inode a. aid \<noteq> [] \<longrightarrow> dk_names d (repository_cache_path io fp aid) = Some inode \<longrightarrow>
        io_parse io (dk_contents d inode) = Some a \<longrightarrow> a = canon fp aid)
     \<and> (\<forall>fp aid fp' aid' inode. aid \<noteq> [] \<longrightarrow> aid' \<noteq> [] \<longrightarrow> dk_names d (repository_cache_path io fp aid) = Some inode \<longrightarrow>
        dk_names d (repository_cache_path io fp' aid') = Some inode \<longrightarrow> canon fp aid = canon fp' aid')
     \<and> (\<forall>p inode. dk_names d p = Some inode \<longrightarrow> inode < dk_next d)"

definition cache_sound :: "(string \<Rightarrow> string \<Rightarrow> repository_analysis) \<Rightarrow> cache_io \<Rightarrow> analysis_cache \<Rightarrow> bool" where
  "cache_sound canon io c \<longleftrightarrow>
     (\<forall>fp aid a. map_of (ac_memory c) (fp, aid) = Some a \<longrightarrow> a = canon fp aid)
     \<and> (\<forall>repository aid fp a. map_of (ac_latest c) (repository, aid) = Some (fp, a) \<longrightarrow> a = canon fp aid)
     \<and> path_sound canon io (ac_disk c)"

text \<open>What was written parses as what was printed or not at all: a text cut short is no JSON document.\<close>

definition prints_back :: "cache_io \<Rightarrow> bool" where
  "prints_back io \<longleftrightarrow> (\<forall>p a b. io_parse io (io_write io p (io_print io a)) = Some b \<longrightarrow> b = a)"

lemma hex_char_inj: "m < 16 \<Longrightarrow> n < 16 \<Longrightarrow> hex_char m = hex_char n \<Longrightarrow> m = n"
proof -
  assume "m < 16" "n < 16" "hex_char m = hex_char n"
  moreover have "of_char (hex_char k) = (if k < 10 then 48 + k else 87 + k)" if "k < 16" for k :: nat
    using that by (simp add: hex_char_def)
  ultimately have "(if m < 10 then 48 + m else 87 + m) = (if n < 10 then 48 + n else 87 + n)" by metis
  then show "m = n" using \<open>m < 16\<close> \<open>n < 16\<close> by (simp split: if_splits)
qed

lemma hex_char_not_slash [simp]: "m < 16 \<Longrightarrow> hex_char m \<noteq> CHR ''/''"
proof -
  assume "m < 16"
  then have "(of_char (hex_char m) :: nat) \<noteq> 47" by (simp add: hex_char_def)
  then show ?thesis by auto
qed


lemma hex_text_simps [simp]:
  "hex_text [] = []"
  "hex_text (c # cs) = hex_char (of_char c div 16) # hex_char (of_char c mod 16) # hex_text cs"
  by (simp_all add: hex_text_def)

lemma nibbles [simp]: "of_char (c :: char) div 16 < (16 :: nat)" "of_char (c :: char) mod 16 < (16 :: nat)"
  using nat_of_char_less_256 [of c] by (simp_all add: less_mult_imp_div_less)

lemma hex_text_inj: "hex_text s = hex_text t \<Longrightarrow> s = t"
proof (induction s arbitrary: t)
  case Nil
  then show ?case by (cases t) simp_all
next
  case (Cons c cs)
  then obtain d ds where t: "t = d # ds" by (cases t) simp_all
  have "of_char c div 16 = (of_char d div 16 :: nat)" "of_char c mod 16 = (of_char d mod 16 :: nat)"
    using Cons.prems by (auto simp: t intro: hex_char_inj)
  then have "of_char c = (of_char d :: nat)" by (metis div_mult_mod_eq)
  with Cons show ?case by (simp add: t)
qed

lemma slash_notin_hex_text [simp]: "CHR ''/'' \<notin> set (hex_text s)"
  by (induction s) (auto dest: sym [of "CHR ''/''"])

lemma hex_text_Nil_iff [simp]: "hex_text s = [] \<longleftrightarrow> s = []"
  by (cases s) simp_all

lemma repository_cache_path_text:
  assumes "aid \<noteq> []"
  shows "repository_cache_path io fp aid =
    join_path (join_path (io_root io) ''repository'') ''semantic'' @ CHR ''/'' # hex_text aid @ CHR ''/'' # fp @ ''.json''"
proof -
  have join: "join_path (d @ n) x = d @ n @ CHR ''/'' # x" if "n \<noteq> []" "CHR ''/'' \<notin> set n" for d n x
  proof -
    have "last n \<noteq> CHR ''/''" using that last_in_set [of n] by metis
    with that(1) show ?thesis by (simp add: join_path_def)
  qed
  have "hex_text aid \<noteq> []" using assms by simp
  have P: "\<exists>Q. join_path (join_path (io_root io) ''repository'') ''semantic'' = Q @ ''semantic''"
    by (auto simp: join_path_def)
  then obtain Q where Q: "join_path (join_path (io_root io) ''repository'') ''semantic'' = Q @ ''semantic''" ..
  have "join_path (Q @ ''semantic'') (hex_text aid) = (Q @ ''semantic'' @ ''/'') @ hex_text aid"
    using join [of "''semantic''" Q] by simp
  then show ?thesis
    using join [OF \<open>hex_text aid \<noteq> []\<close> slash_notin_hex_text, of "Q @ ''semantic'' @ ''/''" "fp @ ''.json''"]
    by (simp add: repository_cache_path_def Q)
qed

lemma repository_cache_path_inj:
  assumes "aid \<noteq> []" "aid' \<noteq> []" "repository_cache_path io fp aid = repository_cache_path io fp' aid'"
  shows "fp = fp' \<and> aid = aid'"
proof -
  have "hex_text aid @ CHR ''/'' # fp @ ''.json'' = hex_text aid' @ CHR ''/'' # fp' @ ''.json''"
    using assms(3) by (simp add: repository_cache_path_text assms(1,2))
  from append_sep_unique [OF this] show ?thesis by (auto dest: hex_text_inj)
qed

section \<open>Every operation keeps a cache sound\<close>

lemma path_soundI:
  assumes "\<And>fp aid inode a. aid \<noteq> [] \<Longrightarrow> dk_names d (repository_cache_path io fp aid) = Some inode \<Longrightarrow>
        io_parse io (dk_contents d inode) = Some a \<Longrightarrow> a = canon fp aid"
    and "\<And>fp aid fp' aid' inode. aid \<noteq> [] \<Longrightarrow> aid' \<noteq> [] \<Longrightarrow> dk_names d (repository_cache_path io fp aid) = Some inode \<Longrightarrow>
        dk_names d (repository_cache_path io fp' aid') = Some inode \<Longrightarrow> canon fp aid = canon fp' aid'"
    and "\<And>p inode. dk_names d p = Some inode \<Longrightarrow> inode < dk_next d"
  shows "path_sound canon io d"
  using assms unfolding path_sound_def by blast

lemma path_soundD:
  assumes "path_sound canon io d"
  shows "aid \<noteq> [] \<Longrightarrow> dk_names d (repository_cache_path io fp aid) = Some inode \<Longrightarrow>
        io_parse io (dk_contents d inode) = Some a \<Longrightarrow> a = canon fp aid"
    and "aid \<noteq> [] \<Longrightarrow> aid' \<noteq> [] \<Longrightarrow> dk_names d (repository_cache_path io fp aid) = Some inode \<Longrightarrow>
        dk_names d (repository_cache_path io fp' aid') = Some inode \<Longrightarrow> canon fp aid = canon fp' aid'"
    and "dk_names d p = Some inode \<Longrightarrow> inode < dk_next d"
  using assms unfolding path_sound_def by blast+

lemma write_file_sound:
  assumes "path_sound canon io d" "aid \<noteq> []" "\<And>a. io_parse io content = Some a \<Longrightarrow> a = canon fp aid"
  shows "path_sound canon io (write_file (repository_cache_path io fp aid) content d)"
proof (cases "dk_names d (repository_cache_path io fp aid)")
  case (Some inode)
  define new where "new = write_file (repository_cache_path io fp aid) content d"
  have new: "dk_names new = dk_names d" "dk_contents new = (dk_contents d)(inode := content)" "dk_next new = dk_next d"
    by (simp_all add: new_def write_file_def Some)
  have "path_sound canon io new"
  proof (rule path_soundI)
    fix fp' aid' i a
    assume *: "aid' \<noteq> []" "dk_names new (repository_cache_path io fp' aid') = Some i" "io_parse io (dk_contents new i) = Some a"
    note name = *(2) [unfolded new(1)]
    show "a = canon fp' aid'"
    proof (cases "i = inode")
      case True
      then have "canon fp' aid' = canon fp aid" using path_soundD(2) [OF assms(1) *(1) assms(2) name] Some by simp
      then show ?thesis using *(3) assms(3) True by (simp add: new(2))
    next
      case False
      then show ?thesis using path_soundD(1) [OF assms(1) *(1) name] *(3) by (simp add: new(2))
    qed
  next
    fix fp1 aid1 fp2 aid2 i
    assume "aid1 \<noteq> []" "aid2 \<noteq> []" "dk_names new (repository_cache_path io fp1 aid1) = Some i"
      "dk_names new (repository_cache_path io fp2 aid2) = Some i"
    then show "canon fp1 aid1 = canon fp2 aid2" unfolding new(1) by (rule path_soundD(2) [OF assms(1)])
  next
    fix p i assume "dk_names new p = Some i"
    then show "i < dk_next new" unfolding new(1,3) by (rule path_soundD(3) [OF assms(1)])
  qed
  then show ?thesis by (simp only: new_def)
next
  case None
  have fresh: "dk_names d p \<noteq> Some (dk_next d)" for p using path_soundD(3) [OF assms(1), of p] by auto
  define new where "new = write_file (repository_cache_path io fp aid) content d"
  have names: "dk_names new p = (if p = repository_cache_path io fp aid then Some (dk_next d) else dk_names d p)"
    and contents: "dk_contents new i = (if i = dk_next d then content else dk_contents d i)"
    and bump: "dk_next new = Suc (dk_next d)" for p i
    by (simp_all add: new_def write_file_def None)
  have own: "fp' = fp \<and> aid' = aid" if "aid' \<noteq> []" "dk_names new (repository_cache_path io fp' aid') = Some (dk_next d)" for fp' aid'
    using that fresh repository_cache_path_inj [OF that(1) assms(2)] by (metis names)
  have old: "dk_names d p = Some i" if "dk_names new p = Some i" "i \<noteq> dk_next d" for p i
    using that by (simp add: names split: if_splits)
  have "path_sound canon io new"
  proof (rule path_soundI)
    fix fp' aid' i a
    assume *: "aid' \<noteq> []" "dk_names new (repository_cache_path io fp' aid') = Some i" "io_parse io (dk_contents new i) = Some a"
    show "a = canon fp' aid'"
    proof (cases "i = dk_next d")
      case True
      then show ?thesis using own [OF *(1)] * assms(3) by (simp add: contents)
    next
      case False
      then show ?thesis using path_soundD(1) [OF assms(1) *(1) old [OF *(2) False]] *(3) by (simp add: contents)
    qed
  next
    fix fp1 aid1 fp2 aid2 i
    assume *: "aid1 \<noteq> []" "aid2 \<noteq> []" "dk_names new (repository_cache_path io fp1 aid1) = Some i"
      "dk_names new (repository_cache_path io fp2 aid2) = Some i"
    show "canon fp1 aid1 = canon fp2 aid2"
    proof (cases "i = dk_next d")
      case True
      then show ?thesis using own [OF *(1)] own [OF *(2)] * by simp
    next
      case False
      then show ?thesis using path_soundD(2) [OF assms(1) *(1,2) old [OF *(3)] old [OF *(4)]] by simp
    qed
  next
    fix p i assume "dk_names new p = Some i"
    then show "i < dk_next new"
      using path_soundD(3) [OF assms(1), of p i] by (auto simp: names bump split: if_splits)
  qed
  then show ?thesis by (simp only: new_def)
qed


lemma persist_sound:
  assumes "path_sound canon io d" "prints_back io" "aid \<noteq> []" "analysis = canon fp aid"
  shows "path_sound canon io (persist_repository_analysis io (repository_cache_path io fp aid) analysis d)"
  using assms write_file_sound [OF assms(1,3), of _ fp]
  by (auto simp: persist_repository_analysis_def prints_back_def)

lemma hard_link_sound:
  assumes "path_sound canon io d" "aid \<noteq> []" "canon fp aid = canon fp' aid"
    "hard_link io (repository_cache_path io fp aid) (repository_cache_path io fp' aid) d = Some d'"
  shows "path_sound canon io d'"
proof -
  let ?new = "repository_cache_path io fp' aid"
  obtain i where i: "dk_names d (repository_cache_path io fp aid) = Some i" and d': "d' = d\<lparr>dk_names := (dk_names d)(?new \<mapsto> i)\<rparr>"
    using assms(4) by (auto simp: hard_link_def split: option.splits if_splits)
  have target: "(\<exists>fp0 aid0. aid0 \<noteq> [] \<and> dk_names d (repository_cache_path io fp0 aid0) = Some j \<and> canon fp0 aid0 = canon fp1 aid1)"
    if "aid1 \<noteq> []" "dk_names d' (repository_cache_path io fp1 aid1) = Some j" for fp1 aid1 j
  proof (cases "repository_cache_path io fp1 aid1 = ?new")
    case True
    then have "fp1 = fp'" "aid1 = aid" using repository_cache_path_inj [OF that(1) assms(2) True] by simp_all
    then show ?thesis using that i assms(2,3) by (auto simp: d')
  next
    case False
    then show ?thesis using that by (auto simp: d')
  qed
  show ?thesis
  proof (rule path_soundI)
    fix fp1 aid1 j a
    assume *: "aid1 \<noteq> []" "dk_names d' (repository_cache_path io fp1 aid1) = Some j" "io_parse io (dk_contents d' j) = Some a"
    obtain fp0 aid0 where "aid0 \<noteq> []" "dk_names d (repository_cache_path io fp0 aid0) = Some j" "canon fp0 aid0 = canon fp1 aid1"
      using target [OF *(1,2)] by blast
    then show "a = canon fp1 aid1" using path_soundD(1) [OF assms(1)] *(3) by (simp add: d')
  next
    fix fp1 aid1 fp2 aid2 j
    assume *: "aid1 \<noteq> []" "aid2 \<noteq> []" "dk_names d' (repository_cache_path io fp1 aid1) = Some j"
      "dk_names d' (repository_cache_path io fp2 aid2) = Some j"
    show "canon fp1 aid1 = canon fp2 aid2"
      using target [OF *(1,3)] target [OF *(2,4)] path_soundD(2) [OF assms(1)] by metis
  next
    fix p j assume "dk_names d' p = Some j"
    then show "j < dk_next d'" using path_soundD(3) [OF assms(1)] i by (auto simp: d' split: if_splits)
  qed
qed

lemma cache_soundI:
  assumes "\<And>fp aid a. map_of (ac_memory c) (fp, aid) = Some a \<Longrightarrow> a = canon fp aid"
    and "\<And>repository aid fp a. map_of (ac_latest c) (repository, aid) = Some (fp, a) \<Longrightarrow> a = canon fp aid"
    and "path_sound canon io (ac_disk c)"
  shows "cache_sound canon io c"
  using assms unfolding cache_sound_def by blast

lemma cache_soundD:
  assumes "cache_sound canon io c"
  shows "map_of (ac_memory c) (fp, aid) = Some a \<Longrightarrow> a = canon fp aid"
    and "map_of (ac_latest c) (repository, aid) = Some (fp, a) \<Longrightarrow> a = canon fp aid"
    and "path_sound canon io (ac_disk c)"
  using assms unfolding cache_sound_def by blast+

lemma remember_sound:
  assumes "cache_sound canon io c" "analysis = canon fp aid"
  shows "cache_sound canon io (remember_analysis repository fp aid analysis c)"
  using cache_soundD [OF assms(1)] assms(2)
  by (intro cache_soundI) (auto simp: remember_analysis_def split: if_splits)

lemma disk_sound: "cache_sound canon io c \<Longrightarrow> path_sound canon io d \<Longrightarrow> cache_sound canon io (c\<lparr>ac_disk := d\<rparr>)"
  using cache_soundD by (intro cache_soundI) auto

lemma lookup_repository_sound:
  assumes "cache_sound canon io c" "aid \<noteq> []" "lookup_repository io repository fp aid c = (c', found)"
  shows "cache_sound canon io c'" "found = Some (analysis, status) \<Longrightarrow> analysis = canon fp aid"
proof -
  have "cache_sound canon io c' \<and> (\<forall>analysis status. found = Some (analysis, status) \<longrightarrow> analysis = canon fp aid)"
  proof (cases "map_of (ac_memory c) (fp, aid)")
    case (Some a)
    then show ?thesis using assms cache_soundD(1) [OF assms(1) Some] by (auto simp: lookup_repository_def)
  next
    case None
    show ?thesis
    proof (cases "read_analysis io (repository_cache_path io fp aid) (ac_disk c)")
      case (Some a)
      then have a: "a = canon fp aid"
        using path_soundD(1) [OF cache_soundD(3) [OF assms(1)] assms(2)] by (auto simp: read_analysis_def split: option.splits if_splits)
      then show ?thesis using assms None Some remember_sound [OF assms(1) a] by (auto simp: lookup_repository_def)
    qed (use assms None in \<open>auto simp: lookup_repository_def\<close>)
  qed
  then show "cache_sound canon io c'" "found = Some (analysis, status) \<Longrightarrow> analysis = canon fp aid" by blast+
qed

lemma store_repository_sound:
  assumes "cache_sound canon io c" "prints_back io" "aid \<noteq> []" "analysis = canon fp aid"
    "store_repository io repository fp aid analysis c = (c', stored, status)"
  shows "cache_sound canon io c'" "stored = analysis"
proof -
  note path = cache_soundD(3) [OF assms(1)]
  have miss: "cache_sound canon io (remember_analysis repository fp aid analysis
      (c\<lparr>ac_disk := persist_repository_analysis io (repository_cache_path io fp aid) analysis (ac_disk c)\<rparr>))"
    by (intro remember_sound disk_sound persist_sound assms path)
  have "cache_sound canon io c' \<and> stored = analysis"
  proof (cases "map_of (ac_latest c) (repository, aid)")
    case None
    then show ?thesis using assms(5) miss by (auto simp: store_repository_def Let_def)
  next
    case (Some latest)
    obtain pf previous where latest: "latest = (pf, previous)" by (cases latest)
    show ?thesis
    proof (cases "previous = analysis")
      case False
      then show ?thesis using assms(5) miss Some latest by (auto simp: store_repository_def Let_def)
    next
      case True
      then have same: "canon pf aid = canon fp aid" using cache_soundD(2) [OF assms(1)] Some latest assms(4) by metis
      have "path_sound canon io (case hard_link io (repository_cache_path io pf aid) (repository_cache_path io fp aid) (ac_disk c) of
          Some d \<Rightarrow> d | None \<Rightarrow> persist_repository_analysis io (repository_cache_path io fp aid) previous (ac_disk c))"
        using hard_link_sound [OF path assms(3) same] persist_sound [OF path assms(2,3)] True assms(4)
        by (simp split: option.split)
      then show ?thesis
        using assms(5) Some latest True remember_sound [OF disk_sound [OF assms(1)] assms(4)]
        by (auto simp: store_repository_def Let_def)
    qed
  qed
  then show "cache_sound canon io c'" "stored = analysis" by simp_all
qed

lemma clear_analysis_cache_sound:
  assumes "cache_sound canon io c"
  shows "cache_sound canon io (clear_analysis_cache below c)"
proof -
  define d where "d = ac_disk (clear_analysis_cache below c)"
  have d: "dk_names (ac_disk c) p = Some i" if "dk_names d p = Some i" for p i
    using that by (simp add: d_def clear_analysis_cache_def split: if_splits)
  have same: "dk_contents d = dk_contents (ac_disk c)" "dk_next d = dk_next (ac_disk c)"
    by (simp_all add: d_def clear_analysis_cache_def)
  note sound = path_soundD [OF cache_soundD(3) [OF assms]]
  have "path_sound canon io d"
  proof (rule path_soundI)
    show "aid \<noteq> [] \<Longrightarrow> dk_names d (repository_cache_path io fp aid) = Some i \<Longrightarrow> io_parse io (dk_contents d i) = Some a \<Longrightarrow>
        a = canon fp aid" for fp aid i a
      unfolding same by (rule sound(1) [OF _ d])
    show "aid \<noteq> [] \<Longrightarrow> aid' \<noteq> [] \<Longrightarrow> dk_names d (repository_cache_path io fp aid) = Some i \<Longrightarrow>
        dk_names d (repository_cache_path io fp' aid') = Some i \<Longrightarrow> canon fp aid = canon fp' aid'" for fp aid fp' aid' i
      by (rule sound(2) [OF _ _ d d])
    show "dk_names d p = Some i \<Longrightarrow> i < dk_next d" for p i
      unfolding same by (rule sound(3) [OF d])
  qed
  then have "path_sound canon io (ac_disk (clear_analysis_cache below c))" by (simp only: d_def)
  then show ?thesis by (intro cache_soundI) (simp_all add: clear_analysis_cache_def)
qed

end
