(* ===== verification/Workspace_Analysis.thy ===== *)
theory Workspace_Analysis imports Analysis_Cache begin

text \<open>
  Analyzing a workspace, \<open>Indexer::prepare\<close> and \<open>Indexer::analyze_prepared\<close> of
  \<open>crates/indexing/src/lib.rs\<close>: what is prepared and found in the caches, how the analyzers'
  contributions are merged into one analysis per repository, what is stored, and how GraphQL fields are
  bound to their resolvers. The theorems say when caching cannot be observed.
\<close>

abbreviation analyzed_facts :: "workspace_analysis \<Rightarrow> repository_facts list" where
  "analyzed_facts a \<equiv> map ay_facts (wa_repositories a)"

section \<open>Plans\<close>

record workspace_plan =
  wl_analyzers :: "analyzer_plan list"
  wl_analysis_identity :: string
  wl_repository_identities :: "(string, string) bmap"
  wl_repository_fingerprints :: "(string, string) bmap"
  wl_cached_repositories :: "(string, repository_analysis \<times> cache_status) bmap"

definition repository_metadata :: "analyzer_plan list \<Rightarrow> string \<Rightarrow> analyzer_metadata list" where
  "repository_metadata plans repository =
     List.map_filter (\<lambda>plan. map_option ar_analysis (plan_repository plan repository)) plans"

definition repository_identities :: "analyzer_plan list \<Rightarrow> workspace_snapshot \<Rightarrow> (string, string) bmap" where
  "repository_identities plans snapshot =
     bm_of_list (map (\<lambda>r. (repository_of r, repository_analysis_identity (repository_metadata plans (repository_of r))))
       (wn_repositories snapshot))"

definition repository_fingerprints :: "workspace_snapshot \<Rightarrow> (string, string) bmap" where
  "repository_fingerprints snapshot =
     bm_of_list (map (\<lambda>r. (repository_of r, rs_fingerprint (rp_state r))) (wn_repositories snapshot))"

fun lookup_repositories ::
    "cache_io \<Rightarrow> (string, string) bmap \<Rightarrow> repository_snapshot list \<Rightarrow> analysis_cache
     \<Rightarrow> analysis_cache \<times> (string \<times> repository_analysis \<times> cache_status) list" where
  "lookup_repositories io identities [] c = (c, [])"
| "lookup_repositories io identities (r # rs) c =
     (case map_of identities (repository_of r) of
        None \<Rightarrow> lookup_repositories io identities rs c
      | Some analysis_identity \<Rightarrow>
          (case lookup_repository io (repository_of r) (rs_fingerprint (rp_state r)) analysis_identity c of
             (c, None) \<Rightarrow> lookup_repositories io identities rs c
           | (c, Some cached) \<Rightarrow>
               (case lookup_repositories io identities rs c of
                  (c, rest) \<Rightarrow> (c, (repository_of r, cached) # rest))))"

definition no_analyzer_analysis :: analyzer_analysis where
  "no_analyzer_analysis = \<lparr>cz_entities = [], cz_observations = [], cz_fact_shards = []\<rparr>"

definition cached_contribution :: "string \<Rightarrow> repository_analysis \<Rightarrow> analyzer_analysis" where
  "cached_contribution analyzer analysis =
     (case map_of (cr_analyzers analysis) analyzer of None \<Rightarrow> no_analyzer_analysis | Some a \<Rightarrow> a)"

definition cache_contribution :: "(string, repository_analysis \<times> cache_status) bmap \<Rightarrow> string \<Rightarrow> analyzer_plan \<Rightarrow> analyzer_plan" where
  "cache_contribution cached repository plan =
     (case map_of cached repository of
        None \<Rightarrow> plan
      | Some (analysis, _) \<Rightarrow> cache_repository repository (cached_contribution (am_id (az_analyzer plan)) analysis) plan)"

definition cache_plan :: "(string, repository_analysis \<times> cache_status) bmap \<Rightarrow> analyzer_plan \<Rightarrow> analyzer_plan" where
  "cache_plan cached plan = fold (cache_contribution cached) (map fst (az_repositories plan)) plan"

definition prepare :: "cache_io \<Rightarrow> analysis_indexer \<Rightarrow> workspace_snapshot \<Rightarrow> analysis_cache \<Rightarrow> analysis_cache \<times> workspace_plan" where
  "prepare io ix snapshot c =
     (let plans = map (\<lambda>a. ax_prepare a snapshot) (in_analyzers ix);
          identities = repository_identities plans snapshot
      in case lookup_repositories io identities (wn_repositories snapshot) c of
           (c, found) \<Rightarrow>
             (c, \<lparr>wl_analyzers = map (cache_plan (bm_of_list found)) plans,
                  wl_analysis_identity = workspace_analysis_identity identities,
                  wl_repository_identities = identities,
                  wl_repository_fingerprints = repository_fingerprints snapshot,
                  wl_cached_repositories = bm_of_list found\<rparr>))"

definition repository_enrichment_identities :: "workspace_plan \<Rightarrow> (string, string) bmap" where
  "repository_enrichment_identities plan = bm_map enrichment_identity (wl_repository_identities plan)"

definition validate_plan :: "workspace_plan \<Rightarrow> workspace_snapshot \<Rightarrow> string + unit" where
  "validate_plan plan snapshot =
     (if length (repository_fingerprints snapshot) \<noteq> length (wn_repositories snapshot)
      then Inl ''workspace snapshot contains duplicate repository identities''
      else if repository_fingerprints snapshot \<noteq> wl_repository_fingerprints plan
      then Inl ''prepared analysis plan does not match workspace repositories''
      else if wl_analysis_identity plan \<noteq> workspace_analysis_identity (wl_repository_identities plan)
      then Inl ''prepared workspace analysis identity is inconsistent''
      else Inr ())"

section \<open>Merging\<close>

record merged_analysis =
  ma_repositories :: "(string, repository_analysis) bmap"
  ma_overrides :: "dependency_override list"
  ma_graphql_resolvers :: "graphql_resolver_candidate list"
  ma_diagnostics :: "(string \<times> analysis_diagnostic) list"
  ma_cache :: cache_statistics

definition merge_analyzer :: "repository_contribution \<Rightarrow> analyzer_analysis \<Rightarrow> analyzer_analysis" where
  "merge_analyzer c a =
     \<lparr>cz_entities = extend_unique (cz_entities a) (rc_entities c),
      cz_observations = extend_unique (cz_observations a) (rc_observations c),
      cz_fact_shards = cz_fact_shards a @ rc_fact_shards c\<rparr>"

text \<open>What a shard holds is not repeated among the facts of the repository.\<close>

definition without_sharded :: "repository_contribution \<Rightarrow> repository_contribution" where
  "without_sharded c =
     c\<lparr>rc_entities := filter (\<lambda>e. e \<notin> set (concat (map fs_entities (rc_fact_shards c)))) (rc_entities c),
       rc_observations := filter (\<lambda>obs. obs \<notin> set (concat (map fs_observations (rc_fact_shards c)))) (rc_observations c)\<rparr>"

definition merge_repository_analysis :: "string \<Rightarrow> repository_contribution \<Rightarrow> repository_analysis \<Rightarrow> repository_analysis" where
  "merge_repository_analysis analyzer contribution analysis =
     (let c = without_sharded contribution in
      \<lparr>cr_incomplete = (cr_incomplete analysis \<or> rc_completeness contribution = IncompleteContribution),
       cr_entities = extend_unique (cr_entities analysis) (rc_entities c),
       cr_grpc_bindings = extend_unique (cr_grpc_bindings analysis) (rc_grpc_bindings c),
       cr_observations = extend_unique (cr_observations analysis) (rc_observations c),
       cr_semantic_candidates = extend_unique (cr_semantic_candidates analysis) (rc_semantic_candidates c),
       cr_diagnostics = extend_unique (cr_diagnostics analysis) (rc_diagnostics c),
       cr_analyzers = bm_entry analyzer (\<lambda>a. merge_analyzer c (case a of None \<Rightarrow> no_analyzer_analysis | Some a \<Rightarrow> a)) (cr_analyzers analysis)\<rparr>)"

definition merge_contribution ::
    "string \<Rightarrow> repository_contribution \<Rightarrow> (string, repository_analysis) bmap \<Rightarrow> string + (string, repository_analysis) bmap" where
  "merge_contribution analyzer c merged =
     rbind (ok_or (map_of merged (rc_repository c)) (''analyzer returned unknown repository '' @ rc_repository c))
       (\<lambda>analysis. Inr (bm_put (rc_repository c) (merge_repository_analysis analyzer c analysis) merged))"

definition add_cache_statistics :: "cache_statistics \<Rightarrow> cache_statistics \<Rightarrow> cache_statistics" where
  "add_cache_statistics a b =
     \<lparr>ca_memory_hits = ca_memory_hits a + ca_memory_hits b, ca_disk_hits = ca_disk_hits a + ca_disk_hits b,
      ca_misses = ca_misses a + ca_misses b\<rparr>"

definition run_analyzer :: "workspace_snapshot \<Rightarrow> analyzer \<times> analyzer_plan \<Rightarrow> merged_analysis \<Rightarrow> string + merged_analysis" where
  "run_analyzer snapshot = (\<lambda>(analyzer, plan) m.
     if az_analyzer plan \<noteq> ax_metadata analyzer
     then Inl (''prepared analysis plan does not match analyzer '' @ analyzer_id analyzer)
     else rbind (ax_analyze analyzer snapshot plan) (\<lambda>contribution.
       if ab_candidate_overrides contribution \<noteq> [] then Inl ''baseline analyzer returned compiler candidate overrides''
       else rbind (try_fold (merge_contribution (am_id (ab_metadata contribution))) (ab_repositories contribution) (ma_repositories m))
         (\<lambda>repositories. Inr
           \<lparr>ma_repositories = repositories,
            ma_overrides = ma_overrides m @ ab_overrides contribution,
            ma_graphql_resolvers = ma_graphql_resolvers m @ ab_graphql_resolvers contribution,
            ma_diagnostics = ma_diagnostics m @ ab_diagnostics contribution,
            ma_cache = add_cache_statistics (ma_cache m) (ab_cache contribution)\<rparr>)))"

definition initial_merge :: "workspace_snapshot \<Rightarrow> workspace_plan \<Rightarrow> merged_analysis" where
  "initial_merge snapshot plan =
     \<lparr>ma_repositories = bm_of_list (map (\<lambda>r. (repository_of r,
        case map_of (wl_cached_repositories plan) (repository_of r) of None \<Rightarrow> no_analysis | Some (analysis, _) \<Rightarrow> analysis))
        (wn_repositories snapshot)),
      ma_overrides = [], ma_graphql_resolvers = [], ma_diagnostics = [],
      ma_cache = \<lparr>ca_memory_hits = 0, ca_disk_hits = 0, ca_misses = 0\<rparr>\<rparr>"

section \<open>Storing\<close>

record finished_repository =
  fr_repository :: analyzed_repository
  fr_diagnostics :: "(string \<times> analysis_diagnostic) list"
  fr_semantic_candidates :: "semantic_candidate list"
  fr_fact_shards :: "fact_shard list"

definition facts_of_analysis :: "repository_state \<Rightarrow> string \<Rightarrow> repository_analysis \<Rightarrow> repository_facts" where
  "facts_of_analysis state analysis_identity a =
     \<lparr>rf_state = state, rf_analysis_identity = analysis_identity, rf_incomplete = cr_incomplete a,
      rf_diagnostics = cr_diagnostics a, rf_entities = cr_entities a, rf_grpc_bindings = cr_grpc_bindings a,
      rf_observations = cr_observations a\<rparr>"

definition shards_of_analysis :: "repository_analysis \<Rightarrow> fact_shard list" where
  "shards_of_analysis a = concat (map (cz_fact_shards \<circ> snd) (cr_analyzers a))"

definition finish_repository ::
    "cache_io \<Rightarrow> workspace_plan \<Rightarrow> repository_snapshot \<Rightarrow> (string, repository_analysis) bmap \<Rightarrow> analysis_cache
     \<Rightarrow> analysis_cache \<times> (string + finished_repository)" where
  "finish_repository io plan r merged c =
     (case map_of merged (repository_of r) of
        None \<Rightarrow> (c, Inl (''missing analysis for repository '' @ repository_of r))
      | Some merged_analysis \<Rightarrow>
          (case map_of (wl_repository_identities plan) (repository_of r) of
             None \<Rightarrow> (c, Inl (''missing analysis identity for repository '' @ repository_of r))
           | Some analysis_identity \<Rightarrow>
               (case (case map_of (wl_cached_repositories plan) (repository_of r) of
                        Some cached \<Rightarrow> (c, cached)
                      | None \<Rightarrow> store_repository io (repository_of r) (rs_fingerprint (rp_state r)) analysis_identity merged_analysis c) of
                  (c, analysis, status) \<Rightarrow>
                    (c, Inr \<lparr>fr_repository = \<lparr>ay_facts = facts_of_analysis (rp_state r) analysis_identity analysis, ay_cache = status\<rparr>,
                             fr_diagnostics = map (\<lambda>d. (repository_of r, d)) (cr_diagnostics analysis),
                             fr_semantic_candidates = cr_semantic_candidates analysis,
                             fr_fact_shards = shards_of_analysis merged_analysis\<rparr>))))"

fun finish_repositories ::
    "cache_io \<Rightarrow> workspace_plan \<Rightarrow> repository_snapshot list \<Rightarrow> (string, repository_analysis) bmap \<Rightarrow> analysis_cache
     \<Rightarrow> analysis_cache \<times> (string + finished_repository list)" where
  "finish_repositories io plan [] merged c = (c, Inr [])"
| "finish_repositories io plan (r # rs) merged c =
     (case finish_repository io plan r merged c of
        (c, Inl e) \<Rightarrow> (c, Inl e)
      | (c, Inr finished) \<Rightarrow>
          (case finish_repositories io plan rs (bm_remove (repository_of r) merged) c of
             (c, Inl e) \<Rightarrow> (c, Inl e)
           | (c, Inr rest) \<Rightarrow> (c, Inr (finished # rest))))"

section \<open>Binding GraphQL fields\<close>

definition graphql_fields :: "entity_fact list \<Rightarrow> (string \<times> string, entity_id) bmap" where
  "graphql_fields entities =
     bm_of_list (List.map_filter (\<lambda>e.
       if ef_kind e = GraphqlField
       then Option.bind (strip_prefix ''graphql-field://'' (ef_id e)) (\<lambda>p.
              map_option (\<lambda>key. (key, ef_id e)) (split_once ''/'' p))
       else None) entities)"

definition resolver_field :: "(string \<times> string, entity_id) bmap \<Rightarrow> graphql_resolver_candidate \<Rightarrow> entity_id option" where
  "resolver_field known binding =
     (case Option.bind (gr_parent binding) (\<lambda>parent. map_of known (parent, gr_field binding)) of
        Some field \<Rightarrow> Some field
      | None \<Rightarrow>
          (case filter (\<lambda>((_, name), _). name = gr_field binding) known of
             [(_, field)] \<Rightarrow> Some field
           | _ \<Rightarrow> None))"

definition bind_in_repository :: "graphql_resolver_candidate \<Rightarrow> analyzed_repository \<Rightarrow> analyzed_repository" where
  "bind_in_repository binding repository =
     (case resolver_field (graphql_fields (rf_entities (ay_facts repository))) binding of
        None \<Rightarrow> repository
      | Some field \<Rightarrow>
          let obs = observation_dependency field ResolvedBy (gr_resolver binding) (gr_evidence binding) in
          if obs \<in> set (rf_observations (ay_facts repository)) then repository
          else repository\<lparr>ay_facts := (ay_facts repository)\<lparr>rf_observations := rf_observations (ay_facts repository) @ [obs]\<rparr>\<rparr>)"

fun bind_graphql_resolver :: "graphql_resolver_candidate \<Rightarrow> analyzed_repository list \<Rightarrow> analyzed_repository list" where
  "bind_graphql_resolver binding [] = []"
| "bind_graphql_resolver binding (r # rs) =
     (if rs_identity (rf_state (ay_facts r)) = gr_repository binding then bind_in_repository binding r # rs
      else r # bind_graphql_resolver binding rs)"

definition bind_graphql_resolvers :: "graphql_resolver_candidate list \<Rightarrow> analyzed_repository list \<Rightarrow> analyzed_repository list" where
  "bind_graphql_resolvers = fold bind_graphql_resolver"

section \<open>Analysis\<close>

definition analyze_prepared ::
    "cache_io \<Rightarrow> analysis_indexer \<Rightarrow> workspace_snapshot \<Rightarrow> workspace_plan \<Rightarrow> analysis_cache
     \<Rightarrow> analysis_cache \<times> (string + workspace_analysis)" where
  "analyze_prepared io ix snapshot plan c =
     (case rbind (validate_plan plan snapshot) (\<lambda>_.
             if length (in_analyzers ix) \<noteq> length (wl_analyzers plan)
             then Inl ''prepared analysis plan does not match analyzer catalog''
             else rbind (repository_dependencies (in_analyzers ix) snapshot) (\<lambda>dependencies.
                  rbind (try_fold (run_analyzer snapshot) (zip (in_analyzers ix) (wl_analyzers plan)) (initial_merge snapshot plan))
                    (\<lambda>m. Inr (dependencies, m)))) of
        Inl e \<Rightarrow> (c, Inl e)
      | Inr (dependencies, m) \<Rightarrow>
          (case finish_repositories io plan (wn_repositories snapshot) (ma_repositories m) c of
             (c, Inl e) \<Rightarrow> (c, Inl e)
           | (c, Inr finished) \<Rightarrow>
               (c, Inr \<lparr>wa_analysis_identity = wl_analysis_identity plan,
                        wa_repositories = bind_graphql_resolvers (ma_graphql_resolvers m) (map fr_repository finished),
                        wa_overrides = ma_overrides m,
                        wa_semantic_candidates = concat (map fr_semantic_candidates finished),
                        wa_diagnostics = ma_diagnostics m @ concat (map fr_diagnostics finished),
                        wa_repository_dependencies = dependencies,
                        wa_cache = ma_cache m,
                        wa_fact_shards = concat (map fr_fact_shards finished)\<rparr>)))"

definition analyze :: "cache_io \<Rightarrow> analysis_indexer \<Rightarrow> workspace_snapshot \<Rightarrow> analysis_cache \<Rightarrow> analysis_cache \<times> (string + workspace_analysis)" where
  "analyze io ix snapshot c = (case prepare io ix snapshot c of (c, plan) \<Rightarrow> analyze_prepared io ix snapshot plan c)"

text \<open>\<open>clear_cache\<close>: the first analyzer or enricher that fails, or the file system, ends it.\<close>

fun first_failure :: "string option list \<Rightarrow> string + unit" where
  "first_failure [] = Inr ()"
| "first_failure (None # rs) = first_failure rs"
| "first_failure (Some e # rs) = Inl e"

definition clear_cache ::
    "analysis_indexer \<Rightarrow> bool \<Rightarrow> string option \<Rightarrow> (string \<Rightarrow> bool) \<Rightarrow> analysis_cache \<Rightarrow> analysis_cache \<times> (string + unit)" where
  "clear_cache ix dir_exists remove_dir below c =
     (case first_failure (map ax_clear_cache (in_analyzers ix) @ map er_clear_cache (in_enrichers ix)) of
        Inl e \<Rightarrow> (c, Inl e)
      | Inr _ \<Rightarrow>
          if in_cache_dir ix \<noteq> [] \<and> dir_exists then
            (case remove_dir of Some e \<Rightarrow> (c, Inl e) | None \<Rightarrow> (clear_analysis_cache below c, Inr ()))
          else (c\<lparr>ac_memory := [], ac_latest := []\<rparr>, Inr ()))"


section \<open>When caching cannot be observed\<close>

text \<open>
  What the indexer relies on in an analyzer, for one snapshot: it contributes to a repository only from
  that repository (\<open>local\<close>), leaves out the repositories its plan has cached, prepares every
  repository it contributes to, and takes resolvers and diagnostics of the workspace from the snapshot.
  Overrides are unconstrained.
\<close>

definition analyzes_locally ::
    "workspace_snapshot \<Rightarrow> analyzer \<Rightarrow> (repository_snapshot \<Rightarrow> repository_contribution option)
     \<Rightarrow> graphql_resolver_candidate list \<Rightarrow> (string \<times> analysis_diagnostic) list \<Rightarrow> bool" where
  "analyzes_locally snapshot a local resolvers diagnostics \<longleftrightarrow>
     az_analyzer (ax_prepare a snapshot) = ax_metadata a
     \<and> az_cached_repositories (ax_prepare a snapshot) = []
     \<and> (\<forall>r c. local r = Some c \<longrightarrow> rc_repository c = repository_of r)
     \<and> (\<forall>r \<in> set (wn_repositories snapshot). local r \<noteq> None \<longrightarrow>
          repository_of r \<in> fst ` set (az_repositories (ax_prepare a snapshot)))
     \<and> (\<forall>cached. \<exists>c. ax_analyze a snapshot ((ax_prepare a snapshot)\<lparr>az_cached_repositories := cached\<rparr>) = Inr c
          \<and> ab_metadata c = ax_metadata a \<and> ab_candidate_overrides c = []
          \<and> ab_repositories c = List.map_filter local
              (filter (\<lambda>r. map_of cached (repository_of r) = None) (wn_repositories snapshot))
          \<and> ab_graphql_resolvers c = resolvers \<and> ab_diagnostics c = diagnostics)"

definition contribute :: "string \<Rightarrow> (repository_snapshot \<Rightarrow> repository_contribution option) \<Rightarrow> repository_snapshot \<Rightarrow> repository_analysis \<Rightarrow> repository_analysis" where
  "contribute analyzer local r analysis =
     (case local r of None \<Rightarrow> analysis | Some c \<Rightarrow> merge_repository_analysis analyzer c analysis)"

text \<open>The analysis of a repository on its own, from nothing.\<close>

definition fresh_analysis :: "(analyzer \<Rightarrow> repository_snapshot \<Rightarrow> repository_contribution option) \<Rightarrow> analyzer list \<Rightarrow> repository_snapshot \<Rightarrow> repository_analysis" where
  "fresh_analysis local analyzers r = fold (\<lambda>a. contribute (analyzer_id a) (local a) r) analyzers no_analysis"

definition identity_in :: "analysis_indexer \<Rightarrow> workspace_snapshot \<Rightarrow> repository_snapshot \<Rightarrow> string" where
  "identity_in ix snapshot r =
     repository_analysis_identity (repository_metadata (map (\<lambda>a. ax_prepare a snapshot) (in_analyzers ix)) (repository_of r))"

abbreviation distinct_repositories :: "repository_snapshot list \<Rightarrow> bool" where
  "distinct_repositories rs \<equiv> distinct (map repository_of rs)"

lemma repository_analysis_identity_nonempty [simp]: "repository_analysis_identity ms \<noteq> []"
  by (simp add: repository_analysis_identity_def encode_identity_Nil_iff)

subsection \<open>Preparing\<close>

lemma repository_identities_lookup:
  assumes "distinct_repositories (wn_repositories snapshot)" "r \<in> set (wn_repositories snapshot)"
  shows "map_of (repository_identities (map (\<lambda>a. ax_prepare a snapshot) (in_analyzers ix)) snapshot) (repository_of r) =
    Some (identity_in ix snapshot r)"
  unfolding repository_identities_def identity_in_def by (rule map_of_of_list_map [OF assms])

lemma lookup_repositories_sound:
  assumes "cache_sound canon io c" "lookup_repositories io identities rs c = (c', found)"
    "\<And>r. r \<in> set rs \<Longrightarrow> map_of identities (repository_of r) = Some (aid r) \<and> aid r \<noteq> []"
    "distinct_repositories rs"
  shows "cache_sound canon io c' \<and> distinct (map fst found)
    \<and> (\<forall>k a st. (k, a, st) \<in> set found \<longrightarrow>
          (\<exists>r \<in> set rs. k = repository_of r \<and> a = canon (rs_fingerprint (rp_state r)) (aid r)))"
  using assms
proof (induction rs arbitrary: c c' found)
  case (Cons r rs)
  have id: "map_of identities (repository_of r) = Some (aid r)" "aid r \<noteq> []" using Cons.prems(3) by simp_all
  obtain c1 own where own: "lookup_repository io (repository_of r) (rs_fingerprint (rp_state r)) (aid r) c = (c1, own)"
    by (cases "lookup_repository io (repository_of r) (rs_fingerprint (rp_state r)) (aid r) c")
  note here = lookup_repository_sound [OF Cons.prems(1) id(2) own]
  obtain c2 rest where rest: "lookup_repositories io identities rs c1 = (c2, rest)"
    by (cases "lookup_repositories io identities rs c1")
  have tail: "cache_sound canon io c2" "distinct (map fst rest)"
    "(k, a, st) \<in> set rest \<Longrightarrow> \<exists>r \<in> set rs. k = repository_of r \<and> a = canon (rs_fingerprint (rp_state r)) (aid r)" for k a st
    using Cons.IH [OF here(1) rest, OF Cons.prems(3)] Cons.prems(4) by (simp_all, blast)
  have other: "repository_of r \<notin> fst ` set rest" using tail(3) Cons.prems(4) by fastforce
  show ?case
  proof (cases own)
    case None
    then have "c' = c2" "found = rest" using Cons.prems(2) id own rest by simp_all
    then show ?thesis using tail(1,2) tail(3) by fastforce
  next
    case (Some cached)
    obtain a st where cached: "cached = (a, st)" by (cases cached)
    then have "c' = c2" "found = (repository_of r, a, st) # rest" using Cons.prems(2) id own rest Some by simp_all
    moreover have "a = canon (rs_fingerprint (rp_state r)) (aid r)" using here(2) Some cached by simp
    ultimately show ?thesis using tail(1,2) other tail(3) by fastforce
  qed
qed simp

lemma cache_contribution_effect:
  "\<exists>own. cache_contribution cached repository plan = plan\<lparr>az_cached_repositories := own\<rparr> \<and>
     dom (map_of own) = dom (map_of (az_cached_repositories plan)) \<union> ({repository} \<inter> dom (map_of cached))"
proof (cases "map_of cached repository")
  case None
  then show ?thesis by (intro exI [of _ "az_cached_repositories plan"]) (auto simp: cache_contribution_def)
next
  case (Some x)
  then show ?thesis
    by (intro exI [of _ "bm_put repository (cached_contribution (am_id (az_analyzer plan)) (fst x)) (az_cached_repositories plan)"])
      (auto simp: cache_contribution_def cache_repository_def split: prod.splits)
qed

text \<open>A prepared plan is the analyzer's own with the repositories found in the caches.\<close>

lemma cache_plan_effect:
  "\<exists>own. cache_plan cached plan = plan\<lparr>az_cached_repositories := own\<rparr> \<and>
     dom (map_of own) = dom (map_of (az_cached_repositories plan)) \<union> (fst ` set (az_repositories plan) \<inter> dom (map_of cached))"
proof -
  have "\<exists>own. fold (cache_contribution cached) ks p = p\<lparr>az_cached_repositories := own\<rparr> \<and>
     dom (map_of own) = dom (map_of (az_cached_repositories p)) \<union> (set ks \<inter> dom (map_of cached))" for ks and p :: analyzer_plan
  proof (induction ks arbitrary: p)
    case (Cons k ks)
    obtain first where first: "cache_contribution cached k p = p\<lparr>az_cached_repositories := first\<rparr>"
      "dom (map_of first) = dom (map_of (az_cached_repositories p)) \<union> ({k} \<inter> dom (map_of cached))"
      using cache_contribution_effect by blast
    obtain own where own: "fold (cache_contribution cached) ks (p\<lparr>az_cached_repositories := first\<rparr>) = p\<lparr>az_cached_repositories := own\<rparr>"
      "dom (map_of own) = dom (map_of first) \<union> (set ks \<inter> dom (map_of cached))"
      using Cons.IH [of "p\<lparr>az_cached_repositories := first\<rparr>"] by auto
    have "dom (map_of own) = dom (map_of (az_cached_repositories p)) \<union> (set (k # ks) \<inter> dom (map_of cached))"
      unfolding own(2) first(2) by auto
    with own(1) first(1) show ?case by auto
  next
    case Nil
    show ?case by (rule exI [of _ "az_cached_repositories p"]) simp
  qed
  from this [of "map fst (az_repositories plan)" plan] show ?thesis by (simp add: cache_plan_def)
qed


subsection \<open>Merging\<close>

lemma contribute_None [simp]: "local r = None \<Longrightarrow> contribute analyzer local r analysis = analysis"
  and contribute_Some [simp]: "local r = Some c \<Longrightarrow> contribute analyzer local r analysis = merge_repository_analysis analyzer c analysis"
  by (simp_all add: contribute_def)

lemma merge_contributions:
  assumes "\<And>r c. local r = Some c \<Longrightarrow> rc_repository c = repository_of r"
    and "distinct_repositories rs" "repository_of ` set rs \<subseteq> dom (map_of m)"
  shows "\<exists>m'. try_fold (merge_contribution analyzer) (List.map_filter local rs) m = Inr m'
    \<and> (\<forall>r \<in> set rs. map_of m' (repository_of r) = map_option (contribute analyzer local r) (map_of m (repository_of r)))
    \<and> (\<forall>k. k \<notin> repository_of ` set rs \<longrightarrow> map_of m' k = map_of m k)"
  using assms(2,3)
proof (induction rs arbitrary: m)
  case (Cons r rs)
  show ?case
  proof (cases "local r")
    case None
    from Cons.IH [of m] Cons.prems obtain m' where
      m': "try_fold (merge_contribution analyzer) (List.map_filter local rs) m = Inr m'"
      "\<forall>r \<in> set rs. map_of m' (repository_of r) = map_option (contribute analyzer local r) (map_of m (repository_of r))"
      "\<forall>k. k \<notin> repository_of ` set rs \<longrightarrow> map_of m' k = map_of m k" by auto
    moreover have "map_of m' (repository_of r) = map_option (contribute analyzer local r) (map_of m (repository_of r))"
      using m'(3) Cons.prems(1) None by (cases "map_of m (repository_of r)") simp_all
    ultimately show ?thesis using None by (auto simp: map_filter_simps)
  next
    case (Some c)
    then have name: "rc_repository c = repository_of r" by (rule assms(1))
    obtain a where a: "map_of m (repository_of r) = Some a" using Cons.prems(2) by auto
    let ?m = "bm_put (repository_of r) (merge_repository_analysis analyzer c a) m"
    have "repository_of ` set rs \<subseteq> dom (map_of ?m)" using Cons.prems(2) by auto
    from Cons.IH [OF _ this] Cons.prems(1) obtain m' where
      m': "try_fold (merge_contribution analyzer) (List.map_filter local rs) ?m = Inr m'"
      "\<forall>r \<in> set rs. map_of m' (repository_of r) = map_option (contribute analyzer local r) (map_of ?m (repository_of r))"
      "\<forall>k. k \<notin> repository_of ` set rs \<longrightarrow> map_of m' k = map_of ?m k" by auto
    have "merge_contribution analyzer c m = Inr ?m" by (simp add: merge_contribution_def name a)
    then have "try_fold (merge_contribution analyzer) (List.map_filter local (r # rs)) m = Inr m'"
      using m'(1) Some by (simp add: map_filter_simps)
    moreover have "map_of m' (repository_of r) = map_option (contribute analyzer local r) (map_of m (repository_of r))"
      using m'(3) Cons.prems(1) Some a by simp
    moreover have "map_of m' (repository_of q) = map_option (contribute analyzer local q) (map_of m (repository_of q))" if "q \<in> set rs" for q
    proof -
      have "repository_of q \<in> repository_of ` set rs" using that by (rule imageI)
      then have "repository_of q \<noteq> repository_of r" using Cons.prems(1) by auto
      then show ?thesis using m'(2) that by simp
    qed
    moreover have "map_of m' k = map_of m k" if "k \<notin> repository_of ` set (r # rs)" for k
      using m'(3) that by simp
    ultimately show ?thesis by auto
  qed
qed (auto simp: map_filter_simps)

lemma map_filter_filter:
  "(\<And>x. x \<in> set xs \<Longrightarrow> f x \<noteq> None \<Longrightarrow> P x = Q x) \<Longrightarrow> List.map_filter f (filter P xs) = List.map_filter f (filter Q xs)"
  by (induction xs) (auto simp: map_filter_simps split: option.splits)

text \<open>One analyzer: every repository not in the cache gets its contribution, the others nothing.\<close>

lemma run_analyzer_effect:
  assumes "analyzes_locally snapshot a local resolvers diagnostics"
    and "distinct_repositories (wn_repositories snapshot)"
    and "repository_of ` set (wn_repositories snapshot) \<subseteq> dom (map_of (ma_repositories m))"
  shows "\<exists>m'. run_analyzer snapshot (a, cache_plan cached (ax_prepare a snapshot)) m = Inr m'
    \<and> (\<forall>r \<in> set (wn_repositories snapshot). map_of (ma_repositories m') (repository_of r) =
         map_option (\<lambda>x. if map_of cached (repository_of r) = None then contribute (analyzer_id a) local r x else x)
           (map_of (ma_repositories m) (repository_of r)))
    \<and> ma_graphql_resolvers m' = ma_graphql_resolvers m @ resolvers
    \<and> ma_diagnostics m' = ma_diagnostics m @ diagnostics"
proof -
  let ?plan = "ax_prepare a snapshot"
  note contract = assms(1) [unfolded analyzes_locally_def]
  obtain own where own: "cache_plan cached ?plan = ?plan\<lparr>az_cached_repositories := own\<rparr>"
    "dom (map_of own) = fst ` set (az_repositories ?plan) \<inter> dom (map_of cached)"
    using cache_plan_effect [of cached ?plan] contract by auto
  obtain c where c: "ax_analyze a snapshot (?plan\<lparr>az_cached_repositories := own\<rparr>) = Inr c"
    "ab_metadata c = ax_metadata a" "ab_candidate_overrides c = []"
    "ab_repositories c = List.map_filter local (filter (\<lambda>r. map_of own (repository_of r) = None) (wn_repositories snapshot))"
    "ab_graphql_resolvers c = resolvers" "ab_diagnostics c = diagnostics"
    using contract by blast
  let ?rs = "filter (\<lambda>r. map_of cached (repository_of r) = None) (wn_repositories snapshot)"
  have skipped: "map_of own (repository_of r) = None \<longleftrightarrow> map_of cached (repository_of r) = None"
    if "r \<in> set (wn_repositories snapshot)" "local r \<noteq> None" for r
  proof -
    have "repository_of r \<in> fst ` set (az_repositories ?plan)" using contract that by blast
    then have "repository_of r \<in> dom (map_of own) \<longleftrightarrow> repository_of r \<in> dom (map_of cached)" by (simp add: own(2))
    then show ?thesis by (auto simp: dom_def)
  qed
  have repositories: "ab_repositories c = List.map_filter local ?rs"
    unfolding c(4) by (rule map_filter_filter [OF skipped])
  have "distinct_repositories ?rs" using assms(2) by (simp add: distinct_map_filter)
  moreover have "repository_of ` set ?rs \<subseteq> dom (map_of (ma_repositories m))" using assms(3) by auto
  moreover have "rc_repository d = repository_of r" if "local r = Some d" for r d using contract that by blast
  ultimately obtain reps where
    reps: "try_fold (merge_contribution (analyzer_id a)) (List.map_filter local ?rs) (ma_repositories m) = Inr reps"
    "\<forall>r \<in> set ?rs. map_of reps (repository_of r) = map_option (contribute (analyzer_id a) local r) (map_of (ma_repositories m) (repository_of r))"
    "\<forall>k. k \<notin> repository_of ` set ?rs \<longrightarrow> map_of reps k = map_of (ma_repositories m) k"
    using merge_contributions [of local ?rs "ma_repositories m" "analyzer_id a"] by blast
  have "map_of reps (repository_of r) =
      map_option (\<lambda>x. if map_of cached (repository_of r) = None then contribute (analyzer_id a) local r x else x)
        (map_of (ma_repositories m) (repository_of r))" if "r \<in> set (wn_repositories snapshot)" for r
  proof (cases "map_of cached (repository_of r)")
    case None
    then show ?thesis using reps(2) that by simp
  next
    case (Some x)
    then have "repository_of r \<notin> repository_of ` set ?rs" by auto
    then show ?thesis using reps(3) Some by (simp add: option.map_ident)
  qed
  then show ?thesis
    using c own(1) contract reps(1) by (auto simp: run_analyzer_def repositories analyzer_id_def)
qed


lemma run_analyzers_effect:
  assumes "\<And>a. a \<in> set as \<Longrightarrow> analyzes_locally snapshot a (local a) (resolvers a) (diagnostics a)"
    and "distinct_repositories (wn_repositories snapshot)"
    and "repository_of ` set (wn_repositories snapshot) \<subseteq> dom (map_of (ma_repositories m))"
  shows "\<exists>m'. try_fold (run_analyzer snapshot) (zip as (map (\<lambda>a. cache_plan cached (ax_prepare a snapshot)) as)) m = Inr m'
    \<and> (\<forall>r \<in> set (wn_repositories snapshot). map_of (ma_repositories m') (repository_of r) =
         map_option (\<lambda>x. if map_of cached (repository_of r) = None
                         then fold (\<lambda>a. contribute (analyzer_id a) (local a) r) as x else x)
           (map_of (ma_repositories m) (repository_of r)))
    \<and> ma_graphql_resolvers m' = ma_graphql_resolvers m @ concat (map resolvers as)
    \<and> ma_diagnostics m' = ma_diagnostics m @ concat (map diagnostics as)"
  using assms(1,3)
proof (induction as arbitrary: m)
  case Nil
  then show ?case by (simp add: option.map_ident cong: if_cong)
next
  case (Cons a as)
  from run_analyzer_effect [OF Cons.prems(1) assms(2) Cons.prems(2), of a cached]
  obtain m1 where m1: "run_analyzer snapshot (a, cache_plan cached (ax_prepare a snapshot)) m = Inr m1"
    "\<And>r. r \<in> set (wn_repositories snapshot) \<Longrightarrow> map_of (ma_repositories m1) (repository_of r) =
         map_option (\<lambda>x. if map_of cached (repository_of r) = None then contribute (analyzer_id a) (local a) r x else x)
           (map_of (ma_repositories m) (repository_of r))"
    "ma_graphql_resolvers m1 = ma_graphql_resolvers m @ resolvers a"
    "ma_diagnostics m1 = ma_diagnostics m @ diagnostics a" by auto
  have "repository_of ` set (wn_repositories snapshot) \<subseteq> dom (map_of (ma_repositories m1))"
    using Cons.prems(2) by (auto simp: m1(2) dom_def)
  from Cons.IH [OF Cons.prems(1) this] obtain m2 where
    m2: "try_fold (run_analyzer snapshot) (zip as (map (\<lambda>a. cache_plan cached (ax_prepare a snapshot)) as)) m1 = Inr m2"
    "\<And>r. r \<in> set (wn_repositories snapshot) \<Longrightarrow> map_of (ma_repositories m2) (repository_of r) =
         map_option (\<lambda>x. if map_of cached (repository_of r) = None
                         then fold (\<lambda>a. contribute (analyzer_id a) (local a) r) as x else x)
           (map_of (ma_repositories m1) (repository_of r))"
    "ma_graphql_resolvers m2 = ma_graphql_resolvers m1 @ concat (map resolvers as)"
    "ma_diagnostics m2 = ma_diagnostics m1 @ concat (map diagnostics as)" by auto
  have "map_of (ma_repositories m2) (repository_of r) =
         map_option (\<lambda>x. if map_of cached (repository_of r) = None
                         then fold (\<lambda>a. contribute (analyzer_id a) (local a) r) (a # as) x else x)
           (map_of (ma_repositories m) (repository_of r))" if "r \<in> set (wn_repositories snapshot)" for r
    using that by (simp add: m1(2) m2(2) option.map_comp comp_def if_distrib cong: if_cong)
  then show ?case using m1(1,3,4) m2(1,3,4) by simp
qed

subsection \<open>Finishing\<close>

text \<open>What finishing makes of a repository with analysis \<open>a\<close>, whichever way it was cached.\<close>

definition finished_as :: "repository_snapshot \<Rightarrow> string \<Rightarrow> repository_analysis \<Rightarrow> finished_repository \<Rightarrow> bool" where
  "finished_as r analysis_identity a f \<longleftrightarrow>
     ay_facts (fr_repository f) = facts_of_analysis (rp_state r) analysis_identity a
     \<and> fr_diagnostics f = map (\<lambda>d. (repository_of r, d)) (cr_diagnostics a)
     \<and> fr_semantic_candidates f = cr_semantic_candidates a \<and> fr_fact_shards f = shards_of_analysis a"

lemma finish_repository_effect:
  assumes "prints_back io" "cache_sound canon io c" "map_of merged (repository_of r) = Some a"
    "map_of (wl_repository_identities plan) (repository_of r) = Some aid" "aid \<noteq> []"
    "a = canon (rs_fingerprint (rp_state r)) aid"
    "\<And>b st. map_of (wl_cached_repositories plan) (repository_of r) = Some (b, st) \<Longrightarrow> b = a"
  shows "\<exists>c' f. finish_repository io plan r merged c = (c', Inr f) \<and> cache_sound canon io c' \<and> finished_as r aid a f"
proof (cases "map_of (wl_cached_repositories plan) (repository_of r)")
  case (Some x)
  then obtain b st where "x = (b, st)" "b = a" using assms(7) by (cases x) auto
  then show ?thesis using assms(2-4) Some by (auto simp: finish_repository_def finished_as_def)
next
  case None
  obtain c' stored st where store: "store_repository io (repository_of r) (rs_fingerprint (rp_state r)) aid a c = (c', stored, st)"
    by (cases "store_repository io (repository_of r) (rs_fingerprint (rp_state r)) aid a c")
  from store_repository_sound [OF assms(2,1,5,6) store] show ?thesis
    using assms(3,4) None store by (auto simp: finish_repository_def finished_as_def)
qed

lemma finish_repositories_effect:
  assumes "prints_back io" "distinct_repositories rs" "cache_sound canon io c"
    and "\<And>r. r \<in> set rs \<Longrightarrow> map_of merged (repository_of r) = Some (A r)
        \<and> map_of (wl_repository_identities plan) (repository_of r) = Some (aid r) \<and> aid r \<noteq> []
        \<and> A r = canon (rs_fingerprint (rp_state r)) (aid r)
        \<and> (\<forall>b st. map_of (wl_cached_repositories plan) (repository_of r) = Some (b, st) \<longrightarrow> b = A r)"
  shows "\<exists>c' fs. finish_repositories io plan rs merged c = (c', Inr fs) \<and> cache_sound canon io c'
    \<and> list_all2 (\<lambda>r. finished_as r (aid r) (A r)) rs fs"
  using assms(2-4)
proof (induction rs arbitrary: c merged)
  case (Cons r rs)
  note r = Cons.prems(3) [of r, simplified]
  obtain c1 f where f: "finish_repository io plan r merged c = (c1, Inr f)" "cache_sound canon io c1" "finished_as r (aid r) (A r) f"
    using finish_repository_effect [OF assms(1) Cons.prems(2), of merged r "A r" plan "aid r"] r by blast
  have rest: "map_of (bm_remove (repository_of r) merged) (repository_of q) = Some (A q)
        \<and> map_of (wl_repository_identities plan) (repository_of q) = Some (aid q) \<and> aid q \<noteq> []
        \<and> A q = canon (rs_fingerprint (rp_state q)) (aid q)
        \<and> (\<forall>b st. map_of (wl_cached_repositories plan) (repository_of q) = Some (b, st) \<longrightarrow> b = A q)" if "q \<in> set rs" for q
  proof -
    have "repository_of q \<in> repository_of ` set rs" using that by (rule imageI)
    then have "repository_of q \<noteq> repository_of r" using Cons.prems(1) by auto
    then have same: "map_of (bm_remove (repository_of r) merged) (repository_of q) = map_of merged (repository_of q)" by simp
    show ?thesis unfolding same by (rule Cons.prems(3)) (simp add: that)
  qed
  have "distinct_repositories rs" using Cons.prems(1) by simp
  from Cons.IH [OF this f(2) rest] obtain c2 fs where fs: "finish_repositories io plan rs (bm_remove (repository_of r) merged) c1 = (c2, Inr fs)"
    "cache_sound canon io c2" "list_all2 (\<lambda>r. finished_as r (aid r) (A r)) rs fs"
    by blast
  with f show ?case by auto
qed simp

lemma finished_all:
  assumes "list_all2 (\<lambda>r. finished_as r (aid r) (A r)) rs fs"
  shows "map (ay_facts \<circ> fr_repository) fs = map (\<lambda>r. facts_of_analysis (rp_state r) (aid r) (A r)) rs"
    and "concat (map fr_diagnostics fs) = concat (map (\<lambda>r. map (\<lambda>d. (repository_of r, d)) (cr_diagnostics (A r))) rs)"
    and "concat (map fr_semantic_candidates fs) = concat (map (cr_semantic_candidates \<circ> A) rs)"
    and "concat (map fr_fact_shards fs) = concat (map (shards_of_analysis \<circ> A) rs)"
  using assms by (induction rs fs rule: list_all2_induct) (simp_all add: finished_as_def)


subsection \<open>Binding\<close>

lemma bind_resolver_facts:
  assumes "map ay_facts xs = map ay_facts ys"
  shows "map ay_facts (bind_graphql_resolver binding xs) = map ay_facts (bind_graphql_resolver binding ys)"
  using assms
proof (induction binding xs arbitrary: ys rule: bind_graphql_resolver.induct)
  case (2 binding x xs)
  then obtain y ys' where ys: "ys = y # ys'" "ay_facts x = ay_facts y" "map ay_facts xs = map ay_facts ys'" by (cases ys) auto
  have "ay_facts (bind_in_repository binding x) = ay_facts (bind_in_repository binding y)"
    by (auto simp: bind_in_repository_def Let_def ys(2) split: option.splits)
  then show ?case using 2 ys by simp
qed simp

lemma bind_resolvers_facts:
  "map ay_facts xs = map ay_facts ys \<Longrightarrow>
     map ay_facts (bind_graphql_resolvers bindings xs) = map ay_facts (bind_graphql_resolvers bindings ys)"
proof (induction bindings arbitrary: xs ys)
  case (Cons b bs)
  show ?case using Cons.IH [OF bind_resolver_facts [OF Cons.prems]] by (simp add: bind_graphql_resolvers_def)
qed (simp add: bind_graphql_resolvers_def)

definition bound_facts :: "graphql_resolver_candidate list \<Rightarrow> repository_facts list \<Rightarrow> repository_facts list" where
  "bound_facts bindings facts =
     map ay_facts (bind_graphql_resolvers bindings (map (\<lambda>f. \<lparr>ay_facts = f, ay_cache = CacheMiss\<rparr>) facts))"

lemma bound_facts_of: "map ay_facts (bind_graphql_resolvers bindings xs) = bound_facts bindings (map ay_facts xs)"
  unfolding bound_facts_def by (rule bind_resolvers_facts) (simp add: comp_def)

subsection \<open>The whole analysis\<close>

lemma validate_prepared:
  assumes "distinct_repositories (wn_repositories snapshot)" "prepare io ix snapshot c = (c1, plan)"
  shows "validate_plan plan snapshot = Inr ()"
proof -
  have keys: "map fst (repository_fingerprints snapshot) = bs_of_list (map repository_of (wn_repositories snapshot))"
  proof (rule ascending_unique)
    show "ascending (map fst (repository_fingerprints snapshot))"
      using bm_wf_of_list unfolding repository_fingerprints_def bm_wf_def by blast
    show "set (map fst (repository_fingerprints snapshot)) = set (bs_of_list (map repository_of (wn_repositories snapshot)))"
      by (auto simp: repository_fingerprints_def keys_bm_of_list image_image)
  qed simp
  have "length (bs_of_list (map repository_of (wn_repositories snapshot))) = card (set (map repository_of (wn_repositories snapshot)))"
    by (metis ascending_bs_of_list ascending_distinct distinct_card set_bs_of_list)
  then have "length (repository_fingerprints snapshot) = length (wn_repositories snapshot)"
    using distinct_card [OF assms(1)] keys by (metis length_map)
  moreover have "wl_repository_fingerprints plan = repository_fingerprints snapshot"
    "wl_analysis_identity plan = workspace_analysis_identity (wl_repository_identities plan)"
    using assms(2) by (auto simp: prepare_def Let_def split: prod.splits)
  ultimately show ?thesis by (simp add: validate_plan_def)
qed

definition fresh_facts ::
    "(analyzer \<Rightarrow> repository_snapshot \<Rightarrow> repository_contribution option) \<Rightarrow> analysis_indexer \<Rightarrow> workspace_snapshot \<Rightarrow> repository_facts list" where
  "fresh_facts local ix snapshot =
     map (\<lambda>r. facts_of_analysis (rp_state r) (identity_in ix snapshot r) (fresh_analysis local (in_analyzers ix) r))
       (wn_repositories snapshot)"

lemma caching_transparent:
  fixes canon :: "string \<Rightarrow> string \<Rightarrow> repository_analysis"
  assumes "\<And>a. a \<in> set (in_analyzers ix) \<Longrightarrow> analyzes_locally snapshot a (local a) (resolvers a) (diagnostics a)"
    and "repository_dependencies (in_analyzers ix) snapshot = Inr dependencies"
    and distinct: "distinct_repositories (wn_repositories snapshot)"
    and determined: "\<And>r. r \<in> set (wn_repositories snapshot) \<Longrightarrow>
          canon (rs_fingerprint (rp_state r)) (identity_in ix snapshot r) = fresh_analysis local (in_analyzers ix) r"
    and io: "prints_back io" and sound: "cache_sound canon io c" "cache_sound canon io c'"
    and prepared: "prepare io ix snapshot c = (c1, plan)"
  shows "cache_sound canon io c1 \<and> (\<exists>c2 a. analyze_prepared io ix snapshot plan c' = (c2, Inr a) \<and> cache_sound canon io c2
    \<and> map ay_facts (wa_repositories a) = bound_facts (concat (map resolvers (in_analyzers ix))) (fresh_facts local ix snapshot)
    \<and> wa_semantic_candidates a = concat (map (cr_semantic_candidates \<circ> fresh_analysis local (in_analyzers ix)) (wn_repositories snapshot))
    \<and> wa_fact_shards a = concat (map (shards_of_analysis \<circ> fresh_analysis local (in_analyzers ix)) (wn_repositories snapshot))
    \<and> wa_diagnostics a = concat (map diagnostics (in_analyzers ix))
        @ concat (map (\<lambda>r. map (\<lambda>d. (repository_of r, d)) (cr_diagnostics (fresh_analysis local (in_analyzers ix) r))) (wn_repositories snapshot))
    \<and> wa_repository_dependencies a = dependencies)"
proof -
  let ?rs = "wn_repositories snapshot" and ?as = "in_analyzers ix"
  let ?plans = "map (\<lambda>a. ax_prepare a snapshot) ?as"
  let ?fresh = "fresh_analysis local ?as"
  obtain found where found: "lookup_repositories io (repository_identities ?plans snapshot) ?rs c = (c1, found)"
    and plan: "wl_analyzers plan = map (\<lambda>a. cache_plan (bm_of_list found) (ax_prepare a snapshot)) ?as"
      "wl_repository_identities plan = repository_identities ?plans snapshot" "wl_cached_repositories plan = bm_of_list found"
    using prepared by (auto simp: prepare_def Let_def split: prod.splits)
  note id = repository_identities_lookup [OF distinct]
  have looked: "cache_sound canon io c1" "distinct (map fst found)"
    "(k, b, st) \<in> set found \<Longrightarrow> \<exists>r \<in> set ?rs. k = repository_of r \<and> b = canon (rs_fingerprint (rp_state r)) (identity_in ix snapshot r)"
    for k b st
    using lookup_repositories_sound [OF sound(1) found, of "identity_in ix snapshot"] id distinct
    by (simp_all add: identity_in_def, blast)
  have cached: "b = ?fresh r" if "r \<in> set ?rs" "map_of (bm_of_list found) (repository_of r) = Some (b, st)" for r b st
  proof -
    have "(repository_of r, b, st) \<in> set found" using that(2) by (auto simp: map_of_bm_of_list dest: map_of_SomeD)
    then obtain q where "q \<in> set ?rs" "repository_of q = repository_of r" "b = ?fresh q"
      using looked(3) determined by metis
    moreover have "q = r" using calculation(1,2) that(1) distinct by (auto simp: distinct_map dest: inj_onD)
    ultimately show ?thesis by simp
  qed
  let ?initial = "initial_merge snapshot plan"
  have start: "map_of (ma_repositories ?initial) (repository_of r) =
      Some (case map_of (bm_of_list found) (repository_of r) of None \<Rightarrow> no_analysis | Some (b, _) \<Rightarrow> b)" if "r \<in> set ?rs" for r
    unfolding initial_merge_def merged_analysis.simps plan(3) by (rule map_of_of_list_map [OF distinct that])
  have dom: "repository_of ` set ?rs \<subseteq> dom (map_of (ma_repositories ?initial))" using start by auto
  obtain m where m: "try_fold (run_analyzer snapshot) (zip ?as (wl_analyzers plan)) ?initial = Inr m"
    "\<And>r. r \<in> set ?rs \<Longrightarrow> map_of (ma_repositories m) (repository_of r) =
         map_option (\<lambda>x. if map_of (bm_of_list found) (repository_of r) = None
                         then fold (\<lambda>a. contribute (analyzer_id a) (local a) r) ?as x else x)
           (map_of (ma_repositories ?initial) (repository_of r))"
    "ma_graphql_resolvers m = concat (map resolvers ?as)" "ma_diagnostics m = concat (map diagnostics ?as)"
    using run_analyzers_effect [OF assms(1) distinct dom, of ?as "bm_of_list found"]
    by (auto simp: plan(1) initial_merge_def)
  have merged: "map_of (ma_repositories m) (repository_of r) = Some (?fresh r)" if "r \<in> set ?rs" for r
    using m(2) [OF that] start [OF that] cached [OF that]
    by (auto simp: fresh_analysis_def split: option.splits)
  obtain c2 fs where fs: "finish_repositories io plan ?rs (ma_repositories m) c' = (c2, Inr fs)" "cache_sound canon io c2"
    "list_all2 (\<lambda>r. finished_as r (identity_in ix snapshot r) (?fresh r)) ?rs fs"
    using finish_repositories_effect [OF io distinct sound(2), of "ma_repositories m" ?fresh plan "identity_in ix snapshot"]
      merged id cached determined by (auto simp: plan(2,3) identity_in_def)
  note all = finished_all [OF fs(3)]
  have "analyze_prepared io ix snapshot plan c' = (c2, Inr
      \<lparr>wa_analysis_identity = wl_analysis_identity plan,
       wa_repositories = bind_graphql_resolvers (ma_graphql_resolvers m) (map fr_repository fs), wa_overrides = ma_overrides m,
       wa_semantic_candidates = concat (map fr_semantic_candidates fs),
       wa_diagnostics = ma_diagnostics m @ concat (map fr_diagnostics fs),
       wa_repository_dependencies = dependencies, wa_cache = ma_cache m, wa_fact_shards = concat (map fr_fact_shards fs)\<rparr>)"
    using assms(2) m(1) fs(1) plan(1) validate_prepared [OF distinct prepared] by (simp add: analyze_prepared_def)
  then show ?thesis
    using looked(1) fs(2) all m(3,4) by (simp add: bound_facts_of fresh_facts_def)
qed


text \<open>
  C3. Caching cannot be observed. For analyzers that contribute to a repository from that repository alone,
  and as long as a fingerprint and an analysis identity determine the fresh analysis, a plan prepared
  from any sound cache and analyzed with any sound cache, whatever other runs stored in between and
  whichever file operations fail, gives the facts, candidates, shards and diagnostics of an analysis
  from nothing; and the caches it leaves behind are sound, hard links included.
\<close>

theorem caching_unobservable:
  fixes canon :: "string \<Rightarrow> string \<Rightarrow> repository_analysis"
  assumes "\<And>a. a \<in> set (in_analyzers ix) \<Longrightarrow> analyzes_locally snapshot a (local a) (resolvers a) (diagnostics a)"
    and "repository_dependencies (in_analyzers ix) snapshot = Inr dependencies"
    and distinct: "distinct_repositories (wn_repositories snapshot)"
    and determined: "\<And>r. r \<in> set (wn_repositories snapshot) \<Longrightarrow>
          canon (rs_fingerprint (rp_state r)) (identity_in ix snapshot r) = fresh_analysis local (in_analyzers ix) r"
    and io: "prints_back io" and sound: "cache_sound canon io c" "cache_sound canon io c'"
    and prepared: "prepare io ix snapshot c = (c1, plan)"
  shows "cache_sound canon io c1 \<and> (\<exists>c2 a. analyze_prepared io ix snapshot plan c' = (c2, Inr a) \<and> cache_sound canon io c2
    \<and> map ay_facts (wa_repositories a) = bound_facts (concat (map resolvers (in_analyzers ix))) (fresh_facts local ix snapshot)
    \<and> wa_semantic_candidates a = concat (map (cr_semantic_candidates \<circ> fresh_analysis local (in_analyzers ix)) (wn_repositories snapshot))
    \<and> wa_fact_shards a = concat (map (shards_of_analysis \<circ> fresh_analysis local (in_analyzers ix)) (wn_repositories snapshot))
    \<and> wa_diagnostics a = concat (map diagnostics (in_analyzers ix))
        @ concat (map (\<lambda>r. map (\<lambda>d. (repository_of r, d)) (cr_diagnostics (fresh_analysis local (in_analyzers ix) r))) (wn_repositories snapshot))
    \<and> wa_repository_dependencies a = dependencies)"
  using assms by (rule caching_transparent)

section \<open>Examples\<close>

definition cached_repository_r :: repository_snapshot where
  "cached_repository_r =
     \<lparr>rp_base = ''/r'', rp_state = \<lparr>rs_repository = \<lparr>lr_identity = ''r''\<rparr>, rs_head = None, rs_fingerprint = ''1''\<rparr>, rp_inputs = []\<rparr>"

definition cached_repository_q :: repository_snapshot where
  "cached_repository_q =
     \<lparr>rp_base = ''/q'', rp_state = \<lparr>rs_repository = \<lparr>lr_identity = ''q''\<rparr>, rs_head = None, rs_fingerprint = ''2''\<rparr>, rp_inputs = []\<rparr>"

definition example_candidate :: semantic_candidate where
  "example_candidate =
     \<lparr>sc_id = ''c'', sc_repository = ''r'', sc_from = ''f'', sc_relation = Calls, sc_unresolved_to = ''u'',
      sc_span = \<lparr>ss_path = ''p'', ss_start = \<lparr>sp_line = 1, sp_character = 1\<rparr>, ss_end = \<lparr>sp_line = 1, sp_character = 2\<rparr>\<rparr>,
      sc_evidence = ''p:1''\<rparr>"

definition example_contribution :: "semantic_candidate list \<Rightarrow> repository_snapshot \<Rightarrow> repository_contribution" where
  "example_contribution candidates r =
     \<lparr>rc_repository = repository_of r, rc_completeness = CompleteContribution, rc_entities = [], rc_grpc_bindings = [],
      rc_observations = [], rc_semantic_candidates = candidates, rc_diagnostics = [], rc_replaced_diagnostic_codes = [],
      rc_fact_shards = []\<rparr>"

text \<open>An analyzer by what it contributes to each repository of a snapshot.\<close>

definition example_analyzer :: "(workspace_snapshot \<Rightarrow> repository_snapshot \<Rightarrow> semantic_candidate list) \<Rightarrow> analyzer" where
  "example_analyzer candidates =
     \<lparr>ax_metadata = \<lparr>am_id = ''x'', am_version = ''1''\<rparr>, ax_accepts = (\<lambda>_. True), ax_input_kind = (\<lambda>_. Some SourceInput),
      ax_analysis_inputs = (\<lambda>_. []), ax_identity_inputs = [],
      ax_prepare = default_prepare \<lparr>am_id = ''x'', am_version = ''1''\<rparr> (\<lambda>_. True),
      ax_dependencies = (\<lambda>_. Inr []),
      ax_analyze = (\<lambda>s plan. Inr
        \<lparr>ab_metadata = \<lparr>am_id = ''x'', am_version = ''1''\<rparr>, ab_active_repositories = map repository_of (wn_repositories s),
         ab_repositories = map (\<lambda>r. example_contribution (candidates s r) r)
           (filter (\<lambda>r. map_of (az_cached_repositories plan) (repository_of r) = None) (wn_repositories s)),
         ab_overrides = [], ab_candidate_overrides = [], ab_graphql_resolvers = [], ab_diagnostics = [],
         ab_cache = \<lparr>ca_memory_hits = 0, ca_disk_hits = 0, ca_misses = 0\<rparr>\<rparr>),
      ax_clear_cache = None\<rparr>"

definition example_core :: "(workspace_snapshot \<Rightarrow> repository_snapshot \<Rightarrow> semantic_candidate list) \<Rightarrow> analysis_indexer" where
  "example_core candidates = \<lparr>in_analyzers = [example_analyzer candidates], in_enrichers = [], in_cache_dir = ''/cache''\<rparr>"

definition example_io :: cache_io where
  "example_io =
     \<lparr>io_root = ''/cache'', io_open = (\<lambda>_. True), io_create_dir = (\<lambda>_. True), io_create = (\<lambda>_. True), io_link = (\<lambda>_ _. True),
      io_write = (\<lambda>_ s. s), io_print = (\<lambda>a. if a = no_analysis then ''{}'' else ''''),
      io_parse = (\<lambda>s. if s = ''{}'' then Some no_analysis else None)\<rparr>"

definition empty_cache :: analysis_cache where
  "empty_cache = \<lparr>ac_memory = [], ac_latest = [], ac_disk = \<lparr>dk_names = (\<lambda>_. None), dk_contents = (\<lambda>_. []), dk_next = 0\<rparr>\<rparr>"

definition example_pair :: workspace_snapshot where
  "example_pair = \<lparr>wn_name = ''w'', wn_repositories = [cached_repository_r, cached_repository_q]\<rparr>"

definition example_single :: workspace_snapshot where
  "example_single = \<lparr>wn_name = ''v'', wn_repositories = [cached_repository_r]\<rparr>"

text \<open>A cache that holds the analysis of \<open>r\<close> already.\<close>

definition warm_cache :: analysis_cache where
  "warm_cache = empty_cache\<lparr>ac_memory :=
     [((''1'', identity_in (example_core (\<lambda>_ _. [example_candidate])) example_single cached_repository_r),
       fresh_analysis (\<lambda>_ r. Some (example_contribution [example_candidate] r)) [example_analyzer (\<lambda>_ _. [example_candidate])] cached_repository_r)]\<rparr>"

lemma example_prints_back: "prints_back example_io"
  by (auto simp: prints_back_def example_io_def split: if_splits)

lemma example_local:
  "analyzes_locally s (example_analyzer (\<lambda>_ _. cs)) (\<lambda>r. Some (example_contribution cs r)) [] []"
  by (auto simp: analyzes_locally_def example_analyzer_def default_prepare_def plan_without_plugins_def keys_bm_of_list
      example_contribution_def List.map_filter_def image_image comp_def)

theorem caching_unobservable_witness:
  "\<exists>c2 a. analyze_prepared example_io (example_core (\<lambda>_ _. [example_candidate])) example_single
       (snd (prepare example_io (example_core (\<lambda>_ _. [example_candidate])) example_single warm_cache)) empty_cache = (c2, Inr a)
     \<and> wa_semantic_candidates a = [example_candidate]"
proof -
  let ?ix = "example_core (\<lambda>_ _. [example_candidate])" and ?local = "\<lambda>(_ :: analyzer) r. Some (example_contribution [example_candidate] r)"
  define fresh where "fresh = fresh_analysis ?local [example_analyzer (\<lambda>_ _. [example_candidate])] cached_repository_r"
  obtain c1 plan where prepared: "prepare example_io ?ix example_single warm_cache = (c1, plan)"
    by (cases "prepare example_io ?ix example_single warm_cache")
  have disk: "path_sound (\<lambda>_ _. fresh) example_io \<lparr>dk_names = (\<lambda>_. None), dk_contents = (\<lambda>_. []), dk_next = 0\<rparr>"
    by (simp add: path_sound_def)
  have "cache_sound (\<lambda>_ _. fresh) example_io warm_cache" "cache_sound (\<lambda>_ _. fresh) example_io empty_cache"
    using disk by (simp_all add: cache_sound_def warm_cache_def empty_cache_def fresh_def)
  moreover have "distinct_repositories (wn_repositories example_single)" by (simp add: example_single_def)
  moreover have "repository_dependencies (in_analyzers ?ix) example_single = Inr []"
    by (simp add: repository_dependencies_def example_core_def example_analyzer_def sort_dedup_by_def)
  moreover have "analyzes_locally example_single a (?local a) [] []" if "a \<in> set (in_analyzers ?ix)" for a
    using that example_local by (simp add: example_core_def)
  moreover have "fresh = fresh_analysis ?local (in_analyzers ?ix) r" if "r \<in> set (wn_repositories example_single)" for r
    using that by (simp add: example_single_def example_core_def fresh_def)
  ultimately have "\<exists>c2 a. analyze_prepared example_io ?ix example_single plan empty_cache = (c2, Inr a)
      \<and> wa_semantic_candidates a = concat (map (cr_semantic_candidates \<circ> fresh_analysis ?local (in_analyzers ?ix)) (wn_repositories example_single))"
    using caching_unobservable [of ?ix example_single ?local "\<lambda>_. []" "\<lambda>_. []" "[]" "\<lambda>_ _. fresh", OF _ _ _ _ example_prints_back _ _ prepared]
    by blast
  then show ?thesis
    using prepared by (simp add: example_single_def fresh_analysis_def contribute_def example_core_def merge_repository_analysis_def
        example_contribution_def without_sharded_def no_analysis_def)
qed

text \<open>
  An analyzer whose contribution to \<open>r\<close> depends on which other repositories the workspace has: the
  candidate of \<open>r\<close> is unresolved unless \<open>q\<close> is there. What a workspace with \<open>q\<close> stored for \<open>r\<close> is then
  served to a workspace without it.
\<close>

definition resolved_by_q :: "workspace_snapshot \<Rightarrow> repository_snapshot \<Rightarrow> semantic_candidate list" where
  "resolved_by_q s r = (if list_ex (\<lambda>q. repository_of q = ''q'') (wn_repositories s) then [] else [example_candidate])"

definition candidates_after :: "analysis_cache \<times> (string + workspace_analysis) \<Rightarrow> semantic_candidate list option" where
  "candidates_after outcome = (case snd outcome of Inl _ \<Rightarrow> None | Inr a \<Rightarrow> Some (wa_semantic_candidates a))"

lemma cached_candidates_stale:
  "candidates_after (analyze example_io (example_core resolved_by_q) example_single empty_cache) = Some [example_candidate]"
  "candidates_after (analyze example_io (example_core resolved_by_q) example_single
     (fst (analyze example_io (example_core resolved_by_q) example_pair empty_cache))) = Some []"
  by code_simp+

end
