(* ===== verification/Activity.thy ===== *)
theory Activity imports Prelude begin

text \<open>
  Activities: what a run of the daemon does, step by step. An activity changes a state and goes on with a
  value or ends the run with its answer, as \<open>?\<close> and \<open>return\<close> do. \<open>wp\<close> and the collection \<open>steps\<close>
  reason about them.
\<close>

datatype ('r, 'a) step = Proceed 'a | Finish 'r

type_synonym ('s, 'r, 'a) activity = "'s \<Rightarrow> 's \<times> ('r, 'a) step"

definition andthen :: "('s, 'r, 'a) activity \<Rightarrow> ('a \<Rightarrow> ('s, 'r, 'b) activity) \<Rightarrow> ('s, 'r, 'b) activity" where
  "andthen activity next r =
     (case activity r of
        (r, Finish answer) \<Rightarrow> (r, Finish answer)
      | (r, Proceed a) \<Rightarrow> next a r)"

definition attempt :: "'e + 'a \<Rightarrow> ('s, 'e + 'r, 'a) activity" where
  "attempt result r = (case result of Inl e \<Rightarrow> (r, Finish (Inl e)) | Inr a \<Rightarrow> (r, Proceed a))"

definition answer_with :: "'r \<Rightarrow> ('s, 'r, 'a) activity" where
  "answer_with answer r = (r, Finish answer)"

text \<open>The answer of a run whose last activity proceeds with its answer.\<close>

definition conclude :: "'s \<times> ('e + 'a, 'a) step \<Rightarrow> 's \<times> ('e + 'a)" where
  "conclude = (\<lambda>(r, s). (r, case s of Finish answer \<Rightarrow> answer | Proceed a \<Rightarrow> Inr a))"

section \<open>Weakest preconditions\<close>

text \<open>
  \<open>wp activity Q r\<close>: started in \<open>r\<close>, the activity ends as \<open>Q\<close> says. One introduction rule for each
  activity in front of the rest of a run.
\<close>

definition wp :: "('s, 'r, 'a) activity \<Rightarrow> ('s \<Rightarrow> ('r, 'a) step \<Rightarrow> bool) \<Rightarrow> 's \<Rightarrow> bool" where
  "wp activity Q r = (case activity r of (r', s) \<Rightarrow> Q r' s)"

named_theorems steps

lemma wp_mono: "wp activity Q r \<Longrightarrow> (\<And>r' s. Q r' s \<Longrightarrow> Q' r' s) \<Longrightarrow> wp activity Q' r"
  by (auto simp: wp_def split: prod.splits)

lemma wp_andthen: "wp (andthen activity next) Q r =
     wp activity (\<lambda>r s. case s of Finish answer \<Rightarrow> Q r (Finish answer) | Proceed a \<Rightarrow> wp (next a) Q r) r"
  by (auto simp: wp_def andthen_def split: prod.splits step.splits)

lemma wp_andthenI:
  assumes "wp activity P r" "\<And>r' answer. P r' (Finish answer) \<Longrightarrow> Q r' (Finish answer)" "\<And>r' a. P r' (Proceed a) \<Longrightarrow> wp (next a) Q r'"
  shows "wp (andthen activity next) Q r"
  unfolding wp_andthen using assms(1) by (rule wp_mono) (auto intro: assms(2,3) split: step.splits)

lemma wp_return [steps]: "Q (f r) (Proceed a) \<Longrightarrow> wp (\<lambda>r. (f r, Proceed a)) Q r"
  by (simp add: wp_def)

lemma wp_answer_with [steps]: "Q r (Finish answer) \<Longrightarrow> wp (answer_with answer) Q r"
  by (simp add: wp_def answer_with_def)

lemma wp_attempt [steps]:
  "(\<And>e. result = Inl e \<Longrightarrow> Q r (Finish (Inl e))) \<Longrightarrow> (\<And>a. result = Inr a \<Longrightarrow> wp (next a) Q r) \<Longrightarrow> wp (andthen (attempt result) next) Q r"
  by (cases result) (simp_all add: wp_def andthen_def attempt_def)

lemma wp_if [steps]: "(b \<Longrightarrow> wp a Q r) \<Longrightarrow> (\<not> b \<Longrightarrow> wp a' Q r) \<Longrightarrow> wp (if b then a else a') Q r"
  by simp

end
