(* ===== verification/Index_Run.thy ===== *)
theory Index_Run imports Activity Scheduler Workspace_Analysis Elixir_Resolution begin

text \<open>
  One indexing run, \<open>index_workspace_through_port\<close> and \<open>index_repository\<close> of \<open>scheduler.rs\<close>: load the
  inputs, analyze them, check that they are still current, publish. The answers of the indexer and of the
  semantic store (\<open>store_port\<close>, over a state of its own) are parameters. Other threads run meanwhile:
  before each look at the scheduler its state changes as \<open>en_interfere\<close> says, and each phase sees a
  file system of its own. \<open>ru_calls\<close> records what the run asked the store to change. Logging, timing
  and the statistics are left out.
\<close>

section \<open>What a run works with\<close>

record analysis_plan =
  ap_analysis_identity :: string
  ap_repository_enrichment_identities :: "(string, string) bmap"

record indexer =
  ix_catalog :: input_catalog
  ix_prepare :: "workspace_snapshot \<Rightarrow> analysis_plan"
  ix_analyze :: "workspace_snapshot \<Rightarrow> analysis_plan \<Rightarrow> string + workspace_analysis"
  ix_analyzed_inputs :: "workspace_snapshot \<Rightarrow> workspace_analysis \<Rightarrow> (string, (string, string) bmap) bmap"
  ix_enrichers :: "string list"
  ix_contexts :: "string \<Rightarrow> workspace_snapshot \<Rightarrow> string \<Rightarrow> string list"

record publication =
  pb_view :: workspace_view
  pb_facts :: "repository_facts list"
  pb_overrides :: "dependency_override list"
  pb_shards :: "fact_shard list"
  pb_candidates :: "semantic_candidate list"
  pb_verification :: string

datatype store_call =
    StoreVerification string string
  | PublishVerified publication
  | PublishRepository repository_facts
  | EnsureInputs workspace_view

record 'st store_port =
  sp_verification_matches :: "string \<Rightarrow> string \<Rightarrow> 'st \<Rightarrow> string + bool"
  sp_view_matches :: "workspace_view \<Rightarrow> 'st \<Rightarrow> string + bool"
  sp_repository_contexts :: "string \<Rightarrow> string \<Rightarrow> string \<Rightarrow> 'st \<Rightarrow> string + string list"
  sp_input_fingerprint :: "string \<Rightarrow> string \<Rightarrow> string \<Rightarrow> 'st \<Rightarrow> string + string option"
  sp_change :: "store_call \<Rightarrow> 'st \<Rightarrow> 'st \<times> (string + bool)"

text \<open>What surrounds a run: the files each phase sees, and what other threads do before each look.\<close>

datatype phase = Checkpointing | Loading | Verifying

record environment =
  en_files :: "phase \<Rightarrow> file_system"
  en_interfere :: "nat \<Rightarrow> scheduler \<Rightarrow> scheduler"

record 'st run =
  ru_scheduler :: scheduler
  ru_inventory :: inventory_store
  ru_store :: 'st
  ru_calls :: "store_call list"

type_synonym ('st, 'a) indexing = "('st run, index_answer, 'a) activity"

definition ask :: "('st \<Rightarrow> string + 'a) \<Rightarrow> ('st, 'a) indexing" where
  "ask question r = attempt (question (ru_store r)) r"

definition change :: "'st store_port \<Rightarrow> store_call \<Rightarrow> ('st, bool) indexing" where
  "change port call r =
     (case sp_change port call (ru_store r) of
        (st, result) \<Rightarrow> attempt result (r\<lparr>ru_store := st, ru_calls := ru_calls r @ [call]\<rparr>))"

definition look :: "environment \<Rightarrow> nat \<Rightarrow> 'st run \<Rightarrow> 'st run" where
  "look env k r = r\<lparr>ru_scheduler := en_interfere env k (ru_scheduler r)\<rparr>"

text \<open>\<open>return Ok((0, false))\<close> when the scheduler stops and the run need not drain.\<close>

definition unless_stopping :: "environment \<Rightarrow> nat \<Rightarrow> bool \<Rightarrow> ('st, unit) indexing" where
  "unless_stopping env k drain r =
     (let r = look env k r
      in (r, if sd_stopping (ru_scheduler r) \<and> \<not> drain then Finish (Inr (0, False)) else Proceed ()))"

definition while_current :: "environment \<Rightarrow> nat \<Rightarrow> string \<Rightarrow> u64 option \<Rightarrow> ('st, unit) indexing" where
  "while_current env k workspace generation r =
     (let r = look env k r in attempt (ensure_generation_current workspace generation (ru_scheduler r)) r)"

section \<open>Loading\<close>

definition refresh_mode_of :: "dirty_map option \<Rightarrow> workspace_repository \<Rightarrow> refresh_mode" where
  "refresh_mode_of dirty r =
     (case Option.bind dirty (\<lambda>d. map_of d (wr_identity r)) of
        None \<Rightarrow> Hinted
      | Some configured \<Rightarrow>
          if authoritative configured then Authoritative
          else if dirty_paths configured \<noteq> [] then Dirty (dirty_paths configured)
          else Hinted)"

fun refresh_repositories ::
    "file_system \<Rightarrow> input_catalog \<Rightarrow> workspace \<Rightarrow> dirty_map option \<Rightarrow> workspace_repository list \<Rightarrow> inventory_store
     \<Rightarrow> inventory_store \<times> (beholder_error + (repository_snapshot \<times> inventory_statistics) list)" where
  "refresh_repositories fs catalog ws dirty [] inventory = (inventory, Inr [])"
| "refresh_repositories fs catalog ws dirty (r # rs) inventory =
     (case refresh fs catalog (wr_identity r) (wr_base r) (descriptors_of ws r) (refresh_mode_of dirty r) inventory of
        (inventory, Inl e) \<Rightarrow> (inventory, Inl e)
      | (inventory, Inr refreshed) \<Rightarrow>
          (case refresh_repositories fs catalog ws dirty rs inventory of
             (inventory, Inl e) \<Rightarrow> (inventory, Inl e)
           | (inventory, Inr rest) \<Rightarrow> (inventory, Inr (refreshed # rest))))"

definition refresh_workspace_snapshot ::
    "file_system \<Rightarrow> input_catalog \<Rightarrow> workspace \<Rightarrow> dirty_map option \<Rightarrow> inventory_store
     \<Rightarrow> inventory_store \<times> (beholder_error + workspace_snapshot \<times> inventory_statistics)" where
  "refresh_workspace_snapshot fs catalog ws dirty inventory =
     (case refresh_repositories fs catalog ws dirty (ws_repositories ws) inventory of
        (inventory, Inl e) \<Rightarrow> (inventory, Inl e)
      | (inventory, Inr refreshed) \<Rightarrow>
          (inventory, Inr (\<lparr>wn_name = ws_name ws, wn_repositories = map fst refreshed\<rparr>,
                           fold (\<lambda>s acc. add_statistics acc s) (map snd refreshed) no_statistics)))"

definition load :: "environment \<Rightarrow> phase \<Rightarrow> indexer \<Rightarrow> workspace \<Rightarrow> dirty_map option \<Rightarrow> ('st, workspace_snapshot) indexing" where
  "load env phase ix ws dirty r =
     (case refresh_workspace_snapshot (en_files env phase) (ix_catalog ix) ws dirty (ru_inventory r) of
        (inventory, Inl e) \<Rightarrow> (r\<lparr>ru_inventory := inventory\<rparr>, Finish (Inl (display_error e)))
      | (inventory, Inr (snapshot, _)) \<Rightarrow> (r\<lparr>ru_inventory := inventory\<rparr>, Proceed snapshot))"

definition workspace_verification_fingerprint :: "git_environment \<Rightarrow> string \<Rightarrow> workspace_snapshot \<Rightarrow> string" where
  "workspace_verification_fingerprint git analysis_identity snapshot =
     ge_sha256 git (framed_bytes analysis_identity
       @ concat (map (\<lambda>r. framed_bytes (rs_fingerprint (rp_state r))) (wn_repositories snapshot)))"

definition plan_fingerprint :: "environment \<Rightarrow> phase \<Rightarrow> indexer \<Rightarrow> workspace_snapshot \<Rightarrow> string" where
  "plan_fingerprint env phase ix snapshot =
     workspace_verification_fingerprint (fs_git (en_files env phase)) (ap_analysis_identity (ix_prepare ix snapshot)) snapshot"

section \<open>The checkpoint and the unchanged workspace\<close>

definition checkpoint_eligible :: "workspace \<Rightarrow> dirty_map option \<Rightarrow> bool" where
  "checkpoint_eligible ws dirty =
     (case dirty of
        None \<Rightarrow> True
      | Some d \<Rightarrow>
          length d = length (ws_repositories ws)
          \<and> list_all (\<lambda>r. case map_of d (wr_identity r) of None \<Rightarrow> False | Some configured \<Rightarrow> authoritative configured) (ws_repositories ws))"

definition accept :: "checkpoint_verification \<Rightarrow> ('st, unit) indexing" where
  "accept checkpoint r = (r\<lparr>ru_inventory := accept_checkpoint checkpoint (ru_inventory r)\<rparr>, Proceed ())"

text \<open>A workspace has a repository, so \<open>repositories[0]\<close> is there.\<close>

definition try_checkpoint ::
    "environment \<Rightarrow> indexer \<Rightarrow> 'st store_port \<Rightarrow> workspace \<Rightarrow> dirty_map option \<Rightarrow> u64 option \<Rightarrow> bool \<Rightarrow> ('st, unit) indexing" where
  "try_checkpoint env ix port ws dirty generation drain r =
     (if \<not> checkpoint_eligible ws dirty then (r, Proceed ())
      else case verify_checkpoint (en_files env Checkpointing) (ix_catalog ix) ws (ru_inventory r) of
             Inl e \<Rightarrow> (r, Finish (Inl (display_error e)))
           | Inr None \<Rightarrow> (r, Proceed ())
           | Inr (Some checkpoint) \<Rightarrow>
               andthen (unless_stopping env 1 drain) (\<lambda>_.
               andthen (while_current env 2 (ws_name ws) generation) (\<lambda>_.
               andthen (ask (sp_verification_matches port (ws_name ws) (cv_verification_fingerprint checkpoint))) (\<lambda>matches.
                 if matches
                 then andthen (while_current env 3 (ws_name ws) generation) (\<lambda>_.
                      andthen (accept checkpoint) (\<lambda>_. answer_with (Inr (0, False))))
                 else (\<lambda>r. (r, Proceed ()))))) r)"

definition merge_declared_contexts ::
    "indexer \<Rightarrow> workspace_snapshot \<Rightarrow> string \<Rightarrow> (string, string list) bmap \<Rightarrow> (string, string list) bmap" where
  "merge_declared_contexts ix snapshot analyzer contexts =
     fold (\<lambda>r. bm_entry (rs_identity (rp_state r))
            (\<lambda>selected. sort_dedup (or_default [] selected @ ix_contexts ix analyzer snapshot (rs_identity (rp_state r)))))
       (wn_repositories snapshot) contexts"

definition stored_contexts ::
    "indexer \<Rightarrow> 'st store_port \<Rightarrow> string \<Rightarrow> workspace_snapshot \<Rightarrow> 'st \<Rightarrow> string + (string, (string, string list) bmap) bmap" where
  "stored_contexts ix port workspace snapshot st =
     rbind (try_map (\<lambda>analyzer.
       rbind (try_map (\<lambda>r. let target = rs_identity (rp_state r)
                           in rbind (sp_repository_contexts port workspace target analyzer st) (\<lambda>contexts. Inr (target, contexts)))
               (wn_repositories snapshot)) (\<lambda>contexts.
         Inr (analyzer, merge_declared_contexts ix snapshot analyzer (bm_of_list contexts)))) (ix_enrichers ix))
       (\<lambda>contexts. Inr (bm_of_list contexts))"

fun inputs_complete :: "'st store_port \<Rightarrow> workspace_view \<Rightarrow> (string \<times> string) list \<Rightarrow> 'st \<Rightarrow> string + bool" where
  "inputs_complete port view [] st = Inr True"
| "inputs_complete port view ((analyzer, repository) # rest) st =
     rbind (sp_input_fingerprint port (wv_name view) repository analyzer st) (\<lambda>fingerprint.
       if fingerprint = None then Inr False
       else rbind (sp_repository_contexts port (wv_name view) repository analyzer st) (\<lambda>contexts.
              if contexts \<noteq> repository_contexts view repository analyzer then Inr False
              else inputs_complete port view rest st))"

definition enrichment_inputs_complete :: "'st store_port \<Rightarrow> workspace_view \<Rightarrow> 'st \<Rightarrow> string + bool" where
  "enrichment_inputs_complete port view st =
     inputs_complete port view
       (concat (map (\<lambda>analyzer. map (\<lambda>s. (analyzer, rs_identity s)) (wv_repository_states view)) (enrichment_analyzers view))) st"

text \<open>A checkpoint that cannot be written is only logged.\<close>

definition keep_checkpoint :: "file_system \<Rightarrow> indexer \<Rightarrow> workspace \<Rightarrow> workspace_snapshot \<Rightarrow> string \<Rightarrow> ('st, unit) indexing" where
  "keep_checkpoint fs ix ws snapshot fingerprint r =
     (r\<lparr>ru_inventory := fst (store_checkpoint fs (ix_catalog ix) ws (wn_repositories snapshot) fingerprint (ru_inventory r))\<rparr>, Proceed ())"

definition try_unchanged ::
    "environment \<Rightarrow> indexer \<Rightarrow> 'st store_port \<Rightarrow> workspace \<Rightarrow> workspace_snapshot \<Rightarrow> string \<Rightarrow> bool \<Rightarrow> workspace_view
     \<Rightarrow> ('st, workspace_view) indexing" where
  "try_unchanged env ix port ws snapshot fingerprint drain view =
     andthen (ask (sp_view_matches port view)) (\<lambda>matches.
       if \<not> matches then (\<lambda>r. (r, Proceed view))
       else
         andthen (ask (stored_contexts ix port (ws_name ws) snapshot)) (\<lambda>contexts.
         andthen (attempt (with_repository_contexts view contexts)) (\<lambda>view.
         andthen (ask (enrichment_inputs_complete port view)) (\<lambda>complete.
           if \<not> complete then (\<lambda>r. (r, Proceed view))
           else
             andthen (unless_stopping env 6 drain) (\<lambda>_.
             andthen (change port (StoreVerification (ws_name ws) fingerprint)) (\<lambda>_.
             andthen (keep_checkpoint (en_files env Loading) ix ws snapshot fingerprint) (\<lambda>_.
               answer_with (Inr (0, False)))))))))"

section \<open>Publication\<close>

text \<open>A workspace observation belongs to the repository with the longest identity that prefixes its source.\<close>

definition observed_repository :: "repository_facts list \<Rightarrow> observation \<Rightarrow> nat option" where
  "observed_repository repositories ob =
     fold (\<lambda>i best. case best of
              None \<Rightarrow> Some i
            | Some b \<Rightarrow> if length (rs_identity (rf_state (repositories ! b))) \<le> length (rs_identity (rf_state (repositories ! i)))
                        then Some i else Some b)
       (filter (\<lambda>i. starts_with (ob_from ob) (repository_prefix (rs_identity (rf_state (repositories ! i))))) [0..<length repositories]) None"

definition append_observation :: "observation \<Rightarrow> repository_facts list \<Rightarrow> repository_facts list" where
  "append_observation ob repositories =
     (case observed_repository repositories ob of
        None \<Rightarrow> repositories
      | Some i \<Rightarrow>
          if ob \<in> set (rf_observations (repositories ! i)) then repositories
          else repositories[i := (repositories ! i)\<lparr>rf_observations := rf_observations (repositories ! i) @ [ob]\<rparr>])"

definition append_workspace_observations :: "observation list \<Rightarrow> repository_facts list \<Rightarrow> repository_facts list" where
  "append_workspace_observations observations repositories = fold append_observation observations repositories"

definition workspace_facts :: "workspace_analysis \<Rightarrow> repository_facts list" where
  "workspace_facts analysis =
     append_workspace_observations
       (workspace_dynamic_dispatch_observations
          (concat (map rf_observations (analyzed_facts analysis)) @ concat (map fs_observations (wa_fact_shards analysis))))
       (analyzed_facts analysis)"

definition analyzed_view ::
    "indexer \<Rightarrow> workspace_snapshot \<Rightarrow> workspace_analysis \<Rightarrow> repository_facts list \<Rightarrow> workspace_view \<Rightarrow> string + workspace_view" where
  "analyzed_view ix snapshot analysis facts view =
     rbind (from_baseline facts (wa_overrides analysis)) (\<lambda>g.
     rbind (add_candidates (wa_repository_dependencies analysis) g) (\<lambda>g.
     rbind (with_repository_contexts view
              (bm_of_list (map (\<lambda>analyzer. (analyzer, merge_declared_contexts ix snapshot analyzer (context_map_for g analyzer)))
                 (ix_enrichers ix)))) (\<lambda>view.
       with_repository_enrichment_inputs view (ix_analyzed_inputs ix snapshot analysis))))"

definition publication_of ::
    "indexer \<Rightarrow> workspace_snapshot \<Rightarrow> workspace_analysis \<Rightarrow> repository_facts list \<Rightarrow> string \<Rightarrow> workspace_view \<Rightarrow> string + publication" where
  "publication_of ix snapshot analysis facts fingerprint view =
     rbind (analyzed_view ix snapshot analysis facts view) (\<lambda>view.
       Inr \<lparr>pb_view = view, pb_facts = facts, pb_overrides = wa_overrides analysis, pb_shards = wa_fact_shards analysis,
            pb_candidates = wa_semantic_candidates analysis, pb_verification = fingerprint\<rparr>)"

definition observation_count :: "repository_facts list \<Rightarrow> nat" where
  "observation_count facts = sum_list (map (length \<circ> rf_observations) facts)"

text \<open>Stale analysis is discarded, and the workspace marked to be indexed again.\<close>

definition discard_stale :: "environment \<Rightarrow> nat \<Rightarrow> workspace \<Rightarrow> string \<Rightarrow> string \<Rightarrow> ('st, unit) indexing" where
  "discard_stale env k ws current expected r =
     (if current = expected then (r, Proceed ())
      else
        let r = look env k r
        in (r\<lparr>ru_scheduler := mark ws (ru_scheduler r)\<rparr>,
            Finish (Inl ''workspace inputs changed during indexing; stale analysis was discarded'')))"

definition after_publication ::
    "environment \<Rightarrow> nat \<Rightarrow> indexer \<Rightarrow> 'st store_port \<Rightarrow> workspace \<Rightarrow> workspace_snapshot \<Rightarrow> publication \<Rightarrow> ('st, unit) indexing" where
  "after_publication env k ix port ws current p r =
     (let r = look env k r
      in if sd_stopping (ru_scheduler r) then (r, Proceed ())
         else andthen (change port (EnsureInputs (pb_view p))) (\<lambda>_.
                keep_checkpoint (en_files env Verifying) ix ws current (pb_verification p)) r)"

definition analyze_and_publish ::
    "environment \<Rightarrow> indexer \<Rightarrow> 'st store_port \<Rightarrow> workspace \<Rightarrow> dirty_map option \<Rightarrow> u64 option \<Rightarrow> bool \<Rightarrow> workspace_snapshot
     \<Rightarrow> string \<Rightarrow> workspace_view \<Rightarrow> ('st, nat \<times> bool) indexing" where
  "analyze_and_publish env ix port ws dirty generation drain snapshot fingerprint view =
     andthen (while_current env 7 (ws_name ws) generation) (\<lambda>_.
     andthen (attempt (ix_analyze ix snapshot (ix_prepare ix snapshot))) (\<lambda>analysis.
     andthen (unless_stopping env 8 drain) (\<lambda>_.
     andthen (while_current env 9 (ws_name ws) generation) (\<lambda>_.
     andthen (attempt (publication_of ix snapshot analysis (workspace_facts analysis) fingerprint view)) (\<lambda>p.
     andthen (while_current env 10 (ws_name ws) generation) (\<lambda>_.
     andthen (load env Verifying ix ws dirty) (\<lambda>current.
     andthen (unless_stopping env 11 drain) (\<lambda>_.
     andthen (while_current env 12 (ws_name ws) generation) (\<lambda>_.
     andthen (discard_stale env 13 ws (plan_fingerprint env Verifying ix current) fingerprint) (\<lambda>_.
     andthen (while_current env 14 (ws_name ws) generation) (\<lambda>_.
     andthen (change port (PublishVerified p)) (\<lambda>_.
     andthen (after_publication env 15 ix port ws current p) (\<lambda>_ r.
       (r, Proceed (observation_count (pb_facts p), True)))))))))))))))"

definition index_workspace ::
    "environment \<Rightarrow> indexer \<Rightarrow> 'st store_port \<Rightarrow> workspace \<Rightarrow> dirty_map option \<Rightarrow> u64 option \<Rightarrow> bool \<Rightarrow> 'st run
     \<Rightarrow> 'st run \<times> index_answer" where
  "index_workspace env ix port ws dirty generation drain r =
     conclude (andthen (try_checkpoint env ix port ws dirty generation drain) (\<lambda>_.
       andthen (load env Loading ix ws dirty) (\<lambda>snapshot.
       andthen (unless_stopping env 4 drain) (\<lambda>_.
       andthen (while_current env 5 (ws_name ws) generation) (\<lambda>_.
         let plan = ix_prepare ix snapshot;
             fingerprint = plan_fingerprint env Loading ix snapshot
         in andthen (attempt (view_new_scoped (ws_name ws) (ap_analysis_identity plan)
                       (map rp_state (wn_repositories snapshot)) (ap_repository_enrichment_identities plan))) (\<lambda>view.
            andthen (try_unchanged env ix port ws snapshot fingerprint drain view) (\<lambda>view.
              analyze_and_publish env ix port ws dirty generation drain snapshot fingerprint view)))))) r)"

section \<open>Weakest preconditions\<close>

lemma wp_ask [steps]:
  "(\<And>e. Q r (Finish (Inl e))) \<Longrightarrow> (\<And>a. question (ru_store r) = Inr a \<Longrightarrow> wp (next a) Q r) \<Longrightarrow> wp (andthen (ask question) next) Q r"
  by (cases "question (ru_store r)") (simp_all add: wp_def andthen_def ask_def attempt_def)

lemma wp_change [steps]:
  assumes "\<And>st e. Q (r\<lparr>ru_store := st, ru_calls := ru_calls r @ [call]\<rparr>) (Finish (Inl e))"
    and "\<And>st a. wp (next a) Q (r\<lparr>ru_store := st, ru_calls := ru_calls r @ [call]\<rparr>)"
  shows "wp (andthen (change port call) next) Q r"
proof -
  obtain st result where "sp_change port call (ru_store r) = (st, result)" by fastforce
  with assms show ?thesis by (cases result) (simp_all add: wp_def andthen_def change_def attempt_def)
qed

lemma wp_unless_stopping [steps]:
  "Q (look env k r) (Finish (Inr (0, False))) \<Longrightarrow> wp (next ()) Q (look env k r) \<Longrightarrow> wp (andthen (unless_stopping env k drain) next) Q r"
  by (simp add: wp_def andthen_def unless_stopping_def Let_def)

lemma wp_while_current [steps]:
  "(\<And>e. Q (look env k r) (Finish (Inl e)))
   \<Longrightarrow> (map_of (sd_generations (ru_scheduler (look env k r))) workspace = generation \<Longrightarrow> wp (next ()) Q (look env k r))
   \<Longrightarrow> wp (andthen (while_current env k workspace generation) next) Q r"
  by (simp add: wp_def andthen_def while_current_def attempt_def ensure_generation_current_def Let_def)

lemma wp_load [steps]:
  assumes "\<And>inventory e. Q (r\<lparr>ru_inventory := inventory\<rparr>) (Finish (Inl e))"
    and "\<And>inventory snapshot statistics.
           refresh_workspace_snapshot (en_files env phase) (ix_catalog ix) ws dirty (ru_inventory r) = (inventory, Inr (snapshot, statistics))
           \<Longrightarrow> wp (next snapshot) Q (r\<lparr>ru_inventory := inventory\<rparr>)"
  shows "wp (andthen (load env phase ix ws dirty) next) Q r"
proof -
  obtain inventory result where "refresh_workspace_snapshot (en_files env phase) (ix_catalog ix) ws dirty (ru_inventory r) = (inventory, result)"
    by fastforce
  with assms show ?thesis by (cases result) (auto simp: wp_def andthen_def load_def)
qed

lemma wp_discard_stale [steps]:
  "(\<And>s. Q (r\<lparr>ru_scheduler := s\<rparr>) (Finish (Inl ''workspace inputs changed during indexing; stale analysis was discarded'')))
   \<Longrightarrow> (current = expected \<Longrightarrow> wp (next ()) Q r) \<Longrightarrow> wp (andthen (discard_stale env k ws current expected) next) Q r"
  by (auto simp: wp_def andthen_def discard_stale_def look_def Let_def)

lemma wp_keep_checkpoint [steps]:
  "(\<And>inventory. wp (next ()) Q (r\<lparr>ru_inventory := inventory\<rparr>)) \<Longrightarrow> wp (andthen (keep_checkpoint fs ix ws snapshot fingerprint) next) Q r"
  by (simp add: wp_def andthen_def keep_checkpoint_def)

lemma wp_accept [steps]: "(\<And>inventory. wp (next ()) Q (r\<lparr>ru_inventory := inventory\<rparr>)) \<Longrightarrow> wp (andthen (accept checkpoint) next) Q r"
  by (simp add: wp_def andthen_def accept_def)

lemma look_simps [simp]: "ru_calls (look env k r) = ru_calls r" "ru_store (look env k r) = ru_store r" "ru_inventory (look env k r) = ru_inventory r"
  by (simp_all add: look_def)

section \<open>What a run did\<close>

text \<open>An answer without publication: nothing observed, nothing published, or an error.\<close>

definition unpublished :: "index_answer \<Rightarrow> bool" where
  "unpublished answer \<longleftrightarrow> (case answer of Inl _ \<Rightarrow> True | Inr a \<Rightarrow> a = (0, False))"

lemma unpublished_simps [simp]: "unpublished (Inl e)" "unpublished (Inr (0, False))"
  by (simp_all add: unpublished_def)

lemma try_checkpoint_quiet:
  "ru_calls r = calls \<Longrightarrow> wp (try_checkpoint env ix port ws dirty generation drain)
     (\<lambda>r' s. ru_calls r' = calls \<and> (case s of Proceed _ \<Rightarrow> ru_inventory r' = ru_inventory r | Finish answer \<Rightarrow> unpublished answer)) r"
proof (cases "checkpoint_eligible ws dirty")
  case True
  assume calls: "ru_calls r = calls"
  show ?thesis
  proof (cases "verify_checkpoint (en_files env Checkpointing) (ix_catalog ix) ws (ru_inventory r)")
    case (Inl e)
    then show ?thesis using calls True by (simp add: wp_def try_checkpoint_def)
  next
    case (Inr found)
    show ?thesis
    proof (cases found)
      case None
      then show ?thesis using calls True Inr by (simp add: wp_def try_checkpoint_def)
    next
      case (Some checkpoint)
      let ?Q = "\<lambda>r' s. ru_calls r' = calls \<and> (case s of Proceed _ \<Rightarrow> ru_inventory r' = ru_inventory r | Finish answer \<Rightarrow> unpublished answer)"
      have "wp (\<lambda>r. try_checkpoint env ix port ws dirty generation drain r) ?Q r
          \<longleftrightarrow> wp (andthen (unless_stopping env 1 drain) (\<lambda>_.
               andthen (while_current env 2 (ws_name ws) generation) (\<lambda>_.
               andthen (ask (sp_verification_matches port (ws_name ws) (cv_verification_fingerprint checkpoint))) (\<lambda>matches.
                 if matches
                 then andthen (while_current env 3 (ws_name ws) generation) (\<lambda>_.
                      andthen (accept checkpoint) (\<lambda>_. answer_with (Inr (0, False))))
                 else (\<lambda>r. (r, Proceed ())))))) ?Q r"
        by (simp only: wp_def try_checkpoint_def True Inr Some sum.case option.case not_True_eq_False if_False)
      also have "\<dots>" using calls by (intro steps) (auto intro!: steps)
      finally show ?thesis .
    qed
  qed
qed (simp add: wp_def try_checkpoint_def)

lemma with_repository_contexts_states: "with_repository_contexts view contexts = Inr view' \<Longrightarrow> wv_repository_states view' = wv_repository_states view"
  by (auto simp: with_repository_contexts_def rbind_Inr_iff)

lemma try_unchanged_quiet:
  "ru_calls r = calls \<Longrightarrow> wp (try_unchanged env ix port ws snapshot fingerprint drain view)
     (\<lambda>r' s. case s of
        Proceed view' \<Rightarrow> ru_calls r' = calls \<and> ru_inventory r' = ru_inventory r \<and> wv_repository_states view' = wv_repository_states view
      | Finish answer \<Rightarrow> ru_calls r' \<in> {calls, calls @ [StoreVerification (ws_name ws) fingerprint]} \<and> unpublished answer) r"
  unfolding try_unchanged_def by (intro steps) (simp_all add: with_repository_contexts_states)

text \<open>
  What a publication rests on: the analysis of a loaded snapshot whose states the view holds, a later
  loading of the workspace with the same verification fingerprint, and a scheduler state after that in
  which the workspace still had the generation of the run. Only the stopping check looked at the
  scheduler after it.
\<close>

definition publication_current ::
    "environment \<Rightarrow> indexer \<Rightarrow> workspace \<Rightarrow> dirty_map option \<Rightarrow> u64 option \<Rightarrow> workspace_snapshot \<Rightarrow> inventory_store \<Rightarrow> publication \<Rightarrow> scheduler \<Rightarrow> bool" where
  "publication_current env ix ws dirty generation snapshot inventory p final \<longleftrightarrow>
     (\<exists>analysis. ix_analyze ix snapshot (ix_prepare ix snapshot) = Inr analysis
        \<and> pb_facts p = workspace_facts analysis \<and> pb_overrides p = wa_overrides analysis
        \<and> pb_shards p = wa_fact_shards analysis \<and> pb_candidates p = wa_semantic_candidates analysis)
     \<and> pb_verification p = plan_fingerprint env Loading ix snapshot
     \<and> (\<exists>inventory' current statistics.
          refresh_workspace_snapshot (en_files env Verifying) (ix_catalog ix) ws dirty inventory = (inventory', Inr (current, statistics))
          \<and> plan_fingerprint env Verifying ix current = plan_fingerprint env Loading ix snapshot)
     \<and> (\<exists>s. map_of (sd_generations s) (ws_name ws) = generation \<and> final \<in> {s, en_interfere env 15 s})"

lemma analyzed_view_states: "analyzed_view ix snapshot analysis facts view = Inr view' \<Longrightarrow> wv_repository_states view' = wv_repository_states view"
  by (auto simp: analyzed_view_def with_repository_contexts_def with_repository_enrichment_inputs_def rbind_Inr_iff split: if_splits)

lemma publication_of_Inr:
  assumes "publication_of ix snapshot analysis facts fingerprint view = Inr p"
  shows "pb_facts p = facts" "pb_overrides p = wa_overrides analysis" "pb_shards p = wa_fact_shards analysis"
    "pb_candidates p = wa_semantic_candidates analysis" "pb_verification p = fingerprint"
    "wv_repository_states (pb_view p) = wv_repository_states view"
  using assms by (auto simp: publication_of_def rbind_Inr_iff dest: analyzed_view_states)

lemma after_publication_calls:
  "wp (after_publication env k ix port ws current p)
     (\<lambda>r' s. ru_scheduler r' = en_interfere env k (ru_scheduler r)
        \<and> ru_calls r' \<in> {ru_calls r, ru_calls r @ [EnsureInputs (pb_view p)]} \<and> (case s of Finish answer \<Rightarrow> \<exists>e. answer = Inl e | Proceed _ \<Rightarrow> True)) r"
proof -
  obtain st result where "sp_change port (EnsureInputs (pb_view p)) (ru_store r) = (st, result)" by fastforce
  then show ?thesis
    by (cases result) (auto simp: wp_def after_publication_def andthen_def change_def attempt_def keep_checkpoint_def look_def Let_def)
qed

lemma publication_currentI:
  assumes "ix_analyze ix snapshot (ix_prepare ix snapshot) = Inr analysis"
    and "publication_of ix snapshot analysis (workspace_facts analysis) (plan_fingerprint env Loading ix snapshot) view = Inr p"
    and "refresh_workspace_snapshot (en_files env Verifying) (ix_catalog ix) ws dirty inventory = (inventory', Inr (current, statistics))"
    and "plan_fingerprint env Verifying ix current = plan_fingerprint env Loading ix snapshot"
    and "map_of (sd_generations s) (ws_name ws) = generation"
  shows "publication_current env ix ws dirty generation snapshot inventory p s"
    "publication_current env ix ws dirty generation snapshot inventory p (en_interfere env 15 s)"
  unfolding publication_current_def using assms(1,3-5) by (auto simp: publication_of_Inr [OF assms(2)])

text \<open>How the second half of a run may end.\<close>

definition run_outcome ::
    "environment \<Rightarrow> indexer \<Rightarrow> workspace \<Rightarrow> dirty_map option \<Rightarrow> u64 option \<Rightarrow> workspace_snapshot \<Rightarrow> inventory_store \<Rightarrow> workspace_view
     \<Rightarrow> store_call list \<Rightarrow> 'st run \<Rightarrow> (index_answer, nat \<times> bool) step \<Rightarrow> bool" where
  "run_outcome env ix ws dirty generation snapshot inventory view calls r s \<longleftrightarrow>
     ru_calls r = calls \<and> (case s of Finish answer \<Rightarrow> unpublished answer | Proceed _ \<Rightarrow> False)
     \<or> (\<exists>p. publication_current env ix ws dirty generation snapshot inventory p (ru_scheduler r)
          \<and> wv_repository_states (pb_view p) = wv_repository_states view
          \<and> ru_calls r \<in> {calls @ [PublishVerified p], calls @ [PublishVerified p, EnsureInputs (pb_view p)]}
          \<and> (case s of Proceed a \<Rightarrow> a = (observation_count (pb_facts p), True) | Finish answer \<Rightarrow> \<exists>e. answer = Inl e))"

lemma outcome_quiet:
  "ru_calls r = calls \<Longrightarrow> unpublished answer \<Longrightarrow> run_outcome env ix ws dirty generation snapshot inventory view calls r (Finish answer)"
  by (simp add: run_outcome_def)

lemma outcome_failed:
  "ru_calls r = calls @ [PublishVerified p] \<Longrightarrow> wv_repository_states (pb_view p) = wv_repository_states view
   \<Longrightarrow> publication_current env ix ws dirty generation snapshot inventory p (ru_scheduler r)
   \<Longrightarrow> run_outcome env ix ws dirty generation snapshot inventory view calls r (Finish (Inl e))"
  by (auto simp: run_outcome_def)

lemma outcome_published:
  assumes "ru_calls r = calls @ [PublishVerified p]" "wv_repository_states (pb_view p) = wv_repository_states view"
    and "publication_current env ix ws dirty generation snapshot inventory p (en_interfere env 15 (ru_scheduler r))"
  shows "wp (andthen (after_publication env 15 ix port ws current p) (\<lambda>_ r. (r, Proceed (observation_count (pb_facts p), True))))
    (run_outcome env ix ws dirty generation snapshot inventory view calls) r"
  by (rule wp_andthenI [OF after_publication_calls]) (use assms in \<open>auto simp: wp_def run_outcome_def\<close>)

lemma analyze_and_publish_calls:
  assumes "ru_calls r = calls" "fingerprint = plan_fingerprint env Loading ix snapshot"
  shows "wp (analyze_and_publish env ix port ws dirty generation drain snapshot fingerprint view)
    (run_outcome env ix ws dirty generation snapshot (ru_inventory r) view calls) r"
  unfolding analyze_and_publish_def
proof ((intro steps; (rule outcome_quiet; simp add: assms; fail)?), goal_cases)
  case 1
  then show ?case
    by (intro outcome_failed publication_currentI(1)) (auto simp: assms elim: publication_of_Inr)
next
  case 2
  then show ?case
    by (intro outcome_published publication_currentI(2)) (auto simp: assms elim: publication_of_Inr)
qed

section \<open>The whole run\<close>

text \<open>What loading a workspace gives, and the inventory it leaves.\<close>

definition loading :: "environment \<Rightarrow> phase \<Rightarrow> indexer \<Rightarrow> workspace \<Rightarrow> dirty_map option \<Rightarrow> inventory_store \<Rightarrow> workspace_snapshot option" where
  "loading env phase ix ws dirty inventory =
     (case refresh_workspace_snapshot (en_files env phase) (ix_catalog ix) ws dirty inventory of
        (_, Inr (snapshot, _)) \<Rightarrow> Some snapshot
      | _ \<Rightarrow> None)"

definition inventory_after :: "environment \<Rightarrow> phase \<Rightarrow> indexer \<Rightarrow> workspace \<Rightarrow> dirty_map option \<Rightarrow> inventory_store \<Rightarrow> inventory_store" where
  "inventory_after env phase ix ws dirty inventory =
     fst (refresh_workspace_snapshot (en_files env phase) (ix_catalog ix) ws dirty inventory)"

lemma loadingI:
  "refresh_workspace_snapshot (en_files env phase) (ix_catalog ix) ws dirty inventory = (inventory', Inr (snapshot, statistics))
   \<Longrightarrow> loading env phase ix ws dirty inventory = Some snapshot \<and> inventory_after env phase ix ws dirty inventory = inventory'"
  by (simp add: loading_def inventory_after_def)

definition published ::
    "environment \<Rightarrow> indexer \<Rightarrow> workspace \<Rightarrow> dirty_map option \<Rightarrow> u64 option \<Rightarrow> inventory_store \<Rightarrow> publication \<Rightarrow> scheduler \<Rightarrow> bool" where
  "published env ix ws dirty generation inventory p final \<longleftrightarrow>
     (\<exists>snapshot. loading env Loading ix ws dirty inventory = Some snapshot
        \<and> wv_repository_states (pb_view p) = sort_key rs_identity (map rp_state (wn_repositories snapshot))
        \<and> publication_current env ix ws dirty generation snapshot (inventory_after env Loading ix ws dirty inventory) p final)"

lemma view_new_scoped_states:
  "view_new_scoped name identity states identities = Inr view \<Longrightarrow> wv_repository_states view = sort_key rs_identity states"
  by (auto simp: view_new_scoped_def Let_def split: if_splits option.splits)

lemma run_outcome_cases:
  assumes "run_outcome env ix ws dirty generation snapshot inventory view calls r s"
  obtains (quiet) answer where "ru_calls r = calls" "s = Finish answer" "unpublished answer"
  | (published) p where "publication_current env ix ws dirty generation snapshot inventory p (ru_scheduler r)"
      "wv_repository_states (pb_view p) = wv_repository_states view"
      "ru_calls r \<in> {calls @ [PublishVerified p], calls @ [PublishVerified p, EnsureInputs (pb_view p)]}"
      "case s of Proceed a \<Rightarrow> a = (observation_count (pb_facts p), True) | Finish answer \<Rightarrow> \<exists>e. answer = Inl e"
  using assms unfolding run_outcome_def by (auto split: step.splits)

text \<open>The answer of a run that started with no calls.\<close>

definition answered ::
    "environment \<Rightarrow> indexer \<Rightarrow> workspace \<Rightarrow> dirty_map option \<Rightarrow> u64 option \<Rightarrow> inventory_store \<Rightarrow> 'st run \<Rightarrow> index_answer \<Rightarrow> bool" where
  "answered env ix ws dirty generation inventory r answer \<longleftrightarrow>
     (ru_calls r = [] \<or> (\<exists>fingerprint. ru_calls r = [StoreVerification (ws_name ws) fingerprint])) \<and> unpublished answer
     \<or> (\<exists>p. published env ix ws dirty generation inventory p (ru_scheduler r)
          \<and> ru_calls r \<in> {[PublishVerified p], [PublishVerified p, EnsureInputs (pb_view p)]}
          \<and> (answer = Inr (observation_count (pb_facts p), True) \<or> (\<exists>e. answer = Inl e)))"

lemma index_workspace_answered:
  assumes "index_workspace env ix port ws dirty generation drain r = (r', answer)" "ru_calls r = []"
  shows "answered env ix ws dirty generation (ru_inventory r) r' answer"
proof -
  let ?Q = "\<lambda>r' s. answered env ix ws dirty generation (ru_inventory r) r' (case s of Proceed a \<Rightarrow> Inr a | Finish answer \<Rightarrow> answer)"
  have quiet: "answered env ix ws dirty generation (ru_inventory r) r1 answer" if "ru_calls r1 = []" "unpublished answer" for r1 :: "'a run" and answer
    using that by (simp add: answered_def)
  have second: "?Q r1 s" if "run_outcome env ix ws dirty generation snapshot inventory view [] r1 s"
      "refresh_workspace_snapshot (en_files env Loading) (ix_catalog ix) ws dirty (ru_inventory r) = (inventory, Inr (snapshot, statistics))"
      "wv_repository_states view = sort_key rs_identity (map rp_state (wn_repositories snapshot))"
    for snapshot inventory view r1 s statistics
    using that(1)
  proof (cases rule: run_outcome_cases)
    case (quiet answer)
    then show ?thesis by (simp add: answered_def)
  next
    case (published p)
    with that(3) loadingI [OF that(2)] have "published env ix ws dirty generation (ru_inventory r) p (ru_scheduler r1)"
      by (auto simp: published_def)
    with published(3,4) show ?thesis by (auto simp: answered_def split: step.splits)
  qed
  have "wp (andthen (try_checkpoint env ix port ws dirty generation drain) (\<lambda>_.
       andthen (load env Loading ix ws dirty) (\<lambda>snapshot.
       andthen (unless_stopping env 4 drain) (\<lambda>_.
       andthen (while_current env 5 (ws_name ws) generation) (\<lambda>_.
         let plan = ix_prepare ix snapshot;
             fingerprint = plan_fingerprint env Loading ix snapshot
         in andthen (attempt (view_new_scoped (ws_name ws) (ap_analysis_identity plan)
                       (map rp_state (wn_repositories snapshot)) (ap_repository_enrichment_identities plan))) (\<lambda>view.
            andthen (try_unchanged env ix port ws snapshot fingerprint drain view) (\<lambda>view.
              analyze_and_publish env ix port ws dirty generation drain snapshot fingerprint view))))))) ?Q r"
    unfolding Let_def
  proof (rule wp_andthenI [OF try_checkpoint_quiet [OF assms(2)]], goal_cases)
    case (2 r1)
    then show ?case
    proof ((intro steps; (simp add: quiet; fail)?), goal_cases)
      case (1 inventory snapshot statistics view)
      note loaded = this
      show ?case
      proof (rule wp_andthenI [OF try_unchanged_quiet [OF refl]], goal_cases)
        case (1 r2)
        then show ?case using \<open>ru_calls r1 = [] \<and> _\<close> by (auto simp: answered_def)
      next
        case (2 r2 view')
        show ?case
        proof (rule wp_mono [OF analyze_and_publish_calls [OF _ refl]])
          show "ru_calls r2 = []" using 2 loaded(1) by simp
          fix r3 s
          assume "run_outcome env ix ws dirty generation snapshot (ru_inventory r2) view' [] r3 s"
          then show "?Q r3 s"
            by (rule second) (use 2 loaded in \<open>simp_all add: view_new_scoped_states [OF loaded(4)]\<close>)
        qed
      qed
    qed
  qed (simp add: quiet)
  then show ?thesis
    using assms(1) by (auto simp: wp_def index_workspace_def conclude_def split: prod.splits)
qed

section \<open>What is published is current\<close>

fun repositories_trusted ::
    "file_system \<Rightarrow> input_catalog \<Rightarrow> string set \<Rightarrow> workspace \<Rightarrow> dirty_map option \<Rightarrow> workspace_repository list \<Rightarrow> inventory_store \<Rightarrow> bool" where
  "repositories_trusted fs catalog K ws dirty [] inventory \<longleftrightarrow> True"
| "repositories_trusted fs catalog K ws dirty (r # rs) inventory \<longleftrightarrow>
     candidates_trusted fs catalog K (wr_identity r) (wr_base r) (descriptors_of ws r) (refresh_mode_of dirty r) inventory
     \<and> repositories_trusted fs catalog K ws dirty rs
         (fst (refresh fs catalog (wr_identity r) (wr_base r) (descriptors_of ws r) (refresh_mode_of dirty r) inventory))"

lemma refresh_repositories_Cons:
  assumes "refresh_repositories fs catalog ws dirty (r # rs) inventory = (inventory', Inr refreshed)"
  obtains inventory1 snapshot statistics rest where
    "refresh fs catalog (wr_identity r) (wr_base r) (descriptors_of ws r) (refresh_mode_of dirty r) inventory = (inventory1, Inr (snapshot, statistics))"
    "refresh_repositories fs catalog ws dirty rs inventory1 = (inventory', Inr rest)" "refreshed = (snapshot, statistics) # rest"
  using assms by (auto split: prod.splits sum.splits)

lemma refresh_repositories_caches:
  "refresh_repositories fs catalog ws dirty rs inventory = (inventory', Inr refreshed) \<Longrightarrow> caches_sound (fs_git fs) K inventory
   \<Longrightarrow> contents_known fs K \<Longrightarrow> caches_sound (fs_git fs) K inventory'"
proof (induction rs arbitrary: inventory refreshed)
  case (Cons r rs)
  from Cons.prems(1) show ?case
    by (rule refresh_repositories_Cons) (use Cons.IH Cons.prems(2,3) refresh_caches_sound in blast)
qed simp

lemma refresh_repositories_full:
  "refresh_repositories fs catalog ws dirty rs inventory = (inventory', Inr refreshed) \<Longrightarrow> caches_sound (fs_git fs) K inventory
   \<Longrightarrow> contents_known fs K \<Longrightarrow> repositories_trusted fs catalog K ws dirty rs inventory
   \<Longrightarrow> list_all2 (\<lambda>r snapshot. full_snapshot fs catalog (wr_identity r) (wr_base r) (descriptors_of ws r) = Some snapshot) rs (map fst refreshed)"
proof (induction rs arbitrary: inventory refreshed)
  case (Cons r rs)
  from Cons.prems(1) show ?case
  proof (cases rule: refresh_repositories_Cons)
    case step: (1 inventory1 snapshot statistics rest)
    have trusted: "candidates_trusted fs catalog K (wr_identity r) (wr_base r) (descriptors_of ws r) (refresh_mode_of dirty r) inventory"
        "repositories_trusted fs catalog K ws dirty rs inventory1" using Cons.prems(4) step(1) by simp_all
    from refresh_full_snapshot [OF step(1) Cons.prems(2,3) trusted(1)] Cons.IH [OF step(2) _ Cons.prems(3) trusted(2)]
    show ?thesis by (simp add: step(3))
  qed
qed simp

lemma refresh_workspace_Inr:
  assumes "refresh_workspace_snapshot fs catalog ws dirty inventory = (inventory', Inr (snapshot, statistics))"
  obtains refreshed where "refresh_repositories fs catalog ws dirty (ws_repositories ws) inventory = (inventory', Inr refreshed)"
    "wn_repositories snapshot = map fst refreshed"
  using assms by (auto simp: refresh_workspace_snapshot_def split: prod.splits sum.splits)

text \<open>The bytes a verification fingerprint digests determine the identity and the fingerprints.\<close>

definition verification_bytes :: "indexer \<Rightarrow> workspace_snapshot \<Rightarrow> string" where
  "verification_bytes ix snapshot =
     framed_bytes (ap_analysis_identity (ix_prepare ix snapshot))
     @ concat (map (\<lambda>r. framed_bytes (rs_fingerprint (rp_state r))) (wn_repositories snapshot))"

lemma plan_fingerprint_bytes: "plan_fingerprint env phase ix snapshot = ge_sha256 (fs_git (en_files env phase)) (verification_bytes ix snapshot)"
  by (simp add: plan_fingerprint_def workspace_verification_fingerprint_def verification_bytes_def)

lemma framed_list_inj:
  "concat (map framed_bytes xs) = concat (map framed_bytes ys) \<Longrightarrow> list_all fits xs \<Longrightarrow> list_all fits ys \<Longrightarrow> xs = ys"
proof (induction xs arbitrary: ys)
  case Nil
  then show ?case by (cases ys) (simp_all add: framed_bytes_def le_bytes_def)
next
  case (Cons x xs)
  then obtain y ys' where ys: "ys = y # ys'" by (cases ys) (simp_all add: framed_bytes_def le_bytes_def)
  with Cons.prems framed_bytes_inj [of x y "concat (map framed_bytes xs)" "concat (map framed_bytes ys')"] Cons.IH [of ys']
  show ?case by simp
qed

text \<open>A snapshot's strings fit their length prefixes.\<close>

definition snapshot_fits :: "indexer \<Rightarrow> workspace_snapshot \<Rightarrow> bool" where
  "snapshot_fits ix snapshot \<longleftrightarrow>
     fits (ap_analysis_identity (ix_prepare ix snapshot)) \<and> list_all (\<lambda>r. fits (rs_fingerprint (rp_state r))) (wn_repositories snapshot)"

lemma verification_bytes_inj:
  assumes "verification_bytes ix s = verification_bytes ix t" "snapshot_fits ix s" "snapshot_fits ix t"
  shows "map (\<lambda>r. rs_fingerprint (rp_state r)) (wn_repositories s) = map (\<lambda>r. rs_fingerprint (rp_state r)) (wn_repositories t)"
proof (rule framed_list_inj)
  show "concat (map framed_bytes (map (\<lambda>r. rs_fingerprint (rp_state r)) (wn_repositories s)))
      = concat (map framed_bytes (map (\<lambda>r. rs_fingerprint (rp_state r)) (wn_repositories t)))"
    using framed_bytes_inj [OF _ _ assms(1) [unfolded verification_bytes_def]] assms(2,3) by (simp add: snapshot_fits_def o_def)
qed (use assms(2,3) in \<open>auto simp: snapshot_fits_def list_all_iff\<close>)

text \<open>
  C2. A run publishes only current analysis: what it published is the analysis of the snapshot it loaded,
  under a view with that snapshot's states; the inputs were loaded again afterwards with the same
  verification fingerprint; and after that the workspace still had the generation the run indexes,
  with only the stopping check between.
\<close>

theorem published_analysis_current:
  assumes "index_workspace env ix port ws dirty generation drain r = (r', answer)" "ru_calls r = []"
    and "PublishVerified p \<in> set (ru_calls r')"
  shows "published env ix ws dirty generation (ru_inventory r) p (ru_scheduler r')"
  using index_workspace_answered [OF assms(1,2)] assms(3) by (auto simp: answered_def)

text \<open>
  C8. The answer tells what happened: a count marked as published means exactly one publication, of that
  many observations; an unpublished answer is zero, and the store was at most told that the workspace
  is unchanged; even a run that fails published at most once and then asked for nothing but the inputs.
\<close>

theorem index_answers_exact:
  assumes "index_workspace env ix port ws dirty generation drain r = (r', answer)" "ru_calls r = []"
  shows "case answer of
      Inr (n, True) \<Rightarrow> \<exists>p. n = observation_count (pb_facts p) \<and> ru_calls r' \<in> {[PublishVerified p], [PublishVerified p, EnsureInputs (pb_view p)]}
    | Inr (n, False) \<Rightarrow> n = 0 \<and> (ru_calls r' = [] \<or> (\<exists>fingerprint. ru_calls r' = [StoreVerification (ws_name ws) fingerprint]))
    | Inl _ \<Rightarrow> ru_calls r' = [] \<or> (\<exists>fingerprint. ru_calls r' = [StoreVerification (ws_name ws) fingerprint])
        \<or> (\<exists>p. ru_calls r' \<in> {[PublishVerified p], [PublishVerified p, EnsureInputs (pb_view p)]})"
  using index_workspace_answered [OF assms] by (auto simp: answered_def unpublished_def split: sum.splits)


section \<open>A repository on its own\<close>

definition load_repository ::
    "environment \<Rightarrow> phase \<Rightarrow> indexer \<Rightarrow> workspace_repository \<Rightarrow> refresh_mode \<Rightarrow> ('st, workspace_snapshot) indexing" where
  "load_repository env phase ix repository mode r =
     (case refresh (en_files env phase) (ix_catalog ix) (wr_identity repository) (wr_base repository) [] mode (ru_inventory r) of
        (inventory, Inl e) \<Rightarrow> (r\<lparr>ru_inventory := inventory\<rparr>, Finish (Inl (display_error e)))
      | (inventory, Inr (snapshot, _)) \<Rightarrow>
          (r\<lparr>ru_inventory := inventory\<rparr>,
           Proceed \<lparr>wn_name = standalone_view_name (wr_identity repository), wn_repositories = [snapshot]\<rparr>))"

definition refuse_stopping :: "environment \<Rightarrow> nat \<Rightarrow> ('st, unit) indexing" where
  "refuse_stopping env k r =
     (let r = look env k r
      in (r, if sd_stopping (ru_scheduler r) then Finish (Inl (display_error scheduler_unavailable)) else Proceed ()))"

definition only_repository :: "workspace_analysis \<Rightarrow> string + repository_facts" where
  "only_repository analysis =
     (case analyzed_facts analysis of
        [] \<Rightarrow> Inl ''repository analysis returned no repository''
      | [facts] \<Rightarrow> Inr facts
      | _ \<Rightarrow> Inl ''repository analysis returned multiple repositories'')"

definition standalone_publication :: "indexer \<Rightarrow> workspace_snapshot \<Rightarrow> workspace_analysis \<Rightarrow> repository_facts \<Rightarrow> string \<Rightarrow> string + publication" where
  "standalone_publication ix snapshot analysis facts fingerprint =
     rbind (from_baseline [facts] (wa_overrides analysis)) (\<lambda>g.
     rbind (add_candidates (wa_repository_dependencies analysis) g) (\<lambda>g.
     rbind (view_new_scoped (wn_name snapshot) (ap_analysis_identity (ix_prepare ix snapshot)) [rf_state facts]
              (ap_repository_enrichment_identities (ix_prepare ix snapshot))) (\<lambda>view.
     rbind (with_repository_contexts view
              (bm_of_list (map (\<lambda>analyzer. (analyzer, merge_declared_contexts ix snapshot analyzer (context_map_for g analyzer)))
                 (ix_enrichers ix)))) (\<lambda>view.
     rbind (with_repository_enrichment_inputs view (ix_analyzed_inputs ix snapshot analysis)) (\<lambda>view.
       Inr \<lparr>pb_view = view, pb_facts = [facts], pb_overrides = wa_overrides analysis, pb_shards = wa_fact_shards analysis,
            pb_candidates = wa_semantic_candidates analysis, pb_verification = fingerprint\<rparr>)))))"

definition run_repository ::
    "environment \<Rightarrow> indexer \<Rightarrow> 'st store_port \<Rightarrow> workspace_repository \<Rightarrow> bool \<Rightarrow> ('st, nat \<times> bool) indexing" where
  "run_repository env ix port repository reconcile =
     andthen (load_repository env Loading ix repository (if reconcile then Authoritative else Hinted)) (\<lambda>snapshot.
     andthen (refuse_stopping env 1) (\<lambda>_.
     andthen (attempt (ix_analyze ix snapshot (ix_prepare ix snapshot))) (\<lambda>analysis.
     andthen (refuse_stopping env 2) (\<lambda>_.
     andthen (attempt (only_repository analysis)) (\<lambda>facts.
     andthen (attempt (standalone_publication ix snapshot analysis facts (plan_fingerprint env Loading ix snapshot))) (\<lambda>p.
     andthen (load_repository env Verifying ix repository Authoritative) (\<lambda>current.
       if plan_fingerprint env Verifying ix current \<noteq> plan_fingerprint env Loading ix snapshot
       then answer_with (Inl ''repository inputs changed during indexing; stale analysis was discarded'')
       else
         andthen (change port (PublishRepository facts)) (\<lambda>published_repository.
         andthen (ask (sp_view_matches port (pb_view p))) (\<lambda>matches.
         andthen (change port (PublishVerified p)) (\<lambda>_.
         andthen (change port (EnsureInputs (pb_view p))) (\<lambda>_ r.
           (r, Proceed (length (rf_observations facts), published_repository \<or> \<not> matches)))))))))))))"

text \<open>The run waits for the indexing slot; without it the operation has not returned.\<close>

definition index_repository ::
    "environment \<Rightarrow> indexer \<Rightarrow> 'st store_port \<Rightarrow> workspace_repository \<Rightarrow> bool \<Rightarrow> 'st run \<Rightarrow> ('st run \<times> index_answer) option" where
  "index_repository env ix port repository reconcile r =
     (let waited = look env 0 r
      in case begin_operation (''repository '' @ wr_identity repository) (ru_scheduler waited) of
           None \<Rightarrow> None
         | Some (Inl e) \<Rightarrow> Some (waited, Inl (display_error e))
         | Some (Inr held) \<Rightarrow>
             (case begin_repository (wr_identity repository) held of
                Inl e \<Rightarrow> Some (waited\<lparr>ru_scheduler := end_operation held\<rparr>, Inl (display_error e))
              | Inr held \<Rightarrow>
                  let (r, answer) = conclude (run_repository env ix port repository reconcile (waited\<lparr>ru_scheduler := held\<rparr>))
                  in Some (r\<lparr>ru_scheduler := end_operation (end_repository (wr_identity repository) (ru_scheduler r))\<rparr>, answer)))"

text \<open>What a repository's publication rests on.\<close>

definition standalone_current ::
    "environment \<Rightarrow> indexer \<Rightarrow> workspace_repository \<Rightarrow> publication \<Rightarrow> bool" where
  "standalone_current env ix repository p \<longleftrightarrow>
     (\<exists>inventory inventory' snapshot statistics facts.
        refresh (en_files env Verifying) (ix_catalog ix) (wr_identity repository) (wr_base repository) [] Authoritative inventory
          = (inventory', Inr (snapshot, statistics))
        \<and> pb_verification p = plan_fingerprint env Verifying ix
            \<lparr>wn_name = standalone_view_name (wr_identity repository), wn_repositories = [snapshot]\<rparr>
        \<and> pb_facts p = [facts] \<and> wv_repository_states (pb_view p) = [rf_state facts])"

lemma wp_load_repository [steps]:
  assumes "\<And>inventory e. Q (r\<lparr>ru_inventory := inventory\<rparr>) (Finish (Inl e))"
    and "\<And>inventory snapshot statistics.
           refresh (en_files env phase) (ix_catalog ix) (wr_identity repository) (wr_base repository) [] mode (ru_inventory r)
             = (inventory, Inr (snapshot, statistics))
           \<Longrightarrow> wp (next \<lparr>wn_name = standalone_view_name (wr_identity repository), wn_repositories = [snapshot]\<rparr>) Q (r\<lparr>ru_inventory := inventory\<rparr>)"
  shows "wp (andthen (load_repository env phase ix repository mode) next) Q r"
proof -
  obtain inventory result where
    "refresh (en_files env phase) (ix_catalog ix) (wr_identity repository) (wr_base repository) [] mode (ru_inventory r) = (inventory, result)"
    by fastforce
  with assms show ?thesis by (cases result) (auto simp: wp_def andthen_def load_repository_def)
qed

lemma wp_refuse_stopping [steps]:
  "(\<And>e. Q (look env k r) (Finish (Inl e))) \<Longrightarrow> wp (next ()) Q (look env k r) \<Longrightarrow> wp (andthen (refuse_stopping env k) next) Q r"
  by (simp add: wp_def andthen_def refuse_stopping_def Let_def)

lemma standalone_publication_Inr:
  assumes "standalone_publication ix snapshot analysis facts fingerprint = Inr p"
  shows "pb_facts p = [facts]" "pb_verification p = fingerprint" "wv_repository_states (pb_view p) = [rf_state facts]"
  using assms
  by (auto simp: standalone_publication_def rbind_Inr_iff with_repository_contexts_def with_repository_enrichment_inputs_def
      dest: view_new_scoped_states split: if_splits)

definition repository_outcome :: "environment \<Rightarrow> indexer \<Rightarrow> workspace_repository \<Rightarrow> 'st run \<Rightarrow> (index_answer, nat \<times> bool) step \<Rightarrow> bool" where
  "repository_outcome env ix repository r s \<longleftrightarrow>
     ru_calls r = [] \<and> (\<exists>e. s = Finish (Inl e))
     \<or> (\<exists>p facts. standalone_current env ix repository p \<and> pb_facts p = [facts]
          \<and> prefix (ru_calls r) [PublishRepository facts, PublishVerified p, EnsureInputs (pb_view p)] \<and> ru_calls r \<noteq> []
          \<and> ((\<exists>e. s = Finish (Inl e))
             \<or> length (ru_calls r) = 3 \<and> (\<exists>published. s = Proceed (length (rf_observations facts), published))))"

lemma repository_outcome_quiet: "ru_calls r = [] \<Longrightarrow> repository_outcome env ix repository r (Finish (Inl e))"
  by (simp add: repository_outcome_def)

lemma repository_outcome_published:
  assumes "standalone_current env ix repository p" "pb_facts p = [facts]"
    "ru_calls r \<in> {[PublishRepository facts], [PublishRepository facts, PublishVerified p],
       [PublishRepository facts, PublishVerified p, EnsureInputs (pb_view p)]}"
    "s \<in> range (Finish \<circ> Inl) \<or> length (ru_calls r) = 3 \<and> s \<in> range (\<lambda>b. Proceed (length (rf_observations facts), b))"
  shows "repository_outcome env ix repository r s"
  unfolding repository_outcome_def using assms by (intro disjI2 exI [of _ p] exI [of _ facts]) auto

lemma run_repository_outcome:
  assumes "ru_calls r = []"
  shows "wp (run_repository env ix port repository reconcile) (repository_outcome env ix repository) r"
proof -
  have current: "standalone_current env ix repository p"
    if "refresh (en_files env Verifying) (ix_catalog ix) (wr_identity repository) (wr_base repository) [] Authoritative inventory
          = (inventory', Inr (now, statistics))"
      "plan_fingerprint env Verifying ix \<lparr>wn_name = standalone_view_name (wr_identity repository), wn_repositories = [now]\<rparr>
          = plan_fingerprint env Loading ix snapshot"
      "standalone_publication ix snapshot analysis facts (plan_fingerprint env Loading ix snapshot) = Inr p"
    for inventory inventory' now statistics snapshot analysis facts p
    unfolding standalone_current_def
    by (intro exI conjI, rule that(1)) (simp_all add: that(2) standalone_publication_Inr [OF that(3)])
  show ?thesis
    unfolding run_repository_def
    by (intro steps; (rule repository_outcome_quiet; simp add: assms; fail)?; (rule wp_return)?; rule repository_outcome_published;
        (rule current; (assumption | simp; fail))?; (erule standalone_publication_Inr)?; simp add: assms)
qed


section \<open>An example\<close>

text \<open>The repository of the inventory's example, read in full at every loading.\<close>

definition example_entries :: "(persisted_entry \<times> repository_input) list" where
  "example_entries =
     [(example_entry ''a'' ''1'', \<lparr>ri_path = [(4, ''a'')], ri_content = ''x'', ri_kind = Source\<rparr>),
      (example_entry ''b'' ''2'', \<lparr>ri_path = [(4, ''b'')], ri_content = ''y'', ri_kind = Source\<rparr>)]"

definition example_state_r :: repository_state where
  "example_state_r = \<lparr>rs_repository = \<lparr>lr_identity = ''r''\<rparr>, rs_head = None, rs_fingerprint = ''0''\<rparr>"

definition example_snapshot_r :: repository_snapshot where
  "example_snapshot_r = \<lparr>rp_base = ''/r'', rp_state = example_state_r, rp_inputs = map snd example_entries\<rparr>"

lemma example_store_blob: "\<exists>st'. store_blob example_files hash content base st = (st', Inr ())"
  by (auto simp: store_blob_def example_files_def Let_def)

lemma example_read:
  "\<exists>st'. read_input example_files base ''/r/a'' st = (st', Inr (''x'', ''1''))"
  "\<exists>st'. read_input example_files base ''/r/b'' st = (st', Inr (''y'', ''2''))"
proof -
  have files: "fs_read example_files ''/r/a'' = Inr ''x''" "fs_read example_files ''/r/b'' = Inr ''y''"
      "ge_sha256 (fs_git example_files) ''x'' = ''1''" "ge_sha256 (fs_git example_files) ''y'' = ''2''"
    by (simp_all add: example_files_def example_digest_def)
  obtain st1 where "store_blob example_files ''1'' ''x'' base (remember ''1'' ''x'' st) = (st1, Inr ())" using example_store_blob by blast
  then show "\<exists>st'. read_input example_files base ''/r/a'' st = (st', Inr (''x'', ''1''))" by (simp add: read_input_def files Let_def)
  obtain st2 where "store_blob example_files ''2'' ''y'' base (remember ''2'' ''y'' st) = (st2, Inr ())" using example_store_blob by blast
  then show "\<exists>st'. read_input example_files base ''/r/b'' st = (st', Inr (''y'', ''2''))" by (simp add: read_input_def files Let_def)
qed

lemma example_paths:
  "strip_path_prefix (path_components ''/r'') (path_components ''/r/a'') = Some [(4, ''a'')]"
  "strip_path_prefix (path_components ''/r'') (path_components ''/r/b'') = Some [(4, ''b'')]"
  "path_text [(4, ''a'')] = ''a''" "path_text [(4, ''b'')] = ''b''"
  by code_simp+

lemma example_authoritative_inputs:
  assumes "rf_authoritative plan" "rf_base plan = ''/r''"
  shows "\<exists>acc'. refresh_inputs example_files plan [(''/r/a'', Source), (''/r/b'', Source)] acc = (acc', Inr example_entries)"
proof -
  obtain st s where acc: "acc = (st, s)" by fastforce
  obtain st1 where st1: "read_input example_files ''/r'' ''/r/a'' st = (st1, Inr (''x'', ''1''))" using example_read(1) by blast
  obtain st2 where st2: "read_input example_files ''/r'' ''/r/b'' st1 = (st2, Inr (''y'', ''2''))" using example_read(2) by blast
  have "fs_metadata example_files p = Inr example_hint" for p by (simp add: example_files_def)
  with st1 st2 show ?thesis
    by (simp add: acc assms example_paths input_content_def counted_read_def Let_def example_entries_def example_entry_def)
qed

lemma example_authoritative_refresh:
  "\<exists>st' s. refresh example_files example_catalog ''r'' ''/r'' [] Authoritative st = (st', Inr (example_snapshot_r, s))"
proof -
  let ?plan = "refresh_plan example_files ''r'' ''/r'' ''/r'' [] Authoritative st"
  have plan: "rf_authoritative ?plan" "rf_base ?plan = ''/r''" by (simp_all add: refresh_plan_def Let_def)
  obtain st1 s1 where inputs: "refresh_inputs example_files ?plan [(''/r/a'', Source), (''/r/b'', Source)]
      (st, no_statistics\<lparr>is_discovered_inputs := length [(''/r/a'', Source), (''/r/b'', Source)],
         is_watcher_inputs := (case rf_dirty ?plan of None \<Rightarrow> 0 | Some paths \<Rightarrow> length paths)\<rparr>) = ((st1, s1), Inr example_entries)"
    using example_authoritative_inputs [OF plan] by (metis surj_pair)
  have "fs_is_dir example_files ''/r''" "fs_create_dir example_files dir = None" "fs_write_manifest example_files key = None" for dir key
    by (simp_all add: example_files_def)
  with refresh_succeeds [OF _ example_canonical example_candidates refl inputs example_state]
  show ?thesis by (simp add: example_snapshot_r_def example_state_r_def)
qed

definition example_facts_r :: repository_facts where
  "example_facts_r =
     \<lparr>rf_state = example_state_r, rf_analysis_identity = ''v'', rf_incomplete = False, rf_diagnostics = [], rf_entities = [],
      rf_grpc_bindings = [], rf_observations = []\<rparr>"

definition example_analysis :: workspace_analysis where
  "example_analysis =
     \<lparr>wa_analysis_identity = ''v'', wa_repositories = [\<lparr>ay_facts = example_facts_r, ay_cache = CacheMiss\<rparr>], wa_overrides = [],
      wa_semantic_candidates = [], wa_diagnostics = [], wa_repository_dependencies = [],
      wa_cache = \<lparr>ca_memory_hits = 0, ca_disk_hits = 0, ca_misses = 0\<rparr>, wa_fact_shards = []\<rparr>"

definition example_indexer :: indexer where
  "example_indexer =
     \<lparr>ix_catalog = example_catalog, ix_prepare = (\<lambda>_. \<lparr>ap_analysis_identity = ''v'', ap_repository_enrichment_identities = [(''r'', ''i'')]\<rparr>),
      ix_analyze = (\<lambda>_ _. Inr example_analysis), ix_analyzed_inputs = (\<lambda>_ _. []), ix_enrichers = [], ix_contexts = (\<lambda>_ _ _. [])\<rparr>"

definition example_port :: "unit store_port" where
  "example_port =
     \<lparr>sp_verification_matches = (\<lambda>_ _ _. Inr False), sp_view_matches = (\<lambda>_ _. Inr False), sp_repository_contexts = (\<lambda>_ _ _ _. Inr []),
      sp_input_fingerprint = (\<lambda>_ _ _ _. Inr None), sp_change = (\<lambda>_ st. (st, Inr True))\<rparr>"

definition example_environment :: environment where
  "example_environment = \<lparr>en_files = (\<lambda>_. example_files), en_interfere = (\<lambda>_ s. s)\<rparr>"

definition example_run :: "unit run" where
  "example_run =
     \<lparr>ru_scheduler = new_scheduler,
      ru_inventory = \<lparr>iv_verified = [], iv_content = [], iv_blobs = [], iv_manifests = [], iv_checkpoints = []\<rparr>,
      ru_store = (), ru_calls = []\<rparr>"

definition example_dirty :: dirty_map where
  "example_dirty = [(''r'', from_intent RiAll)]"

abbreviation example_ws :: workspace where
  "example_ws \<equiv> Inventory.checkpoint_workspace"

definition example_loaded :: workspace_snapshot where
  "example_loaded = \<lparr>wn_name = ''w'', wn_repositories = [example_snapshot_r]\<rparr>"

lemma example_loading:
  "\<exists>inventory' statistics. refresh_workspace_snapshot (en_files example_environment phase) example_catalog example_ws
     (Some example_dirty) inventory = (inventory', Inr (example_loaded, statistics))"
proof -
  obtain st s where "refresh example_files example_catalog ''r'' ''/r'' [] Authoritative inventory = (st, Inr (example_snapshot_r, s))"
    using example_authoritative_refresh by blast
  moreover have "authoritative (from_intent RiAll)" by code_simp
  ultimately show ?thesis
    by (simp add: refresh_workspace_snapshot_def Inventory.checkpoint_workspace_def refresh_mode_of_def example_dirty_def descriptors_of_def
        example_environment_def example_loaded_def)
qed

definition example_view_r :: workspace_view where
  "example_view_r =
     \<lparr>wv_name = ''w'', wv_analysis_identity = ''v'', wv_repository_states = [example_state_r],
      wv_repository_analysis_identities = [(''r'', ''i'')], wv_repository_contexts = [], wv_repository_enrichment_input_identities = []\<rparr>"

lemma example_view_new: "view_new_scoped ''w'' ''v'' [example_state_r] [(''r'', ''i'')] = Inr example_view_r"
  by code_simp

lemma example_facts_workspace: "workspace_facts example_analysis = [example_facts_r]"
  by code_simp

lemma example_publication:
  "publication_of example_indexer example_loaded example_analysis [example_facts_r] ''0'' example_view_r
     = Inr \<lparr>pb_view = example_view_r, pb_facts = [example_facts_r], pb_overrides = [], pb_shards = [], pb_candidates = [], pb_verification = ''0''\<rparr>"
  by code_simp

lemma example_fingerprint: "plan_fingerprint example_environment phase ix snapshot = ''0''"
  by (simp add: plan_fingerprint_def workspace_verification_fingerprint_def example_environment_def example_files_def
      framed_bytes_def le_bytes_def)

text \<open>A run of any indexer over the example's files.\<close>

lemma example_run_publishes:
  assumes catalog: "ix_catalog ix = example_catalog" and plan: "ix_prepare ix example_loaded = plan"
    and analysis: "ix_analyze ix example_loaded plan = Inr analysis"
    and view: "view_new_scoped ''w'' (ap_analysis_identity plan) [example_state_r] (ap_repository_enrichment_identities plan) = Inr view"
    and publication: "publication_of ix example_loaded analysis (workspace_facts analysis) ''0'' view = Inr p"
  shows "\<exists>r'. index_workspace example_environment ix example_port example_ws (Some example_dirty) None False example_run
      = (r', Inr (observation_count (pb_facts p), True)) \<and> ru_calls r' = [PublishVerified p, EnsureInputs (pb_view p)]"
proof -
  have eligible: "try_checkpoint example_environment ix example_port example_ws (Some example_dirty) None False example_run
      = (example_run, Proceed ())"
    by (simp add: try_checkpoint_def verify_checkpoint_def load_checkpoint_def example_run_def)
  obtain inventory1 statistics1 where load1: "refresh_workspace_snapshot (en_files example_environment Loading) example_catalog
      example_ws (Some example_dirty) (ru_inventory example_run) = (inventory1, Inr (example_loaded, statistics1))"
    using example_loading by blast
  obtain inventory2 statistics2 where load2: "refresh_workspace_snapshot (en_files example_environment Verifying) example_catalog
      example_ws (Some example_dirty) inventory1 = (inventory2, Inr (example_loaded, statistics2))"
    using example_loading by blast
  have env: "look example_environment k r = r" for k and r :: "unit run" by (simp add: look_def example_environment_def)
  have port: "sp_view_matches example_port v st = Inr False" "sp_change example_port c st = (st, Inr True)" for v c st
    by (simp_all add: example_port_def)
  have idle: "sd_generations (ru_scheduler example_run) = []" "\<not> sd_stopping (ru_scheduler example_run)" "ru_calls example_run = []"
    by (simp_all add: example_run_def new_scheduler_def)
  have ws: "ws_name example_ws = ''w''" by (simp add: Inventory.checkpoint_workspace_def)
  have publish: "\<exists>r'. analyze_and_publish example_environment ix example_port example_ws (Some example_dirty) None False
        example_loaded ''0'' view (example_run\<lparr>ru_inventory := inventory1\<rparr>) = (r', Proceed (observation_count (pb_facts p), True))
      \<and> ru_calls r' = [PublishVerified p, EnsureInputs (pb_view p)]"
    by (simp add: analyze_and_publish_def andthen_def while_current_def unless_stopping_def attempt_def ensure_generation_current_def
        env idle catalog plan analysis publication load_def load2 discard_stale_def example_fingerprint change_def port
        after_publication_def keep_checkpoint_def Let_def)
  have "map rp_state (wn_repositories example_loaded) = [example_state_r]" by (simp add: example_loaded_def example_snapshot_r_def)
  with publish eligible load1 show ?thesis
    by (auto simp: index_workspace_def conclude_def andthen_def load_def unless_stopping_def while_current_def attempt_def
        ensure_generation_current_def env idle catalog plan ws view try_unchanged_def ask_def port example_fingerprint Let_def)
qed

definition example_publication_r :: publication where
  "example_publication_r =
     \<lparr>pb_view = example_view_r, pb_facts = [example_facts_r], pb_overrides = [], pb_shards = [], pb_candidates = [], pb_verification = ''0''\<rparr>"

lemma example_index:
  "\<exists>r'. index_workspace example_environment example_indexer example_port example_ws (Some example_dirty) None False example_run
      = (r', Inr (0, True)) \<and> ru_calls r' = [PublishVerified example_publication_r, EnsureInputs example_view_r]"
proof -
  have "publication_of example_indexer example_loaded example_analysis (workspace_facts example_analysis) ''0'' example_view_r
      = Inr example_publication_r"
    by (simp add: example_facts_workspace example_publication example_publication_r_def)
  moreover have "ix_analyze example_indexer example_loaded plan = Inr example_analysis" for plan by (simp add: example_indexer_def)
  moreover have "view_new_scoped ''w'' (ap_analysis_identity (ix_prepare example_indexer example_loaded)) [example_state_r]
      (ap_repository_enrichment_identities (ix_prepare example_indexer example_loaded)) = Inr example_view_r"
    by (simp add: example_indexer_def example_view_new)
  moreover have "observation_count (pb_facts example_publication_r) = 0" "pb_view example_publication_r = example_view_r"
    by code_simp+
  moreover have "ix_catalog example_indexer = example_catalog" by (simp add: example_indexer_def)
  ultimately show ?thesis using example_run_publishes [of example_indexer, OF _ refl] by metis
qed

text \<open>What the example published, and the properties there.\<close>

theorem published_analysis_current_witness:
  "\<exists>r' :: unit run. published example_environment example_indexer example_ws (Some example_dirty) None (ru_inventory example_run)
     example_publication_r (ru_scheduler r')"
proof -
  have none: "ru_calls example_run = []" by (simp add: example_run_def)
  obtain r' where "index_workspace example_environment example_indexer example_port example_ws (Some example_dirty) None False example_run
      = (r', Inr (0, True))" "PublishVerified example_publication_r \<in> set (ru_calls r')" using example_index by auto
  from published_analysis_current [OF this(1) none this(2)] show ?thesis by blast
qed

theorem index_answers_exact_witness:
  "\<exists>r' p. index_workspace example_environment example_indexer example_port example_ws (Some example_dirty) None False example_run
     = (r', Inr (0, True)) \<and> ru_calls r' \<in> {[PublishVerified p], [PublishVerified p, EnsureInputs (pb_view p)]}"
proof -
  have none: "ru_calls example_run = []" by (simp add: example_run_def)
  obtain r' where r': "index_workspace example_environment example_indexer example_port example_ws (Some example_dirty) None False example_run
      = (r', Inr (0, True))" using example_index by blast
  from index_answers_exact [OF r' none] r' show ?thesis by auto
qed


definition example_selection :: workspace_repository where
  "example_selection = hd (ws_repositories example_ws)"

definition example_standalone :: workspace_snapshot where
  "example_standalone = \<lparr>wn_name = standalone_view_name ''r'', wn_repositories = [example_snapshot_r]\<rparr>"

lemma example_standalone_publication:
  "\<exists>p. standalone_publication example_indexer example_standalone example_analysis example_facts_r ''0'' = Inr p \<and> pb_facts p = [example_facts_r]"
proof -
  have "case standalone_publication example_indexer example_standalone example_analysis example_facts_r ''0'' of
      Inl _ \<Rightarrow> False | Inr p \<Rightarrow> pb_facts p = [example_facts_r]" by code_simp
  then show ?thesis by (auto split: sum.splits)
qed

lemma example_index_repository:
  "\<exists>r' p. index_repository example_environment example_indexer example_port example_selection True example_run = Some (r', Inr (0, True))
     \<and> ru_calls r' = [PublishRepository example_facts_r, PublishVerified p, EnsureInputs (pb_view p)]"
proof -
  have selection: "wr_identity example_selection = ''r''" "wr_base example_selection = ''/r''"
    by (simp_all add: example_selection_def Inventory.checkpoint_workspace_def)
  have load: "\<exists>inventory. load_repository example_environment phase example_indexer example_selection Authoritative r
      = (r\<lparr>ru_inventory := inventory\<rparr>, Proceed example_standalone)" for phase and r :: "unit run"
    using example_authoritative_refresh [of "ru_inventory r"]
    by (auto simp: load_repository_def selection example_environment_def example_indexer_def example_standalone_def)
  obtain p where p: "standalone_publication example_indexer example_standalone example_analysis example_facts_r ''0'' = Inr p"
    using example_standalone_publication by blast
  have env: "look example_environment k r = r" for k and r :: "unit run" by (simp add: look_def example_environment_def)
  let ?held = "example_run\<lparr>ru_scheduler := new_scheduler\<lparr>sd_active := Some ''repository r'', sd_indexing := [''r'']\<rparr>\<rparr>"
  obtain inventory1 where load1: "load_repository example_environment Loading example_indexer example_selection Authoritative ?held
      = (?held\<lparr>ru_inventory := inventory1\<rparr>, Proceed example_standalone)" using load by blast
  obtain inventory2 where load2: "load_repository example_environment Verifying example_indexer example_selection Authoritative
        (?held\<lparr>ru_inventory := inventory1\<rparr>)
      = (?held\<lparr>ru_inventory := inventory1\<rparr>\<lparr>ru_inventory := inventory2\<rparr>, Proceed example_standalone)" using load by blast
  have ix: "ix_analyze example_indexer s plan = Inr example_analysis" for s plan by (simp add: example_indexer_def)
  have port: "sp_view_matches example_port v st = Inr False" "sp_change example_port c st = (st, Inr True)" for v c st
    by (simp_all add: example_port_def)
  have only: "only_repository example_analysis = Inr example_facts_r" by (simp add: only_repository_def example_analysis_def)
  have idle: "ru_scheduler example_run = new_scheduler" "ru_calls example_run = []" "sd_stopping new_scheduler = False"
      "sd_active new_scheduler = None" "sd_indexing new_scheduler = []" "rf_observations example_facts_r = []"
    by (simp_all add: example_run_def new_scheduler_def example_facts_r_def)
  have "\<exists>r'. run_repository example_environment example_indexer example_port example_selection True ?held = (r', Proceed (0, True))
      \<and> ru_calls r' = [PublishRepository example_facts_r, PublishVerified p, EnsureInputs (pb_view p)]"
    using load2
    by (simp add: run_repository_def andthen_def load1 refuse_stopping_def env idle attempt_def ix only example_fingerprint p
        change_def ask_def port Let_def)
  then show ?thesis
    by (auto simp: index_repository_def Let_def env begin_operation_def begin_repository_def idle selection conclude_def)
qed


end
