(* ===== verification/Published_Analysis.thy ===== *)
theory Published_Analysis imports Index_Run begin

text \<open>
  The indexing run on the indexer itself: what \<open>index_workspace_through_port\<close> asks of the indexer is
  answered by \<open>prepare\<close>, \<open>analyze_prepared\<close> and the identities of \<open>crates/indexing/src/lib.rs\<close>. No cache
  the indexer may have found changes what is published.
\<close>

section \<open>The indexer of a run\<close>

definition plan_summary :: "workspace_plan \<Rightarrow> analysis_plan" where
  "plan_summary plan =
     \<lparr>ap_analysis_identity = wl_analysis_identity plan,
      ap_repository_enrichment_identities = repository_enrichment_identities plan\<rparr>"

text \<open>\<open>cache\<close> is the state of the caches when the run prepares its analysis, \<open>later\<close> when it analyzes.\<close>

definition run_indexer ::
    "(string \<Rightarrow> string) \<Rightarrow> input_catalog \<Rightarrow> cache_io \<Rightarrow> analysis_indexer \<Rightarrow> analysis_cache \<Rightarrow> analysis_cache \<Rightarrow> indexer" where
  "run_indexer sha catalog io core cache later =
     \<lparr>ix_catalog = catalog,
      ix_prepare = (\<lambda>snapshot. plan_summary (snd (prepare io core snapshot cache))),
      ix_analyze = (\<lambda>snapshot _. snd (analyze_prepared io core snapshot (snd (prepare io core snapshot cache)) later)),
      ix_analyzed_inputs = analyzed_enrichment_input_identities sha core,
      ix_enrichers = map enricher_id (in_enrichers core),
      ix_contexts = enrichment_contexts core\<rparr>"

text \<open>What is prepared does not depend on the caches.\<close>

lemma plan_summary_prepare:
  "plan_summary (snd (prepare io core snapshot c)) =
     (let identities = repository_identities (map (\<lambda>a. ax_prepare a snapshot) (in_analyzers core)) snapshot in
      \<lparr>ap_analysis_identity = workspace_analysis_identity identities,
       ap_repository_enrichment_identities = bm_map enrichment_identity identities\<rparr>)"
  by (simp add: prepare_def plan_summary_def repository_enrichment_identities_def Let_def split: prod.split)

lemma images_eq_iff: "f ` A = g ` B \<longleftrightarrow> (\<forall>a \<in> A. \<exists>b \<in> B. f a = g b) \<and> (\<forall>b \<in> B. \<exists>a \<in> A. f a = g b)"
  unfolding set_eq_subset image_subset_iff image_iff by (simp add: eq_commute)

lemma bm_set_eq_iff:
  assumes "bm_wf m" "bm_wf n"
  shows "m = n \<longleftrightarrow> set m = set n"
proof
  assume "set m = set n"
  then have "map_of m k = Some v \<longleftrightarrow> map_of n k = Some v" for k v
    using bm_wf_in_iff [OF assms(1), of k v] bm_wf_in_iff [OF assms(2), of k v] by simp
  then have "map_of m k = map_of n k" for k
    using option.exhaust by metis
  then show "m = n" by (intro bm_ext assms ext)
qed simp

text \<open>Equal plans: the same repositories, each with the same analyzers, versions and active plugins.\<close>

lemma analysis_identity_exact:
  assumes "distinct_repositories (wn_repositories s)" "distinct_repositories (wn_repositories t)"
  shows "wl_analysis_identity (snd (prepare io core s c)) = wl_analysis_identity (snd (prepare io' core' t c')) \<longleftrightarrow>
    (\<lambda>r. (repository_of r, set (repository_metadata (map (\<lambda>a. ax_prepare a s) (in_analyzers core)) (repository_of r)))) ` set (wn_repositories s) =
    (\<lambda>r. (repository_of r, set (repository_metadata (map (\<lambda>a. ax_prepare a t) (in_analyzers core')) (repository_of r)))) ` set (wn_repositories t)"
    (is "?ids \<longleftrightarrow> ?f ` set ?rs = ?g ` set ?ts")
proof -
  let ?m = "repository_identities (map (\<lambda>a. ax_prepare a s) (in_analyzers core)) s"
  let ?n = "repository_identities (map (\<lambda>a. ax_prepare a t) (in_analyzers core')) t"
  have set_of: "set (bm_of_list (map (\<lambda>r. (repository_of r, v r)) rs)) = (\<lambda>r. (repository_of r, v r)) ` set rs"
    if "distinct_repositories rs" for rs and v :: "repository_snapshot \<Rightarrow> string"
  proof -
    have "(k, x) \<in> set (bm_of_list (map (\<lambda>r. (repository_of r, v r)) rs)) \<longleftrightarrow> (\<exists>r \<in> set rs. k = repository_of r \<and> x = v r)" for k x
    proof -
      have "(k, x) \<in> set (bm_of_list (map (\<lambda>r. (repository_of r, v r)) rs)) \<longleftrightarrow>
          map_of (bm_of_list (map (\<lambda>r. (repository_of r, v r)) rs)) k = Some x"
        by (rule bm_wf_in_iff [OF bm_wf_of_list])
      also have "\<dots> \<longleftrightarrow> (\<exists>r \<in> set rs. k = repository_of r \<and> x = v r)"
      proof
        assume "map_of (bm_of_list (map (\<lambda>r. (repository_of r, v r)) rs)) k = Some x"
        then have "(k, x) \<in> set (rev (map (\<lambda>r. (repository_of r, v r)) rs))"
          unfolding map_of_bm_of_list by (rule map_of_SomeD)
        then show "\<exists>r \<in> set rs. k = repository_of r \<and> x = v r" by auto
      qed (use map_of_of_list_map [OF that, where v = v] in blast)
      finally show ?thesis .
    qed
    then show ?thesis by auto
  qed
  have "?ids \<longleftrightarrow> ?m = ?n"
    by (simp add: prepare_def Let_def workspace_analysis_identity_def workspace_identity_inj split: prod.split)
  also have "\<dots> \<longleftrightarrow> set ?m = set ?n"
    unfolding repository_identities_def by (rule bm_set_eq_iff [OF bm_wf_of_list bm_wf_of_list])
  also have "\<dots> \<longleftrightarrow> ?f ` set ?rs = ?g ` set ?ts"
    unfolding repository_identities_def set_of [OF assms(1)] set_of [OF assms(2)]
    unfolding images_eq_iff by (simp only: prod.inject repository_analysis_identity_eq_iff)
  finally show ?thesis .
qed


section \<open>What a run publishes\<close>

lemma workspace_facts_cong:
  "analyzed_facts a = analyzed_facts b \<Longrightarrow> wa_fact_shards a = wa_fact_shards b \<Longrightarrow> workspace_facts a = workspace_facts b"
  by (simp add: workspace_facts_def)

text \<open>The facts of analyzing a snapshot from nothing, completed by the calls between its repositories.\<close>

definition fresh_shards :: "(analyzer \<Rightarrow> repository_snapshot \<Rightarrow> repository_contribution option) \<Rightarrow> analysis_indexer \<Rightarrow> workspace_snapshot \<Rightarrow> fact_shard list" where
  "fresh_shards local core snapshot =
     concat (map (shards_of_analysis \<circ> fresh_analysis local (in_analyzers core)) (wn_repositories snapshot))"

definition fresh_workspace_facts ::
    "(analyzer \<Rightarrow> repository_snapshot \<Rightarrow> repository_contribution option) \<Rightarrow> graphql_resolver_candidate list \<Rightarrow> analysis_indexer
     \<Rightarrow> workspace_snapshot \<Rightarrow> repository_facts list" where
  "fresh_workspace_facts local resolvers core snapshot =
     (let facts = bound_facts resolvers (fresh_facts local core snapshot) in
      append_workspace_observations
        (workspace_dynamic_dispatch_observations
           (concat (map rf_observations facts) @ concat (map fs_observations (fresh_shards local core snapshot)))) facts)"



section \<open>An example\<close>

text \<open>The run of the example, on an indexer with one analyzer that finds a candidate.\<close>

abbreviation candidate_core :: analysis_indexer where
  "candidate_core \<equiv> example_core (\<lambda>_ _. [example_candidate])"

definition candidate_indexer :: indexer where
  "candidate_indexer = run_indexer example_digest example_catalog example_io candidate_core empty_cache empty_cache"

lemma candidate_identities:
  "repository_identities (map (\<lambda>a. ax_prepare a example_loaded) (in_analyzers candidate_core)) example_loaded = [(''r'', ''1:x1:1'')]"
  by code_simp

definition candidate_plan :: analysis_plan where
  "candidate_plan =
     \<lparr>ap_analysis_identity = ''repositories:1:r:6:1:x1:1:core-rules:6'',
      ap_repository_enrichment_identities = [(''r'', ''6:1:x1:1:core-rules:6'')]\<rparr>"

lemma candidate_texts:
  "workspace_analysis_identity [(''r'', ''1:x1:1'')] = ''repositories:1:r:6:1:x1:1:core-rules:6''"
  "enrichment_identity ''1:x1:1'' = ''6:1:x1:1:core-rules:6''"
  by code_simp+

lemma candidate_prepare: "ix_prepare candidate_indexer example_loaded = candidate_plan"
  by (simp add: candidate_indexer_def run_indexer_def plan_summary_prepare candidate_identities Let_def bm_map_def
      candidate_texts candidate_plan_def)

definition candidate_facts :: repository_facts where
  "candidate_facts =
     \<lparr>rf_state = example_state_r, rf_analysis_identity = ''1:x1:1'', rf_incomplete = False, rf_diagnostics = [], rf_entities = [],
      rf_grpc_bindings = [], rf_observations = []\<rparr>"

definition candidate_analysis :: workspace_analysis where
  "candidate_analysis =
     \<lparr>wa_analysis_identity = ap_analysis_identity candidate_plan, wa_repositories = [\<lparr>ay_facts = candidate_facts, ay_cache = CacheMiss\<rparr>],
      wa_overrides = [], wa_semantic_candidates = [example_candidate], wa_diagnostics = [], wa_repository_dependencies = [],
      wa_cache = \<lparr>ca_memory_hits = 0, ca_disk_hits = 0, ca_misses = 0\<rparr>, wa_fact_shards = []\<rparr>"

lemma lookup_empty: "lookup_repository io repository fp aid empty_cache = (empty_cache, None)"
  by (simp add: lookup_repository_def empty_cache_def read_analysis_def)

lemma store_empty: "snd (store_repository io repository fp aid analysis empty_cache) = (analysis, CacheMiss)"
  by (simp add: store_repository_def empty_cache_def Let_def)

lemma cache_plan_none: "cache_plan [] plan = plan"
proof -
  have "fold (cache_contribution []) ks p = p" for ks and p :: analyzer_plan
    by (induction ks) (simp_all add: cache_contribution_def)
  then show ?thesis by (simp add: cache_plan_def)
qed

lemma candidate_analyze: "ix_analyze candidate_indexer example_loaded plan = Inr candidate_analysis"
proof -
  define prepared where "prepared =
      \<lparr>wl_analyzers = [ax_prepare (example_analyzer (\<lambda>_ _. [example_candidate])) example_loaded],
       wl_analysis_identity = ap_analysis_identity candidate_plan, wl_repository_identities = [(''r'', ''1:x1:1'')],
       wl_repository_fingerprints = repository_fingerprints example_loaded, wl_cached_repositories = []\<rparr>"
  have one: "wn_repositories example_loaded = [example_snapshot_r]" "repository_of example_snapshot_r = ''r''"
    "rp_state example_snapshot_r = example_state_r" "rs_identity example_state_r = ''r''"
    by (simp_all add: example_loaded_def example_snapshot_r_def example_state_r_def)
  have prepare: "prepare example_io candidate_core example_loaded empty_cache = (empty_cache, prepared)"
    using candidate_identities
    by (simp add: prepare_def Let_def lookup_empty candidate_texts candidate_plan_def example_core_def bm_of_list_def
        cache_plan_none one prepared_def)
  have valid: "validate_plan prepared example_loaded = Inr ()"
    by (rule validate_prepared [OF _ prepare]) (simp add: one)
  define a where "a = no_analysis\<lparr>cr_semantic_candidates := [example_candidate], cr_analyzers := [(''x'', no_analyzer_analysis)]\<rparr>"
  have fields_a: "cr_incomplete a = False" "cr_entities a = []" "cr_grpc_bindings a = []" "cr_observations a = []"
    "cr_semantic_candidates a = [example_candidate]" "cr_diagnostics a = []" "shards_of_analysis a = []"
    by (simp_all add: a_def no_analysis_def no_analyzer_analysis_def shards_of_analysis_def)
  have merged: "merge_repository_analysis ''x'' (example_contribution [example_candidate] example_snapshot_r) no_analysis = a"
    by (simp add: a_def merge_repository_analysis_def Let_def without_sharded_def example_contribution_def no_analysis_def
        merge_analyzer_def no_analyzer_analysis_def bm_entry_def)
  have run: "run_analyzer example_loaded (example_analyzer (\<lambda>_ _. [example_candidate]),
        ax_prepare (example_analyzer (\<lambda>_ _. [example_candidate])) example_loaded) (initial_merge example_loaded prepared) = Inr
      \<lparr>ma_repositories = [(''r'', a)],
       ma_overrides = [], ma_graphql_resolvers = [], ma_diagnostics = [], ma_cache = \<lparr>ca_memory_hits = 0, ca_disk_hits = 0, ca_misses = 0\<rparr>\<rparr>"
    using merged unfolding example_contribution_def
    by (simp add: run_analyzer_def example_analyzer_def default_prepare_def plan_without_plugins_def initial_merge_def prepared_def
        one bm_of_list_def merge_contribution_def add_cache_statistics_def example_contribution_def)
  obtain c where stored: "store_repository example_io ''r'' (rs_fingerprint example_state_r) ''1:x1:1'' a empty_cache = (c, a, CacheMiss)"
    using store_empty by (metis prod.collapse)
  have core: "in_analyzers candidate_core = [example_analyzer (\<lambda>_ _. [example_candidate])]" by (simp add: example_core_def)
  have fields: "wl_analyzers prepared = [ax_prepare (example_analyzer (\<lambda>_ _. [example_candidate])) example_loaded]"
    "wl_analysis_identity prepared = ap_analysis_identity candidate_plan" "wl_repository_identities prepared = [(''r'', ''1:x1:1'')]"
    "wl_cached_repositories prepared = []"
    by (simp_all add: prepared_def)
  have none: "repository_dependencies [example_analyzer (\<lambda>_ _. [example_candidate])] example_loaded = Inr []"
    by (simp add: repository_dependencies_def example_analyzer_def sort_dedup_by_def)
  have "\<exists>f. finish_repository example_io prepared example_snapshot_r
      [(''r'', a)] empty_cache = (c, Inr f)
      \<and> fr_repository f = \<lparr>ay_facts = candidate_facts, ay_cache = CacheMiss\<rparr> \<and> fr_diagnostics f = []
      \<and> fr_semantic_candidates f = [example_candidate] \<and> fr_fact_shards f = []"
    by (simp add: finish_repository_def one fields stored facts_of_analysis_def fields_a candidate_facts_def)
  then have "snd (analyze_prepared example_io candidate_core example_loaded prepared empty_cache) = Inr candidate_analysis"
    by (auto simp: analyze_prepared_def valid core fields none run one bind_graphql_resolvers_def candidate_analysis_def)
  then show ?thesis by (simp add: candidate_indexer_def run_indexer_def prepare)
qed

definition candidate_publication :: "string + publication" where
  "candidate_publication =
     rbind (view_new_scoped ''w'' (ap_analysis_identity candidate_plan) [example_state_r] (ap_repository_enrichment_identities candidate_plan))
       (publication_of candidate_indexer example_loaded candidate_analysis (workspace_facts candidate_analysis) ''0'')"

lemma candidate_publication_candidates:
  "map_option pb_candidates (case candidate_publication of Inl _ \<Rightarrow> None | Inr p \<Rightarrow> Some p) = Some [example_candidate]"
  by code_simp


end
