(* ===== verification/Enrichment_Run.thy ===== *)
theory Enrichment_Run imports Published_Analysis begin

text \<open>
  Enrichment, \<open>crates/daemon/src/indexing/enrichment.rs\<close> and \<open>enrichment_publication.rs\<close>: which jobs there
  are to do, and one job from the look at the registry to the publication. An enrichment runs beside
  indexing and holds no lock meanwhile: before each question to the semantic store the store may have
  changed (\<open>ng_interfere\<close>), and the second loading sees files and answers of the enrichers of its own
  (\<open>phase\<close>). The store is the parameter \<open>enrichment_port\<close>; \<open>eg_requests\<close> records what it was asked to
  publish. Logging is left out.
\<close>

section \<open>What a run works with\<close>

record publish_target =
  pt_view :: string
  pt_repository :: string
  pt_analyzer :: string
  pt_version :: string

record publish_payload =
  py_entities :: "entity_fact list"
  py_observations :: "observation list"
  py_overrides :: "dependency_override list"
  py_diagnostics :: "(string \<times> analysis_diagnostic) list"
  py_diagnostic_replacements :: "(string \<times> string) list"
  py_fact_shards :: "fact_shard list"

definition empty_payload :: publish_payload where
  "empty_payload =
     \<lparr>py_entities = [], py_observations = [], py_overrides = [], py_diagnostics = [],
      py_diagnostic_replacements = [], py_fact_shards = []\<rparr>"

record publish_request =
  pq_target :: publish_target
  pq_input_fingerprint :: string
  pq_contribution :: publish_payload

datatype publish_outcome = OutcomePublished | OutcomeUnchanged | OutcomeSuperseded

record enrichment_state =
  sn_contexts :: "string list"
  sn_baseline :: semantic_snapshot
  sn_revision_inputs :: "(string, string) bmap"

record 'st enrichment_port =
  np_matches :: "publish_target \<Rightarrow> 'st \<Rightarrow> string + bool"
  np_input_fingerprint :: "string \<Rightarrow> string \<Rightarrow> string \<Rightarrow> 'st \<Rightarrow> string + string option"
  np_contexts :: "string \<Rightarrow> string \<Rightarrow> string \<Rightarrow> 'st \<Rightarrow> string + string list"
  np_baseline :: "string \<Rightarrow> string \<Rightarrow> entity_kind list \<Rightarrow> semantic_relation list \<Rightarrow> 'st
      \<Rightarrow> string + entity_fact list \<times> observation list \<times> semantic_candidate list"
  np_revision_inputs :: "string \<Rightarrow> 'st \<Rightarrow> string + (string, string) bmap"
  np_publish :: "publish_request \<Rightarrow> 'st \<Rightarrow> 'st \<times> (string + publish_outcome)"

record 'st enrichment_environment =
  ng_files :: "phase \<Rightarrow> file_system"
  ng_catalog :: input_catalog
  ng_indexer :: "phase \<Rightarrow> analysis_indexer"
  ng_cache_io :: cache_io
  ng_interfere :: "nat \<Rightarrow> 'st \<Rightarrow> 'st"

record 'st enriching =
  eg_inventory :: inventory_store
  eg_cache :: analysis_cache
  eg_store :: 'st
  eg_requests :: "publish_request list"

type_synonym ('st, 'r, 'a) enriching_step = "('st enriching, string + 'r, 'a) activity"

definition consult :: "'st enrichment_environment \<Rightarrow> nat \<Rightarrow> ('st \<Rightarrow> string + 'a) \<Rightarrow> ('st, 'r, 'a) enriching_step" where
  "consult env k question r =
     (let st = ng_interfere env k (eg_store r) in attempt (question st) (r\<lparr>eg_store := st\<rparr>))"

definition load_snapshot :: "'st enrichment_environment \<Rightarrow> phase \<Rightarrow> workspace \<Rightarrow> ('st, 'r, workspace_snapshot) enriching_step" where
  "load_snapshot env phase ws r =
     (case refresh_workspace_snapshot (ng_files env phase) (ng_catalog env) ws None (eg_inventory r) of
        (inventory, Inl e) \<Rightarrow> (r\<lparr>eg_inventory := inventory\<rparr>, Finish (Inl (display_error e)))
      | (inventory, Inr (snapshot, _)) \<Rightarrow> (r\<lparr>eg_inventory := inventory\<rparr>, Proceed snapshot))"

definition find_repository :: "workspace_snapshot \<Rightarrow> string \<Rightarrow> repository_snapshot option" where
  "find_repository snapshot identity = List.find (\<lambda>r. repository_of r = identity) (wn_repositories snapshot)"

text \<open>The registry is read under its lock, which may be poisoned (\<open>None\<close>).\<close>

definition registry_of :: "workspace_registry option \<Rightarrow> string + workspace_registry" where
  "registry_of registry = ok_or registry ''workspace registry lock poisoned''"

definition registered_workspace :: "workspace_registry \<Rightarrow> string \<Rightarrow> string + workspace" where
  "registered_workspace registry name =
     ok_or (map_of (wg_workspaces registry) name) (''workspace is no longer registered: '' @ name)"

definition registered_selection :: "workspace_registry \<Rightarrow> string \<Rightarrow> string + workspace_repository" where
  "registered_selection registry repository =
     map_sum (\<lambda>e. e) rr_selection
       (ok_or (map_of (wg_repositories registry) repository) (''repository is no longer registered: '' @ repository))"

definition standalone_workspace :: "string \<Rightarrow> workspace_repository \<Rightarrow> string bset \<Rightarrow> string + workspace" where
  "standalone_workspace repository selection workers =
     rbind (workspace_new (standalone_view_name repository) [selection]) (\<lambda>ws. with_enabled_plugins ws workers)"

section \<open>Which jobs there are to do\<close>

record manual_enrichment_target =
  mt_target :: enrichment_target
  mt_worker :: analyzer_metadata
  mt_input_fingerprint :: "string option"
  mt_current :: bool

definition worker_catalog :: "analysis_indexer \<Rightarrow> (string, analyzer_metadata) bmap" where
  "worker_catalog ix = bm_of_list (map (\<lambda>w. (am_id w, w)) (enrichment_catalog ix))"

definition selected_workers :: "analysis_indexer \<Rightarrow> string bset \<Rightarrow> string + analyzer_metadata list" where
  "selected_workers ix requested =
     (case List.find (\<lambda>w. map_of (worker_catalog ix) w = None) requested of
        Some unknown \<Rightarrow> Inl (''unknown enrichment worker '' @ unknown)
      | None \<Rightarrow> Inr (if requested = [] then map snd (worker_catalog ix)
                   else List.map_filter (map_of (worker_catalog ix)) requested))"

text \<open>The workspaces to enrich a repository in; the flag says that it is indexed on its own.\<close>

definition manual_workspaces ::
    "workspace_registry \<Rightarrow> string \<Rightarrow> string option \<Rightarrow> string bset \<Rightarrow> string + (workspace \<times> bool) list" where
  "manual_workspaces registry repository scope workers =
     rbind (registered_selection registry repository) (\<lambda>selection.
     rbind (case scope of
              Some name \<Rightarrow> rbind (registered_workspace registry name) (\<lambda>ws.
                if \<not> has_repository repository ws then Inl (''repository '' @ repository @ '' is not in workspace '' @ name)
                else Inr [(ws, False)])
            | None \<Rightarrow> Inr (map (\<lambda>ws. (ws, False)) (workspaces_referencing_repository repository registry)))
       (\<lambda>targets.
         if targets = [] then map_sum (\<lambda>e. e) (\<lambda>ws. [(ws, True)]) (standalone_workspace repository selection workers)
         else Inr targets))"

definition manual_target ::
    "'st enrichment_environment \<Rightarrow> 'st enrichment_port \<Rightarrow> nat \<Rightarrow> string \<Rightarrow> string \<Rightarrow> bool \<Rightarrow> analyzer_metadata
     \<Rightarrow> ('st, 'r, manual_enrichment_target) enriching_step" where
  "manual_target env port k workspace repository standalone worker =
     andthen (consult env k (np_input_fingerprint port workspace repository (am_id worker))) (\<lambda>fingerprint.
     andthen (if fingerprint \<noteq> None
              then consult env (k + 1) (np_matches port
                     \<lparr>pt_view = workspace, pt_repository = repository, pt_analyzer = am_id worker, pt_version = am_version worker\<rparr>)
              else (\<lambda>r. (r, Proceed False))) (\<lambda>current r.
       (r, Proceed \<lparr>mt_target = (if standalone then EtStandaloneRepository repository else EtWorkspaceRepository workspace repository),
                    mt_worker = worker, mt_input_fingerprint = fingerprint, mt_current = current\<rparr>)))"

fun manual_targets ::
    "'st enrichment_environment \<Rightarrow> 'st enrichment_port \<Rightarrow> nat \<Rightarrow> workspace \<Rightarrow> string \<Rightarrow> bool \<Rightarrow> repository_snapshot
     \<Rightarrow> analyzer_metadata list \<Rightarrow> ('st, 'r, manual_enrichment_target list) enriching_step" where
  "manual_targets env port k ws repository standalone snapshot [] = (\<lambda>r. (r, Proceed []))"
| "manual_targets env port k ws repository standalone snapshot (worker # workers) =
     (if \<not> enricher_is_active (ng_indexer env Loading) (am_id worker) (ws_enabled_plugins ws) snapshot
      then manual_targets env port k ws repository standalone snapshot workers
      else andthen (manual_target env port k (ws_name ws) repository standalone worker) (\<lambda>target.
           andthen (manual_targets env port (k + 2) ws repository standalone snapshot workers) (\<lambda>targets r.
             (r, Proceed (target # targets)))))"

fun plan_workspaces ::
    "'st enrichment_environment \<Rightarrow> 'st enrichment_port \<Rightarrow> nat \<Rightarrow> string \<Rightarrow> analyzer_metadata list
     \<Rightarrow> (workspace \<times> bool) list \<Rightarrow> ('st, 'r, manual_enrichment_target list) enriching_step" where
  "plan_workspaces env port k repository workers [] = (\<lambda>r. (r, Proceed []))"
| "plan_workspaces env port k repository workers ((ws, standalone) # workspaces) =
     andthen (load_snapshot env Loading ws) (\<lambda>snapshot.
     andthen (attempt (ok_or (find_repository snapshot repository)
                (''repository is no longer in workspace '' @ ws_name ws @ '': '' @ repository))) (\<lambda>target.
     andthen (manual_targets env port k ws repository standalone target workers) (\<lambda>planned.
     andthen (plan_workspaces env port (k + 2 * length workers) repository workers workspaces) (\<lambda>rest r.
       (r, Proceed (planned @ rest))))))"

definition manual_enrichment_targets ::
    "'st enrichment_environment \<Rightarrow> 'st enrichment_port \<Rightarrow> workspace_registry option \<Rightarrow> string \<Rightarrow> string option \<Rightarrow> string bset
     \<Rightarrow> 'st enriching \<Rightarrow> 'st enriching \<times> (string + manual_enrichment_target list)" where
  "manual_enrichment_targets env port registry repository scope requested r =
     conclude (
       andthen (attempt (selected_workers (ng_indexer env Loading) requested)) (\<lambda>workers.
       andthen (attempt (rbind (registry_of registry) (\<lambda>registry.
                  manual_workspaces registry repository scope (bs_of_list (map am_id workers))))) (\<lambda>workspaces.
         plan_workspaces env port 0 repository workers workspaces)) r)"

definition plan_automatic_job ::
    "'st enrichment_environment \<Rightarrow> 'st enrichment_port \<Rightarrow> nat \<Rightarrow> string \<Rightarrow> index_job_id \<Rightarrow> string \<times> analyzer_metadata
     \<Rightarrow> ('st, 'r, enrichment_job option) enriching_step" where
  "plan_automatic_job env port k workspace prerequisite = (\<lambda>(repository, worker).
     andthen (consult env k (np_matches port
                \<lparr>pt_view = workspace, pt_repository = repository, pt_analyzer = am_id worker, pt_version = am_version worker\<rparr>)) (\<lambda>current.
       if current then (\<lambda>r. (r, Proceed None))
       else andthen (consult env (k + 1) (np_input_fingerprint port workspace repository (am_id worker))) (\<lambda>fingerprint.
            andthen (attempt (ok_or fingerprint (''published '' @ workspace @ ''/'' @ repository
                       @ '' enrichment input fingerprint is missing for '' @ am_id worker))) (\<lambda>fingerprint r.
              (r, Proceed (Some
                 \<lparr>ej_target = EtWorkspaceRepository workspace repository, ej_worker_id = am_id worker,
                  ej_expected_worker_version = am_version worker, ej_trigger = Automatic,
                  ej_prerequisite_index_jobs = [prerequisite], ej_input_fingerprint = Some fingerprint\<rparr>))))))"

fun automatic_jobs_for ::
    "'st enrichment_environment \<Rightarrow> 'st enrichment_port \<Rightarrow> nat \<Rightarrow> string \<Rightarrow> index_job_id \<Rightarrow> (string \<times> analyzer_metadata) list
     \<Rightarrow> ('st, 'r, enrichment_job list) enriching_step" where
  "automatic_jobs_for env port k workspace prerequisite [] = (\<lambda>r. (r, Proceed []))"
| "automatic_jobs_for env port k workspace prerequisite (pair # pairs) =
     andthen (plan_automatic_job env port k workspace prerequisite pair) (\<lambda>job.
     andthen (automatic_jobs_for env port (k + 2) workspace prerequisite pairs) (\<lambda>jobs r.
       (r, Proceed (case job of None \<Rightarrow> jobs | Some job \<Rightarrow> job # jobs))))"

text \<open>Small repositories come first.\<close>

definition enrichment_pairs :: "analysis_indexer \<Rightarrow> workspace_snapshot \<Rightarrow> (string \<times> analyzer_metadata) list" where
  "enrichment_pairs ix snapshot =
     concat (map (\<lambda>r. map (Pair (repository_of r)) (enrichment_catalog ix))
       (sort_key (length \<circ> rp_inputs) (wn_repositories snapshot)))"

definition automatic_enrichment_jobs ::
    "'st enrichment_environment \<Rightarrow> 'st enrichment_port \<Rightarrow> workspace_registry option \<Rightarrow> string \<Rightarrow> index_job_id
     \<Rightarrow> 'st enriching \<Rightarrow> 'st enriching \<times> (string + enrichment_job list)" where
  "automatic_enrichment_jobs env port registry workspace prerequisite r =
     conclude (
       andthen (attempt (rbind (registry_of registry) (\<lambda>registry. registered_workspace registry workspace))) (\<lambda>ws.
       andthen (load_snapshot env Loading ws) (\<lambda>snapshot.
         automatic_jobs_for env port 0 workspace prerequisite (enrichment_pairs (ng_indexer env Loading) snapshot))) r)"

section \<open>Keeping inside the target\<close>

definition entity_belongs_to_target :: "string \<Rightarrow> entity_id \<Rightarrow> bool" where
  "entity_belongs_to_target target entity \<longleftrightarrow> starts_with entity (''repo://'' @ target @ ''/'')"

definition entity_escapes_target :: "string \<Rightarrow> entity_id \<Rightarrow> bool" where
  "entity_escapes_target target entity \<longleftrightarrow> starts_with entity ''repo://'' \<and> \<not> entity_belongs_to_target target entity"

definition shard_escapes_target :: "string \<Rightarrow> string \<Rightarrow> fact_shard \<Rightarrow> bool" where
  "shard_escapes_target analyzer target s \<longleftrightarrow>
     fs_repository s \<noteq> target \<or> fs_producer s \<noteq> analyzer
     \<or> \<not> entity_belongs_to_target target (fs_owner s)
     \<or> list_ex (\<lambda>e. entity_escapes_target target (ef_id e)) (fs_entities s)
     \<or> list_ex (\<lambda>ob. entity_escapes_target target (ob_from ob)) (fs_observations s)"

definition repository_escapes_target :: "string \<Rightarrow> string \<Rightarrow> repository_contribution \<Rightarrow> bool" where
  "repository_escapes_target analyzer target c \<longleftrightarrow>
     rc_repository c \<noteq> target
     \<or> list_ex (\<lambda>e. entity_escapes_target target (ef_id e)) (rc_entities c)
     \<or> list_ex (\<lambda>b. \<not> entity_belongs_to_target target (gb_local_symbol b)) (rc_grpc_bindings c)
     \<or> list_ex (\<lambda>ob. entity_escapes_target target (ob_from ob)) (rc_observations c)
     \<or> list_ex (shard_escapes_target analyzer target) (rc_fact_shards c)"

definition contribution_escapes_target :: "string \<Rightarrow> analyzer_contribution \<Rightarrow> bool" where
  "contribution_escapes_target target c \<longleftrightarrow>
     list_ex (repository_escapes_target (am_id (ab_metadata c)) target) (ab_repositories c)
     \<or> list_ex (\<lambda>repository. repository \<noteq> target) (ab_active_repositories c)
     \<or> list_ex (\<lambda>(repository, _). repository \<noteq> target) (ab_diagnostics c)
     \<or> list_ex (\<lambda>r. gr_repository r \<noteq> target \<or> \<not> entity_belongs_to_target target (gr_resolver r)) (ab_graphql_resolvers c)
     \<or> list_ex (\<lambda>ov. \<not> entity_belongs_to_target target (do_from ov)) (ab_overrides c)"

definition payload_of :: "analyzer_contribution \<Rightarrow> publish_payload" where
  "payload_of c =
     \<lparr>py_entities = concat (map rc_entities (ab_repositories c)),
      py_observations = concat (map rc_observations (ab_repositories c)),
      py_overrides = ab_overrides c,
      py_diagnostics = ab_diagnostics c
        @ concat (map (\<lambda>rc. map (Pair (rc_repository rc)) (rc_diagnostics rc)) (ab_repositories c)),
      py_diagnostic_replacements =
        concat (map (\<lambda>rc. map (Pair (rc_repository rc)) (rc_replaced_diagnostic_codes rc)) (ab_repositories c)),
      py_fact_shards = concat (map rc_fact_shards (ab_repositories c))\<rparr>"

text \<open>What the worker returned is accepted from the scheduled analyzer only, and only about the target.\<close>

definition accept_contribution :: "analyzer_metadata \<Rightarrow> string \<Rightarrow> analyzer_contribution \<Rightarrow> string + publish_payload" where
  "accept_contribution worker repository c =
     (if ab_metadata c \<noteq> worker then Inl ''worker contribution metadata does not match the scheduled analyzer''
      else if contribution_escapes_target repository c then Inl ''worker contribution escaped its target repository''
      else Inr (payload_of c))"

section \<open>One job\<close>

definition enrichment_workspace :: "analysis_indexer \<Rightarrow> enrichment_target \<Rightarrow> workspace_registry \<Rightarrow> string + workspace \<times> string" where
  "enrichment_workspace ix target registry =
     (case target of
        EtWorkspaceRepository workspace repository \<Rightarrow>
          map_sum (\<lambda>e. e) (\<lambda>ws. (ws, repository)) (registered_workspace registry workspace)
      | EtStandaloneRepository repository \<Rightarrow>
          rbind (registered_selection registry repository) (\<lambda>selection.
            map_sum (\<lambda>e. e) (\<lambda>ws. (ws, repository))
              (standalone_workspace repository selection (bs_of_list (map am_id (enrichment_catalog ix))))))"

definition expected_worker :: "analysis_indexer \<Rightarrow> enrichment_job \<Rightarrow> analyzer_metadata option" where
  "expected_worker ix job =
     (case List.find (\<lambda>w. am_id w = ej_worker_id job) (enrichment_catalog ix) of
        None \<Rightarrow> None
      | Some w \<Rightarrow> if am_version w = ej_expected_worker_version job then Some w else None)"

definition job_fingerprint ::
    "'st enrichment_environment \<Rightarrow> 'st enrichment_port \<Rightarrow> publish_target \<Rightarrow> enrichment_job \<Rightarrow> ('st, 'r, string) enriching_step" where
  "job_fingerprint env port target job =
     (case ej_input_fingerprint job of
        Some fingerprint \<Rightarrow> (\<lambda>r. (r, Proceed fingerprint))
      | None \<Rightarrow>
          andthen (consult env 0 (np_input_fingerprint port (pt_view target) (pt_repository target) (pt_analyzer target))) (\<lambda>fingerprint.
            attempt (ok_or fingerprint (''no successful baseline exists for repository ''
              @ pt_repository target @ '' in '' @ pt_view target))))"

fun context_baselines ::
    "'st enrichment_environment \<Rightarrow> 'st enrichment_port \<Rightarrow> nat \<Rightarrow> string \<Rightarrow> entity_kind list \<times> semantic_relation list \<Rightarrow> string list
     \<Rightarrow> ('st, 'r, (entity_fact list \<times> observation list) list) enriching_step" where
  "context_baselines env port k view inputs [] = (\<lambda>r. (r, Proceed []))"
| "context_baselines env port k view inputs (context_repository # contexts) =
     andthen (consult env k (np_baseline port view context_repository (fst inputs) (snd inputs))) (\<lambda>(entities, observations, _).
     andthen (context_baselines env port (k + 1) view inputs contexts) (\<lambda>rest r.
       (r, Proceed ((entities, observations) # rest))))"

text \<open>The baseline of the target and of its contexts, one fact per entity, the last one read.\<close>

definition merged_baseline ::
    "entity_fact list \<times> observation list \<times> semantic_candidate list \<Rightarrow> (entity_fact list \<times> observation list) list \<Rightarrow> semantic_snapshot" where
  "merged_baseline target contexts = (case target of (entities, observations, candidates) \<Rightarrow>
     \<lparr>sm_entities = map snd (bm_of_list (map (\<lambda>e. (ef_id e, e)) (entities @ concat (map fst contexts)))),
      sm_observations = observations @ concat (map snd contexts),
      sm_candidates = candidates\<rparr>)"

definition store_snapshot ::
    "'st enrichment_environment \<Rightarrow> 'st enrichment_port \<Rightarrow> publish_target \<Rightarrow> string \<Rightarrow> entity_kind list \<times> semantic_relation list
     \<Rightarrow> ('st, 'r, enrichment_state option) enriching_step" where
  "store_snapshot env port target fingerprint inputs =
     andthen (consult env 1 (np_input_fingerprint port (pt_view target) (pt_repository target) (pt_analyzer target))) (\<lambda>found.
       if found \<noteq> Some fingerprint then (\<lambda>r. (r, Proceed None))
       else andthen (consult env 2 (np_contexts port (pt_view target) (pt_repository target) (pt_analyzer target))) (\<lambda>contexts.
            andthen (consult env 3 (np_baseline port (pt_view target) (pt_repository target) (fst inputs) (snd inputs))) (\<lambda>baseline.
            andthen (context_baselines env port 7 (pt_view target) inputs contexts) (\<lambda>rest.
            andthen (consult env 4 (np_revision_inputs port (pt_view target))) (\<lambda>revision r.
              (r, Proceed (Some \<lparr>sn_contexts = contexts, sn_baseline = merged_baseline baseline rest, sn_revision_inputs = revision\<rparr>)))))))"

definition input_matches :: "workspace_view \<Rightarrow> (string, string) bmap \<Rightarrow> string \<Rightarrow> bool" where
  "input_matches view expected identity \<longleftrightarrow>
     (case (List.find (\<lambda>s. rs_identity s = identity) (wv_repository_states view), map_of expected identity) of
        (Some state, Some fingerprint) \<Rightarrow> repository_input_fingerprint view state = Some fingerprint
      | _ \<Rightarrow> False)"

definition revision_view :: "workspace_plan \<Rightarrow> workspace_snapshot \<Rightarrow> string \<Rightarrow> string + workspace_view" where
  "revision_view plan snapshot workspace =
     view_new_scoped workspace (wl_analysis_identity plan) (map rp_state (wn_repositories snapshot))
       (repository_enrichment_identities plan)"

definition current_revision_inputs_match ::
    "'st enrichment_environment \<Rightarrow> phase \<Rightarrow> workspace_snapshot \<Rightarrow> string \<Rightarrow> string list \<Rightarrow> (string, string) bmap
     \<Rightarrow> ('st, 'r, bool) enriching_step" where
  "current_revision_inputs_match env phase snapshot workspace repositories expected r =
     (case prepare (ng_cache_io env) (ng_indexer env phase) snapshot (eg_cache r) of
        (cache, plan) \<Rightarrow>
          attempt (map_sum (\<lambda>e. e) (\<lambda>view. list_all (input_matches view expected) repositories)
            (revision_view plan snapshot workspace)) (r\<lparr>eg_cache := cache\<rparr>))"

definition enrichment_input :: "workspace_snapshot \<Rightarrow> string \<Rightarrow> repository_snapshot \<Rightarrow> enrichment_state \<Rightarrow> enrichment_snapshot" where
  "enrichment_input snapshot repository target state =
     \<lparr>es_target_repository = repository,
      es_workspace = \<lparr>wn_name = wn_name snapshot,
        wn_repositories = target # List.map_filter (find_repository snapshot) (sn_contexts state)\<rparr>,
      es_baseline = sn_baseline state\<rparr>"

fun outcome_of :: "publish_outcome \<Rightarrow> enrichment_outcome" where
  "outcome_of OutcomePublished = EoPublished"
| "outcome_of OutcomeUnchanged = EoUnchanged"
| "outcome_of OutcomeSuperseded = EoSuperseded"

definition publish_enrichment ::
    "'st enrichment_environment \<Rightarrow> 'st enrichment_port \<Rightarrow> publish_request \<Rightarrow> ('st, enrichment_outcome, enrichment_outcome) enriching_step" where
  "publish_enrichment env port request r =
     (case np_publish port request (ng_interfere env 6 (eg_store r)) of
        (st, result) \<Rightarrow>
          attempt (map_sum (\<lambda>e. e) outcome_of result) (r\<lparr>eg_store := st, eg_requests := eg_requests r @ [request]\<rparr>))"

abbreviation superseded :: "('st, enrichment_outcome, 'a) enriching_step" where
  "superseded \<equiv> answer_with (Inr EoSuperseded)"

text \<open>The worker has answered: accept, look whether it is still the analyzer, read the inputs again, publish.\<close>

definition finish_enrichment ::
    "'st enrichment_environment \<Rightarrow> 'st enrichment_port \<Rightarrow> workspace \<Rightarrow> publish_target \<Rightarrow> string \<Rightarrow> enrichment_state \<Rightarrow> analyzer_contribution
     \<Rightarrow> ('st, enrichment_outcome, enrichment_outcome) enriching_step" where
  "finish_enrichment env port ws target fingerprint state contribution =
     (let worker = \<lparr>am_id = pt_analyzer target, am_version = pt_version target\<rparr> in
      andthen (attempt (accept_contribution worker (pt_repository target) contribution)) (\<lambda>payload.
        if List.find (\<lambda>w. am_id w = pt_analyzer target) (enrichment_catalog (ng_indexer env Verifying)) \<noteq> Some worker then superseded
        else andthen (load_snapshot env Verifying ws) (\<lambda>current.
             andthen (current_revision_inputs_match env Verifying current (ws_name ws)
                        (pt_repository target # sn_contexts state) (sn_revision_inputs state)) (\<lambda>matching.
               if \<not> matching then superseded
               else publish_enrichment env port \<lparr>pq_target = target, pq_input_fingerprint = fingerprint, pq_contribution = payload\<rparr>))))"

definition enrich_target ::
    "'st enrichment_environment \<Rightarrow> 'st enrichment_port \<Rightarrow> workspace \<Rightarrow> workspace_snapshot \<Rightarrow> repository_snapshot \<Rightarrow> publish_target
     \<Rightarrow> string \<Rightarrow> enrichment_state \<Rightarrow> ('st, enrichment_outcome, enrichment_outcome) enriching_step" where
  "enrich_target env port ws snapshot target_snapshot target fingerprint state =
     andthen (current_revision_inputs_match env Loading snapshot (ws_name ws)
                (pt_repository target # sn_contexts state) (sn_revision_inputs state)) (\<lambda>matching.
       if \<not> matching then superseded
       else andthen (consult env 5 (np_matches port target)) (\<lambda>current.
         if current then answer_with (Inr EoAlreadyCurrent)
         else if \<not> enricher_is_active (ng_indexer env Loading) (pt_analyzer target) (ws_enabled_plugins ws) target_snapshot
         then publish_enrichment env port \<lparr>pq_target = target, pq_input_fingerprint = fingerprint, pq_contribution = empty_payload\<rparr>
         else andthen (attempt (enrich (ng_indexer env Loading) (enrichment_input snapshot (pt_repository target) target_snapshot state)
                          (pt_analyzer target))) (\<lambda>contribution.
              finish_enrichment env port ws target fingerprint state contribution)))"

definition enrichment_steps ::
    "'st enrichment_environment \<Rightarrow> 'st enrichment_port \<Rightarrow> workspace_registry option \<Rightarrow> enrichment_job
     \<Rightarrow> ('st, enrichment_outcome, enrichment_outcome) enriching_step" where
  "enrichment_steps env port registry job =
     andthen (attempt (rbind (registry_of registry) (enrichment_workspace (ng_indexer env Loading) (ej_target job)))) (\<lambda>(ws, repository).
     andthen (load_snapshot env Loading ws) (\<lambda>snapshot.
       case expected_worker (ng_indexer env Loading) job of
         None \<Rightarrow> superseded
       | Some worker \<Rightarrow>
           andthen (attempt (ok_or (find_repository snapshot repository)
                      (''repository is no longer in workspace '' @ ws_name ws @ '': '' @ repository))) (\<lambda>target_snapshot.
           let target = \<lparr>pt_view = ws_name ws, pt_repository = repository, pt_analyzer = am_id worker, pt_version = am_version worker\<rparr> in
           andthen (job_fingerprint env port target job) (\<lambda>fingerprint.
           andthen (store_snapshot env port target fingerprint (enrichment_semantic_inputs (ng_indexer env Loading) (am_id worker))) (\<lambda>found.
             case found of
               None \<Rightarrow> superseded
             | Some state \<Rightarrow> enrich_target env port ws snapshot target_snapshot target fingerprint state)))))"

definition run_enrichment_job ::
    "'st enrichment_environment \<Rightarrow> 'st enrichment_port \<Rightarrow> workspace_registry option \<Rightarrow> enrichment_job
     \<Rightarrow> 'st enriching \<Rightarrow> 'st enriching \<times> (string + enrichment_outcome)" where
  "run_enrichment_job env port registry job r = conclude (enrichment_steps env port registry job r)"

section \<open>Steps\<close>

lemma wp_consult [steps]:
  assumes "\<And>e. Q (r\<lparr>eg_store := ng_interfere env k (eg_store r)\<rparr>) (Finish (Inl e))"
    and "\<And>a. question (ng_interfere env k (eg_store r)) = Inr a \<Longrightarrow> wp (next a) Q (r\<lparr>eg_store := ng_interfere env k (eg_store r)\<rparr>)"
  shows "wp (andthen (consult env k question) next) Q r"
  using assms by (cases "question (ng_interfere env k (eg_store r))") (simp_all add: wp_def andthen_def consult_def attempt_def Let_def)

definition loaded :: "'st enrichment_environment \<Rightarrow> phase \<Rightarrow> workspace \<Rightarrow> inventory_store \<Rightarrow> inventory_store \<Rightarrow> workspace_snapshot \<Rightarrow> bool" where
  "loaded env phase ws inventory inventory' snapshot \<longleftrightarrow>
     (\<exists>statistics. refresh_workspace_snapshot (ng_files env phase) (ng_catalog env) ws None inventory = (inventory', Inr (snapshot, statistics)))"

lemma wp_load_snapshot [steps]:
  assumes "\<And>inventory e. Q (r\<lparr>eg_inventory := inventory\<rparr>) (Finish (Inl e))"
    and "\<And>inventory snapshot. loaded env phase ws (eg_inventory r) inventory snapshot \<Longrightarrow> wp (next snapshot) Q (r\<lparr>eg_inventory := inventory\<rparr>)"
  shows "wp (andthen (load_snapshot env phase ws) next) Q r"
proof -
  obtain inventory result where "refresh_workspace_snapshot (ng_files env phase) (ng_catalog env) ws None (eg_inventory r) = (inventory, result)"
    by fastforce
  with assms show ?thesis by (cases result) (auto simp: wp_def andthen_def load_snapshot_def loaded_def)
qed

text \<open>The view the current inputs would be published as; what the caches hold does not matter.\<close>

definition current_view :: "analysis_indexer \<Rightarrow> workspace_snapshot \<Rightarrow> string \<Rightarrow> string + workspace_view" where
  "current_view ix snapshot workspace =
     (let identities = repository_identities (map (\<lambda>a. ax_prepare a snapshot) (in_analyzers ix)) snapshot in
      view_new_scoped workspace (workspace_analysis_identity identities) (map rp_state (wn_repositories snapshot))
        (bm_map enrichment_identity identities))"

lemma revision_view_prepare: "prepare io ix snapshot c = (c', plan) \<Longrightarrow> revision_view plan snapshot workspace = current_view ix snapshot workspace"
  by (auto simp: prepare_def revision_view_def current_view_def repository_enrichment_identities_def Let_def split: prod.splits)

definition inputs_current :: "analysis_indexer \<Rightarrow> workspace_snapshot \<Rightarrow> string \<Rightarrow> string list \<Rightarrow> (string, string) bmap \<Rightarrow> bool" where
  "inputs_current ix snapshot workspace repositories expected \<longleftrightarrow>
     (\<exists>view. current_view ix snapshot workspace = Inr view \<and> list_all (input_matches view expected) repositories)"

lemma wp_inputs_match [steps]:
  assumes "\<And>cache e. Q (r\<lparr>eg_cache := cache\<rparr>) (Finish (Inl e))"
    and "\<And>cache matching. matching \<longleftrightarrow> inputs_current (ng_indexer env phase) snapshot workspace repositories expected
           \<Longrightarrow> wp (next matching) Q (r\<lparr>eg_cache := cache\<rparr>)"
  shows "wp (andthen (current_revision_inputs_match env phase snapshot workspace repositories expected) next) Q r"
proof -
  obtain cache plan where "prepare (ng_cache_io env) (ng_indexer env phase) snapshot (eg_cache r) = (cache, plan)" by fastforce
  with assms revision_view_prepare [OF this] show ?thesis
    by (cases "current_view (ng_indexer env phase) snapshot workspace")
      (simp_all add: wp_def andthen_def current_revision_inputs_match_def attempt_def inputs_current_def)
qed

lemma wp_publish:
  assumes "\<And>st e. np_publish port request (ng_interfere env 6 (eg_store r)) = (st, Inl e)
      \<Longrightarrow> Q (r\<lparr>eg_store := st, eg_requests := eg_requests r @ [request]\<rparr>) (Finish (Inl e))"
    and "\<And>st out. np_publish port request (ng_interfere env 6 (eg_store r)) = (st, Inr out)
      \<Longrightarrow> Q (r\<lparr>eg_store := st, eg_requests := eg_requests r @ [request]\<rparr>) (Proceed (outcome_of out))"
  shows "wp (publish_enrichment env port request) Q r"
proof -
  obtain st result where "np_publish port request (ng_interfere env 6 (eg_store r)) = (st, result)" by fastforce
  with assms show ?thesis by (cases result) (simp_all add: wp_def publish_enrichment_def attempt_def)
qed

lemma wp_Proceed: "Q r (Proceed a) \<Longrightarrow> wp (\<lambda>r. (r, Proceed a)) Q r"
  by (simp add: wp_def)

text \<open>The baselines of the contexts only read.\<close>

definition reads_only :: "'st enriching \<Rightarrow> 'st enriching \<Rightarrow> bool" where
  "reads_only r r' \<longleftrightarrow> eg_requests r' = eg_requests r \<and> eg_inventory r' = eg_inventory r \<and> eg_cache r' = eg_cache r"

lemma ok_or_Inr_iff: "ok_or x e = Inr y \<longleftrightarrow> x = Some y"
  by (cases x) simp_all

lemma wp_concludeD:
  assumes "wp activity (\<lambda>r' s. case s of Finish answer \<Rightarrow> \<exists>e. answer = Inl e | Proceed a \<Rightarrow> Q r' a) r"
    and "conclude (activity r) = (r', Inr a)"
  shows "Q r' a"
  using assms by (cases "activity r") (auto simp: wp_def conclude_def split: step.splits)

lemma wp_triple: "(\<And>x y z. a = (x, y, z) \<Longrightarrow> wp (f x y z) Q r) \<Longrightarrow> wp (case a of (x, y, z) \<Rightarrow> f x y z) Q r"
  by (cases a) simp

lemma context_baselines_read:
  "wp (context_baselines env port k view inputs contexts)
     (\<lambda>r' s. reads_only r r' \<and> (case s of Finish answer \<Rightarrow> \<exists>e. answer = Inl e | Proceed _ \<Rightarrow> True)) r"
proof (induction contexts arbitrary: k r)
  case Nil
  then show ?case by (simp add: wp_def reads_only_def)
next
  case (Cons c contexts)
  show ?case unfolding context_baselines.simps
    by (rule wp_consult, simp add: reads_only_def, rule wp_triple, rule wp_andthenI [OF Cons.IH])
      (auto intro!: wp_Proceed simp: reads_only_def)
qed

section \<open>What a run did\<close>

text \<open>
  \<open>did port A B P requests r s\<close>: the run asked the store to publish at most once more than
  \<open>requests\<close>. If it asked, it asked for a request \<open>P\<close> and answers what the store answered; if not, it
  answers an error or, if \<open>A\<close>, that the enrichment is current already or, if \<open>B\<close>, that it was superseded.
\<close>

definition did :: "'st enrichment_port \<Rightarrow> bool \<Rightarrow> bool \<Rightarrow> (publish_request \<Rightarrow> bool) \<Rightarrow> publish_request list \<Rightarrow> 'st enriching
    \<Rightarrow> (string + enrichment_outcome, enrichment_outcome) step \<Rightarrow> bool" where
  "did port A B P requests r s \<longleftrightarrow>
     eg_requests r = requests \<and> ((\<exists>e. s = Finish (Inl e)) \<or> B \<and> s = Finish (Inr EoSuperseded) \<or> A \<and> s = Finish (Inr EoAlreadyCurrent))
     \<or> (\<exists>request st result. eg_requests r = requests @ [request] \<and> P request \<and> np_publish port request st = (eg_store r, result)
          \<and> s = (case result of Inl e \<Rightarrow> Finish (Inl e) | Inr out \<Rightarrow> Proceed (outcome_of out)))"

lemma did_mono: "did port A B P requests r s \<Longrightarrow> (A \<Longrightarrow> A') \<Longrightarrow> (B \<Longrightarrow> B') \<Longrightarrow> (\<And>request. P request \<Longrightarrow> P' request)
     \<Longrightarrow> did port A' B' P' requests r s"
  by (auto simp: did_def)

lemma did_quiet [intro]:
  "eg_requests r = requests \<Longrightarrow> did port A B P requests r (Finish (Inl e))"
  "eg_requests r = requests \<Longrightarrow> B \<Longrightarrow> did port A B P requests r (Finish (Inr EoSuperseded))"
  "eg_requests r = requests \<Longrightarrow> A \<Longrightarrow> did port A B P requests r (Finish (Inr EoAlreadyCurrent))"
  by (auto simp: did_def)

lemma publish_did:
  "eg_requests r = requests \<Longrightarrow> P request \<Longrightarrow> wp (publish_enrichment env port request) (did port A B P requests) r"
  by (rule wp_publish) (auto simp: did_def intro!: exI)

definition verified :: "'st enrichment_environment \<Rightarrow> workspace \<Rightarrow> publish_target \<Rightarrow> enrichment_state \<Rightarrow> inventory_store \<Rightarrow> bool" where
  "verified env ws target state inventory \<longleftrightarrow>
     List.find (\<lambda>w. am_id w = pt_analyzer target) (enrichment_catalog (ng_indexer env Verifying))
       = Some \<lparr>am_id = pt_analyzer target, am_version = pt_version target\<rparr>
     \<and> (\<exists>inventory' current. loaded env Verifying ws inventory inventory' current
          \<and> inputs_current (ng_indexer env Verifying) current (ws_name ws) (pt_repository target # sn_contexts state) (sn_revision_inputs state))"

definition changed_since :: "'st enrichment_environment \<Rightarrow> workspace \<Rightarrow> publish_target \<Rightarrow> enrichment_state \<Rightarrow> inventory_store \<Rightarrow> bool" where
  "changed_since env ws target state inventory \<longleftrightarrow>
     List.find (\<lambda>w. am_id w = pt_analyzer target) (enrichment_catalog (ng_indexer env Verifying))
       \<noteq> Some \<lparr>am_id = pt_analyzer target, am_version = pt_version target\<rparr>
     \<or> (\<exists>inventory' current. loaded env Verifying ws inventory inventory' current
          \<and> \<not> inputs_current (ng_indexer env Verifying) current (ws_name ws) (pt_repository target # sn_contexts state) (sn_revision_inputs state))"

lemma finish_enrichment_did:
  assumes "eg_requests r = requests"
  shows "wp (finish_enrichment env port ws target fingerprint state contribution)
    (did port False (changed_since env ws target state (eg_inventory r)) (\<lambda>request. pq_target request = target \<and> pq_input_fingerprint request = fingerprint
       \<and> accept_contribution \<lparr>am_id = pt_analyzer target, am_version = pt_version target\<rparr> (pt_repository target) contribution
           = Inr (pq_contribution request)
       \<and> verified env ws target state (eg_inventory r)) requests) r"
  unfolding finish_enrichment_def Let_def
  by (intro steps publish_did did_quiet) (auto simp: assms verified_def changed_since_def)

text \<open>The worker's contribution, or nothing when it has nothing to do in the repository.\<close>

definition produced ::
    "'st enrichment_environment \<Rightarrow> workspace \<Rightarrow> workspace_snapshot \<Rightarrow> repository_snapshot \<Rightarrow> enrichment_state \<Rightarrow> inventory_store
     \<Rightarrow> publish_request \<Rightarrow> bool" where
  "produced env ws snapshot target_snapshot state inventory request \<longleftrightarrow>
     (let target = pq_target request in
      if \<not> enricher_is_active (ng_indexer env Loading) (pt_analyzer target) (ws_enabled_plugins ws) target_snapshot
      then pq_contribution request = empty_payload
      else (\<exists>contribution.
              enrich (ng_indexer env Loading) (enrichment_input snapshot (pt_repository target) target_snapshot state) (pt_analyzer target)
                = Inr contribution
              \<and> accept_contribution \<lparr>am_id = pt_analyzer target, am_version = pt_version target\<rparr> (pt_repository target) contribution
                = Inr (pq_contribution request))
           \<and> verified env ws target state inventory)"

text \<open>What is asked of the store once the store has given its snapshot; why that may not come about.\<close>

definition asked ::
    "'st enrichment_environment \<Rightarrow> 'st enrichment_port \<Rightarrow> workspace \<Rightarrow> workspace_snapshot \<Rightarrow> repository_snapshot \<Rightarrow> publish_target
     \<Rightarrow> string \<Rightarrow> enrichment_state \<Rightarrow> inventory_store \<Rightarrow> publish_request \<Rightarrow> bool" where
  "asked env port ws snapshot target_snapshot target fingerprint state inventory request \<longleftrightarrow>
     pq_target request = target \<and> pq_input_fingerprint request = fingerprint
     \<and> inputs_current (ng_indexer env Loading) snapshot (ws_name ws) (pt_repository target # sn_contexts state) (sn_revision_inputs state)
     \<and> (\<exists>st. np_matches port target st = Inr False)
     \<and> produced env ws snapshot target_snapshot state inventory request"

definition outdated ::
    "'st enrichment_environment \<Rightarrow> workspace \<Rightarrow> workspace_snapshot \<Rightarrow> publish_target \<Rightarrow> enrichment_state \<Rightarrow> inventory_store \<Rightarrow> bool" where
  "outdated env ws snapshot target state inventory \<longleftrightarrow>
     \<not> inputs_current (ng_indexer env Loading) snapshot (ws_name ws) (pt_repository target # sn_contexts state) (sn_revision_inputs state)
     \<or> changed_since env ws target state inventory"

lemma enrich_target_did:
  assumes "eg_requests r = requests"
  shows "wp (enrich_target env port ws snapshot target_snapshot target fingerprint state)
    (did port (\<exists>st. np_matches port target st = Inr True) (outdated env ws snapshot target state (eg_inventory r))
       (asked env port ws snapshot target_snapshot target fingerprint state (eg_inventory r)) requests) r"
proof -
  have finish: "wp (finish_enrichment env port ws target fingerprint state contribution)
      (did port A (outdated env ws snapshot target state (eg_inventory r))
         (asked env port ws snapshot target_snapshot target fingerprint state (eg_inventory r)) requests)
      (r\<lparr>eg_cache := cache, eg_store := st\<rparr>)"
    if "inputs_current (ng_indexer env Loading) snapshot (ws_name ws) (pt_repository target # sn_contexts state) (sn_revision_inputs state)"
      "np_matches port target st = Inr False"
      "enricher_is_active (ng_indexer env Loading) (pt_analyzer target) (ws_enabled_plugins ws) target_snapshot"
      "enrich (ng_indexer env Loading) (enrichment_input snapshot (pt_repository target) target_snapshot state) (pt_analyzer target) = Inr contribution"
    for cache st contribution A
    by (rule wp_mono [OF finish_enrichment_did [where requests = requests]])
      (use that assms in \<open>auto elim!: did_mono simp: produced_def asked_def outdated_def\<close>)
  show ?thesis unfolding enrich_target_def
    by (intro steps publish_did did_quiet finish) (auto simp: assms produced_def asked_def outdated_def)
qed

text \<open>What the store answered when it was asked for a snapshot; each answer is from a state of the store at that look.\<close>

definition answered_by_store ::
    "'st enrichment_environment \<Rightarrow> 'st enrichment_port \<Rightarrow> publish_target \<Rightarrow> string \<Rightarrow> enrichment_state \<Rightarrow> bool" where
  "answered_by_store env port target fingerprint state \<longleftrightarrow>
     (\<exists>st. np_input_fingerprint port (pt_view target) (pt_repository target) (pt_analyzer target) (ng_interfere env 1 st) = Inr (Some fingerprint))
     \<and> (\<exists>st. np_contexts port (pt_view target) (pt_repository target) (pt_analyzer target) (ng_interfere env 2 st) = Inr (sn_contexts state))
     \<and> (\<exists>st. np_revision_inputs port (pt_view target) (ng_interfere env 4 st) = Inr (sn_revision_inputs state))"

definition store_moved :: "'st enrichment_environment \<Rightarrow> 'st enrichment_port \<Rightarrow> publish_target \<Rightarrow> string \<Rightarrow> bool" where
  "store_moved env port target fingerprint \<longleftrightarrow>
     (\<exists>st found. np_input_fingerprint port (pt_view target) (pt_repository target) (pt_analyzer target) (ng_interfere env 1 st) = Inr found
        \<and> found \<noteq> Some fingerprint)"

lemma wp_store_snapshot [steps]:
  assumes "\<And>r' e. reads_only r r' \<Longrightarrow> Q r' (Finish (Inl e))"
    and "\<And>r'. reads_only r r' \<Longrightarrow> store_moved env port target fingerprint \<Longrightarrow> wp (next None) Q r'"
    and "\<And>r' state. reads_only r r' \<Longrightarrow> answered_by_store env port target fingerprint state \<Longrightarrow> wp (next (Some state)) Q r'"
  shows "wp (andthen (store_snapshot env port target fingerprint inputs) next) Q r"
proof (rule wp_andthenI)
  let ?P = "\<lambda>r' (s :: (_ + _, _) step). reads_only r r' \<and> (case s of
      Finish answer \<Rightarrow> \<exists>e. answer = Inl e
    | Proceed found \<Rightarrow> found = None \<and> store_moved env port target fingerprint \<or> (\<exists>state. found = Some state \<and> answered_by_store env port target fingerprint state))"
  have rest: "wp (andthen (context_baselines env port 7 (pt_view target) inputs contexts) (\<lambda>rest.
      andthen (consult env 4 (np_revision_inputs port (pt_view target))) (\<lambda>revision r.
        (r, Proceed (Some \<lparr>sn_contexts = contexts, sn_baseline = merged_baseline baseline rest, sn_revision_inputs = revision\<rparr>))))) ?P r'"
    if "reads_only r r'" "np_input_fingerprint port (pt_view target) (pt_repository target) (pt_analyzer target) (ng_interfere env 1 st1) = Inr (Some fingerprint)"
      "np_contexts port (pt_view target) (pt_repository target) (pt_analyzer target) (ng_interfere env 2 st2) = Inr contexts"
    for r' st1 st2 contexts baseline
    by (rule wp_andthenI [OF context_baselines_read])
      (use that in \<open>auto intro!: steps wp_Proceed simp: reads_only_def answered_by_store_def\<close>)
  show "wp (store_snapshot env port target fingerprint inputs) ?P r"
    unfolding store_snapshot_def
    by (intro steps wp_Proceed rest) (auto simp: reads_only_def store_moved_def)
qed (use assms in \<open>auto split: step.splits\<close>)

lemma wp_job_fingerprint [steps]:
  assumes "\<And>r' e. reads_only r r' \<Longrightarrow> Q r' (Finish (Inl e))"
    and "\<And>r' fingerprint. reads_only r r' \<Longrightarrow> ej_input_fingerprint job \<in> {None, Some fingerprint} \<Longrightarrow> wp (next fingerprint) Q r'"
  shows "wp (andthen (job_fingerprint env port target job) next) Q r"
proof (cases "ej_input_fingerprint job")
  case None
  have "wp (andthen (andthen (consult env 0 question) (\<lambda>fingerprint. attempt (ok_or fingerprint e))) next) Q r" for question e
    unfolding wp_andthen [of "andthen _ _"]
    by (rule wp_consult) (use assms None in \<open>auto simp: reads_only_def attempt_def wp_def ok_or_def split: option.splits\<close>)
  then show ?thesis by (simp add: job_fingerprint_def None)
next
  case (Some fingerprint)
  then show ?thesis using assms(2) [of r] by (simp add: job_fingerprint_def wp_def andthen_def reads_only_def)
qed

text \<open>When the store is asked to publish \<open>request\<close> for a job.\<close>

definition justified ::
    "'st enrichment_environment \<Rightarrow> 'st enrichment_port \<Rightarrow> workspace_registry option \<Rightarrow> enrichment_job \<Rightarrow> inventory_store
     \<Rightarrow> publish_request \<Rightarrow> bool" where
  "justified env port registry job inventory request \<longleftrightarrow>
     (\<exists>ws worker inventory' snapshot target_snapshot state. let target = pq_target request in
        rbind (registry_of registry) (enrichment_workspace (ng_indexer env Loading) (ej_target job)) = Inr (ws, pt_repository target)
        \<and> expected_worker (ng_indexer env Loading) job = Some worker
        \<and> pt_view target = ws_name ws \<and> pt_analyzer target = am_id worker \<and> pt_version target = am_version worker
        \<and> loaded env Loading ws inventory inventory' snapshot
        \<and> find_repository snapshot (pt_repository target) = Some target_snapshot
        \<and> ej_input_fingerprint job \<in> {None, Some (pq_input_fingerprint request)}
        \<and> answered_by_store env port target (pq_input_fingerprint request) state
        \<and> asked env port ws snapshot target_snapshot target (pq_input_fingerprint request) state inventory' request)"

text \<open>The target of a job, when its workspace is registered and the worker has the expected version.\<close>

definition job_target :: "'st enrichment_environment \<Rightarrow> workspace_registry option \<Rightarrow> enrichment_job \<Rightarrow> publish_target option" where
  "job_target env registry job =
     (case (rbind (registry_of registry) (enrichment_workspace (ng_indexer env Loading) (ej_target job)), expected_worker (ng_indexer env Loading) job) of
        (Inr (ws, repository), Some worker) \<Rightarrow>
          Some \<lparr>pt_view = ws_name ws, pt_repository = repository, pt_analyzer = am_id worker, pt_version = am_version worker\<rparr>
      | _ \<Rightarrow> None)"

definition store_has_it :: "'st enrichment_port \<Rightarrow> publish_target option \<Rightarrow> bool" where
  "store_has_it port target \<longleftrightarrow> (\<exists>t st. target = Some t \<and> np_matches port t st = Inr True)"

text \<open>Why a job may be superseded: another worker, another baseline in the store, other inputs than the store has.\<close>

definition superseding ::
    "'st enrichment_environment \<Rightarrow> 'st enrichment_port \<Rightarrow> workspace_registry option \<Rightarrow> enrichment_job \<Rightarrow> inventory_store \<Rightarrow> bool" where
  "superseding env port registry job inventory \<longleftrightarrow>
     expected_worker (ng_indexer env Loading) job = None
     \<or> (\<exists>target fingerprint. job_target env registry job = Some target \<and> ej_input_fingerprint job \<in> {None, Some fingerprint}
          \<and> (store_moved env port target fingerprint
             \<or> (\<exists>ws inventory' snapshot state. ws_name ws = pt_view target \<and> loaded env Loading ws inventory inventory' snapshot
                  \<and> answered_by_store env port target fingerprint state \<and> outdated env ws snapshot target state inventory')))"

lemma enrichment_steps_did:
  assumes "eg_requests r = requests"
  shows "wp (enrichment_steps env port registry job)
    (did port (store_has_it port (job_target env registry job)) (superseding env port registry job (eg_inventory r))
       (justified env port registry job (eg_inventory r)) requests) r"
proof -
  let ?Q = "did port (store_has_it port (job_target env registry job)) (superseding env port registry job (eg_inventory r))
       (justified env port registry job (eg_inventory r)) requests"
  have enrich: "wp (enrich_target env port ws snapshot target_snapshot target fingerprint state) ?Q r'"
    if "rbind (registry_of registry) (enrichment_workspace (ng_indexer env Loading) (ej_target job)) = Inr (ws, repository)"
      "expected_worker (ng_indexer env Loading) job = Some worker" "loaded env Loading ws (eg_inventory r) inventory' snapshot"
      "find_repository snapshot repository = Some target_snapshot" "ej_input_fingerprint job \<in> {None, Some fingerprint}"
      "answered_by_store env port target fingerprint state"
      "eg_requests r' = requests" "eg_inventory r' = inventory'"
      "target = \<lparr>pt_view = ws_name ws, pt_repository = repository, pt_analyzer = am_id worker, pt_version = am_version worker\<rparr>"
    for ws repository worker inventory' snapshot target_snapshot fingerprint state target r'
  proof -
    have own: "job_target env registry job = Some target" using that(1,2,9) by (simp add: job_target_def)
    have "justified env port registry job (eg_inventory r) request"
      if "asked env port ws snapshot target_snapshot target fingerprint state inventory' request" for request
    proof -
      have eqs: "pq_target request = target" "pq_input_fingerprint request = fingerprint" using that by (simp_all add: asked_def)
      show ?thesis unfolding justified_def Let_def eqs
        by (rule exI [of _ ws], rule exI [of _ worker], rule exI [of _ inventory'], rule exI [of _ snapshot],
            rule exI [of _ target_snapshot], rule exI [of _ state])
          (use that \<open>rbind _ _ = _\<close> \<open>expected_worker _ _ = _\<close> \<open>loaded _ _ _ _ _ _\<close> \<open>find_repository _ _ = _\<close>
            \<open>ej_input_fingerprint _ \<in> _\<close> \<open>answered_by_store _ _ _ _ _\<close> \<open>target = _\<close> in simp)
    qed
    moreover have "superseding env port registry job (eg_inventory r)" if "outdated env ws snapshot target state inventory'"
      unfolding superseding_def using own that \<open>loaded _ _ _ _ _ _\<close> \<open>ej_input_fingerprint _ \<in> _\<close> \<open>answered_by_store _ _ _ _ _\<close> \<open>target = _\<close>
      by (metis publish_target.select_convs(1))
    ultimately show ?thesis
      by (intro wp_mono [OF enrich_target_did [OF \<open>eg_requests r' = requests\<close>]])
        (auto elim!: did_mono simp: \<open>eg_inventory r' = inventory'\<close> store_has_it_def own)
  qed
  have moved: "superseding env port registry job (eg_inventory r)"
    if "rbind (registry_of registry) (enrichment_workspace (ng_indexer env Loading) (ej_target job)) = Inr (ws, repository)"
      "expected_worker (ng_indexer env Loading) job = Some worker" "ej_input_fingerprint job \<in> {None, Some fingerprint}"
      "store_moved env port \<lparr>pt_view = ws_name ws, pt_repository = repository, pt_analyzer = am_id worker, pt_version = am_version worker\<rparr> fingerprint"
    for ws repository worker fingerprint
    using that by (auto simp: superseding_def job_target_def)
  show ?thesis
    unfolding enrichment_steps_def
  proof (rule wp_attempt)
    fix a
    assume a: "rbind (registry_of registry) (enrichment_workspace (ng_indexer env Loading) (ej_target job)) = Inr a"
    obtain ws repository where ws: "a = (ws, repository)" by (cases a)
    show "wp (case a of (ws, repository) \<Rightarrow> andthen (load_snapshot env Loading ws) (\<lambda>snapshot.
       case expected_worker (ng_indexer env Loading) job of
         None \<Rightarrow> superseded
       | Some worker \<Rightarrow>
           andthen (attempt (ok_or (find_repository snapshot repository)
                      (''repository is no longer in workspace '' @ ws_name ws @ '': '' @ repository))) (\<lambda>target_snapshot.
           let target = \<lparr>pt_view = ws_name ws, pt_repository = repository, pt_analyzer = am_id worker, pt_version = am_version worker\<rparr> in
           andthen (job_fingerprint env port target job) (\<lambda>fingerprint.
           andthen (store_snapshot env port target fingerprint (enrichment_semantic_inputs (ng_indexer env Loading) (am_id worker))) (\<lambda>found.
             case found of
               None \<Rightarrow> superseded
             | Some state \<Rightarrow> enrich_target env port ws snapshot target_snapshot target fingerprint state))))) ?Q r"
    proof (cases "expected_worker (ng_indexer env Loading) job")
      case None
      then show ?thesis unfolding ws prod.case
        by (auto intro!: steps did_quiet simp: assms superseding_def)
    next
      case (Some worker)
      show ?thesis unfolding ws prod.case Some option.case Let_def
        by (intro steps did_quiet; (simp only: option.case)?; (intro steps did_quiet enrich [OF a [unfolded ws] Some])?)
          (simp_all add: assms reads_only_def ok_or_Inr_iff moved [OF a [unfolded ws] Some])
    qed
  qed (use assms in blast)
qed

section \<open>Properties of a job\<close>

lemma run_enrichment_job_did:
  assumes "run_enrichment_job env port registry job r = (r', answer)" "eg_requests r = []"
  shows "\<exists>s. did port (store_has_it port (job_target env registry job)) (superseding env port registry job (eg_inventory r))
        (justified env port registry job (eg_inventory r)) [] r' s
    \<and> answer = (case s of Finish a \<Rightarrow> a | Proceed a \<Rightarrow> Inr a)"
  using enrichment_steps_did [OF assms(2), of env port registry job] assms(1)
  by (auto simp: wp_def run_enrichment_job_def conclude_def split: prod.splits)

lemma published_justified:
  assumes "run_enrichment_job env port registry job r = (r', answer)" "eg_requests r = []" "request \<in> set (eg_requests r')"
  shows "eg_requests r' = [request]" "justified env port registry job (eg_inventory r) request"
  using run_enrichment_job_did [OF assms(1,2)] assms(3) by (auto simp: did_def)


text \<open>The facts of an enrichment that are about its target.\<close>

definition within_target :: "string \<Rightarrow> string \<Rightarrow> publish_payload \<Rightarrow> bool" where
  "within_target analyzer target p \<longleftrightarrow>
     list_all (\<lambda>e. \<not> entity_escapes_target target (ef_id e)) (py_entities p)
     \<and> list_all (\<lambda>ob. \<not> entity_escapes_target target (ob_from ob)) (py_observations p)
     \<and> list_all (\<lambda>ov. entity_belongs_to_target target (do_from ov)) (py_overrides p)
     \<and> list_all (\<lambda>(repository, _). repository = target) (py_diagnostics p)
     \<and> list_all (\<lambda>(repository, _). repository = target) (py_diagnostic_replacements p)
     \<and> list_all (\<lambda>s. fs_repository s = target \<and> fs_producer s = analyzer \<and> entity_belongs_to_target target (fs_owner s)
          \<and> list_all (\<lambda>e. \<not> entity_escapes_target target (ef_id e)) (fs_entities s)
          \<and> list_all (\<lambda>ob. \<not> entity_escapes_target target (ob_from ob)) (fs_observations s)) (py_fact_shards p)"

lemma accepted_within_target:
  "accept_contribution worker repository c = Inr payload \<Longrightarrow> within_target (am_id worker) repository payload"
  by (auto simp: accept_contribution_def within_target_def payload_of_def contribution_escapes_target_def repository_escapes_target_def
      shard_escapes_target_def list_ex_iff list_all_iff split: if_splits)

lemma justified_within_target:
  "justified env port registry job inventory request
   \<Longrightarrow> within_target (pt_analyzer (pq_target request)) (pt_repository (pq_target request)) (pq_contribution request)"
  by (auto simp: justified_def asked_def produced_def Let_def empty_payload_def within_target_def split: if_splits dest: accepted_within_target)

section \<open>What the worker read\<close>

lemma find_repository_Some: "find_repository snapshot identity = Some q \<Longrightarrow> q \<in> set (wn_repositories snapshot) \<and> repository_of q = identity"
  by (auto simp: find_repository_def find_Some_iff)

lemma current_repository:
  assumes "inputs_current ix snapshot workspace identities expected" "identity \<in> set identities"
  obtains q i where "find_repository snapshot identity = Some q" "map_of expected identity = Some (framed i @ rs_fingerprint (rp_state q))"
proof -
  obtain view where view: "current_view ix snapshot workspace = Inr view" and "input_matches view expected identity"
    using assms by (auto simp: inputs_current_def list_all_iff)
  then obtain s i where s: "List.find (\<lambda>s. rs_identity s = identity) (wv_repository_states view) = Some s"
      "map_of expected identity = Some (framed i @ rs_fingerprint s)"
    by (auto simp: input_matches_def repository_input_fingerprint_def split: option.splits)
  then have member: "s \<in> set (wv_repository_states view)" "rs_identity s = identity" by (auto simp: find_Some_iff)
  have states: "wv_repository_states view = sort_key rs_identity (map rp_state (wn_repositories snapshot))"
    using view by (auto simp: current_view_def Let_def dest: view_new_scoped_states)
  have "view_wf view" using view by (auto simp: current_view_def Let_def repository_identities_def intro!: view_new_scoped_wf bm_wf_map bm_wf_of_list)
  then have "distinct (map rs_identity (wv_repository_states view))" by (auto simp: view_wf_def dest: ascending_distinct)
  then have inj: "inj_on rs_identity (set (wv_repository_states view))" by (simp add: distinct_map)
  obtain q where q: "find_repository snapshot identity = Some q"
  proof (cases "find_repository snapshot identity")
    case None
    then have "identity \<notin> repository_of ` set (wn_repositories snapshot)" by (auto simp: find_repository_def find_None_iff)
    then show ?thesis using member by (auto simp: states)
  qed
  moreover have "rp_state q = s"
    using find_repository_Some [OF q] member by (intro inj_onD [OF inj]) (auto simp: states)
  ultimately show ?thesis using s(2) that by blast
qed

lemma list_all2_right: "list_all2 P xs ys \<Longrightarrow> y \<in> set ys \<Longrightarrow> \<exists>x \<in> set xs. P x y"
  by (induction rule: list_all2_induct) auto



section \<open>What is planned\<close>

text \<open>While nobody else changes the store.\<close>

definition quiet :: "'st enrichment_environment \<Rightarrow> bool" where
  "quiet env \<longleftrightarrow> ng_interfere env = (\<lambda>_ st. st)"

definition target_in :: "string \<Rightarrow> string \<times> analyzer_metadata \<Rightarrow> publish_target" where
  "target_in workspace = (\<lambda>(repository, worker).
     \<lparr>pt_view = workspace, pt_repository = repository, pt_analyzer = am_id worker, pt_version = am_version worker\<rparr>)"

definition job_for :: "string \<Rightarrow> index_job_id \<Rightarrow> string \<times> analyzer_metadata \<Rightarrow> string \<Rightarrow> enrichment_job" where
  "job_for workspace prerequisite = (\<lambda>(repository, worker) fingerprint.
     \<lparr>ej_target = EtWorkspaceRepository workspace repository, ej_worker_id = am_id worker, ej_expected_worker_version = am_version worker,
      ej_trigger = Automatic, ej_prerequisite_index_jobs = [prerequisite], ej_input_fingerprint = Some fingerprint\<rparr>)"

definition planned :: "'st enrichment_port \<Rightarrow> string \<Rightarrow> index_job_id \<Rightarrow> 'st \<Rightarrow> (string \<times> analyzer_metadata) list \<Rightarrow> enrichment_job list \<Rightarrow> bool" where
  "planned port workspace prerequisite st pairs jobs \<longleftrightarrow>
     list_all (\<lambda>p. \<exists>current. np_matches port (target_in workspace p) st = Inr current) pairs
     \<and> list_all2 (\<lambda>p job. \<exists>fingerprint. np_input_fingerprint port workspace (fst p) (am_id (snd p)) st = Inr (Some fingerprint)
          \<and> job = job_for workspace prerequisite p fingerprint)
         (filter (\<lambda>p. np_matches port (target_in workspace p) st = Inr False) pairs) jobs"

lemma automatic_job_planned:
  assumes "quiet env"
  shows "wp (plan_automatic_job env port k workspace prerequisite p)
    (\<lambda>r' s. r' = r \<and> (case s of
         Finish answer \<Rightarrow> \<exists>e. answer = Inl e
       | Proceed None \<Rightarrow> np_matches port (target_in workspace p) (eg_store r) = Inr True
       | Proceed (Some job) \<Rightarrow> np_matches port (target_in workspace p) (eg_store r) = Inr False
            \<and> (\<exists>fingerprint. np_input_fingerprint port workspace (fst p) (am_id (snd p)) (eg_store r) = Inr (Some fingerprint)
               \<and> job = job_for workspace prerequisite p fingerprint))) r"
  unfolding plan_automatic_job_def
  by (cases p) (use assms in \<open>auto intro!: steps wp_Proceed simp: quiet_def target_in_def job_for_def ok_or_Inr_iff\<close>)

lemma automatic_jobs_planned:
  assumes "quiet env"
  shows "wp (automatic_jobs_for env port k workspace prerequisite pairs)
    (\<lambda>r' s. r' = r \<and> (case s of Finish answer \<Rightarrow> \<exists>e. answer = Inl e
       | Proceed jobs \<Rightarrow> planned port workspace prerequisite (eg_store r) pairs jobs)) r"
proof (induction pairs arbitrary: k)
  case Nil
  then show ?case by (simp add: wp_def planned_def)
next
  case (Cons p pairs)
  show ?case unfolding automatic_jobs_for.simps
    by (rule wp_andthenI [OF automatic_job_planned [OF assms]], simp, elim conjE, hypsubst, rule wp_andthenI [OF Cons.IH])
      (auto intro!: wp_Proceed simp: planned_def split: option.splits)
qed


section \<open>An example\<close>

text \<open>One repository, loaded twice: read the first time, taken from the cache the second.\<close>

definition first_inventory :: inventory_store where
  "first_inventory = \<lparr>iv_verified = [], iv_content = [], iv_blobs = [], iv_manifests = [], iv_checkpoints = []\<rparr>"

lemma first_inputs:
  "case refresh_inputs example_files \<lparr>rf_base = ''/r'', rf_authoritative = True, rf_dirty = None, rf_previous = []\<rparr>
       [(''/r/a'', Source), (''/r/b'', Source)] (first_inventory, no_statistics\<lparr>is_discovered_inputs := 2, is_watcher_inputs := 0\<rparr>) of
     ((st, _), Inr inputs) \<Rightarrow> inputs = example_entries \<and> iv_content st = [(''1'', ''x''), (''2'', ''y'')] \<and> iv_verified st = []
       \<and> iv_manifests st = []
   | _ \<Rightarrow> False"
  by code_simp

lemma second_inputs:
  assumes "map_of (iv_content st) ''1'' = Some ''x''" "map_of (iv_content st) ''2'' = Some ''y''"
  shows "\<exists>acc. refresh_inputs example_files \<lparr>rf_base = ''/r'', rf_authoritative = False, rf_dirty = None,
       rf_previous = [example_entry ''a'' ''1'', example_entry ''b'' ''2'']\<rparr>
       [(''/r/a'', Source), (''/r/b'', Source)] (st, s) = (acc, Inr example_entries)"
proof -
  have "fs_metadata example_files p = Inr example_hint" for p by (simp add: example_files_def)
  then show ?thesis
    by (simp add: example_paths input_content_def Let_def previous_entry_def example_entry_def load_content_def assms example_entries_def)
qed

definition inventory_filled :: "inventory_store \<Rightarrow> bool" where
  "inventory_filled st \<longleftrightarrow>
     map_of (iv_content st) ''1'' = Some ''x'' \<and> map_of (iv_content st) ''2'' = Some ''y'' \<and> iv_verified st = [''0'']
     \<and> iv_manifests st = [(''0'', \<lparr>pi_version = 1, pi_fingerprint = Some ''0'', pi_entries = [example_entry ''a'' ''1'', example_entry ''b'' ''2'']\<rparr>)]"

lemma example_directories: "fs_is_dir example_files p" "fs_create_dir example_files dir = None" "fs_write_manifest example_files key = None"
  by (simp_all add: example_files_def)

abbreviation example_manifest :: persisted_inventory where
  "example_manifest \<equiv> \<lparr>pi_version = INVENTORY_VERSION, pi_fingerprint = Some ''0'', pi_entries = map fst example_entries\<rparr>"

lemma hinted_refresh:
  assumes candidates: "inventory_candidates example_files example_catalog ''/r'' [] = Inr candidates"
    and plan: "refresh_plan example_files ''r'' ''/r'' ''/r'' [] Hinted st = plan"
    and inputs: "refresh_inputs example_files plan candidates (st, no_statistics\<lparr>is_discovered_inputs := length candidates, is_watcher_inputs := 0\<rparr>)
        = ((st1, s1), Inr example_entries)"
  shows "\<exists>s. refresh example_files example_catalog ''r'' ''/r'' [] Hinted st =
     (st1\<lparr>iv_manifests := bm_put ''0'' example_manifest (iv_manifests st1), iv_verified := bs_insert ''0'' (iv_verified st1)\<rparr>,
      Inr (example_snapshot_r, s))"
  using inputs unfolding plan [symmetric]
  by (simp add: refresh_def example_directories example_canonical candidates Let_def refresh_plan_def finish_refresh_def example_state
      store_manifest_def example_snapshot_r_def example_state_r_def)

lemma first_refresh:
  "\<exists>st s. refresh example_files example_catalog ''r'' ''/r'' [] Hinted first_inventory = (st, Inr (example_snapshot_r, s)) \<and> inventory_filled st"
proof -
  have plan: "refresh_plan example_files ''r'' ''/r'' ''/r'' [] Hinted first_inventory =
      \<lparr>rf_base = ''/r'', rf_authoritative = True, rf_dirty = None, rf_previous = []\<rparr>"
    by (simp add: refresh_plan_def Let_def first_inventory_def load_manifest_def)
  obtain st s where inputs: "refresh_inputs example_files \<lparr>rf_base = ''/r'', rf_authoritative = True, rf_dirty = None, rf_previous = []\<rparr>
       [(''/r/a'', Source), (''/r/b'', Source)] (first_inventory, no_statistics\<lparr>is_discovered_inputs := 2, is_watcher_inputs := 0\<rparr>)
       = ((st, s), Inr example_entries)"
    and st: "iv_content st = [(''1'', ''x''), (''2'', ''y'')]" "iv_verified st = []" "iv_manifests st = []"
    using first_inputs by (auto split: prod.splits sum.splits)
  have "inventory_filled (st\<lparr>iv_manifests := bm_put ''0'' example_manifest (iv_manifests st), iv_verified := bs_insert ''0'' (iv_verified st)\<rparr>)"
    by (simp add: inventory_filled_def st INVENTORY_VERSION_def example_entries_def)
  then show ?thesis using hinted_refresh [OF example_candidates plan, of st s] inputs by (auto simp: numeral_2_eq_2)
qed

lemma filled_plan:
  assumes "inventory_filled st"
  shows "refresh_plan example_files ''r'' ''/r'' ''/r'' [] Hinted st =
      \<lparr>rf_base = ''/r'', rf_authoritative = False, rf_dirty = None, rf_previous = [example_entry ''a'' ''1'', example_entry ''b'' ''2'']\<rparr>"
  using assms by (simp add: refresh_plan_def Let_def load_manifest_def inventory_filled_def INVENTORY_VERSION_def)

lemma second_refresh:
  assumes "inventory_filled st"
  shows "\<exists>st' s. refresh example_files example_catalog ''r'' ''/r'' [] Hinted st = (st', Inr (example_snapshot_r, s))"
proof -
  note plan = filled_plan [OF assms]
  obtain st1 s1 where "refresh_inputs example_files \<lparr>rf_base = ''/r'', rf_authoritative = False, rf_dirty = None,
      rf_previous = [example_entry ''a'' ''1'', example_entry ''b'' ''2'']\<rparr> [(''/r/a'', Source), (''/r/b'', Source)]
      (st, no_statistics\<lparr>is_discovered_inputs := length [(''/r/a'', Source), (''/r/b'', Source)], is_watcher_inputs := 0\<rparr>)
      = ((st1, s1), Inr example_entries)"
    using second_inputs [of st] assms by (metis inventory_filled_def surj_pair)
  from hinted_refresh [OF example_candidates plan this] show ?thesis by blast
qed

definition enriching_contribution :: "string \<Rightarrow> analyzer_contribution" where
  "enriching_contribution repository =
     \<lparr>ab_metadata = \<lparr>am_id = ''e'', am_version = ''1''\<rparr>, ab_active_repositories = [repository],
      ab_repositories = [(example_contribution [] example_snapshot_r)
        \<lparr>rc_entities := [\<lparr>ef_id = ''repo://r/x'', ef_kind = Callable, ef_metadata = None\<rparr>]\<rparr>],
      ab_overrides = [], ab_candidate_overrides = [], ab_graphql_resolvers = [], ab_diagnostics = [],
      ab_cache = \<lparr>ca_memory_hits = 0, ca_disk_hits = 0, ca_misses = 0\<rparr>\<rparr>"

definition enriching_enricher :: enricher where
  "enriching_enricher = example_enricher\<lparr>er_enrich := (\<lambda>s. Inr (enriching_contribution (es_target_repository s)))\<rparr>"

definition enriching_core :: analysis_indexer where
  "enriching_core = \<lparr>in_analyzers = in_analyzers candidate_core, in_enrichers = [enriching_enricher], in_cache_dir = ''/cache''\<rparr>"

definition enriching_environment :: "unit enrichment_environment" where
  "enriching_environment =
     \<lparr>ng_files = (\<lambda>_. example_files), ng_catalog = example_catalog, ng_indexer = (\<lambda>_. enriching_core), ng_cache_io = example_io,
      ng_interfere = (\<lambda>_ st. st)\<rparr>"

definition baseline_inputs :: "(string, string) bmap" where
  "baseline_inputs = [(''r'', framed ''6:1:x1:1:core-rules:6'' @ ''0'')]"

definition enriching_port :: "unit enrichment_port" where
  "enriching_port =
     \<lparr>np_matches = (\<lambda>_ _. Inr False), np_input_fingerprint = (\<lambda>_ _ _ _. Inr (Some ''f'')), np_contexts = (\<lambda>_ _ _ _. Inr []),
      np_baseline = (\<lambda>_ _ _ _ _. Inr ([], [], [])), np_revision_inputs = (\<lambda>_ _. Inr baseline_inputs),
      np_publish = (\<lambda>_ st. (st, Inr OutcomePublished))\<rparr>"

definition enriching_registry :: workspace_registry where
  "enriching_registry = \<lparr>wg_repositories = [], wg_workspaces = [(''w'', example_ws)]\<rparr>"

definition enriching_job :: enrichment_job where
  "enriching_job = job_for ''w'' ''j'' (''r'', \<lparr>am_id = ''e'', am_version = ''1''\<rparr>) ''f''"

definition enriching_start :: "unit enriching" where
  "enriching_start = \<lparr>eg_inventory = first_inventory, eg_cache = empty_cache, eg_store = (), eg_requests = []\<rparr>"

definition enriching_target :: publish_target where
  "enriching_target = \<lparr>pt_view = ''w'', pt_repository = ''r'', pt_analyzer = ''e'', pt_version = ''1''\<rparr>"

definition enriching_request :: publish_request where
  "enriching_request =
     \<lparr>pq_target = enriching_target, pq_input_fingerprint = ''f'',
      pq_contribution = empty_payload\<lparr>py_entities := [\<lparr>ef_id = ''repo://r/x'', ef_kind = Callable, ef_metadata = None\<rparr>]\<rparr>\<rparr>"

lemma enriching_current: "inputs_current enriching_core example_loaded ''w'' [''r''] baseline_inputs"
proof -
  have "repository_identities (map (\<lambda>a. ax_prepare a example_loaded) (in_analyzers enriching_core)) example_loaded = [(''r'', ''1:x1:1'')]"
    using candidate_identities by (simp add: enriching_core_def)
  then show ?thesis
    by (simp add: inputs_current_def current_view_def candidate_texts bm_map_def example_loaded_def example_snapshot_r_def example_state_r_def
        view_new_scoped_def Let_def input_matches_def repository_input_fingerprint_def baseline_inputs_def)
qed

lemma enriching_loads:
  "\<exists>st. loaded enriching_environment Loading example_ws first_inventory st example_loaded \<and> inventory_filled st"
  "inventory_filled st \<Longrightarrow> \<exists>st'. loaded enriching_environment Verifying example_ws st st' example_loaded"
proof -
  have one: "refresh_workspace_snapshot example_files example_catalog example_ws None st = (st', Inr (example_loaded, fold (\<lambda>s acc. add_statistics acc s) [s] no_statistics))"
    if "refresh example_files example_catalog ''r'' ''/r'' [] Hinted st = (st', Inr (example_snapshot_r, s))" for st st' s
    using that by (simp add: refresh_workspace_snapshot_def Inventory.checkpoint_workspace_def refresh_mode_of_def descriptors_of_def example_loaded_def)
  show "\<exists>st. loaded enriching_environment Loading example_ws first_inventory st example_loaded \<and> inventory_filled st"
    using first_refresh one by (auto simp: loaded_def enriching_environment_def)
  show "\<exists>st'. loaded enriching_environment Verifying example_ws st st' example_loaded" if "inventory_filled st"
    using second_refresh [OF that] one by (auto simp: loaded_def enriching_environment_def)
qed

lemma enriching_selectors:
  "pt_view enriching_target = ''w''" "pt_repository enriching_target = ''r''" "pt_analyzer enriching_target = ''e''" "pt_version enriching_target = ''1''"
  "ng_indexer enriching_environment phase = enriching_core" "ng_interfere enriching_environment n st = st"
  "np_matches enriching_port p () = Inr False" "np_input_fingerprint enriching_port view repository analyzer () = Inr (Some ''f'')"
  "np_contexts enriching_port view repository analyzer () = Inr []" "np_baseline enriching_port view repository kinds relations () = Inr ([], [], [])"
  "np_revision_inputs enriching_port view () = Inr baseline_inputs" "np_publish enriching_port q st = (st, Inr OutcomePublished)"
  "ws_name example_ws = ''w''"
  by (simp_all add: enriching_target_def enriching_environment_def enriching_port_def Inventory.checkpoint_workspace_def)

lemma enriching_match:
  "\<exists>c. current_revision_inputs_match enriching_environment phase example_loaded ''w'' [''r''] baseline_inputs r
     = (r\<lparr>eg_cache := c\<rparr>, (Proceed True :: (string + enrichment_outcome, bool) step))"
proof -
  obtain c plan where prepared: "prepare example_io enriching_core example_loaded (eg_cache r) = (c, plan)" by fastforce
  obtain view where "current_view enriching_core example_loaded ''w'' = Inr view" "list_all (input_matches view baseline_inputs) [''r'']"
    using enriching_current by (auto simp: inputs_current_def)
  then show ?thesis using revision_view_prepare [OF prepared, of "''w''"] prepared
    by (intro exI [of _ c]) (simp add: current_revision_inputs_match_def enriching_environment_def attempt_def)
qed

lemma enriching_load:
  "loaded env phase ws (eg_inventory r) st snapshot \<Longrightarrow> load_snapshot env phase ws r = (r\<lparr>eg_inventory := st\<rparr>, Proceed snapshot)"
  by (auto simp: loaded_def load_snapshot_def)

lemma enriching_accepts:
  "accept_contribution \<lparr>am_id = ''e'', am_version = ''1''\<rparr> ''r'' (enriching_contribution ''r'') = Inr (pq_contribution enriching_request)"
  by (simp add: accept_contribution_def contribution_escapes_target_def repository_escapes_target_def example_contribution_def enriching_contribution_def
      enriching_request_def example_snapshot_r_def example_state_r_def entity_escapes_target_def entity_belongs_to_target_def payload_of_def empty_payload_def)

lemma enriching_worker:
  "enrichment_catalog enriching_core = [\<lparr>am_id = ''e'', am_version = ''1''\<rparr>]"
  "expected_worker enriching_core enriching_job = Some \<lparr>am_id = ''e'', am_version = ''1''\<rparr>"
  "enricher_is_active enriching_core ''e'' plugins q"
  "enrich enriching_core input ''e'' = Inr (enriching_contribution (es_target_repository input))"
  by (simp_all add: enrichment_catalog_def enriching_core_def enriching_enricher_def example_enricher_def expected_worker_def
      enriching_job_def job_for_def enricher_is_active_def find_enricher_def enricher_id_def enrich_def)

lemma store_of_units [simp]: "(r :: unit enriching)\<lparr>eg_store := ()\<rparr> = r"
  by (cases r) simp

lemma enriching_finish:
  assumes "eg_inventory r = st1" "eg_requests r = []" "loaded enriching_environment Verifying example_ws st1 st2 example_loaded"
    and "sn_contexts state = []" "sn_revision_inputs state = baseline_inputs"
  shows "\<exists>r'. finish_enrichment enriching_environment enriching_port example_ws enriching_target ''f'' state (enriching_contribution ''r'') r
      = (r', Proceed EoPublished) \<and> eg_requests r' = [enriching_request]"
proof -
  let ?env = "enriching_environment"
  have load: "load_snapshot ?env Verifying example_ws r
      = (r\<lparr>eg_inventory := st2\<rparr>, (Proceed example_loaded :: (string + enrichment_outcome, workspace_snapshot) step))"
    using enriching_load assms(1,3) by blast
  obtain c where "current_revision_inputs_match ?env Verifying example_loaded ''w'' [''r''] baseline_inputs (r\<lparr>eg_inventory := st2\<rparr>)
      = (r\<lparr>eg_inventory := st2, eg_cache := c\<rparr>, (Proceed True :: (string + enrichment_outcome, bool) step))" using enriching_match by blast
  then show ?thesis using load assms(2,4,5)
    by (simp add: finish_enrichment_def Let_def andthen_def attempt_def enriching_accepts enriching_worker enriching_selectors
        publish_enrichment_def) (simp add: enriching_request_def enriching_target_def)
qed

lemma enriching_enriched:
  assumes "eg_inventory r = st1" "eg_requests r = []" "loaded enriching_environment Verifying example_ws st1 st2 example_loaded"
    and "sn_contexts state = []" "sn_revision_inputs state = baseline_inputs"
  shows "\<exists>r'. enrich_target enriching_environment enriching_port example_ws example_loaded example_snapshot_r enriching_target ''f'' state r
      = (r', Proceed EoPublished) \<and> eg_requests r' = [enriching_request]"
proof -
  obtain c where "current_revision_inputs_match enriching_environment Loading example_loaded ''w'' [''r''] baseline_inputs r
      = (r\<lparr>eg_cache := c\<rparr>, (Proceed True :: (string + enrichment_outcome, bool) step))" using enriching_match by blast
  moreover have "eg_inventory (r\<lparr>eg_cache := c\<rparr>) = st1" "eg_requests (r\<lparr>eg_cache := c\<rparr>) = []" using assms(1,2) by simp_all
  note enriching_finish [OF this assms(3-5)]
  ultimately show ?thesis using assms(4,5)
    by (simp add: enrich_target_def Let_def andthen_def attempt_def consult_def enriching_worker enriching_selectors enrichment_input_def)
qed

lemma enriching_run:
  "\<exists>r'. run_enrichment_job enriching_environment enriching_port (Some enriching_registry) enriching_job enriching_start = (r', Inr EoPublished)
     \<and> eg_requests r' = [enriching_request]"
proof -
  obtain st1 where st1: "loaded enriching_environment Loading example_ws first_inventory st1 example_loaded" "inventory_filled st1"
    using enriching_loads(1) by blast
  obtain st2 where st2: "loaded enriching_environment Verifying example_ws st1 st2 example_loaded" using enriching_loads(2) [OF st1(2)] by blast
  let ?r = "enriching_start\<lparr>eg_inventory := st1\<rparr>"
    and ?state = "\<lparr>sn_contexts = [], sn_baseline = merged_baseline ([], [], []) [], sn_revision_inputs = baseline_inputs\<rparr>"
  have load: "load_snapshot enriching_environment Loading example_ws enriching_start
      = (?r, (Proceed example_loaded :: (string + enrichment_outcome, workspace_snapshot) step))"
    by (rule enriching_load) (use st1(1) in \<open>simp add: enriching_start_def\<close>)
  have start: "attempt (rbind (registry_of (Some enriching_registry)) (enrichment_workspace enriching_core (ej_target enriching_job))) enriching_start
      = (enriching_start, (Proceed (example_ws, ''r'') :: (string + enrichment_outcome, workspace \<times> string) step))"
    by (simp add: attempt_def registry_of_def enriching_registry_def enriching_job_def job_for_def enrichment_workspace_def registered_workspace_def ok_or_def)
  have target: "attempt (ok_or (find_repository example_loaded ''r'') message) r
      = (r, (Proceed example_snapshot_r :: (string + enrichment_outcome, repository_snapshot) step))" for message and r :: "unit enriching"
    by (simp add: find_repository_def example_loaded_def example_snapshot_r_def example_state_r_def ok_or_def attempt_def)
  have fingerprint: "job_fingerprint enriching_environment enriching_port target enriching_job r
      = (r, (Proceed ''f'' :: (string + enrichment_outcome, string) step))" for target r
    by (simp add: job_fingerprint_def enriching_job_def job_for_def)
  have store: "store_snapshot enriching_environment enriching_port enriching_target ''f'' inputs r
      = (r, (Proceed (Some ?state) :: (string + enrichment_outcome, enrichment_state option) step))" for inputs r
    by (simp add: store_snapshot_def andthen_def attempt_def consult_def enriching_selectors)
  obtain r' where "enrich_target enriching_environment enriching_port example_ws example_loaded example_snapshot_r enriching_target ''f'' ?state ?r
      = (r', Proceed EoPublished)" "eg_requests r' = [enriching_request]"
    using enriching_enriched [of ?r st1 st2 ?state] st2 by (auto simp: enriching_start_def)
  then show ?thesis
    by (simp add: run_enrichment_job_def enrichment_steps_def andthen_def enriching_selectors start load enriching_worker target
        Let_def fingerprint store conclude_def enriching_target_def [symmetric])
qed


lemma enriching_env_selectors:
  "ng_files enriching_environment phase = example_files" "ng_catalog enriching_environment = example_catalog"
  by (simp_all add: enriching_environment_def)

lemma first_load_filled:
  assumes "loaded enriching_environment Loading example_ws first_inventory inventory snapshot"
  shows "inventory_filled inventory"
proof -
  obtain st where "loaded enriching_environment Loading example_ws first_inventory st example_loaded" "inventory_filled st"
    using enriching_loads(1) by blast
  then show ?thesis using assms by (auto simp: loaded_def)
qed

lemma filled_trusted:
  assumes "inventory_filled st"
  shows "repositories_trusted example_files example_catalog {''x'', ''y''} example_ws None (ws_repositories example_ws) st"
proof -
  have "inj_on (ge_sha256 (fs_git example_files)) {''x'', ''y''}" by (auto simp: example_files_def example_digest_def)
  moreover have "list_all (hint_sound example_files \<lparr>rf_base = ''/r'', rf_authoritative = False, rf_dirty = None,
      rf_previous = [example_entry ''a'' ''1'', example_entry ''b'' ''2'']\<rparr>) [(''/r/a'', Source), (''/r/b'', Source)]"
    by code_simp
  ultimately show ?thesis
    by (simp add: Inventory.checkpoint_workspace_def refresh_mode_of_def descriptors_of_def candidates_trusted_def example_candidates
        example_canonical filled_plan [OF assms] trusted_def)
qed





end
