(* ===== verification/Wire_Query.thy ===== *)
theory Wire_Query imports Dto Paths Domain_Workspace begin

text \<open>
  The messages between daemon and clients, \<open>crates/protocol/src/entity.rs\<close>, \<open>query.rs\<close> and
  \<open>workspace.rs\<close>: every result of a query as the message of \<open>proto/beholder/v1/daemon.proto\<close> that
  carries it, and back. A message is a record with the fields of the \<open>.proto\<close> file: an optional or a
  message field is an \<open>option\<close>, a \<open>oneof\<close> an option of a datatype, an enum field the number (\<open>i32\<close>)
  the file gives it. A message with the fields of the value it carries is that value (freshness,
  positions, counts, plain queries and paths). \<open>X_to_wire\<close> is \<open>From\<close> into the message,
  \<open>X_from_wire\<close> the \<open>TryFrom\<close> back.
\<close>

named_theorems wire_iff \<open>which messages are read, and as what\<close>

lemma try_map_iff:
  assumes "\<And>m x. f m = Inr x \<longleftrightarrow> ok x \<and> m = g x"
  shows "try_map f ms = Inr xs \<longleftrightarrow> list_all ok xs \<and> ms = map g xs"
  unfolding try_map_Inr_iff assms by (induction ms arbitrary: xs) (auto simp: list_all2_Cons1 Cons_eq_map_conv)

lemma try_map_total:
  assumes "\<And>m x. f m = Inr x \<longleftrightarrow> m = g x"
  shows "try_map f ms = Inr xs \<longleftrightarrow> ms = map g xs"
  using try_map_iff [of f "\<lambda>_. True" g ms xs] assms by (simp add: list.pred_True)

lemma try_option_iff:
  assumes "\<And>m x. f m = Inr x \<longleftrightarrow> ok x \<and> m = g x"
  shows "try_option f m = Inr x \<longleftrightarrow> pred_option ok x \<and> m = map_option g x"
  by (cases m; cases x) (auto simp: rbind_Inr_iff assms)

declare rbind_Inr_iff [wire_iff]

lemma ok_or_Inr_eq [wire_iff]: "ok_or x e = Inr y \<longleftrightarrow> x = Some y"
  by (cases x) simp_all

section \<open>Enums\<close>

fun completeness_to_wire :: "analysis_completeness \<Rightarrow> i32" where
  "completeness_to_wire Complete = 1"
| "completeness_to_wire Incomplete = 2"

definition completeness_from_wire :: "i32 \<Rightarrow> string + analysis_completeness" where
  "completeness_from_wire n =
     (if n = 0 then Inl ''analysis completeness is missing'' else if n = 1 then Inr Complete
      else if n = 2 then Inr Incomplete else Inl ''unknown analysis completeness'')"

lemma completeness_wire_iff [wire_iff]: "completeness_from_wire n = Inr k \<longleftrightarrow> n = completeness_to_wire k"
  by (cases k) (simp_all add: completeness_from_wire_def)

lemma completeness_wire_inj [simp]: "completeness_to_wire k = completeness_to_wire l \<longleftrightarrow> k = l"
  using completeness_wire_iff by (metis sum.inject(2))


fun diagnostic_severity_to_wire :: "dto_severity \<Rightarrow> i32" where
  "diagnostic_severity_to_wire DtoKnownLimitation = 1"
| "diagnostic_severity_to_wire DtoWarning = 2"

definition diagnostic_severity_from_wire :: "i32 \<Rightarrow> string + dto_severity" where
  "diagnostic_severity_from_wire n =
     (if n = 0 then Inl ''analysis diagnostic severity is missing'' else if n = 1 then Inr DtoKnownLimitation
      else if n = 2 then Inr DtoWarning else Inl ''unknown analysis diagnostic severity'')"

lemma diagnostic_severity_wire_iff [wire_iff]: "diagnostic_severity_from_wire n = Inr k \<longleftrightarrow> n = diagnostic_severity_to_wire k"
  by (cases k) (simp_all add: diagnostic_severity_from_wire_def)

lemma diagnostic_severity_wire_inj [simp]: "diagnostic_severity_to_wire k = diagnostic_severity_to_wire l \<longleftrightarrow> k = l"
  using diagnostic_severity_wire_iff by (metis sum.inject(2))


fun entity_kind_to_wire :: "dto_entity_kind \<Rightarrow> i32" where
  "entity_kind_to_wire EkUnknown = 0"
| "entity_kind_to_wire EkCallable = 1"
| "entity_kind_to_wire EkGraphqlField = 2"
| "entity_kind_to_wire EkKafkaTopic = 3"
| "entity_kind_to_wire EkNamespace = 4"
| "entity_kind_to_wire EkRpc = 5"
| "entity_kind_to_wire EkService = 6"
| "entity_kind_to_wire EkProtoEnum = 7"
| "entity_kind_to_wire EkProtoField = 8"
| "entity_kind_to_wire EkProtoFile = 9"
| "entity_kind_to_wire EkProtoMessage = 10"
| "entity_kind_to_wire EkProtoService = 11"
| "entity_kind_to_wire EkUnityPrefab = 12"
| "entity_kind_to_wire EkGraphqlOperation = 13"
| "entity_kind_to_wire EkGraphqlType = 14"
| "entity_kind_to_wire EkGraphqlArgument = 15"
| "entity_kind_to_wire EkGraphqlEnumValue = 16"

definition entity_kind_from_wire :: "i32 \<Rightarrow> string + dto_entity_kind" where
  "entity_kind_from_wire n =
     (if n = 0 then Inr EkUnknown else if n = 1 then Inr EkCallable else if n = 2 then Inr EkGraphqlField
      else if n = 3 then Inr EkKafkaTopic else if n = 4 then Inr EkNamespace else if n = 5 then Inr EkRpc
      else if n = 6 then Inr EkService else if n = 7 then Inr EkProtoEnum else if n = 8 then Inr EkProtoField
      else if n = 9 then Inr EkProtoFile else if n = 10 then Inr EkProtoMessage else if n = 11 then Inr EkProtoService
      else if n = 12 then Inr EkUnityPrefab else if n = 13 then Inr EkGraphqlOperation else if n = 14 then Inr EkGraphqlType
      else if n = 15 then Inr EkGraphqlArgument else if n = 16 then Inr EkGraphqlEnumValue else Inl ''unknown entity kind'')"

lemma entity_kind_wire_iff [wire_iff]: "entity_kind_from_wire n = Inr k \<longleftrightarrow> n = entity_kind_to_wire k"
  by (cases k) (simp_all add: entity_kind_from_wire_def)

lemma entity_kind_wire_inj [simp]: "entity_kind_to_wire k = entity_kind_to_wire l \<longleftrightarrow> k = l"
  using entity_kind_wire_iff by (metis sum.inject(2))


fun entity_origin_to_wire :: "entity_origin \<Rightarrow> i32" where
  "entity_origin_to_wire Source = 1"
| "entity_origin_to_wire GeneratedOrigin = 2"
| "entity_origin_to_wire ExternalDependency = 3"

definition entity_origin_from_wire :: "i32 \<Rightarrow> string + entity_origin" where
  "entity_origin_from_wire n =
     (if n = 0 then Inl ''entity origin is missing'' else if n = 1 then Inr Source else if n = 2 then Inr GeneratedOrigin
      else if n = 3 then Inr ExternalDependency else Inl ''unknown entity origin'')"

lemma entity_origin_wire_iff [wire_iff]: "entity_origin_from_wire n = Inr k \<longleftrightarrow> n = entity_origin_to_wire k"
  by (cases k) (simp_all add: entity_origin_from_wire_def)

lemma entity_origin_wire_inj [simp]: "entity_origin_to_wire k = entity_origin_to_wire l \<longleftrightarrow> k = l"
  using entity_origin_wire_iff by (metis sum.inject(2))


fun operation_kind_to_wire :: "dto_graphql_operation_kind \<Rightarrow> i32" where
  "operation_kind_to_wire DtoMutation = 1"
| "operation_kind_to_wire DtoQuery = 2"
| "operation_kind_to_wire DtoSubscription = 3"

definition operation_kind_from_wire :: "i32 \<Rightarrow> string + dto_graphql_operation_kind" where
  "operation_kind_from_wire n =
     (if n = 0 then Inl ''GraphQL operation kind is missing'' else if n = 1 then Inr DtoMutation
      else if n = 2 then Inr DtoQuery else if n = 3 then Inr DtoSubscription else Inl ''unknown GraphQL operation kind'')"

lemma operation_kind_wire_iff [wire_iff]: "operation_kind_from_wire n = Inr k \<longleftrightarrow> n = operation_kind_to_wire k"
  by (cases k) (simp_all add: operation_kind_from_wire_def)

lemma operation_kind_wire_inj [simp]: "operation_kind_to_wire k = operation_kind_to_wire l \<longleftrightarrow> k = l"
  using operation_kind_wire_iff by (metis sum.inject(2))


fun graphql_type_kind_to_wire :: "dto_graphql_type_kind \<Rightarrow> i32" where
  "graphql_type_kind_to_wire DtoEnum = 1"
| "graphql_type_kind_to_wire DtoInput = 2"
| "graphql_type_kind_to_wire DtoInterface = 3"
| "graphql_type_kind_to_wire DtoObject = 4"
| "graphql_type_kind_to_wire DtoScalar = 5"
| "graphql_type_kind_to_wire DtoUnion = 6"

definition graphql_type_kind_from_wire :: "i32 \<Rightarrow> string + dto_graphql_type_kind" where
  "graphql_type_kind_from_wire n =
     (if n = 0 then Inl ''GraphQL type kind is missing'' else if n = 1 then Inr DtoEnum else if n = 2 then Inr DtoInput
      else if n = 3 then Inr DtoInterface else if n = 4 then Inr DtoObject else if n = 5 then Inr DtoScalar
      else if n = 6 then Inr DtoUnion else Inl ''unknown GraphQL type kind'')"

lemma graphql_type_kind_wire_iff [wire_iff]: "graphql_type_kind_from_wire n = Inr k \<longleftrightarrow> n = graphql_type_kind_to_wire k"
  by (cases k) (simp_all add: graphql_type_kind_from_wire_def)

lemma graphql_type_kind_wire_inj [simp]: "graphql_type_kind_to_wire k = graphql_type_kind_to_wire l \<longleftrightarrow> k = l"
  using graphql_type_kind_wire_iff by (metis sum.inject(2))


fun proto_type_kind_to_wire :: "dto_proto_type_kind \<Rightarrow> i32" where
  "proto_type_kind_to_wire DtoProtoEnum = 1"
| "proto_type_kind_to_wire DtoProtoMessage = 2"

definition proto_type_kind_from_wire :: "i32 \<Rightarrow> string + dto_proto_type_kind" where
  "proto_type_kind_from_wire n =
     (if n = 0 then Inl ''Protobuf type kind is missing'' else if n = 1 then Inr DtoProtoEnum
      else if n = 2 then Inr DtoProtoMessage else Inl ''unknown Protobuf type kind'')"

lemma proto_type_kind_wire_iff [wire_iff]: "proto_type_kind_from_wire n = Inr k \<longleftrightarrow> n = proto_type_kind_to_wire k"
  by (cases k) (simp_all add: proto_type_kind_from_wire_def)

lemma proto_type_kind_wire_inj [simp]: "proto_type_kind_to_wire k = proto_type_kind_to_wire l \<longleftrightarrow> k = l"
  using proto_type_kind_wire_iff by (metis sum.inject(2))


fun rpc_cardinality_to_wire :: "dto_rpc_cardinality \<Rightarrow> i32" where
  "rpc_cardinality_to_wire DtoUnary = 1"
| "rpc_cardinality_to_wire DtoClientStreaming = 2"
| "rpc_cardinality_to_wire DtoServerStreaming = 3"
| "rpc_cardinality_to_wire DtoBidirectionalStreaming = 4"

definition rpc_cardinality_from_wire :: "i32 \<Rightarrow> string + dto_rpc_cardinality" where
  "rpc_cardinality_from_wire n =
     (if n = 0 then Inl ''RPC cardinality is missing'' else if n = 1 then Inr DtoUnary
      else if n = 2 then Inr DtoClientStreaming else if n = 3 then Inr DtoServerStreaming
      else if n = 4 then Inr DtoBidirectionalStreaming else Inl ''unknown RPC cardinality'')"

lemma rpc_cardinality_wire_iff [wire_iff]: "rpc_cardinality_from_wire n = Inr k \<longleftrightarrow> n = rpc_cardinality_to_wire k"
  by (cases k) (simp_all add: rpc_cardinality_from_wire_def)

lemma rpc_cardinality_wire_inj [simp]: "rpc_cardinality_to_wire k = rpc_cardinality_to_wire l \<longleftrightarrow> k = l"
  using rpc_cardinality_wire_iff by (metis sum.inject(2))


fun evidence_kind_to_wire :: "evidence_kind \<Rightarrow> i32" where
  "evidence_kind_to_wire EvUnknown = 0"
| "evidence_kind_to_wire EvAst = 1"
| "evidence_kind_to_wire EvConfiguration = 2"
| "evidence_kind_to_wire EvDescriptor = 3"
| "evidence_kind_to_wire EvGenerated = 4"
| "evidence_kind_to_wire EvInference = 5"
| "evidence_kind_to_wire EvCompiler = 6"

definition evidence_kind_from_wire :: "i32 \<Rightarrow> string + evidence_kind" where
  "evidence_kind_from_wire n =
     (if n = 0 then Inr EvUnknown else if n = 1 then Inr EvAst else if n = 2 then Inr EvConfiguration
      else if n = 3 then Inr EvDescriptor else if n = 4 then Inr EvGenerated else if n = 5 then Inr EvInference
      else if n = 6 then Inr EvCompiler else Inl ''unknown evidence kind'')"

lemma evidence_kind_wire_iff [wire_iff]: "evidence_kind_from_wire n = Inr k \<longleftrightarrow> n = evidence_kind_to_wire k"
  by (cases k) (simp_all add: evidence_kind_from_wire_def)

lemma evidence_kind_wire_inj [simp]: "evidence_kind_to_wire k = evidence_kind_to_wire l \<longleftrightarrow> k = l"
  using evidence_kind_wire_iff by (metis sum.inject(2))


fun condition_construct_to_wire :: "condition_construct \<Rightarrow> i32" where
  "condition_construct_to_wire If = 1"
| "condition_construct_to_wire Cond = 2"
| "condition_construct_to_wire Ternary = 3"
| "condition_construct_to_wire TemplateIf = 4"

definition condition_construct_from_wire :: "i32 \<Rightarrow> string + condition_construct" where
  "condition_construct_from_wire n =
     (if n = 0 then Inl ''condition construct is missing'' else if n = 1 then Inr If else if n = 2 then Inr Cond
      else if n = 3 then Inr Ternary else if n = 4 then Inr TemplateIf else Inl ''condition construct is unknown'')"

lemma condition_construct_wire_iff [wire_iff]: "condition_construct_from_wire n = Inr k \<longleftrightarrow> n = condition_construct_to_wire k"
  by (cases k) (simp_all add: condition_construct_from_wire_def)

lemma condition_construct_wire_inj [simp]: "condition_construct_to_wire k = condition_construct_to_wire l \<longleftrightarrow> k = l"
  using condition_construct_wire_iff by (metis sum.inject(2))


fun condition_arm_to_wire :: "condition_arm_kind \<Rightarrow> i32" where
  "condition_arm_to_wire Then = 1"
| "condition_arm_to_wire ElseIf = 2"
| "condition_arm_to_wire Else = 3"
| "condition_arm_to_wire Clause = 4"
| "condition_arm_to_wire Consequence = 5"
| "condition_arm_to_wire Alternative = 6"

definition condition_arm_from_wire :: "i32 \<Rightarrow> string + condition_arm_kind" where
  "condition_arm_from_wire n =
     (if n = 0 then Inl ''condition arm kind is missing'' else if n = 1 then Inr Then else if n = 2 then Inr ElseIf
      else if n = 3 then Inr Else else if n = 4 then Inr Clause else if n = 5 then Inr Consequence
      else if n = 6 then Inr Alternative else Inl ''condition arm kind is unknown'')"

lemma condition_arm_wire_iff [wire_iff]: "condition_arm_from_wire n = Inr k \<longleftrightarrow> n = condition_arm_to_wire k"
  by (cases k) (simp_all add: condition_arm_from_wire_def)

lemma condition_arm_wire_inj [simp]: "condition_arm_to_wire k = condition_arm_to_wire l \<longleftrightarrow> k = l"
  using condition_arm_wire_iff by (metis sum.inject(2))


fun pattern_construct_to_wire :: "pattern_construct \<Rightarrow> i32" where
  "pattern_construct_to_wire Match = 1"
| "pattern_construct_to_wire Case = 2"
| "pattern_construct_to_wire SwitchStatement = 3"
| "pattern_construct_to_wire SwitchExpression = 4"

definition pattern_construct_from_wire :: "i32 \<Rightarrow> string + pattern_construct" where
  "pattern_construct_from_wire n =
     (if n = 0 then Inl ''pattern construct is missing'' else if n = 1 then Inr Match else if n = 2 then Inr Case
      else if n = 3 then Inr SwitchStatement else if n = 4 then Inr SwitchExpression
      else Inl ''pattern construct is unknown'')"

lemma pattern_construct_wire_iff [wire_iff]: "pattern_construct_from_wire n = Inr k \<longleftrightarrow> n = pattern_construct_to_wire k"
  by (cases k) (simp_all add: pattern_construct_from_wire_def)

lemma pattern_construct_wire_inj [simp]: "pattern_construct_to_wire k = pattern_construct_to_wire l \<longleftrightarrow> k = l"
  using pattern_construct_wire_iff by (metis sum.inject(2))


fun clause_role_to_wire :: "callable_clause_role \<Rightarrow> i32" where
  "clause_role_to_wire Declaration = 1"
| "clause_role_to_wire Enclosing = 2"
| "clause_role_to_wire SelectedTarget = 3"

definition clause_role_from_wire :: "i32 \<Rightarrow> string + callable_clause_role" where
  "clause_role_from_wire n =
     (if n = 0 then Inl ''callable clause role is missing'' else if n = 1 then Inr Declaration
      else if n = 2 then Inr Enclosing else if n = 3 then Inr SelectedTarget else Inl ''callable clause role is unknown'')"

lemma clause_role_wire_iff [wire_iff]: "clause_role_from_wire n = Inr k \<longleftrightarrow> n = clause_role_to_wire k"
  by (cases k) (simp_all add: clause_role_from_wire_def)

lemma clause_role_wire_inj [simp]: "clause_role_to_wire k = clause_role_to_wire l \<longleftrightarrow> k = l"
  using clause_role_wire_iff by (metis sum.inject(2))


fun relation_kind_to_wire :: "relation_kind \<Rightarrow> i32" where
  "relation_kind_to_wire RkCalls = 1"
| "relation_kind_to_wire RkCallsRpc = 2"
| "relation_kind_to_wire RkConsumedBy = 3"
| "relation_kind_to_wire RkDefines = 4"
| "relation_kind_to_wire RkImplementedBy = 5"
| "relation_kind_to_wire RkPublishes = 6"
| "relation_kind_to_wire RkResolvedBy = 7"
| "relation_kind_to_wire RkSelects = 8"
| "relation_kind_to_wire RkUses = 9"
| "relation_kind_to_wire RkFieldOf = 10"
| "relation_kind_to_wire RkRequestType = 11"
| "relation_kind_to_wire RkResponseType = 12"
| "relation_kind_to_wire RkImports = 13"
| "relation_kind_to_wire RkRequires = 14"
| "relation_kind_to_wire RkImplements = 15"
| "relation_kind_to_wire RkBindsContract = 16"
| "relation_kind_to_wire RkCallsGraphql = 17"

definition relation_kind_from_wire :: "i32 \<Rightarrow> string + relation_kind" where
  "relation_kind_from_wire n =
     (if n = 0 then Inl ''relation kind is missing'' else if n = 1 then Inr RkCalls else if n = 2 then Inr RkCallsRpc
      else if n = 3 then Inr RkConsumedBy else if n = 4 then Inr RkDefines else if n = 5 then Inr RkImplementedBy
      else if n = 6 then Inr RkPublishes else if n = 7 then Inr RkResolvedBy else if n = 8 then Inr RkSelects
      else if n = 9 then Inr RkUses else if n = 10 then Inr RkFieldOf else if n = 11 then Inr RkRequestType
      else if n = 12 then Inr RkResponseType else if n = 13 then Inr RkImports else if n = 14 then Inr RkRequires
      else if n = 15 then Inr RkImplements else if n = 16 then Inr RkBindsContract else if n = 17 then Inr RkCallsGraphql
      else Inl ''unknown relation kind'')"

lemma relation_kind_wire_iff [wire_iff]: "relation_kind_from_wire n = Inr k \<longleftrightarrow> n = relation_kind_to_wire k"
  by (cases k) (simp_all add: relation_kind_from_wire_def)

lemma relation_kind_wire_inj [simp]: "relation_kind_to_wire k = relation_kind_to_wire l \<longleftrightarrow> k = l"
  using relation_kind_wire_iff by (metis sum.inject(2))


fun graph_direction_to_wire :: "graph_direction \<Rightarrow> i32" where
  "graph_direction_to_wire Dependencies = 1"
| "graph_direction_to_wire Dependents = 2"

definition graph_direction_from_wire :: "i32 \<Rightarrow> string + graph_direction" where
  "graph_direction_from_wire n =
     (if n = 0 then Inl ''invalid GraphDirection'' else if n = 1 then Inr Dependencies else if n = 2 then Inr Dependents
      else Inl ''invalid graph direction'')"

lemma graph_direction_wire_iff [wire_iff]: "graph_direction_from_wire n = Inr k \<longleftrightarrow> n = graph_direction_to_wire k"
  by (cases k) (simp_all add: graph_direction_from_wire_def)

lemma graph_direction_wire_inj [simp]: "graph_direction_to_wire k = graph_direction_to_wire l \<longleftrightarrow> k = l"
  using graph_direction_wire_iff by (metis sum.inject(2))


fun path_termination_to_wire :: "path_termination \<Rightarrow> i32" where
  "path_termination_to_wire Destination = 1"
| "path_termination_to_wire Leaf = 2"
| "path_termination_to_wire Cycle = 3"
| "path_termination_to_wire MaxHops = 4"
| "path_termination_to_wire RepositoryBoundary = 5"

definition path_termination_from_wire :: "i32 \<Rightarrow> string + path_termination" where
  "path_termination_from_wire n =
     (if n = 0 then Inl ''invalid PathTermination'' else if n = 1 then Inr Destination else if n = 2 then Inr Leaf
      else if n = 3 then Inr Cycle else if n = 4 then Inr MaxHops else if n = 5 then Inr RepositoryBoundary
      else Inl ''invalid path termination'')"

lemma path_termination_wire_iff [wire_iff]: "path_termination_from_wire n = Inr k \<longleftrightarrow> n = path_termination_to_wire k"
  by (cases k) (simp_all add: path_termination_from_wire_def)

lemma path_termination_wire_inj [simp]: "path_termination_to_wire k = path_termination_to_wire l \<longleftrightarrow> k = l"
  using path_termination_wire_iff by (metis sum.inject(2))


fun truncation_reason_to_wire :: "truncation_reason \<Rightarrow> i32" where
  "truncation_reason_to_wire TrMaxHops = 1"
| "truncation_reason_to_wire TrMaxPaths = 2"
| "truncation_reason_to_wire TrAcquisitionLimit = 3"
| "truncation_reason_to_wire TrWorkLimit = 4"

definition truncation_reason_from_wire :: "i32 \<Rightarrow> string + truncation_reason" where
  "truncation_reason_from_wire n =
     (if n = 0 then Inl ''invalid TruncationReason'' else if n = 1 then Inr TrMaxHops else if n = 2 then Inr TrMaxPaths
      else if n = 3 then Inr TrAcquisitionLimit else if n = 4 then Inr TrWorkLimit else Inl ''invalid truncation reason'')"

lemma truncation_reason_wire_iff [wire_iff]: "truncation_reason_from_wire n = Inr k \<longleftrightarrow> n = truncation_reason_to_wire k"
  by (cases k) (simp_all add: truncation_reason_from_wire_def)

lemma truncation_reason_wire_inj [simp]: "truncation_reason_to_wire k = truncation_reason_to_wire l \<longleftrightarrow> k = l"
  using truncation_reason_wire_iff by (metis sum.inject(2))


section \<open>Metadata\<close>

record wire_diagnostic =
  wd_code :: string
  wd_severity :: i32
  wd_repository :: string
  wd_path :: string
  wd_line :: "u32 option"
  wd_detail :: "string option"

record wire_query_metadata =
  wm_revision :: u64
  wm_view :: string
  wm_freshness :: "freshness option"
  wm_completeness :: i32
  wm_diagnostics :: "wire_diagnostic list"
  wm_diagnostic_counts :: "diagnostic_counts option"

definition diagnostic_to_wire :: "dto_diagnostic \<Rightarrow> wire_diagnostic" where
  "diagnostic_to_wire d =
     \<lparr>wd_code = dd_code d, wd_severity = diagnostic_severity_to_wire (dd_severity d), wd_repository = dd_repository d,
      wd_path = utf8_lossy (dd_path d), wd_line = dd_line d, wd_detail = dd_detail d\<rparr>"

definition diagnostic_from_wire :: "wire_diagnostic \<Rightarrow> string + dto_diagnostic" where
  "diagnostic_from_wire m =
     rbind (diagnostic_severity_from_wire (wd_severity m)) (\<lambda>severity.
       Inr \<lparr>dd_code = wd_code m, dd_severity = severity, dd_repository = wd_repository m, dd_path = wd_path m,
            dd_line = wd_line m, dd_detail = wd_detail m\<rparr>)"

definition counts_of :: "dto_diagnostic list \<Rightarrow> diagnostic_counts" where
  "counts_of diagnostics =
     \<lparr>dn_total = length diagnostics,
      dn_known_limitations = length (filter (\<lambda>d. dd_severity d = DtoKnownLimitation) diagnostics),
      dn_warnings = length (filter (\<lambda>d. dd_severity d = DtoWarning) diagnostics)\<rparr>"

definition metadata_to_wire :: "query_metadata \<Rightarrow> wire_query_metadata" where
  "metadata_to_wire q =
     \<lparr>wm_revision = qm_revision q, wm_view = qm_view q, wm_freshness = Some (qm_freshness q),
      wm_completeness = completeness_to_wire (am_completeness (qm_analysis q)),
      wm_diagnostics = map diagnostic_to_wire (am_diagnostics (qm_analysis q)),
      wm_diagnostic_counts = Some (am_diagnostic_counts (qm_analysis q))\<rparr>"

definition metadata_from_wire :: "wire_query_metadata \<Rightarrow> string + query_metadata" where
  "metadata_from_wire m =
     rbind (try_map diagnostic_from_wire (wm_diagnostics m)) (\<lambda>diagnostics.
     rbind (ok_or (wm_freshness m) ''query freshness is missing'') (\<lambda>freshness.
     rbind (completeness_from_wire (wm_completeness m)) (\<lambda>completeness.
       Inr \<lparr>qm_revision = wm_revision m, qm_view = wm_view m, qm_freshness = freshness,
            qm_analysis = \<lparr>am_completeness = completeness,
              am_diagnostic_counts = (case wm_diagnostic_counts m of Some counts \<Rightarrow> counts | None \<Rightarrow> counts_of diagnostics),
              am_diagnostics = diagnostics\<rparr>\<rparr>)))"

section \<open>Entities\<close>

datatype wire_metadata = WireProtoTypeKind i32 | WireRpcCardinality i32 | WireGraphqlTypeKind i32 | WireGraphqlOperationKind i32

text \<open>The message of the metadata holds one optional \<open>oneof\<close>, and is here that option.\<close>

type_synonym wire_entity_metadata = "wire_metadata option"

fun entity_metadata_to_wire :: "dto_entity_metadata \<Rightarrow> wire_entity_metadata" where
  "entity_metadata_to_wire (DtoGraphqlOperation kind) = Some (WireGraphqlOperationKind (operation_kind_to_wire kind))"
| "entity_metadata_to_wire (DtoGraphqlType kind) = Some (WireGraphqlTypeKind (graphql_type_kind_to_wire kind))"
| "entity_metadata_to_wire (DtoProtoType kind) = Some (WireProtoTypeKind (proto_type_kind_to_wire kind))"
| "entity_metadata_to_wire (DtoProtoMethod cardinality) = Some (WireRpcCardinality (rpc_cardinality_to_wire cardinality))"

fun entity_metadata_from_wire :: "wire_entity_metadata \<Rightarrow> string + dto_entity_metadata" where
  "entity_metadata_from_wire None = Inl ''entity metadata is missing''"
| "entity_metadata_from_wire (Some (WireGraphqlOperationKind n)) = rbind (operation_kind_from_wire n) (\<lambda>k. Inr (DtoGraphqlOperation k))"
| "entity_metadata_from_wire (Some (WireGraphqlTypeKind n)) = rbind (graphql_type_kind_from_wire n) (\<lambda>k. Inr (DtoGraphqlType k))"
| "entity_metadata_from_wire (Some (WireProtoTypeKind n)) = rbind (proto_type_kind_from_wire n) (\<lambda>k. Inr (DtoProtoType k))"
| "entity_metadata_from_wire (Some (WireRpcCardinality n)) = rbind (rpc_cardinality_from_wire n) (\<lambda>c. Inr (DtoProtoMethod c))"

record wire_entity =
  we_id :: string
  we_kind :: i32
  we_name :: string
  we_repository :: "string option"
  we_origin :: i32
  we_test :: bool
  we_metadata :: "wire_entity_metadata option"

definition entity_to_wire :: "entity_ref \<Rightarrow> wire_entity" where
  "entity_to_wire e =
     \<lparr>we_id = er_id e, we_kind = entity_kind_to_wire (er_kind e), we_name = er_name e, we_repository = er_repository e,
      we_origin = entity_origin_to_wire (er_origin e), we_test = er_test e,
      we_metadata = map_option entity_metadata_to_wire (er_metadata e)\<rparr>"

definition entity_from_wire :: "wire_entity \<Rightarrow> string + entity_ref" where
  "entity_from_wire m =
     rbind (entity_kind_from_wire (we_kind m)) (\<lambda>kind.
     rbind (entity_origin_from_wire (we_origin m)) (\<lambda>origin.
     rbind (try_option entity_metadata_from_wire (we_metadata m)) (\<lambda>metadata.
       Inr \<lparr>er_id = we_id m, er_kind = kind, er_name = we_name m, er_repository = we_repository m, er_origin = origin,
            er_test = we_test m, er_metadata = metadata\<rparr>)))"

section \<open>Evidence\<close>

record wire_source_range =
  wr_start :: "source_position option"
  wr_end :: "source_position option"

record wire_excerpt =
  wx_text :: string
  wx_range :: "wire_source_range option"

datatype wire_context =
    WireConditionArm i32 i32 "wire_excerpt option" "wire_source_range option"
  | WirePatternArm i32 "wire_excerpt option" "wire_excerpt option" "wire_excerpt option" bool "wire_source_range option"
  | WireCallableClause i32 "wire_excerpt option" "wire_excerpt option" "wire_source_range option"

type_synonym wire_evidence_context = "wire_context option"

definition range_to_wire :: "source_range \<Rightarrow> wire_source_range" where
  "range_to_wire r = \<lparr>wr_start = Some (sr_start r), wr_end = Some (sr_end r)\<rparr>"

definition range_from_wire :: "wire_source_range \<Rightarrow> string + source_range" where
  "range_from_wire m =
     rbind (ok_or (wr_start m) ''source range start is missing'') (\<lambda>start.
     rbind (ok_or (wr_end m) ''source range end is missing'') (\<lambda>end.
       if start \<le> end then Inr \<lparr>sr_start = start, sr_end = end\<rparr> else Inl ''source range end precedes its start''))"

definition excerpt_to_wire :: "source_excerpt \<Rightarrow> wire_excerpt" where
  "excerpt_to_wire x = \<lparr>wx_text = sx_text x, wx_range = Some (range_to_wire (sx_range x))\<rparr>"

definition excerpt_from_wire :: "wire_excerpt \<Rightarrow> string + source_excerpt" where
  "excerpt_from_wire m =
     rbind (ok_or (wx_range m) ''source excerpt range is missing'') (\<lambda>message.
     rbind (range_from_wire message) (\<lambda>range. Inr \<lparr>sx_text = wx_text m, sx_range = range\<rparr>))"

fun context_to_wire :: "evidence_context \<Rightarrow> wire_evidence_context" where
  "context_to_wire (ConditionArm form arm condition arm_range) =
     Some (WireConditionArm (condition_construct_to_wire form) (condition_arm_to_wire arm)
       (map_option excerpt_to_wire condition) (Some (range_to_wire arm_range)))"
| "context_to_wire (PatternArm form selector pattern guard is_default arm_range) =
     Some (WirePatternArm (pattern_construct_to_wire form) (map_option excerpt_to_wire selector)
       (map_option excerpt_to_wire pattern) (map_option excerpt_to_wire guard) is_default (Some (range_to_wire arm_range)))"
| "context_to_wire (CallableClause role signature guard definition_range) =
     Some (WireCallableClause (clause_role_to_wire role) (Some (excerpt_to_wire signature))
       (map_option excerpt_to_wire guard) (Some (range_to_wire definition_range)))"

fun context_from_wire :: "wire_evidence_context \<Rightarrow> string + evidence_context" where
  "context_from_wire None = Inl ''evidence context kind is missing''"
| "context_from_wire (Some (WireConditionArm form arm condition arm_range)) =
     rbind (condition_construct_from_wire form) (\<lambda>form.
     rbind (condition_arm_from_wire arm) (\<lambda>arm.
     rbind (try_option excerpt_from_wire condition) (\<lambda>condition.
     rbind (ok_or arm_range ''condition arm range is missing'') (\<lambda>message.
     rbind (range_from_wire message) (\<lambda>arm_range. Inr (ConditionArm form arm condition arm_range))))))"
| "context_from_wire (Some (WirePatternArm form selector pattern guard is_default arm_range)) =
     rbind (pattern_construct_from_wire form) (\<lambda>form.
     rbind (try_option excerpt_from_wire selector) (\<lambda>selector.
     rbind (try_option excerpt_from_wire pattern) (\<lambda>pattern.
     rbind (try_option excerpt_from_wire guard) (\<lambda>guard.
     rbind (ok_or arm_range ''pattern arm range is missing'') (\<lambda>message.
     rbind (range_from_wire message) (\<lambda>arm_range. Inr (PatternArm form selector pattern guard is_default arm_range)))))))"
| "context_from_wire (Some (WireCallableClause role signature guard definition_range)) =
     rbind (clause_role_from_wire role) (\<lambda>role.
     rbind (ok_or signature ''callable clause signature is missing'') (\<lambda>message.
     rbind (excerpt_from_wire message) (\<lambda>signature.
     rbind (try_option excerpt_from_wire guard) (\<lambda>guard.
     rbind (ok_or definition_range ''callable clause definition range is missing'') (\<lambda>message.
     rbind (range_from_wire message) (\<lambda>definition_range. Inr (CallableClause role signature guard definition_range)))))))"

record wire_evidence =
  wv_source :: i32
  wv_repository :: "string option"
  wv_path :: "string option"
  wv_line :: "u32 option"
  wv_detail :: "string option"
  wv_range :: "wire_source_range option"
  wv_contexts :: "wire_evidence_context list"

definition evidence_to_wire :: "evidence_ref \<Rightarrow> wire_evidence" where
  "evidence_to_wire e =
     \<lparr>wv_source = evidence_kind_to_wire (ev_source_kind e), wv_repository = ev_repository e, wv_path = ev_path e,
      wv_line = ev_line e, wv_detail = ev_detail e, wv_range = map_option range_to_wire (ev_range e),
      wv_contexts = map context_to_wire (ev_contexts e)\<rparr>"

definition evidence_from_wire :: "wire_evidence \<Rightarrow> string + evidence_ref" where
  "evidence_from_wire m =
     rbind (evidence_kind_from_wire (wv_source m)) (\<lambda>kind.
     rbind (try_option range_from_wire (wv_range m)) (\<lambda>range.
     rbind (try_map context_from_wire (wv_contexts m)) (\<lambda>contexts.
       Inr \<lparr>ev_source_kind = kind, ev_repository = wv_repository m, ev_path = wv_path m, ev_line = wv_line m,
            ev_range = range, ev_detail = wv_detail m, ev_contexts = contexts\<rparr>)))"

record wire_edge =
  wg_id :: string
  wg_from :: string
  wg_to :: string
  wg_kind :: i32
  wg_confidence :: f32
  wg_evidence :: "wire_evidence list"

definition edge_to_wire :: "semantic_edge \<Rightarrow> wire_edge" where
  "edge_to_wire e =
     \<lparr>wg_id = se_id e, wg_from = se_from e, wg_to = se_to e, wg_kind = relation_kind_to_wire (se_kind e),
      wg_confidence = se_confidence e, wg_evidence = map evidence_to_wire (se_evidence e)\<rparr>"

definition edge_from_wire :: "wire_edge \<Rightarrow> string + semantic_edge" where
  "edge_from_wire m =
     rbind (relation_kind_from_wire (wg_kind m)) (\<lambda>kind.
     rbind (try_map evidence_from_wire (wg_evidence m)) (\<lambda>evidence.
       Inr \<lparr>se_id = wg_id m, se_from = wg_from m, se_to = wg_to m, se_kind = kind, se_confidence = wg_confidence m,
            se_evidence = evidence\<rparr>))"

text \<open>What is read is what was written: an ordered range, an evidence whose ranges are.\<close>

lemma range_wire_iff [wire_iff]: "range_from_wire m = Inr r \<longleftrightarrow> range_is_valid r \<and> m = range_to_wire r"
  by (cases m; cases r) (auto simp: range_from_wire_def range_to_wire_def range_is_valid_def rbind_Inr_iff ok_or_Inr_eq)

lemma excerpt_wire_iff [wire_iff]:
  "excerpt_from_wire m = Inr x \<longleftrightarrow> range_is_valid (sx_range x) \<and> m = excerpt_to_wire x"
  by (cases m; cases x) (auto simp: excerpt_from_wire_def excerpt_to_wire_def rbind_Inr_iff ok_or_Inr_eq range_wire_iff)

lemma excerpt_option_wire_iff [wire_iff]:
  "try_option excerpt_from_wire m = Inr x \<longleftrightarrow> excerpt_is_valid x \<and> m = map_option excerpt_to_wire x"
  by (cases m; cases x) (auto simp: rbind_Inr_iff excerpt_wire_iff excerpt_is_valid_def)

lemma context_wire_iff [wire_iff]: "context_from_wire m = Inr c \<longleftrightarrow> context_is_valid c \<and> m = context_to_wire c"
  by (cases m rule: context_from_wire.cases; cases c) (auto simp: rbind_Inr_iff ok_or_Inr_eq wire_iff)

definition evidence_ordered :: "evidence_ref \<Rightarrow> bool" where
  "evidence_ordered e \<longleftrightarrow> pred_option range_is_valid (ev_range e) \<and> list_all context_is_valid (ev_contexts e)"

definition edge_ordered :: "semantic_edge \<Rightarrow> bool" where
  "edge_ordered e \<longleftrightarrow> list_all evidence_ordered (se_evidence e)"

lemma evidence_wire_iff [wire_iff]: "evidence_from_wire m = Inr e \<longleftrightarrow> evidence_ordered e \<and> m = evidence_to_wire e"
  by (cases m; cases e) (auto simp: evidence_from_wire_def evidence_to_wire_def evidence_ordered_def rbind_Inr_iff wire_iff
      try_option_iff [OF range_wire_iff] try_map_iff [OF context_wire_iff])

lemma edge_wire_iff [wire_iff]: "edge_from_wire m = Inr e \<longleftrightarrow> edge_ordered e \<and> m = edge_to_wire e"
  by (cases m; cases e) (auto simp: edge_from_wire_def edge_to_wire_def edge_ordered_def rbind_Inr_iff wire_iff try_map_iff [OF evidence_wire_iff])

lemma entity_metadata_wire_iff [wire_iff]: "entity_metadata_from_wire m = Inr x \<longleftrightarrow> m = entity_metadata_to_wire x"
  by (cases m rule: entity_metadata_from_wire.cases; cases x) (auto simp: rbind_Inr_iff wire_iff)

lemma entity_wire_iff [wire_iff]: "entity_from_wire m = Inr e \<longleftrightarrow> m = entity_to_wire e"
proof -
  have "try_option entity_metadata_from_wire m = Inr x \<longleftrightarrow> m = map_option entity_metadata_to_wire x" for m x
    using try_option_iff [of entity_metadata_from_wire "\<lambda>_. True" entity_metadata_to_wire m x] entity_metadata_wire_iff
    by (simp add: option.pred_True)
  then show ?thesis by (cases m; cases e) (auto simp: entity_from_wire_def entity_to_wire_def rbind_Inr_iff wire_iff)
qed

section \<open>Results\<close>

record wire_search =
  wsr_schema :: string
  wsr_metadata :: "wire_query_metadata option"
  wsr_query :: "entity_search_query option"
  wsr_matches :: "wire_entity list"

record wire_topology =
  wtp_schema :: string
  wtp_metadata :: "wire_query_metadata option"
  wtp_nodes :: "wire_entity list"
  wtp_edges :: "wire_edge list"

record wire_context_response =
  wcr_schema :: string
  wcr_metadata :: "wire_query_metadata option"
  wcr_query :: "entity_query option"
  wcr_root :: "wire_entity option"
  wcr_nodes :: "wire_entity list"
  wcr_edges :: "wire_edge list"

record wire_dependencies =
  wdp_schema :: string
  wdp_metadata :: "wire_query_metadata option"
  wdp_query :: "entity_query option"
  wdp_root :: "wire_entity option"
  wdp_dependencies :: "dependency_ref list"
  wdp_nodes :: "wire_entity list"
  wdp_edges :: "wire_edge list"
  wdp_traversal :: "traversal_metadata option"

record wire_impact =
  wip_schema :: string
  wip_metadata :: "wire_query_metadata option"
  wip_query :: "entity_query option"
  wip_root :: "wire_entity option"
  wip_affected :: "impact_ref list"
  wip_nodes :: "wire_entity list"
  wip_edges :: "wire_edge list"
  wip_traversal :: "traversal_metadata option"

text \<open>The responses to trace and why have the same fields.\<close>

record wire_paths_response =
  wpr_schema :: string
  wpr_metadata :: "wire_query_metadata option"
  wpr_query :: "path_query option"
  wpr_nodes :: "wire_entity list"
  wpr_edges :: "wire_edge list"
  wpr_paths :: "semantic_path list"
  wpr_traversal :: "traversal_metadata option"

definition search_to_wire :: "entity_search_result \<Rightarrow> wire_search" where
  "search_to_wire r =
     \<lparr>wsr_schema = esr_schema r, wsr_metadata = Some (metadata_to_wire (esr_metadata r)), wsr_query = Some (esr_query r),
      wsr_matches = map entity_to_wire (esr_matches r)\<rparr>"

definition search_from_wire :: "wire_search \<Rightarrow> string + entity_search_result" where
  "search_from_wire m =
     rbind (ok_or (wsr_metadata m) ''entity search metadata is missing'') (\<lambda>message.
     rbind (metadata_from_wire message) (\<lambda>metadata.
     rbind (ok_or (wsr_query m) ''entity search query is missing'') (\<lambda>query.
     rbind (try_map entity_from_wire (wsr_matches m)) (\<lambda>matches.
       Inr \<lparr>esr_schema = wsr_schema m, esr_metadata = metadata, esr_query = query, esr_matches = matches\<rparr>))))"

definition topology_to_wire :: "topology_result \<Rightarrow> wire_topology" where
  "topology_to_wire r =
     \<lparr>wtp_schema = top_schema r, wtp_metadata = Some (metadata_to_wire (top_metadata r)),
      wtp_nodes = map entity_to_wire (top_nodes r), wtp_edges = map edge_to_wire (top_edges r)\<rparr>"

definition topology_from_wire :: "wire_topology \<Rightarrow> string + topology_result" where
  "topology_from_wire m =
     rbind (ok_or (wtp_metadata m) ''topology metadata is missing'') (\<lambda>message.
     rbind (metadata_from_wire message) (\<lambda>metadata.
     rbind (try_map entity_from_wire (wtp_nodes m)) (\<lambda>nodes.
     rbind (try_map edge_from_wire (wtp_edges m)) (\<lambda>edges.
       Inr \<lparr>top_schema = wtp_schema m, top_metadata = metadata, top_nodes = nodes, top_edges = edges\<rparr>))))"

definition context_result_to_wire :: "context_result \<Rightarrow> wire_context_response" where
  "context_result_to_wire r =
     \<lparr>wcr_schema = cr_schema r, wcr_metadata = Some (metadata_to_wire (cr_metadata r)), wcr_query = Some (cr_query r),
      wcr_root = Some (entity_to_wire (cr_root r)), wcr_nodes = map entity_to_wire (cr_nodes r),
      wcr_edges = map edge_to_wire (cr_edges r)\<rparr>"

definition context_result_from_wire :: "wire_context_response \<Rightarrow> string + context_result" where
  "context_result_from_wire m =
     rbind (ok_or (wcr_metadata m) ''context metadata is missing'') (\<lambda>message.
     rbind (metadata_from_wire message) (\<lambda>metadata.
     rbind (ok_or (wcr_query m) ''context query is missing'') (\<lambda>query.
     rbind (ok_or (wcr_root m) ''context root is missing'') (\<lambda>message.
     rbind (entity_from_wire message) (\<lambda>root.
     rbind (try_map entity_from_wire (wcr_nodes m)) (\<lambda>nodes.
     rbind (try_map edge_from_wire (wcr_edges m)) (\<lambda>edges.
       Inr \<lparr>cr_schema = wcr_schema m, cr_metadata = metadata, cr_query = query, cr_root = root, cr_nodes = nodes,
            cr_edges = edges\<rparr>)))))))"

definition dependencies_to_wire :: "dependencies_result \<Rightarrow> wire_dependencies" where
  "dependencies_to_wire r =
     \<lparr>wdp_schema = ds_schema r, wdp_metadata = Some (metadata_to_wire (ds_metadata r)), wdp_query = Some (ds_query r),
      wdp_root = Some (entity_to_wire (ds_root r)), wdp_dependencies = ds_dependencies r,
      wdp_nodes = map entity_to_wire (ds_nodes r), wdp_edges = map edge_to_wire (ds_edges r),
      wdp_traversal = Some (ds_traversal r)\<rparr>"

definition dependencies_from_wire :: "wire_dependencies \<Rightarrow> string + dependencies_result" where
  "dependencies_from_wire m =
     rbind (ok_or (wdp_metadata m) ''dependencies metadata is missing'') (\<lambda>message.
     rbind (metadata_from_wire message) (\<lambda>metadata.
     rbind (ok_or (wdp_query m) ''dependencies query is missing'') (\<lambda>query.
     rbind (ok_or (wdp_traversal m) ''dependencies traversal metadata is missing'') (\<lambda>traversal.
     rbind (ok_or (wdp_root m) ''dependencies root is missing'') (\<lambda>message.
     rbind (entity_from_wire message) (\<lambda>root.
     rbind (try_map entity_from_wire (wdp_nodes m)) (\<lambda>nodes.
     rbind (try_map edge_from_wire (wdp_edges m)) (\<lambda>edges.
       Inr \<lparr>ds_schema = wdp_schema m, ds_metadata = metadata, ds_query = query, ds_traversal = traversal, ds_root = root,
            ds_dependencies = wdp_dependencies m, ds_nodes = nodes, ds_edges = edges\<rparr>))))))))"

definition impact_to_wire :: "impact_result \<Rightarrow> wire_impact" where
  "impact_to_wire r =
     \<lparr>wip_schema = im_schema r, wip_metadata = Some (metadata_to_wire (im_metadata r)), wip_query = Some (im_query r),
      wip_root = Some (entity_to_wire (im_root r)), wip_affected = im_affected r,
      wip_nodes = map entity_to_wire (im_nodes r), wip_edges = map edge_to_wire (im_edges r),
      wip_traversal = Some (im_traversal r)\<rparr>"

definition impact_from_wire :: "wire_impact \<Rightarrow> string + impact_result" where
  "impact_from_wire m =
     rbind (ok_or (wip_metadata m) ''impact metadata is missing'') (\<lambda>message.
     rbind (metadata_from_wire message) (\<lambda>metadata.
     rbind (ok_or (wip_query m) ''impact query is missing'') (\<lambda>query.
     rbind (ok_or (wip_traversal m) ''impact traversal metadata is missing'') (\<lambda>traversal.
     rbind (ok_or (wip_root m) ''impact root is missing'') (\<lambda>message.
     rbind (entity_from_wire message) (\<lambda>root.
     rbind (try_map entity_from_wire (wip_nodes m)) (\<lambda>nodes.
     rbind (try_map edge_from_wire (wip_edges m)) (\<lambda>edges.
       Inr \<lparr>im_schema = wip_schema m, im_metadata = metadata, im_query = query, im_traversal = traversal, im_root = root,
            im_affected = wip_affected m, im_nodes = nodes, im_edges = edges\<rparr>))))))))"

definition trace_to_wire :: "trace_result \<Rightarrow> wire_paths_response" where
  "trace_to_wire r =
     \<lparr>wpr_schema = tr_schema r, wpr_metadata = Some (metadata_to_wire (tr_metadata r)), wpr_query = Some (tr_query r),
      wpr_nodes = map entity_to_wire (tr_nodes r), wpr_edges = map edge_to_wire (tr_edges r), wpr_paths = tr_paths r,
      wpr_traversal = Some (tr_traversal r)\<rparr>"

definition trace_from_wire :: "wire_paths_response \<Rightarrow> string + trace_result" where
  "trace_from_wire m =
     rbind (ok_or (wpr_metadata m) ''trace metadata is missing'') (\<lambda>message.
     rbind (metadata_from_wire message) (\<lambda>metadata.
     rbind (ok_or (wpr_query m) ''trace query is missing'') (\<lambda>query.
     rbind (ok_or (wpr_traversal m) ''trace traversal metadata is missing'') (\<lambda>traversal.
     rbind (try_map entity_from_wire (wpr_nodes m)) (\<lambda>nodes.
     rbind (try_map edge_from_wire (wpr_edges m)) (\<lambda>edges.
       Inr \<lparr>tr_schema = wpr_schema m, tr_metadata = metadata, tr_query = query, tr_traversal = traversal, tr_nodes = nodes,
            tr_edges = edges, tr_paths = wpr_paths m\<rparr>))))))"

definition why_to_wire :: "why_result \<Rightarrow> wire_paths_response" where
  "why_to_wire r =
     \<lparr>wpr_schema = wh_schema r, wpr_metadata = Some (metadata_to_wire (wh_metadata r)), wpr_query = Some (wh_query r),
      wpr_nodes = map entity_to_wire (wh_nodes r), wpr_edges = map edge_to_wire (wh_edges r), wpr_paths = wh_paths r,
      wpr_traversal = Some (wh_traversal r)\<rparr>"

definition why_from_wire :: "wire_paths_response \<Rightarrow> string + why_result" where
  "why_from_wire m =
     rbind (ok_or (wpr_metadata m) ''why metadata is missing'') (\<lambda>message.
     rbind (metadata_from_wire message) (\<lambda>metadata.
     rbind (ok_or (wpr_query m) ''why query is missing'') (\<lambda>query.
     rbind (ok_or (wpr_traversal m) ''why traversal metadata is missing'') (\<lambda>traversal.
     rbind (try_map entity_from_wire (wpr_nodes m)) (\<lambda>nodes.
     rbind (try_map edge_from_wire (wpr_edges m)) (\<lambda>edges.
       Inr \<lparr>wh_schema = wpr_schema m, wh_metadata = metadata, wh_query = query, wh_traversal = traversal, wh_nodes = nodes,
            wh_edges = edges, wh_paths = wpr_paths m\<rparr>))))))"

section \<open>Traversals\<close>

record wire_traverse_query =
  wtq_start :: string
  wtq_direction :: i32
  wtq_destination :: "string option"
  wtq_max_hops :: u32
  wtq_max_paths :: u32
  wtq_target_repositories :: "string list"

record wire_traverse_request =
  wtr_start :: string
  wtr_direction :: i32
  wtr_destination :: "string option"
  wtr_max_hops :: "u32 option"
  wtr_max_paths :: "u32 option"
  wtr_target_repositories :: "string list"

record wire_traversal_path =
  wtv_nodes :: "string list"
  wtv_edges :: "string list"
  wtv_termination :: i32

record wire_graph_traversal =
  wgt_max_hops :: u32
  wgt_max_paths :: u32
  wgt_max_rows :: u32
  wgt_max_steps :: u32
  wgt_truncated :: bool
  wgt_truncation_reasons :: "i32 list"
  wgt_acquisition_timeout_ms :: u32

record wire_traverse_response =
  wtg_schema :: string
  wtg_metadata :: "wire_query_metadata option"
  wtg_query :: "wire_traverse_query option"
  wtg_nodes :: "wire_entity list"
  wtg_edges :: "wire_edge list"
  wtg_paths :: "wire_traversal_path list"
  wtg_traversal :: "wire_graph_traversal option"

definition traverse_query_to_wire :: "traverse_graph_query \<Rightarrow> wire_traverse_query" where
  "traverse_query_to_wire q =
     \<lparr>wtq_start = tq_start q, wtq_direction = graph_direction_to_wire (tq_direction q), wtq_destination = tq_destination q,
      wtq_max_hops = tq_max_hops q, wtq_max_paths = tq_max_paths q, wtq_target_repositories = tq_target_repositories q\<rparr>"

definition traverse_query_from_wire :: "wire_traverse_query \<Rightarrow> string + traverse_graph_query" where
  "traverse_query_from_wire m =
     rbind (graph_direction_from_wire (wtq_direction m)) (\<lambda>direction.
       let query = traverse_normalize
             \<lparr>tq_start = wtq_start m, tq_direction = direction, tq_destination = wtq_destination m,
              tq_target_repositories = wtq_target_repositories m, tq_max_hops = wtq_max_hops m, tq_max_paths = wtq_max_paths m\<rparr>
       in rbind (traverse_validate query) (\<lambda>_. Inr query))"

definition traverse_request_from_wire :: "wire_traverse_request \<Rightarrow> string + traverse_graph_query" where
  "traverse_request_from_wire m =
     traverse_query_from_wire
       \<lparr>wtq_start = wtr_start m, wtq_direction = wtr_direction m, wtq_destination = wtr_destination m,
        wtq_max_hops = (case wtr_max_hops m of Some hops \<Rightarrow> hops | None \<Rightarrow> DEFAULT_TRAVERSAL_HOPS),
        wtq_max_paths = (case wtr_max_paths m of Some paths \<Rightarrow> paths | None \<Rightarrow> DEFAULT_MAX_PATHS),
        wtq_target_repositories = wtr_target_repositories m\<rparr>"

definition traversal_path_to_wire :: "traversal_path \<Rightarrow> wire_traversal_path" where
  "traversal_path_to_wire p =
     \<lparr>wtv_nodes = tp_nodes p, wtv_edges = tp_edges p, wtv_termination = path_termination_to_wire (tp_termination p)\<rparr>"

definition traversal_path_from_wire :: "wire_traversal_path \<Rightarrow> string + traversal_path" where
  "traversal_path_from_wire m =
     rbind (path_termination_from_wire (wtv_termination m)) (\<lambda>termination.
       Inr \<lparr>tp_nodes = wtv_nodes m, tp_edges = wtv_edges m, tp_termination = termination\<rparr>)"

definition graph_traversal_to_wire :: "graph_traversal_metadata \<Rightarrow> wire_graph_traversal" where
  "graph_traversal_to_wire t =
     \<lparr>wgt_max_hops = gm_max_hops t, wgt_max_paths = gm_max_paths t, wgt_max_rows = gm_max_rows t, wgt_max_steps = gm_max_steps t,
      wgt_truncated = gm_truncated t, wgt_truncation_reasons = map truncation_reason_to_wire (gm_truncation_reasons t),
      wgt_acquisition_timeout_ms = gm_acquisition_timeout_ms t\<rparr>"

definition graph_traversal_from_wire :: "wire_graph_traversal \<Rightarrow> string + graph_traversal_metadata" where
  "graph_traversal_from_wire m =
     rbind (try_map truncation_reason_from_wire (wgt_truncation_reasons m)) (\<lambda>reasons.
       Inr \<lparr>gm_max_hops = wgt_max_hops m, gm_max_paths = wgt_max_paths m, gm_max_rows = wgt_max_rows m,
            gm_max_steps = wgt_max_steps m, gm_acquisition_timeout_ms = wgt_acquisition_timeout_ms m,
            gm_truncated = wgt_truncated m, gm_truncation_reasons = reasons\<rparr>)"

definition traverse_to_wire :: "traverse_graph_result \<Rightarrow> wire_traverse_response" where
  "traverse_to_wire r =
     \<lparr>wtg_schema = tg_schema r, wtg_metadata = Some (metadata_to_wire (tg_metadata r)),
      wtg_query = Some (traverse_query_to_wire (tg_query r)), wtg_nodes = map entity_to_wire (tg_nodes r),
      wtg_edges = map edge_to_wire (tg_edges r), wtg_paths = map traversal_path_to_wire (tg_paths r),
      wtg_traversal = Some (graph_traversal_to_wire (tg_traversal r))\<rparr>"

definition traverse_from_wire :: "wire_traverse_response \<Rightarrow> string + traverse_graph_result" where
  "traverse_from_wire m =
     rbind (ok_or (wtg_traversal m) ''graph traversal metadata is missing'') (\<lambda>traversal.
     rbind (ok_or (wtg_metadata m) ''query metadata is missing'') (\<lambda>message.
     rbind (metadata_from_wire message) (\<lambda>metadata.
     rbind (ok_or (wtg_query m) ''graph query is missing'') (\<lambda>message.
     rbind (traverse_query_from_wire message) (\<lambda>query.
     rbind (try_map entity_from_wire (wtg_nodes m)) (\<lambda>nodes.
     rbind (try_map edge_from_wire (wtg_edges m)) (\<lambda>edges.
     rbind (try_map traversal_path_from_wire (wtg_paths m)) (\<lambda>paths.
     rbind (graph_traversal_from_wire traversal) (\<lambda>traversal.
       Inr \<lparr>tg_schema = wtg_schema m, tg_metadata = metadata, tg_query = query, tg_nodes = nodes, tg_edges = edges,
            tg_paths = paths, tg_traversal = traversal\<rparr>)))))))))"

section \<open>What is carried\<close>

text \<open>
  A diagnostic carries its path as text, so the paths must be text (\<open>metadata_text\<close>). A message that
  says nothing about the counts is read as if it carried the counts of its diagnostics, and the
  repositories of a traversal are read in order (\<open>completed_metadata\<close>, \<open>completed_traverse\<close>).
\<close>

definition metadata_text :: "query_metadata \<Rightarrow> bool" where
  "metadata_text q \<longleftrightarrow> list_all (\<lambda>d. utf8_lossy (dd_path d) = dd_path d) (am_diagnostics (qm_analysis q))"

definition completed_metadata :: "wire_query_metadata \<Rightarrow> wire_query_metadata" where
  "completed_metadata m = m
     \<lparr>wm_diagnostics := map (\<lambda>d. d\<lparr>wd_path := utf8_lossy (wd_path d)\<rparr>) (wm_diagnostics m),
      wm_diagnostic_counts := Some (case wm_diagnostic_counts m of
          Some counts \<Rightarrow> counts
        | None \<Rightarrow> \<lparr>dn_total = length (wm_diagnostics m),
                   dn_known_limitations = length (filter (\<lambda>d. wd_severity d = 1) (wm_diagnostics m)),
                   dn_warnings = length (filter (\<lambda>d. wd_severity d = 2) (wm_diagnostics m))\<rparr>)\<rparr>"

lemma diagnostic_of_wire: "diagnostic_from_wire (diagnostic_to_wire d) = Inr (d\<lparr>dd_path := utf8_lossy (dd_path d)\<rparr>)"
proof -
  have "diagnostic_severity_from_wire (diagnostic_severity_to_wire s) = Inr s" for s by (simp add: wire_iff)
  then show ?thesis by (cases d) (simp add: diagnostic_from_wire_def diagnostic_to_wire_def)
qed

lemma diagnostic_read: "diagnostic_from_wire m = Inr d \<Longrightarrow>
   diagnostic_to_wire d = m\<lparr>wd_path := utf8_lossy (wd_path m)\<rparr> \<and> wd_severity m = diagnostic_severity_to_wire (dd_severity d)"
  by (cases m) (auto simp: diagnostic_from_wire_def diagnostic_to_wire_def wire_iff)

lemma diagnostics_of_wire:
  "try_map diagnostic_from_wire (map diagnostic_to_wire ds) = Inr (map (\<lambda>d. d\<lparr>dd_path := utf8_lossy (dd_path d)\<rparr>) ds)"
  by (induction ds) (simp_all add: diagnostic_of_wire)

lemma diagnostics_read:
  assumes "try_map diagnostic_from_wire ms = Inr ds"
  shows "map diagnostic_to_wire ds = map (\<lambda>m. m\<lparr>wd_path := utf8_lossy (wd_path m)\<rparr>) ms \<and> length ds = length ms
    \<and> length (filter (\<lambda>d. dd_severity d = DtoKnownLimitation) ds) = length (filter (\<lambda>m. wd_severity m = 1) ms)
    \<and> length (filter (\<lambda>d. dd_severity d = DtoWarning) ds) = length (filter (\<lambda>m. wd_severity m = 2) ms)"
  using assms
proof (induction ms arbitrary: ds)
  case (Cons m ms)
  then obtain d rest where d: "diagnostic_from_wire m = Inr d" "try_map diagnostic_from_wire ms = Inr rest" "ds = d # rest"
    by (auto simp: rbind_Inr_iff)
  show ?case using diagnostic_read [OF d(1)] Cons.IH [OF d(2)] d(3) by (cases "dd_severity d") simp_all
qed simp

lemma completeness_of_wire [simp]: "completeness_from_wire (completeness_to_wire c) = Inr c"
  by (simp add: wire_iff)

lemma diagnostics_kept:
  "map (\<lambda>d. d\<lparr>dd_path := utf8_lossy (dd_path d)\<rparr>) ds = ds \<longleftrightarrow> list_all (\<lambda>d. utf8_lossy (dd_path d) = dd_path d) ds"
proof (induction ds)
  case (Cons d ds)
  then show ?case by (cases d) simp
qed simp

lemma metadata_of_wire: "metadata_from_wire (metadata_to_wire q) = Inr q \<longleftrightarrow> metadata_text q"
  by (cases q; cases "qm_analysis q") (simp add: metadata_from_wire_def metadata_to_wire_def diagnostics_of_wire diagnostics_kept metadata_text_def)

lemma metadata_read:
  assumes "metadata_from_wire m = Inr q"
  shows "metadata_to_wire q = completed_metadata m"
proof -
  obtain ds freshness completeness where ds: "try_map diagnostic_from_wire (wm_diagnostics m) = Inr ds"
    and m: "wm_freshness m = Some freshness" "wm_completeness m = completeness_to_wire completeness"
    and q: "q = \<lparr>qm_revision = wm_revision m, qm_view = wm_view m, qm_freshness = freshness,
      qm_analysis = \<lparr>am_completeness = completeness,
        am_diagnostic_counts = (case wm_diagnostic_counts m of Some counts \<Rightarrow> counts | None \<Rightarrow> counts_of ds), am_diagnostics = ds\<rparr>\<rparr>"
    using assms unfolding metadata_from_wire_def rbind_Inr_iff ok_or_Inr_eq completeness_wire_iff by blast
  have "wm_diagnostics (completed_metadata m) = map diagnostic_to_wire ds"
    and "wm_diagnostic_counts (completed_metadata m) = Some (am_diagnostic_counts (qm_analysis q))"
    using diagnostics_read [OF ds] q by (simp_all add: completed_metadata_def counts_of_def split: option.split)
  then show ?thesis using m q
    by (intro wire_query_metadata.equality) (simp_all add: metadata_to_wire_def completed_metadata_def)
qed

lemmas entities_wire_iff [wire_iff] = try_map_total [OF entity_wire_iff]
lemmas edges_wire_iff [wire_iff] = try_map_iff [OF edge_wire_iff]

lemma traversal_path_wire_iff: "traversal_path_from_wire m = Inr p \<longleftrightarrow> m = traversal_path_to_wire p"
  by (cases m; cases p) (auto simp: traversal_path_from_wire_def traversal_path_to_wire_def wire_iff)

lemmas traversal_paths_wire_iff [wire_iff] = try_map_total [OF traversal_path_wire_iff]

lemmas reasons_wire_iff [wire_iff] = try_map_total [OF truncation_reason_wire_iff]

lemma graph_traversal_wire_iff [wire_iff]: "graph_traversal_from_wire m = Inr t \<longleftrightarrow> m = graph_traversal_to_wire t"
  by (cases m; cases t) (auto simp: graph_traversal_from_wire_def graph_traversal_to_wire_def wire_iff)

text \<open>A query is read as its normal form, if that is valid.\<close>

lemma traverse_query_wire:
  "traverse_query_from_wire m = Inr q \<longleftrightarrow>
     traverse_normalize q = q \<and> traverse_validate q = Inr ()
     \<and> m\<lparr>wtq_target_repositories := sort_dedup (wtq_target_repositories m)\<rparr> = traverse_query_to_wire q"
  by (cases m; cases q) (auto simp: traverse_query_from_wire_def traverse_query_to_wire_def traverse_normalize_def wire_iff
      Let_def)

definition traverse_sound :: "traverse_graph_result \<Rightarrow> bool" where
  "traverse_sound r \<longleftrightarrow>
     metadata_text (tg_metadata r) \<and> traverse_normalize (tg_query r) = tg_query r \<and> traverse_validate (tg_query r) = Inr ()
     \<and> list_all edge_ordered (tg_edges r)"

definition completed_traverse :: "wire_traverse_response \<Rightarrow> wire_traverse_response" where
  "completed_traverse m = m
     \<lparr>wtg_metadata := map_option completed_metadata (wtg_metadata m),
      wtg_query := map_option (\<lambda>q. q\<lparr>wtq_target_repositories := sort_dedup (wtq_target_repositories q)\<rparr>) (wtg_query m)\<rparr>"

text \<open>
  C39. The result of a traversal survives the wire exactly when its query is in normal form and valid,
  the ranges of its evidence are ordered and its paths are text; and whatever message is read, what
  is read from it says all the message said, with the counts of the diagnostics filled in and the
  repositories asked for in order. Nothing is lost on the way, and nothing made up.
\<close>

theorem traverse_messages_exact:
  "(traverse_from_wire (traverse_to_wire r) = Inr r \<longleftrightarrow> traverse_sound r)
   \<and> (case traverse_from_wire m of
        Inl _ \<Rightarrow> True
      | Inr r \<Rightarrow> traverse_to_wire r = completed_traverse m \<and> traverse_validate (tg_query r) = Inr () \<and> list_all edge_ordered (tg_edges r))"
proof
  have query: "traverse_query_from_wire (traverse_query_to_wire q) = Inr q' \<longleftrightarrow>
      traverse_normalize q = q' \<and> traverse_validate q' = Inr ()" for q q'
    by (cases q; cases q') (auto simp: traverse_query_from_wire_def traverse_query_to_wire_def traverse_normalize_def wire_iff
        Let_def)
  show "traverse_from_wire (traverse_to_wire r) = Inr r \<longleftrightarrow> traverse_sound r"
    by (cases r) (auto simp: traverse_from_wire_def traverse_to_wire_def traverse_sound_def wire_iff
        metadata_of_wire [symmetric] query)
  show "case traverse_from_wire m of
        Inl _ \<Rightarrow> True
      | Inr r \<Rightarrow> traverse_to_wire r = completed_traverse m \<and> traverse_validate (tg_query r) = Inr () \<and> list_all edge_ordered (tg_edges r)"
  proof (cases "traverse_from_wire m")
    case (Inr r)
    then have "traverse_to_wire r = completed_traverse m \<and> traverse_validate (tg_query r) = Inr () \<and> list_all edge_ordered (tg_edges r)"
      by (cases m) (auto simp: traverse_from_wire_def traverse_to_wire_def completed_traverse_def wire_iff
          traverse_query_wire dest!: metadata_read)
    with Inr show ?thesis by simp
  qed simp
qed


text \<open>
  What a pair of conversions gives a client that passes messages on: values that survive are told
  apart, and the message written again is read as the same value.
\<close>

locale wire_codec =
  fixes to_wire :: "'a \<Rightarrow> 'm" and from_wire :: "'m \<Rightarrow> string + 'a" and sound :: "'a \<Rightarrow> bool" and completed_message :: "'m \<Rightarrow> 'm"
  assumes written: "from_wire (to_wire x) = Inr x \<longleftrightarrow> sound x"
    and read: "from_wire m = Inr x \<Longrightarrow> to_wire x = completed_message m"
begin

lemma told_apart: "sound x \<Longrightarrow> sound y \<Longrightarrow> to_wire x = to_wire y \<Longrightarrow> x = y"
  using written [of x] written [of y] by simp

lemma passed_on: "from_wire m = Inr x \<Longrightarrow> sound x \<Longrightarrow> from_wire (completed_message m) = Inr x"
  using written [of x] read [of m x] by simp

end

text \<open>The other results, each the same way.\<close>

definition completed_reply :: "wire_query_metadata option \<Rightarrow> wire_query_metadata option" where
  "completed_reply = map_option completed_metadata"

lemma search_messages:
  "search_from_wire (search_to_wire r) = Inr r \<longleftrightarrow> metadata_text (esr_metadata r)"
  "search_from_wire m = Inr r \<Longrightarrow> search_to_wire r = m\<lparr>wsr_metadata := completed_reply (wsr_metadata m)\<rparr>"
proof -
  show "search_from_wire (search_to_wire r) = Inr r \<longleftrightarrow> metadata_text (esr_metadata r)"
    by (cases r) (auto simp: search_from_wire_def search_to_wire_def wire_iff metadata_of_wire [symmetric])
  show "search_to_wire r = m\<lparr>wsr_metadata := completed_reply (wsr_metadata m)\<rparr>" if "search_from_wire m = Inr r"
    using that by (cases m) (auto simp: search_from_wire_def search_to_wire_def completed_reply_def wire_iff dest!: metadata_read)
qed

lemma topology_messages:
  "topology_from_wire (topology_to_wire r) = Inr r \<longleftrightarrow> metadata_text (top_metadata r) \<and> list_all edge_ordered (top_edges r)"
  "topology_from_wire m = Inr r \<Longrightarrow> topology_to_wire r = m\<lparr>wtp_metadata := completed_reply (wtp_metadata m)\<rparr>"
proof -
  show "topology_from_wire (topology_to_wire r) = Inr r \<longleftrightarrow> metadata_text (top_metadata r) \<and> list_all edge_ordered (top_edges r)"
    by (cases r) (auto simp: topology_from_wire_def topology_to_wire_def wire_iff metadata_of_wire [symmetric])
  show "topology_to_wire r = m\<lparr>wtp_metadata := completed_reply (wtp_metadata m)\<rparr>" if "topology_from_wire m = Inr r"
    using that by (cases m) (auto simp: topology_from_wire_def topology_to_wire_def completed_reply_def wire_iff dest!: metadata_read)
qed

lemma context_messages:
  "context_result_from_wire (context_result_to_wire r) = Inr r \<longleftrightarrow> metadata_text (cr_metadata r) \<and> list_all edge_ordered (cr_edges r)"
  "context_result_from_wire m = Inr r \<Longrightarrow> context_result_to_wire r = m\<lparr>wcr_metadata := completed_reply (wcr_metadata m)\<rparr>"
proof -
  show "context_result_from_wire (context_result_to_wire r) = Inr r \<longleftrightarrow> metadata_text (cr_metadata r) \<and> list_all edge_ordered (cr_edges r)"
    by (cases r) (auto simp: context_result_from_wire_def context_result_to_wire_def wire_iff metadata_of_wire [symmetric])
  show "context_result_to_wire r = m\<lparr>wcr_metadata := completed_reply (wcr_metadata m)\<rparr>" if "context_result_from_wire m = Inr r"
    using that by (cases m)
      (auto simp: context_result_from_wire_def context_result_to_wire_def completed_reply_def wire_iff dest!: metadata_read)
qed

lemma dependencies_messages:
  "dependencies_from_wire (dependencies_to_wire r) = Inr r \<longleftrightarrow> metadata_text (ds_metadata r) \<and> list_all edge_ordered (ds_edges r)"
  "dependencies_from_wire m = Inr r \<Longrightarrow> dependencies_to_wire r = m\<lparr>wdp_metadata := completed_reply (wdp_metadata m)\<rparr>"
proof -
  show "dependencies_from_wire (dependencies_to_wire r) = Inr r \<longleftrightarrow> metadata_text (ds_metadata r) \<and> list_all edge_ordered (ds_edges r)"
    by (cases r) (auto simp: dependencies_from_wire_def dependencies_to_wire_def wire_iff metadata_of_wire [symmetric])
  show "dependencies_to_wire r = m\<lparr>wdp_metadata := completed_reply (wdp_metadata m)\<rparr>" if "dependencies_from_wire m = Inr r"
    using that by (cases m)
      (auto simp: dependencies_from_wire_def dependencies_to_wire_def completed_reply_def wire_iff dest!: metadata_read)
qed

lemma impact_messages:
  "impact_from_wire (impact_to_wire r) = Inr r \<longleftrightarrow> metadata_text (im_metadata r) \<and> list_all edge_ordered (im_edges r)"
  "impact_from_wire m = Inr r \<Longrightarrow> impact_to_wire r = m\<lparr>wip_metadata := completed_reply (wip_metadata m)\<rparr>"
proof -
  show "impact_from_wire (impact_to_wire r) = Inr r \<longleftrightarrow> metadata_text (im_metadata r) \<and> list_all edge_ordered (im_edges r)"
    by (cases r) (auto simp: impact_from_wire_def impact_to_wire_def wire_iff metadata_of_wire [symmetric])
  show "impact_to_wire r = m\<lparr>wip_metadata := completed_reply (wip_metadata m)\<rparr>" if "impact_from_wire m = Inr r"
    using that by (cases m)
      (auto simp: impact_from_wire_def impact_to_wire_def completed_reply_def wire_iff dest!: metadata_read)
qed

lemma trace_messages:
  "trace_from_wire (trace_to_wire r) = Inr r \<longleftrightarrow> metadata_text (tr_metadata r) \<and> list_all edge_ordered (tr_edges r)"
  "trace_from_wire m = Inr r \<Longrightarrow> trace_to_wire r = m\<lparr>wpr_metadata := completed_reply (wpr_metadata m)\<rparr>"
proof -
  show "trace_from_wire (trace_to_wire r) = Inr r \<longleftrightarrow> metadata_text (tr_metadata r) \<and> list_all edge_ordered (tr_edges r)"
    by (cases r) (auto simp: trace_from_wire_def trace_to_wire_def wire_iff metadata_of_wire [symmetric])
  show "trace_to_wire r = m\<lparr>wpr_metadata := completed_reply (wpr_metadata m)\<rparr>" if "trace_from_wire m = Inr r"
    using that by (cases m)
      (auto simp: trace_from_wire_def trace_to_wire_def completed_reply_def wire_iff dest!: metadata_read)
qed

lemma why_messages:
  "why_from_wire (why_to_wire r) = Inr r \<longleftrightarrow> metadata_text (wh_metadata r) \<and> list_all edge_ordered (wh_edges r)"
  "why_from_wire m = Inr r \<Longrightarrow> why_to_wire r = m\<lparr>wpr_metadata := completed_reply (wpr_metadata m)\<rparr>"
proof -
  show "why_from_wire (why_to_wire r) = Inr r \<longleftrightarrow> metadata_text (wh_metadata r) \<and> list_all edge_ordered (wh_edges r)"
    by (cases r) (auto simp: why_from_wire_def why_to_wire_def wire_iff metadata_of_wire [symmetric])
  show "why_to_wire r = m\<lparr>wpr_metadata := completed_reply (wpr_metadata m)\<rparr>" if "why_from_wire m = Inr r"
    using that by (cases m)
      (auto simp: why_from_wire_def why_to_wire_def completed_reply_def wire_iff dest!: metadata_read)
qed

interpretation search_codec: wire_codec search_to_wire search_from_wire "\<lambda>r. metadata_text (esr_metadata r)" "\<lambda>m. m\<lparr>wsr_metadata := completed_reply (wsr_metadata m)\<rparr>"
  by unfold_locales (fact search_messages)+
interpretation topology_codec: wire_codec topology_to_wire topology_from_wire
    "\<lambda>r. metadata_text (top_metadata r) \<and> list_all edge_ordered (top_edges r)" "\<lambda>m. m\<lparr>wtp_metadata := completed_reply (wtp_metadata m)\<rparr>"
  by unfold_locales (fact topology_messages)+
interpretation context_codec: wire_codec context_result_to_wire context_result_from_wire
    "\<lambda>r. metadata_text (cr_metadata r) \<and> list_all edge_ordered (cr_edges r)" "\<lambda>m. m\<lparr>wcr_metadata := completed_reply (wcr_metadata m)\<rparr>"
  by unfold_locales (fact context_messages)+
interpretation dependencies_codec: wire_codec dependencies_to_wire dependencies_from_wire
    "\<lambda>r. metadata_text (ds_metadata r) \<and> list_all edge_ordered (ds_edges r)" "\<lambda>m. m\<lparr>wdp_metadata := completed_reply (wdp_metadata m)\<rparr>"
  by unfold_locales (fact dependencies_messages)+
interpretation impact_codec: wire_codec impact_to_wire impact_from_wire
    "\<lambda>r. metadata_text (im_metadata r) \<and> list_all edge_ordered (im_edges r)" "\<lambda>m. m\<lparr>wip_metadata := completed_reply (wip_metadata m)\<rparr>"
  by unfold_locales (fact impact_messages)+
interpretation trace_codec: wire_codec trace_to_wire trace_from_wire
    "\<lambda>r. metadata_text (tr_metadata r) \<and> list_all edge_ordered (tr_edges r)" "\<lambda>m. m\<lparr>wpr_metadata := completed_reply (wpr_metadata m)\<rparr>"
  by unfold_locales (fact trace_messages)+
interpretation why_codec: wire_codec why_to_wire why_from_wire
    "\<lambda>r. metadata_text (wh_metadata r) \<and> list_all edge_ordered (wh_edges r)" "\<lambda>m. m\<lparr>wpr_metadata := completed_reply (wpr_metadata m)\<rparr>"
  by unfold_locales (fact why_messages)+

text \<open>
  C38. Every other result survives the wire exactly when its paths are text and the ranges of its
  evidence are ordered.
\<close>

theorem results_survive_exactly:
  "(search_from_wire (search_to_wire search) = Inr search \<longleftrightarrow> metadata_text (esr_metadata search))
   \<and> (topology_from_wire (topology_to_wire topology) = Inr topology
        \<longleftrightarrow> metadata_text (top_metadata topology) \<and> list_all edge_ordered (top_edges topology))
   \<and> (context_result_from_wire (context_result_to_wire result) = Inr result
        \<longleftrightarrow> metadata_text (cr_metadata result) \<and> list_all edge_ordered (cr_edges result))
   \<and> (dependencies_from_wire (dependencies_to_wire dependencies) = Inr dependencies
        \<longleftrightarrow> metadata_text (ds_metadata dependencies) \<and> list_all edge_ordered (ds_edges dependencies))
   \<and> (impact_from_wire (impact_to_wire impact) = Inr impact
        \<longleftrightarrow> metadata_text (im_metadata impact) \<and> list_all edge_ordered (im_edges impact))
   \<and> (trace_from_wire (trace_to_wire trace) = Inr trace
        \<longleftrightarrow> metadata_text (tr_metadata trace) \<and> list_all edge_ordered (tr_edges trace))
   \<and> (why_from_wire (why_to_wire why) = Inr why
        \<longleftrightarrow> metadata_text (wh_metadata why) \<and> list_all edge_ordered (wh_edges why))"
  by (simp only: search_codec.written topology_codec.written context_codec.written dependencies_codec.written impact_codec.written
      trace_codec.written why_codec.written)

section \<open>Workspaces and repositories\<close>

record wire_repository =
  wrp_identity :: string
  wrp_display_name :: string
  wrp_base :: string
  wrp_alternatives :: "string list"

record wire_descriptor_source =
  wds_repository :: string
  wds_path :: string

record wire_workspace =
  wws_name :: string
  wws_repositories :: "wire_repository list"
  wws_protobuf_descriptors :: "wire_descriptor_source list"
  wws_enabled_plugins :: "string list"

definition repository_to_wire :: "workspace_repository \<Rightarrow> wire_repository" where
  "repository_to_wire r =
     \<lparr>wrp_identity = wr_identity r, wrp_display_name = wr_display_name r, wrp_base = utf8_lossy (wr_base r),
      wrp_alternatives = map utf8_lossy (wr_alternatives r)\<rparr>"

definition repository_from_wire :: "wire_repository \<Rightarrow> workspace_repository" where
  "repository_from_wire m =
     \<lparr>wr_repository = \<lparr>lr_identity = wrp_identity m\<rparr>, wr_display_name = wrp_display_name m, wr_base = wrp_base m,
      wr_alternatives = wrp_alternatives m\<rparr>"

definition workspace_to_wire :: "workspace \<Rightarrow> wire_workspace" where
  "workspace_to_wire ws =
     \<lparr>wws_name = ws_name ws, wws_repositories = map repository_to_wire (ws_repositories ws),
      wws_protobuf_descriptors = map (\<lambda>d. \<lparr>wds_repository = lr_identity (pd_repository d), wds_path = utf8_lossy (pd_path d)\<rparr>)
        (ws_protobuf_descriptors ws),
      wws_enabled_plugins = ws_enabled_plugins ws\<rparr>"

definition workspace_from_wire :: "wire_workspace \<Rightarrow> string + workspace" where
  "workspace_from_wire m =
     rbind (workspace_new (wws_name m) (map repository_from_wire (wws_repositories m))) (\<lambda>ws.
     rbind (with_protobuf_descriptors ws
              (map (\<lambda>d. \<lparr>pd_repository = \<lparr>lr_identity = wds_repository d\<rparr>, pd_path = wds_path d\<rparr>) (wws_protobuf_descriptors m))) (\<lambda>ws.
       with_enabled_plugins ws (wws_enabled_plugins m)))"

record wire_revision =
  wrv_source_state :: string
  wrv_head :: "string option"
  wrv_analysis_identity :: string
  wrv_incomplete :: bool
  wrv_diagnostics :: "wire_diagnostic list"

record wire_repository_status =
  wrs_repository :: "wire_repository option"
  wrs_revision :: "wire_revision option"
  wrs_indexing :: bool

definition revision_to_wire :: "repository_revision \<Rightarrow> wire_revision" where
  "revision_to_wire r =
     \<lparr>wrv_source_state = rr_source_state r, wrv_head = rr_head r, wrv_analysis_identity = rr_analysis_identity r,
      wrv_incomplete = (am_completeness (rr_analysis r) = Incomplete),
      wrv_diagnostics = map diagnostic_to_wire (am_diagnostics (rr_analysis r))\<rparr>"

definition revision_from_wire :: "wire_revision \<Rightarrow> string + repository_revision" where
  "revision_from_wire m =
     rbind (try_map diagnostic_from_wire (wrv_diagnostics m)) (\<lambda>diagnostics.
       Inr \<lparr>rr_source_state = wrv_source_state m, rr_head = wrv_head m, rr_analysis_identity = wrv_analysis_identity m,
            rr_analysis = \<lparr>am_completeness = (if wrv_incomplete m then Incomplete else Complete),
              am_diagnostic_counts = counts_of diagnostics, am_diagnostics = diagnostics\<rparr>\<rparr>)"

definition status_to_wire :: "repository_status \<Rightarrow> wire_repository_status" where
  "status_to_wire s =
     \<lparr>wrs_repository = Some \<lparr>wrp_identity = rst_identity s, wrp_display_name = rst_display_name s, wrp_base = utf8_lossy (rst_base s),
        wrp_alternatives = map utf8_lossy (rst_alternatives s)\<rparr>,
      wrs_revision = map_option revision_to_wire (rst_revision s), wrs_indexing = rst_indexing s\<rparr>"

definition status_from_wire :: "wire_repository_status \<Rightarrow> string + repository_status" where
  "status_from_wire m =
     rbind (ok_or (wrs_repository m) ''repository status is missing'') (\<lambda>repository.
     rbind (try_option revision_from_wire (wrs_revision m)) (\<lambda>revision.
       Inr \<lparr>rst_identity = wrp_identity repository, rst_display_name = wrp_display_name repository, rst_base = wrp_base repository,
            rst_alternatives = wrp_alternatives repository, rst_revision = revision, rst_indexing = wrs_indexing m\<rparr>))"

text \<open>The builders of a workspace accept a workspace that is one already, and change nothing.\<close>

lemma settled: "repository_wf r \<Longrightarrow> settle_alternatives r = r"
  using sort_dedup_by_id [of path_components "wr_alternatives r"]
  by (cases r) (auto simp: settle_alternatives_def repository_wf_def path_eq_def filter_id_conv image_iff dest: sym)

lemma workspace_rebuilt:
  assumes "workspace_wf ws"
  shows "workspace_new (ws_name ws) (ws_repositories ws) = Inr (ws\<lparr>ws_protobuf_descriptors := [], ws_enabled_plugins := []\<rparr>)"
    "with_protobuf_descriptors (ws\<lparr>ws_protobuf_descriptors := [], ws_enabled_plugins := []\<rparr>) (ws_protobuf_descriptors ws)
       = Inr (ws\<lparr>ws_enabled_plugins := []\<rparr>)"
    "with_enabled_plugins (ws\<lparr>ws_enabled_plugins := []\<rparr>) (ws_enabled_plugins ws) = Inr ws"
proof -
  have wf: "\<not> blank (ws_name ws)" "ws_repositories ws \<noteq> []" "ascending (map wr_identity (ws_repositories ws))"
    "list_all repository_wf (ws_repositories ws)" "ascending (map descriptor_key (ws_protobuf_descriptors ws))"
    "pd_repository ` set (ws_protobuf_descriptors ws) \<subseteq> wr_repository ` set (ws_repositories ws)"
    "ascending (ws_enabled_plugins ws)" "list_all (\<lambda>p. \<not> blank p) (ws_enabled_plugins ws)"
    using assms by (simp_all add: workspace_wf_def)
  have "map (settle_alternatives \<circ> snd) (map (\<lambda>r. (wr_identity r, r)) (ws_repositories ws)) = ws_repositories ws"
    using wf(4) by (auto simp: list_all_iff settled intro!: map_idI)
  then show "workspace_new (ws_name ws) (ws_repositories ws) = Inr (ws\<lparr>ws_protobuf_descriptors := [], ws_enabled_plugins := []\<rparr>)"
    using wf(1,2,4) merge_distinct [OF wf(3)] by (cases ws) (simp add: workspace_new_def list_all_iff repository_wf_def)
  have "List.find (\<lambda>d. \<not> list_ex (\<lambda>r. wr_repository r = pd_repository d) (ws_repositories ws)) (ws_protobuf_descriptors ws) = None"
    using wf(6) by (fastforce simp: find_None_iff list_ex_iff)
  then show "with_protobuf_descriptors (ws\<lparr>ws_protobuf_descriptors := [], ws_enabled_plugins := []\<rparr>) (ws_protobuf_descriptors ws)
       = Inr (ws\<lparr>ws_enabled_plugins := []\<rparr>)"
    using sort_dedup_by_id [OF wf(5)] by (cases ws) (simp add: with_protobuf_descriptors_def)
  have "try_map (\<lambda>plugin. if \<not> blank plugin then Inr plugin else Inl ''enabled plugin ID must not be empty'') (ws_enabled_plugins ws)
      = Inr (map (\<lambda>p. p) (ws_enabled_plugins ws))"
    using wf(8) by (intro try_map_all) (simp add: list_all_iff)
  then show "with_enabled_plugins (ws\<lparr>ws_enabled_plugins := []\<rparr>) (ws_enabled_plugins ws) = Inr ws"
    using bs_of_list_id [OF wf(7)] by (cases ws) (simp add: with_enabled_plugins_def)
qed

definition workspace_text :: "workspace \<Rightarrow> bool" where
  "workspace_text ws \<longleftrightarrow>
     list_all (\<lambda>r. list_all (\<lambda>p. utf8_lossy p = p) (wr_base r # wr_alternatives r)) (ws_repositories ws)
     \<and> list_all (\<lambda>d. utf8_lossy (pd_path d) = pd_path d) (ws_protobuf_descriptors ws)"

text \<open>
  C40. A workspace whose paths are text survives the wire exactly when it is well formed; and
  whatever is read from the wire is well formed, so a client cannot hand the daemon a workspace that
  its own builders would not have made.
\<close>

theorem workspace_messages_exact:
  "(case workspace_from_wire m of Inl _ \<Rightarrow> True | Inr ws \<Rightarrow> workspace_wf ws)
   \<and> (workspace_text ws \<longrightarrow> (workspace_from_wire (workspace_to_wire ws) = Inr ws \<longleftrightarrow> workspace_wf ws))"
proof
  have read: "workspace_wf ws" if "workspace_from_wire m = Inr ws" for m ws
    using that by (auto simp: workspace_from_wire_def rbind_Inr_iff dest: workspace_new_wf with_protobuf_descriptors_wf with_enabled_plugins_wf)
  show "case workspace_from_wire m of Inl _ \<Rightarrow> True | Inr ws \<Rightarrow> workspace_wf ws"
    using read by (simp split: sum.split)
  show "workspace_text ws \<longrightarrow> (workspace_from_wire (workspace_to_wire ws) = Inr ws \<longleftrightarrow> workspace_wf ws)"
  proof (intro impI iffI)
    assume texts: "workspace_text ws" and "workspace_wf ws"
    have "repository_from_wire (repository_to_wire r) = r" if "r \<in> set (ws_repositories ws)" for r
    proof -
      have "utf8_lossy (wr_base r) = wr_base r" "map utf8_lossy (wr_alternatives r) = wr_alternatives r"
        using texts that by (auto simp: workspace_text_def list_all_iff intro!: map_idI)
      then show ?thesis by (cases r; cases "wr_repository r") (simp add: repository_from_wire_def repository_to_wire_def)
    qed
    then have "map repository_from_wire (map repository_to_wire (ws_repositories ws)) = ws_repositories ws"
      by (simp add: map_idI)
    moreover have "\<lparr>pd_repository = \<lparr>lr_identity = lr_identity (pd_repository d)\<rparr>, pd_path = utf8_lossy (pd_path d)\<rparr> = d"
      if "d \<in> set (ws_protobuf_descriptors ws)" for d
      using texts that by (cases d; cases "pd_repository d") (auto simp: workspace_text_def list_all_iff)
    then have "map ((\<lambda>d. \<lparr>pd_repository = \<lparr>lr_identity = wds_repository d\<rparr>, pd_path = wds_path d\<rparr>)
        \<circ> (\<lambda>d. \<lparr>wds_repository = lr_identity (pd_repository d), wds_path = utf8_lossy (pd_path d)\<rparr>)) (ws_protobuf_descriptors ws)
      = ws_protobuf_descriptors ws"
      by (simp add: map_idI)
    ultimately show "workspace_from_wire (workspace_to_wire ws) = Inr ws"
      using workspace_rebuilt [OF \<open>workspace_wf ws\<close>] by (simp add: workspace_from_wire_def workspace_to_wire_def)
  qed (rule read)
qed

definition example_wire_workspace :: workspace where
  "example_wire_workspace =
     \<lparr>ws_name = ''w'',
      ws_repositories = [\<lparr>wr_repository = \<lparr>lr_identity = ''r''\<rparr>, wr_display_name = ''R'', wr_base = ''/r'', wr_alternatives = [''/q'']\<rparr>],
      ws_protobuf_descriptors = [\<lparr>pd_repository = \<lparr>lr_identity = ''r''\<rparr>, pd_path = ''/r/d''\<rparr>], ws_enabled_plugins = [''p'']\<rparr>"

lemma workspace_messages_exact_witness:
  "workspace_from_wire (workspace_to_wire example_wire_workspace) = Inr example_wire_workspace"
proof -
  have "workspace_text example_wire_workspace" by code_simp
  moreover have "workspace_wf example_wire_workspace" by code_simp
  ultimately show ?thesis using workspace_messages_exact [of "workspace_to_wire example_wire_workspace" example_wire_workspace] by simp
qed

text \<open>The status of a repository carries no counts: it survives if its counts are those of its diagnostics.\<close>

definition revision_exact :: "repository_revision \<Rightarrow> bool" where
  "revision_exact r \<longleftrightarrow>
     list_all (\<lambda>d. utf8_lossy (dd_path d) = dd_path d) (am_diagnostics (rr_analysis r))
     \<and> am_diagnostic_counts (rr_analysis r) = counts_of (am_diagnostics (rr_analysis r))"

lemma revision_survives: "revision_from_wire (revision_to_wire r) = Inr r \<longleftrightarrow> revision_exact r"
proof -
  have "counts_of (map (\<lambda>d. d\<lparr>dd_path := utf8_lossy (dd_path d)\<rparr>) ds) = counts_of ds" for ds :: "dto_diagnostic list"
    by (simp add: counts_of_def filter_map comp_def)
  moreover have "am_completeness (rr_analysis r) \<noteq> Incomplete \<Longrightarrow> am_completeness (rr_analysis r) = Complete"
    by (cases "am_completeness (rr_analysis r)") simp_all
  ultimately show ?thesis
    by (cases r; cases "rr_analysis r")
      (auto simp: revision_from_wire_def revision_to_wire_def revision_exact_def diagnostics_of_wire diagnostics_kept)
qed

lemma status_survives:
  "status_from_wire (status_to_wire s) = Inr s \<longleftrightarrow>
     list_all (\<lambda>p. utf8_lossy p = p) (rst_base s # rst_alternatives s) \<and> pred_option revision_exact (rst_revision s)"
proof -
  have "map utf8_lossy ps = ps \<longleftrightarrow> list_all (\<lambda>p. utf8_lossy p = p) ps" for ps by (induction ps) simp_all
  then show ?thesis
    by (cases s; cases "rst_revision s") (auto simp: status_from_wire_def status_to_wire_def rbind_Inr_iff revision_survives)
qed

end
