(* ===== verification/Wire_Worker.thy ===== *)
theory Wire_Worker imports Wire_Query Indexer begin

text \<open>
  The messages between the daemon and the analyzer workers, \<open>crates/protocol/src/worker.rs\<close>, as in
  \<open>Wire_Query\<close>: the facts an analyzer reads and produces, and the descriptor by which a plugin
  introduces itself, to and from the messages of \<open>proto/beholder/worker/v1/worker.proto\<close>. Evidence
  travels as its text together with the range and the contexts the text encodes; how serde writes
  structured evidence is a parameter (\<open>evidence_json\<close>).
\<close>

section \<open>Enums\<close>

fun worker_operation_kind_to_wire :: "graphql_operation_kind \<Rightarrow> i32" where
  "worker_operation_kind_to_wire Mutation = 1"
| "worker_operation_kind_to_wire Query = 2"
| "worker_operation_kind_to_wire Subscription = 3"

definition worker_operation_kind_from_wire :: "i32 \<Rightarrow> string + graphql_operation_kind" where
  "worker_operation_kind_from_wire n =
     (if n = 0 then Inl ''worker GraphQL operation kind is missing'' else if n = 1 then Inr Mutation
      else if n = 2 then Inr Query else if n = 3 then Inr Subscription
      else Inl ''worker GraphQL operation kind is unknown'')"

lemma worker_operation_kind_wire_iff [wire_iff]: "worker_operation_kind_from_wire n = Inr k \<longleftrightarrow> n = worker_operation_kind_to_wire k"
  by (cases k rule: worker_operation_kind_to_wire.cases) (simp_all add: worker_operation_kind_from_wire_def)

lemma worker_operation_kind_wire_inj [simp]: "worker_operation_kind_to_wire k = worker_operation_kind_to_wire l \<longleftrightarrow> k = l"
  using worker_operation_kind_wire_iff by (metis sum.inject(2))


fun worker_graphql_type_kind_to_wire :: "graphql_type_kind \<Rightarrow> i32" where
  "worker_graphql_type_kind_to_wire GqlEnum = 1"
| "worker_graphql_type_kind_to_wire GqlInput = 2"
| "worker_graphql_type_kind_to_wire GqlInterface = 3"
| "worker_graphql_type_kind_to_wire GqlObject = 4"
| "worker_graphql_type_kind_to_wire GqlScalar = 5"
| "worker_graphql_type_kind_to_wire GqlUnion = 6"

definition worker_graphql_type_kind_from_wire :: "i32 \<Rightarrow> string + graphql_type_kind" where
  "worker_graphql_type_kind_from_wire n =
     (if n = 0 then Inl ''worker GraphQL type kind is missing'' else if n = 1 then Inr GqlEnum
      else if n = 2 then Inr GqlInput else if n = 3 then Inr GqlInterface else if n = 4 then Inr GqlObject
      else if n = 5 then Inr GqlScalar else if n = 6 then Inr GqlUnion else Inl ''worker GraphQL type kind is unknown'')"

lemma worker_graphql_type_kind_wire_iff [wire_iff]: "worker_graphql_type_kind_from_wire n = Inr k \<longleftrightarrow> n = worker_graphql_type_kind_to_wire k"
  by (cases k rule: worker_graphql_type_kind_to_wire.cases) (simp_all add: worker_graphql_type_kind_from_wire_def)

lemma worker_graphql_type_kind_wire_inj [simp]: "worker_graphql_type_kind_to_wire k = worker_graphql_type_kind_to_wire l \<longleftrightarrow> k = l"
  using worker_graphql_type_kind_wire_iff by (metis sum.inject(2))


fun worker_proto_type_kind_to_wire :: "proto_type_kind \<Rightarrow> i32" where
  "worker_proto_type_kind_to_wire ProtoKindEnum = 1"
| "worker_proto_type_kind_to_wire ProtoKindMessage = 2"

definition worker_proto_type_kind_from_wire :: "i32 \<Rightarrow> string + proto_type_kind" where
  "worker_proto_type_kind_from_wire n =
     (if n = 0 then Inl ''worker Protobuf type kind is missing'' else if n = 1 then Inr ProtoKindEnum
      else if n = 2 then Inr ProtoKindMessage else Inl ''worker Protobuf type kind is unknown'')"

lemma worker_proto_type_kind_wire_iff [wire_iff]: "worker_proto_type_kind_from_wire n = Inr k \<longleftrightarrow> n = worker_proto_type_kind_to_wire k"
  by (cases k rule: worker_proto_type_kind_to_wire.cases) (simp_all add: worker_proto_type_kind_from_wire_def)

lemma worker_proto_type_kind_wire_inj [simp]: "worker_proto_type_kind_to_wire k = worker_proto_type_kind_to_wire l \<longleftrightarrow> k = l"
  using worker_proto_type_kind_wire_iff by (metis sum.inject(2))


fun worker_cardinality_to_wire :: "rpc_cardinality \<Rightarrow> i32" where
  "worker_cardinality_to_wire Unary = 1"
| "worker_cardinality_to_wire ClientStreaming = 2"
| "worker_cardinality_to_wire ServerStreaming = 3"
| "worker_cardinality_to_wire BidirectionalStreaming = 4"

definition worker_cardinality_from_wire :: "i32 \<Rightarrow> string + rpc_cardinality" where
  "worker_cardinality_from_wire n =
     (if n = 0 then Inl ''worker RPC cardinality is missing'' else if n = 1 then Inr Unary
      else if n = 2 then Inr ClientStreaming else if n = 3 then Inr ServerStreaming
      else if n = 4 then Inr BidirectionalStreaming else Inl ''worker RPC cardinality is unknown'')"

lemma worker_cardinality_wire_iff [wire_iff]: "worker_cardinality_from_wire n = Inr k \<longleftrightarrow> n = worker_cardinality_to_wire k"
  by (cases k rule: worker_cardinality_to_wire.cases) (simp_all add: worker_cardinality_from_wire_def)

lemma worker_cardinality_wire_inj [simp]: "worker_cardinality_to_wire k = worker_cardinality_to_wire l \<longleftrightarrow> k = l"
  using worker_cardinality_wire_iff by (metis sum.inject(2))


fun binding_role_to_wire :: "grpc_binding_role \<Rightarrow> i32" where
  "binding_role_to_wire Client = 1"
| "binding_role_to_wire Server = 2"

definition binding_role_from_wire :: "i32 \<Rightarrow> string + grpc_binding_role" where
  "binding_role_from_wire n =
     (if n = 0 then Inl ''worker gRPC binding role is missing'' else if n = 1 then Inr Client else if n = 2 then Inr Server
      else Inl ''worker gRPC binding role is unknown'')"

lemma binding_role_wire_iff [wire_iff]: "binding_role_from_wire n = Inr k \<longleftrightarrow> n = binding_role_to_wire k"
  by (cases k rule: binding_role_to_wire.cases) (simp_all add: binding_role_from_wire_def)

lemma binding_role_wire_inj [simp]: "binding_role_to_wire k = binding_role_to_wire l \<longleftrightarrow> k = l"
  using binding_role_wire_iff by (metis sum.inject(2))


fun worker_severity_to_wire :: "analysis_diagnostic_severity \<Rightarrow> i32" where
  "worker_severity_to_wire KnownLimitation = 1"
| "worker_severity_to_wire Warning = 2"

definition worker_severity_from_wire :: "i32 \<Rightarrow> string + analysis_diagnostic_severity" where
  "worker_severity_from_wire n =
     (if n = 0 then Inl ''worker diagnostic severity is missing'' else if n = 1 then Inr KnownLimitation
      else if n = 2 then Inr Warning else Inl ''worker diagnostic severity is unknown'')"

lemma worker_severity_wire_iff [wire_iff]: "worker_severity_from_wire n = Inr k \<longleftrightarrow> n = worker_severity_to_wire k"
  by (cases k rule: worker_severity_to_wire.cases) (simp_all add: worker_severity_from_wire_def)

lemma worker_severity_wire_inj [simp]: "worker_severity_to_wire k = worker_severity_to_wire l \<longleftrightarrow> k = l"
  using worker_severity_wire_iff by (metis sum.inject(2))


fun confidence_to_wire :: "confidence \<Rightarrow> i32" where
  "confidence_to_wire Exact = 1"
| "confidence_to_wire Inferred = 2"

definition confidence_from_wire :: "i32 \<Rightarrow> string + confidence" where
  "confidence_from_wire n =
     (if n = 0 then Inl ''worker confidence is missing'' else if n = 1 then Inr Exact else if n = 2 then Inr Inferred
      else Inl ''worker confidence is unknown'')"

lemma confidence_wire_iff [wire_iff]: "confidence_from_wire n = Inr k \<longleftrightarrow> n = confidence_to_wire k"
  by (cases k rule: confidence_to_wire.cases) (simp_all add: confidence_from_wire_def)

lemma confidence_wire_inj [simp]: "confidence_to_wire k = confidence_to_wire l \<longleftrightarrow> k = l"
  using confidence_wire_iff by (metis sum.inject(2))


fun provenance_to_wire :: "provenance \<Rightarrow> i32" where
  "provenance_to_wire Ast = 1"
| "provenance_to_wire Compiler = 2"
| "provenance_to_wire Descriptor = 3"
| "provenance_to_wire Generated = 4"
| "provenance_to_wire UniqueNameHeuristic = 5"

definition provenance_from_wire :: "i32 \<Rightarrow> string + provenance" where
  "provenance_from_wire n =
     (if n = 0 then Inl ''worker provenance is missing'' else if n = 1 then Inr Ast else if n = 2 then Inr Compiler
      else if n = 3 then Inr Descriptor else if n = 4 then Inr Generated else if n = 5 then Inr UniqueNameHeuristic
      else Inl ''worker provenance is unknown'')"

lemma provenance_wire_iff [wire_iff]: "provenance_from_wire n = Inr k \<longleftrightarrow> n = provenance_to_wire k"
  by (cases k rule: provenance_to_wire.cases) (simp_all add: provenance_from_wire_def)

lemma provenance_wire_inj [simp]: "provenance_to_wire k = provenance_to_wire l \<longleftrightarrow> k = l"
  using provenance_wire_iff by (metis sum.inject(2))


fun contribution_completeness_to_wire :: "contribution_completeness \<Rightarrow> i32" where
  "contribution_completeness_to_wire CompleteContribution = 1"
| "contribution_completeness_to_wire IncompleteContribution = 2"

definition contribution_completeness_from_wire :: "i32 \<Rightarrow> string + contribution_completeness" where
  "contribution_completeness_from_wire n =
     (if n = 0 then Inl ''worker analysis completeness is missing'' else if n = 1 then Inr CompleteContribution
      else if n = 2 then Inr IncompleteContribution else Inl ''worker analysis completeness is unknown'')"

lemma contribution_completeness_wire_iff [wire_iff]: "contribution_completeness_from_wire n = Inr k \<longleftrightarrow> n = contribution_completeness_to_wire k"
  by (cases k rule: contribution_completeness_to_wire.cases) (simp_all add: contribution_completeness_from_wire_def)

lemma contribution_completeness_wire_inj [simp]: "contribution_completeness_to_wire k = contribution_completeness_to_wire l \<longleftrightarrow> k = l"
  using contribution_completeness_wire_iff by (metis sum.inject(2))


fun input_kind_to_wire :: "input_kind \<Rightarrow> i32" where
  "input_kind_to_wire Inventory.Source = 1"
| "input_kind_to_wire ProtobufDescriptor = 2"

definition input_kind_from_wire :: "i32 \<Rightarrow> string + input_kind" where
  "input_kind_from_wire n =
     (if n = 0 then Inl ''worker input kind is missing'' else if n = 1 then Inr Inventory.Source
      else if n = 2 then Inr ProtobufDescriptor else Inl ''worker input kind is unknown'')"

lemma input_kind_wire_iff [wire_iff]: "input_kind_from_wire n = Inr k \<longleftrightarrow> n = input_kind_to_wire k"
  by (cases k rule: input_kind_to_wire.cases) (simp_all add: input_kind_from_wire_def)

lemma input_kind_wire_inj [simp]: "input_kind_to_wire k = input_kind_to_wire l \<longleftrightarrow> k = l"
  using input_kind_wire_iff by (metis sum.inject(2))


fun worker_relation_to_wire :: "semantic_relation \<Rightarrow> i32" where
  "worker_relation_to_wire (Dependency Calls) = 1"
| "worker_relation_to_wire (Dependency CallsRpc) = 2"
| "worker_relation_to_wire (Dependency ConsumedBy) = 3"
| "worker_relation_to_wire (Structural Defines) = 4"
| "worker_relation_to_wire (Dependency ImplementedBy) = 5"
| "worker_relation_to_wire (Dependency Publishes) = 6"
| "worker_relation_to_wire (Dependency ResolvedBy) = 7"
| "worker_relation_to_wire (Dependency Selects) = 8"
| "worker_relation_to_wire (Dependency Uses) = 9"
| "worker_relation_to_wire (Structural FieldOf) = 10"
| "worker_relation_to_wire (Structural RequestType) = 11"
| "worker_relation_to_wire (Structural ResponseType) = 12"
| "worker_relation_to_wire (Dependency Imports) = 13"
| "worker_relation_to_wire (Dependency Requires) = 14"
| "worker_relation_to_wire (Dependency Implements) = 15"
| "worker_relation_to_wire (Dependency BindsContract) = 16"
| "worker_relation_to_wire (Dependency CallsGraphql) = 17"

definition worker_relation_from_wire :: "i32 \<Rightarrow> string + semantic_relation" where
  "worker_relation_from_wire n =
     (if n = 0 then Inl ''worker relation is missing'' else if n = 1 then Inr (Dependency Calls)
      else if n = 2 then Inr (Dependency CallsRpc) else if n = 3 then Inr (Dependency ConsumedBy)
      else if n = 4 then Inr (Structural Defines) else if n = 5 then Inr (Dependency ImplementedBy)
      else if n = 6 then Inr (Dependency Publishes) else if n = 7 then Inr (Dependency ResolvedBy)
      else if n = 8 then Inr (Dependency Selects) else if n = 9 then Inr (Dependency Uses)
      else if n = 10 then Inr (Structural FieldOf) else if n = 11 then Inr (Structural RequestType)
      else if n = 12 then Inr (Structural ResponseType) else if n = 13 then Inr (Dependency Imports)
      else if n = 14 then Inr (Dependency Requires) else if n = 15 then Inr (Dependency Implements)
      else if n = 16 then Inr (Dependency BindsContract) else if n = 17 then Inr (Dependency CallsGraphql)
      else Inl ''worker relation is unknown'')"

lemma worker_relation_wire_iff [wire_iff]: "worker_relation_from_wire n = Inr k \<longleftrightarrow> n = worker_relation_to_wire k"
  by (cases k rule: worker_relation_to_wire.cases) (simp_all add: worker_relation_from_wire_def)

lemma worker_relation_wire_inj [simp]: "worker_relation_to_wire k = worker_relation_to_wire l \<longleftrightarrow> k = l"
  using worker_relation_wire_iff by (metis sum.inject(2))


fun plugin_scope_to_wire :: "plugin_input_scope \<Rightarrow> i32" where
  "plugin_scope_to_wire TargetScope = 1"
| "plugin_scope_to_wire ContextScope = 2"

definition plugin_scope_from_wire :: "i32 \<Rightarrow> string + plugin_input_scope" where
  "plugin_scope_from_wire n =
     (if n = 0 then Inl ''plugin input scope is missing'' else if n = 1 then Inr TargetScope
      else if n = 2 then Inr ContextScope else Inl ''plugin input scope is unknown'')"

lemma plugin_scope_wire_iff [wire_iff]: "plugin_scope_from_wire n = Inr k \<longleftrightarrow> n = plugin_scope_to_wire k"
  by (cases k rule: plugin_scope_to_wire.cases) (simp_all add: plugin_scope_from_wire_def)

lemma plugin_scope_wire_inj [simp]: "plugin_scope_to_wire k = plugin_scope_to_wire l \<longleftrightarrow> k = l"
  using plugin_scope_wire_iff by (metis sum.inject(2))


fun plugin_input_kind_to_wire :: "analysis_input_kind \<Rightarrow> i32" where
  "plugin_input_kind_to_wire SourceInput = 1"
| "plugin_input_kind_to_wire ConfigurationInput = 2"
| "plugin_input_kind_to_wire DependencyInput = 3"
| "plugin_input_kind_to_wire ToolchainInput = 4"
| "plugin_input_kind_to_wire EnvironmentInput = 5"

definition plugin_input_kind_from_wire :: "i32 \<Rightarrow> string + analysis_input_kind" where
  "plugin_input_kind_from_wire n =
     (if n = 0 then Inl ''plugin input kind is missing'' else if n = 1 then Inr SourceInput
      else if n = 2 then Inr ConfigurationInput else if n = 3 then Inr DependencyInput else if n = 4 then Inr ToolchainInput
      else if n = 5 then Inr EnvironmentInput else Inl ''plugin input kind is unknown'')"

lemma plugin_input_kind_wire_iff [wire_iff]: "plugin_input_kind_from_wire n = Inr k \<longleftrightarrow> n = plugin_input_kind_to_wire k"
  by (cases k rule: plugin_input_kind_to_wire.cases) (simp_all add: plugin_input_kind_from_wire_def)

lemma plugin_input_kind_wire_inj [simp]: "plugin_input_kind_to_wire k = plugin_input_kind_to_wire l \<longleftrightarrow> k = l"
  using plugin_input_kind_wire_iff by (metis sum.inject(2))


fun plugin_entity_kind_to_wire :: "entity_kind \<Rightarrow> i32" where
  "plugin_entity_kind_to_wire Callable = 1"
| "plugin_entity_kind_to_wire GraphqlArgument = 2"
| "plugin_entity_kind_to_wire GraphqlEnumValue = 3"
| "plugin_entity_kind_to_wire GraphqlField = 4"
| "plugin_entity_kind_to_wire GraphqlOperation = 5"
| "plugin_entity_kind_to_wire GraphqlType = 6"
| "plugin_entity_kind_to_wire GrpcOperation = 7"
| "plugin_entity_kind_to_wire KafkaTopic = 8"
| "plugin_entity_kind_to_wire Namespace = 9"
| "plugin_entity_kind_to_wire ProtoField = 10"
| "plugin_entity_kind_to_wire ProtoMethod = 11"
| "plugin_entity_kind_to_wire ProtoService = 12"
| "plugin_entity_kind_to_wire ProtoType = 13"
| "plugin_entity_kind_to_wire Service = 14"
| "plugin_entity_kind_to_wire UnityPrefab = 15"

definition plugin_entity_kind_from_wire :: "i32 \<Rightarrow> string + entity_kind" where
  "plugin_entity_kind_from_wire n =
     (if n = 0 then Inl ''plugin entity kind is missing'' else if n = 1 then Inr Callable
      else if n = 2 then Inr GraphqlArgument else if n = 3 then Inr GraphqlEnumValue else if n = 4 then Inr GraphqlField
      else if n = 5 then Inr GraphqlOperation else if n = 6 then Inr GraphqlType else if n = 7 then Inr GrpcOperation
      else if n = 8 then Inr KafkaTopic else if n = 9 then Inr Namespace else if n = 10 then Inr ProtoField
      else if n = 11 then Inr ProtoMethod else if n = 12 then Inr ProtoService else if n = 13 then Inr ProtoType
      else if n = 14 then Inr Service else if n = 15 then Inr UnityPrefab else Inl ''plugin entity kind is unknown'')"

lemma plugin_entity_kind_wire_iff [wire_iff]: "plugin_entity_kind_from_wire n = Inr k \<longleftrightarrow> n = plugin_entity_kind_to_wire k"
  by (cases k rule: plugin_entity_kind_to_wire.cases) (simp_all add: plugin_entity_kind_from_wire_def)

lemma plugin_entity_kind_wire_inj [simp]: "plugin_entity_kind_to_wire k = plugin_entity_kind_to_wire l \<longleftrightarrow> k = l"
  using plugin_entity_kind_wire_iff by (metis sum.inject(2))


section \<open>Evidence\<close>

record evidence_json =
  jn_print :: "evidence_payload \<Rightarrow> string + string"
  jn_parse :: "string \<Rightarrow> evidence_payload option"

definition evidence_parts :: "evidence_json \<Rightarrow> evidence \<Rightarrow> wire_source_range option \<times> wire_evidence_context list" where
  "evidence_parts js e =
     (let payload = evidence_decode (jn_parse js) e in
      (map_option range_to_wire (ep_range payload), map context_to_wire (ep_contexts payload)))"

definition evidence_of_parts ::
    "evidence_json \<Rightarrow> string \<Rightarrow> wire_source_range option \<Rightarrow> wire_evidence_context list \<Rightarrow> string + evidence" where
  "evidence_of_parts js e extent contexts =
     (if extent = None \<and> contexts = [] then Inr e
      else let payload = evidence_decode (jn_parse js) e in
        rbind (try_option range_from_wire extent) (\<lambda>range.
        rbind (try_map context_from_wire contexts) (\<lambda>contexts.
          evidence_structured (jn_print js) (payload\<lparr>ep_range := range, ep_contexts := contexts\<rparr>))))"

text \<open>
  Evidence survives if it has no range and no contexts, or is the text its payload is printed as.
\<close>

definition evidence_canonical :: "evidence_json \<Rightarrow> evidence \<Rightarrow> bool" where
  "evidence_canonical js e \<longleftrightarrow>
     (let payload = evidence_decode (jn_parse js) e in
      ep_range payload = None \<and> ep_contexts payload = [] \<or> evidence_structured (jn_print js) payload = Inr e)"

lemma decoded_payload_valid: "payload_validate (evidence_decode parse e) = Inr ()"
  by (simp add: evidence_decode_def payload_legacy_valid split: option.split)

lemma decoded_parts_valid:
  "pred_option range_is_valid (ep_range (evidence_decode parse e))" "list_all context_is_valid (ep_contexts (evidence_decode parse e))"
  using decoded_payload_valid [of parse e] by (auto simp: payload_validate_def pred_option_def list_ex_iff list_all_iff split: if_splits option.splits)

lemma evidence_parts_of: "(case evidence_parts js e of (extent, contexts) \<Rightarrow> evidence_of_parts js e extent contexts) = Inr e \<longleftrightarrow> evidence_canonical js e"
proof -
  let ?p = "evidence_decode (jn_parse js) e"
  have "try_option range_from_wire (map_option range_to_wire (ep_range ?p)) = Inr (ep_range ?p)"
    using decoded_parts_valid(1) [of "jn_parse js" e] by (simp add: try_option_iff [OF range_wire_iff])
  moreover have "try_map context_from_wire (map context_to_wire (ep_contexts ?p)) = Inr (ep_contexts ?p)"
    using decoded_parts_valid(2) [of "jn_parse js" e] by (simp add: try_map_iff [OF context_wire_iff])
  ultimately show ?thesis
    by (auto simp: evidence_parts_def evidence_of_parts_def evidence_canonical_def Let_def)
qed

section \<open>Facts\<close>

record wire_entity_fact =
  wef_id :: string
  wef_kind :: i32
  wef_metadata :: "wire_entity_metadata option"

text \<open>The kind of the message is \<open>v1::EntityKind\<close>: RPCs with and without metadata are two kinds here.\<close>

definition fact_kind_to_wire :: "entity_fact \<Rightarrow> string + dto_entity_kind" where
  "fact_kind_to_wire e =
     (case ef_kind e of
        Callable \<Rightarrow> Inr EkCallable
      | GraphqlArgument \<Rightarrow> Inr EkGraphqlArgument
      | GraphqlEnumValue \<Rightarrow> Inr EkGraphqlEnumValue
      | GraphqlField \<Rightarrow> Inr EkGraphqlField
      | GraphqlOperation \<Rightarrow> Inr EkGraphqlOperation
      | GraphqlType \<Rightarrow> Inr EkGraphqlType
      | GrpcOperation \<Rightarrow> Inr EkRpc
      | ProtoMethod \<Rightarrow> Inr EkRpc
      | KafkaTopic \<Rightarrow> Inr EkKafkaTopic
      | Namespace \<Rightarrow> Inr EkNamespace
      | ProtoField \<Rightarrow> Inr EkProtoField
      | ProtoService \<Rightarrow> Inr EkProtoService
      | ProtoType \<Rightarrow>
          (case ef_metadata e of
             Some (ProtoTypeMetadata ProtoKindEnum) \<Rightarrow> Inr EkProtoEnum
           | Some (ProtoTypeMetadata ProtoKindMessage) \<Rightarrow> Inr EkProtoMessage
           | _ \<Rightarrow> Inl ''Protobuf type entity metadata is missing'')
      | Service \<Rightarrow> Inr EkService
      | UnityPrefab \<Rightarrow> Inr EkUnityPrefab)"

fun fact_kind_from_wire :: "dto_entity_kind \<Rightarrow> bool \<Rightarrow> string + entity_kind" where
  "fact_kind_from_wire EkUnknown metadata = Inl ''worker entity kind is missing''"
| "fact_kind_from_wire EkCallable metadata = Inr Callable"
| "fact_kind_from_wire EkGraphqlArgument metadata = Inr GraphqlArgument"
| "fact_kind_from_wire EkGraphqlEnumValue metadata = Inr GraphqlEnumValue"
| "fact_kind_from_wire EkGraphqlField metadata = Inr GraphqlField"
| "fact_kind_from_wire EkGraphqlOperation metadata = Inr GraphqlOperation"
| "fact_kind_from_wire EkGraphqlType metadata = Inr GraphqlType"
| "fact_kind_from_wire EkKafkaTopic metadata = Inr KafkaTopic"
| "fact_kind_from_wire EkNamespace metadata = Inr Namespace"
| "fact_kind_from_wire EkProtoFile metadata = Inr Namespace"
| "fact_kind_from_wire EkProtoEnum metadata = Inr ProtoType"
| "fact_kind_from_wire EkProtoMessage metadata = Inr ProtoType"
| "fact_kind_from_wire EkProtoField metadata = Inr ProtoField"
| "fact_kind_from_wire EkProtoService metadata = Inr ProtoService"
| "fact_kind_from_wire EkRpc metadata = Inr (if metadata then ProtoMethod else GrpcOperation)"
| "fact_kind_from_wire EkService metadata = Inr Service"
| "fact_kind_from_wire EkUnityPrefab metadata = Inr UnityPrefab"

fun fact_metadata_to_wire :: "entity_metadata \<Rightarrow> wire_entity_metadata" where
  "fact_metadata_to_wire (GraphqlOperationMetadata kind) = Some (WireGraphqlOperationKind (worker_operation_kind_to_wire kind))"
| "fact_metadata_to_wire (GraphqlTypeMetadata kind) = Some (WireGraphqlTypeKind (worker_graphql_type_kind_to_wire kind))"
| "fact_metadata_to_wire (ProtoMethodMetadata cardinality) = Some (WireRpcCardinality (worker_cardinality_to_wire cardinality))"
| "fact_metadata_to_wire (ProtoTypeMetadata kind) = Some (WireProtoTypeKind (worker_proto_type_kind_to_wire kind))"

fun fact_metadata_from_wire :: "wire_entity_metadata \<Rightarrow> string + entity_metadata" where
  "fact_metadata_from_wire None = Inl ''worker entity metadata is empty''"
| "fact_metadata_from_wire (Some (WireGraphqlOperationKind n)) = rbind (worker_operation_kind_from_wire n) (\<lambda>k. Inr (GraphqlOperationMetadata k))"
| "fact_metadata_from_wire (Some (WireGraphqlTypeKind n)) = rbind (worker_graphql_type_kind_from_wire n) (\<lambda>k. Inr (GraphqlTypeMetadata k))"
| "fact_metadata_from_wire (Some (WireRpcCardinality n)) = rbind (worker_cardinality_from_wire n) (\<lambda>c. Inr (ProtoMethodMetadata c))"
| "fact_metadata_from_wire (Some (WireProtoTypeKind n)) = rbind (worker_proto_type_kind_from_wire n) (\<lambda>k. Inr (ProtoTypeMetadata k))"

definition fact_to_wire :: "entity_fact \<Rightarrow> string + wire_entity_fact" where
  "fact_to_wire e =
     rbind (fact_kind_to_wire e) (\<lambda>kind.
       Inr \<lparr>wef_id = ef_id e, wef_kind = entity_kind_to_wire kind, wef_metadata = map_option fact_metadata_to_wire (ef_metadata e)\<rparr>)"

definition fact_from_wire :: "wire_entity_fact \<Rightarrow> string + entity_fact" where
  "fact_from_wire m =
     rbind (try_option fact_metadata_from_wire (wef_metadata m)) (\<lambda>metadata.
     rbind (case entity_kind_from_wire (wef_kind m) of Inl _ \<Rightarrow> Inl ''worker entity kind is unknown'' | Inr kind \<Rightarrow> Inr kind) (\<lambda>kind.
     rbind (fact_kind_from_wire kind (metadata \<noteq> None)) (\<lambda>kind.
       entity_fact_new (wef_id m) kind metadata)))"

record wire_observation =
  wob_from :: string
  wob_relation :: i32
  wob_to :: string
  wob_evidence :: string
  wob_confidence :: i32
  wob_provenance :: i32
  wob_range :: "wire_source_range option"
  wob_contexts :: "wire_evidence_context list"

definition observation_to_wire :: "evidence_json \<Rightarrow> observation \<Rightarrow> wire_observation" where
  "observation_to_wire js ob =
     (case evidence_parts js (ob_evidence ob) of (extent, contexts) \<Rightarrow>
        \<lparr>wob_from = ob_from ob, wob_relation = worker_relation_to_wire (ob_relation ob), wob_to = ob_to ob,
         wob_evidence = ob_evidence ob, wob_confidence = confidence_to_wire (ob_confidence ob),
         wob_provenance = provenance_to_wire (ob_provenance ob), wob_range = extent, wob_contexts = contexts\<rparr>)"

definition observation_from_wire :: "evidence_json \<Rightarrow> wire_observation \<Rightarrow> string + observation" where
  "observation_from_wire js m =
     rbind (worker_relation_from_wire (wob_relation m)) (\<lambda>relation.
     rbind (evidence_of_parts js (wob_evidence m) (wob_range m) (wob_contexts m)) (\<lambda>evidence.
     rbind (confidence_from_wire (wob_confidence m)) (\<lambda>confidence.
     rbind (provenance_from_wire (wob_provenance m)) (\<lambda>provenance.
       Inr \<lparr>ob_from = wob_from m, ob_relation = relation, ob_to = wob_to m, ob_evidence = evidence,
            ob_confidence = confidence, ob_provenance = provenance\<rparr>))))"

record wire_binding =
  wbn_local_symbol :: string
  wbn_role :: i32
  wbn_service :: string
  wbn_method :: string
  wbn_cardinality :: i32
  wbn_evidence :: string
  wbn_confidence :: i32
  wbn_provenance :: i32
  wbn_range :: "wire_source_range option"
  wbn_contexts :: "wire_evidence_context list"

definition binding_to_wire :: "evidence_json \<Rightarrow> grpc_binding_candidate \<Rightarrow> wire_binding" where
  "binding_to_wire js b =
     (case evidence_parts js (gb_evidence b) of (extent, contexts) \<Rightarrow>
        \<lparr>wbn_local_symbol = gb_local_symbol b, wbn_role = binding_role_to_wire (gb_role b), wbn_service = gb_service b,
         wbn_method = gb_method b, wbn_cardinality = worker_cardinality_to_wire (gb_cardinality b), wbn_evidence = gb_evidence b,
         wbn_confidence = confidence_to_wire (gb_confidence b), wbn_provenance = provenance_to_wire (gb_provenance b),
         wbn_range = extent, wbn_contexts = contexts\<rparr>)"

definition binding_from_wire :: "evidence_json \<Rightarrow> wire_binding \<Rightarrow> string + grpc_binding_candidate" where
  "binding_from_wire js m =
     rbind (binding_role_from_wire (wbn_role m)) (\<lambda>role.
     rbind (worker_cardinality_from_wire (wbn_cardinality m)) (\<lambda>cardinality.
     rbind (evidence_of_parts js (wbn_evidence m) (wbn_range m) (wbn_contexts m)) (\<lambda>evidence.
     rbind (confidence_from_wire (wbn_confidence m)) (\<lambda>confidence.
     rbind (provenance_from_wire (wbn_provenance m)) (\<lambda>provenance.
       Inr \<lparr>gb_local_symbol = wbn_local_symbol m, gb_role = role, gb_service = wbn_service m, gb_method = wbn_method m,
            gb_cardinality = cardinality, gb_evidence = evidence, gb_confidence = confidence, gb_provenance = provenance\<rparr>)))))"

record wire_override =
  wov_from :: string
  wov_relation :: i32
  wov_unresolved_to :: string
  wov_resolved_to :: string
  wov_evidence :: string
  wov_confidence :: i32
  wov_provenance :: i32
  wov_range :: "wire_source_range option"
  wov_contexts :: "wire_evidence_context list"

definition override_to_wire :: "evidence_json \<Rightarrow> dependency_override \<Rightarrow> wire_override" where
  "override_to_wire js ov =
     (case evidence_parts js (do_evidence ov) of (extent, contexts) \<Rightarrow>
        \<lparr>wov_from = do_from ov, wov_relation = worker_relation_to_wire (Dependency (do_relation ov)),
         wov_unresolved_to = do_unresolved_to ov, wov_resolved_to = do_resolved_to ov, wov_evidence = do_evidence ov,
         wov_confidence = confidence_to_wire (do_confidence ov), wov_provenance = provenance_to_wire (do_provenance ov),
         wov_range = extent, wov_contexts = contexts\<rparr>)"

definition override_from_wire :: "evidence_json \<Rightarrow> wire_override \<Rightarrow> string + dependency_override" where
  "override_from_wire js m =
     rbind (worker_relation_from_wire (wov_relation m)) (\<lambda>relation.
     rbind (ok_or (relation_dependency relation) ''worker dependency override used a structural relation'') (\<lambda>relation.
     rbind (evidence_of_parts js (wov_evidence m) (wov_range m) (wov_contexts m)) (\<lambda>evidence.
     rbind (confidence_from_wire (wov_confidence m)) (\<lambda>confidence.
     rbind (provenance_from_wire (wov_provenance m)) (\<lambda>provenance.
       Inr \<lparr>do_from = wov_from m, do_relation = relation, do_unresolved_to = wov_unresolved_to m,
            do_resolved_to = wov_resolved_to m, do_evidence = evidence, do_confidence = confidence, do_provenance = provenance\<rparr>)))))"

record wire_candidate_override =
  wco_candidate_id :: string
  wco_resolved_to :: string
  wco_evidence :: string
  wco_range :: "wire_source_range option"
  wco_contexts :: "wire_evidence_context list"

definition candidate_override_to_wire :: "evidence_json \<Rightarrow> candidate_override \<Rightarrow> wire_candidate_override" where
  "candidate_override_to_wire js ov =
     (case evidence_parts js (co_evidence ov) of (extent, contexts) \<Rightarrow>
        \<lparr>wco_candidate_id = co_candidate_id ov, wco_resolved_to = co_resolved_to ov, wco_evidence = co_evidence ov,
         wco_range = extent, wco_contexts = contexts\<rparr>)"

definition candidate_override_from_wire :: "evidence_json \<Rightarrow> wire_candidate_override \<Rightarrow> string + candidate_override" where
  "candidate_override_from_wire js m =
     rbind (evidence_of_parts js (wco_evidence m) (wco_range m) (wco_contexts m)) (\<lambda>evidence.
       Inr \<lparr>co_candidate_id = wco_candidate_id m, co_resolved_to = wco_resolved_to m, co_evidence = evidence\<rparr>)"

record wire_resolver =
  wrr_repository :: string
  wrr_field :: string
  wrr_parent :: "string option"
  wrr_resolver :: string
  wrr_evidence :: string
  wrr_range :: "wire_source_range option"
  wrr_contexts :: "wire_evidence_context list"

definition resolver_to_wire :: "evidence_json \<Rightarrow> graphql_resolver_candidate \<Rightarrow> wire_resolver" where
  "resolver_to_wire js g =
     (case evidence_parts js (gr_evidence g) of (extent, contexts) \<Rightarrow>
        \<lparr>wrr_repository = gr_repository g, wrr_field = gr_field g, wrr_parent = gr_parent g, wrr_resolver = gr_resolver g,
         wrr_evidence = gr_evidence g, wrr_range = extent, wrr_contexts = contexts\<rparr>)"

definition resolver_from_wire :: "evidence_json \<Rightarrow> wire_resolver \<Rightarrow> string + graphql_resolver_candidate" where
  "resolver_from_wire js m =
     rbind (evidence_of_parts js (wrr_evidence m) (wrr_range m) (wrr_contexts m)) (\<lambda>evidence.
       Inr \<lparr>gr_repository = wrr_repository m, gr_field = wrr_field m, gr_parent = wrr_parent m, gr_resolver = wrr_resolver m,
            gr_evidence = evidence\<rparr>)"

record wire_worker_diagnostic =
  wwd_code :: string
  wwd_severity :: i32
  wwd_path :: string
  wwd_line :: "u32 option"
  wwd_detail :: "string option"

definition worker_diagnostic_to_wire :: "analysis_diagnostic \<Rightarrow> wire_worker_diagnostic" where
  "worker_diagnostic_to_wire d =
     \<lparr>wwd_code = ad_code d, wwd_severity = worker_severity_to_wire (ad_severity d), wwd_path = utf8_lossy (ad_path d),
      wwd_line = ad_line d, wwd_detail = ad_detail d\<rparr>"

definition worker_diagnostic_from_wire :: "wire_worker_diagnostic \<Rightarrow> string + analysis_diagnostic" where
  "worker_diagnostic_from_wire m =
     rbind (worker_severity_from_wire (wwd_severity m)) (\<lambda>severity.
       Inr \<lparr>ad_code = wwd_code m, ad_severity = severity, ad_path = wwd_path m, ad_line = wwd_line m, ad_detail = wwd_detail m\<rparr>)"

record wire_shard =
  wsh_repository :: string
  wsh_producer :: string
  wsh_owner :: string
  wsh_version :: string
  wsh_entities :: "wire_entity_fact list"
  wsh_observations :: "wire_observation list"

definition shard_to_wire :: "evidence_json \<Rightarrow> fact_shard \<Rightarrow> string + wire_shard" where
  "shard_to_wire js s =
     rbind (try_map fact_to_wire (fs_entities s)) (\<lambda>entities.
       Inr \<lparr>wsh_repository = fs_repository s, wsh_producer = fs_producer s, wsh_owner = fs_owner s, wsh_version = fs_version s,
            wsh_entities = entities, wsh_observations = map (observation_to_wire js) (fs_observations s)\<rparr>)"

definition shard_from_wire :: "evidence_json \<Rightarrow> wire_shard \<Rightarrow> string + fact_shard" where
  "shard_from_wire js m =
     rbind (try_map fact_from_wire (wsh_entities m)) (\<lambda>entities.
     rbind (try_map (observation_from_wire js) (wsh_observations m)) (\<lambda>observations.
       Inr \<lparr>fs_repository = wsh_repository m, fs_producer = wsh_producer m, fs_owner = wsh_owner m, fs_version = wsh_version m,
            fs_entities = entities, fs_observations = observations\<rparr>))"

record wire_contribution =
  wrc_repository :: string
  wrc_completeness :: i32
  wrc_entities :: "wire_entity_fact list"
  wrc_grpc_bindings :: "wire_binding list"
  wrc_observations :: "wire_observation list"
  wrc_diagnostics :: "wire_worker_diagnostic list"
  wrc_replaced_diagnostic_codes :: "string list"
  wrc_fact_shards :: "wire_shard list"

text \<open>The semantic candidates of a repository have no field on the wire.\<close>

definition contribution_to_wire :: "evidence_json \<Rightarrow> repository_contribution \<Rightarrow> string + wire_contribution" where
  "contribution_to_wire js c =
     rbind (try_map fact_to_wire (rc_entities c)) (\<lambda>entities.
     rbind (try_map (shard_to_wire js) (rc_fact_shards c)) (\<lambda>shards.
       Inr \<lparr>wrc_repository = rc_repository c, wrc_completeness = contribution_completeness_to_wire (rc_completeness c),
            wrc_entities = entities, wrc_grpc_bindings = map (binding_to_wire js) (rc_grpc_bindings c),
            wrc_observations = map (observation_to_wire js) (rc_observations c),
            wrc_diagnostics = map worker_diagnostic_to_wire (rc_diagnostics c),
            wrc_replaced_diagnostic_codes = rc_replaced_diagnostic_codes c, wrc_fact_shards = shards\<rparr>))"

definition contribution_from_wire :: "evidence_json \<Rightarrow> wire_contribution \<Rightarrow> string + repository_contribution" where
  "contribution_from_wire js m =
     rbind (contribution_completeness_from_wire (wrc_completeness m)) (\<lambda>completeness.
     rbind (try_map fact_from_wire (wrc_entities m)) (\<lambda>entities.
     rbind (try_map (shard_from_wire js) (wrc_fact_shards m)) (\<lambda>shards.
     rbind (try_map (binding_from_wire js) (wrc_grpc_bindings m)) (\<lambda>bindings.
     rbind (try_map (observation_from_wire js) (wrc_observations m)) (\<lambda>observations.
     rbind (try_map worker_diagnostic_from_wire (wrc_diagnostics m)) (\<lambda>diagnostics.
       Inr \<lparr>rc_repository = wrc_repository m, rc_completeness = completeness, rc_entities = entities, rc_grpc_bindings = bindings,
            rc_observations = observations, rc_semantic_candidates = [], rc_diagnostics = diagnostics,
            rc_replaced_diagnostic_codes = bs_of_list (wrc_replaced_diagnostic_codes m), rc_fact_shards = shards\<rparr>))))))"

record wire_span =
  wsp_path :: string
  wsp_start :: "source_position option"
  wsp_end :: "source_position option"

record wire_candidate =
  wcd_id :: string
  wcd_repository :: string
  wcd_from :: string
  wcd_relation :: i32
  wcd_unresolved_to :: string
  wcd_span :: "wire_span option"
  wcd_evidence :: string
  wcd_range :: "wire_source_range option"
  wcd_contexts :: "wire_evidence_context list"

definition candidate_to_wire :: "evidence_json \<Rightarrow> semantic_candidate \<Rightarrow> wire_candidate" where
  "candidate_to_wire js c =
     (case evidence_parts js (sc_evidence c) of (extent, contexts) \<Rightarrow>
        \<lparr>wcd_id = sc_id c, wcd_repository = sc_repository c, wcd_from = sc_from c,
         wcd_relation = worker_relation_to_wire (Dependency (sc_relation c)), wcd_unresolved_to = sc_unresolved_to c,
         wcd_span = Some \<lparr>wsp_path = utf8_lossy (ss_path (sc_span c)), wsp_start = Some (ss_start (sc_span c)),
           wsp_end = Some (ss_end (sc_span c))\<rparr>,
         wcd_evidence = sc_evidence c, wcd_range = extent, wcd_contexts = contexts\<rparr>)"

definition candidate_from_wire :: "evidence_json \<Rightarrow> wire_candidate \<Rightarrow> string + semantic_candidate" where
  "candidate_from_wire js m =
     rbind (worker_relation_from_wire (wcd_relation m)) (\<lambda>relation.
     rbind (ok_or (relation_dependency relation) ''worker semantic candidate used a structural relation'') (\<lambda>relation.
     rbind (ok_or (wcd_span m) ''worker semantic candidate span is missing'') (\<lambda>place.
     rbind (ok_or (wsp_start place) ''worker semantic candidate start is missing'') (\<lambda>start.
     rbind (ok_or (wsp_end place) ''worker semantic candidate end is missing'') (\<lambda>end.
     rbind (evidence_of_parts js (wcd_evidence m) (wcd_range m) (wcd_contexts m)) (\<lambda>evidence.
       Inr \<lparr>sc_id = wcd_id m, sc_repository = wcd_repository m, sc_from = wcd_from m, sc_relation = relation,
            sc_unresolved_to = wcd_unresolved_to m, sc_span = \<lparr>ss_path = wsp_path place, ss_start = start, ss_end = end\<rparr>,
            sc_evidence = evidence\<rparr>))))))"

section \<open>What survives\<close>

text \<open>
  Entities whose metadata fits their kind, as all that \<open>EntityFact::new\<close> makes; canonical evidence;
  paths that are text; codes in order, as a \<open>BTreeSet\<close> has them.
\<close>

lemma fact_metadata_wire_iff [wire_iff]: "fact_metadata_from_wire m = Inr x \<longleftrightarrow> m = fact_metadata_to_wire x"
  by (cases m rule: fact_metadata_from_wire.cases; cases x) (auto simp: wire_iff)

lemma fact_kind_kept:
  assumes "fact_kind_to_wire e = Inr kind" "metadata_matches_kind (ef_kind e) (ef_metadata e)"
  shows "fact_kind_from_wire kind (ef_metadata e \<noteq> None) = Inr (ef_kind e)"
  using assms by (cases "ef_kind e") (auto simp: fact_kind_to_wire_def metadata_matches_kind_def split: option.splits entity_metadata.splits proto_type_kind.splits)

lemma fact_survives:
  assumes "fact_to_wire e = Inr m" "metadata_matches_kind (ef_kind e) (ef_metadata e)"
  shows "fact_from_wire m = Inr e"
proof -
  obtain kind where kind: "fact_kind_to_wire e = Inr kind"
    and m: "m = \<lparr>wef_id = ef_id e, wef_kind = entity_kind_to_wire kind, wef_metadata = map_option fact_metadata_to_wire (ef_metadata e)\<rparr>"
    using assms(1) by (auto simp: fact_to_wire_def rbind_Inr_iff)
  have "try_option fact_metadata_from_wire (map_option fact_metadata_to_wire x) = Inr x" for x
    by (cases x) (simp_all add: fact_metadata_wire_iff [THEN iffD2])
  moreover have "entity_kind_from_wire (entity_kind_to_wire kind) = Inr kind" by (simp add: entity_kind_wire_iff)
  ultimately show ?thesis using fact_kind_kept [OF kind assms(2)] assms(2)
    by (cases e) (simp add: fact_from_wire_def m entity_fact_new_def)
qed

text \<open>Evidence that is canonical is read back, whatever is built around it.\<close>

lemma evidence_survives:
  assumes "evidence_canonical js e" "evidence_parts js e = (extent, contexts)"
  shows "evidence_of_parts js e extent contexts = Inr e"
  using evidence_parts_of [of js e] assms by simp

lemmas enums_survive [simp] =
  worker_relation_wire_iff [THEN iffD2, OF refl] confidence_wire_iff [THEN iffD2, OF refl] provenance_wire_iff [THEN iffD2, OF refl]
  binding_role_wire_iff [THEN iffD2, OF refl] worker_cardinality_wire_iff [THEN iffD2, OF refl] worker_severity_wire_iff [THEN iffD2, OF refl]
  contribution_completeness_wire_iff [THEN iffD2, OF refl] input_kind_wire_iff [THEN iffD2, OF refl]

lemma observation_survives: "evidence_canonical js (ob_evidence ob) \<Longrightarrow> observation_from_wire js (observation_to_wire js ob) = Inr ob"
  by (cases "evidence_parts js (ob_evidence ob)") (simp add: observation_from_wire_def observation_to_wire_def evidence_survives)

lemma binding_survives: "evidence_canonical js (gb_evidence b) \<Longrightarrow> binding_from_wire js (binding_to_wire js b) = Inr b"
  by (cases "evidence_parts js (gb_evidence b)") (simp add: binding_from_wire_def binding_to_wire_def evidence_survives)

lemma override_survives: "evidence_canonical js (do_evidence ov) \<Longrightarrow> override_from_wire js (override_to_wire js ov) = Inr ov"
  by (cases "evidence_parts js (do_evidence ov)") (simp add: override_from_wire_def override_to_wire_def evidence_survives)

lemma candidate_override_survives:
  "evidence_canonical js (co_evidence ov) \<Longrightarrow> candidate_override_from_wire js (candidate_override_to_wire js ov) = Inr ov"
  by (cases "evidence_parts js (co_evidence ov)")
    (simp add: candidate_override_from_wire_def candidate_override_to_wire_def evidence_survives)

lemma resolver_survives: "evidence_canonical js (gr_evidence g) \<Longrightarrow> resolver_from_wire js (resolver_to_wire js g) = Inr g"
  by (cases "evidence_parts js (gr_evidence g)") (simp add: resolver_from_wire_def resolver_to_wire_def evidence_survives)

lemma candidate_survives:
  "evidence_canonical js (sc_evidence c) \<Longrightarrow> utf8_lossy (ss_path (sc_span c)) = ss_path (sc_span c)
     \<Longrightarrow> candidate_from_wire js (candidate_to_wire js c) = Inr c"
  by (cases "evidence_parts js (sc_evidence c)") (simp add: candidate_from_wire_def candidate_to_wire_def evidence_survives)

lemma worker_diagnostic_survives:
  "utf8_lossy (ad_path d) = ad_path d \<Longrightarrow> worker_diagnostic_from_wire (worker_diagnostic_to_wire d) = Inr d"
  by (simp add: worker_diagnostic_from_wire_def worker_diagnostic_to_wire_def)

definition fact_fits :: "entity_fact \<Rightarrow> bool" where
  "fact_fits e \<longleftrightarrow> metadata_matches_kind (ef_kind e) (ef_metadata e)"

definition shard_carried :: "evidence_json \<Rightarrow> fact_shard \<Rightarrow> bool" where
  "shard_carried js s \<longleftrightarrow>
     list_all fact_fits (fs_entities s) \<and> list_all (\<lambda>ob. evidence_canonical js (ob_evidence ob)) (fs_observations s)"

definition contribution_carried :: "evidence_json \<Rightarrow> repository_contribution \<Rightarrow> bool" where
  "contribution_carried js c \<longleftrightarrow>
     list_all fact_fits (rc_entities c)
     \<and> list_all (\<lambda>b. evidence_canonical js (gb_evidence b)) (rc_grpc_bindings c)
     \<and> list_all (\<lambda>ob. evidence_canonical js (ob_evidence ob)) (rc_observations c)
     \<and> list_all (\<lambda>d. utf8_lossy (ad_path d) = ad_path d) (rc_diagnostics c)
     \<and> ascending (rc_replaced_diagnostic_codes c)
     \<and> list_all (shard_carried js) (rc_fact_shards c)"

lemma try_map_survives:
  assumes "try_map f xs = Inr ms" "\<And>x m. x \<in> set xs \<Longrightarrow> f x = Inr m \<Longrightarrow> g m = Inr x"
  shows "try_map g ms = Inr xs"
  using assms by (induction xs arbitrary: ms) (auto simp: rbind_Inr_iff)

lemma map_survives: "(\<And>x. x \<in> set xs \<Longrightarrow> g (f x) = Inr x) \<Longrightarrow> try_map g (map f xs) = Inr xs"
  by (induction xs) auto

lemma shard_survives:
  assumes "shard_to_wire js s = Inr m" "shard_carried js s"
  shows "shard_from_wire js m = Inr s"
proof -
  obtain entities where entities: "try_map fact_to_wire (fs_entities s) = Inr entities"
    and m: "m = \<lparr>wsh_repository = fs_repository s, wsh_producer = fs_producer s, wsh_owner = fs_owner s, wsh_version = fs_version s,
            wsh_entities = entities, wsh_observations = map (observation_to_wire js) (fs_observations s)\<rparr>"
    using assms(1) by (auto simp: shard_to_wire_def rbind_Inr_iff)
  have "try_map fact_from_wire entities = Inr (fs_entities s)"
    by (rule try_map_survives [OF entities])
      (use assms(2) in \<open>simp add: shard_carried_def fact_fits_def list_all_iff fact_survives\<close>)
  moreover have "try_map (observation_from_wire js) (map (observation_to_wire js) (fs_observations s)) = Inr (fs_observations s)"
    using assms(2) by (intro map_survives observation_survives) (simp add: shard_carried_def list_all_iff)
  ultimately show ?thesis by (simp add: shard_from_wire_def m)
qed

lemma contribution_survives:
  assumes "contribution_to_wire js c = Inr m" "contribution_carried js c"
  shows "contribution_from_wire js m = Inr (c\<lparr>rc_semantic_candidates := []\<rparr>)"
proof -
  obtain entities shards where entities: "try_map fact_to_wire (rc_entities c) = Inr entities"
    and shards: "try_map (shard_to_wire js) (rc_fact_shards c) = Inr shards"
    and m: "m = \<lparr>wrc_repository = rc_repository c, wrc_completeness = contribution_completeness_to_wire (rc_completeness c),
            wrc_entities = entities, wrc_grpc_bindings = map (binding_to_wire js) (rc_grpc_bindings c),
            wrc_observations = map (observation_to_wire js) (rc_observations c),
            wrc_diagnostics = map worker_diagnostic_to_wire (rc_diagnostics c),
            wrc_replaced_diagnostic_codes = rc_replaced_diagnostic_codes c, wrc_fact_shards = shards\<rparr>"
    using assms(1) by (auto simp: contribution_to_wire_def rbind_Inr_iff)
  have carried: "list_all fact_fits (rc_entities c)" "list_all (\<lambda>b. evidence_canonical js (gb_evidence b)) (rc_grpc_bindings c)"
    "list_all (\<lambda>ob. evidence_canonical js (ob_evidence ob)) (rc_observations c)"
    "list_all (\<lambda>d. utf8_lossy (ad_path d) = ad_path d) (rc_diagnostics c)" "ascending (rc_replaced_diagnostic_codes c)"
    "list_all (shard_carried js) (rc_fact_shards c)"
    using assms(2) by (simp_all add: contribution_carried_def)
  have "try_map fact_from_wire entities = Inr (rc_entities c)"
    by (rule try_map_survives [OF entities]) (use carried(1) in \<open>simp add: fact_fits_def list_all_iff fact_survives\<close>)
  moreover have "try_map (shard_from_wire js) shards = Inr (rc_fact_shards c)"
    by (rule try_map_survives [OF shards]) (use carried(6) in \<open>simp add: list_all_iff shard_survives\<close>)
  moreover have "try_map (binding_from_wire js) (map (binding_to_wire js) (rc_grpc_bindings c)) = Inr (rc_grpc_bindings c)"
    using carried(2) by (intro map_survives binding_survives) (simp add: list_all_iff)
  moreover have "try_map (observation_from_wire js) (map (observation_to_wire js) (rc_observations c)) = Inr (rc_observations c)"
    using carried(3) by (intro map_survives observation_survives) (simp add: list_all_iff)
  moreover have "try_map worker_diagnostic_from_wire (map worker_diagnostic_to_wire (rc_diagnostics c)) = Inr (rc_diagnostics c)"
    using carried(4) by (intro map_survives worker_diagnostic_survives) (simp add: list_all_iff)
  ultimately show ?thesis using bs_of_list_id [OF carried(5)]
    by (cases c) (simp add: contribution_from_wire_def m)
qed

text \<open>A printer and a parser that know no structured evidence.\<close>

definition plain_json :: evidence_json where
  "plain_json = \<lparr>jn_print = (\<lambda>_. Inl []), jn_parse = (\<lambda>_. None)\<rparr>"

end
