(* ===== verification/Worker_Stream.thy ===== *)
theory Worker_Stream imports Wire_Worker begin

text \<open>
  The conversation with an analyzer worker, \<open>crates/protocol/src/worker.rs\<close>: the descriptor of a plugin,
  the stream of requests that carries a snapshot and the builder that receives it
  (\<open>WorkspaceSnapshotBuilder\<close>), the stream of events that carries a contribution in chunks and the
  accumulator that receives it (\<open>ContributionAccumulator\<close>). \<open>push\<close> and \<open>finish\<close> are the operations
  of the two receivers, an error ends the stream. Counters fit both \<open>usize\<close> and \<open>u64\<close>.
\<close>

section \<open>Descriptors\<close>

datatype wire_matcher = WireExtension string | WireFileName string | WirePathSuffix string

record wire_selector =
  wse_scope :: i32
  wse_kind :: i32
  wse_matcher :: "wire_matcher option"

record wire_descriptor =
  wdr_id :: string
  wdr_api_version :: u32
  wdr_inputs :: "wire_selector list"
  wdr_semantic_entities :: "i32 list"
  wdr_semantic_relations :: "i32 list"
  wdr_produces_entities :: "i32 list"
  wdr_produces_relations :: "i32 list"

text \<open>Sets of kinds and relations are kept in the order of their declarations, as \<open>BTreeSet\<close> does.\<close>

definition entity_kinds_in_order :: "entity_kind list" where
  "entity_kinds_in_order =
     [Callable, GraphqlArgument, GraphqlEnumValue, GraphqlField, GraphqlOperation, GraphqlType, GrpcOperation, KafkaTopic,
      Namespace, ProtoField, ProtoMethod, ProtoService, ProtoType, Service, UnityPrefab]"

definition relations_in_order :: "semantic_relation list" where
  "relations_in_order =
     map Structural [Defines, FieldOf, RequestType, ResponseType]
     @ map Dependency [BindsContract, Calls, CallsGraphql, CallsRpc, ConsumedBy, Implements, ImplementedBy, Imports, Publishes,
         Requires, ResolvedBy, Selects, Uses]"

definition collect_kinds :: "entity_kind list \<Rightarrow> entity_kind list" where
  "collect_kinds kinds = filter (\<lambda>k. k \<in> set kinds) entity_kinds_in_order"

definition collect_relations :: "semantic_relation list \<Rightarrow> semantic_relation list" where
  "collect_relations relations = filter (\<lambda>r. r \<in> set relations) relations_in_order"

fun matcher_to_wire :: "plugin_path_matcher \<Rightarrow> wire_matcher" where
  "matcher_to_wire (Extension value) = WireExtension value"
| "matcher_to_wire (FileName value) = WireFileName value"
| "matcher_to_wire (PathSuffix value) = WirePathSuffix (utf8_lossy value)"

fun matcher_from_wire :: "wire_matcher \<Rightarrow> plugin_path_matcher" where
  "matcher_from_wire (WireExtension value) = Extension value"
| "matcher_from_wire (WireFileName value) = FileName value"
| "matcher_from_wire (WirePathSuffix value) = PathSuffix value"

definition selector_to_wire :: "plugin_input_selector \<Rightarrow> wire_selector" where
  "selector_to_wire s =
     \<lparr>wse_scope = plugin_scope_to_wire (pis_scope s), wse_kind = plugin_input_kind_to_wire (pis_kind s),
      wse_matcher = Some (matcher_to_wire (pis_matcher s))\<rparr>"

definition selector_from_wire :: "wire_selector \<Rightarrow> string + plugin_input_selector" where
  "selector_from_wire m =
     rbind (plugin_scope_from_wire (wse_scope m)) (\<lambda>scope.
     rbind (plugin_input_kind_from_wire (wse_kind m)) (\<lambda>kind.
     rbind (ok_or (wse_matcher m) ''plugin input matcher is missing'') (\<lambda>matcher.
       Inr \<lparr>pis_scope = scope, pis_matcher = matcher_from_wire matcher, pis_kind = kind\<rparr>)))"

definition descriptor_to_wire :: "plugin_descriptor \<Rightarrow> wire_descriptor" where
  "descriptor_to_wire d =
     \<lparr>wdr_id = pd_id d, wdr_api_version = pd_api_version d, wdr_inputs = map selector_to_wire (pd_inputs d),
      wdr_semantic_entities = map plugin_entity_kind_to_wire (pd_semantic_entities d),
      wdr_semantic_relations = map worker_relation_to_wire (pd_semantic_relations d),
      wdr_produces_entities = map plugin_entity_kind_to_wire (pd_produces_entities d),
      wdr_produces_relations = map worker_relation_to_wire (pd_produces_relations d)\<rparr>"

definition descriptor_from_wire :: "wire_descriptor \<Rightarrow> string + plugin_descriptor" where
  "descriptor_from_wire m =
     rbind (try_map selector_from_wire (wdr_inputs m)) (\<lambda>inputs.
     rbind (try_map plugin_entity_kind_from_wire (wdr_semantic_entities m)) (\<lambda>semantic_entities.
     rbind (try_map worker_relation_from_wire (wdr_semantic_relations m)) (\<lambda>semantic_relations.
     rbind (try_map plugin_entity_kind_from_wire (wdr_produces_entities m)) (\<lambda>produces_entities.
     rbind (try_map worker_relation_from_wire (wdr_produces_relations m)) (\<lambda>produces_relations.
       let descriptor =
         \<lparr>pd_id = wdr_id m, pd_api_version = wdr_api_version m, pd_inputs = inputs,
          pd_semantic_entities = collect_kinds semantic_entities, pd_semantic_relations = collect_relations semantic_relations,
          pd_produces_entities = collect_kinds produces_entities, pd_produces_relations = collect_relations produces_relations\<rparr>
       in rbind (descriptor_validate descriptor) (\<lambda>_. Inr descriptor))))))"

definition selector_text :: "plugin_input_selector \<Rightarrow> bool" where
  "selector_text s \<longleftrightarrow> (case pis_matcher s of PathSuffix p \<Rightarrow> utf8_lossy p = p | _ \<Rightarrow> True)"

definition descriptor_carried :: "plugin_descriptor \<Rightarrow> bool" where
  "descriptor_carried d \<longleftrightarrow>
     list_all selector_text (pd_inputs d)
     \<and> collect_kinds (pd_semantic_entities d) = pd_semantic_entities d \<and> collect_relations (pd_semantic_relations d) = pd_semantic_relations d
     \<and> collect_kinds (pd_produces_entities d) = pd_produces_entities d \<and> collect_relations (pd_produces_relations d) = pd_produces_relations d"

lemma selector_survives: "selector_from_wire (selector_to_wire s) = Inr s' \<longleftrightarrow>
    s' = s\<lparr>pis_matcher := matcher_from_wire (matcher_to_wire (pis_matcher s))\<rparr>"
proof -
  have "plugin_scope_from_wire (plugin_scope_to_wire x) = Inr x" "plugin_input_kind_from_wire (plugin_input_kind_to_wire k) = Inr k" for x k
    by (simp_all add: plugin_scope_wire_iff plugin_input_kind_wire_iff)
  then show ?thesis by (cases s) (auto simp: selector_from_wire_def selector_to_wire_def)
qed

lemma selectors_survive: "try_map selector_from_wire (map selector_to_wire ss) = Inr ss \<longleftrightarrow> list_all selector_text ss"
proof (induction ss)
  case (Cons s ss)
  obtain x where x: "selector_from_wire (selector_to_wire s) = Inr x" "x = s\<lparr>pis_matcher := matcher_from_wire (matcher_to_wire (pis_matcher s))\<rparr>"
    using selector_survives by blast
  have "x = s \<longleftrightarrow> selector_text s" unfolding x(2) by (cases s; cases "pis_matcher s") (simp_all add: selector_text_def)
  then show ?case using Cons.IH x(1) by (auto simp: rbind_Inr_iff)
qed simp

lemmas plugin_kinds_wire_iff = try_map_total [OF plugin_entity_kind_wire_iff]
lemmas worker_relations_wire_iff = try_map_total [OF worker_relation_wire_iff]

lemma wire_lists_survive [simp]:
  "try_map plugin_entity_kind_from_wire (map plugin_entity_kind_to_wire ks) = Inr ks"
  "try_map worker_relation_from_wire (map worker_relation_to_wire rs) = Inr rs"
  by (simp_all add: plugin_kinds_wire_iff worker_relations_wire_iff)

text \<open>
  A plugin introduces itself with a valid descriptor or not at all: whatever message is accepted is
  the descriptor of a plugin the host supports, and a descriptor arrives as it was sent exactly when it
  is valid, its path suffixes are text and its sets are in order.
\<close>

theorem plugin_descriptors_validated:
  "(case descriptor_from_wire m of Inl _ \<Rightarrow> True | Inr d \<Rightarrow> descriptor_validate d = Inr () \<and> pd_id d = wdr_id m \<and> pd_api_version d = PLUGIN_API_VERSION)
   \<and> (descriptor_from_wire (descriptor_to_wire d) = Inr d \<longleftrightarrow> descriptor_validate d = Inr () \<and> descriptor_carried d)"
proof
  show "case descriptor_from_wire m of Inl _ \<Rightarrow> True
      | Inr d \<Rightarrow> descriptor_validate d = Inr () \<and> pd_id d = wdr_id m \<and> pd_api_version d = PLUGIN_API_VERSION"
  proof (cases "descriptor_from_wire m")
    case (Inr d)
    then have "descriptor_validate d = Inr ()" "pd_id d = wdr_id m"
      by (auto simp: descriptor_from_wire_def rbind_Inr_iff Let_def)
    moreover from this(1) have "pd_api_version d = PLUGIN_API_VERSION" by (auto simp: descriptor_validate_def split: if_splits)
    ultimately show ?thesis using Inr by simp
  qed simp
  show "descriptor_from_wire (descriptor_to_wire d) = Inr d \<longleftrightarrow> descriptor_validate d = Inr () \<and> descriptor_carried d"
    by (cases d) (auto simp: descriptor_from_wire_def descriptor_to_wire_def descriptor_carried_def rbind_Inr_iff Let_def selectors_survive)
qed

section \<open>Requests\<close>

record wire_repository_start =
  wst_identity :: string
  wst_base :: string
  wst_head :: "string option"
  wst_fingerprint :: string
  wst_target :: bool

record wire_repository_input =
  win_repository :: string
  win_path :: string
  win_content :: string
  win_kind :: i32
  win_content_hash :: string

datatype wire_request =
    RequestStart string
  | RequestRepository wire_repository_start
  | RequestInput wire_repository_input
  | RequestFinish
  | RequestEntity "wire_entity_fact option"
  | RequestObservation "wire_observation option"
  | RequestCandidate "wire_candidate option"

type_synonym wire_analyze_request = "wire_request option"

definition input_request :: "(string \<Rightarrow> string) \<Rightarrow> string \<Rightarrow> repository_input \<Rightarrow> wire_analyze_request" where
  "input_request digest identity input =
     Some (RequestInput
       \<lparr>win_repository = identity, win_path = utf8_lossy (path_text (ri_path input)), win_content = ri_content input,
        win_kind = input_kind_to_wire (ri_kind input), win_content_hash = digest (ri_content input)\<rparr>)"

definition repository_requests :: "(string \<Rightarrow> string) \<Rightarrow> string \<Rightarrow> repository_snapshot \<Rightarrow> wire_analyze_request list" where
  "repository_requests digest target r =
     (let identity = rs_identity (rp_state r) in
      Some (RequestRepository
        \<lparr>wst_identity = identity, wst_base = utf8_lossy (rp_base r), wst_head = rs_head (rp_state r),
         wst_fingerprint = rs_fingerprint (rp_state r), wst_target = (identity = target)\<rparr>)
      # map (input_request digest identity) (rp_inputs r))"

definition analyze_requests :: "evidence_json \<Rightarrow> (string \<Rightarrow> string) \<Rightarrow> enrichment_snapshot \<Rightarrow> string + wire_analyze_request list" where
  "analyze_requests js digest s =
     rbind (try_map fact_to_wire (sm_entities (es_baseline s))) (\<lambda>entities.
       Inr (Some (RequestStart (wn_name (es_workspace s)))
         # concat (map (repository_requests digest (es_target_repository s)) (wn_repositories (es_workspace s)))
         @ map (\<lambda>e. Some (RequestEntity (Some e))) entities
         @ map (\<lambda>ob. Some (RequestObservation (Some (observation_to_wire js ob)))) (sm_observations (es_baseline s))
         @ map (\<lambda>c. Some (RequestCandidate (Some (candidate_to_wire js c)))) (sm_candidates (es_baseline s))
         @ [Some RequestFinish]))"

record snapshot_builder =
  sb_name :: "string option"
  sb_repositories :: "(string, repository_snapshot) bmap"
  sb_target :: "string option"
  sb_baseline :: semantic_snapshot
  sb_finished :: bool

definition new_snapshot_builder :: snapshot_builder where
  "new_snapshot_builder =
     \<lparr>sb_name = None, sb_repositories = [], sb_target = None,
      sb_baseline = \<lparr>sm_entities = [], sm_observations = [], sm_candidates = []\<rparr>, sb_finished = False\<rparr>"

definition push_repository :: "wire_repository_start \<Rightarrow> snapshot_builder \<Rightarrow> string + snapshot_builder" where
  "push_repository start b =
     (let identity = wst_identity start in
      if sb_name b = None then Inl ''worker repository preceded analysis start''
      else if wst_target start \<and> sb_target b \<noteq> None then Inl ''worker analysis identified more than one target repository''
      else if map_of (sb_repositories b) identity \<noteq> None then Inl ''worker repository appeared more than once''
      else Inr (b
        \<lparr>sb_target := (if wst_target start then Some identity else sb_target b),
         sb_repositories := bm_put identity
           \<lparr>rp_base = wst_base start,
            rp_state = \<lparr>rs_repository = \<lparr>lr_identity = identity\<rparr>, rs_head = wst_head start, rs_fingerprint = wst_fingerprint start\<rparr>,
            rp_inputs = []\<rparr> (sb_repositories b)\<rparr>))"

definition push_input :: "wire_repository_input \<Rightarrow> snapshot_builder \<Rightarrow> string + snapshot_builder" where
  "push_input input b =
     rbind (ok_or (map_of (sb_repositories b) (win_repository input)) ''worker input references an unknown repository'') (\<lambda>r.
     rbind (input_kind_from_wire (win_kind input)) (\<lambda>kind.
       Inr (b\<lparr>sb_repositories := bm_put (win_repository input)
         (r\<lparr>rp_inputs := rp_inputs r @ [\<lparr>ri_path = path_components (win_path input), ri_content = win_content input, ri_kind = kind\<rparr>]\<rparr>)
         (sb_repositories b)\<rparr>)))"

fun push_request :: "evidence_json \<Rightarrow> wire_request \<Rightarrow> snapshot_builder \<Rightarrow> string + snapshot_builder" where
  "push_request js (RequestStart workspace) b =
     (if sb_name b \<noteq> None then Inl ''worker analysis started more than once'' else Inr (b\<lparr>sb_name := Some workspace\<rparr>))"
| "push_request js (RequestRepository start) b = push_repository start b"
| "push_request js (RequestInput input) b = push_input input b"
| "push_request js (RequestEntity message) b =
     rbind (ok_or message ''worker baseline entity is missing'') (\<lambda>message.
     rbind (fact_from_wire message) (\<lambda>e.
       Inr (b\<lparr>sb_baseline := (sb_baseline b)\<lparr>sm_entities := sm_entities (sb_baseline b) @ [e]\<rparr>\<rparr>)))"
| "push_request js (RequestObservation message) b =
     rbind (ok_or message ''worker baseline observation is missing'') (\<lambda>message.
     rbind (observation_from_wire js message) (\<lambda>ob.
       Inr (b\<lparr>sb_baseline := (sb_baseline b)\<lparr>sm_observations := sm_observations (sb_baseline b) @ [ob]\<rparr>\<rparr>)))"
| "push_request js (RequestCandidate message) b =
     rbind (ok_or message ''worker baseline candidate is missing'') (\<lambda>message.
     rbind (candidate_from_wire js message) (\<lambda>c.
       Inr (b\<lparr>sb_baseline := (sb_baseline b)\<lparr>sm_candidates := sm_candidates (sb_baseline b) @ [c]\<rparr>\<rparr>)))"
| "push_request js RequestFinish b = Inr (b\<lparr>sb_finished := True\<rparr>)"

definition push_snapshot :: "evidence_json \<Rightarrow> wire_analyze_request \<Rightarrow> snapshot_builder \<Rightarrow> string + snapshot_builder" where
  "push_snapshot js request b =
     (if sb_finished b then Inl ''worker request followed analysis finish''
      else rbind (ok_or request ''worker request is empty'') (\<lambda>request. push_request js request b))"

definition finish_snapshot :: "snapshot_builder \<Rightarrow> string + enrichment_snapshot" where
  "finish_snapshot b =
     (if \<not> sb_finished b then Inl ''worker request stream ended before analysis finish''
      else rbind (ok_or (sb_target b) ''worker request stream omitted its target repository'') (\<lambda>identity.
           rbind (ok_or (map_of (sb_repositories b) identity) ''worker target repository is missing from its snapshot'') (\<lambda>target.
           rbind (ok_or (sb_name b) ''worker request stream omitted analysis start'') (\<lambda>name.
             Inr \<lparr>es_target_repository = identity,
                  es_workspace = \<lparr>wn_name = name, wn_repositories = target # map snd (bm_remove identity (sb_repositories b))\<rparr>,
                  es_baseline = sb_baseline b\<rparr>))))"

definition read_snapshot :: "evidence_json \<Rightarrow> wire_analyze_request list \<Rightarrow> string + enrichment_snapshot" where
  "read_snapshot js requests = rbind (try_fold (push_snapshot js) requests new_snapshot_builder) finish_snapshot"

text \<open>
  The builder is sound: a stream that it accepts starts once, finishes once and at its end, names one
  target, and names no repository twice. \<open>streamed\<close> is what it knows after the requests so far.
\<close>

definition starts :: "wire_analyze_request list \<Rightarrow> string list" where
  "starts requests = List.map_filter (\<lambda>r. case r of Some (RequestStart w) \<Rightarrow> Some w | _ \<Rightarrow> None) requests"

definition repository_starts :: "wire_analyze_request list \<Rightarrow> wire_repository_start list" where
  "repository_starts requests = List.map_filter (\<lambda>r. case r of Some (RequestRepository s) \<Rightarrow> Some s | _ \<Rightarrow> None) requests"

definition inputs_for :: "string \<Rightarrow> wire_analyze_request list \<Rightarrow> wire_repository_input list" where
  "inputs_for identity requests =
     List.map_filter (\<lambda>r. case r of Some (RequestInput i) \<Rightarrow> if win_repository i = identity then Some i else None | _ \<Rightarrow> None) requests"

definition input_read :: "wire_repository_input \<Rightarrow> repository_input \<Rightarrow> bool" where
  "input_read m input \<longleftrightarrow>
     ri_path input = path_components (win_path m) \<and> ri_content input = win_content m \<and> win_kind m = input_kind_to_wire (ri_kind input)"

definition repository_read :: "wire_analyze_request list \<Rightarrow> wire_repository_start \<Rightarrow> repository_snapshot \<Rightarrow> bool" where
  "repository_read requests start r \<longleftrightarrow>
     rp_base r = wst_base start \<and> rp_state r = \<lparr>rs_repository = \<lparr>lr_identity = wst_identity start\<rparr>, rs_head = wst_head start,
       rs_fingerprint = wst_fingerprint start\<rparr>
     \<and> list_all2 input_read (inputs_for (wst_identity start) requests) (rp_inputs r)"

definition streamed :: "wire_analyze_request list \<Rightarrow> snapshot_builder \<Rightarrow> bool" where
  "streamed requests b \<longleftrightarrow>
     starts requests = (case sb_name b of None \<Rightarrow> [] | Some w \<Rightarrow> [w])
     \<and> bm_wf (sb_repositories b)
     \<and> distinct (map wst_identity (repository_starts requests))
     \<and> fst ` set (sb_repositories b) = wst_identity ` set (repository_starts requests)
     \<and> list_all (\<lambda>s. \<exists>r. map_of (sb_repositories b) (wst_identity s) = Some r \<and> repository_read requests s r) (repository_starts requests)
     \<and> (\<forall>i. i \<notin> fst ` set (sb_repositories b) \<longrightarrow> inputs_for i requests = [])
     \<and> map wst_identity (filter wst_target (repository_starts requests)) = (case sb_target b of None \<Rightarrow> [] | Some t \<Rightarrow> [t])"

lemma stream_steps [simp]:
  "starts [] = []" "repository_starts [] = []" "inputs_for i [] = []"
  "starts (xs @ ys) = starts xs @ starts ys" "repository_starts (xs @ ys) = repository_starts xs @ repository_starts ys"
  "inputs_for i (xs @ ys) = inputs_for i xs @ inputs_for i ys"
  "starts [r] = (case r of Some (RequestStart w) \<Rightarrow> [w] | _ \<Rightarrow> [])"
  "repository_starts [r] = (case r of Some (RequestRepository s) \<Rightarrow> [s] | _ \<Rightarrow> [])"
  "inputs_for i [r] = (case r of Some (RequestInput m) \<Rightarrow> if win_repository m = i then [m] else [] | _ \<Rightarrow> [])"
  by (auto simp: starts_def repository_starts_def inputs_for_def map_filter_def split: option.splits wire_request.splits)

lemma streamed_new: "streamed [] new_snapshot_builder"
  by (simp add: streamed_def new_snapshot_builder_def)

lemma streamed_same:
  assumes "streamed requests b" "sb_name b' = sb_name b" "sb_repositories b' = sb_repositories b" "sb_target b' = sb_target b"
    and "starts [request] = []" "repository_starts [request] = []" "\<And>i. inputs_for i [request] = []"
  shows "streamed (requests @ [request]) b'"
  using assms by (simp add: streamed_def repository_read_def del: stream_steps(7-9))

lemma streamed_push:
  assumes "streamed requests b" "push_snapshot js request b = Inr b'"
  shows "streamed (requests @ [request]) b' \<and> (sb_finished b' \<longleftrightarrow> request = Some RequestFinish) \<and> \<not> sb_finished b"
proof -
  obtain m where m: "request = Some m" "push_request js m b = Inr b'" "\<not> sb_finished b"
    using assms(2) by (auto simp: push_snapshot_def rbind_Inr_iff ok_or_Inr_eq split: if_splits)
  show ?thesis
  proof (cases m)
    case (RequestRepository s)
    with m have new: "map_of (sb_repositories b) (wst_identity s) = None" and "sb_name b \<noteq> None"
      and target: "\<not> (wst_target s \<and> sb_target b \<noteq> None)"
      and b': "b' = b\<lparr>sb_target := (if wst_target s then Some (wst_identity s) else sb_target b),
         sb_repositories := bm_put (wst_identity s) \<lparr>rp_base = wst_base s,
           rp_state = \<lparr>rs_repository = \<lparr>lr_identity = wst_identity s\<rparr>, rs_head = wst_head s, rs_fingerprint = wst_fingerprint s\<rparr>,
           rp_inputs = []\<rparr> (sb_repositories b)\<rparr>"
      by (auto simp: push_repository_def Let_def split: if_splits)
    from new have fresh: "wst_identity s \<notin> wst_identity ` set (repository_starts requests)"
      using assms(1) by (auto simp: streamed_def map_of_eq_None_iff)
    moreover have "inputs_for (wst_identity s) requests = []" using new assms(1) by (auto simp: streamed_def map_of_eq_None_iff)
    ultimately show ?thesis using assms(1) m(1,3) target RequestRepository
      by (auto simp: streamed_def b' list_all_iff repository_read_def image_iff split: option.splits)
  next
    case (RequestInput i)
    with m obtain r kind where r: "map_of (sb_repositories b) (win_repository i) = Some r" and kind: "win_kind i = input_kind_to_wire kind"
      and b': "b' = b\<lparr>sb_repositories := bm_put (win_repository i)
         (r\<lparr>rp_inputs := rp_inputs r @ [\<lparr>ri_path = path_components (win_path i), ri_content = win_content i, ri_kind = kind\<rparr>]\<rparr>)
         (sb_repositories b)\<rparr>"
      by (auto simp: push_input_def wire_iff)
    have known: "win_repository i \<in> fst ` set (sb_repositories b)" using r by (force dest: map_of_SomeD)
    have "\<exists>q. map_of (sb_repositories b') (wst_identity s) = Some q \<and> repository_read (requests @ [request]) s q"
      if s: "s \<in> set (repository_starts requests)" for s
    proof -
      obtain q where "map_of (sb_repositories b) (wst_identity s) = Some q" "repository_read requests s q"
        using assms(1) s by (auto simp: streamed_def list_all_iff)
      then show ?thesis using r
        by (cases "win_repository i = wst_identity s")
          (auto simp: b' repository_read_def m(1) RequestInput kind input_read_def intro!: list_all2_appendI)
    qed
    then show ?thesis using assms(1) m(1,3) RequestInput known
      by (auto simp: streamed_def b' list_all_iff)
  next
    case (RequestStart w)
    with m have "sb_name b = None" "b' = b\<lparr>sb_name := Some w\<rparr>" by (simp_all split: if_splits)
    then show ?thesis using assms(1) m(1,3) RequestStart by (simp add: streamed_def repository_read_def)
  qed (use m in \<open>auto simp: wire_iff intro!: streamed_same [OF assms(1)]\<close>)
qed

lemma streamed_all:
  "try_fold (push_snapshot js) requests b = Inr b' \<Longrightarrow> streamed before b \<Longrightarrow>
     streamed (before @ requests) b' \<and> (requests \<noteq> [] \<longrightarrow> Some RequestFinish \<notin> set (butlast requests) \<and> \<not> sb_finished b
       \<and> (sb_finished b' \<longleftrightarrow> last requests = Some RequestFinish))"
proof (induction requests arbitrary: b before)
  case (Cons request requests)
  obtain c where c: "push_snapshot js request b = Inr c" "try_fold (push_snapshot js) requests c = Inr b'"
    using Cons.prems(1) by (auto simp: rbind_Inr_iff)
  note step = streamed_push [OF Cons.prems(2) c(1)]
  show ?case using Cons.IH [OF c(2), of "before @ [request]"] step c(2) by auto
qed simp

text \<open>
  C20. What a worker receives is what was streamed, or nothing: a stream of requests that is accepted says
  which workspace it is about once, ends with the one finish, names one target and no repository
  twice, and the snapshot read from it has that target first, every repository named with the inputs
  given for it in their order, and no other repository.
\<close>

theorem snapshot_streams_exact:
  assumes "read_snapshot js requests = Inr s"
  shows "starts requests = [wn_name (es_workspace s)]
    \<and> last requests = Some RequestFinish \<and> Some RequestFinish \<notin> set (butlast requests)
    \<and> map wst_identity (filter wst_target (repository_starts requests)) = [es_target_repository s]
    \<and> distinct (map wst_identity (repository_starts requests))
    \<and> map repository_of (wn_repositories (es_workspace s))
        = es_target_repository s # filter (\<lambda>i. i \<noteq> es_target_repository s) (sort (map wst_identity (repository_starts requests)))
    \<and> list_all (\<lambda>r. list_ex (\<lambda>start. repository_of r = wst_identity start \<and> repository_read requests start r) (repository_starts requests))
        (wn_repositories (es_workspace s))"
proof -
  obtain b where b: "try_fold (push_snapshot js) requests new_snapshot_builder = Inr b" "finish_snapshot b = Inr s"
    using assms by (auto simp: read_snapshot_def rbind_Inr_iff)
  have "requests \<noteq> []" using b by (auto simp: finish_snapshot_def new_snapshot_builder_def)
  then have st: "streamed requests b" and fin: "Some RequestFinish \<notin> set (butlast requests)" "sb_finished b \<longleftrightarrow> last requests = Some RequestFinish"
    using streamed_all [OF b(1) streamed_new] by simp_all
  obtain identity target name where s: "sb_finished b" "sb_target b = Some identity" "map_of (sb_repositories b) identity = Some target"
    "sb_name b = Some name" "s = \<lparr>es_target_repository = identity,
        es_workspace = \<lparr>wn_name = name, wn_repositories = target # map snd (bm_remove identity (sb_repositories b))\<rparr>, es_baseline = sb_baseline b\<rparr>"
    using b(2) by (auto simp: finish_snapshot_def rbind_Inr_iff ok_or_Inr_eq split: if_splits)
  let ?starts = "repository_starts requests"
  have wf: "bm_wf (sb_repositories b)" and keys: "fst ` set (sb_repositories b) = wst_identity ` set ?starts" "distinct (map wst_identity ?starts)"
    and read: "list_all (\<lambda>s. \<exists>r. map_of (sb_repositories b) (wst_identity s) = Some r \<and> repository_read requests s r) ?starts"
    using st by (simp_all add: streamed_def)
  have entry: "\<exists>start \<in> set ?starts. i = wst_identity start \<and> repository_of r = i \<and> repository_read requests start r"
    if i: "(i, r) \<in> set (sb_repositories b)" for i r
  proof -
    have known: "map_of (sb_repositories b) i = Some r" using bm_wf_in_iff [OF wf] i by simp
    obtain start where "start \<in> set ?starts" "i = wst_identity start" using keys(1) i by force
    moreover from this have "repository_read requests start r" using read known by (auto simp: list_all_iff)
    ultimately show ?thesis by (intro bexI [of _ start]) (simp_all add: repository_read_def)
  qed
  have "sort (map wst_identity ?starts) = map fst (sb_repositories b)"
    using wf keys by (intro sorted_distinct_set_unique) (auto simp: bm_wf_def strict_sorted_iff)
  moreover have "map repository_of (map snd (bm_remove identity m)) = filter (\<lambda>i. i \<noteq> identity) (map fst m)"
    if "\<forall>(i, r) \<in> set m. repository_of r = i" for m
    using that by (induction m) (auto simp: bm_remove_def)
  then have "map repository_of (map snd (bm_remove identity (sb_repositories b))) = filter (\<lambda>i. i \<noteq> identity) (map fst (sb_repositories b))"
    using entry by blast
  moreover have "(identity, target) \<in> set (sb_repositories b)" using s(3) by (rule map_of_SomeD)
  note target = entry [OF this]
  have "list_all (\<lambda>r. list_ex (\<lambda>start. repository_of r = wst_identity start \<and> repository_read requests start r) ?starts)
      (wn_repositories (es_workspace s))"
    using target entry by (auto simp: s(5) list_all_iff list_ex_iff bm_remove_def)
  ultimately show ?thesis using st fin s target by (auto simp: streamed_def)
qed
text \<open>A stream of two repositories, the target second.\<close>

definition example_stream :: "wire_analyze_request list" where
  "example_stream =
     [Some (RequestStart ''w''),
      Some (RequestRepository \<lparr>wst_identity = ''a'', wst_base = ''x'', wst_head = None, wst_fingerprint = ''f'', wst_target = False\<rparr>),
      Some (RequestRepository \<lparr>wst_identity = ''b'', wst_base = ''y'', wst_head = None, wst_fingerprint = ''g'', wst_target = True\<rparr>),
      Some (RequestInput \<lparr>win_repository = ''b'', win_path = ''m'', win_content = ''c'', win_kind = input_kind_to_wire Source, win_content_hash = []\<rparr>),
      Some RequestFinish]"

definition example_snapshot :: enrichment_snapshot where
  "example_snapshot =
     \<lparr>es_target_repository = ''b'',
      es_workspace = \<lparr>wn_name = ''w'', wn_repositories =
        [\<lparr>rp_base = ''y'', rp_state = \<lparr>rs_repository = \<lparr>lr_identity = ''b''\<rparr>, rs_head = None, rs_fingerprint = ''g''\<rparr>,
          rp_inputs = [\<lparr>ri_path = path_components ''m'', ri_content = ''c'', ri_kind = Source\<rparr>]\<rparr>,
         \<lparr>rp_base = ''x'', rp_state = \<lparr>rs_repository = \<lparr>lr_identity = ''a''\<rparr>, rs_head = None, rs_fingerprint = ''f''\<rparr>,
          rp_inputs = []\<rparr>]\<rparr>,
      es_baseline = \<lparr>sm_entities = [], sm_observations = [], sm_candidates = []\<rparr>\<rparr>"

lemma example_stream_read: "read_snapshot plain_json example_stream = Inr example_snapshot"
  by (simp add: read_snapshot_def example_stream_def example_snapshot_def push_snapshot_def push_repository_def push_input_def
      new_snapshot_builder_def finish_snapshot_def bm_remove_def Let_def input_kind_from_wire_def)

theorem snapshot_streams_exact_witness:
  "map repository_of (wn_repositories (es_workspace example_snapshot)) = [''b'', ''a'']
   \<and> repository_read example_stream \<lparr>wst_identity = ''b'', wst_base = ''y'', wst_head = None, wst_fingerprint = ''g'', wst_target = True\<rparr>
       (hd (wn_repositories (es_workspace example_snapshot)))"
  using snapshot_streams_exact [OF example_stream_read]
  by (simp add: example_snapshot_def example_stream_def repository_read_def starts_def repository_starts_def inputs_for_def
      map_filter_simps input_read_def)

section \<open>What was sent is what is read\<close>

definition input_text :: "repository_input \<Rightarrow> bool" where
  "input_text i \<longleftrightarrow> path_components (utf8_lossy (path_text (ri_path i))) = ri_path i"

definition snapshot_carried :: "evidence_json \<Rightarrow> enrichment_snapshot \<Rightarrow> bool" where
  "snapshot_carried js s \<longleftrightarrow>
     list_all (\<lambda>r. utf8_lossy (rp_base r) = rp_base r \<and> list_all input_text (rp_inputs r)) (wn_repositories (es_workspace s))
     \<and> list_all fact_fits (sm_entities (es_baseline s))
     \<and> list_all (\<lambda>ob. evidence_canonical js (ob_evidence ob)) (sm_observations (es_baseline s))
     \<and> list_all (\<lambda>c. evidence_canonical js (sc_evidence c) \<and> utf8_lossy (ss_path (sc_span c)) = ss_path (sc_span c)) (sm_candidates (es_baseline s))"

lemma bm_put_twice: "bm_put k v (bm_put k w m) = bm_put k v m" for k :: "'k::linorder"
  by (induction k w m rule: bm_put.induct) auto

lemma push_snapshot_step: "\<not> sb_finished b \<Longrightarrow> push_snapshot js (Some request) b = push_request js request b"
  by (simp add: push_snapshot_def)

lemma inputs_pushed:
  "list_all input_text inputs \<Longrightarrow> \<not> sb_finished b \<Longrightarrow>
     try_fold (push_snapshot js) (map (input_request digest identity) inputs) (b\<lparr>sb_repositories := bm_put identity r m\<rparr>)
     = Inr (b\<lparr>sb_repositories := bm_put identity (r\<lparr>rp_inputs := rp_inputs r @ inputs\<rparr>) m\<rparr>)"
proof (induction inputs arbitrary: r)
  case (Cons i inputs)
  have "path_components (utf8_lossy (path_text (ri_path i))) = ri_path i" using Cons.prems(1) by (simp add: input_text_def)
  then have "push_snapshot js (input_request digest identity i) (b\<lparr>sb_repositories := bm_put identity r m\<rparr>)
      = Inr (b\<lparr>sb_repositories := bm_put identity (r\<lparr>rp_inputs := rp_inputs r @ [i]\<rparr>) m\<rparr>)"
    using Cons.prems(2) by (cases i) (simp add: input_request_def push_snapshot_step push_input_def bm_put_twice)
  then show ?case using Cons.IH [of "r\<lparr>rp_inputs := rp_inputs r @ [i]\<rparr>"] Cons.prems by simp
qed simp

lemma repository_pushed:
  assumes "utf8_lossy (rp_base r) = rp_base r" "list_all input_text (rp_inputs r)" "\<not> sb_finished b" "sb_name b \<noteq> None"
    and "map_of (sb_repositories b) (repository_of r) = None" "repository_of r = target \<longrightarrow> sb_target b = None"
  shows "try_fold (push_snapshot js) (repository_requests digest target r) b
     = Inr (b\<lparr>sb_target := (if repository_of r = target then Some target else sb_target b),
          sb_repositories := bm_put (repository_of r) r (sb_repositories b)\<rparr>)"
proof -
  obtain base identity head fingerprint inputs where r: "r = \<lparr>rp_base = base, rp_state = \<lparr>rs_repository = \<lparr>lr_identity = identity\<rparr>,
      rs_head = head, rs_fingerprint = fingerprint\<rparr>, rp_inputs = inputs\<rparr>"
    by (metis (full_types) logical_repository.cases repository_state.cases repository_snapshot.cases old.unit.exhaust)
  let ?b = "if identity = target then b\<lparr>sb_target := Some target\<rparr> else b"
  show ?thesis using assms(1,3-6)
      inputs_pushed [OF assms(2), of ?b js digest identity "r\<lparr>rp_inputs := []\<rparr>" "sb_repositories b"]
    by (cases "identity = target") (auto simp: r repository_requests_def Let_def push_snapshot_step push_repository_def)
qed

lemma repositories_pushed:
  assumes "list_all (\<lambda>r. utf8_lossy (rp_base r) = rp_base r \<and> list_all input_text (rp_inputs r)) rs" "\<not> sb_finished b" "sb_name b \<noteq> None"
    and "distinct (map repository_of rs)" "repository_of ` set rs \<inter> fst ` set (sb_repositories b) = {}"
    and "target \<in> repository_of ` set rs \<longrightarrow> sb_target b = None"
  shows "try_fold (push_snapshot js) (concat (map (repository_requests digest target) rs)) b
     = Inr (b\<lparr>sb_target := (if target \<in> repository_of ` set rs then Some target else sb_target b),
          sb_repositories := fold (\<lambda>r. bm_put (repository_of r) r) rs (sb_repositories b)\<rparr>)"
  using assms
proof (induction rs arbitrary: b)
  case (Cons r rs)
  let ?b = "b\<lparr>sb_target := (if repository_of r = target then Some target else sb_target b),
          sb_repositories := bm_put (repository_of r) r (sb_repositories b)\<rparr>"
  have "try_fold (push_snapshot js) (repository_requests digest target r) b = Inr ?b"
    using Cons.prems by (intro repository_pushed) (auto simp: map_of_eq_None_iff)
  moreover have "try_fold (push_snapshot js) (concat (map (repository_requests digest target) rs)) ?b
     = Inr (?b\<lparr>sb_target := (if target \<in> repository_of ` set rs then Some target else sb_target ?b),
          sb_repositories := fold (\<lambda>r. bm_put (repository_of r) r) rs (sb_repositories ?b)\<rparr>)"
    using Cons.prems by (intro Cons.IH) auto
  ultimately show ?case by (auto simp: try_fold_append)
qed simp

text \<open>What the baseline was is what the baseline is.\<close>

lemma entities_pushed:
  "list_all fact_fits es \<Longrightarrow> try_map fact_to_wire es = Inr ms \<Longrightarrow> \<not> sb_finished b \<Longrightarrow>
     try_fold (push_snapshot js) (map (\<lambda>e. Some (RequestEntity (Some e))) ms) b
     = Inr (b\<lparr>sb_baseline := (sb_baseline b)\<lparr>sm_entities := sm_entities (sb_baseline b) @ es\<rparr>\<rparr>)"
proof (induction es arbitrary: ms b)
  case (Cons e es)
  obtain m ns where m: "fact_to_wire e = Inr m" "try_map fact_to_wire es = Inr ns" "ms = m # ns"
    using Cons.prems(2) by (auto simp: rbind_Inr_iff)
  have "fact_from_wire m = Inr e" using fact_survives [OF m(1)] Cons.prems(1) by (simp add: fact_fits_def)
  then show ?case using Cons.IH [OF _ m(2)] Cons.prems(1,3) by (simp add: m(3) push_snapshot_step)
qed simp

lemma observations_pushed:
  "list_all (\<lambda>ob. evidence_canonical js (ob_evidence ob)) obs \<Longrightarrow> \<not> sb_finished b \<Longrightarrow>
     try_fold (push_snapshot js) (map (\<lambda>ob. Some (RequestObservation (Some (observation_to_wire js ob)))) obs) b
     = Inr (b\<lparr>sb_baseline := (sb_baseline b)\<lparr>sm_observations := sm_observations (sb_baseline b) @ obs\<rparr>\<rparr>)"
  by (induction obs arbitrary: b) (simp_all add: push_snapshot_step observation_survives)

lemma candidates_pushed:
  "list_all (\<lambda>c. evidence_canonical js (sc_evidence c) \<and> utf8_lossy (ss_path (sc_span c)) = ss_path (sc_span c)) cs \<Longrightarrow> \<not> sb_finished b \<Longrightarrow>
     try_fold (push_snapshot js) (map (\<lambda>c. Some (RequestCandidate (Some (candidate_to_wire js c)))) cs) b
     = Inr (b\<lparr>sb_baseline := (sb_baseline b)\<lparr>sm_candidates := sm_candidates (sb_baseline b) @ cs\<rparr>\<rparr>)"
  by (induction cs arbitrary: b) (simp_all add: push_snapshot_step candidate_survives)

text \<open>The repositories as they are collected: by identity.\<close>

lemma collected_repositories:
  assumes "distinct (map repository_of rs)"
  shows "map snd (bm_remove target (fold (\<lambda>r. bm_put (repository_of r) r) rs [])) = sort_key repository_of (filter (\<lambda>r. repository_of r \<noteq> target) rs)"
    and "r \<in> set rs \<Longrightarrow> map_of (fold (\<lambda>r. bm_put (repository_of r) r) rs []) (repository_of r) = Some r"
proof -
  let ?kvs = "map (\<lambda>r. (repository_of r, r)) rs"
  have m: "fold (\<lambda>r. bm_put (repository_of r) r) rs [] = bm_of_list ?kvs"
    by (simp add: bm_of_list_def fold_map comp_def)
  have map: "map_of (bm_of_list ?kvs) = map_of ?kvs"
    unfolding map_of_bm_of_list using assms by (subst map_of_inject_set) (simp_all add: comp_def rev_map [symmetric])
  have wf: "bm_wf (bm_remove target (bm_of_list ?kvs))" by simp
  have in_iff: "(k, r) \<in> set (bm_remove target (bm_of_list ?kvs)) \<longleftrightarrow> k = repository_of r \<and> r \<in> set rs \<and> k \<noteq> target" for k r
    using assms by (auto simp: bm_wf_in_iff [OF wf] map comp_def map_of_eq_Some_iff)
  then have entries: "set (bm_remove target (bm_of_list ?kvs)) = (\<lambda>r. (repository_of r, r)) ` {r \<in> set rs. repository_of r \<noteq> target}"
    by auto
  from in_iff have keys: "map fst (bm_remove target (bm_of_list ?kvs)) = map repository_of (map snd (bm_remove target (bm_of_list ?kvs)))"
    by auto
  show "map snd (bm_remove target (fold (\<lambda>r. bm_put (repository_of r) r) rs [])) = sort_key repository_of (filter (\<lambda>r. repository_of r \<noteq> target) rs)"
    unfolding m
  proof (rule map_sorted_distinct_set_unique [where f = repository_of])
    show same: "set (map snd (bm_remove target (bm_of_list ?kvs))) = set (sort_key repository_of (filter (\<lambda>r. repository_of r \<noteq> target) rs))"
      by (simp add: entries image_image)
    show "inj_on repository_of (set (map snd (bm_remove target (bm_of_list ?kvs))) \<union> set (sort_key repository_of (filter (\<lambda>r. repository_of r \<noteq> target) rs)))"
      unfolding same using assms by (auto simp: distinct_map inj_on_def)
    show "sorted (map repository_of (map snd (bm_remove target (bm_of_list ?kvs))))" "distinct (map repository_of (map snd (bm_remove target (bm_of_list ?kvs))))"
      unfolding keys [symmetric] using wf by (simp_all add: bm_wf_def strict_sorted_iff)
    show "distinct (map repository_of (sort_key repository_of (filter (\<lambda>r. repository_of r \<noteq> target) rs)))"
      using assms by (auto simp: distinct_map inj_on_def)
  qed simp
  show "r \<in> set rs \<Longrightarrow> map_of (fold (\<lambda>r. bm_put (repository_of r) r) rs []) (repository_of r) = Some r"
    unfolding m map using assms by (simp add: map_of_eq_Some_iff comp_def)
qed

text \<open>
  C19. A worker analyzes the snapshot that the daemon sent: if no repository occurs twice in it, the target
  is one of them, its paths are text, its facts fit their kinds and its evidence is canonical, the
  requests made from a snapshot are read as that snapshot, with the target first and the other
  repositories by identity.
\<close>

theorem snapshot_requests_roundtrip:
  assumes "analyze_requests js digest s = Inr requests" "snapshot_carried js s"
    and "distinct (map repository_of (wn_repositories (es_workspace s)))"
    and "r \<in> set (wn_repositories (es_workspace s))" "repository_of r = es_target_repository s"
  shows "read_snapshot js requests = Inr (s\<lparr>es_workspace := (es_workspace s)\<lparr>wn_repositories :=
     r # sort_key repository_of (filter (\<lambda>q. repository_of q \<noteq> es_target_repository s) (wn_repositories (es_workspace s)))\<rparr>\<rparr>)"
proof -
  let ?rs = "wn_repositories (es_workspace s)" and ?target = "es_target_repository s"
  obtain ms where ms: "try_map fact_to_wire (sm_entities (es_baseline s)) = Inr ms"
    and requests: "requests = Some (RequestStart (wn_name (es_workspace s)))
         # concat (map (repository_requests digest ?target) ?rs)
         @ map (\<lambda>e. Some (RequestEntity (Some e))) ms
         @ map (\<lambda>ob. Some (RequestObservation (Some (observation_to_wire js ob)))) (sm_observations (es_baseline s))
         @ map (\<lambda>c. Some (RequestCandidate (Some (candidate_to_wire js c)))) (sm_candidates (es_baseline s))
         @ [Some RequestFinish]"
    using assms(1) by (auto simp: analyze_requests_def rbind_Inr_iff)
  have carried: "list_all (\<lambda>r. utf8_lossy (rp_base r) = rp_base r \<and> list_all input_text (rp_inputs r)) ?rs"
    "list_all fact_fits (sm_entities (es_baseline s))"
    "list_all (\<lambda>ob. evidence_canonical js (ob_evidence ob)) (sm_observations (es_baseline s))"
    "list_all (\<lambda>c. evidence_canonical js (sc_evidence c) \<and> utf8_lossy (ss_path (sc_span c)) = ss_path (sc_span c)) (sm_candidates (es_baseline s))"
    using assms(2) by (simp_all add: snapshot_carried_def)
  have target: "?target \<in> repository_of ` set ?rs" using assms(4,5) by force
  let ?b = "new_snapshot_builder\<lparr>sb_name := Some (wn_name (es_workspace s))\<rparr>"
  have pushed: "try_fold (push_snapshot js) (concat (map (repository_requests digest ?target) ?rs)) ?b
     = Inr (?b\<lparr>sb_target := Some ?target, sb_repositories := fold (\<lambda>r. bm_put (repository_of r) r) ?rs []\<rparr>)"
    using repositories_pushed [OF carried(1) _ _ assms(3), of ?b ?target js digest] target by (simp add: new_snapshot_builder_def)
  have "map_of (fold (\<lambda>r. bm_put (repository_of r) r) ?rs []) ?target = Some r"
    using collected_repositories(2) [OF assms(3,4)] assms(5) by simp
  moreover have "\<lparr>es_target_repository = ?target, es_workspace = \<lparr>wn_name = wn_name (es_workspace s), wn_repositories = rs\<rparr>,
      es_baseline = \<lparr>sm_entities = sm_entities (es_baseline s), sm_observations = sm_observations (es_baseline s),
        sm_candidates = sm_candidates (es_baseline s)\<rparr>\<rparr> = s\<lparr>es_workspace := (es_workspace s)\<lparr>wn_repositories := rs\<rparr>\<rparr>" for rs
    by (cases s; cases "es_workspace s"; cases "es_baseline s") simp
  ultimately show ?thesis using pushed collected_repositories(1) [OF assms(3), of ?target]
    by (simp add: read_snapshot_def requests try_fold_append push_snapshot_step new_snapshot_builder_def
        entities_pushed [OF carried(2) ms] observations_pushed [OF carried(3)] candidates_pushed [OF carried(4)] finish_snapshot_def)
qed

lemma example_requests: "analyze_requests plain_json (\<lambda>_. []) example_snapshot = Inr
    [Some (RequestStart ''w''),
     Some (RequestRepository \<lparr>wst_identity = ''b'', wst_base = ''y'', wst_head = None, wst_fingerprint = ''g'', wst_target = True\<rparr>),
     Some (RequestInput \<lparr>win_repository = ''b'', win_path = ''m'', win_content = ''c'', win_kind = input_kind_to_wire Source, win_content_hash = []\<rparr>),
     Some (RequestRepository \<lparr>wst_identity = ''a'', wst_base = ''x'', wst_head = None, wst_fingerprint = ''f'', wst_target = False\<rparr>),
     Some RequestFinish]" (is "_ = Inr ?requests")
  and example_text: "snapshot_carried plain_json example_snapshot"
proof -
  have "utf8_valid ''m''" "utf8_valid ''x''" "utf8_valid ''y''" and shown: "path_text (path_components ''m'') = ''m''"
    by code_simp+
  then have "utf8_lossy ''m'' = ''m''" "utf8_lossy ''x'' = ''x''" "utf8_lossy ''y'' = ''y''"
    by (simp_all only: utf8_lossy_valid)
  with shown show "analyze_requests plain_json (\<lambda>_. []) example_snapshot = Inr ?requests" "snapshot_carried plain_json example_snapshot"
    by (simp_all add: analyze_requests_def example_snapshot_def repository_requests_def Let_def input_request_def snapshot_carried_def input_text_def)
qed

theorem snapshot_requests_roundtrip_witness:
  "(case analyze_requests plain_json (\<lambda>_. []) example_snapshot of Inl _ \<Rightarrow> False | Inr requests \<Rightarrow> read_snapshot plain_json requests = Inr example_snapshot)"
  using snapshot_requests_roundtrip [OF example_requests example_text, of "hd (wn_repositories (es_workspace example_snapshot))"]
  by (simp add: example_requests) (simp add: example_snapshot_def)

end
