(* ===== verification/Worker_Events.thy ===== *)
theory Worker_Events imports Wire_Worker begin

text \<open>
  The stream of events that carries the contribution of an analyzer worker, second half of
  \<open>crates/protocol/src/worker.rs\<close>. \<open>analyze_events\<close> cuts a contribution into chunks of at most
  \<open>CONTRIBUTION_CHUNK_ITEMS\<close> items of a kind and ends with the metadata; \<open>push_event\<close> and
  \<open>finish_events\<close> are the operations of \<open>ContributionAccumulator\<close>, the receiver. The loops over
  peekable iterators are recursion on the messages not yet taken. Counters fit both \<open>usize\<close> and
  \<open>u64\<close>, so the conversions of the cache statistics do not fail.
\<close>

section \<open>Events\<close>

record wire_repository_diagnostic =
  wrd_repository :: string
  wrd_diagnostic :: "wire_worker_diagnostic option"

record wire_analysis =
  wan_overrides :: "wire_override list"
  wan_candidate_overrides :: "wire_candidate_override list"
  wan_graphql_resolvers :: "wire_resolver list"
  wan_diagnostics :: "wire_repository_diagnostic list"

record wire_completed =
  wcm_metadata :: "analyzer_metadata option"
  wcm_active_repositories :: "string list"
  wcm_cache :: "cache_statistics option"

datatype wire_event =
    EventProgress i32
  | EventRepository wire_contribution
  | EventCompleted wire_completed
  | EventFailure string string
  | EventContribution wire_analysis

type_synonym wire_analyze_event = "wire_event option"

definition CONTRIBUTION_CHUNK_ITEMS :: nat where
  "CONTRIBUTION_CHUNK_ITEMS = 2048"

text \<open>What the iterators have given after \<open>n\<close> items of each kind, and what they still hold.\<close>

definition contribution_taken :: "nat \<Rightarrow> wire_contribution \<Rightarrow> wire_contribution" where
  "contribution_taken n m =
     m\<lparr>wrc_entities := take n (wrc_entities m), wrc_grpc_bindings := take n (wrc_grpc_bindings m),
       wrc_observations := take n (wrc_observations m), wrc_diagnostics := take n (wrc_diagnostics m),
       wrc_replaced_diagnostic_codes := take n (wrc_replaced_diagnostic_codes m), wrc_fact_shards := take n (wrc_fact_shards m)\<rparr>"

definition contribution_left :: "nat \<Rightarrow> wire_contribution \<Rightarrow> wire_contribution" where
  "contribution_left n m =
     m\<lparr>wrc_entities := drop n (wrc_entities m), wrc_grpc_bindings := drop n (wrc_grpc_bindings m),
       wrc_observations := drop n (wrc_observations m), wrc_diagnostics := drop n (wrc_diagnostics m),
       wrc_replaced_diagnostic_codes := drop n (wrc_replaced_diagnostic_codes m), wrc_fact_shards := drop n (wrc_fact_shards m)\<rparr>"

definition contribution_items :: "wire_contribution \<Rightarrow> nat" where
  "contribution_items m =
     length (wrc_entities m) + length (wrc_grpc_bindings m) + length (wrc_observations m) + length (wrc_diagnostics m)
     + length (wrc_replaced_diagnostic_codes m) + length (wrc_fact_shards m)"

definition contribution_exhausted :: "wire_contribution \<Rightarrow> bool" where
  "contribution_exhausted m \<longleftrightarrow>
     wrc_entities m = [] \<and> wrc_grpc_bindings m = [] \<and> wrc_observations m = [] \<and> wrc_diagnostics m = []
     \<and> wrc_replaced_diagnostic_codes m = [] \<and> wrc_fact_shards m = []"

function contribution_chunks :: "wire_contribution \<Rightarrow> wire_contribution list" where
  "contribution_chunks m =
     (let left = contribution_left CONTRIBUTION_CHUNK_ITEMS m in
      contribution_taken CONTRIBUTION_CHUNK_ITEMS m # (if contribution_exhausted left then [] else contribution_chunks left))"
  by auto

lemma exhausted_iff: "contribution_exhausted m \<longleftrightarrow> contribution_items m = 0"
  by (simp add: contribution_exhausted_def contribution_items_def conj_assoc)

lemma add_less_iff: "a' \<le> a \<Longrightarrow> b' \<le> b \<Longrightarrow> a' + b' < a + b \<longleftrightarrow> a' < a \<or> b' < b" for a b :: nat
  by auto

lemma drop_shorter [simp]:
  "length (drop CONTRIBUTION_CHUNK_ITEMS xs) < length xs \<longleftrightarrow> xs \<noteq> []" "length (drop CONTRIBUTION_CHUNK_ITEMS xs) \<le> length xs"
  by (auto simp: CONTRIBUTION_CHUNK_ITEMS_def)

lemma contribution_items_left:
  "contribution_items (contribution_left CONTRIBUTION_CHUNK_ITEMS m) < contribution_items m \<longleftrightarrow> \<not> contribution_exhausted m"
  by (auto simp: contribution_items_def contribution_left_def contribution_exhausted_def add_less_iff add_mono simp del: length_drop)

lemma exhausted_left: "contribution_exhausted m \<Longrightarrow> contribution_exhausted (contribution_left n m)"
  by (simp add: contribution_exhausted_def contribution_left_def)

termination contribution_chunks
  by (relation "measure contribution_items") (auto simp: contribution_items_left dest: exhausted_left)

declare contribution_chunks.simps [simp del]

definition repository_events :: "evidence_json \<Rightarrow> repository_contribution \<Rightarrow> string + wire_analyze_event list" where
  "repository_events js c =
     rbind (contribution_to_wire js c) (\<lambda>m. Inr (map (\<lambda>chunk. Some (EventRepository chunk)) (contribution_chunks m)))"

definition analysis_taken :: "nat \<Rightarrow> wire_analysis \<Rightarrow> wire_analysis" where
  "analysis_taken n m =
     \<lparr>wan_overrides = take n (wan_overrides m), wan_candidate_overrides = take n (wan_candidate_overrides m),
      wan_graphql_resolvers = take n (wan_graphql_resolvers m), wan_diagnostics = take n (wan_diagnostics m)\<rparr>"

definition analysis_left :: "nat \<Rightarrow> wire_analysis \<Rightarrow> wire_analysis" where
  "analysis_left n m =
     \<lparr>wan_overrides = drop n (wan_overrides m), wan_candidate_overrides = drop n (wan_candidate_overrides m),
      wan_graphql_resolvers = drop n (wan_graphql_resolvers m), wan_diagnostics = drop n (wan_diagnostics m)\<rparr>"

definition analysis_items :: "wire_analysis \<Rightarrow> nat" where
  "analysis_items m =
     length (wan_overrides m) + length (wan_candidate_overrides m) + length (wan_graphql_resolvers m) + length (wan_diagnostics m)"

function analysis_chunks :: "wire_analysis \<Rightarrow> wire_analysis list" where
  "analysis_chunks m =
     (if wan_overrides m = [] \<and> wan_candidate_overrides m = [] \<and> wan_graphql_resolvers m = [] \<and> wan_diagnostics m = [] then []
      else analysis_taken CONTRIBUTION_CHUNK_ITEMS m # analysis_chunks (analysis_left CONTRIBUTION_CHUNK_ITEMS m))"
  by auto

termination analysis_chunks
  by (relation "measure analysis_items")
    (auto simp: analysis_items_def analysis_left_def add_less_iff add_mono simp del: length_drop)

declare analysis_chunks.simps [simp del]

definition repository_diagnostic_to_wire :: "string \<times> analysis_diagnostic \<Rightarrow> wire_repository_diagnostic" where
  "repository_diagnostic_to_wire d = \<lparr>wrd_repository = fst d, wrd_diagnostic = Some (worker_diagnostic_to_wire (snd d))\<rparr>"

definition analysis_to_wire :: "evidence_json \<Rightarrow> analyzer_contribution \<Rightarrow> wire_analysis" where
  "analysis_to_wire js c =
     \<lparr>wan_overrides = map (override_to_wire js) (ab_overrides c),
      wan_candidate_overrides = map (candidate_override_to_wire js) (ab_candidate_overrides c),
      wan_graphql_resolvers = map (resolver_to_wire js) (ab_graphql_resolvers c),
      wan_diagnostics = map repository_diagnostic_to_wire (ab_diagnostics c)\<rparr>"

definition analysis_contribution_events :: "evidence_json \<Rightarrow> analyzer_contribution \<Rightarrow> wire_analyze_event list" where
  "analysis_contribution_events js c = map (\<lambda>chunk. Some (EventContribution chunk)) (analysis_chunks (analysis_to_wire js c))"

definition analyze_events :: "evidence_json \<Rightarrow> analyzer_contribution \<Rightarrow> string + wire_analyze_event list" where
  "analyze_events js c =
     rbind (try_map (repository_events js) (ab_repositories c)) (\<lambda>repositories.
       Inr (concat repositories @ analysis_contribution_events js c
         @ [Some (EventCompleted \<lparr>wcm_metadata = Some (ab_metadata c), wcm_active_repositories = ab_active_repositories c,
              wcm_cache = Some (ab_cache c)\<rparr>)]))"

section \<open>The accumulator\<close>

record contribution_accumulator =
  cu_repositories :: "repository_contribution list"
  cu_overrides :: "dependency_override list"
  cu_candidate_overrides :: "candidate_override list"
  cu_graphql_resolvers :: "graphql_resolver_candidate list"
  cu_diagnostics :: "(string \<times> analysis_diagnostic) list"
  cu_completed :: "wire_completed option"

definition new_accumulator :: contribution_accumulator where
  "new_accumulator =
     \<lparr>cu_repositories = [], cu_overrides = [], cu_candidate_overrides = [], cu_graphql_resolvers = [], cu_diagnostics = [],
      cu_completed = None\<rparr>"

text \<open>A shard is joined to the first of its repository, producer and owner, or becomes a new one.\<close>

definition same_shard :: "fact_shard \<Rightarrow> fact_shard \<Rightarrow> bool" where
  "same_shard s t \<longleftrightarrow> fs_repository s = fs_repository t \<and> fs_producer s = fs_producer t \<and> fs_owner s = fs_owner t"

fun join_shard :: "fact_shard \<Rightarrow> fact_shard list \<Rightarrow> string + fact_shard list" where
  "join_shard shard [] = Inr [shard]"
| "join_shard shard (existing # shards) =
     (if same_shard existing shard then
        (if fs_version existing \<noteq> fs_version shard then Inl ''worker fact shard chunks disagree on version''
         else Inr (existing\<lparr>fs_entities := fs_entities existing @ fs_entities shard,
                fs_observations := fs_observations existing @ fs_observations shard\<rparr> # shards))
      else rbind (join_shard shard shards) (\<lambda>shards. Inr (existing # shards)))"

definition join_chunk :: "repository_contribution \<Rightarrow> repository_contribution \<Rightarrow> string + repository_contribution" where
  "join_chunk c chunk =
     (if rc_completeness c \<noteq> rc_completeness chunk then Inl ''worker repository chunks disagree on completeness''
      else rbind (try_fold join_shard (rc_fact_shards chunk) (rc_fact_shards c)) (\<lambda>shards.
        Inr (c\<lparr>rc_entities := rc_entities c @ rc_entities chunk, rc_grpc_bindings := rc_grpc_bindings c @ rc_grpc_bindings chunk,
               rc_observations := rc_observations c @ rc_observations chunk, rc_diagnostics := rc_diagnostics c @ rc_diagnostics chunk,
               rc_replaced_diagnostic_codes := bs_union (rc_replaced_diagnostic_codes c) (rc_replaced_diagnostic_codes chunk),
               rc_fact_shards := shards\<rparr>)))"

fun push_chunk :: "repository_contribution \<Rightarrow> repository_contribution list \<Rightarrow> string + repository_contribution list" where
  "push_chunk chunk [] = Inr [chunk]"
| "push_chunk chunk (c # cs) =
     (if rc_repository c = rc_repository chunk then rbind (join_chunk c chunk) (\<lambda>c. Inr (c # cs))
      else rbind (push_chunk chunk cs) (\<lambda>cs. Inr (c # cs)))"

definition progress_phase_known :: "i32 \<Rightarrow> string + unit" where
  "progress_phase_known phase =
     (if phase = 1 \<or> phase = 2 then Inr () else if phase = 0 then Inl ''worker progress phase is missing''
      else Inl ''worker progress phase is unknown'')"

definition repository_diagnostic_from_wire :: "wire_repository_diagnostic \<Rightarrow> string + (string \<times> analysis_diagnostic)" where
  "repository_diagnostic_from_wire m =
     rbind (ok_or (wrd_diagnostic m) ''worker diagnostic is missing'') (\<lambda>diagnostic.
     rbind (worker_diagnostic_from_wire diagnostic) (\<lambda>diagnostic. Inr (wrd_repository m, diagnostic)))"

fun push_event :: "evidence_json \<Rightarrow> wire_event \<Rightarrow> contribution_accumulator \<Rightarrow> string + contribution_accumulator" where
  "push_event js (EventProgress phase) a = rbind (progress_phase_known phase) (\<lambda>_. Inr a)"
| "push_event js (EventRepository m) a =
     rbind (contribution_from_wire js m) (\<lambda>chunk.
     rbind (push_chunk chunk (cu_repositories a)) (\<lambda>repositories. Inr (a\<lparr>cu_repositories := repositories\<rparr>)))"
| "push_event js (EventCompleted value) a =
     (if cu_completed a \<noteq> None then Inl ''worker completed more than once'' else Inr (a\<lparr>cu_completed := Some value\<rparr>))"
| "push_event js (EventFailure code message) a = Inl (code @ '': '' @ message)"
| "push_event js (EventContribution m) a =
     rbind (try_map (override_from_wire js) (wan_overrides m)) (\<lambda>overrides.
     rbind (try_map (candidate_override_from_wire js) (wan_candidate_overrides m)) (\<lambda>candidate_overrides.
     rbind (try_map (resolver_from_wire js) (wan_graphql_resolvers m)) (\<lambda>resolvers.
     rbind (try_map repository_diagnostic_from_wire (wan_diagnostics m)) (\<lambda>diagnostics.
       Inr (a\<lparr>cu_overrides := cu_overrides a @ overrides, cu_candidate_overrides := cu_candidate_overrides a @ candidate_overrides,
              cu_graphql_resolvers := cu_graphql_resolvers a @ resolvers, cu_diagnostics := cu_diagnostics a @ diagnostics\<rparr>)))))"

definition push_analyze_event :: "evidence_json \<Rightarrow> wire_analyze_event \<Rightarrow> contribution_accumulator \<Rightarrow> string + contribution_accumulator" where
  "push_analyze_event js event a =
     (if cu_completed a \<noteq> None then Inl ''worker event followed analysis completion''
      else rbind (ok_or event ''worker event is empty'') (\<lambda>event. push_event js event a))"

definition finish_events :: "contribution_accumulator \<Rightarrow> string + analyzer_contribution" where
  "finish_events a =
     rbind (ok_or (cu_completed a) ''worker stream ended without completion'') (\<lambda>completed.
     rbind (ok_or (wcm_metadata completed) ''worker metadata is missing'') (\<lambda>metadata.
     rbind (ok_or (wcm_cache completed) ''worker cache statistics are missing'') (\<lambda>cache.
       Inr \<lparr>ab_metadata = metadata, ab_active_repositories = wcm_active_repositories completed,
            ab_repositories = cu_repositories a, ab_overrides = cu_overrides a, ab_candidate_overrides = cu_candidate_overrides a,
            ab_graphql_resolvers = cu_graphql_resolvers a, ab_diagnostics = cu_diagnostics a, ab_cache = cache\<rparr>)))"

definition contribution_from_events :: "evidence_json \<Rightarrow> wire_analyze_event list \<Rightarrow> string + analyzer_contribution" where
  "contribution_from_events js events = rbind (try_fold (push_analyze_event js) events new_accumulator) finish_events"

section \<open>What was sent is what is read\<close>

text \<open>The first items of a contribution; a contribution is read in its chunks.\<close>

definition contribution_upto :: "nat \<Rightarrow> repository_contribution \<Rightarrow> repository_contribution" where
  "contribution_upto n c =
     c\<lparr>rc_entities := take n (rc_entities c), rc_grpc_bindings := take n (rc_grpc_bindings c),
       rc_observations := take n (rc_observations c), rc_diagnostics := take n (rc_diagnostics c),
       rc_replaced_diagnostic_codes := take n (rc_replaced_diagnostic_codes c), rc_fact_shards := take n (rc_fact_shards c)\<rparr>"

definition contribution_after :: "nat \<Rightarrow> repository_contribution \<Rightarrow> repository_contribution" where
  "contribution_after n c =
     c\<lparr>rc_entities := drop n (rc_entities c), rc_grpc_bindings := drop n (rc_grpc_bindings c),
       rc_observations := drop n (rc_observations c), rc_diagnostics := drop n (rc_diagnostics c),
       rc_replaced_diagnostic_codes := drop n (rc_replaced_diagnostic_codes c), rc_fact_shards := drop n (rc_fact_shards c)\<rparr>"

lemma try_map_take: "try_map f xs = Inr ys \<Longrightarrow> try_map f (take n xs) = Inr (take n ys)"
  by (simp add: try_map_Inr_iff list_all2_takeI)

lemma try_map_drop: "try_map f xs = Inr ys \<Longrightarrow> try_map f (drop n xs) = Inr (drop n ys)"
  by (simp add: try_map_Inr_iff list_all2_dropI)

lemma ascending_take: "ascending xs \<Longrightarrow> ascending (take n xs)" and ascending_drop: "ascending xs \<Longrightarrow> ascending (drop n xs)"
  by (simp_all add: sorted_wrt_take sorted_wrt_drop)

lemma contribution_read_iff:
  assumes "ascending (wrc_replaced_diagnostic_codes m)"
  shows "contribution_from_wire js m = Inr c \<longleftrightarrow>
     contribution_completeness_from_wire (wrc_completeness m) = Inr (rc_completeness c)
     \<and> try_map fact_from_wire (wrc_entities m) = Inr (rc_entities c)
     \<and> try_map (shard_from_wire js) (wrc_fact_shards m) = Inr (rc_fact_shards c)
     \<and> try_map (binding_from_wire js) (wrc_grpc_bindings m) = Inr (rc_grpc_bindings c)
     \<and> try_map (observation_from_wire js) (wrc_observations m) = Inr (rc_observations c)
     \<and> try_map worker_diagnostic_from_wire (wrc_diagnostics m) = Inr (rc_diagnostics c)
     \<and> rc_repository c = wrc_repository m \<and> rc_semantic_candidates c = []
     \<and> rc_replaced_diagnostic_codes c = wrc_replaced_diagnostic_codes m"
  using bs_of_list_id [OF assms]
  by (cases c) (auto simp: contribution_from_wire_def rbind_Inr_iff)

lemma chunk_read:
  assumes "contribution_from_wire js m = Inr c" "ascending (wrc_replaced_diagnostic_codes m)"
  shows "contribution_from_wire js (contribution_taken n m) = Inr (contribution_upto n c)"
    and "contribution_from_wire js (contribution_left n m) = Inr (contribution_after n c)"
    and "ascending (wrc_replaced_diagnostic_codes (contribution_left n m))"
  using assms(1) unfolding contribution_read_iff [OF assms(2)]
  by (simp_all add: contribution_read_iff contribution_taken_def contribution_left_def contribution_upto_def contribution_after_def
      try_map_take try_map_drop ascending_take [OF assms(2)] ascending_drop [OF assms(2)])

text \<open>Shards that have nothing in common are joined one after the other.\<close>

definition shard_key :: "fact_shard \<Rightarrow> string \<times> string \<times> string" where
  "shard_key s = (fs_repository s, fs_producer s, fs_owner s)"

lemma join_new_shard: "shard_key s \<notin> shard_key ` set shards \<Longrightarrow> join_shard s shards = Inr (shards @ [s])"
  by (induction shards) (auto simp: same_shard_def shard_key_def)

lemma join_new_shards:
  "distinct (map shard_key (shards @ new)) \<Longrightarrow> try_fold join_shard new shards = Inr (shards @ new)"
proof (induction new arbitrary: shards)
  case (Cons s new)
  have "join_shard s shards = Inr (shards @ [s])" using Cons.prems by (intro join_new_shard) auto
  then show ?case using Cons.IH [of "shards @ [s]"] Cons.prems by simp
qed simp

lemma ascending_union:
  assumes "ascending (xs @ ys)" shows "bs_union xs ys = xs @ ys"
proof -
  have "ascending xs" using assms by (simp add: sorted_wrt_append)
  then show ?thesis using assms by (intro ascending_unique) simp_all
qed

definition contribution_separate :: "repository_contribution \<Rightarrow> bool" where
  "contribution_separate c \<longleftrightarrow> ascending (rc_replaced_diagnostic_codes c) \<and> distinct (map shard_key (rc_fact_shards c))"

lemma take_step: "take n xs @ take k (drop n xs) = take (n + k) xs"
  by (simp add: take_add)

lemma join_next:
  assumes "contribution_separate c"
  shows "join_chunk (contribution_upto n c) (contribution_upto k (contribution_after n c)) = Inr (contribution_upto (n + k) c)"
proof -
  have "distinct (map shard_key (take (n + k) (rc_fact_shards c)))"
    using assms by (simp add: contribution_separate_def take_map [symmetric])
  then have "try_fold join_shard (take k (drop n (rc_fact_shards c))) (take n (rc_fact_shards c)) = Inr (take (n + k) (rc_fact_shards c))"
    using join_new_shards [of "take n (rc_fact_shards c)" "take k (drop n (rc_fact_shards c))"] by (simp only: take_step)
  moreover have "bs_union (take n (rc_replaced_diagnostic_codes c)) (take k (drop n (rc_replaced_diagnostic_codes c)))
      = take (n + k) (rc_replaced_diagnostic_codes c)"
    using assms ascending_union [of "take n (rc_replaced_diagnostic_codes c)" "take k (drop n (rc_replaced_diagnostic_codes c))"]
    by (simp only: take_step contribution_separate_def ascending_take)
  ultimately show ?thesis by (simp add: join_chunk_def contribution_upto_def contribution_after_def take_step)
qed

lemma push_chunk_to_last:
  assumes "rc_repository c \<notin> rc_repository ` set cs" "rc_repository chunk = rc_repository c" "join_chunk c chunk = Inr c'"
  shows "push_chunk chunk (cs @ [c]) = Inr (cs @ [c'])"
  using assms by (induction cs) auto

lemma push_chunk_new: "rc_repository chunk \<notin> rc_repository ` set cs \<Longrightarrow> push_chunk chunk cs = Inr (cs @ [chunk])"
  by (induction cs) auto

abbreviation chunk_events :: "wire_contribution list \<Rightarrow> wire_analyze_event list" where
  "chunk_events chunks \<equiv> map (\<lambda>chunk. Some (EventRepository chunk)) chunks"

lemma push_repository_event:
  assumes "cu_completed a = None" "contribution_from_wire js m = Inr chunk" "push_chunk chunk (cu_repositories a) = Inr repositories"
  shows "push_analyze_event js (Some (EventRepository m)) a = Inr (a\<lparr>cu_repositories := repositories\<rparr>)"
  using assms by (simp add: push_analyze_event_def)

lemma contribution_steps:
  "contribution_left n (contribution_left k m) = contribution_left (k + n) m"
  "contribution_after n (contribution_after k c) = contribution_after (k + n) c"
  "rc_repository (contribution_upto n c) = rc_repository c" "rc_repository (contribution_after n c) = rc_repository c"
  by (simp_all add: contribution_left_def contribution_after_def contribution_upto_def add.commute)

lemma exhausted_upto:
  assumes "contribution_from_wire js m = Inr c" "ascending (wrc_replaced_diagnostic_codes m)" "contribution_exhausted (contribution_left n m)"
  shows "contribution_upto n c = c"
proof -
  have "length ys = length xs" if "try_map f xs = Inr ys" for f :: "'a \<Rightarrow> 'e + 'b" and xs ys
    using that by (auto simp: try_map_Inr_iff dest: list_all2_lengthD)
  note same = this
  show ?thesis using assms(1,3) unfolding contribution_read_iff [OF assms(2)]
    by (cases c) (auto simp: contribution_upto_def contribution_exhausted_def contribution_left_def dest!: same)
qed

lemma later_chunks_read:
  assumes "contribution_from_wire js m = Inr c" "contribution_separate c" "ascending (wrc_replaced_diagnostic_codes m)"
    and "rc_repository c \<notin> rc_repository ` set cs"
  shows "cu_completed a = None \<Longrightarrow> cu_repositories a = cs @ [contribution_upto n c] \<Longrightarrow>
     try_fold (push_analyze_event js) (chunk_events (contribution_chunks (contribution_left n m))) a = Inr (a\<lparr>cu_repositories := cs @ [c]\<rparr>)"
proof (induction "contribution_left n m" arbitrary: n a rule: contribution_chunks.induct)
  case 1
  let ?k = CONTRIBUTION_CHUNK_ITEMS
  let ?a = "a\<lparr>cu_repositories := cs @ [contribution_upto (n + ?k) c]\<rparr>"
  have push: "push_analyze_event js (Some (EventRepository (contribution_taken ?k (contribution_left n m)))) a = Inr ?a"
  proof (rule push_repository_event [OF 1(2)])
    show "contribution_from_wire js (contribution_taken ?k (contribution_left n m)) = Inr (contribution_upto ?k (contribution_after n c))"
      by (rule chunk_read(1) [OF chunk_read(2,3) [OF assms(1,3)]])
    show "push_chunk (contribution_upto ?k (contribution_after n c)) (cu_repositories a) = Inr (cs @ [contribution_upto (n + ?k) c])"
      using assms(4) unfolding 1(3) by (intro push_chunk_to_last join_next assms(2)) (simp_all add: contribution_steps)
  qed
  show ?case
  proof (cases "contribution_exhausted (contribution_left (n + ?k) m)")
    case True
    then show ?thesis using push exhausted_upto [OF assms(1,3) True]
      by (subst contribution_chunks.simps) (simp add: Let_def contribution_steps)
  next
    case False
    then show ?thesis using push 1(1) [of "n + ?k" ?a] 1(2)
      by (subst contribution_chunks.simps) (simp add: Let_def contribution_steps)
  qed
qed

lemma repository_read_back:
  assumes "repository_events js c = Inr events" "contribution_carried js c" "contribution_separate c"
    and "rc_repository c \<notin> rc_repository ` set (cu_repositories a)" "cu_completed a = None"
  shows "try_fold (push_analyze_event js) events a = Inr (a\<lparr>cu_repositories := cu_repositories a @ [c\<lparr>rc_semantic_candidates := []\<rparr>]\<rparr>)"
proof -
  let ?k = CONTRIBUTION_CHUNK_ITEMS and ?c = "c\<lparr>rc_semantic_candidates := []\<rparr>"
  obtain m where m: "contribution_to_wire js c = Inr m" and events: "events = chunk_events (contribution_chunks m)"
    using assms(1) by (auto simp: repository_events_def rbind_Inr_iff)
  have read: "contribution_from_wire js m = Inr ?c" using contribution_survives [OF m assms(2)] .
  have codes: "ascending (wrc_replaced_diagnostic_codes m)"
    using m assms(3) by (auto simp: contribution_to_wire_def rbind_Inr_iff contribution_separate_def)
  have separate: "contribution_separate ?c" using assms(3) by (simp add: contribution_separate_def)
  let ?a = "a\<lparr>cu_repositories := cu_repositories a @ [contribution_upto ?k ?c]\<rparr>"
  have push: "push_analyze_event js (Some (EventRepository (contribution_taken ?k m))) a = Inr ?a"
    using assms(4) by (intro push_repository_event [OF assms(5) chunk_read(1) [OF read codes]] push_chunk_new) (simp add: contribution_steps)
  show ?thesis
  proof (cases "contribution_exhausted (contribution_left ?k m)")
    case True
    then show ?thesis using push exhausted_upto [OF read codes True]
      unfolding events by (subst contribution_chunks.simps) (simp add: Let_def)
  next
    case False
    then show ?thesis using push assms(4,5) later_chunks_read [OF read separate codes, of "cu_repositories a" ?a ?k]
      unfolding events by (subst contribution_chunks.simps) (simp add: Let_def)
  qed
qed

text \<open>The rest of a contribution is appended in its order, whatever the number of its chunks.\<close>

definition analysis_read :: "evidence_json \<Rightarrow> wire_analysis \<Rightarrow> analyzer_contribution \<Rightarrow> bool" where
  "analysis_read js m c \<longleftrightarrow>
     try_map (override_from_wire js) (wan_overrides m) = Inr (ab_overrides c)
     \<and> try_map (candidate_override_from_wire js) (wan_candidate_overrides m) = Inr (ab_candidate_overrides c)
     \<and> try_map (resolver_from_wire js) (wan_graphql_resolvers m) = Inr (ab_graphql_resolvers c)
     \<and> try_map repository_diagnostic_from_wire (wan_diagnostics m) = Inr (ab_diagnostics c)"

definition analysis_after :: "nat \<Rightarrow> analyzer_contribution \<Rightarrow> analyzer_contribution" where
  "analysis_after n c =
     c\<lparr>ab_overrides := drop n (ab_overrides c), ab_candidate_overrides := drop n (ab_candidate_overrides c),
       ab_graphql_resolvers := drop n (ab_graphql_resolvers c), ab_diagnostics := drop n (ab_diagnostics c)\<rparr>"

lemma analysis_read_after: "analysis_read js m c \<Longrightarrow> analysis_read js (analysis_left n m) (analysis_after n c)"
  by (simp add: analysis_read_def analysis_left_def analysis_after_def try_map_drop)

definition accumulate :: "analyzer_contribution \<Rightarrow> contribution_accumulator \<Rightarrow> contribution_accumulator" where
  "accumulate c a =
     a\<lparr>cu_overrides := cu_overrides a @ ab_overrides c, cu_candidate_overrides := cu_candidate_overrides a @ ab_candidate_overrides c,
       cu_graphql_resolvers := cu_graphql_resolvers a @ ab_graphql_resolvers c, cu_diagnostics := cu_diagnostics a @ ab_diagnostics c\<rparr>"

lemma analysis_chunks_read:
  "analysis_read js m c \<Longrightarrow> cu_completed a = None \<Longrightarrow>
     try_fold (push_analyze_event js) (map (\<lambda>chunk. Some (EventContribution chunk)) (analysis_chunks m)) a = Inr (accumulate c a)"
proof (induction m arbitrary: c a rule: analysis_chunks.induct)
  case (1 m)
  let ?k = CONTRIBUTION_CHUNK_ITEMS
  show ?case
  proof (cases "wan_overrides m = [] \<and> wan_candidate_overrides m = [] \<and> wan_graphql_resolvers m = [] \<and> wan_diagnostics m = []")
    case True
    then show ?thesis using 1(2) by (subst analysis_chunks.simps) (simp add: analysis_read_def accumulate_def)
  next
    case False
    let ?a = "a\<lparr>cu_overrides := cu_overrides a @ take ?k (ab_overrides c),
        cu_candidate_overrides := cu_candidate_overrides a @ take ?k (ab_candidate_overrides c),
        cu_graphql_resolvers := cu_graphql_resolvers a @ take ?k (ab_graphql_resolvers c),
        cu_diagnostics := cu_diagnostics a @ take ?k (ab_diagnostics c)\<rparr>"
    have "push_analyze_event js (Some (EventContribution (analysis_taken ?k m))) a = Inr ?a"
      using 1(2,3) by (simp add: push_analyze_event_def analysis_taken_def analysis_read_def try_map_take)
    moreover have "accumulate (analysis_after ?k c) ?a = accumulate c a" by (simp add: accumulate_def analysis_after_def)
    ultimately show ?thesis using 1(1) [OF False analysis_read_after [OF 1(2)], of ?a] 1(3) False
      by (subst analysis_chunks.simps) (simp del: de_Morgan_conj)
  qed
qed

definition analysis_carried :: "evidence_json \<Rightarrow> analyzer_contribution \<Rightarrow> bool" where
  "analysis_carried js c \<longleftrightarrow>
     list_all (\<lambda>ov. evidence_canonical js (do_evidence ov)) (ab_overrides c)
     \<and> list_all (\<lambda>ov. evidence_canonical js (co_evidence ov)) (ab_candidate_overrides c)
     \<and> list_all (\<lambda>g. evidence_canonical js (gr_evidence g)) (ab_graphql_resolvers c)
     \<and> list_all (\<lambda>(_, d). utf8_lossy (ad_path d) = ad_path d) (ab_diagnostics c)"

lemma analysis_read_to_wire: "analysis_carried js c \<Longrightarrow> analysis_read js (analysis_to_wire js c) c"
  by (auto simp: analysis_read_def analysis_to_wire_def analysis_carried_def list_all_iff repository_diagnostic_to_wire_def
      repository_diagnostic_from_wire_def worker_diagnostic_from_wire_def worker_diagnostic_to_wire_def intro!: map_survives override_survives candidate_override_survives resolver_survives)

lemma repositories_read_back:
  assumes "try_map (repository_events js) cs = Inr events"
    and "list_all (\<lambda>c. contribution_carried js c \<and> contribution_separate c) cs"
    and "distinct (map rc_repository (cu_repositories a @ cs))" "cu_completed a = None"
  shows "try_fold (push_analyze_event js) (concat events) a
    = Inr (a\<lparr>cu_repositories := cu_repositories a @ map (\<lambda>c. c\<lparr>rc_semantic_candidates := []\<rparr>) cs\<rparr>)"
  using assms
proof (induction cs arbitrary: a events)
  case (Cons c cs)
  obtain first rest where ev: "repository_events js c = Inr first" "try_map (repository_events js) cs = Inr rest" "events = first # rest"
    using Cons.prems(1) by (auto simp: rbind_Inr_iff)
  let ?a = "a\<lparr>cu_repositories := cu_repositories a @ [c\<lparr>rc_semantic_candidates := []\<rparr>]\<rparr>"
  have "try_fold (push_analyze_event js) first a = Inr ?a"
    using Cons.prems by (intro repository_read_back [OF ev(1)]) auto
  moreover have "try_fold (push_analyze_event js) (concat rest) ?a
      = Inr (a\<lparr>cu_repositories := cu_repositories a @ map (\<lambda>c. c\<lparr>rc_semantic_candidates := []\<rparr>) (c # cs)\<rparr>)"
    using Cons.prems Cons.IH [OF ev(2), of ?a] by simp
  ultimately show ?case by (simp add: ev(3) try_fold_append)
qed simp

text \<open>
  C17. A contribution of any size arrives whole: if the facts of its repositories fit their kinds, its
  evidence is canonical and its paths are text, no repository occurs twice in it and no shard twice in
  a repository, then the chunks it is sent in are read as the contribution again, except for its
  semantic candidates, which have no field on the wire and are dropped.
\<close>

theorem contribution_events_roundtrip:
  assumes "analyze_events js c = Inr events"
    and "list_all (\<lambda>r. contribution_carried js r \<and> contribution_separate r) (ab_repositories c)" "analysis_carried js c"
    and "distinct (map rc_repository (ab_repositories c))"
  shows "contribution_from_events js events
    = Inr (c\<lparr>ab_repositories := map (\<lambda>r. r\<lparr>rc_semantic_candidates := []\<rparr>) (ab_repositories c)\<rparr>)"
proof -
  obtain repositories where r: "try_map (repository_events js) (ab_repositories c) = Inr repositories"
    and events: "events = concat repositories @ analysis_contribution_events js c
         @ [Some (EventCompleted \<lparr>wcm_metadata = Some (ab_metadata c), wcm_active_repositories = ab_active_repositories c,
              wcm_cache = Some (ab_cache c)\<rparr>)]"
    using assms(1) by (auto simp: analyze_events_def rbind_Inr_iff)
  let ?a = "new_accumulator\<lparr>cu_repositories := map (\<lambda>r. r\<lparr>rc_semantic_candidates := []\<rparr>) (ab_repositories c)\<rparr>"
  have "try_fold (push_analyze_event js) (concat repositories) new_accumulator = Inr ?a"
    using repositories_read_back [OF r assms(2), of new_accumulator] assms(4) by (simp add: new_accumulator_def)
  moreover have "try_fold (push_analyze_event js) (analysis_contribution_events js c) ?a = Inr (accumulate c ?a)"
    unfolding analysis_contribution_events_def
    by (rule analysis_chunks_read [OF analysis_read_to_wire [OF assms(3)]]) (simp add: new_accumulator_def)
  ultimately show ?thesis
    by (cases c) (simp add: contribution_from_events_def events try_fold_append push_analyze_event_def finish_events_def
        accumulate_def new_accumulator_def)
qed

section \<open>What is accepted\<close>

text \<open>
  Any stream that is accepted, however its chunks were cut: the messages of a kind, and what a repository
  is after the chunks that name it. Items of a shard may change places, because a shard is joined to the
  first of its key and a repository's first chunk is kept as it came.
\<close>

definition repository_messages :: "wire_analyze_event list \<Rightarrow> wire_contribution list" where
  "repository_messages events = List.map_filter (\<lambda>e. case e of Some (EventRepository m) \<Rightarrow> Some m | _ \<Rightarrow> None) events"

definition analysis_messages :: "wire_analyze_event list \<Rightarrow> wire_analysis list" where
  "analysis_messages events = List.map_filter (\<lambda>e. case e of Some (EventContribution m) \<Rightarrow> Some m | _ \<Rightarrow> None) events"

definition completions :: "wire_analyze_event list \<Rightarrow> wire_completed list" where
  "completions events = List.map_filter (\<lambda>e. case e of Some (EventCompleted m) \<Rightarrow> Some m | _ \<Rightarrow> None) events"

definition failures :: "wire_analyze_event list \<Rightarrow> string list" where
  "failures events = List.map_filter (\<lambda>e. case e of Some (EventFailure code _) \<Rightarrow> Some code | _ \<Rightarrow> None) events"

definition first_occurrences :: "'a list \<Rightarrow> 'a list" where
  "first_occurrences xs = rev (remdups (rev xs))"

definition shard_facts :: "(fact_shard \<Rightarrow> 'a list) \<Rightarrow> string \<times> string \<times> string \<Rightarrow> fact_shard list \<Rightarrow> 'a multiset" where
  "shard_facts items key shards = mset (concat (map items (filter (\<lambda>s. shard_key s = key) shards)))"

definition joined_from :: "repository_contribution list \<Rightarrow> repository_contribution \<Rightarrow> bool" where
  "joined_from own r \<longleftrightarrow>
     own \<noteq> [] \<and> list_all (\<lambda>c. rc_completeness c = rc_completeness r) own
     \<and> rc_entities r = concat (map rc_entities own) \<and> rc_grpc_bindings r = concat (map rc_grpc_bindings own)
     \<and> rc_observations r = concat (map rc_observations own) \<and> rc_diagnostics r = concat (map rc_diagnostics own)
     \<and> set (rc_replaced_diagnostic_codes r) = set (concat (map rc_replaced_diagnostic_codes own))
     \<and> (\<forall>key. shard_facts fs_entities key (rc_fact_shards r) = shard_facts fs_entities key (concat (map rc_fact_shards own))
          \<and> shard_facts fs_observations key (rc_fact_shards r) = shard_facts fs_observations key (concat (map rc_fact_shards own)))"

definition chunks_of :: "repository_contribution list \<Rightarrow> string \<Rightarrow> repository_contribution list" where
  "chunks_of chunks repository = filter (\<lambda>c. rc_repository c = repository) chunks"

lemma shard_facts_steps [simp]:
  "shard_facts items key [] = {#}"
  "shard_facts items key (s # shards) = (if shard_key s = key then mset (items s) else {#}) + shard_facts items key shards"
  "shard_facts items key (xs @ ys) = shard_facts items key xs + shard_facts items key ys"
  by (simp_all add: shard_facts_def)

lemma event_steps [simp]:
  "repository_messages [] = []" "analysis_messages [] = []" "completions [] = []" "failures [] = []"
  "repository_messages (xs @ ys) = repository_messages xs @ repository_messages ys"
  "analysis_messages (xs @ ys) = analysis_messages xs @ analysis_messages ys"
  "completions (xs @ ys) = completions xs @ completions ys" "failures (xs @ ys) = failures xs @ failures ys"
  "repository_messages [e] = (case e of Some (EventRepository m) \<Rightarrow> [m] | _ \<Rightarrow> [])"
  "analysis_messages [e] = (case e of Some (EventContribution m) \<Rightarrow> [m] | _ \<Rightarrow> [])"
  "completions [e] = (case e of Some (EventCompleted m) \<Rightarrow> [m] | _ \<Rightarrow> [])"
  "failures [e] = (case e of Some (EventFailure code _) \<Rightarrow> [code] | _ \<Rightarrow> [])"
  by (auto simp: repository_messages_def analysis_messages_def completions_def failures_def map_filter_def split: option.splits wire_event.splits)

lemma join_shard_facts:
  assumes "join_shard s shards = Inr shards'"
  shows "shard_facts fs_entities key shards' = shard_facts fs_entities key (shards @ [s])"
    and "shard_facts fs_observations key shards' = shard_facts fs_observations key (shards @ [s])"
  using assms
  by (induction shards arbitrary: shards') (auto simp: rbind_Inr_iff same_shard_def shard_key_def ac_simps split: if_splits)

lemma join_shards_facts:
  assumes "try_fold join_shard new shards = Inr shards'"
  shows "shard_facts fs_entities key shards' = shard_facts fs_entities key (shards @ new)
    \<and> shard_facts fs_observations key shards' = shard_facts fs_observations key (shards @ new)"
  using assms
proof (induction new arbitrary: shards)
  case (Cons s new)
  obtain mid where "join_shard s shards = Inr mid" "try_fold join_shard new mid = Inr shards'"
    using Cons.prems by (auto simp: rbind_Inr_iff)
  with Cons.IH [of mid] join_shard_facts [of s shards mid key] show ?case by (simp add: ac_simps)
qed simp

lemma joined_first: "joined_from [c] c"
  by (simp add: joined_from_def)

lemma joined_next:
  assumes "joined_from own r" "join_chunk r chunk = Inr r'"
  shows "joined_from (own @ [chunk]) r' \<and> rc_repository r' = rc_repository r"
proof -
  obtain shards where shards: "try_fold join_shard (rc_fact_shards chunk) (rc_fact_shards r) = Inr shards"
    and r': "rc_completeness r = rc_completeness chunk" "r' = r\<lparr>rc_entities := rc_entities r @ rc_entities chunk, rc_grpc_bindings := rc_grpc_bindings r @ rc_grpc_bindings chunk,
               rc_observations := rc_observations r @ rc_observations chunk, rc_diagnostics := rc_diagnostics r @ rc_diagnostics chunk,
               rc_replaced_diagnostic_codes := bs_union (rc_replaced_diagnostic_codes r) (rc_replaced_diagnostic_codes chunk),
               rc_fact_shards := shards\<rparr>"
    using assms(2) by (auto simp: join_chunk_def rbind_Inr_iff split: if_splits)
  from join_shards_facts [OF shards] assms(1) show ?thesis by (simp add: joined_from_def r' list_all_iff)
qed

lemma push_chunk_cases:
  assumes "push_chunk chunk cs = Inr cs'"
  obtains "rc_repository chunk \<notin> rc_repository ` set cs" "cs' = cs @ [chunk]"
  | before c c' after where "cs = before @ c # after" "cs' = before @ c' # after" "rc_repository c = rc_repository chunk"
      "join_chunk c chunk = Inr c'"
  using assms
proof (induction cs arbitrary: cs' thesis)
  case (Cons c cs)
  show ?case
  proof (cases "rc_repository c = rc_repository chunk")
    case True
    then obtain c' where "join_chunk c chunk = Inr c'" "cs' = c' # cs" using Cons.prems(3) by (auto simp: rbind_Inr_iff)
    then show ?thesis using Cons.prems(2) [of "[]" c cs c'] True by simp
  next
    case False
    then obtain rest where rest: "push_chunk chunk cs = Inr rest" "cs' = c # rest" using Cons.prems(3) by (auto simp: rbind_Inr_iff)
    show ?thesis
    proof (rule Cons.IH [OF _ _ rest(1)])
      assume "rc_repository chunk \<notin> rc_repository ` set cs" "rest = cs @ [chunk]"
      then show thesis using Cons.prems(1) False rest(2) by auto
    next
      fix before d d' after
      assume "cs = before @ d # after" "rest = before @ d' # after" "rc_repository d = rc_repository chunk" "join_chunk d chunk = Inr d'"
      then show thesis using Cons.prems(2) [of "c # before" d after d'] rest(2) by simp
    qed
  qed
qed simp

text \<open>The repositories after some chunks: in the order of their first chunks, each joined from its own.\<close>

definition collected :: "repository_contribution list \<Rightarrow> repository_contribution list \<Rightarrow> bool" where
  "collected chunks cs \<longleftrightarrow>
     map rc_repository cs = first_occurrences (map rc_repository chunks)
     \<and> list_all (\<lambda>r. joined_from (chunks_of chunks (rc_repository r)) r) cs"

lemma first_occurrences_snoc:
  "first_occurrences (xs @ [x]) = (if x \<in> set xs then first_occurrences xs else first_occurrences xs @ [x])"
  "set (first_occurrences xs) = set xs" "distinct (first_occurrences xs)"
  by (simp_all add: first_occurrences_def)

lemma chunks_of_snoc: "chunks_of (chunks @ [c]) i = (if rc_repository c = i then chunks_of chunks i @ [c] else chunks_of chunks i)"
  by (simp add: chunks_of_def)

lemma collected_push:
  assumes "collected chunks cs" "push_chunk chunk cs = Inr cs'"
  shows "collected (chunks @ [chunk]) cs'"
proof -
  have names: "map rc_repository cs = first_occurrences (map rc_repository chunks)"
    and own: "list_all (\<lambda>r. joined_from (chunks_of chunks (rc_repository r)) r) cs"
    using assms(1) by (simp_all add: collected_def)
  have named: "rc_repository ` set cs = rc_repository ` set chunks" and distinct: "distinct (map rc_repository cs)"
    using names first_occurrences_snoc(2,3) [of "map rc_repository chunks"] by (metis list.set_map)+
  from assms(2) show ?thesis
  proof (cases rule: push_chunk_cases)
    case 1
    then have new: "rc_repository chunk \<notin> rc_repository ` set chunks" using named by simp
    then have "chunks_of chunks (rc_repository chunk) = []"
      unfolding chunks_of_def filter_empty_conv by (metis image_eqI)
    then have "joined_from (chunks_of (chunks @ [chunk]) (rc_repository chunk)) chunk"
      by (simp add: chunks_of_snoc joined_first)
    moreover have "list_all (\<lambda>r. joined_from (chunks_of (chunks @ [chunk]) (rc_repository r)) r) cs"
      using own 1(1) by (auto simp: list_all_iff chunks_of_snoc)
    moreover have "map rc_repository (cs @ [chunk]) = first_occurrences (map rc_repository (chunks @ [chunk]))"
      using new by (simp add: first_occurrences_snoc(1) names)
    ultimately show ?thesis unfolding collected_def 1(2) by simp
  next
    case (2 before c c' after)
    have "rc_repository chunk \<in> rc_repository ` set chunks" unfolding named [symmetric] 2(1) 2(3) [symmetric] by simp
    then have "first_occurrences (map rc_repository (chunks @ [chunk])) = first_occurrences (map rc_repository chunks)"
      by (simp add: first_occurrences_snoc)
    moreover have "joined_from (chunks_of (chunks @ [chunk]) (rc_repository c')) c' \<and> rc_repository c' = rc_repository c"
      using joined_next [OF _ 2(4), of "chunks_of chunks (rc_repository c)"] own 2 by (simp add: chunks_of_snoc)
    moreover have "list_all (\<lambda>r. joined_from (chunks_of (chunks @ [chunk]) (rc_repository r)) r) (before @ after)"
      using own distinct 2(1,3) by (auto simp: list_all_iff chunks_of_snoc image_iff)
    ultimately show ?thesis using names 2 by (auto simp: collected_def)
  qed
qed

definition accumulated :: "evidence_json \<Rightarrow> wire_analyze_event list \<Rightarrow> contribution_accumulator \<Rightarrow> bool" where
  "accumulated js events a \<longleftrightarrow>
     (\<exists>chunks. try_map (contribution_from_wire js) (repository_messages events) = Inr chunks \<and> collected chunks (cu_repositories a))
     \<and> try_map (override_from_wire js) (concat (map wan_overrides (analysis_messages events))) = Inr (cu_overrides a)
     \<and> try_map (candidate_override_from_wire js) (concat (map wan_candidate_overrides (analysis_messages events))) = Inr (cu_candidate_overrides a)
     \<and> try_map (resolver_from_wire js) (concat (map wan_graphql_resolvers (analysis_messages events))) = Inr (cu_graphql_resolvers a)
     \<and> try_map repository_diagnostic_from_wire (concat (map wan_diagnostics (analysis_messages events))) = Inr (cu_diagnostics a)
     \<and> completions events = (case cu_completed a of None \<Rightarrow> [] | Some m \<Rightarrow> [m])
     \<and> failures events = []"

lemma try_map_append: "try_map f (xs @ ys) = rbind (try_map f xs) (\<lambda>us. rbind (try_map f ys) (\<lambda>vs. Inr (us @ vs)))"
proof (induction xs)
  case Nil
  then show ?case by (cases "try_map f ys") simp_all
next
  case (Cons x xs)
  then show ?case by (cases "f x"; cases "try_map f xs"; cases "try_map f ys") simp_all
qed

lemma accumulated_new: "accumulated js [] new_accumulator"
  by (simp add: accumulated_def new_accumulator_def collected_def first_occurrences_def)

lemma accumulated_push:
  assumes "accumulated js events a" "push_analyze_event js event a = Inr a'"
  shows "accumulated js (events @ [event]) a'"
proof -
  obtain e where e: "event = Some e" "push_event js e a = Inr a'" "cu_completed a = None"
    using assms(2) by (auto simp: push_analyze_event_def rbind_Inr_iff ok_or_Inr_eq split: if_splits)
  show ?thesis
  proof (cases e)
    case (EventRepository m)
    with e obtain chunk cs where chunk: "contribution_from_wire js m = Inr chunk" "push_chunk chunk (cu_repositories a) = Inr cs"
      and a': "a' = a\<lparr>cu_repositories := cs\<rparr>"
      by (auto simp: rbind_Inr_iff)
    obtain chunks where chunks: "try_map (contribution_from_wire js) (repository_messages events) = Inr chunks" "collected chunks (cu_repositories a)"
      using assms(1) by (auto simp: accumulated_def)
    have "collected (chunks @ [chunk]) cs" by (rule collected_push [OF chunks(2) chunk(2)])
    then show ?thesis using assms(1) chunks(1) chunk(1) by (simp add: accumulated_def a' e(1) EventRepository try_map_append)
  next
    case (EventContribution m)
    then show ?thesis using assms(1) e by (auto simp: accumulated_def try_map_append rbind_Inr_iff)
  next
    case (EventProgress phase)
    then show ?thesis using assms(1) e by (auto simp: accumulated_def rbind_Inr_iff)
  qed (use assms(1) e in \<open>auto simp: accumulated_def split: if_splits\<close>)
qed

lemma accumulated_all:
  "try_fold (push_analyze_event js) events a = Inr a' \<Longrightarrow> accumulated js before a \<Longrightarrow> accumulated js (before @ events) a'"
proof (induction events arbitrary: a before)
  case (Cons event events)
  obtain b where b: "push_analyze_event js event a = Inr b" "try_fold (push_analyze_event js) events b = Inr a'"
    using Cons.prems(1) by (auto simp: rbind_Inr_iff)
  from Cons.IH [OF b(2) accumulated_push [OF Cons.prems(2) b(1)]] show ?case by simp
qed simp

lemma completed_is_last:
  "try_fold (push_analyze_event js) events a = Inr a' \<Longrightarrow> cu_completed a = None \<Longrightarrow> cu_completed a' = Some m
     \<Longrightarrow> events \<noteq> [] \<and> last events = Some (EventCompleted m)"
proof (induction events arbitrary: a)
  case (Cons event events)
  obtain b where b: "push_analyze_event js event a = Inr b" "try_fold (push_analyze_event js) events b = Inr a'"
    using Cons.prems(1) by (auto simp: rbind_Inr_iff)
  obtain e where e: "event = Some e" "push_event js e a = Inr b"
    using b(1) by (auto simp: push_analyze_event_def rbind_Inr_iff ok_or_Inr_eq split: if_splits)
  show ?case
  proof (cases "cu_completed b")
    case None
    with Cons.IH [OF b(2) this Cons.prems(3)] show ?thesis by simp
  next
    case (Some k)
    then have "event = Some (EventCompleted k)" using e Cons.prems(2) by (cases e) (auto simp: rbind_Inr_iff)
    moreover have "events = []" using b(2) Some by (cases events) (simp_all add: push_analyze_event_def)
    ultimately show ?thesis using Some b(2) Cons.prems(3) by simp
  qed
qed simp

text \<open>
  C18. A worker's answer is accepted only if it is complete: the stream ends with its one completion, which
  gives the metadata and the cache statistics, and reports no failure; every message in it is well
  formed; and the contribution has each repository that was named once, in the order they were first
  named, with all that its chunks held and one completeness that they agree on, and the overrides,
  resolvers and diagnostics of the whole stream in their order.
\<close>

theorem contribution_streams_exact:
  assumes "contribution_from_events js events = Inr c"
  shows "(\<exists>m. last events = Some (EventCompleted m) \<and> completions events = [m] \<and> wcm_metadata m = Some (ab_metadata c)
        \<and> wcm_cache m = Some (ab_cache c) \<and> wcm_active_repositories m = ab_active_repositories c)
    \<and> failures events = []
    \<and> (\<exists>chunks. try_map (contribution_from_wire js) (repository_messages events) = Inr chunks \<and> collected chunks (ab_repositories c))
    \<and> try_map (override_from_wire js) (concat (map wan_overrides (analysis_messages events))) = Inr (ab_overrides c)
    \<and> try_map (candidate_override_from_wire js) (concat (map wan_candidate_overrides (analysis_messages events))) = Inr (ab_candidate_overrides c)
    \<and> try_map (resolver_from_wire js) (concat (map wan_graphql_resolvers (analysis_messages events))) = Inr (ab_graphql_resolvers c)
    \<and> try_map repository_diagnostic_from_wire (concat (map wan_diagnostics (analysis_messages events))) = Inr (ab_diagnostics c)"
proof -
  obtain a where a: "try_fold (push_analyze_event js) events new_accumulator = Inr a" "finish_events a = Inr c"
    using assms by (auto simp: contribution_from_events_def rbind_Inr_iff)
  obtain m where m: "cu_completed a = Some m" "wcm_metadata m = Some (ab_metadata c)" "wcm_cache m = Some (ab_cache c)"
    and c: "wcm_active_repositories m = ab_active_repositories c" "ab_repositories c = cu_repositories a" "ab_overrides c = cu_overrides a"
      "ab_candidate_overrides c = cu_candidate_overrides a" "ab_graphql_resolvers c = cu_graphql_resolvers a"
      "ab_diagnostics c = cu_diagnostics a"
    using a(2) by (auto simp: finish_events_def rbind_Inr_iff ok_or_Inr_eq)
  have "accumulated js events a" using accumulated_all [OF a(1) accumulated_new] by simp
  moreover have "last events = Some (EventCompleted m)"
    using completed_is_last [OF a(1) _ m(1)] by (simp add: new_accumulator_def)
  ultimately show ?thesis using m c by (auto simp: accumulated_def)
qed

definition example_answer :: analyzer_contribution where
  "example_answer =
     \<lparr>ab_metadata = \<lparr>am_id = ''a'', am_version = ''1''\<rparr>, ab_active_repositories = [''r''],
      ab_repositories =
        [\<lparr>rc_repository = ''r'', rc_completeness = CompleteContribution, rc_entities = [], rc_grpc_bindings = [], rc_observations = [],
          rc_semantic_candidates = [], rc_diagnostics = [], rc_replaced_diagnostic_codes = [''x''], rc_fact_shards = []\<rparr>],
      ab_overrides = [], ab_candidate_overrides = [\<lparr>co_candidate_id = ''i'', co_resolved_to = ''t'', co_evidence = ''e''\<rparr>],
      ab_graphql_resolvers = [], ab_diagnostics = [], ab_cache = \<lparr>ca_memory_hits = 1, ca_disk_hits = 0, ca_misses = 2\<rparr>\<rparr>"

definition example_events :: "wire_analyze_event list" where
  "example_events =
     [Some (EventRepository \<lparr>wrc_repository = ''r'', wrc_completeness = contribution_completeness_to_wire CompleteContribution,
        wrc_entities = [], wrc_grpc_bindings = [], wrc_observations = [], wrc_diagnostics = [],
        wrc_replaced_diagnostic_codes = [''x''], wrc_fact_shards = []\<rparr>),
      Some (EventContribution \<lparr>wan_overrides = [],
        wan_candidate_overrides = [\<lparr>wco_candidate_id = ''i'', wco_resolved_to = ''t'', wco_evidence = ''e'', wco_range = None, wco_contexts = []\<rparr>],
        wan_graphql_resolvers = [], wan_diagnostics = []\<rparr>),
      Some (EventCompleted \<lparr>wcm_metadata = Some \<lparr>am_id = ''a'', am_version = ''1''\<rparr>, wcm_active_repositories = [''r''],
        wcm_cache = Some \<lparr>ca_memory_hits = 1, ca_disk_hits = 0, ca_misses = 2\<rparr>\<rparr>)]"

lemma plain_evidence: "evidence_parts plain_json e = (None, [])" "evidence_canonical plain_json e"
proof -
  have "ep_range (payload_legacy e) = None" "ep_contexts (payload_legacy e) = []"
    by (auto simp: payload_legacy_def Let_def split: option.split prod.split)
  moreover have "evidence_decode (jn_parse plain_json) e = payload_legacy e"
    by (simp add: evidence_decode_def plain_json_def bind_eq_None_conv split: option.split)
  ultimately show "evidence_parts plain_json e = (None, [])" "evidence_canonical plain_json e"
    by (simp_all add: evidence_parts_def evidence_canonical_def)
qed

lemma example_events_sent: "analyze_events plain_json example_answer = Inr example_events"
  by (simp add: analyze_events_def example_answer_def example_events_def repository_events_def contribution_to_wire_def
      contribution_chunks.simps contribution_taken_def contribution_left_def contribution_exhausted_def Let_def
      analysis_contribution_events_def analysis_to_wire_def analysis_chunks.simps analysis_taken_def analysis_left_def
      candidate_override_to_wire_def plain_evidence CONTRIBUTION_CHUNK_ITEMS_def)

theorem contribution_events_roundtrip_witness:
  "contribution_from_events plain_json example_events = Inr example_answer"
  using contribution_events_roundtrip [OF example_events_sent]
  by (simp add: example_answer_def contribution_carried_def contribution_separate_def analysis_carried_def plain_evidence)

lemma example_events_read: "contribution_from_events plain_json example_events = Inr example_answer"
  by (simp add: contribution_from_events_def example_events_def example_answer_def new_accumulator_def push_analyze_event_def
      contribution_from_wire_def bs_of_list_def finish_events_def candidate_override_from_wire_def evidence_of_parts_def
      contribution_completeness_from_wire_def)

theorem contribution_streams_exact_witness:
  "failures example_events = [] \<and> (case last example_events of Some (EventCompleted m) \<Rightarrow> wcm_metadata m = Some \<lparr>am_id = ''a'', am_version = ''1''\<rparr> | _ \<Rightarrow> False)"
  using contribution_streams_exact [OF example_events_read] by (auto simp: example_answer_def)

end
