(* ===== verification/Spec2Isabelle.thy ===== *)
theory Spec2Isabelle imports Prelude Ordered Domain_Error Domain_Semantic Domain_Workspace Domain_Dependency Dto Graph_Builder Breadth_First
  Graph_Distance Graph_Traversal
  Paths Git_Adapter Registry Job_Types Dirty_Repository Job_Queue Scheduler Inventory Elixir_Resolution Analysis_Identity Analyzer_Plan Indexer
  Analysis_Cache Workspace_Analysis Index_Run Published_Analysis Enrichment_Run Wire_Query Wire_Worker Worker_Stream
  Worker_Events begin

text \<open>
  A verification development for Beholder, a semantic index over the repositories of a workspace. A
  daemon finds the input files of each repository, analyzers turn them into facts and observations, a
  store publishes them as a revision of a view, queries read a graph from the rows of the store, and
  workers outside the daemon enrich what is published. The development follows that path, and every
  definition is translated from the Rust source under \<open>src/crates\<close>.

  \<^bold>\<open>Conventions.\<close> A struct is a \<open>record\<close>, an enum a \<open>datatype\<close>. \<open>Result\<close> is \<open>error + 'a\<close> with \<open>rbind\<close> for
  \<open>?\<close>; \<open>try_map\<close> and \<open>try_fold\<close> are \<open>collect\<close> into a \<open>Result\<close> and a loop with \<open>?\<close>. A \<open>String\<close> is the list of
  its UTF-8 bytes. \<open>BTreeMap\<close> and \<open>BTreeSet\<close> are the ascending lists of \<open>Ordered\<close>, a \<open>HashMap\<close> whose order
  does not matter is one of them too. Unsigned integers are naturals, with the limit of their width
  wherever the code checks it, saturates or may overflow. Loops are recursive functions with termination
  proofs. State is passed explicitly; what other threads do between two looks is a parameter or a step
  of a step relation. Floating point scores are exact: the rounding of \<open>f32\<close> and \<open>f64\<close> is written out.

  \<^bold>\<open>Foundations.\<close> \<open>Prelude\<close> has the results, the string functions of the standard library and the locale
  \<open>step_invariant\<close> for invariants of step relations. \<open>Ordered\<close> has the maps and sets and their locales:
  \<open>store\<close> for what a map built entry by entry holds, \<open>ordered_store\<close> for its determined order, \<open>set_like\<close>
  and \<open>relation_store\<close> for sets and multimaps. \<open>Paths\<close> has paths as their components, and UTF-8 with its
  lossy conversion. \<open>Activity\<close> has the calculus of the daemon's runs: an activity changes a state and goes on
  or ends the run, \<open>wp\<close> and the collection \<open>steps\<close> give one rule for each construct.

  \<^bold>\<open>Domain.\<close> \<open>Domain_Error\<close>, \<open>Domain_Semantic\<close>, \<open>Domain_Workspace\<close> and \<open>Domain_Dependency\<close> are
  \<open>domain/src\<close>: the error codes, entities, observations, evidence and their validation, workspaces and views
  with the builders that keep them well formed, and the graph of repository dependencies with its
  invariant. \<open>Dto\<close> is \<open>dto/src/lib.rs\<close>, the values queries return.

  \<^bold>\<open>Queries.\<close> \<open>Graph_Builder\<close>, \<open>Graph_Distance\<close> and \<open>Graph_Traversal\<close> are \<open>adapters-mnestic/src/semantic.rs\<close>:
  rows of the store are decoded and merged into a graph; dependencies, impact, trace and why are
  breadth-first searches, proved to give shortest distances and paths of the relation the edges are (the
  locale \<open>breadth_first\<close> of \<open>Breadth_First\<close>, interpreted for both searches); the path enumeration is proved
  to report exactly the simple paths, and to stay within its limits on steps, paths and hops with the
  truncation flagged. Each level of a breadth-first search and each step of the enumeration counts
  against a bound of the query, which is the fuel of the recursion: enough, because the code checks the
  same bound.

  \<^bold>\<open>Daemon.\<close> \<open>Git_Adapter\<close> is \<open>adapters-git/src/lib.rs\<close> over the output of Git. \<open>Registry\<close> is
  \<open>workspace_registry.rs\<close> and \<open>repository_registry.rs\<close> with the files they are kept in. \<open>Job_Types\<close> and
  \<open>Job_Queue\<close> are \<open>jobs.rs\<close>, the durable queue, with its table as a list of rows. \<open>Dirty_Repository\<close> and
  \<open>Scheduler\<close> are the state of \<open>indexing/scheduler.rs\<close>: pending changes, generations, and the step relation
  of everything that may happen to them in any order, with the invariant proved by rule induction.
  \<open>Inventory\<close> is \<open>indexing/inventory.rs\<close>: reading the inputs through a cache of digests, shown to refine a
  full read, and the checkpoints that let a run skip it. \<open>Index_Run\<close> is one indexing run of \<open>scheduler.rs\<close>
  in the calculus of \<open>Activity\<close>: load, analyze, look again, publish, complete, with what other threads do
  between two steps arbitrary. \<open>Enrichment_Run\<close> is \<open>indexing/enrichment.rs\<close> and
  \<open>enrichment_publication.rs\<close> in the same calculus.

  \<^bold>\<open>Indexing.\<close> \<open>Analysis_Identity\<close>, \<open>Analyzer_Plan\<close>, \<open>Indexer\<close>, \<open>Analysis_Cache\<close> and \<open>Workspace_Analysis\<close>
  are \<open>indexing/src/lib.rs\<close>: what identifies an analysis, how plugins are composed and selected, and the
  analysis of a workspace through its caches. Analyzers are records of functions, as the traits have
  them. The main theorem, \<open>caching_unobservable\<close>, is that the caches cannot be seen in the facts;
  \<open>Published_Analysis\<close> composes it with \<open>Index_Run\<close>: what is published is what the analyzers say of the
  files. \<open>Elixir_Resolution\<close> is \<open>adapters-treesitter-elixir/src/resolution.rs\<close>: the resolution of names over
  the facts of the syntax trees.

  \<^bold>\<open>Protocol.\<close> \<open>Wire_Query\<close> is \<open>protocol/src/entity.rs\<close>, \<open>query.rs\<close> and \<open>workspace.rs\<close>, with the locale
  \<open>wire_codec\<close> for what a message keeps, interpreted for each result. \<open>Wire_Worker\<close>, \<open>Worker_Stream\<close> and
  \<open>Worker_Events\<close> are \<open>protocol/src/worker.rs\<close>: the messages of analyzer workers, the stream of requests that
  carries a snapshot to a worker, and the stream of events that carries its contribution back in
  chunks. Messages generated from the protobuf files are records of their fields, with an enumeration
  as its number, so unknown and missing values are inputs of the decoders.

  \<^bold>\<open>Properties.\<close> Each is a theorem right after a numbered claim, with a witness right after it or at the end
  of its theory where it has hypotheses. They are of these kinds: end to end, what is published and
  that it is fresh; invariants of registry, queue, scheduler and dependency graph; refinement of a
  plain reading by the cached one and of a list of jobs by its pages; equivalence of the optimised
  routines with reference definitions; termination and bounds of the searches; round trips of the
  registry file and of the protocol; errors and what they leave behind; liveness of the queue and of
  the checkpoints.

  \<^bold>\<open>Parameters.\<close> Code that is not in the repository is an argument: Git and the file system (records of
  their answers), the hash functions (assumed injective only where a theorem says so), the JSON printer
  and parser of structured evidence, the semantic store as the scheduler and the enrichments see it, the
  worker process, the clock.

  \<^bold>\<open>Not modelled.\<close> The store itself (\<open>adapters-mnestic\<close> apart from \<open>semantic.rs\<close>): \<open>storage.rs\<close> keeps rows in
  SQLite tables, and \<open>store.rs\<close>, \<open>query.rs\<close>, \<open>schema.rs\<close> and \<open>database.rs\<close> are scripts for a third-party
  Datalog engine, whose meaning is not in the repository. Syntax analysis of TypeScript, C#, Rust,
  Elixir, GraphQL and protobuf, which walks the trees of third-party parsers, with the resolution of
  TypeScript, C# and Rust built on it; of Elixir the resolution of calls is modelled, its analyzer is
  not. Processes and transport: the RPC service, the clients, the workers, the command line and its
  rendering, telemetry and the services of operating systems. Of \<open>scheduler.rs\<close> the threads, timers and
  the file watcher's registration; of \<open>sources.rs\<close> what descends into directories.
\<close>

end
